(* ===== verification/Prelude.thy ===== *)
theory Prelude
  imports Main "HOL-Library.Word" "HOL-Library.Multiset" "HOL-Library.Sublist"
begin

text \<open>
  Shared vocabulary of the development: the fixed-width integer types of
  \<^verbatim>\<open>src/src/common/Define.h\<close>, C++ truth of a masked value, and the models of the
  standard containers the sources use.  A \<^verbatim>\<open>std::map\<close> (and \<^verbatim>\<open>std::set\<close>) is a list in
  strictly ascending key order, because the sources iterate over them and the
  order of iteration is visible; a \<^verbatim>\<open>std::multimap\<close> is a list in ascending key
  order in which a new element goes behind the elements of the same key.
\<close>

unbundle bit_operations_syntax

section \<open>Integer types\<close>

type_synonym uint8 = "8 word"
type_synonym uint16 = "16 word"
type_synonym uint32 = "32 word"
type_synonym uint64 = "64 word"
type_synonym int32 = "32 word"

text \<open>The C++ condition \<^verbatim>\<open>if (x & m)\<close>.\<close>

definition has_bits :: "'a::len word \<Rightarrow> 'a word \<Rightarrow> bool" where
  "has_bits x m \<longleftrightarrow> x AND m \<noteq> 0"

lemma has_bits_iff: "has_bits x m \<longleftrightarrow> (\<exists>n. bit x n \<and> bit m n)"
proof -
  have "x AND m = 0 \<longleftrightarrow> (\<forall>n. \<not> (bit x n \<and> bit m n))"
    by (auto simp: bit_eq_iff bit_simps dest: bit_imp_le_length)
  then show ?thesis by (auto simp: has_bits_def)
qed

lemma byte_bit: "bit x n \<Longrightarrow> n < 8" for x :: uint8
  using bit_imp_le_length [of x n] by simp

text \<open>\<^verbatim>\<open>size_t\<close> values are naturals below \<open>2 ^ 64\<close>; the sum of two of them wraps.\<close>

definition sz_add :: "nat \<Rightarrow> nat \<Rightarrow> nat" where
  "sz_add a b = (a + b) mod 2 ^ 64"

definition sz_sub :: "nat \<Rightarrow> nat \<Rightarrow> nat" where
  "sz_sub a b = (a + 2 ^ 64 - b) mod 2 ^ 64"

lemma sz_add_small: "a + b < 2 ^ 64 \<Longrightarrow> sz_add a b = a + b"
  by (simp add: sz_add_def)

lemma sz_sub_le:
  assumes "b \<le> a" and "a < 2 ^ 64"
  shows "sz_sub a b = a - b"
proof -
  have "a + 2 ^ 64 - b = (a - b) + 2 ^ 64" using assms(1) by (rule diff_add_assoc2)
  moreover have "a - b < 2 ^ 64" using assms(2) by (rule less_imp_diff_less)
  ultimately show ?thesis by (simp only: sz_sub_def mod_add_self2 mod_less)
qed

section \<open>Results\<close>

text \<open>A computation that may throw: \<open>Inl\<close> is the exception.\<close>

definition res_bind :: "'e + 'a \<Rightarrow> ('a \<Rightarrow> 'e + 'b) \<Rightarrow> 'e + 'b" where
  "res_bind r f = (case r of Inl e \<Rightarrow> Inl e | Inr x \<Rightarrow> f x)"

lemma res_bind_simps [simp]:
  "res_bind (Inl e) f = Inl e"
  "res_bind (Inr x) f = f x"
  by (simp_all add: res_bind_def)

lemma res_bind_Inr_iff: "res_bind r f = Inr y \<longleftrightarrow> (\<exists>x. r = Inr x \<and> f x = Inr y)"
  by (cases r) auto

section \<open>std::vector of bytes\<close>

text \<open>\<^verbatim>\<open>resize\<close> cuts or zero-fills; \<^verbatim>\<open>memcpy\<close> overwrites a range that lies inside.\<close>

definition vec_resize :: "nat \<Rightarrow> 'a::zero list \<Rightarrow> 'a list" where
  "vec_resize n xs = take n xs @ replicate (n - length xs) 0"

definition vec_write :: "nat \<Rightarrow> 'a list \<Rightarrow> 'a list \<Rightarrow> 'a list" where
  "vec_write pos src xs = take pos xs @ src @ drop (pos + length src) xs"

lemma length_vec_resize [simp]: "length (vec_resize n xs) = n"
  by (simp add: vec_resize_def)

lemma length_vec_write [simp]: "pos + length src \<le> length xs \<Longrightarrow> length (vec_write pos src xs) = length xs"
  by (simp add: vec_write_def)

lemma vec_resize_ge: "length xs \<le> n \<Longrightarrow> vec_resize n xs = xs @ replicate (n - length xs) 0"
  by (simp add: vec_resize_def)

lemma vec_write_end: "vec_write (length xs) src (xs @ replicate (length src) z) = xs @ src"
  by (simp add: vec_write_def)

lemma vec_write_before: "n < pos \<Longrightarrow> pos \<le> length xs \<Longrightarrow> vec_write pos src xs ! n = xs ! n"
  by (simp add: vec_write_def nth_append)

lemma vec_write_inside:
  "pos \<le> n \<Longrightarrow> n < pos + length src \<Longrightarrow> pos \<le> length xs \<Longrightarrow> vec_write pos src xs ! n = src ! (n - pos)"
  by (auto simp: vec_write_def nth_append)

section \<open>Theorem collections\<close>

named_theorems map_simps "laws of the container operations"
named_theorems inv_intros "operations keep the invariants of their component"

section \<open>std::map\<close>

type_synonym ('k, 'v) stdmap = "('k \<times> 'v) list"

definition om_ok :: "('k::linorder, 'v) stdmap \<Rightarrow> bool" where
  "om_ok m \<longleftrightarrow> sorted_wrt (<) (map fst m)"

fun om_find :: "('k, 'v) stdmap \<Rightarrow> 'k \<Rightarrow> 'v option" where
  "om_find [] k = None"
| "om_find ((k', v) # m) k = (if k = k' then Some v else om_find m k)"

fun om_put :: "'k::linorder \<Rightarrow> 'v \<Rightarrow> ('k, 'v) stdmap \<Rightarrow> ('k, 'v) stdmap" where
  "om_put k v [] = [(k, v)]"
| "om_put k v ((k', v') # m) =
     (if k < k' then (k, v) # (k', v') # m
      else if k = k' then (k, v) # m
      else (k', v') # om_put k v m)"

definition om_erase :: "'k \<Rightarrow> ('k, 'v) stdmap \<Rightarrow> ('k, 'v) stdmap" where
  "om_erase k m = filter (\<lambda>p. fst p \<noteq> k) m"

text \<open>\<^verbatim>\<open>m[k]\<close> inserts a default-constructed value when the key is missing.\<close>

definition om_at :: "'v \<Rightarrow> ('k, 'v) stdmap \<Rightarrow> 'k \<Rightarrow> 'v" where
  "om_at dflt m k = (case om_find m k of None \<Rightarrow> dflt | Some v \<Rightarrow> v)"

definition om_keys :: "('k, 'v) stdmap \<Rightarrow> 'k set" where
  "om_keys m = fst ` set m"

lemma om_find_put [simp, map_simps]:
  "om_find (om_put k v m) k' = (if k' = k then Some v else om_find m k')"
  by (induction k v m rule: om_put.induct) auto

lemma om_find_erase [simp, map_simps]:
  "om_find (om_erase k m) k' = (if k' = k then None else om_find m k')"
  by (induction m) (auto simp: om_erase_def)

lemma om_keys_put [simp]: "om_keys (om_put k v m) = insert k (om_keys m)"
  by (induction k v m rule: om_put.induct) (auto simp: om_keys_def)

lemma om_keys_erase [simp]: "om_keys (om_erase k m) = om_keys m - {k}"
  by (auto simp: om_keys_def om_erase_def)

lemma om_keys_Nil [simp]: "om_keys [] = {}"
  by (simp add: om_keys_def)

lemma om_keys_Cons [simp]: "om_keys ((k, v) # m) = insert k (om_keys m)"
  by (simp add: om_keys_def)

lemma om_ok_Nil [simp]: "om_ok []"
  by (simp add: om_ok_def)

lemma om_ok_Cons [simp]: "om_ok ((k, v) # m) \<longleftrightarrow> (\<forall>k'\<in>om_keys m. k < k') \<and> om_ok m"
  by (simp add: om_ok_def om_keys_def)

lemma om_ok_put [simp, inv_intros]: "om_ok m \<Longrightarrow> om_ok (om_put k v m)"
  by (induction k v m rule: om_put.induct) auto

lemma om_ok_filter: "om_ok m \<Longrightarrow> om_ok (filter P m)"
  by (induction m) (auto simp: om_keys_def)

lemma om_ok_erase [simp, inv_intros]: "om_ok m \<Longrightarrow> om_ok (om_erase k m)"
  by (simp add: om_erase_def om_ok_filter)

lemma om_find_None_iff: "om_find m k = None \<longleftrightarrow> k \<notin> om_keys m"
  by (induction m) (auto split: if_splits)

lemma om_find_keys: "k \<in> om_keys m \<longleftrightarrow> (\<exists>v. om_find m k = Some v)"
  by (metis om_find_None_iff not_None_eq)

lemma om_find_mem: "om_find m k = Some v \<Longrightarrow> (k, v) \<in> set m"
  by (induction m) (auto split: if_splits)

lemma om_find_iff_mem: "om_ok m \<Longrightarrow> om_find m k = Some v \<longleftrightarrow> (k, v) \<in> set m"
proof (induction m)
  case (Cons p m)
  then show ?case by (cases p) (force simp: om_keys_def)
qed simp

lemma set_om_put: "om_ok m \<Longrightarrow> set (om_put k v m) = insert (k, v) {p \<in> set m. fst p \<noteq> k}"
proof -
  assume ok: "om_ok m"
  then have "(a, b) \<in> set (om_put k v m) \<longleftrightarrow> a = k \<and> b = v \<or> (a, b) \<in> set m \<and> a \<noteq> k" for a b
    using om_find_iff_mem [OF ok, of a b] om_find_iff_mem [OF om_ok_put [OF ok], of k v a b]
    by (cases "a = k") auto
  then show ?thesis by auto
qed

lemma om_put_put [simp]: "om_ok m \<Longrightarrow> om_put k v (om_put k w m) = om_put k v m"
  by (induction k w m rule: om_put.induct) auto

lemma om_erase_notin [simp]: "k \<notin> om_keys m \<Longrightarrow> om_erase k m = m"
  by (induction m) (auto simp: om_erase_def om_keys_def)

lemma om_find_None_put_length: "om_find m k = None \<Longrightarrow> length (om_put k v m) = Suc (length m)"
  by (induction k v m rule: om_put.induct) (auto split: if_splits)

lemma om_ok_map_values: "om_ok m \<Longrightarrow> om_ok (map (\<lambda>(k, v). (k, f k v)) m)"
  by (simp add: om_ok_def case_prod_unfold comp_def)

lemma om_find_map_values:
  "om_find (map (\<lambda>(k, v). (k, f k v)) m) k = map_option (f k) (om_find m k)"
  by (induction m) auto

lemma om_keys_map_values [simp]: "om_keys (map (\<lambda>(k, v). (k, f k v)) m) = om_keys m"
  by (force simp: om_keys_def)

lemma om_ok_distinct: "om_ok m \<Longrightarrow> distinct (map fst m)"
  by (auto simp: om_ok_def strict_sorted_iff)

lemma om_put_present:
  assumes "om_ok (pre @ (k, v) # suf)"
  shows "om_put k w (pre @ (k, v) # suf) = pre @ (k, w) # suf"
  using assms
proof (induction pre)
  case (Cons p pre)
  obtain k' v' where p: "p = (k', v')" by fastforce
  then have "k' < k" using Cons.prems by (auto simp: om_keys_def)
  then show ?case using Cons p by auto
qed simp

lemma om_find_present:
  assumes "om_ok (pre @ (k, v) # suf)"
  shows "om_find (pre @ (k, v) # suf) k = Some v"
  using assms by (simp add: om_find_iff_mem)


lemma om_ok_replace: "om_ok (pre @ (k, v) # suf) \<Longrightarrow> om_ok (pre @ (k, w) # suf)"
  by (simp add: om_ok_def)

text \<open>A set bit lies below the width of the value.\<close>

lemma low_bit:
  fixes w :: "'a::len word"
  assumes "bit w n" and "unat w < 2 ^ k"
  shows "n < k"
proof (rule ccontr)
  assume "\<not> n < k"
  then have "(2::nat) ^ k \<le> 2 ^ n" by simp
  then have "unat w < 2 ^ n" using assms(2) by (rule order.strict_trans2 [rotated])
  then have "\<not> bit (unat w) n" by (simp add: bit_iff_odd)
  then show False using assms(1) by (simp add: bit_unsigned_iff)
qed

section \<open>std::set\<close>

text \<open>Insertion into and removal from a strictly ascending list.\<close>

fun os_insert :: "'k::linorder \<Rightarrow> 'k list \<Rightarrow> 'k list" where
  "os_insert k [] = [k]"
| "os_insert k (k' # s) =
     (if k < k' then k # k' # s else if k = k' then k' # s else k' # os_insert k s)"

definition os_erase :: "'k \<Rightarrow> 'k list \<Rightarrow> 'k list" where
  "os_erase k s = filter (\<lambda>x. x \<noteq> k) s"

abbreviation os_ok :: "'k::linorder list \<Rightarrow> bool" where
  "os_ok s \<equiv> sorted_wrt (<) s"

lemma set_os_insert [simp, map_simps]: "set (os_insert k s) = insert k (set s)"
  by (induction k s rule: os_insert.induct) auto

lemma set_os_erase [simp, map_simps]: "set (os_erase k s) = set s - {k}"
  by (auto simp: os_erase_def)

lemma os_ok_insert [simp, inv_intros]: "os_ok s \<Longrightarrow> os_ok (os_insert k s)"
  by (induction k s rule: os_insert.induct) auto

lemma os_ok_erase [simp, inv_intros]: "os_ok s \<Longrightarrow> os_ok (os_erase k s)"
  by (simp add: os_erase_def sorted_wrt_filter)

lemma os_ok_distinct: "os_ok s \<Longrightarrow> distinct s"
  by (simp add: strict_sorted_iff)

lemma os_ok_card: "os_ok s \<Longrightarrow> length s = card (set s)"
  by (simp add: distinct_card os_ok_distinct)

section \<open>std::multimap\<close>

fun mm_insert :: "'k::linorder \<Rightarrow> 'v \<Rightarrow> ('k \<times> 'v) list \<Rightarrow> ('k \<times> 'v) list" where
  "mm_insert k v [] = [(k, v)]"
| "mm_insert k v ((k', v') # m) =
     (if k < k' then (k, v) # (k', v') # m else (k', v') # mm_insert k v m)"

definition mm_ok :: "('k::linorder \<times> 'v) list \<Rightarrow> bool" where
  "mm_ok m \<longleftrightarrow> sorted (map fst m)"

lemma mm_insert_front: "\<forall>p\<in>set m. k < fst p \<Longrightarrow> mm_insert k v m = (k, v) # m"
  by (cases m) auto

text \<open>Insertion of a range, one element after the other.\<close>

definition mm_insert_all :: "('k::linorder \<times> 'v) list \<Rightarrow> ('k \<times> 'v) list \<Rightarrow> ('k \<times> 'v) list" where
  "mm_insert_all xs m = fold (\<lambda>(k, v). mm_insert k v) xs m"

lemma mset_mm_insert [simp, map_simps]: "mset (mm_insert k v m) = add_mset (k, v) (mset m)"
  by (induction k v m rule: mm_insert.induct) auto

lemma set_mm_insert [simp]: "set (mm_insert k v m) = insert (k, v) (set m)"
  by (induction k v m rule: mm_insert.induct) auto

lemma mm_ok_insert [simp, inv_intros]: "mm_ok m \<Longrightarrow> mm_ok (mm_insert k v m)"
  by (induction k v m rule: mm_insert.induct) (auto simp: mm_ok_def)

lemma mset_mm_insert_all [simp, map_simps]: "mset (mm_insert_all xs m) = mset xs + mset m"
proof -
  have "mset (fold (\<lambda>(k, v). mm_insert k v) xs m) = mset xs + mset m"
    by (induction xs arbitrary: m) auto
  then show ?thesis by (simp add: mm_insert_all_def)
qed

lemma mm_ok_insert_all [simp, inv_intros]: "mm_ok m \<Longrightarrow> mm_ok (mm_insert_all xs m)"
  unfolding mm_insert_all_def by (induction xs arbitrary: m) auto

lemma mm_ok_filter [inv_intros]: "mm_ok m \<Longrightarrow> mm_ok (filter P m)"
  unfolding mm_ok_def by (rule sorted_filter)

lemma mm_ok_Nil [simp]: "mm_ok []"
  by (simp add: mm_ok_def)

lemma mm_ok_Cons [simp]: "mm_ok ((k, v) # m) \<longleftrightarrow> (\<forall>p\<in>set m. k \<le> fst p) \<and> mm_ok m"
  by (simp add: mm_ok_def)

lemma filter_mm_insert:
  "mm_ok m \<Longrightarrow> filter P (mm_insert k v m) =
     (if P (k, v) then mm_insert k v (filter P m) else filter P m)"
proof (induction k v m rule: mm_insert.induct)
  case (2 k v k' v' m)
  have "k < k' \<Longrightarrow> mm_insert k v (filter P m) = (k, v) # filter P m"
    using 2(2) by (intro mm_insert_front) (auto intro: less_le_trans)
  with 2 show ?case by auto
qed simp

section \<open>The contract of a keyed store\<close>

text \<open>
  What the components rely on when they look values up, store them and erase
  them: the three laws of a finite map.  The lemmas of the locale are what the
  proofs about the managers use.
\<close>

locale keyed_store =
  fixes lookup :: "'m \<Rightarrow> 'k \<Rightarrow> 'v option"
    and put :: "'k \<Rightarrow> 'v \<Rightarrow> 'm \<Rightarrow> 'm"
    and erase :: "'k \<Rightarrow> 'm \<Rightarrow> 'm"
  assumes lookup_put: "lookup (put k v m) k' = (if k' = k then Some v else lookup m k')"
    and lookup_erase: "lookup (erase k m) k' = (if k' = k then None else lookup m k')"
begin

lemma put_then_get: "lookup (put k v m) k = Some v"
  by (simp add: lookup_put)

lemma put_frame: "k' \<noteq> k \<Longrightarrow> lookup (put k v m) k' = lookup m k'"
  by (simp add: lookup_put)

lemma erase_frame: "k' \<noteq> k \<Longrightarrow> lookup (erase k m) k' = lookup m k'"
  by (simp add: lookup_erase)

lemma erase_put: "lookup (erase k (put k v m)) = lookup (erase k m)"
  by (rule ext) (simp add: lookup_put lookup_erase)

lemma fold_put_frame:
  "k \<notin> set ks \<Longrightarrow> lookup (fold (\<lambda>x m. put x (f x m) m) ks m) k = lookup m k"
  by (induction ks arbitrary: m) (auto simp: lookup_put)

lemma fold_erase_lookup:
  "lookup (fold erase ks m) k = (if k \<in> set ks then None else lookup m k)"
  by (induction ks arbitrary: m) (auto simp: lookup_erase)

end

interpretation omap: keyed_store om_find om_put om_erase
  by unfold_locales auto

end
