(* ===== verification/EventMap.thy ===== *)
theory EventMap
  imports Prelude
begin

text \<open>
  The event scheduler of the creature scripts, \<^verbatim>\<open>src/src/common/Utilities/EventMap.h\<close>
  and \<^verbatim>\<open>EventMap.cpp\<close>: a stopwatch, a phase mask and a multimap from due times to
  event data of the form \<^verbatim>\<open>0xPPGGEEEE\<close>.  All quantities are kept at their width;
  the due time \<^verbatim>\<open>_time + time\<close> wraps at \<open>2 ^ 32\<close>.
\<close>

section \<open>State\<close>

record event_map =
  em_time :: uint32
  em_phase :: uint8
  em_store :: "(uint32 \<times> uint32) list"
  em_last :: uint32

definition EventMap_init :: event_map where
  "EventMap_init = \<lparr>em_time = 0, em_phase = 0, em_store = [], em_last = 0\<rparr>"

definition event_id :: "uint32 \<Rightarrow> uint32" where
  "event_id d = d AND 0x0000FFFF"

text \<open>The bit of a group (1 to 8) and of a phase (1 to 8) in the event data.\<close>

definition group_bit :: "uint32 \<Rightarrow> uint32" where
  "group_bit g = push_bit (unat g + 15) 1"

definition phase_bit32 :: "uint8 \<Rightarrow> uint32" where
  "phase_bit32 p = push_bit (unat p + 23) 1"

definition phase_bit8 :: "uint8 \<Rightarrow> uint8" where
  "phase_bit8 p = push_bit (unat p - 1) 1"

section \<open>Operations\<close>

definition Reset :: "event_map \<Rightarrow> event_map" where
  "Reset em = em\<lparr>em_store := [], em_time := 0, em_phase := 0\<rparr>"

definition Update :: "uint32 \<Rightarrow> event_map \<Rightarrow> event_map" where
  "Update time em = em\<lparr>em_time := em_time em + time\<rparr>"

definition Empty :: "event_map \<Rightarrow> bool" where
  "Empty em \<longleftrightarrow> em_store em = []"

definition SetPhase :: "uint8 \<Rightarrow> event_map \<Rightarrow> event_map" where
  "SetPhase phase em =
     (if phase = 0 then em\<lparr>em_phase := 0\<rparr>
      else if phase \<le> 8 then em\<lparr>em_phase := phase_bit8 phase\<rparr>
      else em)"

definition AddPhase :: "uint8 \<Rightarrow> event_map \<Rightarrow> event_map" where
  "AddPhase phase em =
     (if phase \<noteq> 0 \<and> phase \<le> 8
      then em\<lparr>em_phase := em_phase em OR phase_bit8 phase\<rparr> else em)"

definition RemovePhase :: "uint8 \<Rightarrow> event_map \<Rightarrow> event_map" where
  "RemovePhase phase em =
     (if phase \<noteq> 0 \<and> phase \<le> 8
      then em\<lparr>em_phase := em_phase em AND NOT (phase_bit8 phase)\<rparr> else em)"

definition IsInPhase :: "uint8 \<Rightarrow> event_map \<Rightarrow> bool" where
  "IsInPhase phase em \<longleftrightarrow>
     phase \<le> 8 \<and> (phase = 0 \<or> has_bits (em_phase em) (phase_bit8 phase))"

definition ScheduleEvent ::
  "uint32 \<Rightarrow> uint32 \<Rightarrow> uint32 \<Rightarrow> uint8 \<Rightarrow> event_map \<Rightarrow> event_map" where
  "ScheduleEvent eventId time grp phase em =
     (let d1 = (if grp \<noteq> 0 \<and> grp \<le> 8 then eventId OR group_bit grp else eventId);
          d2 = (if phase \<noteq> 0 \<and> phase \<le> 8 then d1 OR phase_bit32 phase else d1)
      in em\<lparr>em_store := mm_insert (em_time em + time) d2 (em_store em)\<rparr>)"

definition CancelEvent :: "uint32 \<Rightarrow> event_map \<Rightarrow> event_map" where
  "CancelEvent eventId em =
     (if Empty em then em
      else em\<lparr>em_store := filter (\<lambda>(t, d). eventId \<noteq> event_id d) (em_store em)\<rparr>)"

definition CancelEventGroup :: "uint32 \<Rightarrow> event_map \<Rightarrow> event_map" where
  "CancelEventGroup grp em =
     (if grp = 0 \<or> grp > 8 \<or> Empty em then em
      else em\<lparr>em_store := filter (\<lambda>(t, d). \<not> has_bits d (group_bit grp)) (em_store em)\<rparr>)"

definition RescheduleEvent ::
  "uint32 \<Rightarrow> uint32 \<Rightarrow> uint32 \<Rightarrow> uint8 \<Rightarrow> event_map \<Rightarrow> event_map" where
  "RescheduleEvent eventId time grp phase em =
     ScheduleEvent eventId time grp phase (CancelEvent eventId em)"

definition Repeat :: "uint32 \<Rightarrow> event_map \<Rightarrow> event_map" where
  "Repeat time em =
     em\<lparr>em_store := mm_insert (em_time em + time) (em_last em) (em_store em)\<rparr>"

text \<open>
  The loop of \<^verbatim>\<open>ExecuteEvent\<close>: it discards due events that are bound to phases none
  of which is active and stops at the first event that is not due or may run.
\<close>

definition phase_blocked :: "uint8 \<Rightarrow> uint32 \<Rightarrow> bool" where
  "phase_blocked phase d \<longleftrightarrow>
     phase \<noteq> 0 \<and> has_bits d 0xFF000000 \<and> \<not> has_bits (drop_bit 24 d) (ucast phase)"

fun execute_loop :: "uint32 \<Rightarrow> uint8 \<Rightarrow> (uint32 \<times> uint32) list
    \<Rightarrow> (uint32 \<times> uint32) option \<times> (uint32 \<times> uint32) list" where
  "execute_loop now phase [] = (None, [])"
| "execute_loop now phase ((t, d) # rest) =
     (if t > now then (None, (t, d) # rest)
      else if phase_blocked phase d then execute_loop now phase rest
      else (Some (t, d), rest))"

definition ExecuteEvent :: "event_map \<Rightarrow> uint32 \<times> event_map" where
  "ExecuteEvent em =
     (case execute_loop (em_time em) (em_phase em) (em_store em) of
        (None, rest) \<Rightarrow> (0, em\<lparr>em_store := rest\<rparr>)
      | (Some (t, d), rest) \<Rightarrow> (event_id d, em\<lparr>em_store := rest, em_last := d\<rparr>))"

definition DelayEvents :: "uint32 \<Rightarrow> event_map \<Rightarrow> event_map" where
  "DelayEvents delay em =
     em\<lparr>em_time := (if delay < em_time em then em_time em - delay else 0)\<rparr>"

definition DelayEventsGroup :: "uint32 \<Rightarrow> uint32 \<Rightarrow> event_map \<Rightarrow> event_map" where
  "DelayEventsGroup delay grp em =
     (if grp = 0 \<or> grp > 8 \<or> Empty em then em
      else let hit = (\<lambda>(t, d). has_bits d (group_bit grp));
               delayed = mm_insert_all
                 (map (\<lambda>(t, d). (t + delay, d)) (filter hit (em_store em))) [];
               kept = filter (\<lambda>p. \<not> hit p) (em_store em)
           in em\<lparr>em_store := mm_insert_all delayed kept\<rparr>)"

definition GetNextEventTime :: "uint32 \<Rightarrow> event_map \<Rightarrow> uint32" where
  "GetNextEventTime eventId em =
     (case find (\<lambda>(t, d). eventId = event_id d) (em_store em) of
        None \<Rightarrow> 0 | Some (t, d) \<Rightarrow> t)"

definition NextEventTime :: "event_map \<Rightarrow> uint32" where
  "NextEventTime em = (case em_store em of [] \<Rightarrow> 0 | (t, d) # rest \<Rightarrow> t)"

definition GetTimeUntilEvent :: "uint32 \<Rightarrow> event_map \<Rightarrow> uint32" where
  "GetTimeUntilEvent eventId em =
     (case find (\<lambda>(t, d). eventId = event_id d) (em_store em) of
        None \<Rightarrow> 0xFFFFFFFF | Some (t, d) \<Rightarrow> t - em_time em)"


section \<open>Bits of the event data\<close>

lemma bit_group_bit: "bit (group_bit g) n \<longleftrightarrow> n < 32 \<and> n = unat g + 15"
  by (auto simp: group_bit_def bit_simps)

lemma bit_phase_bit32: "bit (phase_bit32 p) n \<longleftrightarrow> n < 32 \<and> n = unat p + 23"
  by (auto simp: phase_bit32_def bit_simps)

lemma bit_phase_bit8: "bit (phase_bit8 p) n \<longleftrightarrow> n < 8 \<and> n = unat p - 1"
  by (auto simp: phase_bit8_def bit_simps)

lemma small_word32: "(p::uint32) \<noteq> 0 \<Longrightarrow> p \<le> 8 \<Longrightarrow> 1 \<le> unat p \<and> unat p \<le> 8"
  by (simp add: word_le_nat_alt unat_eq_0 [symmetric])

lemma small_word8: "(p::uint8) \<noteq> 0 \<Longrightarrow> p \<le> 8 \<Longrightarrow> 1 \<le> unat p \<and> unat p \<le> 8"
  by (simp add: word_le_nat_alt unat_eq_0 [symmetric])

lemma has_group_bit:
  "g \<noteq> 0 \<Longrightarrow> g \<le> 8 \<Longrightarrow> has_bits d (group_bit g) \<longleftrightarrow> bit d (unat g + 15)" for g d :: uint32
  using small_word32 [of g] by (auto simp: has_bits_iff bit_group_bit)

lemma bit_event_id: "bit (event_id d) n \<longleftrightarrow> n < 16 \<and> bit d n"
proof -
  have m: "0x0000FFFF = (mask 16 :: uint32)" by (simp add: mask_eq_exp_minus_1)
  show ?thesis unfolding event_id_def m by (auto simp: bit_simps)
qed

lemma event_id_small: "event_id (event_id d) = event_id d"
  by (rule bit_word_eqI) (simp add: bit_event_id)


section \<open>Steps and reachable states\<close>

text \<open>One rule for each public operation that changes the map.\<close>

inductive em_step :: "event_map \<Rightarrow> event_map \<Rightarrow> bool" where
  em_reset: "em_step em (Reset em)"
| em_update: "em_step em (Update time em)"
| em_set_phase: "em_step em (SetPhase p em)"
| em_add_phase: "em_step em (AddPhase p em)"
| em_remove_phase: "em_step em (RemovePhase p em)"
| em_schedule: "em_step em (ScheduleEvent i time g p em)"
| em_reschedule: "em_step em (RescheduleEvent i time g p em)"
| em_repeat: "em_step em (Repeat time em)"
| em_execute: "em_step em (snd (ExecuteEvent em))"
| em_delay: "em_step em (DelayEvents delay em)"
| em_delay_group: "em_step em (DelayEventsGroup delay g em)"
| em_cancel: "em_step em (CancelEvent i em)"
| em_cancel_group: "em_step em (CancelEventGroup g em)"

inductive em_reachable :: "event_map \<Rightarrow> bool" where
  em_start: "em_reachable EventMap_init"
| em_next: "em_reachable em \<Longrightarrow> em_step em em' \<Longrightarrow> em_reachable em'"

lemma execute_loop_split:
  "execute_loop now phase m = (r, rest) \<Longrightarrow>
     \<exists>skipped. m = skipped @ (case r of None \<Rightarrow> [] | Some p \<Rightarrow> [p]) @ rest \<and>
       (\<forall>p\<in>set skipped. fst p \<le> now \<and> phase_blocked phase (snd p)) \<and>
       (case r of None \<Rightarrow> rest = [] \<or> fst (hd rest) > now
        | Some p \<Rightarrow> fst p \<le> now \<and> \<not> phase_blocked phase (snd p))"
proof (induction now phase m rule: execute_loop.induct)
  case (1 now phase)
  then show ?case by auto
next
  case (2 now phase t d m)
  show ?case
  proof (cases "\<not> t > now \<and> phase_blocked phase d")
    case True
    with 2 obtain sk where
      "m = sk @ (case r of None \<Rightarrow> [] | Some p \<Rightarrow> [p]) @ rest"
      "\<forall>p\<in>set sk. fst p \<le> now \<and> phase_blocked phase (snd p)"
      "case r of None \<Rightarrow> rest = [] \<or> fst (hd rest) > now
        | Some p \<Rightarrow> fst p \<le> now \<and> \<not> phase_blocked phase (snd p)"
      by auto
    with True show ?thesis by (intro exI [of _ "(t, d) # sk"]) auto
  next
    case False
    with 2(2) show ?thesis by (intro exI [of _ "[]"]) (auto split: if_splits)
  qed
qed

lemma mm_ok_append: "mm_ok (xs @ ys) \<longleftrightarrow> mm_ok xs \<and> mm_ok ys \<and> (\<forall>x\<in>set xs. \<forall>y\<in>set ys. fst x \<le> fst y)"
  by (auto simp: mm_ok_def sorted_append)

lemma mm_ok_execute: "mm_ok (em_store em) \<Longrightarrow> mm_ok (em_store (snd (ExecuteEvent em)))"
  using execute_loop_split [of "em_time em" "em_phase em" "em_store em"]
  by (auto simp: ExecuteEvent_def mm_ok_append split: prod.splits option.splits)

lemma em_step_sorted: "em_step em em' \<Longrightarrow> mm_ok (em_store em) \<Longrightarrow> mm_ok (em_store em')"
  by (induction rule: em_step.induct)
    (auto simp: Reset_def Update_def SetPhase_def AddPhase_def RemovePhase_def ScheduleEvent_def
      RescheduleEvent_def Repeat_def DelayEvents_def DelayEventsGroup_def CancelEvent_def
      CancelEventGroup_def Let_def mm_ok_execute intro!: mm_ok_insert mm_ok_insert_all mm_ok_filter)

lemma em_reachable_sorted: "em_reachable em \<Longrightarrow> mm_ok (em_store em)"
  by (induction rule: em_reachable.induct)
    (auto simp: EventMap_init_def intro: em_step_sorted)

lemma mm_ok_hd_later: "mm_ok m \<Longrightarrow> m = [] \<or> fst (hd m) > now \<Longrightarrow> p \<in> set m \<Longrightarrow> fst p > now"
  by (cases m) (auto intro: less_le_trans)


lemma event_id_group: "event_id (d OR group_bit g) = event_id d" if "g \<noteq> 0" "g \<le> 8"
  by (rule bit_word_eqI) (use small_word32 [OF that] in \<open>auto simp: bit_event_id bit_simps bit_group_bit\<close>)

lemma event_id_phase: "event_id (d OR phase_bit32 p) = event_id d"
  by (rule bit_word_eqI) (auto simp: bit_event_id bit_simps bit_phase_bit32)

lemma event_id_high: "event_id i = i \<Longrightarrow> 16 \<le> n \<Longrightarrow> \<not> bit i n"
  using bit_event_id [of i n] by auto

text \<open>The data that \<^verbatim>\<open>ScheduleEvent\<close> stores.\<close>

definition event_data :: "uint32 \<Rightarrow> uint32 \<Rightarrow> uint8 \<Rightarrow> uint32" where
  "event_data i grp p =
     (let d1 = (if grp \<noteq> 0 \<and> grp \<le> 8 then i OR group_bit grp else i)
      in if p \<noteq> 0 \<and> p \<le> 8 then d1 OR phase_bit32 p else d1)"

lemma ScheduleEvent_data:
  "ScheduleEvent i time grp p em =
     em\<lparr>em_store := mm_insert (em_time em + time) (event_data i grp p) (em_store em)\<rparr>"
  by (simp add: ScheduleEvent_def event_data_def Let_def)

lemma event_id_data: "event_id (event_data i grp p) = event_id i"
  by (simp add: event_data_def Let_def event_id_group event_id_phase)

lemma event_data_group:
  assumes "event_id i = i" and "g \<noteq> 0" and "g \<le> 8"
  shows "has_bits (event_data i grp p) (group_bit g) \<longleftrightarrow> g = grp"
proof -
  have g: "1 \<le> unat g \<and> unat g \<le> 8" by (rule small_word32 [OF assms(2,3)])
  have hi: "\<not> bit i (unat g + 15)" using g by (intro event_id_high [OF assms(1)]) simp
  have b: "has_bits (event_data i grp p) (group_bit g) \<longleftrightarrow> bit (event_data i grp p) (unat g + 15)"
    by (rule has_group_bit [OF assms(2,3)])
  have "bit (event_data i grp p) (unat g + 15) \<longleftrightarrow> grp \<noteq> 0 \<and> grp \<le> 8 \<and> unat g = unat grp"
  proof -
    have "unat p \<ge> 1" if "p \<noteq> 0" using that by (simp add: unat_eq_0 [symmetric])
    then show ?thesis
      using g hi by (auto simp: event_data_def Let_def bit_simps bit_group_bit bit_phase_bit32)
  qed
  also have "\<dots> \<longleftrightarrow> g = grp" using assms(2,3) by (metis word_unat_eq_iff)
  finally show ?thesis using b by simp
qed

lemma phase_bits_eq: "has_bits (drop_bit 24 d) (ucast (ph :: uint8)) \<longleftrightarrow> (\<exists>n < 8. bit d (n + 24) \<and> bit ph n)"
  for d :: uint32
  unfolding has_bits_iff by (auto simp: bit_simps add.commute dest: byte_bit)

lemma bit_high_byte: "bit (0xFF000000 :: uint32) n \<longleftrightarrow> 24 \<le> n \<and> n < 32"
proof -
  have m: "0xFF000000 = (push_bit 24 (mask 8) :: uint32)"
    by (simp add: mask_eq_exp_minus_1 push_bit_eq_mult)
  show ?thesis unfolding m by (auto simp: bit_simps)
qed

lemma event_data_high:
  assumes "event_id i = i" and "n < 8"
  shows "bit (event_data i grp p) (n + 24) \<longleftrightarrow> p \<noteq> 0 \<and> p \<le> 8 \<and> n = unat p - 1"
proof -
  have hi: "\<not> bit i (n + 24)" by (rule event_id_high [OF assms(1)]) simp
  have "unat grp \<le> 8" if "grp \<noteq> 0" "grp \<le> 8" using small_word32 [OF that] by simp
  moreover have "1 \<le> unat p \<and> unat p \<le> 8" if "p \<noteq> 0" "p \<le> 8" by (rule small_word8 [OF that])
  ultimately show ?thesis
    using hi assms(2) by (auto simp: event_data_def Let_def bit_simps bit_group_bit bit_phase_bit32)
qed

lemma event_data_blocked:
  assumes "event_id i = i" and "p \<le> 8"
  shows "phase_blocked ph (event_data i grp p) \<longleftrightarrow> ph \<noteq> 0 \<and> p \<noteq> 0 \<and> \<not> bit ph (unat p - 1)"
proof -
  have hb: "has_bits (event_data i grp p) 0xFF000000 \<longleftrightarrow> p \<noteq> 0"
  proof -
    have "has_bits (event_data i grp p) 0xFF000000 \<longleftrightarrow> (\<exists>n < 8. bit (event_data i grp p) (n + 24))"
    proof
      assume "has_bits (event_data i grp p) 0xFF000000"
      then obtain n where "24 \<le> n" "n < 32" "bit (event_data i grp p) n"
        unfolding has_bits_iff bit_high_byte by auto
      then show "\<exists>n < 8. bit (event_data i grp p) (n + 24)" by (intro exI [of _ "n - 24"]) auto
    next
      assume "\<exists>n < 8. bit (event_data i grp p) (n + 24)"
      then obtain n where "n < 8" "bit (event_data i grp p) (n + 24)" by blast
      then show "has_bits (event_data i grp p) 0xFF000000"
        unfolding has_bits_iff bit_high_byte by (intro exI [of _ "n + 24"]) auto
    qed
    also have "\<dots> \<longleftrightarrow> (\<exists>n < 8. p \<noteq> 0 \<and> p \<le> 8 \<and> n = unat p - 1)"
      using event_data_high [OF assms(1)] by blast
    also have "\<dots> \<longleftrightarrow> p \<noteq> 0" using small_word8 [of p] assms(2) by auto
    finally show ?thesis .
  qed
  have "has_bits (drop_bit 24 (event_data i grp p)) (ucast ph) \<longleftrightarrow>
      (\<exists>n < 8. (p \<noteq> 0 \<and> p \<le> 8 \<and> n = unat p - 1) \<and> bit ph n)"
    unfolding phase_bits_eq using event_data_high [OF assms(1)] by blast
  also have "\<dots> \<longleftrightarrow> p \<noteq> 0 \<and> bit ph (unat p - 1)" using small_word8 [of p] assms(2) by auto
  finally have "has_bits (drop_bit 24 (event_data i grp p)) (ucast ph) \<longleftrightarrow> p \<noteq> 0 \<and> bit ph (unat p - 1)" .
  with hb show ?thesis by (auto simp: phase_blocked_def)
qed

section \<open>Properties\<close>

text \<open>C39: In every state the scheduler can reach, \<^verbatim>\<open>ExecuteEvent\<close> runs the earliest
  due event that the active phases admit: it throws away exactly the due events in
  front of it, all of which are bound to inactive phases, returns the event's id and
  remembers its data for \<^verbatim>\<open>Repeat\<close>; when it returns 0 for lack of such an event,
  every event left lies in the future.\<close>

theorem ExecuteEvent_earliest_due:
  assumes "em_reachable em"
  shows "\<exists>skipped rest. (\<forall>p\<in>set skipped. fst p \<le> em_time em \<and> phase_blocked (em_phase em) (snd p)) \<and>
    ((\<exists>t d. em_store em = skipped @ (t, d) # rest \<and> t \<le> em_time em \<and>
        \<not> phase_blocked (em_phase em) d \<and> (\<forall>p\<in>set rest. t \<le> fst p) \<and>
        ExecuteEvent em = (event_id d, em\<lparr>em_store := rest, em_last := d\<rparr>)) \<or>
     (em_store em = skipped @ rest \<and> (\<forall>p\<in>set rest. em_time em < fst p) \<and>
        ExecuteEvent em = (0, em\<lparr>em_store := rest\<rparr>)))"
proof -
  obtain r rest where e: "execute_loop (em_time em) (em_phase em) (em_store em) = (r, rest)"
    by fastforce
  from execute_loop_split [OF e] obtain sk where sk:
    "em_store em = sk @ (case r of None \<Rightarrow> [] | Some p \<Rightarrow> [p]) @ rest"
    "\<forall>p\<in>set sk. fst p \<le> em_time em \<and> phase_blocked (em_phase em) (snd p)"
    "case r of None \<Rightarrow> rest = [] \<or> fst (hd rest) > em_time em
      | Some p \<Rightarrow> fst p \<le> em_time em \<and> \<not> phase_blocked (em_phase em) (snd p)" by blast
  have ok: "mm_ok (em_store em)" by (rule em_reachable_sorted [OF assms])
  show ?thesis
  proof (cases r)
    case None
    with sk ok have "\<forall>p\<in>set rest. em_time em < fst p"
      by (auto simp: mm_ok_append intro: mm_ok_hd_later)
    with None sk e show ?thesis
      by (intro exI [of _ sk] exI [of _ rest]) (auto simp: ExecuteEvent_def)
  next
    case (Some q)
    obtain t d where q: "q = (t, d)" by (cases q)
    with Some sk ok e show ?thesis
      by (intro exI [of _ sk] exI [of _ rest]) (auto simp: ExecuteEvent_def mm_ok_append)
  qed
qed


lemma ExecuteEvent_earliest_due_witness:
  "\<exists>skipped rest. ExecuteEvent (Update 5 (ScheduleEvent 7 3 0 0 EventMap_init)) =
      (7, (Update 5 (ScheduleEvent 7 3 0 0 EventMap_init))\<lparr>em_store := rest, em_last := 7\<rparr>) \<and>
      skipped = []"
proof -
  let ?em = "Update 5 (ScheduleEvent 7 3 0 0 EventMap_init)"
  have r: "em_reachable ?em"
    by (rule em_reachable.em_next [OF em_reachable.em_next [OF em_reachable.em_start]])
      (rule em_step.intros)+
  have st: "em_store ?em = [(3, 7)]" "em_time ?em = 5"
    by (simp_all add: Update_def ScheduleEvent_def EventMap_init_def)
  have "\<not> phase_blocked (em_phase ?em) 7"
    by (simp add: phase_blocked_def Update_def ScheduleEvent_def EventMap_init_def)
  with ExecuteEvent_earliest_due [OF r] st show ?thesis
    by (auto simp: Cons_eq_append_conv event_id_def)
qed

text \<open>\<^verbatim>\<open>ScheduleEvent\<close> keeps event id, group and phase apart: of an entry made for a
  16-bit id the id reads back unchanged, the entry belongs to exactly the group it
  was scheduled with, and it is held back exactly when some phase is active and its
  own phase is not.\<close>

theorem ScheduleEvent_fields:
  assumes "event_id i = i" and "p \<le> 8"
  shows "\<exists>d. em_store (ScheduleEvent i time grp p em) =
      mm_insert (em_time em + time) d (em_store em) \<and> event_id d = i \<and>
      (\<forall>g. g \<noteq> 0 \<and> g \<le> 8 \<longrightarrow> has_bits d (group_bit g) = (g = grp)) \<and>
      phase_blocked (em_phase em) d = (em_phase em \<noteq> 0 \<and> \<not> IsInPhase p em)"
proof -
  have "IsInPhase p em \<longleftrightarrow> p = 0 \<or> bit (em_phase em) (unat p - 1)"
  proof (cases "p = 0")
    case False
    with small_word8 [OF False assms(2)] assms(2) show ?thesis
      by (auto simp: IsInPhase_def has_bits_iff bit_phase_bit8)
  qed (simp add: IsInPhase_def)
  then have "phase_blocked (em_phase em) (event_data i grp p) \<longleftrightarrow> em_phase em \<noteq> 0 \<and> \<not> IsInPhase p em"
    using event_data_blocked [OF assms] by auto
  then show ?thesis
    using event_data_group [OF assms(1)] event_id_data [of i grp p] assms(1)
    by (intro exI [of _ "event_data i grp p"]) (simp add: ScheduleEvent_data)
qed

lemma ScheduleEvent_fields_witness:
  "event_id 300 = 300 \<and> (3 :: uint8) \<le> 8 \<and>
   (\<exists>d. em_store (ScheduleEvent 300 1000 2 3 (AddPhase 1 EventMap_init)) =
      mm_insert 1000 d [] \<and> event_id d = 300 \<and> has_bits d (group_bit 2) \<and> \<not> has_bits d (group_bit 1))"
proof -
  have h: "event_id 300 = 300" "(3 :: uint8) \<le> 8" by (simp_all add: event_id_def)
  have "em_time (AddPhase 1 EventMap_init) = 0" "em_store (AddPhase 1 EventMap_init) = []"
    by (simp_all add: AddPhase_def EventMap_init_def)
  with ScheduleEvent_fields [OF h, of 1000 2 "AddPhase 1 EventMap_init"] h show ?thesis by auto
qed

text \<open>After \<^verbatim>\<open>RescheduleEvent\<close> exactly one entry with the event's id is left, due
  \<^verbatim>\<open>time\<close> after now (modulo \<open>2 ^ 32\<close>), and all entries with other ids are kept in
  their order.\<close>

theorem RescheduleEvent_unique:
  assumes "em_reachable em" and "event_id i = i"
  shows "\<exists>d. filter (\<lambda>p. event_id (snd p) = i) (em_store (RescheduleEvent i time grp p em)) =
      [(em_time em + time, d)] \<and>
    filter (\<lambda>p. event_id (snd p) \<noteq> i) (em_store (RescheduleEvent i time grp p em)) =
      filter (\<lambda>p. event_id (snd p) \<noteq> i) (em_store em)"
proof -
  let ?c = "filter (\<lambda>p. event_id (snd p) \<noteq> i) (em_store em)"
  have c: "em_store (CancelEvent i em) = ?c" "em_time (CancelEvent i em) = em_time em"
    by (auto simp: CancelEvent_def Empty_def intro!: filter_cong)
  have ok: "mm_ok ?c" by (rule mm_ok_filter) (rule em_reachable_sorted [OF assms(1)])
  have "filter (\<lambda>p. event_id (snd p) = i) ?c = []" by (auto simp: filter_empty_conv)
  with ok show ?thesis
    by (intro exI [of _ "event_data i grp p"])
      (simp add: RescheduleEvent_def ScheduleEvent_data c filter_mm_insert event_id_data assms(2))
qed

lemma RescheduleEvent_unique_witness:
  "\<exists>d. filter (\<lambda>p. event_id (snd p) = 7)
     (em_store (RescheduleEvent 7 9 0 0 (ScheduleEvent 7 3 0 0 EventMap_init))) = [(9, d)]"
proof -
  have r: "em_reachable (ScheduleEvent 7 3 0 0 EventMap_init)"
    by (rule em_reachable.em_next [OF em_reachable.em_start]) (rule em_step.intros)
  have "em_time (ScheduleEvent 7 3 0 0 EventMap_init) = 0" "event_id 7 = 7"
    by (simp_all add: ScheduleEvent_def EventMap_init_def event_id_def)
  with RescheduleEvent_unique [OF r, of 7 9 0 0] show ?thesis by auto
qed

text \<open>Delaying a group moves exactly the entries of that group, each by the delay, and
  leaves every other entry and the timer alone; the store stays ordered by due time.\<close>

theorem DelayEventsGroup_shifts:
  assumes "em_reachable em" and "grp \<noteq> 0" and "grp \<le> 8"
  shows "mset (em_store (DelayEventsGroup delay grp em)) =
      image_mset (\<lambda>(t, d). (if has_bits d (group_bit grp) then t + delay else t, d)) (mset (em_store em)) \<and>
    mm_ok (em_store (DelayEventsGroup delay grp em)) \<and>
    em_time (DelayEventsGroup delay grp em) = em_time em"
proof -
  let ?hit = "\<lambda>(t, d). has_bits d (group_bit grp)"
  have "image_mset (\<lambda>(t, d). (t + delay, d)) (filter_mset ?hit M) + filter_mset (\<lambda>p. \<not> ?hit p) M =
      image_mset (\<lambda>(t, d). (if has_bits d (group_bit grp) then t + delay else t, d)) M"
    for M :: "(uint32 \<times> uint32) multiset"
    by (induction M) auto
  moreover have "mm_ok (em_store (DelayEventsGroup delay grp em))"
    by (rule em_step_sorted [OF em_delay_group em_reachable_sorted [OF assms(1)]])
  ultimately show ?thesis
    using assms(2,3) by (auto simp: DelayEventsGroup_def Let_def Empty_def mset_filter)
qed

lemma DelayEventsGroup_shifts_witness:
  "mset (em_store (DelayEventsGroup 10 2 (ScheduleEvent 7 3 2 0 EventMap_init))) =
     {#(13, 7 OR group_bit 2)#}"
proof -
  let ?em = "ScheduleEvent 7 3 2 0 EventMap_init"
  have r: "em_reachable ?em"
    by (rule em_reachable.em_next [OF em_reachable.em_start]) (rule em_step.intros)
  have st: "em_store ?em = [(3, 7 OR group_bit 2)]"
    by (simp add: ScheduleEvent_def EventMap_init_def)
  have "has_bits (7 OR group_bit 2) (group_bit 2)" by (simp add: has_bits_def group_bit_def)
  with DelayEventsGroup_shifts [OF r, of 2 10] st show ?thesis by simp
qed

end
