(* ===== verification/MessageBuffer.thy ===== *)
theory MessageBuffer
  imports Prelude
begin

text \<open>
  The socket read/write buffer, \<^verbatim>\<open>src/src/server/shared/Networking/MessageBuffer.h\<close>: a
  byte vector with a write and a read position.  Positions are \<^verbatim>\<open>size_t\<close> values,
  so sums and differences are taken modulo \<open>2 ^ 64\<close>; a \<^verbatim>\<open>memcpy\<close> or \<^verbatim>\<open>memmove\<close>
  outside the vector is undefined behaviour and gives \<open>None\<close>.
\<close>

record message_buffer =
  mb_wpos :: nat
  mb_rpos :: nat
  mb_storage :: "uint8 list"

definition mb_sized :: "nat \<Rightarrow> message_buffer" where
  "mb_sized n = \<lparr>mb_wpos = 0, mb_rpos = 0, mb_storage = vec_resize n []\<rparr>"

definition mb_default :: message_buffer where
  "mb_default = mb_sized 4096"

definition mb_Reset :: "message_buffer \<Rightarrow> message_buffer" where
  "mb_Reset mb = mb\<lparr>mb_wpos := 0, mb_rpos := 0\<rparr>"

definition mb_Resize :: "nat \<Rightarrow> message_buffer \<Rightarrow> message_buffer" where
  "mb_Resize n mb = mb\<lparr>mb_storage := vec_resize n (mb_storage mb)\<rparr>"

definition mb_ReadCompleted :: "nat \<Rightarrow> message_buffer \<Rightarrow> message_buffer" where
  "mb_ReadCompleted n mb = mb\<lparr>mb_rpos := sz_add (mb_rpos mb) n\<rparr>"

definition mb_WriteCompleted :: "nat \<Rightarrow> message_buffer \<Rightarrow> message_buffer" where
  "mb_WriteCompleted n mb = mb\<lparr>mb_wpos := sz_add (mb_wpos mb) n\<rparr>"

definition mb_GetActiveSize :: "message_buffer \<Rightarrow> nat" where
  "mb_GetActiveSize mb = sz_sub (mb_wpos mb) (mb_rpos mb)"

definition mb_GetRemainingSpace :: "message_buffer \<Rightarrow> nat" where
  "mb_GetRemainingSpace mb = sz_sub (length (mb_storage mb)) (mb_wpos mb)"

definition mb_Normalize :: "message_buffer \<Rightarrow> message_buffer option" where
  "mb_Normalize mb =
     (if mb_rpos mb \<noteq> 0 then
        let moved = mb\<lparr>mb_wpos := sz_sub (mb_wpos mb) (mb_rpos mb), mb_rpos := 0\<rparr>;
            n = mb_GetActiveSize mb
        in if mb_rpos mb \<noteq> mb_wpos mb then
             if mb_rpos mb + n \<le> length (mb_storage mb)
             then Some (moved\<lparr>mb_storage :=
                 vec_write 0 (take n (drop (mb_rpos mb) (mb_storage mb))) (mb_storage mb)\<rparr>)
             else None
           else Some moved
      else Some mb)"

definition mb_EnsureFreeSpace :: "message_buffer \<Rightarrow> message_buffer" where
  "mb_EnsureFreeSpace mb =
     (if mb_GetRemainingSpace mb = 0
      then mb_Resize ((length (mb_storage mb) * 3 mod 2 ^ 64) div 2) mb else mb)"

definition mb_Write :: "uint8 list \<Rightarrow> message_buffer \<Rightarrow> message_buffer option" where
  "mb_Write data mb =
     (if length data \<noteq> 0 then
        if mb_wpos mb + length data \<le> length (mb_storage mb)
        then Some (mb_WriteCompleted (length data)
               (mb\<lparr>mb_storage := vec_write (mb_wpos mb) data (mb_storage mb)\<rparr>))
        else None
      else Some mb)"

definition mb_Move :: "message_buffer \<Rightarrow> uint8 list \<times> message_buffer" where
  "mb_Move mb = (mb_storage mb, \<lparr>mb_wpos = 0, mb_rpos = 0, mb_storage = []\<rparr>)"

section \<open>The queue of bytes the buffer holds\<close>

text \<open>Read position, write position and end of the storage are in order.\<close>

definition mb_ok :: "message_buffer \<Rightarrow> bool" where
  "mb_ok mb \<longleftrightarrow> mb_rpos mb \<le> mb_wpos mb \<and> mb_wpos mb \<le> length (mb_storage mb) \<and>
     length (mb_storage mb) < 2 ^ 62"

text \<open>Abstraction: the bytes written and not yet read.\<close>

definition mb_active :: "message_buffer \<Rightarrow> uint8 list" where
  "mb_active mb = take (mb_wpos mb - mb_rpos mb) (drop (mb_rpos mb) (mb_storage mb))"

text \<open>
  The interface a socket relies on: a queue of bytes that is filled at the back
  and consumed at the front, and housekeeping that leaves its content alone.
\<close>

locale byte_queue =
  fixes content :: "'q \<Rightarrow> 'b list"
    and space :: "'q \<Rightarrow> nat"
    and invar :: "'q \<Rightarrow> bool"
    and store :: "'b list \<Rightarrow> 'q \<Rightarrow> 'q option"
    and consume :: "nat \<Rightarrow> 'q \<Rightarrow> 'q"
    and normalize :: "'q \<Rightarrow> 'q option"
    and grow :: "'q \<Rightarrow> 'q"
  assumes store_ok: "invar q \<Longrightarrow> length bs \<le> space q \<Longrightarrow>
      \<exists>q'. store bs q = Some q' \<and> content q' = content q @ bs \<and> invar q'"
    and consume_ok: "invar q \<Longrightarrow> n \<le> length (content q) \<Longrightarrow>
      content (consume n q) = drop n (content q) \<and> invar (consume n q)"
    and normalize_ok: "invar q \<Longrightarrow>
      \<exists>q'. normalize q = Some q' \<and> content q' = content q \<and> invar q' \<and> space q \<le> space q'"
    and grow_ok: "invar q \<Longrightarrow> content (grow q) = content q"
begin

lemma store_then_consume:
  assumes "invar q" and "length bs \<le> space q"
  obtains q' where "store bs q = Some q'" "content (consume (length (content q)) q') = bs"
proof -
  from store_ok [OF assms] obtain q' where q': "store bs q = Some q'" "content q' = content q @ bs" "invar q'"
    by blast
  with consume_ok [OF q'(3), of "length (content q)"] have "content (consume (length (content q)) q') = bs"
    by simp
  with q'(1) show thesis by (rule that)
qed

lemma normalize_store:
  assumes "invar q" and "length bs \<le> space q"
  shows "\<exists>q' q''. normalize q = Some q' \<and> store bs q' = Some q'' \<and> content q'' = content q @ bs"
proof -
  from normalize_ok [OF assms(1)] obtain q' where q': "normalize q = Some q'" "content q' = content q"
      "invar q'" "space q \<le> space q'" by blast
  with assms(2) store_ok [OF q'(3), of bs] show ?thesis by auto
qed

end

lemma pow_62_64: "n < (2::nat) ^ 62 \<Longrightarrow> n < 2 ^ 64"
  by (rule less_le_trans, assumption, rule power_increasing) simp_all

lemma mb_sub_ok: "mb_ok mb \<Longrightarrow> sz_sub (mb_wpos mb) (mb_rpos mb) = mb_wpos mb - mb_rpos mb"
  by (rule sz_sub_le) (auto simp: mb_ok_def intro: pow_62_64 le_less_trans)

lemma mb_space_ok: "mb_ok mb \<Longrightarrow> mb_GetRemainingSpace mb = length (mb_storage mb) - mb_wpos mb"
  unfolding mb_GetRemainingSpace_def by (rule sz_sub_le) (auto simp: mb_ok_def intro: pow_62_64)

lemma mb_add_ok: "mb_ok mb \<Longrightarrow> a + n \<le> length (mb_storage mb) \<Longrightarrow> sz_add a n = a + n"
  by (rule sz_add_small, rule pow_62_64) (simp add: mb_ok_def)

lemma window_append:
  assumes "r \<le> w" and "w \<le> length xs"
  shows "take (w + length bs - r) (drop r (take w xs @ bs @ ys)) = take (w - r) (drop r xs) @ bs"
proof -
  have "w + length bs - r = length (drop r (take w xs)) + length bs" using assms by simp
  moreover have "drop r (take w xs @ bs @ ys) = drop r (take w xs) @ bs @ ys" using assms by simp
  ultimately have "take (w + length bs - r) (drop r (take w xs @ bs @ ys)) = drop r (take w xs) @ bs"
    by (simp only: take_append) simp
  then show ?thesis by (simp add: drop_take)
qed

lemma mb_active_length: "mb_ok mb \<Longrightarrow> length (mb_active mb) = mb_wpos mb - mb_rpos mb"
  by (auto simp: mb_active_def mb_ok_def)

lemma mb_Write_active:
  assumes "mb_ok mb" and "length bs \<le> mb_GetRemainingSpace mb"
  shows "\<exists>mb'. mb_Write bs mb = Some mb' \<and> mb_active mb' = mb_active mb @ bs \<and> mb_ok mb'"
proof (cases "bs = []")
  case False
  have sp: "mb_wpos mb + length bs \<le> length (mb_storage mb)"
    using assms mb_space_ok [OF assms(1)] by (auto simp: mb_ok_def)
  let ?mb' = "mb\<lparr>mb_wpos := mb_wpos mb + length bs,
    mb_storage := vec_write (mb_wpos mb) bs (mb_storage mb)\<rparr>"
  have w: "mb_Write bs mb = Some ?mb'"
    using False sp mb_add_ok [OF assms(1) sp] by (simp add: mb_Write_def mb_WriteCompleted_def)
  have "mb_active ?mb' = take (mb_wpos mb + length bs - mb_rpos mb)
      (drop (mb_rpos mb) (vec_write (mb_wpos mb) bs (mb_storage mb)))"
    by (simp add: mb_active_def)
  also have "\<dots> = mb_active mb @ bs"
    unfolding vec_write_def mb_active_def
    by (rule window_append) (use assms(1) in \<open>auto simp: mb_ok_def\<close>)
  finally have "mb_active ?mb' = mb_active mb @ bs" .
  moreover have "mb_ok ?mb'" using assms(1) sp by (simp add: mb_ok_def)
  ultimately show ?thesis using w by blast
qed (use assms in \<open>simp add: mb_Write_def\<close>)

lemma mb_ReadCompleted_active:
  assumes "mb_ok mb" and "n \<le> length (mb_active mb)"
  shows "mb_active (mb_ReadCompleted n mb) = drop n (mb_active mb) \<and> mb_ok (mb_ReadCompleted n mb)"
proof -
  have n: "mb_rpos mb + n \<le> mb_wpos mb" using assms by (auto simp: mb_active_def mb_ok_def)
  then have "sz_add (mb_rpos mb) n = mb_rpos mb + n"
    using assms(1) by (intro mb_add_ok [of mb]) (auto simp: mb_ok_def)
  with n assms(1) show ?thesis
    by (simp add: mb_ReadCompleted_def mb_active_def mb_ok_def drop_take add.commute)
qed

lemma mb_Normalize_active:
  assumes "mb_ok mb"
  shows "\<exists>mb'. mb_Normalize mb = Some mb' \<and> mb_active mb' = mb_active mb \<and> mb_ok mb' \<and>
    mb_rpos mb' = 0 \<and> length (mb_storage mb') = length (mb_storage mb)"
  using assms mb_sub_ok [OF assms]
  by (auto simp: mb_Normalize_def mb_GetActiveSize_def Let_def mb_ok_def mb_active_def vec_write_def)

lemma mb_Normalize_space:
  assumes "mb_ok mb" and "mb_Normalize mb = Some mb'"
  shows "mb_GetRemainingSpace mb' = length (mb_storage mb) - length (mb_active mb)"
proof -
  from mb_Normalize_active [OF assms(1)] assms(2)
  have ok: "mb_ok mb'" "mb_active mb' = mb_active mb" "mb_rpos mb' = 0"
    "length (mb_storage mb') = length (mb_storage mb)" by auto
  have "length (mb_active mb') = mb_wpos mb'" using mb_active_length [OF ok(1)] ok(3) by simp
  with mb_space_ok [OF ok(1)] ok(2,4) show ?thesis by simp
qed

lemma mb_EnsureFreeSpace_grows:
  assumes "mb_ok mb" and "2 \<le> length (mb_storage mb)"
  shows "0 < mb_GetRemainingSpace (mb_EnsureFreeSpace mb) \<and>
    mb_active (mb_EnsureFreeSpace mb) = mb_active mb"
proof (cases "mb_GetRemainingSpace mb = 0")
  case True
  let ?n = "length (mb_storage mb)"
  have w: "mb_wpos mb = ?n" using True assms(1) mb_space_ok [OF assms(1)] by (simp add: mb_ok_def)
  have lt: "?n < 2 ^ 62" using assms(1) by (simp add: mb_ok_def)
  then have "?n * 3 < 2 ^ 64" by simp
  then have e: "mb_EnsureFreeSpace mb = mb_Resize (?n * 3 div 2) mb"
    using True by (simp add: mb_EnsureFreeSpace_def)
  have "?n < ?n * 3 div 2" using assms(2) by linarith
  moreover have "?n * 3 div 2 < 2 ^ 64" using lt by simp
  ultimately show ?thesis
    using w assms(1) by (simp add: e mb_Resize_def mb_GetRemainingSpace_def mb_active_def
        sz_sub_le vec_resize_def mb_ok_def)
qed (use assms in \<open>simp add: mb_EnsureFreeSpace_def\<close>)

interpretation sockbuf: byte_queue mb_active mb_GetRemainingSpace
    "\<lambda>mb. mb_ok mb \<and> 2 \<le> length (mb_storage mb)"
    mb_Write mb_ReadCompleted mb_Normalize mb_EnsureFreeSpace
proof (unfold_locales, goal_cases)
  case (1 q bs)
  then have ok: "mb_ok q" "2 \<le> length (mb_storage q)" by simp_all
  from mb_Write_active [OF ok(1) 1(2)] obtain q' where
    q': "mb_Write bs q = Some q'" "mb_active q' = mb_active q @ bs" "mb_ok q'" by blast
  moreover have "length (mb_storage q') \<ge> 2"
    using q'(1) ok by (auto simp: mb_Write_def mb_WriteCompleted_def split: if_splits)
  ultimately show ?case by blast
next
  case (2 q n)
  then show ?case using mb_ReadCompleted_active [of q n] by (auto simp: mb_ReadCompleted_def)
next
  case (3 q)
  then obtain q' where "mb_Normalize q = Some q'" "mb_active q' = mb_active q" "mb_ok q'"
      "length (mb_storage q') = length (mb_storage q)" using mb_Normalize_active [of q] by blast
  moreover have "length (mb_active q) \<le> mb_wpos q" by (simp add: mb_active_def)
  ultimately show ?case
    using 3 mb_Normalize_space [of q q'] mb_space_ok [of q] by (intro exI [of _ q']) auto
next
  case (4 q)
  then show ?case using mb_EnsureFreeSpace_grows [of q] by simp
qed


section \<open>Properties\<close>

text \<open>\<^verbatim>\<open>Normalize\<close> followed by a \<^verbatim>\<open>Write\<close> that fits is defined (no copy leaves the
  vector), keeps the unread bytes and appends the new ones behind them.\<close>

theorem MessageBuffer_normalize_write:
  assumes "mb_ok mb \<and> 2 \<le> length (mb_storage mb)" and "length bs \<le> mb_GetRemainingSpace mb"
  shows "\<exists>mb' mb''. mb_Normalize mb = Some mb' \<and> mb_Write bs mb' = Some mb'' \<and>
    mb_active mb'' = mb_active mb @ bs"
  using assms by (rule sockbuf.normalize_store)

lemma MessageBuffer_normalize_write_witness:
  "\<exists>mb' mb''. mb_Normalize \<lparr>mb_wpos = 3, mb_rpos = 1, mb_storage = [1, 2, 3, 4]\<rparr> = Some mb' \<and>
     mb_Write [9] mb' = Some mb'' \<and> mb_active mb'' = [2, 3, 9]"
proof -
  let ?mb = "\<lparr>mb_wpos = 3, mb_rpos = 1, mb_storage = [1, 2, 3, 4]\<rparr>"
  have h: "mb_ok ?mb \<and> 2 \<le> length (mb_storage ?mb)" by (simp add: mb_ok_def)
  have "length [9 :: uint8] \<le> mb_GetRemainingSpace ?mb"
    by (simp add: mb_GetRemainingSpace_def sz_sub_def)
  from MessageBuffer_normalize_write [OF h this] show ?thesis
    by (simp add: mb_active_def)
qed

text \<open>\<^verbatim>\<open>EnsureFreeSpace\<close> keeps the content and leaves free space exactly when the
  vector has at least two bytes or had free space before: a full vector of one byte
  (or none) stays full, because three halves of its size round down to its size.\<close>

theorem EnsureFreeSpace_exact:
  assumes "mb_ok mb"
  shows "(0 < mb_GetRemainingSpace (mb_EnsureFreeSpace mb)) =
      (2 \<le> length (mb_storage mb) \<or> 0 < mb_GetRemainingSpace mb) \<and>
    mb_active (mb_EnsureFreeSpace mb) = mb_active mb"
proof (cases "2 \<le> length (mb_storage mb) \<or> 0 < mb_GetRemainingSpace mb")
  case True
  then show ?thesis
    using mb_EnsureFreeSpace_grows [OF assms] by (auto simp: mb_EnsureFreeSpace_def)
next
  case False
  then have full: "mb_GetRemainingSpace mb = 0" and "length (mb_storage mb) < 2" by simp_all
  then have "length (mb_storage mb) * 3 mod 2 ^ 64 div 2 = length (mb_storage mb)"
    by (auto simp: less_2_cases_iff)
  with full have "mb_EnsureFreeSpace mb = mb"
    by (simp add: mb_EnsureFreeSpace_def mb_Resize_def vec_resize_def)
  with full False show ?thesis by simp
qed

lemma EnsureFreeSpace_exact_witness:
  "mb_GetRemainingSpace (mb_EnsureFreeSpace \<lparr>mb_wpos = 1, mb_rpos = 0, mb_storage = [7]\<rparr>) = 0 \<and>
   mb_active (mb_EnsureFreeSpace \<lparr>mb_wpos = 1, mb_rpos = 0, mb_storage = [7]\<rparr>) = [7]"
proof -
  have "mb_ok \<lparr>mb_wpos = 1, mb_rpos = 0, mb_storage = [7]\<rparr>" by (simp add: mb_ok_def)
  from EnsureFreeSpace_exact [OF this] show ?thesis
    by (simp add: mb_GetRemainingSpace_def sz_sub_def mb_active_def)
qed

end
