(* ===== verification/ByteBuffer.thy ===== *)
theory ByteBuffer
  imports MessageBuffer
begin

text \<open>
  The packet buffer, \<^verbatim>\<open>src/src/server/shared/Packets/ByteBuffer.h\<close> and
  \<^verbatim>\<open>ByteBuffer.cpp\<close>.  The templates over the integer types are functions over
  words of any width; a value is stored in little-endian order (on the supported
  hosts \<^verbatim>\<open>EndianConvert\<close> is the identity).  Exceptions are values of \<open>bb_error\<close>;
  touching memory outside the vector, which the wrapping bounds checks do not
  always exclude, is \<open>UndefinedBehaviour\<close>.  The floating-point operators and the
  debug printers are not modelled.
\<close>

section \<open>State and exceptions\<close>

record byte_buffer =
  bb_rpos :: nat
  bb_wpos :: nat
  bb_storage :: "uint8 list"

text \<open>
  The arguments of the exceptions are those of their constructors, in order:
  \<^verbatim>\<open>(add, pos, size, valueSize)\<close> and \<^verbatim>\<open>(pos, size, valueSize)\<close>.
\<close>

datatype bb_error =
    PositionException bool nat nat nat
  | SourceException nat nat nat
  | BufferException
  | AssertionFailed
  | UndefinedBehaviour

definition bb_init :: byte_buffer where
  "bb_init = \<lparr>bb_rpos = 0, bb_wpos = 0, bb_storage = []\<rparr>"

definition bb_of_message_buffer :: "message_buffer \<Rightarrow> byte_buffer" where
  "bb_of_message_buffer mb = \<lparr>bb_rpos = 0, bb_wpos = 0, bb_storage = fst (mb_Move mb)\<rparr>"

definition bb_clear :: "byte_buffer \<Rightarrow> byte_buffer" where
  "bb_clear b = b\<lparr>bb_storage := [], bb_wpos := 0, bb_rpos := 0\<rparr>"

definition bb_size :: "byte_buffer \<Rightarrow> nat" where
  "bb_size b = length (bb_storage b)"

definition bb_resize :: "nat \<Rightarrow> byte_buffer \<Rightarrow> byte_buffer" where
  "bb_resize n b = b\<lparr>bb_storage := vec_resize n (bb_storage b), bb_rpos := 0, bb_wpos := n\<rparr>"

definition bb_rfinish :: "byte_buffer \<Rightarrow> byte_buffer" where
  "bb_rfinish b = b\<lparr>bb_rpos := bb_wpos b\<rparr>"

section \<open>Writing\<close>

definition append_bytes :: "uint8 list \<Rightarrow> byte_buffer \<Rightarrow> bb_error + byte_buffer" where
  "append_bytes src b =
     (let cnt = length src in
      if cnt = 0 then Inl (SourceException (bb_wpos b) (bb_size b) cnt)
      else if \<not> bb_size b < 10000000 then Inl AssertionFailed
      else let end_pos = sz_add (bb_wpos b) cnt;
               st = (if bb_size b < end_pos then vec_resize end_pos (bb_storage b) else bb_storage b)
           in if bb_wpos b + cnt \<le> length st
              then Inr (b\<lparr>bb_storage := vec_write (bb_wpos b) src st, bb_wpos := bb_wpos b + cnt\<rparr>)
              else Inl UndefinedBehaviour)"

definition put_bytes :: "nat \<Rightarrow> uint8 list \<Rightarrow> byte_buffer \<Rightarrow> bb_error + byte_buffer" where
  "put_bytes pos src b =
     (let cnt = length src in
      if sz_add pos cnt > bb_size b then Inl (PositionException True pos cnt (bb_size b))
      else if pos + cnt \<le> bb_size b
           then Inr (b\<lparr>bb_storage := vec_write pos src (bb_storage b)\<rparr>)
           else Inl UndefinedBehaviour)"

text \<open>The object representation of an integer of width \<open>LENGTH('a)\<close>.\<close>

definition le_bytes :: "'a::len word \<Rightarrow> uint8 list" where
  "le_bytes w = map (\<lambda>i. ucast (drop_bit (8 * i) w)) [0..<LENGTH('a) div 8]"

fun of_le_bytes :: "uint8 list \<Rightarrow> 'a::len word" where
  "of_le_bytes [] = 0"
| "of_le_bytes (x # xs) = ucast x OR push_bit 8 (of_le_bytes xs)"

definition append_val :: "'a::len word \<Rightarrow> byte_buffer \<Rightarrow> bb_error + byte_buffer" where
  "append_val v b = append_bytes (le_bytes v) b"

definition put_val :: "nat \<Rightarrow> 'a::len word \<Rightarrow> byte_buffer \<Rightarrow> bb_error + byte_buffer" where
  "put_val pos v b = put_bytes pos (le_bytes v) b"

definition append_string :: "uint8 list \<Rightarrow> byte_buffer \<Rightarrow> bb_error + byte_buffer" where
  "append_string s b =
     res_bind (if length s \<noteq> 0 then append_bytes s b else Inr b) (append_val (0 :: uint8))"

definition contents :: "byte_buffer \<Rightarrow> bb_error + uint8 list" where
  "contents b = (if bb_storage b = [] then Inl BufferException else Inr (bb_storage b))"

definition append_buffer :: "byte_buffer \<Rightarrow> byte_buffer \<Rightarrow> bb_error + byte_buffer" where
  "append_buffer buffer b =
     (if bb_wpos buffer \<noteq> 0 then
        res_bind (contents buffer) (\<lambda>cs.
          if bb_wpos buffer \<le> length cs then append_bytes (take (bb_wpos buffer) cs) b
          else Inl UndefinedBehaviour)
      else Inr b)"

section \<open>Reading\<close>

definition bb_at :: "nat \<Rightarrow> byte_buffer \<Rightarrow> bb_error + uint8" where
  "bb_at pos b =
     (if pos \<ge> bb_size b then Inl (PositionException False pos 1 (bb_size b))
      else Inr (bb_storage b ! pos))"

definition read_skip :: "nat \<Rightarrow> byte_buffer \<Rightarrow> bb_error + byte_buffer" where
  "read_skip skip b =
     (if sz_add (bb_rpos b) skip > bb_size b
      then Inl (PositionException False (bb_rpos b) skip (bb_size b))
      else Inr (b\<lparr>bb_rpos := sz_add (bb_rpos b) skip\<rparr>))"

definition read_at :: "nat \<Rightarrow> byte_buffer \<Rightarrow> bb_error + 'a::len word" where
  "read_at pos b =
     (let n = LENGTH('a) div 8 in
      if sz_add pos n > bb_size b then Inl (PositionException False pos n (bb_size b))
      else if pos + n \<le> bb_size b then Inr (of_le_bytes (take n (drop pos (bb_storage b))))
      else Inl UndefinedBehaviour)"

text \<open>
  After a successful check the access lies inside the vector, whose size is below
  \<open>2 ^ 64\<close>, so advancing the position cannot wrap.
\<close>

definition read_val :: "byte_buffer \<Rightarrow> bb_error + 'a::len word \<times> byte_buffer" where
  "read_val b =
     res_bind (read_at (bb_rpos b) b) (\<lambda>r.
       Inr (r, b\<lparr>bb_rpos := bb_rpos b + LENGTH('a) div 8\<rparr>))"

lemma read_val_InrD:
  assumes "read_val b = Inr (r :: 'a::len word, b')"
  shows "b' = b\<lparr>bb_rpos := bb_rpos b + LENGTH('a) div 8\<rparr> \<and> bb_rpos b + LENGTH('a) div 8 \<le> bb_size b"
  using assms by (auto simp: read_val_def read_at_def Let_def res_bind_Inr_iff split: if_splits)

definition read_bool :: "byte_buffer \<Rightarrow> bb_error + bool \<times> byte_buffer" where
  "read_bool b = res_bind (read_val b) (\<lambda>(c :: uint8, b'). Inr (0 <s c, b'))"

definition read_bytes :: "nat \<Rightarrow> byte_buffer \<Rightarrow> bb_error + uint8 list \<times> byte_buffer" where
  "read_bytes len b =
     (if sz_add (bb_rpos b) len > bb_size b
      then Inl (PositionException False (bb_rpos b) len (bb_size b))
      else if bb_rpos b + len \<le> bb_size b
           then Inr (take len (drop (bb_rpos b) (bb_storage b)),
                     b\<lparr>bb_rpos := bb_rpos b + len\<rparr>)
           else Inl UndefinedBehaviour)"

function read_string_loop ::
  "uint8 list \<Rightarrow> byte_buffer \<Rightarrow> bb_error + uint8 list \<times> byte_buffer" where
  "read_string_loop value b =
     (if bb_rpos b < bb_size b then
        (case read_val b of
           Inl e \<Rightarrow> Inl e
         | Inr (c :: uint8, b') \<Rightarrow>
             if c = 0 then Inr (value, b') else read_string_loop (value @ [c]) b')
      else Inr (value, b))"
  by pat_completeness auto
termination
  by (relation "measure (\<lambda>(v, b). bb_size b - bb_rpos b)")
    (auto dest: read_val_InrD simp: bb_size_def)

declare read_string_loop.simps [simp del]

definition read_string :: "byte_buffer \<Rightarrow> bb_error + uint8 list \<times> byte_buffer" where
  "read_string b = read_string_loop [] b"


section \<open>Packed GUIDs\<close>

text \<open>
  \<^verbatim>\<open>appendPackGUID\<close>: a mask byte whose bit \<open>i\<close> says that byte \<open>i\<close> of the value is
  not zero, followed by the bytes that are not zero.
\<close>

function pack_loop :: "nat \<Rightarrow> uint64 \<Rightarrow> uint8 \<Rightarrow> uint8 list \<Rightarrow> uint8 \<times> uint8 list" where
  "pack_loop i guid guidmark acc =
     (if guid = 0 then (guidmark, acc)
      else if has_bits guid 0xFF
           then pack_loop (i + 1) (drop_bit 8 guid) (guidmark OR push_bit i 1) (acc @ [ucast (guid AND 0xFF)])
           else pack_loop (i + 1) (drop_bit 8 guid) guidmark acc)"
  by pat_completeness auto
termination
proof (relation "measure (\<lambda>(i, guid, m, acc). unat guid)", goal_cases)
  case (2 i guid m acc)
  then have "unat guid > 0" by (simp add: unat_gt_0)
  then show ?case by (simp add: drop_bit_eq_div unat_div)
next
  case (3 i guid m acc)
  then have "unat guid > 0" by (simp add: unat_gt_0)
  then show ?case by (simp add: drop_bit_eq_div unat_div)
qed simp

declare pack_loop.simps [simp del]

definition packGUID :: "uint64 \<Rightarrow> uint8 list" where
  "packGUID guid = (case pack_loop 0 guid 0 [] of (guidmark, bs) \<Rightarrow> guidmark # bs)"

definition appendPackGUID :: "uint64 \<Rightarrow> byte_buffer \<Rightarrow> bb_error + byte_buffer" where
  "appendPackGUID guid b = append_bytes (packGUID guid) b"

fun unpack_loop :: "nat list \<Rightarrow> uint8 \<Rightarrow> uint64 \<Rightarrow> byte_buffer \<Rightarrow> bb_error + uint64 \<times> byte_buffer" where
  "unpack_loop [] guidmark guid b = Inr (guid, b)"
| "unpack_loop (i # is) guidmark guid b =
     (if has_bits guidmark (push_bit i 1) then
        if sz_add (bb_rpos b) 1 > bb_size b
        then Inl (PositionException False (bb_rpos b) 1 (bb_size b))
        else res_bind (read_val b) (\<lambda>(bt :: uint8, b').
               unpack_loop is guidmark (guid OR push_bit (i * 8) (ucast bt)) b')
      else unpack_loop is guidmark guid b)"

definition readPackGUID :: "byte_buffer \<Rightarrow> bb_error + uint64 \<times> byte_buffer" where
  "readPackGUID b =
     (if sz_add (bb_rpos b) 1 > bb_size b
      then Inl (PositionException False (bb_rpos b) 1 (bb_size b))
      else res_bind (read_val b) (\<lambda>(guidmark, b'). unpack_loop [0..<8] guidmark 0 b'))"

section \<open>Packed times\<close>

text \<open>
  The broken-down time of the C library; \<^verbatim>\<open>localtime_r\<close> and \<^verbatim>\<open>mktime\<close> depend on the
  host's time zone and are parameters.
\<close>

record tm =
  tm_min :: int32
  tm_hour :: int32
  tm_mday :: int32
  tm_mon :: int32
  tm_year :: int32
  tm_wday :: int32

definition pack_time :: "tm \<Rightarrow> uint32" where
  "pack_time lt = push_bit 24 (tm_year lt - 100) OR push_bit 20 (tm_mon lt) OR
     push_bit 14 (tm_mday lt - 1) OR push_bit 11 (tm_wday lt) OR push_bit 6 (tm_hour lt) OR tm_min lt"

definition AppendPackedTime :: "('t \<Rightarrow> tm) \<Rightarrow> 't \<Rightarrow> byte_buffer \<Rightarrow> bb_error + byte_buffer" where
  "AppendPackedTime localtime time b = append_val (pack_time (localtime time)) b"

definition unpack_time :: "uint32 \<Rightarrow> tm" where
  "unpack_time packedDate =
     \<lparr>tm_min = packedDate AND 0x3F,
      tm_hour = drop_bit 6 packedDate AND 0x1F,
      tm_mday = (drop_bit 14 packedDate AND 0x3F) + 1,
      tm_mon = drop_bit 20 packedDate AND 0xF,
      tm_year = (drop_bit 24 packedDate AND 0x1F) + 100,
      tm_wday = 0\<rparr>"

definition ReadPackedTime :: "(tm \<Rightarrow> uint64) \<Rightarrow> byte_buffer \<Rightarrow> bb_error + uint32 \<times> byte_buffer" where
  "ReadPackedTime mktime b =
     res_bind (read_val b) (\<lambda>(packedDate, b'). Inr (ucast (mktime (unpack_time packedDate)), b'))"

section \<open>Sequences\<close>

text \<open>
  The stream operators for \<^verbatim>\<open>std::vector\<close> and \<^verbatim>\<open>std::list\<close>: a 32-bit element count and
  the elements; \<open>put\<close> and \<open>get\<close> are the element type's operators.
\<close>

fun append_elems :: "('a \<Rightarrow> byte_buffer \<Rightarrow> bb_error + byte_buffer) \<Rightarrow> 'a list
    \<Rightarrow> byte_buffer \<Rightarrow> bb_error + byte_buffer" where
  "append_elems put [] b = Inr b"
| "append_elems put (x # xs) b = res_bind (put x b) (append_elems put xs)"

definition append_vector :: "('a \<Rightarrow> byte_buffer \<Rightarrow> bb_error + byte_buffer) \<Rightarrow> 'a list
    \<Rightarrow> byte_buffer \<Rightarrow> bb_error + byte_buffer" where
  "append_vector put v b =
     res_bind (append_val (of_nat (length v) :: uint32) b) (append_elems put v)"

fun read_elems :: "(byte_buffer \<Rightarrow> bb_error + 'a \<times> byte_buffer) \<Rightarrow> nat
    \<Rightarrow> byte_buffer \<Rightarrow> bb_error + 'a list \<times> byte_buffer" where
  "read_elems get 0 b = Inr ([], b)"
| "read_elems get (Suc n) b =
     res_bind (get b) (\<lambda>(t, b').
       res_bind (read_elems get n b') (\<lambda>(v, b''). Inr (t # v, b'')))"

definition read_vector :: "(byte_buffer \<Rightarrow> bb_error + 'a \<times> byte_buffer)
    \<Rightarrow> byte_buffer \<Rightarrow> bb_error + 'a list \<times> byte_buffer" where
  "read_vector get b =
     res_bind (read_val b) (\<lambda>(vsize :: uint32, b'). read_elems get (unat vsize) b')"

section \<open>Codecs\<close>

text \<open>
  \<open>bb_room n b\<close>: the buffer is positioned at its end and takes \<open>n\<close> more bytes
  without reaching the size limit; \<open>bb_append\<close> is the effect of appending;
  \<open>bb_unread\<close> is what a reader has still in front of it.
\<close>

definition bb_room :: "nat \<Rightarrow> byte_buffer \<Rightarrow> bool" where
  "bb_room n b \<longleftrightarrow> bb_wpos b = bb_size b \<and> bb_size b + n < 10000000"

definition bb_append :: "uint8 list \<Rightarrow> byte_buffer \<Rightarrow> byte_buffer" where
  "bb_append bs b = b\<lparr>bb_storage := bb_storage b @ bs, bb_wpos := bb_wpos b + length bs\<rparr>"

definition bb_unread :: "byte_buffer \<Rightarrow> uint8 list" where
  "bb_unread b = drop (bb_rpos b) (bb_storage b)"

definition bb_advance :: "nat \<Rightarrow> byte_buffer \<Rightarrow> byte_buffer" where
  "bb_advance n b = b\<lparr>bb_rpos := bb_rpos b + n\<rparr>"

definition bb_small :: "byte_buffer \<Rightarrow> bool" where
  "bb_small b \<longleftrightarrow> bb_size b < 2 ^ 63"

lemma bb_append_append [simp]: "bb_append ys (bb_append xs b) = bb_append (xs @ ys) b"
  by (simp add: bb_append_def)

lemma bb_append_Nil [simp]: "bb_append [] b = b"
  by (simp add: bb_append_def)

lemma bb_room_append: "bb_room (length xs + n) b \<Longrightarrow> bb_room n (bb_append xs b)"
  by (simp add: bb_room_def bb_append_def bb_size_def)

lemma bb_room_mono: "bb_room n b \<Longrightarrow> m \<le> n \<Longrightarrow> bb_room m b"
  by (simp add: bb_room_def)

lemma bb_advance_add [simp]: "bb_advance m (bb_advance n b) = bb_advance (n + m) b"
  by (simp add: bb_advance_def)

lemma bb_advance_0 [simp]: "bb_advance 0 b = b"
  by (simp add: bb_advance_def)

lemma bb_small_advance [simp]: "bb_small (bb_advance n b) = bb_small b"
  by (simp add: bb_small_def bb_size_def bb_advance_def)

lemma bb_unread_advance: "bb_unread b = xs @ ys \<Longrightarrow> bb_unread (bb_advance (length xs) b) = ys"
proof -
  assume "bb_unread b = xs @ ys"
  moreover have "drop (bb_rpos b + length xs) (bb_storage b) = drop (length xs) (drop (bb_rpos b) (bb_storage b))"
    by (simp add: add.commute)
  ultimately show ?thesis by (simp add: bb_unread_def bb_advance_def)
qed

lemma append_bytes_room:
  assumes "bb_room (length src) b" and "src \<noteq> []"
  shows "append_bytes src b = Inr (bb_append src b)"
proof -
  have e: "sz_add (bb_wpos b) (length src) = bb_size b + length src"
    using assms(1) by (simp add: bb_room_def sz_add_small)
  have "vec_write (bb_wpos b) src (vec_resize (bb_size b + length src) (bb_storage b)) = bb_storage b @ src"
    using assms(1) by (simp add: bb_room_def bb_size_def vec_resize_ge vec_write_end)
  then show ?thesis
    using assms e by (simp add: append_bytes_def Let_def bb_room_def bb_append_def)
qed

lemma bit_of_le_bytes:
  "bit (of_le_bytes xs :: 'a::len word) n \<longleftrightarrow>
     n < LENGTH('a) \<and> n div 8 < length xs \<and> bit (xs ! (n div 8)) (n mod 8)"
proof (induction xs arbitrary: n)
  case (Cons x xs)
  show ?case
  proof (cases "n < 8")
    case True
    then show ?thesis by (auto simp: bit_simps)
  next
    case False
    then have "bit x n = False" using byte_bit [of x n] by blast
    moreover have "n div 8 = Suc ((n - 8) div 8)" "n mod 8 = (n - 8) mod 8"
      using False by (simp_all add: le_div_geq le_mod_geq)
    ultimately show ?thesis using False Cons [of "n - 8"] by (auto simp: bit_simps)
  qed
qed simp

lemma length_le_bytes [simp]: "length (le_bytes (w :: 'a::len word)) = LENGTH('a) div 8"
  by (simp add: le_bytes_def)

lemma of_le_bytes_le_bytes:
  assumes "8 dvd LENGTH('a)"
  shows "of_le_bytes (le_bytes (w :: 'a::len word)) = w"
proof (rule bit_word_eqI)
  fix n assume n: "n < LENGTH('a)"
  then have "n div 8 < LENGTH('a) div 8" using assms by (auto elim!: dvdE simp: div_less_iff_less_mult)
  then show "bit (of_le_bytes (le_bytes w) :: 'a word) n = bit w n"
    using n by (simp add: bit_of_le_bytes le_bytes_def bit_simps)
qed

lemma le_bytes_not_Nil: "8 dvd LENGTH('a) \<Longrightarrow> le_bytes (w :: 'a::len word) \<noteq> []"
  using len_gt_0 [where 'a = 'a] by (auto simp: le_bytes_def elim!: dvdE simp del: len_gt_0)

lemma read_val_unread:
  fixes w :: "'a::len word"
  assumes "8 dvd LENGTH('a)" and "LENGTH('a) \<le> 64" and "bb_small b" and "bb_unread b = le_bytes w @ rest"
  shows "read_val b = Inr (w, bb_advance (LENGTH('a) div 8) b)"
proof -
  let ?n = "LENGTH('a) div 8"
  have len: "length (bb_unread b) = ?n + length rest" using assms(4) by simp
  then have le: "bb_rpos b + ?n \<le> bb_size b"
  proof (cases "bb_rpos b \<le> bb_size b")
    case False
    then have "bb_unread b = []" by (simp add: bb_unread_def bb_size_def)
    with assms(4) le_bytes_not_Nil [OF assms(1)] show ?thesis by simp
  qed (simp add: bb_unread_def bb_size_def)
  then have "sz_add (bb_rpos b) ?n = bb_rpos b + ?n"
    using assms(3) by (intro sz_add_small) (simp add: bb_small_def)
  moreover have "take ?n (drop (bb_rpos b) (bb_storage b)) = le_bytes w"
    using assms(4) by (simp add: bb_unread_def)
  ultimately show ?thesis
    using le by (simp add: read_val_def read_at_def bb_advance_def of_le_bytes_le_bytes [OF assms(1)])
qed

text \<open>
  The contract of a value's stream operators: \<open>put\<close> appends the encoding, \<open>get\<close>
  reads it back from the front of the unread bytes.
\<close>

locale codec =
  fixes enc :: "'a \<Rightarrow> uint8 list"
    and put :: "'a \<Rightarrow> byte_buffer \<Rightarrow> bb_error + byte_buffer"
    and get :: "byte_buffer \<Rightarrow> bb_error + 'a \<times> byte_buffer"
    and valid :: "'a \<Rightarrow> bool"
  assumes put_appends: "valid x \<Longrightarrow> bb_room (length (enc x)) b \<Longrightarrow> put x b = Inr (bb_append (enc x) b)"
    and get_reads: "valid x \<Longrightarrow> bb_small b \<Longrightarrow> bb_unread b = enc x @ rest \<Longrightarrow>
      get b = Inr (x, bb_advance (length (enc x)) b)"
begin

lemma put_get:
  assumes "valid x" and "bb_room (length (enc x)) b"
  shows "\<exists>b'. put x b = Inr b' \<and> get (b'\<lparr>bb_rpos := bb_wpos b\<rparr>) = Inr (x, b'\<lparr>bb_rpos := bb_wpos b'\<rparr>)"
proof -
  let ?b' = "bb_append (enc x) b"
  have "get (?b'\<lparr>bb_rpos := bb_wpos b\<rparr>) = Inr (x, bb_advance (length (enc x)) (?b'\<lparr>bb_rpos := bb_wpos b\<rparr>))"
    using assms by (intro get_reads [where rest = "[]"])
      (auto simp: bb_small_def bb_unread_def bb_append_def bb_room_def bb_size_def)
  also have "bb_advance (length (enc x)) (?b'\<lparr>bb_rpos := bb_wpos b\<rparr>) = ?b'\<lparr>bb_rpos := bb_wpos ?b'\<rparr>"
    by (simp add: bb_advance_def bb_append_def)
  finally show ?thesis using put_appends [OF assms] by blast
qed

lemma put_elems:
  "\<forall>x\<in>set xs. valid x \<Longrightarrow> bb_room (length (concat (map enc xs))) b \<Longrightarrow>
     append_elems put xs b = Inr (bb_append (concat (map enc xs)) b)"
proof (induction xs arbitrary: b)
  case (Cons x xs)
  then have "put x b = Inr (bb_append (enc x) b)" by (intro put_appends) (auto elim: bb_room_mono)
  moreover have "bb_room (length (concat (map enc xs))) (bb_append (enc x) b)"
    using Cons.prems by (intro bb_room_append) simp
  ultimately show ?case using Cons by simp
qed simp

lemma get_elems:
  "\<forall>x\<in>set xs. valid x \<Longrightarrow> bb_small b \<Longrightarrow> bb_unread b = concat (map enc xs) @ rest \<Longrightarrow>
     read_elems get (length xs) b = Inr (xs, bb_advance (length (concat (map enc xs))) b)"
proof (induction xs arbitrary: b)
  case (Cons x xs)
  let ?b = "bb_advance (length (enc x)) b"
  have g: "get b = Inr (x, ?b)" using Cons.prems by (intro get_reads) auto
  have "bb_unread ?b = concat (map enc xs) @ rest" using Cons.prems(3) by (intro bb_unread_advance) simp
  then have "read_elems get (length xs) ?b = Inr (xs, bb_advance (length (concat (map enc xs))) ?b)"
    using Cons.prems by (intro Cons.IH) auto
  then show ?case by (simp add: g)
qed simp

lemma vector_put_get:
  assumes "\<forall>x\<in>set xs. valid x" and "length xs < 2 ^ 32"
    and "bb_room (4 + length (concat (map enc xs))) b"
  shows "\<exists>b'. append_vector put xs b = Inr b' \<and>
    read_vector get (b'\<lparr>bb_rpos := bb_wpos b\<rparr>) = Inr (xs, b'\<lparr>bb_rpos := bb_wpos b'\<rparr>)"
proof -
  let ?hd = "le_bytes (of_nat (length xs) :: uint32)"
  let ?body = "concat (map enc xs)"
  let ?b' = "bb_append (?hd @ ?body) b"
  let ?r = "?b'\<lparr>bb_rpos := bb_wpos b\<rparr>"
  have hd: "append_val (of_nat (length xs) :: uint32) b = Inr (bb_append ?hd b)"
    unfolding append_val_def using assms(3) le_bytes_not_Nil [of "of_nat (length xs) :: uint32"]
    by (intro append_bytes_room) (auto elim: bb_room_mono)
  have "bb_room (length ?body) (bb_append ?hd b)" using assms(3) by (intro bb_room_append) simp
  with hd put_elems [OF assms(1)] have w: "append_vector put xs b = Inr ?b'"
    by (simp add: append_vector_def)
  have sm: "bb_small ?r" using assms(3) by (simp add: bb_small_def bb_size_def bb_append_def bb_room_def)
  have un: "bb_unread ?r = ?hd @ ?body"
    using assms(3) by (simp add: bb_unread_def bb_append_def bb_room_def bb_size_def)
  have rd: "read_val ?r = Inr (of_nat (length xs) :: uint32, bb_advance 4 ?r)"
    using read_val_unread [OF _ _ sm un] by simp
  have "bb_unread (bb_advance 4 ?r) = ?body"
    using bb_unread_advance [OF un] by simp
  then have "read_elems get (length xs) (bb_advance 4 ?r) = Inr (xs, bb_advance (length ?body) (bb_advance 4 ?r))"
    using assms(1) sm by (intro get_elems [where rest = "[]"]) auto
  moreover have "unat (of_nat (length xs) :: uint32) = length xs"
    using assms(2) by (simp add: unat_of_nat take_bit_eq_mod)
  moreover have "bb_advance (4 + length ?body) ?r = ?b'\<lparr>bb_rpos := bb_wpos ?b'\<rparr>"
    by (simp add: bb_advance_def bb_append_def)
  ultimately have "read_vector get ?r = Inr (xs, ?b'\<lparr>bb_rpos := bb_wpos ?b'\<rparr>)"
    by (simp add: read_vector_def rd)
  with w show ?thesis by blast
qed

end

lemma le_bytes_byte [simp]: "le_bytes (w :: uint8) = [w]"
  by (simp add: le_bytes_def)

lemma append_val_room:
  assumes "8 dvd LENGTH('a)" and "bb_room (LENGTH('a) div 8) b"
  shows "append_val (w :: 'a::len word) b = Inr (bb_append (le_bytes w) b)"
  unfolding append_val_def using assms le_bytes_not_Nil [OF assms(1), of w]
  by (intro append_bytes_room) simp_all

interpretation u8: codec le_bytes append_val read_val "\<lambda>w :: uint8. True"
  by unfold_locales (auto simp: append_val_room simp del: le_bytes_byte intro: read_val_unread [where 'a = 8, simplified])

interpretation u16: codec le_bytes append_val read_val "\<lambda>w :: uint16. True"
  by unfold_locales (auto simp: append_val_room intro: read_val_unread [where 'a = 16, simplified])

interpretation u32: codec le_bytes append_val read_val "\<lambda>w :: uint32. True"
  by unfold_locales (auto simp: append_val_room intro: read_val_unread [where 'a = 32, simplified])

interpretation u64: codec le_bytes append_val read_val "\<lambda>w :: uint64. True"
  by unfold_locales (auto simp: append_val_room intro: read_val_unread [where 'a = 64, simplified])

lemma read_byte:
  "bb_small b \<Longrightarrow> bb_unread b = x # rest \<Longrightarrow> read_val b = Inr (x :: uint8, bb_advance 1 b)"
  using u8.get_reads [of b x rest] by simp

lemma bb_unread_size: "bb_unread b = x # rest \<Longrightarrow> bb_rpos b < bb_size b"
  by (rule ccontr) (simp add: bb_unread_def bb_size_def)

subsection \<open>Strings\<close>

lemma append_string_room:
  assumes "bb_room (length s + 1) b"
  shows "append_string s b = Inr (bb_append (s @ [0]) b)"
proof (cases "s = []")
  case True
  then show ?thesis using assms append_val_room [of b "0 :: uint8"] by (simp add: append_string_def)
next
  case False
  have "append_bytes s b = Inr (bb_append s b)"
    using assms False by (intro append_bytes_room) (auto elim: bb_room_mono)
  moreover have "append_val (0 :: uint8) (bb_append s b) = Inr (bb_append [0] (bb_append s b))"
    using append_val_room [of "bb_append s b" "0 :: uint8"] bb_room_append [OF assms] by simp
  ultimately show ?thesis using False by (simp add: append_string_def)
qed

lemma read_string_loop_unread:
  "0 \<notin> set s \<Longrightarrow> bb_small b \<Longrightarrow> bb_unread b = s @ 0 # rest \<Longrightarrow>
     read_string_loop v b = Inr (v @ s, bb_advance (length s + 1) b)"
proof (induction s arbitrary: v b)
  case Nil
  then show ?case
    by (subst read_string_loop.simps) (simp add: bb_unread_size read_byte)
next
  case (Cons c s)
  have "bb_unread (bb_advance 1 b) = s @ 0 # rest"
    using bb_unread_advance [of b "[c]" "s @ 0 # rest"] Cons.prems by simp
  then have "read_string_loop (v @ [c]) (bb_advance 1 b) = Inr (v @ c # s, bb_advance (length s + 2) b)"
    using Cons.IH [of "bb_advance 1 b" "v @ [c]"] Cons.prems by simp
  moreover have "read_val b = Inr (c, bb_advance 1 b)" using Cons.prems by (intro read_byte) simp_all
  ultimately show ?case
    using Cons.prems by (subst read_string_loop.simps) (simp add: bb_unread_size)
qed

interpretation str: codec "\<lambda>s. s @ [0]" append_string read_string "\<lambda>s. 0 \<notin> set s"
  by unfold_locales (simp_all add: append_string_room read_string_def read_string_loop_unread)

subsection \<open>Packed GUIDs\<close>

lemma has_bits_single: "has_bits m (2 ^ i) \<longleftrightarrow> bit m i" for m :: uint8
  by (auto simp: has_bits_iff bit_simps dest: byte_bit simp flip: push_bit_of_1)

lemma low_byte_split:
  "ucast (ucast (g AND 0xFF) :: uint8) OR push_bit 8 (drop_bit 8 g) = g" for g :: uint64
proof (rule bit_word_eqI)
  fix n assume n: "n < LENGTH(64)"
  have m: "(0xFF :: uint64) = mask 8" by (simp add: mask_eq_exp_minus_1)
  show "bit (ucast (ucast (g AND 0xFF) :: uint8) OR push_bit 8 (drop_bit 8 g)) n = bit g n"
    using n unfolding m by (cases "n < 8") (auto simp: bit_simps)
qed

lemma unpack_loop_none:
  "\<forall>i\<in>set is. \<not> bit m i \<Longrightarrow> unpack_loop is m r b = Inr (r, b)"
  by (induction "is" arbitrary: r b) (simp_all add: has_bits_single)

lemma unpack_loop_hit:
  assumes "bit m i" and "bb_small b" and "bb_unread b = c # rest"
  shows "unpack_loop (i # is) m r b = unpack_loop is m (r OR push_bit (i * 8) (ucast c)) (bb_advance 1 b)"
proof -
  have "bb_rpos b < bb_size b" by (rule bb_unread_size [OF assms(3)])
  moreover have "sz_add (bb_rpos b) 1 = bb_rpos b + 1"
    using assms(2) calculation by (intro sz_add_small) (simp add: bb_small_def)
  ultimately show ?thesis
    using assms by (simp add: has_bits_single read_byte)
qed

lemma pack_unpack:
  assumes "i + k = 8" and "unat g < 256 ^ k" and "\<forall>n\<ge>i. \<not> bit m n"
  shows "\<exists>bs m'. pack_loop i g m acc = (m', acc @ bs) \<and> length bs \<le> k \<and> (\<forall>n<i. bit m' n = bit m n) \<and>
    (\<forall>r b rest. bb_small b \<longrightarrow> bb_unread b = bs @ rest \<longrightarrow>
      unpack_loop [i..<8] m' r b = Inr (r OR push_bit (8 * i) g, bb_advance (length bs) b))"
  using assms
proof (induction k arbitrary: i g m acc)
  case 0
  then have "g = 0" by (simp add: unat_eq_0)
  with 0 show ?case by (intro exI [of _ "[]"] exI [of _ m]) (simp add: pack_loop.simps)
next
  case (Suc k)
  have up: "[i..<8] = i # [Suc i..<8]" using Suc.prems(1) by (simp add: upt_conv_Cons)
  let ?c = "ucast (g AND 0xFF) :: uint8" and ?g = "drop_bit 8 g"
  have sp: "push_bit (8 * i) g = push_bit (i * 8) (ucast ?c) OR push_bit (8 * Suc i) ?g"
    by (subst low_byte_split [of g, symmetric])
      (simp add: push_bit_or push_bit_push_bit add.commute mult.commute)
  have g: "unat ?g < 256 ^ k"
    using Suc.prems(2) by (simp add: drop_bit_eq_div unat_div less_mult_imp_div_less mult.commute)
  consider (zero) "g = 0" | (hit) "g \<noteq> 0" "has_bits g 0xFF" | (skip) "g \<noteq> 0" "\<not> has_bits g 0xFF" by blast
  then show ?case
  proof cases
    case zero
    with Suc.prems(3) show ?thesis
      by (intro exI [of _ "[]"] exI [of _ m]) (simp add: pack_loop.simps [of i 0] unpack_loop_none)
  next
    case hit
    let ?m = "m OR push_bit i 1"
    have "\<forall>n\<ge>Suc i. \<not> bit ?m n" using Suc.prems(3) by (auto simp: bit_simps)
    from Suc.IH [OF _ g this, of "acc @ [?c]"] Suc.prems(1) obtain bs m' where ih:
      "pack_loop (Suc i) ?g ?m (acc @ [?c]) = (m', (acc @ [?c]) @ bs)" "length bs \<le> k"
      "\<forall>n<Suc i. bit m' n = bit ?m n"
      "\<And>r b rest. bb_small b \<Longrightarrow> bb_unread b = bs @ rest \<Longrightarrow>
        unpack_loop [Suc i..<8] m' r b = Inr (r OR push_bit (8 * Suc i) ?g, bb_advance (length bs) b)"
      by auto
    have bi: "bit m' i" using ih(3) Suc.prems(1) by (simp add: bit_simps)
    have "unpack_loop [i..<8] m' r b = Inr (r OR push_bit (8 * i) g, bb_advance (length (?c # bs)) b)"
      if "bb_small b" "bb_unread b = (?c # bs) @ rest" for r b rest
    proof -
      have "bb_unread (bb_advance 1 b) = bs @ rest"
        using bb_unread_advance [of b "[?c]" "bs @ rest"] that(2) by simp
      then have "unpack_loop [Suc i..<8] m' (r OR push_bit (i * 8) (ucast ?c)) (bb_advance 1 b) =
          Inr (r OR push_bit (8 * i) g, bb_advance (length (?c # bs)) b)"
        using that(1) ih(4) by (simp add: sp or.assoc)
      moreover have "unpack_loop (i # [Suc i..<8]) m' r b =
          unpack_loop [Suc i..<8] m' (r OR push_bit (i * 8) (ucast ?c)) (bb_advance 1 b)"
        using that by (intro unpack_loop_hit [OF bi, where rest = "bs @ rest"]) simp_all
      ultimately show ?thesis by (simp only: up)
    qed
    moreover have "\<forall>n<i. bit m' n = bit m n" using ih(3) by (auto simp: bit_simps)
    moreover have "pack_loop i g m acc = (m', acc @ ?c # bs)"
      using hit ih(1) by (simp add: pack_loop.simps [of i g])
    ultimately show ?thesis using ih(2) by (intro exI [of _ "?c # bs"] exI [of _ m']) simp
  next
    case skip
    have "\<forall>n\<ge>Suc i. \<not> bit m n" using Suc.prems(3) by auto
    from Suc.IH [OF _ g this, of acc] Suc.prems(1) obtain bs m' where ih:
      "pack_loop (Suc i) ?g m acc = (m', acc @ bs)" "length bs \<le> k"
      "\<forall>n<Suc i. bit m' n = bit m n"
      "\<And>r b rest. bb_small b \<Longrightarrow> bb_unread b = bs @ rest \<Longrightarrow>
        unpack_loop [Suc i..<8] m' r b = Inr (r OR push_bit (8 * Suc i) ?g, bb_advance (length bs) b)"
      by auto
    have "\<not> bit m' i" using ih(3) Suc.prems(3) by simp
    moreover have "push_bit (8 * i) g = push_bit (8 * Suc i) ?g"
      using skip(2) sp by (simp add: has_bits_def)
    moreover have "pack_loop i g m acc = (m', acc @ bs)"
      using skip ih(1) by (simp add: pack_loop.simps [of i g])
    ultimately show ?thesis using ih
      by (intro exI [of _ bs] exI [of _ m']) (simp add: up has_bits_single)
  qed
qed

lemma uint64_bytes: "unat g < 256 ^ 8" for g :: uint64
proof -
  have "unat g < 2 ^ LENGTH(64)" by (rule unsigned_less)
  then show ?thesis by simp
qed

lemma packGUID_length: "1 \<le> length (packGUID g) \<and> length (packGUID g) \<le> 9"
proof -
  from pack_unpack [OF _ uint64_bytes, of 0 0 g "[]"] show ?thesis by (auto simp: packGUID_def)
qed

lemma readPackGUID_unread:
  assumes "bb_small b" and "bb_unread b = packGUID g @ rest"
  shows "readPackGUID b = Inr (g, bb_advance (length (packGUID g)) b)"
proof -
  from pack_unpack [OF _ uint64_bytes, of 0 0 g "[]"] obtain bs m where pk:
    "pack_loop 0 g 0 [] = (m, bs)"
    "\<And>r b rest. bb_small b \<Longrightarrow> bb_unread b = bs @ rest \<Longrightarrow>
      unpack_loop [0..<8] m r b = Inr (r OR g, bb_advance (length bs) b)"
    by auto
  have un: "bb_unread b = m # bs @ rest" using assms(2) pk(1) by (simp add: packGUID_def)
  then have "bb_unread (bb_advance 1 b) = bs @ rest" using bb_unread_advance [of b "[m]"] by simp
  with pk(2) [of "bb_advance 1 b" rest 0] assms(1)
  have lp: "unpack_loop [0..<8] m 0 (bb_advance 1 b) = Inr (g, bb_advance (length (packGUID g)) b)"
    using pk(1) by (simp add: packGUID_def)
  have sz: "bb_rpos b < bb_size b" by (rule bb_unread_size [OF un])
  then have "sz_add (bb_rpos b) 1 = bb_rpos b + 1"
    using assms(1) by (intro sz_add_small) (simp add: bb_small_def)
  then have "readPackGUID b = res_bind (read_val b) (\<lambda>(m, b'). unpack_loop [0..<8] m 0 b')"
    using sz by (simp add: readPackGUID_def)
  also have "\<dots> = unpack_loop [0..<8] m 0 (bb_advance 1 b)"
    by (simp only: read_byte [OF assms(1) un] res_bind_simps prod.case)
  finally show ?thesis using lp by simp
qed

interpretation pguid: codec packGUID appendPackGUID readPackGUID "\<lambda>g. True"
proof (unfold_locales, goal_cases)
  case (1 x b)
  moreover have "packGUID x \<noteq> []" using packGUID_length [of x] by auto
  ultimately show ?case by (simp add: appendPackGUID_def append_bytes_room)
next
  case (2 x b rest)
  then show ?case by (intro readPackGUID_unread)
qed

section \<open>Properties\<close>

text \<open>C37: Packed GUIDs round-trip: what \<^verbatim>\<open>appendPackGUID\<close> appends is one to nine bytes
  long, and \<^verbatim>\<open>readPackGUID\<close> at its start returns the value and ends behind it.\<close>

theorem packed_guid_roundtrip:
  assumes "bb_room 9 b"
  shows "\<exists>b'. appendPackGUID g b = Inr b' \<and> bb_size b < bb_size b' \<and> bb_size b' \<le> bb_size b + 9 \<and>
    readPackGUID (b'\<lparr>bb_rpos := bb_wpos b\<rparr>) = Inr (g, b'\<lparr>bb_rpos := bb_wpos b'\<rparr>)"
proof -
  have r: "bb_room (length (packGUID g)) b" using assms packGUID_length [of g] by (auto elim: bb_room_mono)
  have "appendPackGUID g b = Inr (bb_append (packGUID g) b)" using r by (intro pguid.put_appends) simp
  moreover have "bb_size b < bb_size (bb_append (packGUID g) b)"
    "bb_size (bb_append (packGUID g) b) \<le> bb_size b + 9"
    using packGUID_length [of g] by (auto simp: bb_append_def bb_size_def)
  ultimately show ?thesis using pguid.put_get [OF _ r] by auto
qed

lemma packed_guid_roundtrip_witness:
  "\<exists>b'. appendPackGUID 0xF130000000AB0001 bb_init = Inr b' \<and> bb_size b' \<le> 9 \<and>
     (\<exists>b''. readPackGUID (b'\<lparr>bb_rpos := 0\<rparr>) = Inr (0xF130000000AB0001, b''))"
proof -
  have "bb_room 9 bb_init" by (simp add: bb_room_def bb_init_def bb_size_def)
  from packed_guid_roundtrip [OF this, of "0xF130000000AB0001"] show ?thesis
    by (auto simp: bb_init_def bb_size_def)
qed

text \<open>The stream operators of a sequence of strings round-trip: a count and the
  zero-terminated strings are written, and reading at the start of the count returns
  the same list and consumes exactly what was written, for strings without a zero
  byte and as long as the packet stays below the size limit.\<close>

theorem string_vector_roundtrip:
  assumes "\<forall>s\<in>set v. 0 \<notin> set s" and "length v < 2 ^ 32"
    and "bb_room (4 + length (concat (map (\<lambda>s. s @ [0]) v))) b"
  shows "\<exists>b'. append_vector append_string v b = Inr b' \<and>
    read_vector read_string (b'\<lparr>bb_rpos := bb_wpos b\<rparr>) = Inr (v, b'\<lparr>bb_rpos := bb_wpos b'\<rparr>)"
  using assms by (rule str.vector_put_get)

lemma string_vector_roundtrip_witness:
  "\<exists>b'. append_vector append_string [[72, 105], []] bb_init = Inr b' \<and>
     (\<exists>b''. read_vector read_string (b'\<lparr>bb_rpos := 0\<rparr>) = Inr ([[72, 105], []], b''))"
proof -
  let ?v = "[[72, 105], []] :: uint8 list list"
  have h: "\<forall>s\<in>set ?v. 0 \<notin> set s" "length ?v < 2 ^ 32"
    "bb_room (4 + length (concat (map (\<lambda>s. s @ [0]) ?v))) bb_init"
    by (simp_all add: bb_room_def bb_init_def bb_size_def)
  from string_vector_roundtrip [OF h] show ?thesis by (auto simp: bb_init_def)
qed

text \<open>A read of an integer never leaves the packet: at any read position it returns
  the little-endian value of the bytes there and advances, or throws
  \<^verbatim>\<open>ByteBufferPositionException\<close> with the position unchanged; it throws exactly when
  fewer bytes than the integer's width are left.\<close>

theorem read_val_bounds:
  assumes "bb_size b < 2 ^ 63" and "bb_rpos b < 2 ^ 63" and "LENGTH('a) \<le> 64"
  shows "(read_val b :: bb_error + 'a::len word \<times> byte_buffer) =
    (if bb_rpos b + LENGTH('a) div 8 \<le> bb_size b
     then Inr (of_le_bytes (take (LENGTH('a) div 8) (bb_unread b)), bb_advance (LENGTH('a) div 8) b)
     else Inl (PositionException False (bb_rpos b) (LENGTH('a) div 8) (bb_size b)))"
proof -
  have "LENGTH('a) div 8 \<le> 8" using assms(3) by simp
  then have "sz_add (bb_rpos b) (LENGTH('a) div 8) = bb_rpos b + LENGTH('a) div 8"
    using assms(2) by (intro sz_add_small) simp
  then show ?thesis by (auto simp: read_val_def read_at_def bb_unread_def bb_advance_def)
qed

lemma read_val_bounds_witness:
  "(read_val (bb_append [0x34, 0x12, 7] bb_init) :: bb_error + uint16 \<times> byte_buffer) =
     Inr (0x1234, bb_advance 2 (bb_append [0x34, 0x12, 7] bb_init)) \<and>
   (read_val (bb_append [0x34, 0x12, 7] bb_init) :: bb_error + uint32 \<times> byte_buffer) =
     Inl (PositionException False 0 4 3)"
proof -
  let ?b = "bb_append [0x34, 0x12, 7] bb_init"
  have h: "bb_size ?b < 2 ^ 63" "bb_rpos ?b < 2 ^ 63"
    by (simp_all add: bb_append_def bb_init_def bb_size_def)
  have b: "bb_size ?b = 3" "bb_rpos ?b = 0" "bb_unread ?b = [0x34, 0x12, 7]"
    by (simp_all add: bb_append_def bb_init_def bb_size_def bb_unread_def)
  have t: "take 2 [0x34, 0x12, 7 :: uint8] = [0x34, 0x12]" by (simp add: numeral_2_eq_2)
  have v: "(of_le_bytes [0x34, 0x12] :: uint16) = 0x1234" by simp
  have "(read_val ?b :: bb_error + uint16 \<times> byte_buffer) =
      Inr (of_le_bytes (take 2 [0x34, 0x12, 7]), bb_advance 2 ?b)"
    using read_val_bounds [OF h, where 'a = 16] unfolding b by simp
  moreover have "(read_val ?b :: bb_error + uint32 \<times> byte_buffer) = Inl (PositionException False 0 4 3)"
    using read_val_bounds [OF h, where 'a = 32] unfolding b by simp
  ultimately show ?thesis unfolding t v by blast
qed

end
