(* ===== verification/ObjectGuid.thy ===== *)
theory ObjectGuid
  imports ByteBuffer
begin

text \<open>
  Object identifiers, \<^verbatim>\<open>src/src/server/game/Entities/Object/ObjectGuid.h\<close> and
  \<^verbatim>\<open>ObjectGuid.cpp\<close>: a 64-bit value with a 16-bit type part, for some types a
  24-bit entry, and a counter; and the generators of counters.
\<close>

section \<open>Object types\<close>

datatype TypeID = TYPEID_OBJECT | TYPEID_ITEM | TYPEID_CONTAINER | TYPEID_UNIT | TYPEID_PLAYER
  | TYPEID_GAMEOBJECT | TYPEID_DYNAMICOBJECT | TYPEID_CORPSE

text \<open>
  The enumerators of \<^verbatim>\<open>HighGuid\<close> (\<^verbatim>\<open>Container\<close> has the value of \<^verbatim>\<open>Item\<close>); a
  16-bit value without an enumerator is kept as it is.
\<close>

datatype HighGuid = HG_Item | HG_Player | HG_GameObject | HG_Transport | HG_Unit | HG_Pet
  | HG_Vehicle | HG_DynamicObject | HG_Corpse | HG_Mo_Transport | HG_Instance | HG_Group
  | HG_Other uint16

fun high_value :: "HighGuid \<Rightarrow> uint16" where
  "high_value HG_Item = 0x4000"
| "high_value HG_Player = 0x0000"
| "high_value HG_GameObject = 0xF110"
| "high_value HG_Transport = 0xF120"
| "high_value HG_Unit = 0xF130"
| "high_value HG_Pet = 0xF140"
| "high_value HG_Vehicle = 0xF150"
| "high_value HG_DynamicObject = 0xF100"
| "high_value HG_Corpse = 0xF101"
| "high_value HG_Mo_Transport = 0x1FC0"
| "high_value HG_Instance = 0x1F40"
| "high_value HG_Group = 0x1F50"
| "high_value (HG_Other v) = v"

definition high_of :: "uint16 \<Rightarrow> HighGuid" where
  "high_of v =
     (if v = 0x4000 then HG_Item else if v = 0x0000 then HG_Player
      else if v = 0xF110 then HG_GameObject else if v = 0xF120 then HG_Transport
      else if v = 0xF130 then HG_Unit else if v = 0xF140 then HG_Pet
      else if v = 0xF150 then HG_Vehicle else if v = 0xF100 then HG_DynamicObject
      else if v = 0xF101 then HG_Corpse else if v = 0x1FC0 then HG_Mo_Transport
      else if v = 0x1F40 then HG_Instance else if v = 0x1F50 then HG_Group
      else HG_Other v)"

definition known_high :: "HighGuid \<Rightarrow> bool" where
  "known_high h \<longleftrightarrow> (case h of HG_Other _ \<Rightarrow> False | _ \<Rightarrow> True)"

section \<open>The identifier\<close>

type_synonym guid = uint64

text \<open>The two constructors: \<^verbatim>\<open>Global\<close> and \<^verbatim>\<open>MapSpecific\<close>.\<close>

definition Global :: "HighGuid \<Rightarrow> uint32 \<Rightarrow> guid" where
  "Global hi counter =
     (if counter \<noteq> 0 then ucast counter OR push_bit 48 (ucast (high_value hi)) else 0)"

definition MapSpecific :: "HighGuid \<Rightarrow> uint32 \<Rightarrow> uint32 \<Rightarrow> guid" where
  "MapSpecific hi entry counter =
     (if counter \<noteq> 0
      then ucast counter OR push_bit 24 (ucast entry) OR push_bit 48 (ucast (high_value hi)) else 0)"

definition GetHigh :: "guid \<Rightarrow> HighGuid" where
  "GetHigh g = high_of (ucast (drop_bit 48 g AND 0x0000FFFF))"

fun HasEntry :: "HighGuid \<Rightarrow> bool" where
  "HasEntry HG_Item = False"
| "HasEntry HG_Player = False"
| "HasEntry HG_DynamicObject = False"
| "HasEntry HG_Corpse = False"
| "HasEntry HG_Mo_Transport = False"
| "HasEntry HG_Instance = False"
| "HasEntry HG_Group = False"
| "HasEntry _ = True"

definition GetEntry :: "guid \<Rightarrow> uint32" where
  "GetEntry g = (if HasEntry (GetHigh g) then ucast (drop_bit 24 g AND 0x0000000000FFFFFF) else 0)"

definition GetCounter :: "guid \<Rightarrow> uint32" where
  "GetCounter g =
     (if HasEntry (GetHigh g) then ucast (g AND 0x0000000000FFFFFF)
      else ucast (g AND 0x00000000FFFFFFFF))"

definition GetMaxCounter :: "HighGuid \<Rightarrow> uint32" where
  "GetMaxCounter high = (if HasEntry high then 0x00FFFFFF else 0xFFFFFFFF)"

definition IsEmpty :: "guid \<Rightarrow> bool" where
  "IsEmpty g \<longleftrightarrow> g = 0"

definition IsAnyTypeCreature :: "guid \<Rightarrow> bool" where
  "IsAnyTypeCreature g \<longleftrightarrow> GetHigh g = HG_Unit \<or> GetHigh g = HG_Pet \<or> GetHigh g = HG_Vehicle"

definition IsPlayer :: "guid \<Rightarrow> bool" where
  "IsPlayer g \<longleftrightarrow> \<not> IsEmpty g \<and> GetHigh g = HG_Player"

definition IsUnit :: "guid \<Rightarrow> bool" where
  "IsUnit g \<longleftrightarrow> IsAnyTypeCreature g \<or> IsPlayer g"

definition IsAnyTypeGameObject :: "guid \<Rightarrow> bool" where
  "IsAnyTypeGameObject g \<longleftrightarrow>
     GetHigh g = HG_GameObject \<or> GetHigh g = HG_Transport \<or> GetHigh g = HG_Mo_Transport"

definition IsGroup :: "guid \<Rightarrow> bool" where
  "IsGroup g \<longleftrightarrow> GetHigh g = HG_Group"

fun GetTypeId :: "HighGuid \<Rightarrow> TypeID" where
  "GetTypeId HG_Item = TYPEID_ITEM"
| "GetTypeId HG_Unit = TYPEID_UNIT"
| "GetTypeId HG_Pet = TYPEID_UNIT"
| "GetTypeId HG_Player = TYPEID_PLAYER"
| "GetTypeId HG_GameObject = TYPEID_GAMEOBJECT"
| "GetTypeId HG_DynamicObject = TYPEID_DYNAMICOBJECT"
| "GetTypeId HG_Corpse = TYPEID_CORPSE"
| "GetTypeId HG_Mo_Transport = TYPEID_GAMEOBJECT"
| "GetTypeId HG_Vehicle = TYPEID_UNIT"
| "GetTypeId _ = TYPEID_OBJECT"

fun GetTypeName :: "HighGuid \<Rightarrow> string" where
  "GetTypeName HG_Item = ''Item''"
| "GetTypeName HG_Player = ''Player''"
| "GetTypeName HG_GameObject = ''Gameobject''"
| "GetTypeName HG_Transport = ''Transport''"
| "GetTypeName HG_Unit = ''Creature''"
| "GetTypeName HG_Pet = ''Pet''"
| "GetTypeName HG_Vehicle = ''Vehicle''"
| "GetTypeName HG_DynamicObject = ''DynObject''"
| "GetTypeName HG_Corpse = ''Corpse''"
| "GetTypeName HG_Mo_Transport = ''MoTransport''"
| "GetTypeName HG_Instance = ''InstanceID''"
| "GetTypeName HG_Group = ''Group''"
| "GetTypeName (HG_Other _) = ''<unknown>''"

section \<open>Generators\<close>

text \<open>
  A generator of one type.  \<open>gen_stopped\<close> records that \<^verbatim>\<open>HandleCounterOverflow\<close> asked
  the world to stop; the code goes on to hand out the value all the same.
\<close>

record guid_generator =
  gen_high :: HighGuid
  gen_next :: uint32
  gen_stopped :: bool

definition generator_init :: "HighGuid \<Rightarrow> uint32 \<Rightarrow> guid_generator" where
  "generator_init high start = \<lparr>gen_high = high, gen_next = start, gen_stopped = False\<rparr>"

definition HandleCounterOverflow :: "guid_generator \<Rightarrow> guid_generator" where
  "HandleCounterOverflow gen = gen\<lparr>gen_stopped := True\<rparr>"

definition Generate :: "guid_generator \<Rightarrow> uint32 \<times> guid_generator" where
  "Generate gen =
     (let gen' = (if gen_next gen \<ge> GetMaxCounter (gen_high gen) - 1
                  then HandleCounterOverflow gen else gen)
      in (gen_next gen', gen'\<lparr>gen_next := gen_next gen' + 1\<rparr>))"

fun generate_many :: "nat \<Rightarrow> guid_generator \<Rightarrow> uint32 list \<times> guid_generator" where
  "generate_many 0 gen = ([], gen)"
| "generate_many (Suc n) gen =
     (case Generate gen of (c, gen') \<Rightarrow>
        case generate_many n gen' of (cs, gen'') \<Rightarrow> (c # cs, gen''))"

section \<open>Fields\<close>

lemma high_of_value [simp]: "known_high h \<Longrightarrow> high_of (high_value h) = h"
  by (cases h) (simp_all add: high_of_def known_high_def)

lemma high_value_of [simp]: "high_value (high_of v) = v"
  by (simp add: high_of_def)

lemma dword_bit: "bit x n \<Longrightarrow> n < 32" for x :: uint32
  using bit_imp_le_length [of x n] by simp

lemma word16_bit: "bit x n \<Longrightarrow> n < 16" for x :: uint16
  using bit_imp_le_length [of x n] by simp

lemma bit_below:
  fixes x :: uint32
  assumes "unat x < 2 ^ k" and "bit x n"
  shows "n < k"
proof -
  have "unat (take_bit k x) = unat x"
    using assms(1) by (simp add: unsigned_take_bit_eq take_bit_nat_eq_self)
  then have "take_bit k x = x" by (simp add: word_unat_eq_iff)
  with assms(2) show ?thesis by (metis bit_take_bit_iff)
qed

lemma mask16: "(0x0000FFFF :: uint64) = mask 16" by (simp add: mask_eq_exp_minus_1)

lemma mask24: "(0x0000000000FFFFFF :: uint64) = mask 24" by (simp add: mask_eq_exp_minus_1)

lemma mask32: "(0x00000000FFFFFFFF :: uint64) = mask 32" by (simp add: mask_eq_exp_minus_1)

lemma GetHigh_MapSpecific:
  assumes "known_high hi" and "counter \<noteq> 0" and "unat counter < 2 ^ 24" and "unat entry < 2 ^ 24"
  shows "GetHigh (MapSpecific hi entry counter) = hi"
proof -
  have "ucast (drop_bit 48 (MapSpecific hi entry counter) AND mask 16) = high_value hi"
    by (rule bit_word_eqI)
      (use assms(2) in \<open>auto simp: MapSpecific_def bit_simps dest: bit_below [OF assms(3)] bit_below [OF assms(4)] word16_bit\<close>)
  then show ?thesis unfolding GetHigh_def mask16 using assms(1) by simp
qed

lemma GetHigh_Global:
  assumes "known_high hi" and "counter \<noteq> 0"
  shows "GetHigh (Global hi counter) = hi"
proof -
  have "ucast (drop_bit 48 (Global hi counter) AND mask 16) = high_value hi"
    by (rule bit_word_eqI) (use assms(2) in \<open>auto simp: Global_def bit_simps dest: dword_bit word16_bit\<close>)
  then show ?thesis unfolding GetHigh_def mask16 using assms(1) by simp
qed

lemma GetEntry_MapSpecific:
  assumes "GetHigh (MapSpecific hi entry counter) = hi" and "HasEntry hi"
    and "counter \<noteq> 0" and "unat counter < 2 ^ 24" and "unat entry < 2 ^ 24"
  shows "GetEntry (MapSpecific hi entry counter) = entry"
proof -
  have "ucast (drop_bit 24 (MapSpecific hi entry counter) AND mask 24) = entry"
    by (rule bit_word_eqI)
      (use assms(3) in \<open>auto simp: MapSpecific_def bit_simps dest: bit_below [OF assms(4)] bit_below [OF assms(5)] word16_bit\<close>)
  then show ?thesis unfolding GetEntry_def mask24 using assms(1,2) by simp
qed

lemma GetCounter_MapSpecific:
  assumes "GetHigh (MapSpecific hi entry counter) = hi" and "HasEntry hi"
    and "counter \<noteq> 0" and "unat counter < 2 ^ 24"
  shows "GetCounter (MapSpecific hi entry counter) = counter"
proof -
  have "ucast (MapSpecific hi entry counter AND mask 24) = counter"
    by (rule bit_word_eqI)
      (use assms(3) in \<open>auto simp: MapSpecific_def bit_simps dest: bit_below [OF assms(4)] dword_bit word16_bit\<close>)
  then show ?thesis unfolding GetCounter_def mask24 using assms(1,2) by simp
qed

lemma GetCounter_Global:
  assumes "GetHigh (Global hi counter) = hi" and "\<not> HasEntry hi" and "counter \<noteq> 0"
  shows "GetCounter (Global hi counter) = counter"
proof -
  have "ucast (Global hi counter AND mask 32) = counter"
    by (rule bit_word_eqI) (use assms(3) in \<open>auto simp: Global_def bit_simps dest: dword_bit word16_bit\<close>)
  then show ?thesis unfolding GetCounter_def mask32 using assms(1,2) by simp
qed

section \<open>Runs of a generator\<close>

lemma Generate_running:
  assumes "Generate gen = (c, gen')" and "\<not> gen_stopped gen'"
  shows "c = gen_next gen \<and> gen' = gen\<lparr>gen_next := gen_next gen + 1\<rparr> \<and> \<not> gen_stopped gen \<and>
    gen_next gen < GetMaxCounter (gen_high gen) - 1"
  using assms by (auto simp: Generate_def HandleCounterOverflow_def Let_def split: if_splits)

lemma generate_many_running:
  "generate_many n gen = (cs, gen') \<Longrightarrow> \<not> gen_stopped gen' \<Longrightarrow>
     \<not> gen_stopped gen \<and> map unat cs = [unat (gen_next gen)..<unat (gen_next gen) + n] \<and>
     (0 < n \<longrightarrow> unat (gen_next gen) + n \<le> unat (GetMaxCounter (gen_high gen) - 1))"
proof (induction n arbitrary: gen cs)
  case (Suc n)
  obtain c g where g: "Generate gen = (c, g)" by fastforce
  obtain ds where ds: "generate_many n g = (ds, gen')" "cs = c # ds"
    using Suc.prems(1) g by (auto split: prod.splits)
  have ih: "\<not> gen_stopped g" "map unat ds = [unat (gen_next g)..<unat (gen_next g) + n]"
    "0 < n \<longrightarrow> unat (gen_next g) + n \<le> unat (GetMaxCounter (gen_high g) - 1)"
    using Suc.IH [OF ds(1) Suc.prems(2)] by auto
  from Generate_running [OF g ih(1)] have c: "c = gen_next gen" "g = gen\<lparr>gen_next := gen_next gen + 1\<rparr>"
    "\<not> gen_stopped gen" "gen_next gen < GetMaxCounter (gen_high gen) - 1" by auto
  have lt: "unat (gen_next gen) < unat (GetMaxCounter (gen_high gen) - 1)"
    using c(4) by (simp add: word_less_nat_alt)
  have "unat (gen_next gen + 1) = unat (gen_next gen) + 1"
  proof -
    have "unat (GetMaxCounter (gen_high gen) - 1) < 2 ^ LENGTH(32)" by (rule unsigned_less)
    with lt have "unat (gen_next gen) + 1 < 2 ^ LENGTH(32)" by simp
    then show ?thesis by (simp add: unat_word_ariths)
  qed
  with ih ds c lt show ?case by (auto simp: upt_conv_Cons)
qed simp

section \<open>Properties\<close>

text \<open>A GUID gives back what it was made of: with a non-zero counter and fields that
  fit, type, entry and counter of a map-specific GUID, and type and counter of a
  global one, read back unchanged, and the type decides the client object type.\<close>

theorem guid_fields_roundtrip:
  assumes "known_high hi" and "counter \<noteq> 0"
  shows "(if HasEntry hi
      then unat counter < 2 ^ 24 \<longrightarrow> unat entry < 2 ^ 24 \<longrightarrow>
        GetHigh (MapSpecific hi entry counter) = hi \<and> GetEntry (MapSpecific hi entry counter) = entry \<and>
        GetCounter (MapSpecific hi entry counter) = counter
      else GetHigh (Global hi counter) = hi \<and> GetEntry (Global hi counter) = 0 \<and>
        GetCounter (Global hi counter) = counter)"
proof (cases "HasEntry hi")
  case True
  with assms show ?thesis
    by (simp add: GetHigh_MapSpecific GetEntry_MapSpecific GetCounter_MapSpecific)
next
  case False
  have "GetHigh (Global hi counter) = hi" using assms by (rule GetHigh_Global)
  with False assms GetCounter_Global [OF this] show ?thesis by (simp add: GetEntry_def)
qed

lemma guid_fields_roundtrip_witness:
  "GetHigh (MapSpecific HG_Vehicle 33109 7) = HG_Vehicle \<and> GetEntry (MapSpecific HG_Vehicle 33109 7) = 33109 \<and>
   GetCounter (MapSpecific HG_Vehicle 33109 7) = 7 \<and> GetCounter (Global HG_Player 5) = 5"
  using guid_fields_roundtrip [of HG_Vehicle 7 33109] guid_fields_roundtrip [of HG_Player 5]
  by (simp add: known_high_def)

text \<open>As long as a generator has not asked the world to stop, the GUIDs built from its
  counters are pairwise distinct and keep their counters, for any number of calls.\<close>

theorem generated_guids_distinct:
  assumes "known_high hi" and "HasEntry hi" and "start \<noteq> 0" and "unat entry < 2 ^ 24"
    and "generate_many n (generator_init hi start) = (cs, gen')" and "\<not> gen_stopped gen'"
  shows "length cs = n \<and> distinct (map (MapSpecific hi entry) cs) \<and>
    (\<forall>c\<in>set cs. GetCounter (MapSpecific hi entry c) = c)"
proof -
  have run: "map unat cs = [unat start..<unat start + n]"
    "0 < n \<longrightarrow> unat start + n \<le> unat (GetMaxCounter hi - 1)"
    using generate_many_running [OF assms(5,6)] by (simp_all add: generator_init_def)
  have "unat (GetMaxCounter hi - 1) < 2 ^ 24" using assms(2) by (simp add: GetMaxCounter_def)
  moreover have "unat start > 0" using assms(3) by (simp add: unat_gt_0)
  ultimately have cnt: "c \<noteq> 0 \<and> unat c < 2 ^ 24" if "c \<in> set cs" for c
  proof -
    have "unat c \<in> set (map unat cs)" using that by simp
    then have "unat start \<le> unat c" "unat c < unat start + n" unfolding run(1) by auto
    with run(2) \<open>unat start > 0\<close> \<open>unat (GetMaxCounter hi - 1) < 2 ^ 24\<close> show ?thesis by auto
  qed
  then have fld: "GetCounter (MapSpecific hi entry c) = c" if "c \<in> set cs" for c
    using that assms(1,2,4) GetHigh_MapSpecific [of hi c entry]
    by (intro GetCounter_MapSpecific) auto
  have "distinct cs" using run(1) by (metis distinct_map distinct_upt)
  moreover have "inj_on (MapSpecific hi entry) (set cs)" by (rule inj_onI) (metis fld)
  moreover have "length cs = n" using run(1) by (metis length_map length_upt diff_add_inverse)
  ultimately show ?thesis using fld by (simp add: distinct_map)
qed

lemma generated_guids_distinct_witness:
  "distinct (map (MapSpecific HG_Unit 1) [1, 2, 3])"
proof -
  have h: "known_high HG_Unit" "HasEntry HG_Unit" "(1 :: uint32) \<noteq> 0" "unat (1 :: uint32) < 2 ^ 24"
    by (simp_all add: known_high_def)
  have g: "generate_many (Suc (Suc (Suc 0))) (generator_init HG_Unit 1) =
      ([1, 2, 3], (generator_init HG_Unit 1)\<lparr>gen_next := 4\<rparr>)"
    by (simp add: Generate_def generator_init_def GetMaxCounter_def Let_def word_le_nat_alt)
  from generated_guids_distinct [OF h g] show ?thesis by (simp add: generator_init_def)
qed

end
