(* ===== verification/RBAC.thy ===== *)
theory RBAC
  imports Prelude
begin

text \<open>
  Role-based access control, \<^verbatim>\<open>src/src/server/game/Accounts/RBAC.h\<close>, \<^verbatim>\<open>RBAC.cpp\<close> and
  the RBAC part of \<^verbatim>\<open>AccountMgr.cpp\<close>: the permission tables, the granted and denied
  permissions of an account and the computation of its effective permissions.
  Rows of the login database are arguments; statements sent to it are outputs.
\<close>

section \<open>Permission tables\<close>

record rbac_permission =
  rp_id :: uint32
  rp_name :: string
  rp_perms :: "uint32 list"

text \<open>The maps \<^verbatim>\<open>_permissions\<close> (to possibly null pointers) and \<^verbatim>\<open>_defaultPermissions\<close>.\<close>

record account_mgr =
  am_permissions :: "(uint32, rbac_permission option) stdmap"
  am_defaults :: "(uint8, uint32 list) stdmap"

definition am_init :: account_mgr where
  "am_init = \<lparr>am_permissions = [], am_defaults = []\<rparr>"

definition AddLinkedPermission :: "uint32 \<Rightarrow> rbac_permission \<Rightarrow> rbac_permission" where
  "AddLinkedPermission i p = p\<lparr>rp_perms := os_insert i (rp_perms p)\<rparr>"

definition GetRBACPermission :: "account_mgr \<Rightarrow> uint32 \<Rightarrow> rbac_permission option" where
  "GetRBACPermission am permissionId =
     (case om_find (am_permissions am) permissionId of None \<Rightarrow> None | Some p \<Rightarrow> p)"

definition GetRBACDefaultPermissions :: "account_mgr \<Rightarrow> uint8 \<Rightarrow> uint32 list \<times> account_mgr" where
  "GetRBACDefaultPermissions am secLevel =
     (case om_find (am_defaults am) secLevel of
        Some ps \<Rightarrow> (ps, am)
      | None \<Rightarrow> ([], am\<lparr>am_defaults := om_put secLevel [] (am_defaults am)\<rparr>))"

definition ClearRBAC :: "account_mgr \<Rightarrow> account_mgr" where
  "ClearRBAC am = am\<lparr>am_permissions := [], am_defaults := []\<rparr>"

text \<open>
  The three loops of \<^verbatim>\<open>LoadRBAC\<close>.  \<^verbatim>\<open>_permissions[newId]\<close> inserts a null pointer for an
  id without a definition; linking through a null pointer is undefined (\<open>None\<close>).
\<close>

fun load_definitions :: "(uint32 \<times> string) list \<Rightarrow> account_mgr \<Rightarrow> account_mgr" where
  "load_definitions [] am = am"
| "load_definitions ((i, name) # rows) am =
     load_definitions rows (am\<lparr>am_permissions :=
       om_put i (Some \<lparr>rp_id = i, rp_name = name, rp_perms = []\<rparr>) (am_permissions am)\<rparr>)"

fun load_links :: "(uint32 \<times> uint32) list \<Rightarrow> uint32 \<Rightarrow> bool \<Rightarrow> account_mgr \<Rightarrow> account_mgr option" where
  "load_links [] permissionId looked_up am = Some am"
| "load_links ((newId, linkedPermissionId) # rows) permissionId looked_up am =
     (let switch = (permissionId \<noteq> newId);
          am1 = (if switch \<and> om_find (am_permissions am) newId = None
                 then am\<lparr>am_permissions := om_put newId None (am_permissions am)\<rparr> else am);
          looked_up' = (looked_up \<or> switch)
      in if linkedPermissionId = newId then load_links rows newId looked_up' am1
         else if \<not> looked_up' then None
         else (case om_find (am_permissions am1) newId of
                 Some (Some p) \<Rightarrow> load_links rows newId looked_up'
                   (am1\<lparr>am_permissions :=
                      om_put newId (Some (AddLinkedPermission linkedPermissionId p)) (am_permissions am1)\<rparr>)
               | _ \<Rightarrow> None))"

fun load_defaults :: "(uint32 \<times> uint32) list \<Rightarrow> account_mgr \<Rightarrow> account_mgr" where
  "load_defaults [] am = am"
| "load_defaults ((secId, p) # rows) am =
     (let s = ucast secId;
          ps = om_at [] (am_defaults am) s
      in load_defaults rows (am\<lparr>am_defaults := om_put s (os_insert p ps) (am_defaults am)\<rparr>))"

definition LoadRBAC :: "(uint32 \<times> string) list \<Rightarrow> (uint32 \<times> uint32) list \<Rightarrow> (uint32 \<times> uint32) list
    \<Rightarrow> account_mgr \<Rightarrow> account_mgr option" where
  "LoadRBAC definitions links defaults am =
     (let am0 = ClearRBAC am in
      if definitions = [] then Some am0
      else let am1 = load_definitions definitions am0 in
        if links = [] then Some am1
        else case load_links links 0 False am1 of
          None \<Rightarrow> None
        | Some am2 \<Rightarrow> if defaults = [] then Some am2 else Some (load_defaults defaults am2))"

section \<open>Permissions of an account\<close>

datatype RBACCommandResult = RBAC_OK | RBAC_CANT_ADD_ALREADY_ADDED | RBAC_CANT_REVOKE_NOT_IN_LIST
  | RBAC_IN_GRANTED_LIST | RBAC_IN_DENIED_LIST | RBAC_ID_DOES_NOT_EXISTS

record rbac_data =
  rd_id :: uint32
  rd_name :: string
  rd_realmId :: int32
  rd_secLevel :: uint8
  rd_granted :: "uint32 list"
  rd_denied :: "uint32 list"
  rd_global :: "uint32 list"

text \<open>Statements executed on the login database.\<close>

datatype login_stmt =
    INS_RBAC_ACCOUNT_PERMISSION uint32 uint32 bool int32
  | DEL_RBAC_ACCOUNT_PERMISSION uint32 uint32 int32
  | DEL_ACCOUNT_ACCESS uint32
  | DEL_ACCOUNT_ACCESS_BY_REALM uint32 int32
  | INS_ACCOUNT_ACCESS uint32 uint8 int32

definition rd_init :: "uint32 \<Rightarrow> string \<Rightarrow> int32 \<Rightarrow> uint8 \<Rightarrow> rbac_data" where
  "rd_init i name realmId secLevel =
     \<lparr>rd_id = i, rd_name = name, rd_realmId = realmId, rd_secLevel = secLevel,
      rd_granted = [], rd_denied = [], rd_global = []\<rparr>"

definition HasPermission :: "rbac_data \<Rightarrow> uint32 \<Rightarrow> bool" where
  "HasPermission rd p \<longleftrightarrow> p \<in> set (rd_global rd)"

definition HasGrantedPermission :: "rbac_data \<Rightarrow> uint32 \<Rightarrow> bool" where
  "HasGrantedPermission rd p \<longleftrightarrow> p \<in> set (rd_granted rd)"

definition HasDeniedPermission :: "rbac_data \<Rightarrow> uint32 \<Rightarrow> bool" where
  "HasDeniedPermission rd p \<longleftrightarrow> p \<in> set (rd_denied rd)"

text \<open>
  The loop of \<^verbatim>\<open>ExpandPermissions\<close>: take the smallest permission to check; if it is
  defined, add it to the result and add its links that are not in the result yet to
  the permissions to check.
\<close>

definition add_links :: "uint32 list \<Rightarrow> uint32 list \<Rightarrow> uint32 list \<Rightarrow> uint32 list" where
  "add_links linked permissions toCheck =
     fold (\<lambda>q tc. if q \<notin> set permissions then os_insert q tc else tc) linked toCheck"

lemma filter_os_insert: "\<not> P q \<Longrightarrow> filter P (os_insert q tc) = filter P tc"
  by (induction q tc rule: os_insert.induct) auto

lemma filter_add_links: "filter (\<lambda>x. x \<in> set ps) (add_links l ps tc) = filter (\<lambda>x. x \<in> set ps) tc"
  unfolding add_links_def by (induction l arbitrary: tc) (auto simp: filter_os_insert)

lemma set_add_links: "set (add_links l ps tc) = set tc \<union> (set l - set ps)"
  unfolding add_links_def by (induction l arbitrary: tc) auto

lemma GetRBACPermission_key: "GetRBACPermission am p = Some perm \<Longrightarrow> p \<in> om_keys (am_permissions am)"
  by (auto simp: GetRBACPermission_def om_find_keys split: option.splits)

lemma finite_om_keys [simp]: "finite (om_keys m)"
  by (simp add: om_keys_def)

function expand_loop :: "account_mgr \<Rightarrow> uint32 list \<Rightarrow> uint32 list \<Rightarrow> uint32 list" where
  "expand_loop am [] permissions = permissions"
| "expand_loop am (p # toCheck) permissions =
     (case GetRBACPermission am p of
        None \<Rightarrow> expand_loop am toCheck permissions
      | Some permission \<Rightarrow>
          let permissions' = os_insert p permissions
          in expand_loop am (add_links (rp_perms permission) permissions' toCheck) permissions')"
  by pat_completeness auto
termination
proof (relation "measures [\<lambda>(am, tc, ps). card (om_keys (am_permissions am) - set ps),
    \<lambda>(am, tc, ps). length (filter (\<lambda>x. x \<in> set ps) tc), \<lambda>(am, tc, ps). length tc]", goal_cases)
  case (3 am p tc ps perm x)
  have k: "p \<in> om_keys (am_permissions am)" by (rule GetRBACPermission_key [OF 3(1)])
  show ?case
  proof (cases "p \<in> set ps")
    case True
    then have "set x = set ps" using 3(2) by (simp add: insert_absorb)
    moreover have "filter (\<lambda>y. y \<in> set x) (add_links (rp_perms perm) x tc) = filter (\<lambda>y. y \<in> set x) tc"
      by (rule filter_add_links)
    ultimately show ?thesis using True by simp
  next
    case False
    with k have "om_keys (am_permissions am) - insert p (set ps) \<subset> om_keys (am_permissions am) - set ps" by blast
    then show ?thesis using 3(2) by (simp add: psubset_card_mono)
  qed
qed auto

definition ExpandPermissions :: "account_mgr \<Rightarrow> uint32 list \<Rightarrow> uint32 list" where
  "ExpandPermissions am permissions = expand_loop am permissions []"

definition RemovePermissions :: "uint32 list \<Rightarrow> uint32 list \<Rightarrow> uint32 list" where
  "RemovePermissions permsFrom permsTo = fold os_erase permsFrom permsTo"

text \<open>
  The two sets of \<^verbatim>\<open>CalculateNewPermissions\<close> at its end: \<^verbatim>\<open>_globalPerms\<close> and the local
  \<^verbatim>\<open>revoked\<close>.  The call \<^verbatim>\<open>RemovePermissions(_globalPerms, revoked)\<close> passes the set to remove
  from first, but the first parameter is the one that is only read: it is \<^verbatim>\<open>revoked\<close>, dropped on
  return, that loses elements.
\<close>

definition calculated_sets :: "account_mgr \<Rightarrow> rbac_data \<Rightarrow> uint32 list \<times> uint32 list" where
  "calculated_sets am rd =
     (let globalPerms = ExpandPermissions am (rd_granted rd);
          revoked = ExpandPermissions am (rd_denied rd)
      in (globalPerms, RemovePermissions globalPerms revoked))"

definition CalculateNewPermissions :: "account_mgr \<Rightarrow> rbac_data \<Rightarrow> rbac_data" where
  "CalculateNewPermissions am rd =
     (case calculated_sets am rd of (globalPerms, revoked) \<Rightarrow> rd\<lparr>rd_global := globalPerms\<rparr>)"

definition GrantPermission :: "account_mgr \<Rightarrow> uint32 \<Rightarrow> int32 \<Rightarrow> rbac_data
    \<Rightarrow> RBACCommandResult \<times> rbac_data \<times> login_stmt list" where
  "GrantPermission am permissionId realmId rd =
     (if GetRBACPermission am permissionId = None then (RBAC_ID_DOES_NOT_EXISTS, rd, [])
      else if HasDeniedPermission rd permissionId then (RBAC_IN_DENIED_LIST, rd, [])
      else if HasGrantedPermission rd permissionId then (RBAC_CANT_ADD_ALREADY_ADDED, rd, [])
      else let rd' = rd\<lparr>rd_granted := os_insert permissionId (rd_granted rd)\<rparr> in
        if realmId \<noteq> 0
        then (RBAC_OK, CalculateNewPermissions am rd',
              [INS_RBAC_ACCOUNT_PERMISSION (rd_id rd) permissionId True realmId])
        else (RBAC_OK, rd', []))"

definition DenyPermission :: "account_mgr \<Rightarrow> uint32 \<Rightarrow> int32 \<Rightarrow> rbac_data
    \<Rightarrow> RBACCommandResult \<times> rbac_data \<times> login_stmt list" where
  "DenyPermission am permissionId realmId rd =
     (if GetRBACPermission am permissionId = None then (RBAC_ID_DOES_NOT_EXISTS, rd, [])
      else if HasGrantedPermission rd permissionId then (RBAC_IN_GRANTED_LIST, rd, [])
      else if HasDeniedPermission rd permissionId then (RBAC_CANT_ADD_ALREADY_ADDED, rd, [])
      else let rd' = rd\<lparr>rd_denied := os_insert permissionId (rd_denied rd)\<rparr> in
        if realmId \<noteq> 0
        then (RBAC_OK, CalculateNewPermissions am rd',
              [INS_RBAC_ACCOUNT_PERMISSION (rd_id rd) permissionId False realmId])
        else (RBAC_OK, rd', []))"

definition RevokePermission :: "account_mgr \<Rightarrow> uint32 \<Rightarrow> int32 \<Rightarrow> rbac_data
    \<Rightarrow> RBACCommandResult \<times> rbac_data \<times> login_stmt list" where
  "RevokePermission am permissionId realmId rd =
     (if \<not> HasGrantedPermission rd permissionId \<and> \<not> HasDeniedPermission rd permissionId
      then (RBAC_CANT_REVOKE_NOT_IN_LIST, rd, [])
      else let rd' = rd\<lparr>rd_granted := os_erase permissionId (rd_granted rd),
                        rd_denied := os_erase permissionId (rd_denied rd)\<rparr> in
        if realmId \<noteq> 0
        then (RBAC_OK, CalculateNewPermissions am rd',
              [DEL_RBAC_ACCOUNT_PERMISSION (rd_id rd) permissionId realmId])
        else (RBAC_OK, rd', []))"

definition ClearData :: "rbac_data \<Rightarrow> rbac_data" where
  "ClearData rd = rd\<lparr>rd_granted := [], rd_denied := [], rd_global := []\<rparr>"

fun load_rows :: "account_mgr \<Rightarrow> (uint32 \<times> bool) list \<Rightarrow> rbac_data \<Rightarrow> rbac_data" where
  "load_rows am [] rd = rd"
| "load_rows am ((p, granted) # rows) rd =
     load_rows am rows (if granted then fst (snd (GrantPermission am p 0 rd))
                        else fst (snd (DenyPermission am p 0 rd)))"

fun grant_all :: "account_mgr \<Rightarrow> uint32 list \<Rightarrow> rbac_data \<Rightarrow> rbac_data" where
  "grant_all am [] rd = rd"
| "grant_all am (p # ps) rd = grant_all am ps (fst (snd (GrantPermission am p 0 rd)))"

definition LoadFromDBCallback :: "(uint32 \<times> bool) list \<Rightarrow> account_mgr \<Rightarrow> rbac_data \<Rightarrow> rbac_data \<times> account_mgr" where
  "LoadFromDBCallback rows am rd =
     (let rd1 = load_rows am rows rd in
      case GetRBACDefaultPermissions am (rd_secLevel rd1) of (permissions, am') \<Rightarrow>
        (CalculateNewPermissions am' (grant_all am' permissions rd1), am'))"

text \<open>\<open>query\<close> is the result of the account's permission query for an account and realm.\<close>

definition LoadFromDB :: "(uint32 \<Rightarrow> int32 \<Rightarrow> (uint32 \<times> bool) list) \<Rightarrow> account_mgr \<Rightarrow> rbac_data \<Rightarrow> rbac_data \<times> account_mgr" where
  "LoadFromDB query am rd =
     (let rd0 = ClearData rd in LoadFromDBCallback (query (rd_id rd0) (rd_realmId rd0)) am rd0)"

definition SetSecurityLevel :: "(uint32 \<Rightarrow> int32 \<Rightarrow> (uint32 \<times> bool) list) \<Rightarrow> uint8 \<Rightarrow> account_mgr \<Rightarrow> rbac_data
    \<Rightarrow> rbac_data \<times> account_mgr" where
  "SetSecurityLevel query i am rd = LoadFromDB query am (rd\<lparr>rd_secLevel := i\<rparr>)"

definition AccountHasPermission :: "(uint32 \<Rightarrow> int32 \<Rightarrow> (uint32 \<times> bool) list) \<Rightarrow> (uint32 \<Rightarrow> uint8)
    \<Rightarrow> uint32 \<Rightarrow> uint32 \<Rightarrow> int32 \<Rightarrow> account_mgr \<Rightarrow> bool \<times> account_mgr" where
  "AccountHasPermission query GetSecurity accountId permissionId realmId am =
     (if accountId = 0 then (False, am)
      else case LoadFromDB query am (rd_init accountId [] realmId (GetSecurity accountId)) of
        (rd, am') \<Rightarrow> (HasPermission rd permissionId, am'))"

definition UpdateAccountAccess :: "(uint32 \<Rightarrow> int32 \<Rightarrow> (uint32 \<times> bool) list) \<Rightarrow> rbac_data option
    \<Rightarrow> uint32 \<Rightarrow> uint8 \<Rightarrow> int32 \<Rightarrow> account_mgr \<Rightarrow> rbac_data option \<times> account_mgr \<times> login_stmt list" where
  "UpdateAccountAccess query rbac accountId securityLevel realmId am =
     (let (rbac', am') = (case rbac of
            None \<Rightarrow> (None, am)
          | Some rd \<Rightarrow> if securityLevel = rd_secLevel rd
                        then (case SetSecurityLevel query securityLevel am rd of (rd', am') \<Rightarrow> (Some rd', am'))
                        else (Some rd, am));
          del = (if realmId = -1 then DEL_ACCOUNT_ACCESS accountId
                 else DEL_ACCOUNT_ACCESS_BY_REALM accountId realmId);
          ins = (if securityLevel \<noteq> 0 then [INS_ACCOUNT_ACCESS accountId securityLevel realmId] else [])
      in (rbac', am', del # ins))"

section \<open>Specification of the effective permissions\<close>

definition known :: "account_mgr \<Rightarrow> uint32 \<Rightarrow> bool" where
  "known am p \<longleftrightarrow> GetRBACPermission am p \<noteq> None"

definition linked :: "account_mgr \<Rightarrow> (uint32 \<times> uint32) set" where
  "linked am = {(p, q). \<exists>perm. GetRBACPermission am p = Some perm \<and> q \<in> set (rp_perms perm)}"

text \<open>The permissions a set of permissions stands for: all defined ones it leads to.\<close>

definition inherits :: "account_mgr \<Rightarrow> uint32 set \<Rightarrow> uint32 set" where
  "inherits am S = {q. known am q \<and> (\<exists>p\<in>S. (p, q) \<in> (linked am)\<^sup>*)}"

lemma expand_loop_sound:
  "q \<in> set (expand_loop am tc ps) \<Longrightarrow> q \<in> set ps \<or> q \<in> inherits am (set tc)"
proof (induction am tc ps rule: expand_loop.induct)
  case (2 am p tc ps)
  show ?case
  proof (cases "GetRBACPermission am p")
    case None
    with 2 show ?thesis by (auto simp: inherits_def)
  next
    case (Some perm)
    with 2 have "q \<in> set (os_insert p ps) \<or> q \<in> inherits am (set (add_links (rp_perms perm) (os_insert p ps) tc))"
      by (simp add: Let_def)
    moreover have "p \<in> inherits am {p}" using Some by (auto simp: inherits_def known_def)
    moreover have "(p, r) \<in> linked am" if "r \<in> set (rp_perms perm)" for r
      using Some that by (auto simp: linked_def)
    ultimately show ?thesis
      by (auto simp: inherits_def set_add_links intro: converse_rtrancl_into_rtrancl)
  qed
qed simp

lemma expand_loop_complete:
  "(\<forall>x\<in>set ps. \<forall>y. (x, y) \<in> linked am \<longrightarrow> known am y \<longrightarrow> y \<in> set ps \<union> set tc) \<Longrightarrow>
     (\<forall>x\<in>set (expand_loop am tc ps). \<forall>y. (x, y) \<in> linked am \<longrightarrow> known am y \<longrightarrow> y \<in> set (expand_loop am tc ps)) \<and>
     (\<forall>x\<in>set tc. known am x \<longrightarrow> x \<in> set (expand_loop am tc ps)) \<and> set ps \<subseteq> set (expand_loop am tc ps)"
proof (induction am tc ps rule: expand_loop.induct)
  case (2 am p tc ps)
  show ?case
  proof (cases "GetRBACPermission am p")
    case None
    then have "\<not> known am p" by (simp add: known_def)
    with 2 None show ?thesis by auto
  next
    case (Some perm)
    let ?ps = "os_insert p ps"
    let ?tc = "add_links (rp_perms perm) ?ps tc"
    have "\<forall>x\<in>set ?ps. \<forall>y. (x, y) \<in> linked am \<longrightarrow> known am y \<longrightarrow> y \<in> set ?ps \<union> set ?tc"
      using "2.prems" Some by (auto simp: set_add_links linked_def)
    with "2.IH"(2) [OF Some refl] Some show ?thesis by (auto simp: Let_def set_add_links)
  qed
qed auto

lemma ExpandPermissions_inherits: "set (ExpandPermissions am S) = inherits am (set S)"
proof
  show "set (ExpandPermissions am S) \<subseteq> inherits am (set S)"
    using expand_loop_sound [of _ am S "[]"] by (auto simp: ExpandPermissions_def)
  let ?R = "set (expand_loop am S [])"
  have c: "\<And>x y. x \<in> ?R \<Longrightarrow> (x, y) \<in> linked am \<Longrightarrow> known am y \<Longrightarrow> y \<in> ?R"
    "\<And>x. x \<in> set S \<Longrightarrow> known am x \<Longrightarrow> x \<in> ?R"
    using expand_loop_complete [of "[]" am S] by auto
  have "q \<in> ?R" if "(p, q) \<in> (linked am)\<^sup>*" "p \<in> set S" "known am q" for p q
    using that
  proof (induction rule: rtrancl_induct)
    case (step y z)
    then have "known am y" by (auto simp: linked_def known_def)
    with step c(1) show ?case by blast
  qed (use c(2) in blast)
  then show "inherits am (set S) \<subseteq> set (ExpandPermissions am S)"
    by (auto simp: inherits_def ExpandPermissions_def)
qed

lemma set_RemovePermissions: "set (RemovePermissions xs ys) = set ys - set xs"
  unfolding RemovePermissions_def by (induction xs arbitrary: ys) auto

lemma CalculateNewPermissions_global:
  "set (rd_global (CalculateNewPermissions am rd)) = inherits am (set (rd_granted rd))"
  by (simp add: CalculateNewPermissions_def calculated_sets_def Let_def ExpandPermissions_inherits)

text \<open>What the call does take away: the local set keeps the denied ones that nothing granted leads to.\<close>

lemma calculated_revoked:
  "set (snd (calculated_sets am rd)) = inherits am (set (rd_denied rd)) - inherits am (set (rd_granted rd))"
  by (simp add: calculated_sets_def Let_def set_RemovePermissions ExpandPermissions_inherits)

lemma CalculateNewPermissions_frame [simp]:
  "rd_granted (CalculateNewPermissions am rd) = rd_granted rd"
  "rd_denied (CalculateNewPermissions am rd) = rd_denied rd"
  "rd_id (CalculateNewPermissions am rd) = rd_id rd"
  "rd_secLevel (CalculateNewPermissions am rd) = rd_secLevel rd"
  by (simp_all add: CalculateNewPermissions_def calculated_sets_def Let_def)

section \<open>Invariant\<close>

text \<open>No permission is both granted and denied, and only defined ones are listed.\<close>

definition rd_ok :: "account_mgr \<Rightarrow> rbac_data \<Rightarrow> bool" where
  "rd_ok am rd \<longleftrightarrow> set (rd_granted rd) \<inter> set (rd_denied rd) = {} \<and>
     (\<forall>p\<in>set (rd_granted rd) \<union> set (rd_denied rd). known am p)"

text \<open>The effective permissions are those computed from the lists.\<close>

definition rd_current :: "account_mgr \<Rightarrow> rbac_data \<Rightarrow> bool" where
  "rd_current am rd \<longleftrightarrow>
     (\<forall>p. HasPermission rd p = (p \<in> inherits am (set (rd_granted rd))))"

lemma rd_current_calculate [simp]: "rd_current am (CalculateNewPermissions am rd)"
  by (auto simp: rd_current_def HasPermission_def CalculateNewPermissions_global)

lemma rd_ok_calculate [simp]: "rd_ok am (CalculateNewPermissions am rd) = rd_ok am rd"
  by (simp add: rd_ok_def)

lemma rd_ok_Grant [inv_intros]: "rd_ok am rd \<Longrightarrow> rd_ok am (fst (snd (GrantPermission am p r rd)))"
  by (auto simp: GrantPermission_def rd_ok_def Let_def HasDeniedPermission_def known_def)

lemma rd_ok_Deny [inv_intros]: "rd_ok am rd \<Longrightarrow> rd_ok am (fst (snd (DenyPermission am p r rd)))"
  by (auto simp: DenyPermission_def rd_ok_def Let_def HasGrantedPermission_def known_def)

lemma rd_ok_Revoke [inv_intros]: "rd_ok am rd \<Longrightarrow> rd_ok am (fst (snd (RevokePermission am p r rd)))"
  by (auto simp: RevokePermission_def rd_ok_def Let_def)

lemma rd_ok_load_rows: "rd_ok am rd \<Longrightarrow> rd_ok am (load_rows am rows rd)"
  by (induction am rows rd rule: load_rows.induct) (auto simp: rd_ok_Grant rd_ok_Deny)

lemma rd_ok_grant_all: "rd_ok am rd \<Longrightarrow> rd_ok am (grant_all am ps rd)"
  by (induction am ps rd rule: grant_all.induct) (auto simp: rd_ok_Grant)

lemma GetDefault_frame:
  "GetRBACDefaultPermissions am s = (ps, am') \<Longrightarrow>
     GetRBACPermission am' = GetRBACPermission am \<and> ps = om_at [] (am_defaults am) s"
  by (auto simp: GetRBACDefaultPermissions_def GetRBACPermission_def om_at_def split: option.splits)

lemma known_cong: "GetRBACPermission am' = GetRBACPermission am \<Longrightarrow> known am' = known am"
  by (simp add: known_def fun_eq_iff)

lemma rd_ok_cong: "GetRBACPermission am' = GetRBACPermission am \<Longrightarrow> rd_ok am' = rd_ok am"
proof -
  assume "GetRBACPermission am' = GetRBACPermission am"
  then have "known am' = known am" by (rule known_cong)
  then show "rd_ok am' = rd_ok am" by (simp add: rd_ok_def fun_eq_iff)
qed

lemma grant_all_lists:
  "rd_denied (grant_all am ps rd) = rd_denied rd \<and>
   set (rd_granted (grant_all am ps rd)) =
     set (rd_granted rd) \<union> {p \<in> set ps. known am p \<and> p \<notin> set (rd_denied rd)}"
proof (induction am ps rd rule: grant_all.induct)
  case (2 am p ps rd)
  then show ?case
    by (auto simp: GrantPermission_def Let_def known_def HasDeniedPermission_def HasGrantedPermission_def)
qed simp

lemma LoadFromDB_ok:
  assumes "LoadFromDB query am rd = (rd', am')"
  shows "rd_ok am' rd' \<and> rd_current am' rd' \<and> GetRBACPermission am' = GetRBACPermission am"
proof -
  let ?rd1 = "load_rows am (query (rd_id rd) (rd_realmId rd)) (ClearData rd)"
  obtain ps where g: "GetRBACDefaultPermissions am (rd_secLevel ?rd1) = (ps, am')"
    and rd': "rd' = CalculateNewPermissions am' (grant_all am' ps ?rd1)"
    using assms by (auto simp: LoadFromDB_def LoadFromDBCallback_def Let_def ClearData_def split: prod.splits)
  have fr: "GetRBACPermission am' = GetRBACPermission am" using GetDefault_frame [OF g] by simp
  have "rd_ok am (ClearData rd)" by (simp add: rd_ok_def ClearData_def)
  then have "rd_ok am' ?rd1" using rd_ok_load_rows rd_ok_cong [OF fr] by metis
  then show ?thesis using fr by (simp add: rd' rd_ok_grant_all)
qed

section \<open>Properties\<close>

text \<open>C31: \<^verbatim>\<open>ExpandPermissions\<close> terminates for every link table, cyclic ones included, and
  computes the closure: exactly the defined permissions reachable from the given
  ones through links.  After a recalculation an account has a permission exactly
  when some granted permission leads to it: as the code is written the denied
  permissions make no difference (\<^verbatim>\<open>RemovePermissions\<close> is called with its
  arguments swapped).\<close>

theorem effective_permissions:
  "set (ExpandPermissions am ps) = {q. known am q \<and> (\<exists>p\<in>set ps. (p, q) \<in> (linked am)\<^sup>*)} \<and>
   HasPermission (CalculateNewPermissions am rd) p =
     (known am p \<and> (\<exists>g\<in>set (rd_granted rd). (g, p) \<in> (linked am)\<^sup>*))"
  by (auto simp: HasPermission_def CalculateNewPermissions_global ExpandPermissions_inherits inherits_def)

text \<open>
  The life of an account's data in a session: it is loaded, possibly reloaded at
  another security level, and changed by commands for a realm.
\<close>

inductive rd_reachable :: "account_mgr \<Rightarrow> rbac_data \<Rightarrow> bool" where
  rd_load: "LoadFromDB query am rd = (rd', am') \<Longrightarrow> rd_reachable am' rd'"
| rd_level: "rd_reachable am rd \<Longrightarrow> SetSecurityLevel query lvl am rd = (rd', am') \<Longrightarrow> rd_reachable am' rd'"
| rd_grant: "rd_reachable am rd \<Longrightarrow> realmId \<noteq> 0 \<Longrightarrow>
    rd_reachable am (fst (snd (GrantPermission am p realmId rd)))"
| rd_deny: "rd_reachable am rd \<Longrightarrow> realmId \<noteq> 0 \<Longrightarrow>
    rd_reachable am (fst (snd (DenyPermission am p realmId rd)))"
| rd_revoke: "rd_reachable am rd \<Longrightarrow> realmId \<noteq> 0 \<Longrightarrow>
    rd_reachable am (fst (snd (RevokePermission am p realmId rd)))"

lemma rd_current_commands:
  assumes "rd_current am rd" and "realmId \<noteq> 0"
  shows "rd_current am (fst (snd (GrantPermission am p realmId rd)))"
    and "rd_current am (fst (snd (DenyPermission am p realmId rd)))"
    and "rd_current am (fst (snd (RevokePermission am p realmId rd)))"
  using assms by (simp_all add: GrantPermission_def DenyPermission_def RevokePermission_def Let_def)

lemma rd_reachable_ok: "rd_reachable am rd \<Longrightarrow> rd_ok am rd \<and> rd_current am rd"
proof (induction rule: rd_reachable.induct)
  case (rd_load query am rd rd' am')
  then show ?case using LoadFromDB_ok by blast
next
  case (rd_level am rd query lvl rd' am')
  then show ?case using LoadFromDB_ok unfolding SetSecurityLevel_def by blast
qed (simp_all add: rd_ok_Grant rd_ok_Deny rd_ok_Revoke rd_current_commands)

text \<open>C33: In every state an account's data can reach by loading, reloading and the commands
  for a realm, no permission is both granted and denied, and a permission is effective
  exactly when it is defined and a granted one leads to it.  So denying a permission takes
  nothing away: whatever the command answers, every permission that was effective
  still is, also the denied one when a granted one links to it.\<close>

theorem denying_takes_nothing:
  assumes "rd_reachable am rd"
  shows "\<not> (HasGrantedPermission rd p \<and> HasDeniedPermission rd p) \<and>
    HasPermission rd p = (known am p \<and> (\<exists>g. HasGrantedPermission rd g \<and> (g, p) \<in> (linked am)\<^sup>*)) \<and>
    HasPermission (fst (snd (DenyPermission am d realmId rd))) p = HasPermission rd p"
proof (intro conjI)
  have ok: "rd_ok am rd" "rd_current am rd" using rd_reachable_ok [OF assms] by simp_all
  show "\<not> (HasGrantedPermission rd p \<and> HasDeniedPermission rd p)"
    using ok(1) by (auto simp: rd_ok_def HasGrantedPermission_def HasDeniedPermission_def)
  show "HasPermission rd p = (known am p \<and> (\<exists>g. HasGrantedPermission rd g \<and> (g, p) \<in> (linked am)\<^sup>*))"
    using ok(2) by (auto simp: rd_current_def inherits_def HasGrantedPermission_def)
  show "HasPermission (fst (snd (DenyPermission am d realmId rd))) p = HasPermission rd p"
    using ok(2) by (auto simp: DenyPermission_def Let_def rd_current_def HasPermission_def
        CalculateNewPermissions_global)
qed

text \<open>The account grants 1, which links to 2, and denies 2: permission 2 is effective.\<close>

definition linked_am :: account_mgr where
  "linked_am = \<lparr>am_permissions = [(1, Some \<lparr>rp_id = 1, rp_name = ''a'', rp_perms = [2]\<rparr>),
      (2, Some \<lparr>rp_id = 2, rp_name = ''b'', rp_perms = []\<rparr>)], am_defaults = [(0, [1])]\<rparr>"

lemma denying_takes_nothing_witness:
  "\<exists>rd. rd_reachable linked_am rd \<and> HasDeniedPermission rd 2 \<and> HasPermission rd 2 \<and>
     HasPermission (fst (snd (DenyPermission linked_am 2 1 rd))) 2"
proof -
  let ?r = "LoadFromDB (\<lambda>_ _. [(2, False)]) linked_am (rd_init 5 [] 1 0)"
  have am: "snd ?r = linked_am" by code_simp
  have r: "rd_reachable linked_am (fst ?r)" 
    using rd_reachable.rd_load [OF surjective_pairing [of ?r]] unfolding am .
  have d: "HasDeniedPermission (fst ?r) 2" and g: "HasGrantedPermission (fst ?r) 1" and k: "known linked_am 2"
    by code_simp+
  have "(1, 2) \<in> linked linked_am" by (auto simp: linked_def GetRBACPermission_def linked_am_def)
  then show ?thesis using denying_takes_nothing [OF r, of 2 2 1] r d g k by (intro exI [of _ "fst ?r"]) blast
qed

text \<open>Loading an account grants every defined default permission of its security level
  that the database does not deny to it, on top of what the database grants.\<close>

theorem load_grants_defaults:
  assumes "LoadFromDB query am rd = (rd', am')" and "p \<in> set (om_at [] (am_defaults am) (rd_secLevel rd))"
  shows "HasGrantedPermission rd' p = (known am p \<and> \<not> HasDeniedPermission rd' p)"
proof -
  let ?rd1 = "load_rows am (query (rd_id rd) (rd_realmId rd)) (ClearData rd)"
  obtain ps where g: "GetRBACDefaultPermissions am (rd_secLevel ?rd1) = (ps, am')"
    and rd': "rd' = CalculateNewPermissions am' (grant_all am' ps ?rd1)"
    using assms(1) by (auto simp: LoadFromDB_def LoadFromDBCallback_def Let_def ClearData_def split: prod.splits)
  have lvl: "rd_secLevel (load_rows a rows r) = rd_secLevel r" for a rows r
    by (induction a rows r rule: load_rows.induct) (auto simp: GrantPermission_def DenyPermission_def Let_def)
  have p: "p \<in> set ps" using assms(2) GetDefault_frame [OF g] by (simp add: lvl ClearData_def)
  have k: "known am' p = known am p" using GetDefault_frame [OF g] known_cong by metis
  have "rd_ok am' rd'" using LoadFromDB_ok [OF assms(1)] by simp
  then have ok: "p \<in> set (rd_granted rd') \<Longrightarrow> known am' p \<and> p \<notin> set (rd_denied rd')"
    unfolding rd_ok_def by blast
  have "rd_denied rd' = rd_denied ?rd1"
    "set (rd_granted rd') = set (rd_granted ?rd1) \<union> {p \<in> set ps. known am' p \<and> p \<notin> set (rd_denied ?rd1)}"
    unfolding rd' CalculateNewPermissions_frame using grant_all_lists [of am' ps ?rd1] by simp_all
  then have "known am' p \<Longrightarrow> p \<notin> set (rd_denied rd') \<Longrightarrow> p \<in> set (rd_granted rd')" using p by simp
  with ok show ?thesis unfolding HasGrantedPermission_def HasDeniedPermission_def k by blast
qed

lemma load_grants_defaults_witness:
  "\<exists>rd' am'. LoadFromDB (\<lambda>_ _. []) \<lparr>am_permissions = [(2, Some \<lparr>rp_id = 2, rp_name = ''b'', rp_perms = []\<rparr>)],
      am_defaults = [(3, [2])]\<rparr> (rd_init 5 [] 1 3) = (rd', am') \<and>
     HasGrantedPermission rd' 2 = (\<not> HasDeniedPermission rd' 2)"
proof -
  let ?am = "\<lparr>am_permissions = [(2, Some \<lparr>rp_id = 2, rp_name = ''b'', rp_perms = []\<rparr>)],
      am_defaults = [(3, [2])]\<rparr>"
  obtain rd' am' where l: "LoadFromDB (\<lambda>_ _. []) ?am (rd_init 5 [] 1 3) = (rd', am')" by fastforce
  have "2 \<in> set (om_at [] (am_defaults ?am) (rd_secLevel (rd_init 5 [] 1 3)))"
    by (simp add: om_at_def rd_init_def)
  moreover have "known ?am 2" by (simp add: known_def GetRBACPermission_def)
  ultimately show ?thesis using load_grants_defaults [OF l, of 2] l by auto
qed

text \<open>\<^verbatim>\<open>UpdateAccountAccess\<close> writes the new level to the database but never gives the
  session of a logged-in account another security level: a session whose level
  differs from the new one keeps its level and its effective permissions (the
  comparison in the guard reloads only when nothing changes).\<close>

theorem UpdateAccountAccess_keeps_session:
  "\<exists>rbac' am' stmts. UpdateAccountAccess query (Some rd) accountId lvl realmId am = (Some rbac', am', stmts) \<and>
     rd_secLevel rbac' = rd_secLevel rd \<and>
     (lvl \<noteq> rd_secLevel rd \<longrightarrow> rbac' = rd \<and> am' = am) \<and>
     (lvl \<noteq> 0 \<longrightarrow> INS_ACCOUNT_ACCESS accountId lvl realmId \<in> set stmts)"
proof -
  have lvl: "rd_secLevel (load_rows a rows r) = rd_secLevel r" for a rows r
    by (induction a rows r rule: load_rows.induct) (auto simp: GrantPermission_def DenyPermission_def Let_def)
  have dfl: "rd_secLevel (grant_all a ps r) = rd_secLevel r" for a ps r
    by (induction a ps r rule: grant_all.induct) (auto simp: GrantPermission_def Let_def)
  show ?thesis
    by (auto simp: UpdateAccountAccess_def Let_def SetSecurityLevel_def LoadFromDB_def LoadFromDBCallback_def
        ClearData_def lvl dfl split: prod.splits)
qed

lemma UpdateAccountAccess_keeps_session_witness:
  "\<exists>am' stmts. UpdateAccountAccess (\<lambda>_ _. []) (Some (rd_init 5 [] 1 0)) 5 3 1 am_init =
     (Some (rd_init 5 [] 1 0), am', stmts) \<and> INS_ACCOUNT_ACCESS 5 3 1 \<in> set stmts"
  using UpdateAccountAccess_keeps_session [of "\<lambda>_ _. []" "rd_init 5 [] 1 0" 5 3 1 am_init]
  by (auto simp: rd_init_def)

end
