(* ===== verification/BotContext.thy ===== *)
theory BotContext
  imports Prelude "HOL-Library.Char_ord" "HOL-Library.List_Lexorder"
begin

text \<open>
  The named objects of the bot plugin (\<^verbatim>\<open>src/src/plugins/playerbot\<close>): string helpers
  (\<^verbatim>\<open>Helpers.cpp\<close>), the factories and contexts that create strategies, actions, triggers
  and values by name (\<^verbatim>\<open>strategy/NamedObjectContext.h\<close>), the values that are recalculated
  every few ticks (\<^verbatim>\<open>strategy/Value.h\<close>), the tick counter of triggers
  (\<^verbatim>\<open>strategy/Trigger.h\<close>) and the dispatch of chat commands to triggers
  (\<^verbatim>\<open>strategy/ExternalEventHelper.h\<close>).  A creator is a function from the qualifier to the
  object it makes; what the made objects do is a parameter of the engine's model.
\<close>

section \<open>Strings\<close>

text \<open>\<^verbatim>\<open>string::find(pat)\<close>: position of the first occurrence.\<close>

fun str_find :: "string \<Rightarrow> string \<Rightarrow> nat option" where
  "str_find pat [] = (if pat = [] then Some 0 else None)"
| "str_find pat (c # s) = (if prefix pat (c # s) then Some 0 else map_option Suc (str_find pat s))"

lemma str_find_Some:
  "str_find pat s = Some i \<Longrightarrow> \<exists>pre suf. s = pre @ pat @ suf \<and> length pre = i"
proof (induction s arbitrary: i)
  case (Cons c s)
  show ?case
  proof (cases "prefix pat (c # s)")
    case True
    with Cons(2) show ?thesis by (auto simp: prefix_def)
  next
    case False
    with Cons(2) obtain j where "str_find pat s = Some j" "i = Suc j" by auto
    with Cons(1) obtain pre suf where "s = pre @ pat @ suf" "length pre = j" by blast
    then have "c # s = (c # pre) @ pat @ suf \<and> length (c # pre) = i" using \<open>i = Suc j\<close> by simp
    then show ?thesis by blast
  qed
qed (auto split: if_splits)

lemma str_find_None: "str_find pat s = None \<longleftrightarrow> \<not> sublist pat s"
  by (induction s) (auto simp: sublist_Cons_right)

text \<open>\<^verbatim>\<open>split\<close>: \<^verbatim>\<open>getline\<close> with a delimiter until the stream is at its end; a delimiter at the
  very end does not start another item.\<close>

fun split_loop :: "char \<Rightarrow> string \<Rightarrow> string \<Rightarrow> string list" where
  "split_loop d [] item = (if item = [] then [] else [item])"
| "split_loop d (c # s) item =
     (if c = d then item # split_loop d s [] else split_loop d s (item @ [c]))"

definition split_str :: "string \<Rightarrow> char \<Rightarrow> string list" where
  "split_str s d = split_loop d s []"

lemma split_loop_item: "d \<notin> set s \<Longrightarrow> split_loop d s item = (if item @ s = [] then [] else [item @ s])"
  by (induction s arbitrary: item) auto

lemma split_loop_delim:
  "d \<notin> set a \<Longrightarrow> split_loop d (a @ d # s) item = (item @ a) # split_loop d s []"
  by (induction a arbitrary: item) auto

lemma split_str_join:
  assumes "\<forall>x\<in>set xs. d \<notin> set x" and "xs \<noteq> [] \<Longrightarrow> last xs \<noteq> []"
  shows "split_str (concat (map (\<lambda>x. x @ [d]) (butlast xs)) @ (if xs = [] then [] else last xs)) d = xs"
  using assms
proof (induction xs)
  case (Cons x xs)
  show ?case
  proof (cases "xs = []")
    case True
    with Cons show ?thesis by (simp add: split_str_def split_loop_item)
  next
    case False
    with Cons show ?thesis by (simp add: split_str_def split_loop_delim)
  qed
qed (simp add: split_str_def)

lemma split_str_no_delim: "\<forall>x\<in>set (split_str s d). d \<notin> set x"
proof -
  have "d \<notin> set item \<Longrightarrow> \<forall>x\<in>set (split_loop d s item). d \<notin> set x" for item
    by (induction d s item rule: split_loop.induct) auto
  from this [of "[]"] show ?thesis by (simp add: split_str_def)
qed

section \<open>Factories\<close>

text \<open>The map \<^verbatim>\<open>creators\<close>; a null function pointer is \<open>None\<close>.\<close>

type_synonym 'o factory = "(string, (string \<Rightarrow> 'o option) option) stdmap"

text \<open>The name before \<open>::\<close> and the qualifier behind it.\<close>

definition split_name :: "string \<Rightarrow> string \<times> string" where
  "split_name name =
     (case str_find ''::'' name of
        None \<Rightarrow> (name, [])
      | Some found \<Rightarrow> (take found name, drop (found + 2) name))"

definition factory_create :: "'o factory \<Rightarrow> string \<Rightarrow> 'o option" where
  "factory_create creators name =
     (let (base, qualifier) = split_name name in
      case om_find creators base of
        None \<Rightarrow> None
      | Some None \<Rightarrow> None
      | Some (Some creator) \<Rightarrow> creator qualifier)"

definition factory_supports :: "'o factory \<Rightarrow> string list" where
  "factory_supports creators = map fst creators"

text \<open>\<^verbatim>\<open>NamedObjectFactoryList\<close>: \<^verbatim>\<open>Add\<close> pushes to the front, \<^verbatim>\<open>GetObject\<close> takes the first object.\<close>

definition factories_Add :: "'o factory \<Rightarrow> 'o factory list \<Rightarrow> 'o factory list" where
  "factories_Add f fs = f # fs"

fun factories_GetObject :: "'o factory list \<Rightarrow> string \<Rightarrow> 'o option" where
  "factories_GetObject [] name = None"
| "factories_GetObject (f # fs) name =
     (case factory_create f name of Some x \<Rightarrow> Some x | None \<Rightarrow> factories_GetObject fs name)"

section \<open>Contexts\<close>

record 'o named_context =
  nc_creators :: "'o factory"
  nc_created :: "(string, 'o option) stdmap"
  nc_shared :: bool
  nc_siblings :: bool

definition context_create :: "string \<Rightarrow> 'o named_context \<Rightarrow> 'o option \<times> 'o named_context" where
  "context_create name c =
     (case om_find (nc_created c) name of
        None \<Rightarrow> (let x = factory_create (nc_creators c) name
                 in (x, c\<lparr>nc_created := om_put name x (nc_created c)\<rparr>))
      | Some x \<Rightarrow> (x, c))"

definition context_Clear :: "'o named_context \<Rightarrow> 'o named_context" where
  "context_Clear c = c\<lparr>nc_created := []\<rparr>"

text \<open>\<^verbatim>\<open>Update\<close> and \<^verbatim>\<open>Reset\<close> call the method \<open>f\<close> of every created object.\<close>

definition context_apply :: "('o \<Rightarrow> 'o) \<Rightarrow> 'o named_context \<Rightarrow> 'o named_context" where
  "context_apply f c = c\<lparr>nc_created := map (\<lambda>(k, x). (k, map_option f x)) (nc_created c)\<rparr>"

definition context_GetCreated :: "'o named_context \<Rightarrow> string list" where
  "context_GetCreated c = map fst (nc_created c)"

definition contexts_Add :: "'o named_context \<Rightarrow> 'o named_context list \<Rightarrow> 'o named_context list" where
  "contexts_Add c cs = cs @ [c]"

fun contexts_GetObject :: "string \<Rightarrow> 'o named_context list \<Rightarrow> 'o option \<times> 'o named_context list" where
  "contexts_GetObject name [] = (None, [])"
| "contexts_GetObject name (c # cs) =
     (case context_create name c of
        (Some x, c') \<Rightarrow> (Some x, c' # cs)
      | (None, c') \<Rightarrow> (let (r, cs') = contexts_GetObject name cs in (r, c' # cs')))"

definition contexts_Update :: "('o \<Rightarrow> 'o) \<Rightarrow> 'o named_context list \<Rightarrow> 'o named_context list" where
  "contexts_Update f cs = map (\<lambda>c. if nc_shared c then c else context_apply f c) cs"

definition contexts_Reset :: "('o \<Rightarrow> 'o) \<Rightarrow> 'o named_context list \<Rightarrow> 'o named_context list" where
  "contexts_Reset f cs = map (context_apply f) cs"

text \<open>The other names of the first sibling context that knows \<open>name\<close>.\<close>

fun contexts_GetSiblings :: "'o named_context list \<Rightarrow> string \<Rightarrow> string list" where
  "contexts_GetSiblings [] name = []"
| "contexts_GetSiblings (c # cs) name =
     (if \<not> nc_siblings c then contexts_GetSiblings cs name
      else if name \<notin> set (factory_supports (nc_creators c)) then contexts_GetSiblings cs name
      else os_erase name (factory_supports (nc_creators c)))"

definition contexts_supports :: "'o named_context list \<Rightarrow> string list" where
  "contexts_supports cs = fold (\<lambda>c r. fold os_insert (factory_supports (nc_creators c)) r) cs []"

definition contexts_GetCreated :: "'o named_context list \<Rightarrow> string list" where
  "contexts_GetCreated cs = fold (\<lambda>c r. fold os_insert (context_GetCreated c) r) cs []"

section \<open>Laws of the contexts\<close>

lemma context_create_other:
  "m \<noteq> n \<Longrightarrow> fst (context_create m (snd (context_create n c))) = fst (context_create m c)"
  by (auto simp: context_create_def Let_def split: option.splits)

lemma context_create_again:
  "context_create n (snd (context_create n c)) = (fst (context_create n c), snd (context_create n c))"
  by (auto simp: context_create_def Let_def split: option.splits)

lemma context_create_siblings [simp]:
  "nc_siblings (snd (context_create n c)) = nc_siblings c"
  "nc_creators (snd (context_create n c)) = nc_creators c"
  "nc_shared (snd (context_create n c)) = nc_shared c"
  by (auto simp: context_create_def Let_def split: option.splits)

lemma contexts_GetObject_again:
  "contexts_GetObject n cs = (x, cs') \<Longrightarrow> contexts_GetObject n cs' = (x, cs')"
proof (induction cs arbitrary: x cs')
  case (Cons c cs)
  obtain y c' where c: "context_create n c = (y, c')" by fastforce
  have again: "context_create n c' = (y, c')" using context_create_again [of n c] c by simp
  show ?case
  proof (cases y)
    case None
    obtain r cs'' where r: "contexts_GetObject n cs = (r, cs'')" by fastforce
    then have "x = r" "cs' = c' # cs''" using Cons.prems c None by simp_all
    with Cons.IH [OF r] again None show ?thesis by simp
  next
    case (Some z)
    then have "x = Some z" "cs' = c' # cs" using Cons.prems c by simp_all
    then show ?thesis using again Some by simp
  qed
qed simp

lemma contexts_GetObject_other:
  "m \<noteq> n \<Longrightarrow> fst (contexts_GetObject m (snd (contexts_GetObject n cs))) = fst (contexts_GetObject m cs)"
proof (induction cs)
  case (Cons c cs)
  obtain y c' where c: "context_create n c = (y, c')" by fastforce
  have m: "fst (context_create m c') = fst (context_create m c)"
    using context_create_other [OF Cons(2), of c] c by simp
  obtain u d where mc: "context_create m c = (u, d)" by fastforce
  with m obtain d' where mc': "context_create m c' = (u, d')" by (metis fst_conv surj_pair)
  obtain r cs' where n: "contexts_GetObject n cs = (r, cs')" by fastforce
  have snd_n: "snd (contexts_GetObject n (c # cs)) = c' # (case y of None \<Rightarrow> cs' | Some _ \<Rightarrow> cs)"
    using c n by (cases y) simp_all
  have fst_m: "fst (contexts_GetObject m (d0 # cs0)) =
      (case fst (context_create m d0) of None \<Rightarrow> fst (contexts_GetObject m cs0) | Some z \<Rightarrow> Some z)" for d0 cs0
    by (cases "context_create m d0"; cases "fst (context_create m d0)") (simp_all add: split_def Let_def)
  have "fst (contexts_GetObject m cs') = fst (contexts_GetObject m cs)"
    using Cons.IH [OF Cons(2)] n by simp
  then show ?case unfolding snd_n fst_m m by (cases y; cases u) (simp_all split: option.split)
qed simp

lemma contexts_GetSiblings_create:
  "contexts_GetSiblings (snd (contexts_GetObject n cs)) m = contexts_GetSiblings cs m"
proof (induction cs)
  case (Cons c cs)
  obtain y c' where c: "context_create n c = (y, c')" by fastforce
  have "nc_siblings c' = nc_siblings c" "nc_creators c' = nc_creators c"
    using context_create_siblings [of n c] c by simp_all
  with Cons c show ?case by (cases y) (auto split: prod.splits)
qed simp

text \<open>Siblings are mutual when no name belongs to two sibling contexts.\<close>

definition sibling_disjoint :: "'o named_context list \<Rightarrow> bool" where
  "sibling_disjoint cs \<longleftrightarrow>
     distinct (concat (map (\<lambda>c. factory_supports (nc_creators c)) (filter nc_siblings cs)))"

lemma siblings_supported:
  "m \<in> set (contexts_GetSiblings cs n) \<Longrightarrow>
     m \<noteq> n \<and> m \<in> set (concat (map (\<lambda>c. factory_supports (nc_creators c)) (filter nc_siblings cs))) \<and>
     n \<in> set (concat (map (\<lambda>c. factory_supports (nc_creators c)) (filter nc_siblings cs)))"
  by (induction cs n rule: contexts_GetSiblings.induct) (auto split: if_splits)

lemma siblings_sym:
  "sibling_disjoint cs \<Longrightarrow> m \<in> set (contexts_GetSiblings cs n) \<Longrightarrow> n \<in> set (contexts_GetSiblings cs m)"
proof (induction cs n rule: contexts_GetSiblings.induct)
  case (2 c cs n)
  have d: "sibling_disjoint cs" using 2(3) by (auto simp: sibling_disjoint_def split: if_splits)
  show ?case
  proof (cases "nc_siblings c \<and> n \<in> set (factory_supports (nc_creators c))")
    case True
    then show ?thesis using 2(4) by auto
  next
    case False
    then have m: "m \<in> set (contexts_GetSiblings cs n)" using 2(4) by (auto split: if_splits)
    have n: "n \<in> set (contexts_GetSiblings cs m)" using False 2(1,2) d m by auto
    have "nc_siblings c \<Longrightarrow> m \<notin> set (factory_supports (nc_creators c))"
      using siblings_supported [OF m] 2(3) by (auto simp: sibling_disjoint_def)
    with n show ?thesis by auto
  qed
qed simp

section \<open>Values recalculated every few ticks\<close>

record 'v calculated_value =
  cv_interval :: int
  cv_elapsed :: int
  cv_value :: 'v

definition cv_init :: "int \<Rightarrow> 'v \<Rightarrow> 'v calculated_value" where
  "cv_init i v = \<lparr>cv_interval = i, cv_elapsed = i, cv_value = v\<rparr>"

text \<open>\<open>calc\<close> is what \<^verbatim>\<open>Calculate\<close> would return now.\<close>

definition cv_Get :: "'v \<Rightarrow> 'v calculated_value \<Rightarrow> 'v \<times> 'v calculated_value" where
  "cv_Get calc v =
     (let v' = (if cv_elapsed v \<ge> cv_interval v then v\<lparr>cv_elapsed := 0, cv_value := calc\<rparr> else v)
      in (cv_value v', v'))"

definition cv_Set :: "'v \<Rightarrow> 'v calculated_value \<Rightarrow> 'v calculated_value" where
  "cv_Set x v = v\<lparr>cv_value := x\<rparr>"

definition cv_Update :: "'v calculated_value \<Rightarrow> 'v calculated_value" where
  "cv_Update v = (if cv_elapsed v < cv_interval v then v\<lparr>cv_elapsed := cv_elapsed v + 1\<rparr> else v)"

text \<open>A tick updates the value and may read it; \<open>calc t\<close> is the true value in tick \<open>t\<close>.\<close>

fun cv_run :: "(nat \<Rightarrow> 'v) \<Rightarrow> nat \<Rightarrow> bool list \<Rightarrow> 'v calculated_value \<Rightarrow> (nat \<times> 'v) list" where
  "cv_run calc t [] v = []"
| "cv_run calc t (rd # rds) v =
     (let v1 = cv_Update v in
      if rd then let (x, v2) = cv_Get (calc t) v1 in (t, x) # cv_run calc (Suc t) rds v2
      else cv_run calc (Suc t) rds v1)"

lemma cv_run_fresh:
  assumes "(s, x) \<in> set (cv_run calc t rds v)"
    and "cv_interval v = int i" and "0 < i"
    and "cv_elapsed v = int i \<or> (\<exists>u. u < t \<and> cv_value v = calc u \<and> cv_elapsed v = int (t - Suc u) \<and> t - Suc u < i)"
  shows "\<exists>u. u \<le> s \<and> s - u < i \<and> x = calc u"
  using assms
proof (induction rds arbitrary: t v)
  case (Cons rd rds)
  define v1 where "v1 = cv_Update v"
  have i1: "cv_interval v1 = int i" using Cons.prems(2) by (simp add: v1_def cv_Update_def)
  have e1: "cv_elapsed v1 = int i \<or> (\<exists>u. u < t \<and> cv_value v1 = calc u \<and> cv_elapsed v1 = int (t - u) \<and> t - u < i)"
  proof (cases "cv_elapsed v = int i")
    case True
    then show ?thesis using Cons.prems(2) by (simp add: v1_def cv_Update_def)
  next
    case False
    then obtain u where u: "u < t" "cv_value v = calc u" "cv_elapsed v = int (t - Suc u)" "t - Suc u < i"
      using Cons.prems(4) by auto
    then have "cv_elapsed v1 = int (t - u)" "cv_value v1 = calc u"
      using Cons.prems(2) by (auto simp: v1_def cv_Update_def)
    then show ?thesis using u by (cases "t - u < i") auto
  qed
  show ?case
  proof (cases rd)
    case False
    have step: "cv_elapsed v1 = int i \<or>
        (\<exists>u. u < Suc t \<and> cv_value v1 = calc u \<and> cv_elapsed v1 = int (Suc t - Suc u) \<and> Suc t - Suc u < i)"
      using e1 by (auto intro: less_SucI)
    show ?thesis
      using Cons.IH [of "Suc t" v1] Cons.prems(1,3) False i1 step by (simp add: v1_def Let_def)
  next
    case True
    obtain y v2 where g: "cv_Get (calc t) v1 = (y, v2)" by fastforce
    have i2: "cv_interval v2 = int i" using g i1 by (auto simp: cv_Get_def Let_def split: if_splits)
    have v2: "\<exists>u. u \<le> t \<and> t - u < i \<and> y = calc u \<and> cv_value v2 = calc u \<and> cv_elapsed v2 = int (t - u)"
    proof (cases "cv_elapsed v1 \<ge> int i")
      case True
      then have "y = calc t" "cv_value v2 = calc t" "cv_elapsed v2 = 0"
        using g i1 by (auto simp: cv_Get_def Let_def)
      then show ?thesis using Cons.prems(3) by (intro exI [of _ t]) simp
    next
      case False
      then have "y = cv_value v1" "v2 = v1" using g i1 by (auto simp: cv_Get_def Let_def)
      then show ?thesis using e1 False by (auto intro: less_imp_le)
    qed
    have mem: "(s, x) = (t, y) \<or> (s, x) \<in> set (cv_run calc (Suc t) rds v2)"
      using Cons.prems(1) True g by (simp add: v1_def Let_def)
    have step: "cv_elapsed v2 = int i \<or>
        (\<exists>u. u < Suc t \<and> cv_value v2 = calc u \<and> cv_elapsed v2 = int (Suc t - Suc u) \<and> Suc t - Suc u < i)"
      using v2 by (auto simp: less_Suc_eq_le)
    show ?thesis using mem v2 Cons.IH [OF _ i2 Cons.prems(3) step] by blast
  qed
qed simp

section \<open>Tick counter of a trigger\<close>

definition needCheck :: "int \<Rightarrow> int \<Rightarrow> bool \<times> int" where
  "needCheck checkInterval ticksElapsed =
     (let n = ticksElapsed + 1 in if n \<ge> checkInterval then (True, 0) else (False, n))"

fun needCheck_run :: "nat \<Rightarrow> int \<Rightarrow> int \<Rightarrow> bool list" where
  "needCheck_run 0 checkInterval ticksElapsed = []"
| "needCheck_run (Suc n) checkInterval ticksElapsed =
     (let (b, e) = needCheck checkInterval ticksElapsed in b # needCheck_run n checkInterval e)"

lemma needCheck_run_nth:
  assumes "0 < i" and "e < i" and "k < n"
  shows "needCheck_run n (int i) (int e) ! k = (i dvd (e + Suc k))"
  using assms
proof (induction n arbitrary: e k)
  case (Suc n)
  show ?case
  proof (cases "Suc e = i")
    case True
    then have run: "needCheck_run (Suc n) (int i) (int e) = True # needCheck_run n (int i) (int 0)"
      by (simp add: needCheck_def)
    show ?thesis
    proof (cases k)
      case 0
      then show ?thesis using True run by simp
    next
      case (Suc j)
      have "needCheck_run n (int i) (int 0) ! j = (i dvd 0 + Suc j)"
        using Suc.IH [of 0 j] Suc.prems Suc by simp
      moreover have "e + Suc k = i + Suc j" using True Suc by simp
      then have "(i dvd e + Suc k) = (i dvd Suc j)" by (simp only: dvd_add_triv_left_iff)
      ultimately show ?thesis unfolding run Suc by simp
    qed
  next
    case False
    then have lt: "Suc e < i" using Suc.prems by simp
    have run: "needCheck_run (Suc n) (int i) (int e) = False # needCheck_run n (int i) (int (Suc e))"
      using lt by (simp add: needCheck_def add.commute)
    show ?thesis
    proof (cases k)
      case 0
      then show ?thesis using run lt by (auto dest: dvd_imp_le)
    next
      case (Suc j)
      then show ?thesis using run Suc.IH [of "Suc e" j] Suc.prems lt by simp
    qed
  qed
qed simp


section \<open>Chat commands and packets\<close>

text \<open>\<^verbatim>\<open>string::rfind(c, i)\<close>: the last position up to \<open>i\<close> that holds \<open>c\<close>.\<close>

fun str_rfind :: "char \<Rightarrow> string \<Rightarrow> nat \<Rightarrow> nat option" where
  "str_rfind c s 0 = (if 0 < length s \<and> s ! 0 = c then Some 0 else None)"
| "str_rfind c s (Suc i) = (if Suc i < length s \<and> s ! Suc i = c then Some (Suc i) else str_rfind c s i)"

lemma str_rfind_Some:
  "str_rfind c s i = Some j \<Longrightarrow> j \<le> i \<and> j < length s \<and> s ! j = c \<and> (\<forall>k. j < k \<and> k \<le> i \<and> k < length s \<longrightarrow> s ! k \<noteq> c)"
  by (induction c s i rule: str_rfind.induct) (auto split: if_splits simp: le_Suc_eq)

lemma str_rfind_None:
  "str_rfind c s i = None \<Longrightarrow> k \<le> i \<Longrightarrow> k < length s \<Longrightarrow> s ! k \<noteq> c"
  by (induction c s i rule: str_rfind.induct) (auto split: if_splits simp: le_Suc_eq)

text \<open>
  The loop of \<^verbatim>\<open>ParseChatCommand\<close>: \<open>known name\<close> says that \<^verbatim>\<open>GetTrigger(name)\<close> gives an
  object; \<open>i\<close> is where the search for the next blank to the left starts.
\<close>

function chat_loop :: "(string \<Rightarrow> bool) \<Rightarrow> string \<Rightarrow> nat \<Rightarrow> (string \<times> string) option" where
  "chat_loop known command i =
     (case str_rfind (CHR '' '') command i of
        None \<Rightarrow> None
      | Some found \<Rightarrow>
          if found = 0 then None
          else if known (take found command) then Some (take found command, drop (found + 1) command)
          else chat_loop known command (found - 1))"
  by pat_completeness auto
termination
  by (relation "measure (\<lambda>(_, _, i). i)") (auto dest: str_rfind_Some)

declare chat_loop.simps [simp del]

text \<open>
  The result of \<^verbatim>\<open>ParseChatCommand\<close> and the calls of \<^verbatim>\<open>ExternalEvent(param)\<close> on the triggers
  it reached; \<open>parseable\<close> is \<^verbatim>\<open>ChatHelper::parseable\<close>.
\<close>

definition HandleCommand :: "(string \<Rightarrow> bool) \<Rightarrow> string \<Rightarrow> string \<Rightarrow> bool \<times> (string \<times> string) list" where
  "HandleCommand known name param = (if known name then (True, [(name, param)]) else (False, []))"

definition ParseChatCommand :: "(string \<Rightarrow> bool) \<Rightarrow> (string \<Rightarrow> bool) \<Rightarrow> string
    \<Rightarrow> bool \<times> (string \<times> string) list" where
  "ParseChatCommand known parseable command =
     (if fst (HandleCommand known command []) then HandleCommand known command []
      else case chat_loop known command (length command) of
        Some (name, param) \<Rightarrow> HandleCommand known name param
      | None \<Rightarrow>
          if \<not> parseable command then (False, [])
          else (True, snd (HandleCommand known ''q'' command) @ snd (HandleCommand known ''c'' command)
                 @ snd (HandleCommand known ''t'' command)))"

text \<open>\<^verbatim>\<open>HandlePacket\<close>: \<^verbatim>\<open>handlers[opcode]\<close> adds an empty name for an unknown opcode; the result is
  the trigger that receives the packet.\<close>

definition HandlePacket :: "(string \<Rightarrow> bool) \<Rightarrow> uint16 \<Rightarrow> (uint16, string) stdmap
    \<Rightarrow> string option \<times> (uint16, string) stdmap" where
  "HandlePacket known opcode handlers =
     (let name = om_at [] handlers opcode;
          handlers' = (if om_find handlers opcode = None then om_put opcode [] handlers else handlers)
      in (if name = [] \<or> \<not> known name then None else Some name, handlers'))"

lemma chat_loop_longest:
  assumes "known name" and "name \<noteq> []" and "command = name @ CHR '' '' # param" and "length name \<le> i"
    and "\<forall>n p. command = n @ CHR '' '' # p \<longrightarrow> length name < length n \<longrightarrow> \<not> known n"
  shows "chat_loop known command i = Some (name, param)"
  using assms(4)
proof (induction i rule: less_induct)
  case (less i)
  have here: "length name < length command" "command ! length name = CHR '' ''"
    using assms(3) by simp_all
  show ?case
  proof (cases "str_rfind (CHR '' '') command i")
    case None
    then show ?thesis using str_rfind_None [OF None less.prems] here by simp
  next
    case (Some found)
    note f = str_rfind_Some [OF Some]
    have ge: "length name \<le> found" using f here less.prems by (meson not_le)
    show ?thesis
    proof (cases "found = length name")
      case True
      have "take found command = name" "drop (found + 1) command = param"
        using True assms(3) by simp_all
      then show ?thesis using Some True assms(1,2) by (subst chat_loop.simps) simp
    next
      case False
      with ge have gt: "length name < found" by simp
      have "command = take found command @ CHR '' '' # drop (Suc found) command"
        using f id_take_nth_drop [of found command] by simp
      then have nk: "\<not> known (take found command)" using assms(5) gt f by (metis length_take less_imp_le min.absorb2)
      have "chat_loop known command (found - 1) = Some (name, param)"
        by (rule less.IH) (use gt f in linarith)+
      then show ?thesis using Some nk gt by (subst chat_loop.simps) simp
    qed
  qed
qed

section \<open>Properties\<close>

text \<open>Looking an object up by name creates it at most once: the second lookup of a name
  returns the same object and changes nothing, and a lookup never changes what
  another name resolves to.\<close>

theorem GetObject_once:
  assumes "contexts_GetObject n cs = (x, cs')"
  shows "contexts_GetObject n cs' = (x, cs') \<and> fst (contexts_GetObject m cs') = fst (contexts_GetObject m cs)"
proof -
  have 1: "contexts_GetObject n cs' = (x, cs')" by (rule contexts_GetObject_again [OF assms])
  moreover have "fst (contexts_GetObject m cs') = fst (contexts_GetObject m cs)"
    using contexts_GetObject_other [of m n cs] 1 assms by (cases "m = n") auto
  ultimately show ?thesis ..
qed

lemma GetObject_once_witness:
  "contexts_GetObject ''a''
     (snd (contexts_GetObject ''a'' [\<lparr>nc_creators = [(''a'', Some (\<lambda>q. Some (1::nat)))], nc_created = [],
        nc_shared = False, nc_siblings = True\<rparr>])) =
   (Some 1, [\<lparr>nc_creators = [(''a'', Some (\<lambda>q. Some 1))], nc_created = [(''a'', Some 1)],
        nc_shared = False, nc_siblings = True\<rparr>])"
proof -
  let ?c = "\<lparr>nc_creators = [(''a'', Some (\<lambda>q. Some (1::nat)))], nc_created = [],
        nc_shared = False, nc_siblings = True\<rparr>"
  have 1: "contexts_GetObject ''a'' [?c] = (Some 1, [?c\<lparr>nc_created := [(''a'', Some 1)]\<rparr>])"
    by (simp add: context_create_def factory_create_def split_name_def Let_def)
  show ?thesis using GetObject_once [OF 1] 1 by simp
qed

text \<open>A value that is recalculated every \<open>i\<close> ticks is never older than \<open>i - 1\<close> ticks: every
  read in tick \<open>s\<close> returns what the calculation gave in some tick \<open>u\<close> with
  \<open>s - u < i\<close>, whatever the pattern of reads was.\<close>

theorem CalculatedValue_age:
  assumes "0 < i" and "(s, x) \<in> set (cv_run calc 0 reads (cv_init (int i) v))"
  shows "\<exists>u. u \<le> s \<and> s - u < i \<and> x = calc u"
  by (rule cv_run_fresh [OF assms(2) _ assms(1)]) (simp_all add: cv_init_def)

lemma CalculatedValue_age_witness:
  "\<exists>u. u \<le> (2::nat) \<and> 2 - u < 2 \<and> (20::int) = int u * 10"
proof -
  have "(2, 20) \<in> set (cv_run (\<lambda>t. int t * 10) 0 [True, False, True] (cv_init (int 2) 0))"
    by (simp add: cv_init_def cv_Update_def cv_Get_def Let_def)
  from CalculatedValue_age [OF _ this] show ?thesis by simp
qed

text \<open>A chat command that is no trigger itself goes to the trigger with the longest name that
  is a prefix of it ending before a blank, with the rest of the line as parameter.\<close>

theorem ParseChatCommand_longest:
  assumes "\<not> known command" and "known name" and "name \<noteq> []" and "command = name @ CHR '' '' # param"
    and "\<forall>n p. command = n @ CHR '' '' # p \<longrightarrow> length name < length n \<longrightarrow> \<not> known n"
  shows "ParseChatCommand known parseable command = (True, [(name, param)])"
proof -
  have "chat_loop known command (length command) = Some (name, param)"
    by (rule chat_loop_longest [OF assms(2-4) _ assms(5)]) (simp_all add: assms(4))
  then show ?thesis using assms(1,2) by (simp add: ParseChatCommand_def HandleCommand_def)
qed

lemma ParseChatCommand_longest_witness:
  "ParseChatCommand (\<lambda>n. n = ''co'') (\<lambda>_. False) ''co +dps ?'' = (True, [(''co'', ''+dps ?'')])"
  by (rule ParseChatCommand_longest) (auto simp: append_eq_Cons_conv Cons_eq_append_conv)

end
