(* ===== verification/BotEngine.thy ===== *)
theory BotEngine
  imports Complex_Main BotContext
begin

text \<open>
  The decision engine of a bot, \<^verbatim>\<open>src/src/plugins/playerbot/strategy\<close>: \<^verbatim>\<open>Action.h/.cpp\<close>
  (next actions, action nodes, baskets), \<^verbatim>\<open>Queue.cpp\<close>, \<^verbatim>\<open>Engine.cpp\<close>, \<^verbatim>\<open>Strategy.cpp\<close>,
  \<^verbatim>\<open>PassiveMultiplier.cpp\<close> and the line format of \<^verbatim>\<open>CustomStrategy.cpp\<close>.

  A \<^verbatim>\<open>float\<close> is the rational it denotes; the rounding of sums and products is a
  parameter (\<open>be_add\<close>, \<open>be_mul\<close>).  Actions, triggers, multipliers and listeners are
  known by name or number; what their virtual methods answer and do to the world
  is the record \<open>bot_env\<close>.  \<^verbatim>\<open>Execute\<close> may change the whole engine (an action can
  switch strategies), the other methods only the world.  Log output is left out.
\<close>

section \<open>Next actions, action nodes and baskets\<close>

record next_action =
  na_name :: string
  na_relevance :: rat

text \<open>
  A null-terminated array is the list of the entries before the terminator, a null
  pointer the empty list.  Its readers stop after ten entries.
\<close>

definition NextAction_size :: "next_action list \<Rightarrow> nat" where
  "NextAction_size acts = min 10 (length acts)"

definition NextAction_clone :: "next_action list \<Rightarrow> next_action list" where
  "NextAction_clone acts = take (NextAction_size acts) acts"

definition NextAction_merge :: "next_action list \<Rightarrow> next_action list \<Rightarrow> next_action list" where
  "NextAction_merge left right = take (NextAction_size left) left @ take (NextAction_size right) right"

record action_node =
  an_name :: string
  an_prerequisites :: "next_action list"
  an_alternatives :: "next_action list"
  an_continuers :: "next_action list"

record bot_event =
  ev_source :: string
  ev_param :: string
  ev_packet :: "uint8 list"
  ev_owner :: uint64

definition emptyEvent :: bot_event where
  "emptyEvent = \<lparr>ev_source = [], ev_param = [], ev_packet = [], ev_owner = 0\<rparr>"

record basket =
  bk_node :: action_node
  bk_relevance :: rat
  bk_skip :: bool
  bk_event :: bot_event

abbreviation bk_name :: "basket \<Rightarrow> string" where
  "bk_name b \<equiv> an_name (bk_node b)"

section \<open>The queue\<close>

fun queue_Push :: "basket \<Rightarrow> basket list \<Rightarrow> basket list" where
  "queue_Push action [] = [action]"
| "queue_Push action (basket # q) =
     (if bk_name action = bk_name basket
      then (if bk_relevance basket < bk_relevance action
            then basket\<lparr>bk_relevance := bk_relevance action\<rparr> else basket) # q
      else basket # queue_Push action q)"

text \<open>\<^verbatim>\<open>Push(ActionBasket **)\<close> divides the size of a pointer by the size of a pointer: its
  loop runs once.\<close>

fun queue_Push_array :: "basket option list \<Rightarrow> basket list \<Rightarrow> basket list" where
  "queue_Push_array (Some b # bs) q = queue_Push b q"
| "queue_Push_array _ q = q"

fun queue_select :: "basket list \<Rightarrow> rat \<Rightarrow> basket option \<Rightarrow> basket option" where
  "queue_select [] mx selection = selection"
| "queue_select (basket # q) mx selection =
     (if bk_relevance basket > mx then queue_select q (bk_relevance basket) (Some basket)
      else queue_select q mx selection)"

definition queue_Peek :: "basket list \<Rightarrow> basket option" where
  "queue_Peek q = queue_select q (- 1) None"

text \<open>\<^verbatim>\<open>Pop\<close> returns the node of the selected basket; the basket itself is what the engine
  has peeked at before.  The selected basket is the first one with its contents.\<close>

definition queue_Pop :: "basket list \<Rightarrow> action_node option \<times> basket list" where
  "queue_Pop q =
     (case queue_Peek q of
        None \<Rightarrow> (None, q)
      | Some selection \<Rightarrow> (Some (bk_node selection), remove1 selection q))"

definition queue_Size :: "basket list \<Rightarrow> int" where
  "queue_Size q = int (length q)"

lemma queue_select_cases:
  "queue_select q mx sel = Some b \<Longrightarrow>
     (sel = Some b \<and> (\<forall>c\<in>set q. bk_relevance c \<le> mx)) \<or>
     (b \<in> set q \<and> bk_relevance b > mx \<and> (\<forall>c\<in>set q. bk_relevance c \<le> bk_relevance b))"
proof (induction q mx sel rule: queue_select.induct)
  case (2 c q mx sel)
  show ?case
  proof (cases "mx < bk_relevance c")
    case True
    with 2(1) [OF True] 2(3) show ?thesis by fastforce
  next
    case False
    with 2(2) [OF False] 2(3) show ?thesis by fastforce
  qed
qed simp

lemma queue_select_None:
  "queue_select q mx sel = None \<longleftrightarrow> sel = None \<and> (\<forall>c\<in>set q. bk_relevance c \<le> mx)"
  by (induction q mx sel rule: queue_select.induct) auto

lemma queue_select_first:
  "queue_select q mx sel = Some b \<Longrightarrow> sel \<noteq> Some b \<Longrightarrow>
     \<exists>xs ys. q = xs @ b # ys \<and> (\<forall>c\<in>set xs. bk_relevance c < bk_relevance b)"
proof (induction q mx sel rule: queue_select.induct)
  case (2 c q mx sel)
  show ?case
  proof (cases "mx < bk_relevance c")
    case True
    note r = 2(1) [OF True]
    show ?thesis
    proof (cases "c = b")
      case True
      then show ?thesis by (intro exI [of _ "[]"] exI [of _ q]) simp
    next
      case False
      then obtain xs ys where q: "q = xs @ b # ys" "\<forall>c\<in>set xs. bk_relevance c < bk_relevance b"
        using r 2(3) True by auto
      have "bk_relevance c < bk_relevance b"
        using queue_select_cases [of q "bk_relevance c" "Some c" b] 2(3) True False by auto
      with q show ?thesis by (intro exI [of _ "c # xs"] exI [of _ ys]) simp
    qed
  next
    case False
    then obtain xs ys where q: "q = xs @ b # ys" "\<forall>c\<in>set xs. bk_relevance c < bk_relevance b"
      using 2 by auto
    have "bk_relevance b > mx"
      using queue_select_cases [of q mx sel b] 2(3,4) False by auto
    with q False show ?thesis by (intro exI [of _ "c # xs"] exI [of _ ys]) auto
  qed
qed simp

subsection \<open>Invariant\<close>

text \<open>No two baskets have nodes of the same name, and every relevance is positive.\<close>

definition queue_ok :: "basket list \<Rightarrow> bool" where
  "queue_ok q \<longleftrightarrow> distinct (map bk_name q) \<and> (\<forall>b\<in>set q. 0 < bk_relevance b)"

definition queue_rel :: "basket list \<Rightarrow> string \<Rightarrow> rat option" where
  "queue_rel q n = map_option bk_relevance (find (\<lambda>b. bk_name b = n) q)"

definition queue_take :: "basket list \<Rightarrow> basket option \<times> basket list" where
  "queue_take q = (queue_Peek q, snd (queue_Pop q))"

lemma queue_Push_names:
  "set (map bk_name (queue_Push b q)) = insert (bk_name b) (set (map bk_name q))"
  by (induction b q rule: queue_Push.induct) auto

lemma queue_Push_ok: "queue_ok q \<Longrightarrow> 0 < bk_relevance b \<Longrightarrow> queue_ok (queue_Push b q)"
proof (induction b q rule: queue_Push.induct)
  case (2 b c q)
  have "bk_name c \<notin> set (map bk_name q)" using 2(2) by (simp add: queue_ok_def)
  then show ?case
    using 2 queue_Push_names [of b q] by (auto simp: queue_ok_def)
qed (simp add: queue_ok_def)

lemma queue_rel_Cons: "queue_rel (c # q) n = (if bk_name c = n then Some (bk_relevance c) else queue_rel q n)"
  by (simp add: queue_rel_def)

lemma queue_rel_Nil [simp]: "queue_rel [] n = None"
  by (simp add: queue_rel_def)

lemma queue_rel_Push:
  "queue_rel (queue_Push b q) n =
     (if n = bk_name b then Some (case queue_rel q n of None \<Rightarrow> bk_relevance b | Some r \<Rightarrow> max r (bk_relevance b))
      else queue_rel q n)"
  by (induction b q rule: queue_Push.induct) (auto simp: queue_rel_Cons max_def)

lemma queue_rel_mem: "queue_ok q \<Longrightarrow> queue_rel q n = Some r \<longleftrightarrow> (\<exists>b\<in>set q. bk_name b = n \<and> bk_relevance b = r)"
  by (induction q) (auto simp: queue_rel_Cons queue_ok_def image_iff)

lemma queue_rel_None: "queue_rel q n = None \<longleftrightarrow> (\<forall>b\<in>set q. bk_name b \<noteq> n)"
  by (induction q) (auto simp: queue_rel_Cons)

lemma queue_ok_Nil [simp]: "queue_ok []"
  by (simp add: queue_ok_def)

lemma queue_ok_remove1: "queue_ok q \<Longrightarrow> queue_ok (remove1 b q)"
  by (auto simp: queue_ok_def distinct_map inj_on_def dest: notin_set_remove1)

lemma queue_ok_distinct: "queue_ok q \<Longrightarrow> distinct q"
  by (auto simp: queue_ok_def distinct_map)

lemma queue_Peek_None: "queue_ok q \<Longrightarrow> queue_Peek q = None \<longleftrightarrow> q = []"
proof -
  assume "queue_ok q"
  then have "\<forall>c\<in>set q. \<not> bk_relevance c \<le> - 1" by (auto simp: queue_ok_def)
  then show ?thesis unfolding queue_Peek_def queue_select_None by (cases q) auto
qed

lemma queue_Peek_Some:
  "queue_Peek q = Some b \<Longrightarrow> b \<in> set q \<and> (\<forall>c\<in>set q. bk_relevance c \<le> bk_relevance b)"
  unfolding queue_Peek_def by (drule queue_select_cases) auto

lemma queue_rel_remove1:
  assumes "queue_ok q" and "b \<in> set q"
  shows "queue_rel (remove1 b q) n = (if n = bk_name b then None else queue_rel q n)"
proof -
  have other: "c \<in> set q \<Longrightarrow> bk_name c = bk_name b \<Longrightarrow> c = b" for c
    using assms by (auto simp: queue_ok_def distinct_map inj_on_def)
  have mem: "c \<in> set (remove1 b q) \<longleftrightarrow> c \<in> set q \<and> c \<noteq> b" for c
    using queue_ok_distinct [OF assms(1)] by simp
  show ?thesis
  proof (cases "n = bk_name b")
    case True
    then have "queue_rel (remove1 b q) n = None" using mem other by (auto simp: queue_rel_None)
    with True show ?thesis by simp
  next
    case False
    have "queue_rel (remove1 b q) n = Some r \<longleftrightarrow> queue_rel q n = Some r" for r
      using queue_rel_mem [OF assms(1)] queue_rel_mem [OF queue_ok_remove1 [OF assms(1)]] mem False by auto
    then have "queue_rel (remove1 b q) n = queue_rel q n" by (metis not_None_eq)
    with False show ?thesis by simp
  qed
qed

lemma queue_take_Some:
  assumes "queue_ok q" and "queue_take q = (Some b, q')"
  shows "queue_ok q'" and "queue_rel q (bk_name b) = Some (bk_relevance b)"
    and "queue_rel q n = Some r \<Longrightarrow> r \<le> bk_relevance b"
    and "queue_rel q' n = (if n = bk_name b then None else queue_rel q n)"
proof -
  have p: "queue_Peek q = Some b" and q': "q' = remove1 b q"
    using assms(2) by (auto simp: queue_take_def queue_Pop_def)
  note m = queue_Peek_Some [OF p]
  show "queue_ok q'" using queue_ok_remove1 [OF assms(1)] q' by simp
  show "queue_rel q (bk_name b) = Some (bk_relevance b)" using queue_rel_mem [OF assms(1)] m by blast
  show "queue_rel q n = Some r \<Longrightarrow> r \<le> bk_relevance b" using queue_rel_mem [OF assms(1)] m by auto
  show "queue_rel q' n = (if n = bk_name b then None else queue_rel q n)"
    using queue_rel_remove1 [OF assms(1)] m q' by blast
qed

subsection \<open>The contract of a relevance queue\<close>

locale relevance_queue =
  fixes push :: "'b \<Rightarrow> 'q \<Rightarrow> 'q"
    and pop :: "'q \<Rightarrow> 'b option \<times> 'q"
    and ok :: "'q \<Rightarrow> bool"
    and rel :: "'q \<Rightarrow> 'k \<Rightarrow> rat option"
    and key :: "'b \<Rightarrow> 'k"
    and prio :: "'b \<Rightarrow> rat"
  assumes push_ok: "ok q \<Longrightarrow> 0 < prio b \<Longrightarrow> ok (push b q)"
    and push_rel: "ok q \<Longrightarrow> 0 < prio b \<Longrightarrow> rel (push b q) n =
      (if n = key b then Some (case rel q n of None \<Rightarrow> prio b | Some r \<Rightarrow> max r (prio b)) else rel q n)"
    and pop_ok: "ok q \<Longrightarrow> pop q = (Some b, q') \<Longrightarrow> ok q'"
    and pop_rel: "ok q \<Longrightarrow> pop q = (Some b, q') \<Longrightarrow> rel q (key b) = Some (prio b)"
    and pop_max: "ok q \<Longrightarrow> pop q = (Some b, q') \<Longrightarrow> rel q n = Some r \<Longrightarrow> r \<le> prio b"
    and pop_frame: "ok q \<Longrightarrow> pop q = (Some b, q') \<Longrightarrow> rel q' n = (if n = key b then None else rel q n)"
begin

lemma push_grows:
  assumes "ok q" and "0 < prio b" and "rel q n = Some r"
  shows "\<exists>r'\<ge>r. rel (push b q) n = Some r'"
  using assms push_rel [OF assms(1,2), of n] by (auto simp: max_def)

lemma push_all_ok: "ok q \<Longrightarrow> \<forall>b\<in>set bs. 0 < prio b \<Longrightarrow> ok (fold push bs q)"
  by (induction bs arbitrary: q) (auto simp: push_ok)

lemma push_all_grows:
  "ok q \<Longrightarrow> \<forall>b\<in>set bs. 0 < prio b \<Longrightarrow> rel q n = Some r \<Longrightarrow> \<exists>r'\<ge>r. rel (fold push bs q) n = Some r'"
proof (induction bs arbitrary: q r)
  case (Cons b bs)
  obtain r1 where r1: "r \<le> r1" "rel (push b q) n = Some r1"
    using push_grows [of q b n r] Cons.prems by auto
  from Cons.IH [OF push_ok _ r1(2)] Cons.prems obtain r' where "r1 \<le> r'" "rel (fold push bs (push b q)) n = Some r'"
    by auto
  with r1(1) show ?case by (intro exI [of _ r']) simp
qed simp

lemma push_all_rel:
  "ok q \<Longrightarrow> \<forall>b\<in>set bs. 0 < prio b \<Longrightarrow> b \<in> set bs \<Longrightarrow> \<exists>r\<ge>prio b. rel (fold push bs q) (key b) = Some r"
proof (induction bs arbitrary: q)
  case (Cons c bs)
  show ?case
  proof (cases "b \<in> set bs")
    case True
    then show ?thesis using Cons push_ok by auto
  next
    case False
    then have "b = c" using Cons.prems by simp
    then have "\<exists>r\<ge>prio b. rel (push c q) (key b) = Some r"
      using push_rel [of q c "key c"] Cons.prems by (auto split: option.splits)
    then obtain r where "prio b \<le> r" "rel (push c q) (key b) = Some r" by blast
    then show ?thesis using push_all_grows [of "push c q" bs "key b" r] push_ok Cons.prems by (auto intro: order_trans)
  qed
qed simp

lemma push_all_other:
  "ok q \<Longrightarrow> \<forall>b\<in>set bs. 0 < prio b \<Longrightarrow> \<forall>b\<in>set bs. key b \<noteq> n \<Longrightarrow> rel (fold push bs q) n = rel q n"
  by (induction bs arbitrary: q) (auto simp: push_ok push_rel)

lemma pop_not_lower:
  "ok q \<Longrightarrow> rel q n = Some r \<Longrightarrow> rel q m = Some s \<Longrightarrow> r < s \<Longrightarrow> pop q = (Some b, q') \<Longrightarrow> key b \<noteq> n"
  using pop_rel pop_max by fastforce

end

interpretation rq: relevance_queue queue_Push queue_take queue_ok queue_rel bk_name bk_relevance
  by unfold_locales (simp_all add: queue_Push_ok queue_rel_Push queue_take_Some)

section \<open>Strategies, triggers and the state of the engine\<close>

text \<open>A trigger node; the list of triggers may hold null pointers.\<close>

record trigger_node =
  tn_name :: string
  tn_handlers :: "next_action list"

record strategy =
  st_name :: string
  st_type :: uint32
  st_defaults :: "next_action list"
  st_triggers :: "trigger_node option list"
  st_multipliers :: "string list"
  st_factories :: "action_node factory list"

definition Strategy_GetAction :: "strategy \<Rightarrow> string \<Rightarrow> action_node option" where
  "Strategy_GetAction s name = factories_GetObject (st_factories s) name"

text \<open>\<open>en_ticks\<close> holds \<^verbatim>\<open>ticksElapsed\<close> of the trigger objects of the context.\<close>

record 'w engine =
  en_queue :: "basket list"
  en_triggers :: "trigger_node option list"
  en_multipliers :: "string list"
  en_strategies :: "(string, strategy) stdmap"
  en_lastRelevance :: rat
  en_testMode :: bool
  en_listeners :: "nat list"
  en_ticks :: "(string, int) stdmap"
  en_world :: 'w

record 'w bot_env =
  be_add :: "rat \<Rightarrow> rat \<Rightarrow> rat"
  be_mul :: "rat \<Rightarrow> rat \<Rightarrow> rat"
  be_iterationsPerTick :: int
  be_strategies :: "strategy named_context list"
  be_knows_trigger :: "string \<Rightarrow> bool"
  be_interval :: "string \<Rightarrow> int"
  be_Check :: "string \<Rightarrow> 'w \<Rightarrow> bot_event \<times> 'w"
  be_handlers :: "string \<Rightarrow> 'w \<Rightarrow> next_action list"
  be_trigger_Reset :: "string \<Rightarrow> 'w \<Rightarrow> 'w"
  be_knows_action :: "string \<Rightarrow> bool"
  be_isUseful :: "string \<Rightarrow> 'w \<Rightarrow> bool \<times> 'w"
  be_isPossible :: "string \<Rightarrow> 'w \<Rightarrow> bool \<times> 'w"
  be_prerequisites :: "string \<Rightarrow> 'w \<Rightarrow> next_action list"
  be_alternatives :: "string \<Rightarrow> 'w \<Rightarrow> next_action list"
  be_continuers :: "string \<Rightarrow> 'w \<Rightarrow> next_action list"
  be_multiplier :: "string \<Rightarrow> string \<Rightarrow> 'w \<Rightarrow> rat \<times> 'w"
  be_Execute :: "string \<Rightarrow> bot_event \<Rightarrow> 'w engine \<Rightarrow> bool \<times> 'w engine"
  be_Before :: "nat \<Rightarrow> string \<Rightarrow> bot_event \<Rightarrow> 'w \<Rightarrow> bool \<times> 'w"
  be_AllowExecution :: "nat \<Rightarrow> string \<Rightarrow> bot_event \<Rightarrow> 'w \<Rightarrow> bool \<times> 'w"
  be_After :: "nat \<Rightarrow> string \<Rightarrow> bool \<Rightarrow> bot_event \<Rightarrow> 'w \<Rightarrow> 'w"
  be_OverrideResult :: "nat \<Rightarrow> string \<Rightarrow> bool \<Rightarrow> bot_event \<Rightarrow> 'w \<Rightarrow> bool \<times> 'w"
  be_context_Update :: "'w \<Rightarrow> 'w"

definition engine_init :: "'w \<Rightarrow> 'w engine" where
  "engine_init w = \<lparr>en_queue = [], en_triggers = [], en_multipliers = [], en_strategies = [],
     en_lastRelevance = 0, en_testMode = False, en_listeners = [], en_ticks = [], en_world = w\<rparr>"

text \<open>The contexts resolve a name to the same object every time (\<open>GetObject_once\<close>).\<close>

definition be_GetStrategy :: "'w bot_env \<Rightarrow> string \<Rightarrow> strategy option" where
  "be_GetStrategy env name = fst (contexts_GetObject name (be_strategies env))"

definition be_GetSiblingStrategy :: "'w bot_env \<Rightarrow> string \<Rightarrow> string list" where
  "be_GetSiblingStrategy env name = contexts_GetSiblings (be_strategies env) name"

section \<open>Listeners\<close>

text \<open>\<^verbatim>\<open>result &= ...\<close> asks every listener.\<close>

fun listeners_all :: "(nat \<Rightarrow> 'w \<Rightarrow> bool \<times> 'w) \<Rightarrow> nat list \<Rightarrow> bool \<Rightarrow> 'w \<Rightarrow> bool \<times> 'w" where
  "listeners_all f [] result w = (result, w)"
| "listeners_all f (l # ls) result w = (let (b, w') = f l w in listeners_all f ls (result \<and> b) w')"

fun listeners_After :: "(nat \<Rightarrow> 'w \<Rightarrow> 'w) \<Rightarrow> nat list \<Rightarrow> 'w \<Rightarrow> 'w" where
  "listeners_After f [] w = w"
| "listeners_After f (l # ls) w = listeners_After f ls (f l w)"

fun listeners_Override :: "(nat \<Rightarrow> bool \<Rightarrow> 'w \<Rightarrow> bool \<times> 'w) \<Rightarrow> nat list \<Rightarrow> bool \<Rightarrow> 'w \<Rightarrow> bool \<times> 'w" where
  "listeners_Override f [] result w = (result, w)"
| "listeners_Override f (l # ls) result w = (let (b, w') = f l result w in listeners_Override f ls b w')"

definition ListenAndExecute :: "'w bot_env \<Rightarrow> string \<Rightarrow> bot_event \<Rightarrow> 'w engine \<Rightarrow> bool \<times> 'w engine" where
  "ListenAndExecute env a ev e =
     (let (before, w1) = listeners_all (\<lambda>l. be_Before env l a ev) (en_listeners e) True (en_world e);
          e1 = e\<lparr>en_world := w1\<rparr>;
          (executed, e2) =
            (if before
             then let (allow, w2) = listeners_all (\<lambda>l. be_AllowExecution env l a ev) (en_listeners e1) True (en_world e1);
                      e' = e1\<lparr>en_world := w2\<rparr>
                  in (if allow then be_Execute env a ev e' else (True, e'))
             else (False, e1));
          (result, w3) = listeners_Override (\<lambda>l r. be_OverrideResult env l a r ev) (en_listeners e2) executed (en_world e2);
          w4 = listeners_After (\<lambda>l. be_After env l a result ev) (en_listeners e2) w3
      in (result, e2\<lparr>en_world := w4\<rparr>))"

section \<open>Pushing actions\<close>

fun CreateActionNode :: "(string, strategy) stdmap \<Rightarrow> string \<Rightarrow> action_node" where
  "CreateActionNode [] name = \<lparr>an_name = name, an_prerequisites = [], an_alternatives = [], an_continuers = []\<rparr>"
| "CreateActionNode ((k, s) # ss) name =
     (case Strategy_GetAction s name of Some node \<Rightarrow> node | None \<Rightarrow> CreateActionNode ss name)"

fun push_loop :: "rat \<Rightarrow> bool \<Rightarrow> bot_event \<Rightarrow> next_action list \<Rightarrow> bool \<Rightarrow> 'w engine \<Rightarrow> bool \<times> 'w engine" where
  "push_loop forceRelevance skip ev [] pushed e = (pushed, e)"
| "push_loop forceRelevance skip ev (nextAction # acts) pushed e =
     (let action = CreateActionNode (en_strategies e) (na_name nextAction);
          k = (if forceRelevance > 0 then forceRelevance else na_relevance nextAction)
      in if k > 0
         then push_loop forceRelevance skip ev acts True
                (e\<lparr>en_queue := queue_Push \<lparr>bk_node = action, bk_relevance = k, bk_skip = skip, bk_event = ev\<rparr> (en_queue e)\<rparr>)
         else push_loop forceRelevance skip ev acts pushed e)"

definition MultiplyAndPush :: "next_action list \<Rightarrow> rat \<Rightarrow> bool \<Rightarrow> bot_event \<Rightarrow> 'w engine \<Rightarrow> bool \<times> 'w engine" where
  "MultiplyAndPush acts forceRelevance skip ev e = push_loop forceRelevance skip ev (take 10 acts) False e"

definition PushAgain :: "action_node \<Rightarrow> rat \<Rightarrow> bot_event \<Rightarrow> 'w engine \<Rightarrow> 'w engine" where
  "PushAgain node relevance ev e =
     snd (MultiplyAndPush [\<lparr>na_name = an_name node, na_relevance = relevance\<rparr>] relevance True ev e)"

definition node_getPrerequisites :: "'w bot_env \<Rightarrow> action_node \<Rightarrow> 'w \<Rightarrow> next_action list" where
  "node_getPrerequisites env n w =
     NextAction_merge (NextAction_clone (an_prerequisites n)) (be_prerequisites env (an_name n) w)"

definition node_getAlternatives :: "'w bot_env \<Rightarrow> action_node \<Rightarrow> 'w \<Rightarrow> next_action list" where
  "node_getAlternatives env n w =
     NextAction_merge (NextAction_clone (an_alternatives n)) (be_alternatives env (an_name n) w)"

definition node_getContinuers :: "'w bot_env \<Rightarrow> action_node \<Rightarrow> 'w \<Rightarrow> next_action list" where
  "node_getContinuers env n w =
     NextAction_merge (NextAction_clone (an_continuers n)) (be_continuers env (an_name n) w)"

definition trigger_getHandlers :: "'w bot_env \<Rightarrow> trigger_node \<Rightarrow> 'w \<Rightarrow> next_action list" where
  "trigger_getHandlers env n w =
     NextAction_merge (NextAction_clone (tn_handlers n)) (be_handlers env (tn_name n) w)"

section \<open>Initialisation and triggers\<close>

lemma queue_Pop_length: "queue_Pop q = (Some n, q') \<Longrightarrow> length q' < length q"
proof -
  assume "queue_Pop q = (Some n, q')"
  then obtain b where "queue_Peek q = Some b" "q' = remove1 b q"
    by (auto simp: queue_Pop_def split: option.splits)
  then show ?thesis using queue_Peek_Some [of q b] by (auto simp: length_remove1 dest!: length_pos_if_in_set)
qed

function queue_drain :: "basket list \<Rightarrow> basket list" where
  "queue_drain q = (case queue_Pop q of (None, q') \<Rightarrow> q' | (Some n, q') \<Rightarrow> queue_drain q')"
  by pat_completeness auto
termination
  by (relation "measure length") (auto dest!: queue_Pop_length [OF sym])

declare queue_drain.simps [simp del]

definition engine_Reset :: "'w engine \<Rightarrow> 'w engine" where
  "engine_Reset e = e\<lparr>en_queue := queue_drain (en_queue e), en_triggers := [], en_multipliers := []\<rparr>"

fun init_loop :: "(string \<times> strategy) list \<Rightarrow> 'w engine \<Rightarrow> 'w engine" where
  "init_loop [] e = e"
| "init_loop ((k, s) # ss) e =
     (let e1 = e\<lparr>en_multipliers := en_multipliers e @ st_multipliers s,
                 en_triggers := en_triggers e @ st_triggers s\<rparr>
      in init_loop ss (snd (MultiplyAndPush (st_defaults s) 0 False emptyEvent e1)))"

definition engine_Init :: "'w engine \<Rightarrow> 'w engine" where
  "engine_Init e = (let e1 = engine_Reset e in init_loop (en_strategies e1) e1)"

fun push_defaults_loop :: "(string \<times> strategy) list \<Rightarrow> 'w engine \<Rightarrow> 'w engine" where
  "push_defaults_loop [] e = e"
| "push_defaults_loop ((k, s) # ss) e =
     push_defaults_loop ss (snd (MultiplyAndPush (st_defaults s) 0 False emptyEvent e))"

definition PushDefaultActions :: "'w engine \<Rightarrow> 'w engine" where
  "PushDefaultActions e = push_defaults_loop (en_strategies e) e"

text \<open>The body of the first loop of \<^verbatim>\<open>ProcessTriggers\<close> for a node that is not null.\<close>

definition process_trigger :: "'w bot_env \<Rightarrow> trigger_node \<Rightarrow> 'w engine \<Rightarrow> 'w engine" where
  "process_trigger env node e =
     (let t = tn_name node in
      if \<not> be_knows_trigger env t then e
      else let (check, e1) =
             (if en_testMode e then (True, e)
              else let (b, n) = needCheck (be_interval env t) (om_at 0 (en_ticks e) t)
                   in (b, e\<lparr>en_ticks := om_put t n (en_ticks e)\<rparr>))
           in if \<not> check then e1
              else let (ev, w) = be_Check env t (en_world e1); e2 = e1\<lparr>en_world := w\<rparr>
                   in if ev_source ev = [] then e2
                      else snd (MultiplyAndPush (trigger_getHandlers env node w) 0 False ev e2))"

fun trigger_loop :: "'w bot_env \<Rightarrow> trigger_node option list \<Rightarrow> 'w engine \<Rightarrow> 'w engine" where
  "trigger_loop env [] e = e"
| "trigger_loop env (None # ts) e = trigger_loop env ts e"
| "trigger_loop env (Some node # ts) e = trigger_loop env ts (process_trigger env node e)"

text \<open>The second loop has no check for a null node: \<open>None\<close> is its null dereference.\<close>

fun reset_loop :: "'w bot_env \<Rightarrow> trigger_node option list \<Rightarrow> 'w engine \<Rightarrow> 'w engine option" where
  "reset_loop env [] e = Some e"
| "reset_loop env (None # ts) e = None"
| "reset_loop env (Some node # ts) e =
     reset_loop env ts
       (if be_knows_trigger env (tn_name node)
        then e\<lparr>en_world := be_trigger_Reset env (tn_name node) (en_world e)\<rparr> else e)"

definition ProcessTriggers :: "'w bot_env \<Rightarrow> 'w engine \<Rightarrow> 'w engine option" where
  "ProcessTriggers env e = (let e1 = trigger_loop env (en_triggers e) e in reset_loop env (en_triggers e1) e1)"

section \<open>One decision\<close>

fun multiplier_loop :: "'w bot_env \<Rightarrow> string list \<Rightarrow> string \<Rightarrow> rat \<Rightarrow> 'w \<Rightarrow> rat \<times> 'w" where
  "multiplier_loop env [] a relevance w = (relevance, w)"
| "multiplier_loop env (m # ms) a relevance w =
     (let (v, w') = be_multiplier env m a w; relevance' = be_mul env relevance v
      in if relevance' = 0 then (relevance', w') else multiplier_loop env ms a relevance' w')"

text \<open>
  The body of the loop of \<^verbatim>\<open>DoNextAction\<close> for the basket that was popped; the first
  component says that an action was executed and the loop is left.
\<close>

definition engine_step :: "'w bot_env \<Rightarrow> basket \<Rightarrow> 'w engine \<Rightarrow> bool \<times> 'w engine" where
  "engine_step env b e =
     (let node = bk_node b; a = an_name node; ev = bk_event b in
      if \<not> be_knows_action env a then (False, e)
      else let (useful, w1) = be_isUseful env a (en_world e) in
        if \<not> useful then (False, e\<lparr>en_world := w1, en_lastRelevance := bk_relevance b\<rparr>)
        else let (relevance, w2) = multiplier_loop env (en_multipliers e) a (bk_relevance b) w1;
                 (possible, w3) = be_isPossible env a w2;
                 e3 = e\<lparr>en_world := w3\<rparr> in
          if possible \<and> relevance \<noteq> 0
          then let (pushed, e4) =
                 (if bk_skip b then (False, e3)
                  else MultiplyAndPush (node_getPrerequisites env node w3) (be_add env relevance (1 / 50)) False ev e3)
               in if pushed then (False, PushAgain node (be_add env relevance (1 / 100)) ev e4)
                  else let (executed, e5) = ListenAndExecute env a ev e4 in
                    if executed
                    then (True, (snd (MultiplyAndPush (node_getContinuers env node (en_world e5)) 0 False ev e5))
                                  \<lparr>en_lastRelevance := relevance\<rparr>)
                    else (False, snd (MultiplyAndPush (node_getAlternatives env node (en_world e5))
                                  (be_add env relevance (3 / 100)) False ev e5))
          else (False, snd (MultiplyAndPush (node_getAlternatives env node w3)
                         (be_add env relevance (3 / 100)) False ev e3)))"

text \<open>
  The loop: \<open>n\<close> is how many baskets may still be taken.  The result is whether an
  action was executed, whether the queue was found empty, and the state.
\<close>

fun tick_loop :: "'w bot_env \<Rightarrow> nat \<Rightarrow> 'w engine \<Rightarrow> bool \<times> bool \<times> 'w engine" where
  "tick_loop env n e =
     (case queue_Peek (en_queue e) of
        None \<Rightarrow> (False, True, e)
      | Some b \<Rightarrow>
          (case n of
             0 \<Rightarrow> (False, False, e)
           | Suc n' \<Rightarrow>
               let (executed, e') = engine_step env b (e\<lparr>en_queue := snd (queue_Pop (en_queue e))\<rparr>)
               in if executed then (True, False, e') else tick_loop env n' e'))"

declare tick_loop.simps [simp del]

function DoNextAction :: "'w bot_env \<Rightarrow> nat \<Rightarrow> 'w engine \<Rightarrow> (bool \<times> 'w engine) option" where
  "DoNextAction env depth e =
     (case ProcessTriggers env (e\<lparr>en_world := be_context_Update env (en_world e)\<rparr>) of
        None \<Rightarrow> None
      | Some e1 \<Rightarrow>
          (let (executed, empty, e2) =
             tick_loop env (nat (queue_Size (en_queue e1) * be_iterationsPerTick env)) e1
           in if \<not> empty then Some (executed, e2)
              else let e3 = PushDefaultActions (e2\<lparr>en_lastRelevance := 0\<rparr>)
                   in if queue_Peek (en_queue e3) \<noteq> None \<and> depth < 2
                      then DoNextAction env (depth + 1) e3
                      else Some (executed, e3)))"
  by pat_completeness auto
termination
  by (relation "measure (\<lambda>(_, depth, _). 2 - depth)") auto

declare DoNextAction.simps [simp del]

datatype ActionResult = ACTION_RESULT_UNKNOWN | ACTION_RESULT_OK | ACTION_RESULT_IMPOSSIBLE
  | ACTION_RESULT_USELESS | ACTION_RESULT_FAILED

text \<open>\<^verbatim>\<open>ExecuteAction\<close> pushes the continuers of the action itself, not those of the node.\<close>

definition ExecuteAction :: "'w bot_env \<Rightarrow> string \<Rightarrow> 'w engine \<Rightarrow> ActionResult \<times> 'w engine" where
  "ExecuteAction env name e =
     (let a = an_name (CreateActionNode (en_strategies e) name) in
      if \<not> be_knows_action env a then (ACTION_RESULT_UNKNOWN, e)
      else let (possible, w1) = be_isPossible env a (en_world e) in
        if \<not> possible then (ACTION_RESULT_IMPOSSIBLE, e\<lparr>en_world := w1\<rparr>)
        else let (useful, w2) = be_isUseful env a w1 in
          if \<not> useful then (ACTION_RESULT_USELESS, e\<lparr>en_world := w2\<rparr>)
          else let (result, e3) = ListenAndExecute env a emptyEvent (e\<lparr>en_world := w2\<rparr>);
                   e4 = snd (MultiplyAndPush (be_continuers env a (en_world e3)) 0 False emptyEvent e3)
               in (if result then ACTION_RESULT_OK else ACTION_RESULT_FAILED, e4))"

section \<open>Changing strategies\<close>

definition HasStrategy :: "string \<Rightarrow> 'w engine \<Rightarrow> bool" where
  "HasStrategy name e \<longleftrightarrow> om_find (en_strategies e) name \<noteq> None"

definition removeStrategy :: "string \<Rightarrow> 'w engine \<Rightarrow> bool \<times> 'w engine" where
  "removeStrategy name e =
     (case om_find (en_strategies e) name of
        None \<Rightarrow> (False, e)
      | Some s \<Rightarrow> (True, engine_Init (e\<lparr>en_strategies := om_erase name (en_strategies e)\<rparr>)))"

definition addStrategy :: "'w bot_env \<Rightarrow> string \<Rightarrow> 'w engine \<Rightarrow> 'w engine" where
  "addStrategy env name e =
     (let e1 = snd (removeStrategy name e);
          e2 = (case be_GetStrategy env name of
                  None \<Rightarrow> e1
                | Some s \<Rightarrow>
                    (let e' = fold (\<lambda>n x. snd (removeStrategy n x)) (be_GetSiblingStrategy env name) e1
                     in e'\<lparr>en_strategies := om_put (st_name s) s (en_strategies e')\<rparr>))
      in engine_Init e2)"

definition addStrategies :: "'w bot_env \<Rightarrow> string list \<Rightarrow> 'w engine \<Rightarrow> 'w engine" where
  "addStrategies env names e = fold (addStrategy env) names e"

definition removeAllStrategies :: "'w engine \<Rightarrow> 'w engine" where
  "removeAllStrategies e = engine_Init (e\<lparr>en_strategies := []\<rparr>)"

definition toggleStrategy :: "'w bot_env \<Rightarrow> string \<Rightarrow> 'w engine \<Rightarrow> 'w engine" where
  "toggleStrategy env name e =
     (let (removed, e1) = removeStrategy name e in if removed then e1 else addStrategy env name e1)"

definition ContainsStrategy :: "uint32 \<Rightarrow> 'w engine \<Rightarrow> bool" where
  "ContainsStrategy type e \<longleftrightarrow> (\<exists>s\<in>set (map snd (en_strategies e)). has_bits (st_type s) type)"

definition ListStrategies :: "'w engine \<Rightarrow> string" where
  "ListStrategies e =
     (let s = ''Strategies: '' in
      if en_strategies e = [] then s
      else let t = s @ concat (map (\<lambda>(k, _). k @ '', '') (en_strategies e)) in take (length t - 2) t)"

text \<open>The commands of \<^verbatim>\<open>ChangeStrategy\<close>; the first component is what the master is told.\<close>

fun change_loop :: "'w bot_env \<Rightarrow> string list \<Rightarrow> 'w engine \<Rightarrow> string list \<times> 'w engine" where
  "change_loop env [] e = ([], e)"
| "change_loop env ([] # names) e = change_loop env names e"
| "change_loop env ((c # name) # names) e =
     (if c = CHR ''+'' then change_loop env names (addStrategy env name e)
      else if c = CHR ''-'' then change_loop env names (snd (removeStrategy name e))
      else if c = CHR ''~'' then change_loop env names (toggleStrategy env name e)
      else if c = CHR ''?'' then
        (let (out, e') = change_loop env names e in (ListStrategies e # out, e'))
      else change_loop env names e)"

definition ChangeStrategy :: "'w bot_env \<Rightarrow> string \<Rightarrow> 'w engine \<Rightarrow> string list \<times> 'w engine" where
  "ChangeStrategy env names e = change_loop env (split_str names (CHR '','')) e"

section \<open>The passive multiplier and custom strategies\<close>

definition allowedActions :: "string list" where
  "allowedActions = [''co'', ''nc'', ''reset ai'', ''check mount state'']"

definition allowedParts :: "string list" where
  "allowedParts = [''follow'', ''stay'', ''chat shortcut'']"

definition PassiveMultiplier_GetValue :: "string \<Rightarrow> rat" where
  "PassiveMultiplier_GetValue name =
     (if name \<in> set allowedActions then 1
      else if \<exists>part\<in>set allowedParts. str_find part name \<noteq> None then 1 else 0)"

text \<open>
  The line format of custom strategies; \<open>atof\<close> is the C library's conversion.  An
  array ends at its first null entry.
\<close>

definition toNextAction :: "(string \<Rightarrow> rat) \<Rightarrow> string \<Rightarrow> next_action option" where
  "toNextAction atof action =
     (case split_str action (CHR ''|'') of
        [name, relevance] \<Rightarrow> Some \<lparr>na_name = name, na_relevance = atof relevance\<rparr>
      | [name] \<Rightarrow> Some \<lparr>na_name = name, na_relevance = 10\<rparr>
      | _ \<Rightarrow> None)"

definition toNextActionArray :: "(string \<Rightarrow> rat) \<Rightarrow> string \<Rightarrow> next_action list" where
  "toNextActionArray atof actions =
     map the (takeWhile (\<lambda>x. x \<noteq> None) (map (toNextAction atof) (split_str actions (CHR '',''))))"

definition toTriggerNode :: "(string \<Rightarrow> rat) \<Rightarrow> string \<Rightarrow> trigger_node option" where
  "toTriggerNode atof actionLine =
     (case split_str actionLine (CHR ''>'') of
        [name, actions] \<Rightarrow> Some \<lparr>tn_name = name, tn_handlers = toNextActionArray atof actions\<rparr>
      | _ \<Rightarrow> None)"

definition CustomStrategy_triggers :: "(string \<Rightarrow> rat) \<Rightarrow> string list \<Rightarrow> trigger_node option list" where
  "CustomStrategy_triggers atof actionLines = map (toTriggerNode atof) actionLines"

section \<open>Frames and invariants\<close>

text \<open>Pushing next actions is pushing these baskets, and changes nothing but the queue.\<close>

definition next_baskets :: "(string, strategy) stdmap \<Rightarrow> rat \<Rightarrow> bool \<Rightarrow> bot_event \<Rightarrow> next_action list \<Rightarrow> basket list" where
  "next_baskets ss forceRelevance skip ev acts =
     map (\<lambda>a. \<lparr>bk_node = CreateActionNode ss (na_name a),
               bk_relevance = (if forceRelevance > 0 then forceRelevance else na_relevance a),
               bk_skip = skip, bk_event = ev\<rparr>)
       (filter (\<lambda>a. forceRelevance > 0 \<or> na_relevance a > 0) (take 10 acts))"

lemma next_baskets_pos: "b \<in> set (next_baskets ss f s ev acts) \<Longrightarrow> 0 < bk_relevance b"
  by (auto simp: next_baskets_def)

lemma MultiplyAndPush_eq:
  "MultiplyAndPush acts f s ev e =
     (next_baskets (en_strategies e) f s ev acts \<noteq> [],
      e\<lparr>en_queue := fold queue_Push (next_baskets (en_strategies e) f s ev acts) (en_queue e)\<rparr>)"
proof -
  have "push_loop f s ev xs p e =
     (p \<or> filter (\<lambda>a. f > 0 \<or> na_relevance a > 0) xs \<noteq> [],
      e\<lparr>en_queue := fold queue_Push
        (map (\<lambda>a. \<lparr>bk_node = CreateActionNode (en_strategies e) (na_name a),
               bk_relevance = (if f > 0 then f else na_relevance a), bk_skip = s, bk_event = ev\<rparr>)
          (filter (\<lambda>a. f > 0 \<or> na_relevance a > 0) xs)) (en_queue e)\<rparr>)" for xs p
    by (induction f s ev xs p e rule: push_loop.induct) (simp_all add: Let_def)
  then show ?thesis by (simp add: MultiplyAndPush_def next_baskets_def)
qed

lemma MultiplyAndPush_frame [simp]:
  "en_triggers (snd (MultiplyAndPush acts f s ev e)) = en_triggers e"
  "en_multipliers (snd (MultiplyAndPush acts f s ev e)) = en_multipliers e"
  "en_strategies (snd (MultiplyAndPush acts f s ev e)) = en_strategies e"
  "en_testMode (snd (MultiplyAndPush acts f s ev e)) = en_testMode e"
  "en_world (snd (MultiplyAndPush acts f s ev e)) = en_world e"
  by (simp_all add: MultiplyAndPush_eq)

lemma MultiplyAndPush_ok [simp, inv_intros]:
  "queue_ok (en_queue e) \<Longrightarrow> queue_ok (en_queue (snd (MultiplyAndPush acts f s ev e)))"
  unfolding MultiplyAndPush_eq by (simp add: rq.push_all_ok next_baskets_pos)

lemma PushAgain_ok [simp, inv_intros]: "queue_ok (en_queue e) \<Longrightarrow> queue_ok (en_queue (PushAgain n r ev e))"
  by (simp add: PushAgain_def)

lemma queue_drain_ok: "queue_ok q \<Longrightarrow> queue_drain q = []"
proof (induction q rule: queue_drain.induct)
  case (1 q)
  show ?case
  proof (cases "queue_Peek q")
    case None
    then show ?thesis using queue_Peek_None [OF 1(2)] by (subst queue_drain.simps) (simp add: queue_Pop_def)
  next
    case (Some b)
    then have "queue_Pop q = (Some (bk_node b), remove1 b q)" by (simp add: queue_Pop_def)
    moreover have "queue_drain (remove1 b q) = []"
      using 1(1) [OF calculation [symmetric] refl] queue_ok_remove1 [OF 1(2)] by simp
    ultimately show ?thesis by (subst queue_drain.simps) simp
  qed
qed

lemma init_loop_frame [simp]: "en_strategies (init_loop ss e) = en_strategies e"
  by (induction ss e rule: init_loop.induct) (simp_all add: Let_def)

lemma init_loop_triggers: "en_triggers (init_loop ss e) = en_triggers e @ concat (map (\<lambda>(k, s). st_triggers s) ss)"
  by (induction ss e rule: init_loop.induct) (simp_all add: Let_def)

lemma init_loop_ok: "queue_ok (en_queue e) \<Longrightarrow> queue_ok (en_queue (init_loop ss e))"
  by (induction ss e rule: init_loop.induct) (simp_all add: Let_def)

lemma engine_Init_frame [simp]: "en_strategies (engine_Init e) = en_strategies e"
  by (simp add: engine_Init_def engine_Reset_def Let_def)

lemma engine_Init_triggers:
  "en_triggers (engine_Init e) = concat (map (\<lambda>(k, s). st_triggers s) (en_strategies e))"
  by (simp add: engine_Init_def engine_Reset_def Let_def init_loop_triggers)

lemma engine_Init_ok [simp, inv_intros]: "queue_ok (en_queue e) \<Longrightarrow> queue_ok (en_queue (engine_Init e))"
  by (simp add: engine_Init_def engine_Reset_def Let_def init_loop_ok queue_drain_ok)

lemma removeStrategy_strategies: "en_strategies (snd (removeStrategy n e)) = om_erase n (en_strategies e)"
  by (auto simp: removeStrategy_def om_find_None_iff split: option.splits)

lemma removeStrategies_strategies:
  "en_strategies (fold (\<lambda>n x. snd (removeStrategy n x)) ns e) = fold om_erase ns (en_strategies e)"
  by (induction ns arbitrary: e) (simp_all add: removeStrategy_strategies)

lemma om_keys_erase_all: "om_keys (fold om_erase ns m) = om_keys m - set ns"
  by (induction ns arbitrary: m) auto

lemma addStrategy_strategies:
  "en_strategies (addStrategy env n e) =
     (case be_GetStrategy env n of
        None \<Rightarrow> om_erase n (en_strategies e)
      | Some s \<Rightarrow> om_put (st_name s) s (fold om_erase (be_GetSiblingStrategy env n) (om_erase n (en_strategies e))))"
  by (auto simp: addStrategy_def Let_def removeStrategy_strategies removeStrategies_strategies split: option.splits)

lemma push_defaults_ok: "queue_ok (en_queue e) \<Longrightarrow> queue_ok (en_queue (push_defaults_loop ss e))"
  by (induction ss e rule: push_defaults_loop.induct) simp_all

lemma process_trigger_frame:
  "en_triggers (process_trigger env n e) = en_triggers e"
  "queue_ok (en_queue e) \<Longrightarrow> queue_ok (en_queue (process_trigger env n e))"
  by (auto simp: process_trigger_def Let_def split: prod.splits)

lemma trigger_loop_frame:
  "en_triggers (trigger_loop env ts e) = en_triggers e"
  "queue_ok (en_queue e) \<Longrightarrow> queue_ok (en_queue (trigger_loop env ts e))"
  by (induction env ts e rule: trigger_loop.induct) (simp_all add: process_trigger_frame)

lemma reset_loop_None: "reset_loop env ts e = None \<longleftrightarrow> None \<in> set ts"
  by (induction env ts e rule: reset_loop.induct) auto

lemma reset_loop_ok: "reset_loop env ts e = Some e' \<Longrightarrow> en_queue e' = en_queue e"
  by (induction env ts e rule: reset_loop.induct) (auto split: if_splits)

lemma ProcessTriggers_None: "ProcessTriggers env e = None \<longleftrightarrow> None \<in> set (en_triggers e)"
  by (simp add: ProcessTriggers_def Let_def reset_loop_None trigger_loop_frame)

lemma ProcessTriggers_ok:
  "ProcessTriggers env e = Some e' \<Longrightarrow> queue_ok (en_queue e) \<Longrightarrow> queue_ok (en_queue e')"
  by (auto simp: ProcessTriggers_def Let_def trigger_loop_frame dest!: reset_loop_ok)

text \<open>Actions that keep the queue's invariant: they reach the engine through its operations.\<close>

definition execute_keeps_queue :: "'w bot_env \<Rightarrow> bool" where
  "execute_keeps_queue env \<longleftrightarrow>
     (\<forall>a ev e. queue_ok (en_queue e) \<longrightarrow> queue_ok (en_queue (snd (be_Execute env a ev e))))"

lemma ListenAndExecute_ok:
  assumes "execute_keeps_queue env" and "queue_ok (en_queue e)"
  shows "queue_ok (en_queue (snd (ListenAndExecute env a ev e)))"
proof -
  obtain before w1 where 1: "listeners_all (\<lambda>l. be_Before env l a ev) (en_listeners e) True (en_world e) = (before, w1)"
    by fastforce
  let ?e1 = "e\<lparr>en_world := w1\<rparr>"
  obtain allow w2 where 2: "listeners_all (\<lambda>l. be_AllowExecution env l a ev) (en_listeners e) True w1 = (allow, w2)"
    by fastforce
  let ?e' = "e\<lparr>en_world := w2\<rparr>"
  obtain x e2 where 3: "(if before then (if allow then be_Execute env a ev ?e' else (True, ?e')) else (False, ?e1)) = (x, e2)"
    by fastforce
  have "queue_ok (en_queue (snd (be_Execute env a ev ?e')))"
    using assms by (simp add: execute_keeps_queue_def)
  then have ok2: "queue_ok (en_queue e2)" using 3 assms(2) by (auto split: if_splits)
  obtain r w3 where 4: "listeners_Override (\<lambda>l r. be_OverrideResult env l a r ev) (en_listeners e2) x (en_world e2) = (r, w3)"
    by fastforce
  have "ListenAndExecute env a ev e =
      (r, e2\<lparr>en_world := listeners_After (\<lambda>l. be_After env l a r ev) (en_listeners e2) w3\<rparr>)"
    using 3 4 by (cases before; cases allow) (auto simp: ListenAndExecute_def Let_def 1 2)
  then show ?thesis using ok2 by simp
qed

lemma engine_step_ok:
  assumes "execute_keeps_queue env" and "queue_ok (en_queue e)"
  shows "queue_ok (en_queue (snd (engine_step env b e)))"
proof -
  obtain useful w1 where u: "be_isUseful env (bk_name b) (en_world e) = (useful, w1)" by fastforce
  obtain r w2 where m: "multiplier_loop env (en_multipliers e) (bk_name b) (bk_relevance b) w1 = (r, w2)" by fastforce
  obtain possible w3 where p: "be_isPossible env (bk_name b) w2 = (possible, w3)" by fastforce
  let ?e3 = "e\<lparr>en_world := w3\<rparr>"
  have ok3: "queue_ok (en_queue ?e3)" using assms(2) by simp
  obtain pushed e4 where pre: "(if bk_skip b then (False, ?e3)
      else MultiplyAndPush (node_getPrerequisites env (bk_node b) w3) (be_add env r (1 / 50)) False (bk_event b) ?e3) = (pushed, e4)"
    by fastforce
  then have ok4: "queue_ok (en_queue e4)"
    using ok3 MultiplyAndPush_ok [OF ok3] by (metis snd_conv)
  obtain x e5 where l: "ListenAndExecute env (bk_name b) (bk_event b) e4 = (x, e5)" by fastforce
  have ok5: "queue_ok (en_queue e5)" using ListenAndExecute_ok [OF assms(1) ok4, of "bk_name b" "bk_event b"] l by simp
  show ?thesis
    using assms(2) ok3 ok4 ok5 by (simp add: engine_step_def Let_def u m p pre l)
qed

lemma tick_loop_ok:
  assumes "execute_keeps_queue env" and "queue_ok (en_queue e)"
  shows "queue_ok (en_queue (snd (snd (tick_loop env n e))))"
  using assms(2)
proof (induction n arbitrary: e)
  case 0
  then show ?case by (subst tick_loop.simps) (simp split: option.splits)
next
  case (Suc n)
  show ?case
  proof (cases "queue_Peek (en_queue e)")
    case None
    then show ?thesis using Suc by (subst tick_loop.simps) simp
  next
    case (Some b)
    let ?e = "e\<lparr>en_queue := snd (queue_Pop (en_queue e))\<rparr>"
    have "queue_ok (en_queue ?e)" using Suc.prems queue_ok_remove1 by (simp add: queue_Pop_def Some)
    then have "queue_ok (en_queue (snd (engine_step env b ?e)))" by (rule engine_step_ok [OF assms(1)])
    then show ?thesis using Suc.IH by (subst tick_loop.simps) (auto simp: Some Let_def split: prod.splits)
  qed
qed

lemma DoNextAction_ok:
  assumes "execute_keeps_queue env"
  shows "queue_ok (en_queue e) \<Longrightarrow> DoNextAction env d e = Some (x, e') \<Longrightarrow> queue_ok (en_queue e')"
proof (induction "2 - d" arbitrary: d e rule: less_induct)
  case less
  let ?u = "e\<lparr>en_world := be_context_Update env (en_world e)\<rparr>"
  obtain e1 where p: "ProcessTriggers env ?u = Some e1"
    using less.prems(2) by (subst (asm) DoNextAction.simps) (auto split: option.splits)
  have ok1: "queue_ok (en_queue e1)" using ProcessTriggers_ok [OF p] less.prems(1) by simp
  let ?n = "nat (queue_Size (en_queue e1) * be_iterationsPerTick env)"
  obtain y empty e2 where l: "tick_loop env ?n e1 = (y, empty, e2)" by (metis surj_pair)
  have ok2: "queue_ok (en_queue e2)" using tick_loop_ok [OF assms ok1, of ?n] l by simp
  let ?e3 = "PushDefaultActions (e2\<lparr>en_lastRelevance := 0\<rparr>)"
  have ok3: "queue_ok (en_queue ?e3)" using ok2 by (simp add: PushDefaultActions_def push_defaults_ok)
  have d: "DoNextAction env d e =
      (if \<not> empty then Some (y, e2)
       else if queue_Peek (en_queue ?e3) \<noteq> None \<and> d < 2 then DoNextAction env (d + 1) ?e3 else Some (y, ?e3))"
    by (subst DoNextAction.simps) (simp add: p l Let_def)
  show ?case
  proof (cases "empty \<and> queue_Peek (en_queue ?e3) \<noteq> None \<and> d < 2")
    case True
    then have "DoNextAction env (d + 1) ?e3 = Some (x, e')" using d less.prems(2) by simp
    moreover have "2 - (d + 1) < 2 - d" using True by arith
    ultimately show ?thesis using less.hyps [of "d + 1" ?e3] ok3 by blast
  next
    case False
    then have "e' = e2 \<or> e' = ?e3" using d less.prems(2) by (auto split: if_splits)
    then show ?thesis using ok2 ok3 by auto
  qed
qed

text \<open>A multiplier that answers zero makes the product zero.\<close>

lemma multiplier_loop_zero:
  assumes "\<And>r. be_mul env r 0 = 0" and "m \<in> set ms" and "\<And>w. fst (be_multiplier env m a w) = 0"
  shows "fst (multiplier_loop env ms a r w) = 0"
  using assms(2)
proof (induction ms arbitrary: r w)
  case (Cons k ms)
  obtain v w' where k: "be_multiplier env k a w = (v, w')" by fastforce
  show ?case
  proof (cases "k = m")
    case True
    then have "v = 0" using assms(3) [of w] k by simp
    then show ?thesis using assms(1) k by (simp add: Let_def)
  next
    case False
    then show ?thesis using Cons k by (simp add: Let_def)
  qed
qed simp

lemma multiplier_loop_env:
  "multiplier_loop (env\<lparr>be_Execute := f\<rparr>) ms a r w = multiplier_loop env ms a r w"
proof (induction ms arbitrary: r w)
  case (Cons m ms)
  obtain v w' where "be_multiplier env m a w = (v, w')" by fastforce
  then show ?case using Cons by (simp add: Let_def)
qed simp

section \<open>Reachable sets of strategies\<close>

text \<open>
  The commands that change the strategies; everything else leaves them alone.  A
  name is added that the strategy is filed under (a name with a \<open>::\<close> qualifier can
  resolve to a strategy of another name, whose siblings are then not looked up).
\<close>

definition own_name :: "'w bot_env \<Rightarrow> string \<Rightarrow> bool" where
  "own_name env n \<longleftrightarrow> (case be_GetStrategy env n of None \<Rightarrow> True | Some s \<Rightarrow> st_name s = n)"

inductive engine_reachable :: "'w bot_env \<Rightarrow> 'w engine \<Rightarrow> bool" for env where
  er_init: "engine_reachable env (engine_init w)"
| er_add: "engine_reachable env e \<Longrightarrow> own_name env n \<Longrightarrow> engine_reachable env (addStrategy env n e)"
| er_remove: "engine_reachable env e \<Longrightarrow> engine_reachable env (snd (removeStrategy n e))"
| er_removeAll: "engine_reachable env e \<Longrightarrow> engine_reachable env (removeAllStrategies e)"
| er_other: "engine_reachable env e \<Longrightarrow> en_strategies e' = en_strategies e \<Longrightarrow> engine_reachable env e'"

lemma er_toggle:
  assumes r: "engine_reachable env e" and o: "own_name env n"
  shows "engine_reachable env (toggleStrategy env n e)"
proof -
  obtain b e1 where rm: "removeStrategy n e = (b, e1)" by fastforce
  then have "engine_reachable env e1" using er_remove [OF r, of n] by simp
  then show ?thesis using er_add [OF _ o, of e1] by (simp add: toggleStrategy_def rm)
qed

lemma er_change:
  "\<forall>c\<in>set names. own_name env (tl c) \<Longrightarrow> engine_reachable env e \<Longrightarrow>
     engine_reachable env (snd (change_loop env names e))"
  by (induction env names e rule: change_loop.induct)
    (auto simp: er_add er_remove er_toggle split: prod.split)

definition strategies_exclusive :: "'w bot_env \<Rightarrow> 'w engine \<Rightarrow> bool" where
  "strategies_exclusive env e \<longleftrightarrow>
     (\<forall>a\<in>om_keys (en_strategies e). \<forall>b\<in>om_keys (en_strategies e). b \<notin> set (be_GetSiblingStrategy env a))"

lemma exclusive_init: "strategies_exclusive env (engine_init w)"
  by (simp add: strategies_exclusive_def engine_init_def)

lemma exclusive_mono:
  "strategies_exclusive env e \<Longrightarrow> om_keys (en_strategies e') \<subseteq> om_keys (en_strategies e) \<Longrightarrow> strategies_exclusive env e'"
  by (auto simp: strategies_exclusive_def)

lemma exclusive_add:
  assumes "sibling_disjoint (be_strategies env)"
    and "own_name env n"
    and "strategies_exclusive env e"
  shows "strategies_exclusive env (addStrategy env n e)"
proof (cases "be_GetStrategy env n")
  case None
  then show ?thesis
    using exclusive_mono [OF assms(3)] by (simp add: addStrategy_strategies Diff_subset)
next
  case (Some s)
  let ?sib = "\<lambda>a. set (be_GetSiblingStrategy env a)"
  have sym: "b \<in> ?sib a \<Longrightarrow> a \<in> ?sib b" for a b
    using siblings_sym [OF assms(1)] by (simp add: be_GetSiblingStrategy_def)
  have irr: "a \<notin> ?sib a" for a
    using siblings_supported [of a "be_strategies env" a] by (auto simp: be_GetSiblingStrategy_def)
  have keys: "om_keys (en_strategies (addStrategy env n e)) = insert n (om_keys (en_strategies e) - {n} - ?sib n)"
    using assms(2) by (simp add: own_name_def addStrategy_strategies Some om_keys_erase_all)
  show ?thesis
    using assms(3) sym irr unfolding strategies_exclusive_def keys by blast
qed

section \<open>An environment for examples\<close>

text \<open>Every action exists, is useful and possible, and succeeds without changing anything.\<close>

definition sample_env :: "strategy named_context list \<Rightarrow> unit bot_env" where
  "sample_env cs = \<lparr>be_add = (+), be_mul = (*), be_iterationsPerTick = 10, be_strategies = cs,
     be_knows_trigger = (\<lambda>_. True), be_interval = (\<lambda>_. 1), be_Check = (\<lambda>_ w. (emptyEvent, w)),
     be_handlers = (\<lambda>_ _. []), be_trigger_Reset = (\<lambda>_ w. w), be_knows_action = (\<lambda>_. True),
     be_isUseful = (\<lambda>_ w. (True, w)), be_isPossible = (\<lambda>_ w. (True, w)), be_prerequisites = (\<lambda>_ _. []),
     be_alternatives = (\<lambda>_ _. []), be_continuers = (\<lambda>_ _. []),
     be_multiplier = (\<lambda>m a w. (if m = ''passive'' then PassiveMultiplier_GetValue a else 1, w)),
     be_Execute = (\<lambda>_ _ e. (True, e)), be_Before = (\<lambda>_ _ _ w. (True, w)),
     be_AllowExecution = (\<lambda>_ _ _ w. (True, w)), be_After = (\<lambda>_ _ _ _ w. w),
     be_OverrideResult = (\<lambda>_ _ r _ w. (r, w)), be_context_Update = (\<lambda>w. w)\<rparr>"

lemma sample_env_keeps: "execute_keeps_queue (sample_env cs)"
  by (simp add: execute_keeps_queue_def sample_env_def)

definition plain_node :: "string \<Rightarrow> action_node" where
  "plain_node n = \<lparr>an_name = n, an_prerequisites = [], an_alternatives = [], an_continuers = []\<rparr>"

section \<open>Properties\<close>

text \<open>C17: The next action a bot takes from its queue is the first one of maximal relevance; the
  others keep their order, and nothing is lost: a queue with a basket is never
  reported empty.\<close>

theorem queue_Pop_best:
  assumes "queue_ok q" and "q \<noteq> []"
  shows "\<exists>xs b ys. q = xs @ b # ys \<and> queue_Peek q = Some b \<and> queue_Pop q = (Some (bk_node b), xs @ ys) \<and>
    (\<forall>c\<in>set xs. bk_relevance c < bk_relevance b) \<and> (\<forall>c\<in>set ys. bk_relevance c \<le> bk_relevance b)"
proof -
  obtain b where b: "queue_Peek q = Some b" using queue_Peek_None [OF assms(1)] assms(2) by auto
  then obtain xs ys where q: "q = xs @ b # ys" and less: "\<forall>c\<in>set xs. bk_relevance c < bk_relevance b"
    using queue_select_first [of q "- 1" None b] by (auto simp: queue_Peek_def)
  have "b \<notin> set xs" using less by auto
  then have "queue_Pop q = (Some (bk_node b), xs @ ys)" using b q by (simp add: queue_Pop_def remove1_append)
  moreover have "\<forall>c\<in>set ys. bk_relevance c \<le> bk_relevance b" using queue_Peek_Some [OF b] q by simp
  ultimately show ?thesis using q b less by blast
qed

lemma queue_Pop_best_witness:
  "\<exists>xs (b :: basket) ys q. queue_Pop q = (Some (bk_node b), xs @ ys) \<and> bk_relevance b = 2 \<and> length q = 3"
proof -
  let ?b = "\<lambda>n r. \<lparr>bk_node = \<lparr>an_name = n, an_prerequisites = [], an_alternatives = [], an_continuers = []\<rparr>,
     bk_relevance = r, bk_skip = False, bk_event = emptyEvent\<rparr>"
  define q where "q = [?b ''a'' 1, ?b ''b'' 2, ?b ''c'' 2]"
  have "queue_ok q" "q \<noteq> []" by (simp_all add: queue_ok_def q_def)
  from queue_Pop_best [OF this] obtain xs b ys where
    *: "queue_Peek q = Some b" "queue_Pop q = (Some (bk_node b), xs @ ys)" by blast
  have "bk_relevance b = 2" using *(1) by (auto simp: queue_Peek_def q_def)
  moreover have "length q = 3" by (simp add: q_def)
  ultimately show ?thesis using *(2) by blast
qed

text \<open>A tick of the engine keeps the queue's invariant whatever triggers, listeners
  and multipliers answer: at most one basket per action name and only positive
  relevances, provided the executed actions themselves keep it.\<close>

theorem DoNextAction_queue:
  assumes "execute_keeps_queue env" and "queue_ok (en_queue e)" and "DoNextAction env depth e = Some (executed, e')"
  shows "distinct (map bk_name (en_queue e')) \<and> (\<forall>b\<in>set (en_queue e'). 0 < bk_relevance b)"
  using DoNextAction_ok [OF assms] by (simp add: queue_ok_def)

lemma DoNextAction_queue_witness:
  "\<exists>e'. DoNextAction (sample_env []) 0 (engine_init ()) = Some (False, e') \<and>
     distinct (map bk_name (en_queue e'))"
proof -
  have d: "DoNextAction (sample_env []) 0 (engine_init ()) =
      Some (False, (engine_init ())\<lparr>en_lastRelevance := 0\<rparr>)"
    by (subst DoNextAction.simps, subst tick_loop.simps)
      (simp add: sample_env_def engine_init_def ProcessTriggers_def queue_Peek_def PushDefaultActions_def Let_def)
  have "queue_ok (en_queue (engine_init ()))" by (simp add: engine_init_def)
  from DoNextAction_queue [OF sample_env_keeps this d] d show ?thesis by simp
qed

text \<open>C20: An action with prerequisites is not executed when it is taken first.  Each of its prerequisites (the
  first ten) is put into the queue with at least its relevance plus 0.02, or raised to it; the action goes
  back with its relevance plus 0.01, strictly below all of them; no other basket changes and none is lost; and the next
  basket taken is another action.  (The sums with 0.01 and 0.02 must round to different positive values,
  the action must not be its own prerequisite, nor be queued already.)\<close>

theorem prerequisites_first:
  assumes "queue_ok (en_queue e)" and "\<not> bk_skip b" and "be_knows_action env (bk_name b)"
    and "be_isUseful env (bk_name b) (en_world e) = (True, w1)"
    and "multiplier_loop env (en_multipliers e) (bk_name b) (bk_relevance b) w1 = (r, w2)" and "r \<noteq> 0"
    and "be_isPossible env (bk_name b) w2 = (True, w3)"
    and "node_getPrerequisites env (bk_node b) w3 \<noteq> []"
    and "0 < be_add env r (1 / 100)" and "be_add env r (1 / 100) < be_add env r (1 / 50)"
    and "queue_rel (en_queue e) (bk_name b) = None"
    and "an_name (CreateActionNode (en_strategies e) (bk_name b)) = bk_name b"
    and "bk_name b \<notin> set (map (\<lambda>p. an_name (CreateActionNode (en_strategies e) (na_name p)))
           (take 10 (node_getPrerequisites env (bk_node b) w3)))"
  shows "let first = map (\<lambda>p. an_name (CreateActionNode (en_strategies e) (na_name p))) (take 10 (node_getPrerequisites env (bk_node b) w3))
    in \<exists>q'. engine_step env b e = (False, e\<lparr>en_world := w3, en_queue := q'\<rparr>) \<and>
      queue_rel q' (bk_name b) = Some (be_add env r (1 / 100)) \<and>
      (\<forall>n\<in>set first. \<exists>k\<ge>be_add env r (1 / 50). queue_rel q' n = Some k) \<and>
      (\<forall>n. n \<noteq> bk_name b \<longrightarrow> n \<notin> set first \<longrightarrow> queue_rel q' n = queue_rel (en_queue e) n) \<and>
      (\<forall>n k. queue_rel (en_queue e) n = Some k \<longrightarrow> (\<exists>k'\<ge>k. queue_rel q' n = Some k')) \<and>
      (\<exists>c. queue_Peek q' = Some c \<and> bk_name c \<noteq> bk_name b)"
proof -
  let ?pre = "node_getPrerequisites env (bk_node b) w3" and ?a = "bk_name b" and ?ss = "en_strategies e"
  let ?bs = "next_baskets ?ss (be_add env r (1 / 50)) False (bk_event b) ?pre"
  let ?again = "\<lparr>bk_node = CreateActionNode ?ss ?a, bk_relevance = be_add env r (1 / 100),
     bk_skip = True, bk_event = bk_event b\<rparr>"
  let ?q1 = "fold queue_Push ?bs (en_queue e)" and ?e4 = "(e\<lparr>en_world := w3\<rparr>)\<lparr>en_queue := fold queue_Push ?bs (en_queue e)\<rparr>"
  let ?e' = "PushAgain (bk_node b) (be_add env r (1 / 100)) (bk_event b) ?e4"
  have pos: "0 < be_add env r (1 / 50)" using assms(9,10) by simp
  obtain p ps where pp: "?pre = p # ps" using assms(8) by (cases ?pre) auto
  have ne: "?bs \<noteq> []" by (simp add: next_baskets_def pp pos)
  have push: "MultiplyAndPush ?pre (be_add env r (1 / 50)) False (bk_event b) (e\<lparr>en_world := w3\<rparr>) = (True, ?e4)"
    using ne by (simp add: MultiplyAndPush_eq)
  have step: "engine_step env b e = (False, ?e')"
    using assms(2-7) by (simp add: engine_step_def Let_def push)
  have e': "?e' = ?e4\<lparr>en_queue := queue_Push ?again ?q1\<rparr>"
    using assms(9) by (simp add: PushAgain_def MultiplyAndPush_eq next_baskets_def)
  have posb: "\<forall>c\<in>set ?bs. 0 < bk_relevance c" by (simp add: next_baskets_pos)
  have ok1: "queue_ok ?q1" by (rule rq.push_all_ok [OF assms(1) posb])
  have other: "\<forall>c\<in>set ?bs. bk_name c \<noteq> ?a"
    using assms(13) by (auto simp: next_baskets_def image_iff)
  have a1: "queue_rel ?q1 ?a = None" using rq.push_all_other [OF assms(1) posb other] assms(11) by simp
  let ?q2 = "queue_Push ?again ?q1"
  have ok2: "queue_ok ?q2" using queue_Push_ok [OF ok1] assms(9) by simp
  have a2: "queue_rel ?q2 ?a = Some (be_add env r (1 / 100))" using a1 assms(12) by (simp add: queue_rel_Push)
  obtain c0 where c0: "c0 \<in> set ?bs" "bk_relevance c0 = be_add env r (1 / 50)"
  proof -
    assume *: "\<And>c0. c0 \<in> set ?bs \<Longrightarrow> bk_relevance c0 = be_add env r (1 / 50) \<Longrightarrow> thesis"
    show thesis by (rule * [of "hd ?bs"]) (use pos in \<open>simp_all add: next_baskets_def pp\<close>)
  qed
  from rq.push_all_rel [OF assms(1) posb c0(1)] obtain s where
    s: "be_add env r (1 / 50) \<le> s" "queue_rel ?q1 (bk_name c0) = Some s" using c0(2) by auto
  have s2: "queue_rel ?q2 (bk_name c0) = Some s" using s(2) other c0(1) assms(12) by (simp add: queue_rel_Push)
  have "?q2 \<noteq> []" using a2 by auto
  then obtain c where c: "queue_Peek ?q2 = Some c" using queue_Peek_None [OF ok2] by auto
  have top: "bk_name c \<noteq> ?a"
    using rq.pop_not_lower [OF ok2 a2 s2 _, of c "snd (queue_Pop ?q2)"] s(1) assms(10) c
    by (simp add: queue_take_def)
  let ?first = "map (\<lambda>p. an_name (CreateActionNode ?ss (na_name p))) (take 10 ?pre)"
  have frame: "queue_rel ?q2 n = queue_rel ?q1 n" if "n \<noteq> ?a" for n using that assms(12) by (simp add: queue_rel_Push)
  have names: "set ?first = bk_name ` set ?bs" by (auto simp: next_baskets_def pos image_iff)
  have raised: "\<exists>k\<ge>be_add env r (1 / 50). queue_rel ?q2 n = Some k" if m: "n \<in> set ?first" for n
  proof -
    obtain d where d: "d \<in> set ?bs" "n = bk_name d" using m unfolding names by blast
    have "bk_relevance d = be_add env r (1 / 50)" using d(1) pos by (auto simp: next_baskets_def)
    then show ?thesis using rq.push_all_rel [OF assms(1) posb d(1)] frame [of n] other d by auto
  qed
  have rest: "queue_rel ?q2 n = queue_rel (en_queue e) n" if "n \<noteq> ?a" "n \<notin> set ?first" for n
  proof -
    have "\<forall>d\<in>set ?bs. bk_name d \<noteq> n" using that(2) unfolding names by blast
    then show ?thesis using rq.push_all_other [OF assms(1) posb, of n] frame [OF that(1)] by simp
  qed
  have kept: "\<exists>k'\<ge>k. queue_rel ?q2 n = Some k'" if "queue_rel (en_queue e) n = Some k" for n k
    using rq.push_all_grows [OF assms(1) posb that] frame [of n] that assms(11) by (cases "n = ?a") auto
  have e'': "?e' = e\<lparr>en_world := w3, en_queue := ?q2\<rparr>" unfolding e' by simp
  show ?thesis unfolding Let_def using step a2 raised rest kept c top unfolding e''
    by (intro exI [of _ ?q2] conjI ballI allI impI exI [of _ c]) blast+
qed

lemma prerequisites_first_witness:
  "\<exists>q'. engine_step ((sample_env [])\<lparr>be_prerequisites := \<lambda>a _. if a = ''heal'' then
        [\<lparr>na_name = ''reach'', na_relevance = 0\<rparr>, \<lparr>na_name = ''stand'', na_relevance = 1\<rparr>] else []\<rparr>)
      \<lparr>bk_node = plain_node ''heal'', bk_relevance = 5, bk_skip = False, bk_event = emptyEvent\<rparr> (engine_init ()) =
      (False, (engine_init ())\<lparr>en_queue := q'\<rparr>) \<and>
    queue_rel q' ''heal'' = Some (5 + 1 / 100) \<and> queue_rel q' ''reach'' \<noteq> None \<and> queue_rel q' ''stand'' \<noteq> None \<and>
    queue_rel q' ''eat'' = None"
proof -
  let ?pre = "[\<lparr>na_name = ''reach'', na_relevance = 0\<rparr>, \<lparr>na_name = ''stand'', na_relevance = 1\<rparr>]"
  let ?env = "(sample_env [])\<lparr>be_prerequisites := \<lambda>a _. if a = ''heal'' then ?pre else []\<rparr>"
  let ?b = "\<lparr>bk_node = plain_node ''heal'', bk_relevance = 5, bk_skip = False, bk_event = emptyEvent\<rparr>"
  have pre: "node_getPrerequisites ?env (plain_node ''heal'') w = ?pre" for w
    by (simp add: node_getPrerequisites_def plain_node_def NextAction_merge_def NextAction_clone_def NextAction_size_def)
  have h: "queue_ok (en_queue (engine_init ()))" "\<not> bk_skip ?b" "be_knows_action ?env (bk_name ?b)"
    "be_isUseful ?env (bk_name ?b) (en_world (engine_init ())) = (True, ())"
    "multiplier_loop ?env (en_multipliers (engine_init ())) (bk_name ?b) (bk_relevance ?b) () = (5, ())" "(5 :: rat) \<noteq> 0"
    "be_isPossible ?env (bk_name ?b) () = (True, ())" "node_getPrerequisites ?env (bk_node ?b) () \<noteq> []"
    "0 < be_add ?env 5 (1 / 100)" "be_add ?env 5 (1 / 100) < be_add ?env 5 (1 / 50)"
    "queue_rel (en_queue (engine_init ())) (bk_name ?b) = None"
    "an_name (CreateActionNode (en_strategies (engine_init ())) (bk_name ?b)) = bk_name ?b"
    "bk_name ?b \<notin> set (map (\<lambda>p. an_name (CreateActionNode (en_strategies (engine_init ())) (na_name p)))
       (take 10 (node_getPrerequisites ?env (bk_node ?b) ())))"
    by (simp_all add: pre) (simp_all add: sample_env_def plain_node_def engine_init_def)
  from prerequisites_first [OF h] show ?thesis
    by (auto simp: Let_def pre) (auto simp: sample_env_def plain_node_def engine_init_def)
qed

text \<open>While the passive multiplier is in force, an action that is neither on the list of
  allowed actions nor named after an allowed part is never executed: deciding on it
  gives the same result whatever executing it would do.\<close>

theorem passive_never_executes:
  assumes "''passive'' \<in> set (en_multipliers e)"
    and "\<And>w. be_multiplier env ''passive'' (bk_name b) w = (PassiveMultiplier_GetValue (bk_name b), w)"
    and "\<And>r. be_mul env r 0 = 0"
    and "bk_name b \<notin> set allowedActions"
    and "\<And>part. part \<in> set allowedParts \<Longrightarrow> \<not> sublist part (bk_name b)"
  shows "\<not> fst (engine_step env b e) \<and> engine_step (env\<lparr>be_Execute := f\<rparr>) b e = engine_step env b e"
proof -
  have "str_find part (bk_name b) = None" if "part \<in> set allowedParts" for part
    using assms(5) [OF that] by (simp add: str_find_None)
  then have "PassiveMultiplier_GetValue (bk_name b) = 0"
    using assms(4) by (simp add: PassiveMultiplier_GetValue_def)
  then have z: "fst (multiplier_loop env (en_multipliers e) (bk_name b) r w) = 0" for r w
    by (intro multiplier_loop_zero [OF assms(3) assms(1)]) (simp add: assms(2))
  obtain useful w1 where u: "be_isUseful env (bk_name b) (en_world e) = (useful, w1)" by fastforce
  obtain w2 where m: "multiplier_loop env (en_multipliers e) (bk_name b) (bk_relevance b) w1 = (0, w2)"
    using z by (metis prod.collapse)
  have "\<not> fst (engine_step env b e)"
    by (cases useful; cases "be_isPossible env (bk_name b) w2") (simp_all add: engine_step_def Let_def u m)
  moreover have "engine_step (env\<lparr>be_Execute := f\<rparr>) b e = engine_step env b e"
    by (cases useful; cases "be_isPossible env (bk_name b) w2")
      (simp_all add: engine_step_def Let_def u m multiplier_loop_env node_getAlternatives_def)
  ultimately show ?thesis ..
qed

lemma passive_never_executes_witness:
  "\<not> fst (engine_step (sample_env []) \<lparr>bk_node = plain_node ''melee'', bk_relevance = 5, bk_skip = False, bk_event = emptyEvent\<rparr>
     ((engine_init ())\<lparr>en_multipliers := [''passive'']\<rparr>))"
proof -
  have "\<not> sublist part ''melee''" if "part \<in> set allowedParts" for part
    using that unfolding str_find_None [symmetric] by (auto simp: allowedParts_def)
  then show ?thesis
    by (intro passive_never_executes [THEN conjunct1]) (simp_all add: sample_env_def plain_node_def allowedActions_def)
qed

text \<open>However strategies are added, removed and toggled, a bot never follows two strategies
  of the same sibling group (two movement strategies, say) at the same time, as
  long as strategies are added by the name they are filed under and no name belongs
  to two groups.\<close>

theorem no_sibling_strategies:
  assumes "engine_reachable env e"
    and "sibling_disjoint (be_strategies env)"
    and "HasStrategy a e" and "HasStrategy b e"
  shows "b \<notin> set (be_GetSiblingStrategy env a)"
proof -
  have "strategies_exclusive env e" using assms(1)
  proof (induction rule: engine_reachable.induct)
    case (er_init w)
    show ?case by (rule exclusive_init)
  next
    case (er_add e n)
    show ?case by (rule exclusive_add [OF assms(2) er_add(2,3)])
  next
    case (er_remove e n)
    show ?case using exclusive_mono [OF er_remove(2)] by (auto simp: removeStrategy_strategies)
  next
    case (er_removeAll e)
    show ?case using exclusive_mono [OF er_removeAll(2)] by (simp add: removeAllStrategies_def)
  next
    case (er_other e e')
    then show ?case using exclusive_mono [of env e e'] by simp
  qed
  then show ?thesis using assms(3,4) by (simp add: strategies_exclusive_def HasStrategy_def om_find_keys)
qed

lemma no_sibling_strategies_witness:
  "\<not> HasStrategy ''follow'' (addStrategy (sample_env [\<lparr>nc_creators =
      [(''follow'', Some (\<lambda>_. Some \<lparr>st_name = ''follow'', st_type = 0, st_defaults = [], st_triggers = [],
          st_multipliers = [], st_factories = []\<rparr>)),
       (''stay'', Some (\<lambda>_. Some \<lparr>st_name = ''stay'', st_type = 0, st_defaults = [], st_triggers = [],
          st_multipliers = [], st_factories = []\<rparr>))],
      nc_created = [], nc_shared = False, nc_siblings = True\<rparr>]) ''stay''
     (addStrategy (sample_env [\<lparr>nc_creators =
      [(''follow'', Some (\<lambda>_. Some \<lparr>st_name = ''follow'', st_type = 0, st_defaults = [], st_triggers = [],
          st_multipliers = [], st_factories = []\<rparr>)),
       (''stay'', Some (\<lambda>_. Some \<lparr>st_name = ''stay'', st_type = 0, st_defaults = [], st_triggers = [],
          st_multipliers = [], st_factories = []\<rparr>))],
      nc_created = [], nc_shared = False, nc_siblings = True\<rparr>]) ''follow'' (engine_init ())))"
  (is "\<not> HasStrategy _ (addStrategy ?env _ (addStrategy _ _ ?e0))")
proof -
  let ?e = "addStrategy ?env ''stay'' (addStrategy ?env ''follow'' ?e0)"
  have g: "\<exists>s. be_GetStrategy ?env ''stay'' = Some s \<and> st_name s = ''stay''"
    "\<exists>s. be_GetStrategy ?env ''follow'' = Some s \<and> st_name s = ''follow''"
    by (simp_all add: be_GetStrategy_def sample_env_def context_create_def factory_create_def split_name_def Let_def)
  then have o: "own_name ?env ''stay''" "own_name ?env ''follow''" by (auto simp: own_name_def)
  have r: "engine_reachable ?env ?e" by (intro er_add er_init o)
  have d: "sibling_disjoint (be_strategies ?env)"
    by (simp add: sibling_disjoint_def sample_env_def factory_supports_def)
  have h: "HasStrategy ''stay'' ?e" using g(1) by (auto simp: HasStrategy_def addStrategy_strategies)
  have s: "''follow'' \<in> set (be_GetSiblingStrategy ?env ''stay'')"
    by (simp add: be_GetSiblingStrategy_def sample_env_def factory_supports_def)
  show ?thesis using no_sibling_strategies [OF r d h, of "''follow''"] s by blast
qed

text \<open>A custom strategy with a malformed line (not exactly one \<open>>\<close> between two items) takes
  the bot down: after it is added, every tick dereferences the null trigger node its
  line was turned into.\<close>

theorem malformed_custom_line_crashes:
  assumes "be_GetStrategy env n = Some s" and "st_triggers s = CustomStrategy_triggers atof lines"
    and "line \<in> set lines" and "length (split_str line (CHR ''>'')) \<noteq> 2"
  shows "DoNextAction env depth (addStrategy env n e) = None"
proof -
  have "toTriggerNode atof line = None"
    using assms(4) by (auto simp: toTriggerNode_def split: list.splits)
  then have null: "None \<in> set (st_triggers s)"
    using assms(2,3) by (force simp: CustomStrategy_triggers_def)
  let ?e = "addStrategy env n e"
  have "om_find (en_strategies ?e) (st_name s) = Some s" by (simp add: addStrategy_strategies assms(1))
  then have "(st_name s, s) \<in> set (en_strategies ?e)" by (rule om_find_mem)
  moreover obtain e2 where "?e = engine_Init e2" by (simp add: addStrategy_def Let_def)
  ultimately have "None \<in> set (en_triggers ?e)" using null by (force simp: engine_Init_triggers)
  then show ?thesis by (subst DoNextAction.simps) (simp add: ProcessTriggers_None [THEN iffD2])
qed

lemma malformed_custom_line_crashes_witness:
  "DoNextAction (sample_env [\<lparr>nc_creators = [(''custom'', Some (\<lambda>q. Some \<lparr>st_name = ''custom'', st_type = 0,
      st_defaults = [], st_triggers = CustomStrategy_triggers (\<lambda>_. 1) [''often''], st_multipliers = [],
      st_factories = []\<rparr>))], nc_created = [], nc_shared = False, nc_siblings = False\<rparr>]) 0
    (addStrategy (sample_env [\<lparr>nc_creators = [(''custom'', Some (\<lambda>q. Some \<lparr>st_name = ''custom'', st_type = 0,
      st_defaults = [], st_triggers = CustomStrategy_triggers (\<lambda>_. 1) [''often''], st_multipliers = [],
      st_factories = []\<rparr>))], nc_created = [], nc_shared = False, nc_siblings = False\<rparr>]) ''custom''
      (engine_init ())) = None"
proof (rule malformed_custom_line_crashes [where line = "''often''" and lines = "[''often'']"])
  show "be_GetStrategy (sample_env [\<lparr>nc_creators = [(''custom'', Some (\<lambda>q. Some \<lparr>st_name = ''custom'', st_type = 0,
      st_defaults = [], st_triggers = CustomStrategy_triggers (\<lambda>_. 1) [''often''], st_multipliers = [],
      st_factories = []\<rparr>))], nc_created = [], nc_shared = False, nc_siblings = False\<rparr>]) ''custom'' =
    Some \<lparr>st_name = ''custom'', st_type = 0, st_defaults = [],
      st_triggers = CustomStrategy_triggers (\<lambda>_. 1) [''often''], st_multipliers = [], st_factories = []\<rparr>"
    by (simp add: be_GetStrategy_def sample_env_def context_create_def factory_create_def split_name_def Let_def)
  show "''often'' \<in> set [''often'']" by simp
qed (simp_all add: split_str_def)

end
