(* ===== verification/LfgData.thy ===== *)
theory LfgData
  imports ObjectGuid
begin

text \<open>
  Data of the dungeon finder, \<^verbatim>\<open>src/src/server/game/DungeonFinding\<close>: the enumerations of
  \<^verbatim>\<open>LFG.h\<close>, \<^verbatim>\<open>LFGQueue.h\<close> and \<^verbatim>\<open>LFGMgr.h\<close>, the data kept for a group
  (\<^verbatim>\<open>LFGGroupData.cpp\<close>) and for a player (\<^verbatim>\<open>LFGPlayerData.cpp\<close>), and the role assignment
  \<^verbatim>\<open>LFGMgr::CheckGroupRoles\<close>.
\<close>

section \<open>Enumerations\<close>

datatype LfgState = LFG_STATE_NONE | LFG_STATE_ROLECHECK | LFG_STATE_QUEUED | LFG_STATE_PROPOSAL
  | LFG_STATE_DUNGEON | LFG_STATE_FINISHED_DUNGEON | LFG_STATE_RAIDBROWSER

datatype LfgAnswer = LFG_ANSWER_PENDING | LFG_ANSWER_DENY | LFG_ANSWER_AGREE

text \<open>\<^verbatim>\<open>LfgAnswer(accept)\<close>\<close>

definition answer_of :: "bool \<Rightarrow> LfgAnswer" where
  "answer_of accept = (if accept then LFG_ANSWER_AGREE else LFG_ANSWER_DENY)"

datatype LfgProposalState = LFG_PROPOSAL_INITIATING | LFG_PROPOSAL_FAILED | LFG_PROPOSAL_SUCCESS

datatype LfgRoleCheckState = LFG_ROLECHECK_DEFAULT | LFG_ROLECHECK_FINISHED | LFG_ROLECHECK_INITIALITING
  | LFG_ROLECHECK_MISSING_ROLE | LFG_ROLECHECK_WRONG_ROLES | LFG_ROLECHECK_ABORTED | LFG_ROLECHECK_NO_ROLE

datatype LfgCompatibility = LFG_COMPATIBILITY_PENDING | LFG_INCOMPATIBLES_WRONG_GROUP_SIZE
  | LFG_INCOMPATIBLES_TOO_MUCH_PLAYERS | LFG_INCOMPATIBLES_MULTIPLE_LFG_GROUPS
  | LFG_INCOMPATIBLES_HAS_IGNORES | LFG_INCOMPATIBLES_NO_ROLES | LFG_INCOMPATIBLES_NO_DUNGEONS
  | LFG_COMPATIBLES_WITH_LESS_PLAYERS | LFG_COMPATIBLES_BAD_STATES | LFG_COMPATIBLES_MATCH

text \<open>The test \<^verbatim>\<open>c < LFG_COMPATIBLES_WITH_LESS_PLAYERS\<close> of the enumerators' order.\<close>

fun incompatible :: "LfgCompatibility \<Rightarrow> bool" where
  "incompatible LFG_COMPATIBLES_WITH_LESS_PLAYERS = False"
| "incompatible LFG_COMPATIBLES_BAD_STATES = False"
| "incompatible LFG_COMPATIBLES_MATCH = False"
| "incompatible _ = True"

abbreviation PLAYER_ROLE_NONE :: uint8 where "PLAYER_ROLE_NONE \<equiv> 0"
abbreviation PLAYER_ROLE_LEADER :: uint8 where "PLAYER_ROLE_LEADER \<equiv> 1"
abbreviation PLAYER_ROLE_TANK :: uint8 where "PLAYER_ROLE_TANK \<equiv> 2"
abbreviation PLAYER_ROLE_HEALER :: uint8 where "PLAYER_ROLE_HEALER \<equiv> 4"
abbreviation PLAYER_ROLE_DAMAGE :: uint8 where "PLAYER_ROLE_DAMAGE \<equiv> 8"
abbreviation LFG_TANKS_NEEDED :: uint8 where "LFG_TANKS_NEEDED \<equiv> 1"
abbreviation LFG_HEALERS_NEEDED :: uint8 where "LFG_HEALERS_NEEDED \<equiv> 1"
abbreviation LFG_DPS_NEEDED :: uint8 where "LFG_DPS_NEEDED \<equiv> 3"

text \<open>\<^verbatim>\<open>LfgRolesMap\<close>\<close>

type_synonym roles_map = "(guid, uint8) stdmap"

section \<open>Data of a group\<close>

record lfg_group_data =
  gd_state :: LfgState
  gd_oldState :: LfgState
  gd_leader :: guid
  gd_players :: "guid list"
  gd_dungeon :: uint32
  gd_kicksLeft :: uint8
  gd_voteKick :: bool

abbreviation LFG_GROUP_MAX_KICKS :: uint8 where "LFG_GROUP_MAX_KICKS \<equiv> 3"

definition gd_init :: lfg_group_data where
  "gd_init = \<lparr>gd_state = LFG_STATE_NONE, gd_oldState = LFG_STATE_NONE, gd_leader = 0, gd_players = [],
     gd_dungeon = 0, gd_kicksLeft = LFG_GROUP_MAX_KICKS, gd_voteKick = False\<rparr>"

definition gd_IsLfgGroup :: "lfg_group_data \<Rightarrow> bool" where
  "gd_IsLfgGroup d \<longleftrightarrow> gd_oldState d \<noteq> LFG_STATE_NONE"

fun gd_SetState :: "LfgState \<Rightarrow> lfg_group_data \<Rightarrow> lfg_group_data" where
  "gd_SetState LFG_STATE_NONE d =
     d\<lparr>gd_dungeon := 0, gd_kicksLeft := LFG_GROUP_MAX_KICKS, gd_oldState := LFG_STATE_NONE, gd_state := LFG_STATE_NONE\<rparr>"
| "gd_SetState LFG_STATE_FINISHED_DUNGEON d =
     d\<lparr>gd_oldState := LFG_STATE_FINISHED_DUNGEON, gd_state := LFG_STATE_FINISHED_DUNGEON\<rparr>"
| "gd_SetState LFG_STATE_DUNGEON d = d\<lparr>gd_oldState := LFG_STATE_DUNGEON, gd_state := LFG_STATE_DUNGEON\<rparr>"
| "gd_SetState state d = d\<lparr>gd_state := state\<rparr>"

definition gd_RestoreState :: "lfg_group_data \<Rightarrow> lfg_group_data" where
  "gd_RestoreState d = d\<lparr>gd_state := gd_oldState d\<rparr>"

definition gd_AddPlayer :: "guid \<Rightarrow> lfg_group_data \<Rightarrow> lfg_group_data" where
  "gd_AddPlayer g d = d\<lparr>gd_players := os_insert g (gd_players d)\<rparr>"

definition gd_RemovePlayer :: "guid \<Rightarrow> lfg_group_data \<Rightarrow> uint8 \<times> lfg_group_data" where
  "gd_RemovePlayer g d =
     (let d' = d\<lparr>gd_players := os_erase g (gd_players d)\<rparr> in (of_nat (length (gd_players d')), d'))"

definition gd_RemoveAllPlayers :: "lfg_group_data \<Rightarrow> lfg_group_data" where
  "gd_RemoveAllPlayers d = d\<lparr>gd_players := []\<rparr>"

definition gd_SetLeader :: "guid \<Rightarrow> lfg_group_data \<Rightarrow> lfg_group_data" where
  "gd_SetLeader g d = d\<lparr>gd_leader := g\<rparr>"

definition gd_SetDungeon :: "uint32 \<Rightarrow> lfg_group_data \<Rightarrow> lfg_group_data" where
  "gd_SetDungeon dg d = d\<lparr>gd_dungeon := dg\<rparr>"

definition gd_DecreaseKicksLeft :: "lfg_group_data \<Rightarrow> lfg_group_data" where
  "gd_DecreaseKicksLeft d = (if gd_kicksLeft d \<noteq> 0 then d\<lparr>gd_kicksLeft := gd_kicksLeft d - 1\<rparr> else d)"

definition gd_GetPlayerCount :: "lfg_group_data \<Rightarrow> uint8" where
  "gd_GetPlayerCount d = of_nat (length (gd_players d))"

definition gd_GetDungeon :: "bool \<Rightarrow> lfg_group_data \<Rightarrow> uint32" where
  "gd_GetDungeon asId d = (if asId then gd_dungeon d AND 0x00FFFFFF else gd_dungeon d)"

definition gd_SetVoteKick :: "bool \<Rightarrow> lfg_group_data \<Rightarrow> lfg_group_data" where
  "gd_SetVoteKick active d = d\<lparr>gd_voteKick := active\<rparr>"

section \<open>Data of a player\<close>

record lfg_player_data =
  pd_state :: LfgState
  pd_oldState :: LfgState
  pd_team :: uint8
  pd_group :: guid
  pd_roles :: uint8
  pd_comment :: string
  pd_dungeons :: "uint32 list"

definition pd_init :: lfg_player_data where
  "pd_init = \<lparr>pd_state = LFG_STATE_NONE, pd_oldState = LFG_STATE_NONE, pd_team = 0, pd_group = 0,
     pd_roles = 0, pd_comment = [], pd_dungeons = []\<rparr>"

fun pd_SetState :: "LfgState \<Rightarrow> lfg_player_data \<Rightarrow> lfg_player_data" where
  "pd_SetState LFG_STATE_NONE d = d\<lparr>pd_roles := 0, pd_dungeons := [], pd_comment := [],
     pd_oldState := LFG_STATE_NONE, pd_state := LFG_STATE_NONE\<rparr>"
| "pd_SetState LFG_STATE_FINISHED_DUNGEON d = d\<lparr>pd_roles := 0, pd_dungeons := [], pd_comment := [],
     pd_oldState := LFG_STATE_FINISHED_DUNGEON, pd_state := LFG_STATE_FINISHED_DUNGEON\<rparr>"
| "pd_SetState LFG_STATE_DUNGEON d = d\<lparr>pd_oldState := LFG_STATE_DUNGEON, pd_state := LFG_STATE_DUNGEON\<rparr>"
| "pd_SetState state d = d\<lparr>pd_state := state\<rparr>"

definition pd_RestoreState :: "lfg_player_data \<Rightarrow> lfg_player_data" where
  "pd_RestoreState d =
     (let d1 = (if pd_oldState d = LFG_STATE_NONE then d\<lparr>pd_dungeons := [], pd_roles := 0\<rparr> else d)
      in d1\<lparr>pd_state := pd_oldState d1\<rparr>)"

definition pd_SetTeam :: "uint8 \<Rightarrow> lfg_player_data \<Rightarrow> lfg_player_data" where
  "pd_SetTeam t d = d\<lparr>pd_team := t\<rparr>"

definition pd_SetGroup :: "guid \<Rightarrow> lfg_player_data \<Rightarrow> lfg_player_data" where
  "pd_SetGroup g d = d\<lparr>pd_group := g\<rparr>"

definition pd_SetRoles :: "uint8 \<Rightarrow> lfg_player_data \<Rightarrow> lfg_player_data" where
  "pd_SetRoles r d = d\<lparr>pd_roles := r\<rparr>"

definition pd_SetComment :: "string \<Rightarrow> lfg_player_data \<Rightarrow> lfg_player_data" where
  "pd_SetComment c d = d\<lparr>pd_comment := c\<rparr>"

definition pd_SetSelectedDungeons :: "uint32 list \<Rightarrow> lfg_player_data \<Rightarrow> lfg_player_data" where
  "pd_SetSelectedDungeons ds d = d\<lparr>pd_dungeons := ds\<rparr>"

section \<open>The contract of the two kinds of data\<close>

text \<open>
  Being out of the system, in a dungeon and in a finished dungeon are stable states;
  the others are passed through and can be rolled back.
\<close>

fun stable :: "LfgState \<Rightarrow> bool" where
  "stable LFG_STATE_NONE = True"
| "stable LFG_STATE_DUNGEON = True"
| "stable LFG_STATE_FINISHED_DUNGEON = True"
| "stable _ = False"

locale lfg_stateful =
  fixes set_state :: "LfgState \<Rightarrow> 'd \<Rightarrow> 'd"
    and restore :: "'d \<Rightarrow> 'd"
    and state :: "'d \<Rightarrow> LfgState"
    and old :: "'d \<Rightarrow> LfgState"
  assumes state_set: "state (set_state s d) = s"
    and old_set: "old (set_state s d) = (if stable s then s else old d)"
    and state_restore: "state (restore d) = old d"
    and old_restore: "old (restore d) = old d"
begin

lemma old_transient: "\<forall>s\<in>set ss. \<not> stable s \<Longrightarrow> old (fold set_state ss d) = old d"
  by (induction ss arbitrary: d) (simp_all add: old_set)

lemma rollback: "stable s \<Longrightarrow> \<forall>t\<in>set ss. \<not> stable t \<Longrightarrow> state (restore (fold set_state ss (set_state s d))) = s"
  by (simp add: state_restore old_transient old_set)

lemma restore_twice: "state (restore (restore d)) = state (restore d)"
  by (simp add: state_restore old_restore)

lemma old_stable: "stable (old d) \<Longrightarrow> stable (old (set_state s d))"
  by (simp add: old_set)

end

interpretation lfg_group: lfg_stateful gd_SetState gd_RestoreState gd_state gd_oldState
proof
  fix s d
  show "gd_state (gd_SetState s d) = s" by (cases s) simp_all
  show "gd_oldState (gd_SetState s d) = (if stable s then s else gd_oldState d)" by (cases s) simp_all
qed (simp_all add: gd_RestoreState_def)

interpretation lfg_player: lfg_stateful pd_SetState pd_RestoreState pd_state pd_oldState
proof
  fix s d
  show "pd_state (pd_SetState s d) = s" by (cases s) simp_all
  show "pd_oldState (pd_SetState s d) = (if stable s then s else pd_oldState d)" by (cases s) simp_all
qed (simp_all add: pd_RestoreState_def Let_def)

section \<open>Role assignment\<close>

text \<open>\<^verbatim>\<open>role & ~PLAYER_ROLE_LEADER\<close>\<close>

definition no_leader :: "uint8 \<Rightarrow> uint8" where
  "no_leader r = r AND NOT PLAYER_ROLE_LEADER"

text \<open>
  \<^verbatim>\<open>CheckGroupRoles\<close> works on the map in place and calls itself.  One role of one
  member: \<open>Inl\<close> is a return of the function, \<open>Inr\<close> goes on with the map and the
  counter of that role; \<open>rec\<close> is the recursive call.
\<close>

definition check_role :: "(roles_map \<Rightarrow> bool \<times> roles_map) \<Rightarrow> uint8 \<Rightarrow> uint8 \<Rightarrow> uint8 \<Rightarrow> guid
    \<Rightarrow> roles_map \<times> uint8 \<Rightarrow> (bool \<times> roles_map) + (roles_map \<times> uint8)" where
  "check_role rec R needed role k mc =
     (let (m, cnt) = mc in
      if has_bits role R
      then if role \<noteq> R
           then let (ok, m2) = rec (om_put k (om_at 0 m k - R) m)
                in if ok then Inl (True, m2) else Inr (om_put k (om_at 0 m2 k + R) m2, cnt)
           else if cnt = needed then Inl (False, m)
           else Inr (m, cnt + 1)
      else Inr (m, cnt))"

text \<open>The loop over the members, in the order of the map.\<close>

fun roles_loop :: "(roles_map \<Rightarrow> bool \<times> roles_map) \<Rightarrow> guid list \<Rightarrow> roles_map \<Rightarrow> uint8 \<Rightarrow> uint8 \<Rightarrow> uint8
    \<Rightarrow> bool \<times> roles_map" where
  "roles_loop rec [] m damage tank healer =
     (unat tank + unat healer + unat damage = length m mod 2 ^ 8, m)"
| "roles_loop rec (k # ks) m damage tank healer =
     (let role = no_leader (om_at 0 m k) in
      if role = PLAYER_ROLE_NONE then (False, m)
      else case check_role rec PLAYER_ROLE_DAMAGE LFG_DPS_NEEDED role k (m, damage) of
        Inl r \<Rightarrow> r
      | Inr (m1, damage') \<Rightarrow>
          (case check_role rec PLAYER_ROLE_HEALER LFG_HEALERS_NEEDED role k (m1, healer) of
             Inl r \<Rightarrow> r
           | Inr (m2, healer') \<Rightarrow>
               (case check_role rec PLAYER_ROLE_TANK LFG_TANKS_NEEDED role k (m2, tank) of
                  Inl r \<Rightarrow> r
                | Inr (m3, tank') \<Rightarrow> roles_loop rec ks m3 damage' tank' healer')))"

text \<open>The recursion, bounded by the number of role bits in the map: every call clears one.\<close>

fun check_roles_fuel :: "nat \<Rightarrow> roles_map \<Rightarrow> bool \<times> roles_map" where
  "check_roles_fuel 0 m = (False, m)"
| "check_roles_fuel (Suc n) m =
     (if m = [] then (False, m) else roles_loop (check_roles_fuel n) (map fst m) m 0 0 0)"

definition role_bits :: "uint8 \<Rightarrow> nat" where
  "role_bits w = length (filter (bit w) [0..<8])"

definition total_bits :: "roles_map \<Rightarrow> nat" where
  "total_bits m = sum_list (map (\<lambda>(k, r). role_bits r) m)"

definition CheckGroupRoles :: "roles_map \<Rightarrow> bool \<times> roles_map" where
  "CheckGroupRoles groles = check_roles_fuel (Suc (total_bits groles)) groles"

subsection \<open>Correctness\<close>

text \<open>The flags of the roles: bit 1 is the tank, 2 the healer, 3 the damage dealer.\<close>

definition role_flag :: "nat \<Rightarrow> uint8" where
  "role_flag i = push_bit i 1"

lemma role_flags: "PLAYER_ROLE_TANK = role_flag (Suc 0)" "PLAYER_ROLE_HEALER = role_flag 2" "PLAYER_ROLE_DAMAGE = role_flag 3"
  by (simp_all add: role_flag_def)

lemma bit_role_flag: "i < 8 \<Longrightarrow> bit (role_flag i) n \<longleftrightarrow> n = i"
  by (auto simp: role_flag_def bit_exp_iff)

lemma has_role_flag: "i < 8 \<Longrightarrow> has_bits r (role_flag i) \<longleftrightarrow> bit r i"
  by (auto simp: has_bits_iff bit_role_flag)

lemma bit_minus_flag:
  assumes "bit r i" and "i < 8"
  shows "bit (r - role_flag i) n \<longleftrightarrow> bit r n \<and> n \<noteq> i"
proof -
  have "NOT r AND role_flag i = 0"
    using assms by (intro bit_word_eqI) (auto simp: bit_simps bit_role_flag)
  then have "r - role_flag i = r AND NOT (role_flag i)" by (rule disjunctive_diff_eq_and_not)
  then show ?thesis using assms by (auto simp: bit_simps bit_role_flag dest: bit_imp_le_length)
qed

lemma bit_no_leader: "bit (no_leader r) n \<longleftrightarrow> 1 \<le> n \<and> bit r n" for r :: uint8
  by (auto simp: no_leader_def bit_and_iff bit_not_iff bit_1_iff dest: bit_imp_le_length)

lemma role_is_flag:
  assumes "1 \<le> i" and "i < 8"
  shows "no_leader r = role_flag i \<longleftrightarrow> (\<forall>n\<ge>1. bit r n \<longleftrightarrow> n = i)"
proof -
  have "no_leader r = role_flag i \<longleftrightarrow>
      (\<forall>n. bit (no_leader r) n \<longleftrightarrow> bit (role_flag i) n)"
    by (metis bit_word_eqI)
  then show ?thesis using assms unfolding bit_no_leader bit_role_flag [OF assms(2)] by auto
qed

lemma role_is_none: "no_leader r = PLAYER_ROLE_NONE \<longleftrightarrow> (\<forall>n\<ge>1. \<not> bit r n)" for r :: uint8
proof -
  have "no_leader r = PLAYER_ROLE_NONE \<longleftrightarrow> (\<forall>n. \<not> bit (no_leader r) n)"
    by (metis bit_word_eqI bit_0_eq bot_apply bot_bool_def)
  then show ?thesis unfolding bit_no_leader by blast
qed

lemma role_bits_minus:
  assumes "bit r i" and "i < 8"
  shows "role_bits (r - role_flag i) < role_bits r"
proof -
  have "role_bits w = card {n \<in> {0..<8}. bit w n}" for w
    by (simp add: role_bits_def distinct_length_filter Int_def conj_commute)
  moreover have "{n \<in> {0..<8}. bit (r - role_flag i) n} \<subset> {n \<in> {0..<8}. bit r n}"
    using assms by (auto simp: bit_minus_flag)
  ultimately show ?thesis by (simp add: psubset_card_mono)
qed

definition role_count :: "uint8 \<Rightarrow> roles_map \<Rightarrow> nat" where
  "role_count R m = length (filter (\<lambda>(k, r). no_leader r = R) m)"

definition single_role :: "uint8 \<Rightarrow> bool" where
  "single_role r \<longleftrightarrow> no_leader r \<in> {PLAYER_ROLE_TANK, PLAYER_ROLE_HEALER, PLAYER_ROLE_DAMAGE}"

definition valid_roles :: "roles_map \<Rightarrow> bool" where
  "valid_roles m \<longleftrightarrow> (\<forall>(k, r)\<in>set m. single_role r) \<and> role_count PLAYER_ROLE_TANK m \<le> 1 \<and>
     role_count PLAYER_ROLE_HEALER m \<le> 1 \<and> role_count PLAYER_ROLE_DAMAGE m \<le> 3"

definition refines_role :: "uint8 \<Rightarrow> uint8 \<Rightarrow> bool" where
  "refines_role r' r \<longleftrightarrow> (\<forall>n. bit r' n \<longrightarrow> bit r n) \<and> (bit r' 0 \<longleftrightarrow> bit r 0)"

definition refines_roles :: "roles_map \<Rightarrow> roles_map \<Rightarrow> bool" where
  "refines_roles m' m \<longleftrightarrow> list_all2 (\<lambda>(k', r') (k, r). k' = k \<and> refines_role r' r) m' m"

definition solvable :: "roles_map \<Rightarrow> bool" where
  "solvable m \<longleftrightarrow> (\<exists>m'. refines_roles m' m \<and> valid_roles m')"

definition clean_roles :: "roles_map \<Rightarrow> bool" where
  "clean_roles m \<longleftrightarrow> (\<forall>(k, r)\<in>set m. \<forall>n. bit r n \<longrightarrow> n < 4)"

lemma role_count_append [simp]: "role_count R (a @ b) = role_count R a + role_count R b"
  by (simp add: role_count_def)

lemma role_count_Cons [simp]:
  "role_count R ((k, r) # m) = (if no_leader r = R then Suc (role_count R m) else role_count R m)"
  by (simp add: role_count_def)

lemma role_count_Nil [simp]: "role_count R [] = 0"
  by (simp add: role_count_def)

lemma role_count_total:
  "role_count PLAYER_ROLE_TANK m + role_count PLAYER_ROLE_HEALER m + role_count PLAYER_ROLE_DAMAGE m \<le> length m \<and>
   (role_count PLAYER_ROLE_TANK m + role_count PLAYER_ROLE_HEALER m + role_count PLAYER_ROLE_DAMAGE m = length m \<longleftrightarrow>
     (\<forall>(k, r)\<in>set m. single_role r))"
proof (induction m)
  case (Cons p m)
  obtain k r where p: "p = (k, r)" by fastforce
  let ?x = "no_leader r"
  consider "?x = PLAYER_ROLE_TANK" | "?x = PLAYER_ROLE_HEALER" | "?x = PLAYER_ROLE_DAMAGE" | "\<not> single_role r"
    by (auto simp: single_role_def)
  then show ?case using Cons p by cases (auto simp: single_role_def)
qed simp

lemma refines_refl: "refines_roles m m"
  by (simp add: refines_roles_def refines_role_def list_all2_same case_prod_unfold)

lemma refines_split:
  assumes "refines_roles m' (pre @ (k, r) # suf)"
  obtains pre' r' suf' where "m' = pre' @ (k, r') # suf'" "refines_roles pre' pre" "refines_role r' r" "refines_roles suf' suf"
proof -
  obtain pre' rest where 1: "m' = pre' @ rest" "refines_roles pre' pre" "refines_roles rest ((k, r) # suf)"
    using assms by (auto simp: refines_roles_def list_all2_append2)
  from 1(3) obtain q suf' where 2: "rest = q # suf'" "refines_roles suf' suf"
    "(\<lambda>(k', r') (k, r). k' = k \<and> refines_role r' r) q (k, r)"
    by (auto simp: refines_roles_def list_all2_Cons2)
  then obtain r' where "q = (k, r')" "refines_role r' r" by (cases q) auto
  with 1 2 that show thesis by blast
qed

lemma refines_join:
  "refines_roles pre' pre \<Longrightarrow> refines_role r' r \<Longrightarrow> refines_roles suf' suf \<Longrightarrow>
     refines_roles (pre' @ (k, r') # suf') (pre @ (k, r) # suf)"
  by (auto simp: refines_roles_def intro: list_all2_appendI)

lemma refines_role_minus:
  assumes "bit r i" and "1 \<le> i" and "i < 8"
  shows "refines_role r' (r - role_flag i) \<longleftrightarrow> refines_role r' r \<and> \<not> bit r' i"
  using assms by (auto simp: refines_role_def bit_minus_flag)

lemma total_bits_minus:
  "bit r i \<Longrightarrow> i < 8 \<Longrightarrow> total_bits (pre @ (k, r - role_flag i) # suf) < total_bits (pre @ (k, r) # suf)"
  using role_bits_minus [of r i] by (simp add: total_bits_def)

lemma clean_minus:
  "bit r i \<Longrightarrow> i < 8 \<Longrightarrow> clean_roles (pre @ (k, r) # suf) \<Longrightarrow> clean_roles (pre @ (k, r - role_flag i) # suf)"
  by (auto simp: clean_roles_def bit_minus_flag)

text \<open>What a call on a map promises, and all calls on maps with fewer role bits.\<close>

definition roles_post :: "roles_map \<Rightarrow> bool \<times> roles_map \<Rightarrow> bool" where
  "roles_post m res \<longleftrightarrow>
     (if fst res then refines_roles (snd res) m \<and> valid_roles (snd res)
      else snd res = m \<and> (clean_roles m \<longrightarrow> m \<noteq> [] \<longrightarrow> \<not> solvable m))"

definition roles_spec :: "(roles_map \<Rightarrow> bool \<times> roles_map) \<Rightarrow> nat \<Rightarrow> bool" where
  "roles_spec rec N \<longleftrightarrow>
     (\<forall>m. om_ok m \<longrightarrow> length m < 256 \<longrightarrow> total_bits m < N \<longrightarrow> roles_post m (rec m))"

lemma check_role_cases:
  assumes "roles_spec rec (total_bits m)" and "om_ok m" and "length m < 256" and m: "m = pre @ (k, r) # suf"
    and i: "1 \<le> i" "i < 8"
  defines "role \<equiv> no_leader r"
  shows "(\<exists>m2. check_role rec (role_flag i) needed role k (m, cnt) = Inl (True, m2) \<and> refines_roles m2 m \<and> valid_roles m2) \<or>
    (role = role_flag i \<and> cnt = needed \<and> check_role rec (role_flag i) needed role k (m, cnt) = Inl (False, m)) \<or>
    (role = role_flag i \<and> cnt \<noteq> needed \<and> check_role rec (role_flag i) needed role k (m, cnt) = Inr (m, cnt + 1)) \<or>
    (role \<noteq> role_flag i \<and> check_role rec (role_flag i) needed role k (m, cnt) = Inr (m, cnt) \<and>
      (bit r i \<longrightarrow> clean_roles m \<longrightarrow> \<not> solvable (pre @ (k, r - role_flag i) # suf)))"
proof -
  have hb: "has_bits role (role_flag i) \<longleftrightarrow> bit r i"
    unfolding role_def has_role_flag [OF i(2)] bit_no_leader using i by simp
  have at: "om_at 0 m k = r" using om_find_present [of pre k r suf] assms(2) m by (simp add: om_at_def)
  show ?thesis
  proof (cases "role = role_flag i")
    case True
    then have "bit r i" using hb i by (simp add: has_role_flag bit_role_flag)
    then show ?thesis using True hb by (simp add: check_role_def)
  next
    case False
    show ?thesis
    proof (cases "bit r i")
      case no: False
      then show ?thesis using False hb by (simp add: check_role_def)
    next
      case yes: True
      let ?m1 = "pre @ (k, r - role_flag i) # suf"
      have put: "om_put k (r - role_flag i) m = ?m1" using assms(2) m by (simp add: om_put_present)
      have ok1: "om_ok ?m1" using om_ok_replace [of pre k r suf] assms(2) m by simp
      obtain ok m2 where rec: "rec ?m1 = (ok, m2)" by fastforce
      have "total_bits ?m1 < total_bits m" using total_bits_minus [OF yes i(2)] m by simp
      then have post: "roles_post ?m1 (ok, m2)" using assms(1,3) ok1 m rec by (auto simp: roles_spec_def)
      have res: "check_role rec (role_flag i) needed role k (m, cnt) =
          (if ok then Inl (True, m2) else Inr (om_put k (om_at 0 m2 k + role_flag i) m2, cnt))"
        using False hb yes by (simp add: check_role_def at put rec)
      show ?thesis
      proof (cases ok)
        case True
        then have r2: "refines_roles m2 ?m1" "valid_roles m2" using post by (simp_all add: roles_post_def)
        obtain pre' r' suf' where s: "m2 = pre' @ (k, r') # suf'" "refines_roles pre' pre"
          "refines_role r' (r - role_flag i)" "refines_roles suf' suf" by (rule refines_split [OF r2(1)])
        then have "refines_roles m2 m" using refines_join [OF s(2) _ s(4)] refines_role_minus [OF yes i] m by simp
        then show ?thesis using True res r2 by simp
      next
        case fail: False
        then have m2: "m2 = ?m1" and uns: "clean_roles ?m1 \<longrightarrow> \<not> solvable ?m1"
          using post by (auto simp: roles_post_def)
        have "om_at 0 ?m1 k = r - role_flag i" using om_find_present [OF ok1] by (simp add: om_at_def)
        then have "om_put k (om_at 0 m2 k + role_flag i) m2 = m"
          using m2 m om_put_present [OF ok1, of "r - role_flag i + role_flag i"] by simp
        moreover have "clean_roles m \<longrightarrow> \<not> solvable ?m1" using uns clean_minus [OF yes i(2)] m by blast
        ultimately show ?thesis using False fail res by simp
      qed
    qed
  qed
qed


lemma single_flags: "single_role r \<longleftrightarrow> (\<exists>i\<in>{Suc 0, 2, 3}. no_leader r = role_flag i)"
  by (simp add: single_role_def role_flags)

lemma refine_single:
  assumes "refines_role r' r" and "no_leader r = role_flag i" and "1 \<le> i" and "i < 8" and "single_role r'"
  shows "no_leader r' = role_flag i"
proof -
  obtain j where "j \<in> {Suc 0, 2, 3}" and j3: "no_leader r' = role_flag j"
    using assms(5) unfolding single_flags by blast
  then have j: "1 \<le> j" "j < 8" "no_leader r' = role_flag j" by auto
  have "bit r' j" using j role_is_flag [OF j(1,2)] by blast
  then have "bit r j" using assms(1) by (simp add: refines_role_def)
  then have "j = i" using role_is_flag [OF assms(3,4)] assms(2) j(1) by blast
  then show ?thesis using j(3) by simp
qed

lemma refines_count:
  assumes "1 \<le> i" and "i < 8"
  shows "refines_roles m' m \<Longrightarrow> \<forall>(k, r)\<in>set m'. single_role r \<Longrightarrow> role_count (role_flag i) m \<le> role_count (role_flag i) m'"
proof (induction m arbitrary: m')
  case (Cons p m)
  obtain k r where p: "p = (k, r)" by fastforce
  obtain r' n' where m': "m' = (k, r') # n'" "refines_role r' r" "refines_roles n' m"
    using Cons.prems(1) p by (auto simp: refines_roles_def list_all2_Cons2)
  have "role_count (role_flag i) m \<le> role_count (role_flag i) n'" using Cons.IH [OF m'(3)] Cons.prems(2) m'(1) by simp
  moreover have "no_leader r = role_flag i \<Longrightarrow> no_leader r' = role_flag i"
    using refine_single [OF m'(2) _ assms] Cons.prems(2) m'(1) by simp
  ultimately show ?case unfolding p m'(1) role_count_Cons by (simp split: if_splits)
qed simp

lemma too_many:
  assumes "1 \<le> i" and "i < 8"
    and "\<And>m'. valid_roles m' \<Longrightarrow> role_count (role_flag i) m' \<le> c"
    and "role_count (role_flag i) m > c"
  shows "\<not> solvable m"
proof
  assume "solvable m"
  then obtain m' where m': "refines_roles m' m" "valid_roles m'" by (auto simp: solvable_def)
  have "role_count (role_flag i) m \<le> role_count (role_flag i) m'"
    using refines_count [OF assms(1,2) m'(1)] m'(2) by (simp add: valid_roles_def)
  then show False using assms(3) [OF m'(2)] assms(4) by simp
qed

lemma valid_limits:
  "valid_roles m \<Longrightarrow> role_count (role_flag (Suc 0)) m \<le> 1"
  "valid_roles m \<Longrightarrow> role_count (role_flag 2) m \<le> 1"
  "valid_roles m \<Longrightarrow> role_count (role_flag 3) m \<le> 3"
  by (simp_all only: valid_roles_def role_flags)

text \<open>A member with several roles, none of which can be given up, makes the map unsolvable.\<close>

lemma stuck_member:
  assumes "clean_roles (pre @ (k, r) # suf)" and "\<not> single_role r"
    and "\<And>i. i \<in> {Suc 0, 2, 3} \<Longrightarrow> bit r i \<Longrightarrow> \<not> solvable (pre @ (k, r - role_flag i) # suf)"
  shows "\<not> solvable (pre @ (k, r) # suf)"
proof
  assume "solvable (pre @ (k, r) # suf)"
  then obtain m' where m': "refines_roles m' (pre @ (k, r) # suf)" "valid_roles m'" by (auto simp: solvable_def)
  obtain pre' r' suf' where s: "m' = pre' @ (k, r') # suf'" "refines_roles pre' pre" "refines_role r' r"
    "refines_roles suf' suf" by (rule refines_split [OF m'(1)])
  have "single_role r'" using m'(2) s(1) by (simp add: valid_roles_def)
  then obtain j where j: "j \<in> {Suc 0, 2, 3}" "no_leader r' = role_flag j" unfolding single_flags by blast
  moreover have "1 \<le> j" "j < 8" using j(1) by auto
  ultimately have bits: "\<And>n. 1 \<le> n \<Longrightarrow> bit r' n \<longleftrightarrow> n = j" using role_is_flag [of j r'] by blast
  have "\<exists>i\<in>{Suc 0, 2, 3}. i \<noteq> j \<and> bit r i"
  proof (rule ccontr)
    assume "\<not> (\<exists>i\<in>{Suc 0, 2, 3}. i \<noteq> j \<and> bit r i)"
    then have no: "i \<in> {Suc 0, 2, 3} \<Longrightarrow> i \<noteq> j \<Longrightarrow> \<not> bit r i" for i by blast
    have "bit r n \<longleftrightarrow> n = j" if "1 \<le> n" for n
    proof
      assume b: "bit r n"
      then have "n < 4" using assms(1) by (simp add: clean_roles_def)
      then have "n \<in> {Suc 0, 2, 3}" using that by auto
      then show "n = j" using no b by blast
    next
      assume "n = j"
      then show "bit r n" using bits [of j] s(3) j(1) that by (simp add: refines_role_def)
    qed
    moreover have "1 \<le> j" "j < 8" using j(1) by auto
    ultimately have "no_leader r = role_flag j" using role_is_flag [of j r] by blast
    then show False using assms(2) j(1) unfolding single_flags by blast
  qed
  then obtain i where i: "i \<in> {Suc 0, 2, 3}" "i \<noteq> j" "bit r i" by blast
  then have "\<not> bit r' i" using bits [of i] by auto
  then have "refines_role r' (r - role_flag i)" using refines_role_minus [OF i(3), of r'] s(3) i(1) by auto
  then have "refines_roles m' (pre @ (k, r - role_flag i) # suf)" using refines_join [OF s(2) _ s(4)] s(1) by simp
  then show False using assms(3) [OF i(1,3)] m'(2) by (auto simp: solvable_def)
qed

lemma uint8_of_nat_cmp:
  assumes "n \<le> c" and "c < 256"
  shows "(of_nat n :: uint8) = of_nat c \<longleftrightarrow> n = c"
proof
  have u: "unat (of_nat n :: uint8) = n" "unat (of_nat c :: uint8) = c"
    using assms by (simp_all add: unat_of_nat take_bit_eq_mod)
  assume "(of_nat n :: uint8) = of_nat c"
  then have "unat (of_nat n :: uint8) = unat (of_nat c :: uint8)" by simp
  then show "n = c" unfolding u .
qed simp


lemma check_role_outcome:
  assumes "roles_spec rec (total_bits m)" and "om_ok m" and "length m < 256" and m: "m = pre @ (k, r) # suf"
    and i: "1 \<le> i" "i < 8" and c: "cnt = of_nat (role_count (role_flag i) pre)" "role_count (role_flag i) pre \<le> c" "c < 255"
    and lim: "\<forall>m'. valid_roles m' \<longrightarrow> role_count (role_flag i) m' \<le> c"
  shows "(\<exists>res. check_role rec (role_flag i) (of_nat c) (no_leader r) k (m, cnt) = Inl res \<and> roles_post m res) \<or>
    (check_role rec (role_flag i) (of_nat c) (no_leader r) k (m, cnt) =
        Inr (m, of_nat (role_count (role_flag i) (pre @ [(k, r)]))) \<and>
      role_count (role_flag i) (pre @ [(k, r)]) \<le> c \<and>
      (no_leader r \<noteq> role_flag i \<longrightarrow> bit r i \<longrightarrow> clean_roles m \<longrightarrow> \<not> solvable (pre @ (k, r - role_flag i) # suf)))"
proof -
  let ?chk = "check_role rec (role_flag i) (of_nat c) (no_leader r) k (m, cnt)"
  have eq: "cnt = of_nat c \<longleftrightarrow> role_count (role_flag i) pre = c" unfolding c(1) using uint8_of_nat_cmp c(2,3) by simp
  consider (ok) m2 where "?chk = Inl (True, m2)" "refines_roles m2 m" "valid_roles m2"
    | (full) "no_leader r = role_flag i" "cnt = of_nat c" "?chk = Inl (False, m)"
    | (counted) "no_leader r = role_flag i" "cnt \<noteq> of_nat c" "?chk = Inr (m, cnt + 1)"
    | (other) "no_leader r \<noteq> role_flag i" "?chk = Inr (m, cnt)"
        "bit r i \<longrightarrow> clean_roles m \<longrightarrow> \<not> solvable (pre @ (k, r - role_flag i) # suf)"
    using check_role_cases [OF assms(1-4) i, of "of_nat c" cnt] by blast
  then show ?thesis
  proof cases
    case ok
    then show ?thesis by (simp add: roles_post_def)
  next
    case full
    then have "role_count (role_flag i) m > c" using eq m by simp
    then have "\<not> solvable m" using too_many [OF i, of c m] lim by blast
    then show ?thesis using full by (simp add: roles_post_def)
  next
    case counted
    then have "role_count (role_flag i) pre \<noteq> c" using eq by simp
    then show ?thesis using counted c by simp
  next
    case other
    then show ?thesis using c by simp
  qed
qed

lemma roles_loop_post:
  assumes "roles_spec rec (total_bits m)" and "om_ok m" and "length m < 256" and "m \<noteq> []"
  shows "m = pre @ suf \<Longrightarrow> (\<forall>(k, r)\<in>set pre. single_role r) \<or> (clean_roles m \<longrightarrow> \<not> solvable m) \<Longrightarrow>
    damage = of_nat (role_count PLAYER_ROLE_DAMAGE pre) \<Longrightarrow> role_count PLAYER_ROLE_DAMAGE pre \<le> 3 \<Longrightarrow>
    tank = of_nat (role_count PLAYER_ROLE_TANK pre) \<Longrightarrow> role_count PLAYER_ROLE_TANK pre \<le> 1 \<Longrightarrow>
    healer = of_nat (role_count PLAYER_ROLE_HEALER pre) \<Longrightarrow> role_count PLAYER_ROLE_HEALER pre \<le> 1 \<Longrightarrow>
    roles_post m (roles_loop rec (map fst suf) m damage tank healer)"
proof (induction suf arbitrary: pre damage tank healer)
  case Nil
  have len: "length m mod 2 ^ 8 = length pre" using Nil.prems(1) assms(3) by simp
  have u: "unat (of_nat n :: uint8) = n" if "n \<le> 3" for n :: nat
    using that by (simp add: unat_of_nat take_bit_eq_mod)
  have "unat tank + unat healer + unat damage =
      role_count PLAYER_ROLE_TANK pre + role_count PLAYER_ROLE_HEALER pre + role_count PLAYER_ROLE_DAMAGE pre"
    using Nil.prems(3-8) by (simp add: u)
  then have eq: "(unat tank + unat healer + unat damage = length m mod 2 ^ 8) = (\<forall>(k, r)\<in>set pre. single_role r)"
    using role_count_total [of pre] unfolding len by simp
  show ?case
  proof (cases "\<forall>(k, r)\<in>set pre. single_role r")
    case True
    then have "valid_roles m" using Nil.prems by (simp add: valid_roles_def)
    then show ?thesis using True eq refines_refl by (simp add: roles_post_def)
  next
    case False
    then have "clean_roles m \<longrightarrow> \<not> solvable m" using Nil.prems(2) by blast
    moreover have "roles_loop rec (map fst []) m damage tank healer = (False, m)" using eq False by simp
    ultimately show ?thesis by (simp add: roles_post_def)
  qed
next
  case (Cons p suf)
  obtain k r where p: "p = (k, r)" by fastforce
  have m: "m = pre @ (k, r) # suf" using Cons.prems(1) p by simp
  have at: "om_at 0 m k = r" using om_find_present [of pre k r suf] assms(2) m by (simp add: om_at_def)
  have lims: "\<forall>m'. valid_roles m' \<longrightarrow> role_count (role_flag 3) m' \<le> 3"
    "\<forall>m'. valid_roles m' \<longrightarrow> role_count (role_flag 2) m' \<le> 1"
    "\<forall>m'. valid_roles m' \<longrightarrow> role_count (role_flag (Suc 0)) m' \<le> 1"
    using valid_limits by blast+
  note out = check_role_outcome [OF assms(1-3) m]
  let ?pre = "pre @ [(k, r)]"
  have counts: "damage = of_nat (role_count (role_flag 3) pre)" "role_count (role_flag 3) pre \<le> 3"
    "healer = of_nat (role_count (role_flag 2) pre)" "role_count (role_flag 2) pre \<le> 1"
    "tank = of_nat (role_count (role_flag (Suc 0)) pre)" "role_count (role_flag (Suc 0)) pre \<le> 1"
    using Cons.prems unfolding role_flags by blast+
  note D = out [OF _ _ counts(1,2) _ lims(1)] and H = out [OF _ _ counts(3,4) _ lims(2)]
    and T = out [OF _ _ counts(5,6) _ lims(3)]
  have stuck: "clean_roles m \<longrightarrow> \<not> solvable m"
    if "\<not> single_role r" and "\<And>i. i \<in> {Suc 0, 2, 3} \<Longrightarrow> bit r i \<Longrightarrow> clean_roles m \<longrightarrow> \<not> solvable (pre @ (k, r - role_flag i) # suf)"
    using stuck_member [of pre k r suf] that m by blast
  show ?case
  proof (cases "no_leader r = PLAYER_ROLE_NONE")
    case True
    then have none: "\<not> bit r i" if "1 \<le> i" for i using role_is_none that by blast
    have "\<not> single_role r" using True by (simp add: single_role_def)
    then have "clean_roles m \<longrightarrow> \<not> solvable m" by (rule stuck) (use none in auto)
    then show ?thesis using True by (simp add: p at roles_post_def)
  next
    case False
    have loop: "roles_loop rec (map fst (p # suf)) m damage tank healer =
        (case check_role rec (role_flag 3) (of_nat 3) (no_leader r) k (m, damage) of
          Inl res \<Rightarrow> res
        | Inr (m1, damage') \<Rightarrow>
            (case check_role rec (role_flag 2) (of_nat 1) (no_leader r) k (m1, healer) of
               Inl res \<Rightarrow> res
             | Inr (m2, healer') \<Rightarrow>
                 (case check_role rec (role_flag (Suc 0)) (of_nat 1) (no_leader r) k (m2, tank) of
                    Inl res \<Rightarrow> res
                  | Inr (m3, tank') \<Rightarrow> roles_loop rec (map fst suf) m3 damage' tank' healer')))"
    proof -
      have eqs: "role_flag 3 = 8" "role_flag 2 = 4" "role_flag (Suc 0) = 2" "(of_nat 3 :: uint8) = 3" "(of_nat 1 :: uint8) = 1"
        by (simp_all add: role_flag_def)
      show ?thesis unfolding eqs using False by (simp add: p at Let_def)
    qed
    have three: "(1::nat) \<le> 3" "(3::nat) < 8" "(1::nat) \<le> 2" "(2::nat) < 8" "(1::nat) \<le> Suc 0" "Suc 0 < 8" "(3::nat) < 255" "(1::nat) < 255"
      by simp_all
    show ?thesis using D [OF three(1,2,7)]
    proof (elim disjE exE conjE)
      fix res assume "check_role rec (role_flag 3) (of_nat 3) (no_leader r) k (m, damage) = Inl res"
        "roles_post m res"
      then show ?thesis unfolding loop by simp
    next
      assume d: "check_role rec (role_flag 3) (of_nat 3) (no_leader r) k (m, damage) =
          Inr (m, of_nat (role_count (role_flag 3) ?pre))" "role_count (role_flag 3) ?pre \<le> 3"
        "no_leader r \<noteq> role_flag 3 \<longrightarrow> bit r 3 \<longrightarrow> clean_roles m \<longrightarrow> \<not> solvable (pre @ (k, r - role_flag 3) # suf)"
      show ?thesis using H [OF three(3,4,8)]
      proof (elim disjE exE conjE)
        fix res assume "check_role rec (role_flag 2) (of_nat 1) (no_leader r) k (m, healer) = Inl res"
          "roles_post m res"
        then show ?thesis by (simp only: loop d(1) sum.case prod.case)
      next
        assume h: "check_role rec (role_flag 2) (of_nat 1) (no_leader r) k (m, healer) =
            Inr (m, of_nat (role_count (role_flag 2) ?pre))" "role_count (role_flag 2) ?pre \<le> 1"
          "no_leader r \<noteq> role_flag 2 \<longrightarrow> bit r 2 \<longrightarrow> clean_roles m \<longrightarrow> \<not> solvable (pre @ (k, r - role_flag 2) # suf)"
        show ?thesis using T [OF three(5,6,8)]
        proof (elim disjE exE conjE)
          fix res assume "check_role rec (role_flag (Suc 0)) (of_nat 1) (no_leader r) k (m, tank) = Inl res"
            "roles_post m res"
          then show ?thesis by (simp only: loop d(1) h(1) sum.case prod.case)
        next
          assume t: "check_role rec (role_flag (Suc 0)) (of_nat 1) (no_leader r) k (m, tank) =
              Inr (m, of_nat (role_count (role_flag (Suc 0)) ?pre))" "role_count (role_flag (Suc 0)) ?pre \<le> 1"
            "no_leader r \<noteq> role_flag (Suc 0) \<longrightarrow> bit r (Suc 0) \<longrightarrow> clean_roles m \<longrightarrow> \<not> solvable (pre @ (k, r - role_flag (Suc 0)) # suf)"
          have ?thesis if s: "(\<forall>(k, r)\<in>set ?pre. single_role r) \<or> (clean_roles m \<longrightarrow> \<not> solvable m)"
          proof -
            have "roles_post m (roles_loop rec (map fst suf) m (of_nat (role_count (role_flag 3) ?pre))
                (of_nat (role_count (role_flag (Suc 0)) ?pre)) (of_nat (role_count (role_flag 2) ?pre)))"
              unfolding role_flags [symmetric]
              by (rule Cons.IH [OF _ s refl _ refl _ refl]) (use m d(2) h(2) t(2) in \<open>simp_all only: role_flags append.assoc append.simps\<close>)
            then show ?thesis by (simp only: loop d(1) h(1) t(1) sum.case prod.case)
          qed
          moreover have "(\<forall>(k, r)\<in>set ?pre. single_role r) \<or> (clean_roles m \<longrightarrow> \<not> solvable m)"
          proof (cases "single_role r")
            case True
            then show ?thesis using Cons.prems(2) by auto
          next
            case False
            then have "clean_roles m \<longrightarrow> \<not> solvable m"
            proof (rule stuck)
              fix i assume i: "i \<in> {Suc 0, 2, 3}" "bit r i"
              have "no_leader r \<noteq> role_flag i" using False i(1) unfolding single_flags by blast
              then show "clean_roles m \<longrightarrow> \<not> solvable (pre @ (k, r - role_flag i) # suf)"
                using i d(3) h(3) t(3) by auto
            qed
            then show ?thesis by blast
          qed
          ultimately show ?thesis by blast
        qed
      qed
    qed
  qed
qed

lemma check_roles_fuel_post: "roles_spec (check_roles_fuel n) n"
proof (induction n)
  case (Suc n)
  have "roles_post m (check_roles_fuel (Suc n) m)" if m: "om_ok m" "length m < 256" "total_bits m < Suc n" for m
  proof (cases "m = []")
    case True
    then show ?thesis by (simp add: roles_post_def)
  next
    case False
    have "roles_spec (check_roles_fuel n) (total_bits m)" using Suc m(3) by (simp add: roles_spec_def)
    from roles_loop_post [OF this m(1,2) False, of "[]" m 0 0 0] show ?thesis using False by simp
  qed
  then show ?case by (simp add: roles_spec_def)
qed (simp add: roles_spec_def)

lemma CheckGroupRoles_post: "om_ok m \<Longrightarrow> length m < 256 \<Longrightarrow> roles_post m (CheckGroupRoles m)"
  using check_roles_fuel_post [of "Suc (total_bits m)"] by (simp add: CheckGroupRoles_def roles_spec_def del: check_roles_fuel.simps)

lemma valid_roles_size: "valid_roles m \<Longrightarrow> length m \<le> 5"
  using role_count_total [of m] by (auto simp: valid_roles_def)

lemma refines_roles_keys: "refines_roles m' m \<Longrightarrow> map fst m' = map fst m"
  by (induction m arbitrary: m') (auto simp: refines_roles_def list_all2_Cons2)

section \<open>Properties\<close>

text \<open>C8: The role assignment of a group is sound and complete.  It succeeds exactly when every
  member can be given one of the roles it selected so that there are at most one
  tank, one healer and three damage dealers; then the map holds such an assignment
  (selections only shrink, leader marks stay), and on failure it is left unchanged.\<close>

theorem CheckGroupRoles_correct:
  assumes "om_ok m" and "length m < 256" and "clean_roles m"
  shows "case CheckGroupRoles m of (ok, m1) \<Rightarrow>
      (ok \<longleftrightarrow> m \<noteq> [] \<and> (\<exists>m'. refines_roles m' m \<and> valid_roles m')) \<and>
      (if ok then refines_roles m1 m \<and> valid_roles m1 else m1 = m)"
proof -
  have post: "roles_post m (CheckGroupRoles m)" by (rule CheckGroupRoles_post [OF assms(1,2)])
  have empty: "m = [] \<Longrightarrow> \<not> fst (CheckGroupRoles m)" by (simp add: CheckGroupRoles_def)
  have "fst (CheckGroupRoles m) \<longleftrightarrow> m \<noteq> [] \<and> (\<exists>m'. refines_roles m' m \<and> valid_roles m')"
    using post empty assms(3) by (cases "fst (CheckGroupRoles m)") (auto simp: roles_post_def solvable_def)
  moreover have "if fst (CheckGroupRoles m) then refines_roles (snd (CheckGroupRoles m)) m \<and> valid_roles (snd (CheckGroupRoles m))
      else snd (CheckGroupRoles m) = m"
    using post by (simp add: roles_post_def)
  ultimately show ?thesis by (simp only: case_prod_unfold)
qed

lemma CheckGroupRoles_correct_witness:
  "fst (CheckGroupRoles [(1, 10), (2, 3)]) \<and> snd (CheckGroupRoles [(1, 2), (2, 2)]) = [(1, 2), (2, 2)]"
proof -
  have bits: "bit (10 :: uint8) n \<Longrightarrow> n < 4" "bit (3 :: uint8) n \<Longrightarrow> n < 4" "bit (2 :: uint8) n \<Longrightarrow> n < 4" for n
    using low_bit [of "10 :: uint8" n 4] low_bit [of "3 :: uint8" n 4] low_bit [of "2 :: uint8" n 4] by auto
  let ?a = "[(1, 10), (2, 3)] :: roles_map" and ?b = "[(1, 2), (2, 2)] :: roles_map"
  have "om_ok ?a" "length ?a < 256" "clean_roles ?a" by (auto simp: clean_roles_def bits)
  then have a: "fst (CheckGroupRoles ?a) \<longleftrightarrow> ?a \<noteq> [] \<and> (\<exists>m'. refines_roles m' ?a \<and> valid_roles m')"
    using CheckGroupRoles_correct [of ?a] unfolding case_prod_unfold by blast
  have "om_ok ?b" "length ?b < 256" "clean_roles ?b" by (auto simp: clean_roles_def bits)
  then have b: "if fst (CheckGroupRoles ?b) then refines_roles (snd (CheckGroupRoles ?b)) ?b \<and> valid_roles (snd (CheckGroupRoles ?b))
      else snd (CheckGroupRoles ?b) = ?b"
    using CheckGroupRoles_correct [of ?b] unfolding case_prod_unfold by blast
  have sub: "bit (8 :: uint8) n \<Longrightarrow> bit (10 :: uint8) n" for n
    using bit_role_flag [of 3 n] by (simp add: role_flags)
  have "refines_roles [(1, 8), (2, 3)] ?a \<and> valid_roles [(1, 8), (2, 3)]"
    using sub by (auto simp: refines_roles_def refines_role_def valid_roles_def single_role_def no_leader_def role_count_def)
  then have "fst (CheckGroupRoles ?a)" using a by blast
  moreover have "\<not> fst (CheckGroupRoles ?b)" by code_simp
  ultimately show ?thesis using b by (simp only: if_False)
qed

text \<open>Role checks, queueing and proposals can always be undone: whatever transient states a
  player or group passes through after entering a stable one, \<^verbatim>\<open>RestoreState\<close> brings
  back that stable state; and a group keeps its dungeon and kicks while it does.\<close>

theorem RestoreState_rolls_back:
  assumes "stable s" and "\<forall>t\<in>set ts. \<not> stable t"
  shows "pd_state (pd_RestoreState (fold pd_SetState ts (pd_SetState s p))) = s \<and>
    (let g' = gd_RestoreState (fold gd_SetState ts (gd_SetState s g)) in
      gd_state g' = s \<and> gd_dungeon g' = gd_dungeon (gd_SetState s g) \<and> gd_kicksLeft g' = gd_kicksLeft (gd_SetState s g))"
proof -
  have keep: "\<not> stable t \<Longrightarrow> gd_dungeon (gd_SetState t d) = gd_dungeon d \<and> gd_kicksLeft (gd_SetState t d) = gd_kicksLeft d" for t d
    by (cases t) simp_all
  have "\<forall>t\<in>set ts. \<not> stable t \<Longrightarrow>
      gd_dungeon (fold gd_SetState ts d) = gd_dungeon d \<and> gd_kicksLeft (fold gd_SetState ts d) = gd_kicksLeft d" for d
    by (induction ts arbitrary: d) (simp_all add: keep)
  then have "gd_dungeon (gd_RestoreState (fold gd_SetState ts (gd_SetState s g))) = gd_dungeon (gd_SetState s g)"
    "gd_kicksLeft (gd_RestoreState (fold gd_SetState ts (gd_SetState s g))) = gd_kicksLeft (gd_SetState s g)"
    using assms(2) by (simp_all add: gd_RestoreState_def)
  then show ?thesis
    using lfg_player.rollback [OF assms] lfg_group.rollback [OF assms] by (simp add: Let_def)
qed

lemma RestoreState_rolls_back_witness:
  "gd_state (gd_RestoreState (gd_SetState LFG_STATE_PROPOSAL (gd_SetState LFG_STATE_QUEUED
     (gd_SetState LFG_STATE_DUNGEON gd_init)))) = LFG_STATE_DUNGEON"
  using RestoreState_rolls_back [of LFG_STATE_DUNGEON "[LFG_STATE_QUEUED, LFG_STATE_PROPOSAL]" pd_init gd_init]
  by (simp add: Let_def)

end
