(* ===== verification/LfgQueue.thy ===== *)
theory LfgQueue
  imports LfgData "HOL-Library.List_Lexorder" "HOL-Library.Char_ord"
begin

text \<open>
  The queue of the dungeon finder, \<^verbatim>\<open>src/src/server/game/DungeonFinding/LFGQueue.cpp\<close>, with the
  part of \<^verbatim>\<open>LFGMgr\<close> it calls.  A queue is the record \<open>lfg_queue\<close>; the manager's
  players, groups and proposals are the record \<open>lfg_store\<close>, which every call of
  \<^verbatim>\<open>sLFGMgr\<close> reads or changes.  Time, random choices, connected players and ignore
  lists are the record \<open>lfg_env\<close>.  \<^verbatim>\<open>operator[]\<close> of the manager's maps reads a default
  entry where it would insert one; the sources never observe such an entry.  Log
  output is left out.
\<close>

section \<open>State\<close>

record compat_data =
  cd_compatibility :: LfgCompatibility
  cd_roles :: roles_map

record lfg_queue_data =
  qd_joinTime :: int
  qd_tanks :: uint8
  qd_healers :: uint8
  qd_dps :: uint8
  qd_dungeons :: "uint32 list"
  qd_roles :: roles_map
  qd_best :: string

definition qd_make :: "int \<Rightarrow> uint32 list \<Rightarrow> roles_map \<Rightarrow> lfg_queue_data" where
  "qd_make joinTime dungeons roles = \<lparr>qd_joinTime = joinTime, qd_tanks = LFG_TANKS_NEEDED,
     qd_healers = LFG_HEALERS_NEEDED, qd_dps = LFG_DPS_NEEDED, qd_dungeons = dungeons, qd_roles = roles, qd_best = []\<rparr>"

record wait_time =
  wt_time :: int32
  wt_number :: uint32

definition wt_init :: wait_time where
  "wt_init = \<lparr>wt_time = -1, wt_number = 0\<rparr>"

record lfg_queue =
  q_data :: "(guid, lfg_queue_data) stdmap"
  q_compat :: "(string, compat_data) stdmap"
  q_waitAvg :: "(uint32, wait_time) stdmap"
  q_waitTank :: "(uint32, wait_time) stdmap"
  q_waitHealer :: "(uint32, wait_time) stdmap"
  q_waitDps :: "(uint32, wait_time) stdmap"
  q_current :: "guid list"
  q_new :: "guid list"

definition queue_init :: lfg_queue where
  "queue_init = \<lparr>q_data = [], q_compat = [], q_waitAvg = [], q_waitTank = [], q_waitHealer = [], q_waitDps = [],
     q_current = [], q_new = []\<rparr>"

record proposal_player =
  pp_role :: uint8
  pp_accept :: LfgAnswer
  pp_group :: guid

record lfg_proposal =
  pr_id :: uint32
  pr_dungeonId :: uint32
  pr_state :: LfgProposalState
  pr_group :: guid
  pr_leader :: guid
  pr_cancelTime :: int
  pr_encounters :: uint32
  pr_isNew :: bool
  pr_queues :: "guid list"
  pr_showorder :: "guid list"
  pr_players :: "(guid, proposal_player) stdmap"

record lfg_store =
  ms_players :: "(guid, lfg_player_data) stdmap"
  ms_groups :: "(guid, lfg_group_data) stdmap"
  ms_proposals :: "(uint32, lfg_proposal) stdmap"
  ms_proposalId :: uint32

text \<open>
  What the code asks of the world: the clock, the connected players and their ignore
  lists, whether a player object exists and is driven by a bot, a random number for
  the choice of a dungeon and the toss of a coin per candidate for leadership.
\<close>

record lfg_env =
  env_now :: int
  env_connected :: "guid \<Rightarrow> bool"
  env_ignores :: "guid \<Rightarrow> uint32 \<Rightarrow> bool"
  env_FindPlayer :: "guid \<Rightarrow> bool option"
  env_rand :: "nat \<Rightarrow> nat"
  env_coin :: "guid \<Rightarrow> bool"

abbreviation MAXGROUPSIZE :: nat where "MAXGROUPSIZE \<equiv> 5"
abbreviation LFG_TIME_PROPOSAL :: int where "LFG_TIME_PROPOSAL \<equiv> 45"

section \<open>Keys of the compatibility cache\<close>

text \<open>Decimal output of an unsigned number by an \<^verbatim>\<open>ostream\<close>.\<close>

fun dec :: "nat \<Rightarrow> string" where
  "dec n = (if n < 10 then [char_of (48 + n)] else dec (n div 10) @ [char_of (48 + n mod 10)])"

declare dec.simps [simp del]

definition guid_str :: "guid \<Rightarrow> string" where
  "guid_str g = dec (unat g)"

fun join_guids :: "guid list \<Rightarrow> string" where
  "join_guids [] = []"
| "join_guids [g] = guid_str g"
| "join_guids (g # gs) = guid_str g @ CHR ''|'' # join_guids gs"

definition ConcatenateGuids :: "guid list \<Rightarrow> string" where
  "ConcatenateGuids check = join_guids (fold os_insert check [])"

definition SetCompatibles :: "string \<Rightarrow> LfgCompatibility \<Rightarrow> lfg_queue \<Rightarrow> lfg_queue" where
  "SetCompatibles key c q =
     (let d = om_at \<lparr>cd_compatibility = LFG_COMPATIBILITY_PENDING, cd_roles = []\<rparr> (q_compat q) key
      in q\<lparr>q_compat := om_put key (d\<lparr>cd_compatibility := c\<rparr>) (q_compat q)\<rparr>)"

definition SetCompatibilityData :: "string \<Rightarrow> compat_data \<Rightarrow> lfg_queue \<Rightarrow> lfg_queue" where
  "SetCompatibilityData key d q = q\<lparr>q_compat := om_put key d (q_compat q)\<rparr>"

definition GetCompatibles :: "string \<Rightarrow> lfg_queue \<Rightarrow> LfgCompatibility" where
  "GetCompatibles key q =
     (case om_find (q_compat q) key of None \<Rightarrow> LFG_COMPATIBILITY_PENDING | Some d \<Rightarrow> cd_compatibility d)"

definition RemoveFromCompatibles :: "guid \<Rightarrow> lfg_queue \<Rightarrow> lfg_queue" where
  "RemoveFromCompatibles g q = q\<lparr>q_compat := filter (\<lambda>(key, d). \<not> sublist (guid_str g) key) (q_compat q)\<rparr>"

section \<open>The best known combination of an entry\<close>

text \<open>\<^verbatim>\<open>std::count(s, '|') + 1\<close> in a \<^verbatim>\<open>uint8\<close>\<close>

definition key_size :: "string \<Rightarrow> uint8" where
  "key_size s = of_nat (count_list s (CHR ''|'') + 1)"

fun need_role :: "uint8 \<Rightarrow> lfg_queue_data \<Rightarrow> lfg_queue_data" where
  "need_role role d =
     (if has_bits role PLAYER_ROLE_TANK then d\<lparr>qd_tanks := qd_tanks d - 1\<rparr>
      else if has_bits role PLAYER_ROLE_HEALER then d\<lparr>qd_healers := qd_healers d - 1\<rparr>
      else d\<lparr>qd_dps := qd_dps d - 1\<rparr>)"

definition UpdateBestCompatibleInQueue :: "string \<Rightarrow> roles_map \<Rightarrow> lfg_queue_data \<Rightarrow> lfg_queue_data" where
  "UpdateBestCompatibleInQueue key roles d =
     (let storedSize = (if qd_best d = [] then 0 else key_size (qd_best d)) in
      if key_size key \<le> storedSize then d
      else fold (\<lambda>(p, role). need_role role) roles
             (d\<lparr>qd_best := key, qd_tanks := LFG_TANKS_NEEDED, qd_healers := LFG_HEALERS_NEEDED, qd_dps := LFG_DPS_NEEDED\<rparr>))"

definition FindBestCompatibleInQueue :: "(string, compat_data) stdmap \<Rightarrow> guid \<Rightarrow> lfg_queue_data \<Rightarrow> lfg_queue_data" where
  "FindBestCompatibleInQueue cache g d =
     fold (\<lambda>(key, c) d. if cd_compatibility c = LFG_COMPATIBLES_WITH_LESS_PLAYERS \<and> sublist (guid_str g) key
             then UpdateBestCompatibleInQueue key (cd_roles c) d else d) cache d"

text \<open>Changing the entry an iterator of \<^verbatim>\<open>QueueDataStore\<close> points to.\<close>

definition update_entry :: "guid \<Rightarrow> (lfg_queue_data \<Rightarrow> lfg_queue_data) \<Rightarrow> lfg_queue \<Rightarrow> lfg_queue" where
  "update_entry g f q = q\<lparr>q_data := map (\<lambda>(k, d). (k, if k = g then f d else d)) (q_data q)\<rparr>"

section \<open>Entering and leaving\<close>

definition AddToNewQueue :: "guid \<Rightarrow> lfg_queue \<Rightarrow> lfg_queue" where
  "AddToNewQueue g q = q\<lparr>q_new := q_new q @ [g]\<rparr>"

definition RemoveFromNewQueue :: "guid \<Rightarrow> lfg_queue \<Rightarrow> lfg_queue" where
  "RemoveFromNewQueue g q = q\<lparr>q_new := removeAll g (q_new q)\<rparr>"

definition AddToCurrentQueue :: "guid \<Rightarrow> lfg_queue \<Rightarrow> lfg_queue" where
  "AddToCurrentQueue g q = q\<lparr>q_current := q_current q @ [g]\<rparr>"

definition RemoveFromCurrentQueue :: "guid \<Rightarrow> lfg_queue \<Rightarrow> lfg_queue" where
  "RemoveFromCurrentQueue g q = q\<lparr>q_current := removeAll g (q_current q)\<rparr>"

definition AddToQueue :: "guid \<Rightarrow> lfg_queue \<Rightarrow> lfg_queue" where
  "AddToQueue g q = (if om_find (q_data q) g = None then q else AddToNewQueue g q)"

definition AddQueueData :: "guid \<Rightarrow> int \<Rightarrow> uint32 list \<Rightarrow> roles_map \<Rightarrow> lfg_queue \<Rightarrow> lfg_queue" where
  "AddQueueData g joinTime dungeons rolesMap q =
     AddToQueue g (q\<lparr>q_data := om_put g (qd_make joinTime dungeons rolesMap) (q_data q)\<rparr>)"

definition RemoveQueueData :: "guid \<Rightarrow> lfg_queue \<Rightarrow> lfg_queue" where
  "RemoveQueueData g q = q\<lparr>q_data := om_erase g (q_data q)\<rparr>"

definition RemoveFromQueue :: "guid \<Rightarrow> lfg_queue \<Rightarrow> lfg_queue" where
  "RemoveFromQueue g q =
     (let q1 = RemoveFromCompatibles g (RemoveFromCurrentQueue g (RemoveFromNewQueue g q));
          entries = map (\<lambda>(k, d).
            (k, if k \<noteq> g \<and> sublist (guid_str g) (qd_best d)
                then FindBestCompatibleInQueue (q_compat q1) k (d\<lparr>qd_best := []\<rparr>) else d)) (q_data q1)
      in q1\<lparr>q_data := om_erase g entries\<rparr>)"

section \<open>Waiting times\<close>

text \<open>
  \<^verbatim>\<open>wt.time * old_number + waitTime\<close> is computed in \<^verbatim>\<open>uint32\<close>, and so is the quotient.
\<close>

definition add_wait :: "int32 \<Rightarrow> wait_time \<Rightarrow> wait_time" where
  "add_wait waitTime wt =
     \<lparr>wt_time = (wt_time wt * wt_number wt + waitTime) div (wt_number wt + 1), wt_number = wt_number wt + 1\<rparr>"

definition UpdateWaitTimeAvg :: "int32 \<Rightarrow> uint32 \<Rightarrow> lfg_queue \<Rightarrow> lfg_queue" where
  "UpdateWaitTimeAvg waitTime dungeonId q =
     q\<lparr>q_waitAvg := om_put dungeonId (add_wait waitTime (om_at wt_init (q_waitAvg q) dungeonId)) (q_waitAvg q)\<rparr>"

definition UpdateWaitTimeTank :: "int32 \<Rightarrow> uint32 \<Rightarrow> lfg_queue \<Rightarrow> lfg_queue" where
  "UpdateWaitTimeTank waitTime dungeonId q =
     q\<lparr>q_waitTank := om_put dungeonId (add_wait waitTime (om_at wt_init (q_waitTank q) dungeonId)) (q_waitTank q)\<rparr>"

definition UpdateWaitTimeHealer :: "int32 \<Rightarrow> uint32 \<Rightarrow> lfg_queue \<Rightarrow> lfg_queue" where
  "UpdateWaitTimeHealer waitTime dungeonId q =
     q\<lparr>q_waitHealer := om_put dungeonId (add_wait waitTime (om_at wt_init (q_waitHealer q) dungeonId)) (q_waitHealer q)\<rparr>"

definition UpdateWaitTimeDps :: "int32 \<Rightarrow> uint32 \<Rightarrow> lfg_queue \<Rightarrow> lfg_queue" where
  "UpdateWaitTimeDps waitTime dungeonId q =
     q\<lparr>q_waitDps := om_put dungeonId (add_wait waitTime (om_at wt_init (q_waitDps q) dungeonId)) (q_waitDps q)\<rparr>"

definition GetJoinTime :: "int \<Rightarrow> guid \<Rightarrow> lfg_queue \<Rightarrow> int \<times> lfg_queue" where
  "GetJoinTime now g q =
     (let d = om_at (qd_make now [] []) (q_data q) g in (qd_joinTime d, q\<lparr>q_data := om_put g d (q_data q)\<rparr>))"

text \<open>The status sent to the members of an entry.\<close>

record queue_status =
  qs_dungeonId :: uint32
  qs_waitTime :: int32
  qs_waitTimeAvg :: int32
  qs_waitTimeTank :: int32
  qs_waitTimeHealer :: int32
  qs_waitTimeDps :: int32
  qs_queuedTime :: uint32
  qs_tanks :: uint8
  qs_healers :: uint8
  qs_dps :: uint8

text \<open>\<^verbatim>\<open>waitTimes[dungeonId].time\<close>, which creates a missing entry\<close>

definition touch_wait :: "uint32 \<Rightarrow> (uint32, wait_time) stdmap \<Rightarrow> int32 \<times> (uint32, wait_time) stdmap" where
  "touch_wait dungeonId m = (let w = om_at wt_init m dungeonId in (wt_time w, om_put dungeonId w m))"

definition entry_role :: "roles_map \<Rightarrow> uint8" where
  "entry_role roles = no_leader (fold (\<lambda>(p, r) role. role OR r) roles PLAYER_ROLE_NONE)"

definition timer_step :: "int \<Rightarrow> guid \<times> lfg_queue_data \<Rightarrow> lfg_queue \<times> (guid \<times> queue_status) list
    \<Rightarrow> lfg_queue \<times> (guid \<times> queue_status) list" where
  "timer_step currTime entry acc =
     (let (g, d) = entry;
          (q, sent) = acc;
          dungeonId = hd (qd_dungeons d);
          (wtTank, tankStore) = touch_wait dungeonId (q_waitTank q);
          (wtHealer, healerStore) = touch_wait dungeonId (q_waitHealer q);
          (wtDps, dpsStore) = touch_wait dungeonId (q_waitDps q);
          (wtAvg, avgStore) = touch_wait dungeonId (q_waitAvg q);
          role = entry_role (qd_roles d);
          waitTime = (if role = PLAYER_ROLE_NONE then -1
                      else if role = PLAYER_ROLE_TANK then wtTank
                      else if role = PLAYER_ROLE_HEALER then wtHealer
                      else if role = PLAYER_ROLE_DAMAGE then wtDps
                      else wtAvg);
          d' = (if qd_best d = [] then FindBestCompatibleInQueue (q_compat q) g d else d);
          status = \<lparr>qs_dungeonId = dungeonId, qs_waitTime = waitTime, qs_waitTimeAvg = wtAvg,
            qs_waitTimeTank = wtTank, qs_waitTimeHealer = wtHealer, qs_waitTimeDps = wtDps,
            qs_queuedTime = of_int (currTime - qd_joinTime d),
            qs_tanks = qd_tanks d', qs_healers = qd_healers d', qs_dps = qd_dps d'\<rparr>
      in (update_entry g (\<lambda>_. d') (q\<lparr>q_waitTank := tankStore, q_waitHealer := healerStore,
            q_waitDps := dpsStore, q_waitAvg := avgStore\<rparr>),
          sent @ map (\<lambda>(p, r). (p, status)) (qd_roles d)))"

definition UpdateQueueTimers :: "int \<Rightarrow> lfg_queue \<Rightarrow> lfg_queue \<times> (guid \<times> queue_status) list" where
  "UpdateQueueTimers currTime q = fold (timer_step currTime) (q_data q) (q, [])"

section \<open>What the queue asks of the manager\<close>

definition GetState :: "guid \<Rightarrow> 'a lfg_store_scheme \<Rightarrow> LfgState" where
  "GetState g s = (if IsGroup g then gd_state (om_at gd_init (ms_groups s) g) else pd_state (om_at pd_init (ms_players s) g))"

definition GetOldState :: "guid \<Rightarrow> 'a lfg_store_scheme \<Rightarrow> LfgState" where
  "GetOldState g s = (if IsGroup g then gd_oldState (om_at gd_init (ms_groups s) g) else pd_oldState (om_at pd_init (ms_players s) g))"

definition IsLfgGroup :: "guid \<Rightarrow> 'a lfg_store_scheme \<Rightarrow> bool" where
  "IsLfgGroup g s \<longleftrightarrow> g \<noteq> 0 \<and> IsGroup g \<and> gd_IsLfgGroup (om_at gd_init (ms_groups s) g)"

definition AllQueued :: "guid list \<Rightarrow> 'a lfg_store_scheme \<Rightarrow> bool" where
  "AllQueued check s \<longleftrightarrow> check \<noteq> [] \<and> list_all (\<lambda>g. GetState g s = LFG_STATE_QUEUED) check"

definition HasIgnore :: "lfg_env \<Rightarrow> guid \<Rightarrow> guid \<Rightarrow> bool" where
  "HasIgnore env g1 g2 \<longleftrightarrow> env_connected env g1 \<and> env_connected env g2 \<and>
     (env_ignores env g1 (GetCounter g2) \<or> env_ignores env g2 (GetCounter g1))"

definition AddProposal :: "lfg_proposal \<Rightarrow> 'a lfg_store_scheme \<Rightarrow> 'a lfg_store_scheme" where
  "AddProposal p s =
     (let i = ms_proposalId s + 1
      in s\<lparr>ms_proposalId := i, ms_proposals := om_put i (p\<lparr>pr_id := i\<rparr>) (ms_proposals s)\<rparr>)"

section \<open>Compatibility of a list of entries\<close>

text \<open>
  Players, groups already in the finder, original group of every player and the
  group of the proposal; \<open>Inl\<close> is an entry without queue data.
\<close>

record tally =
  t_numPlayers :: uint8
  t_numLfgGroups :: uint8
  t_groups :: "(guid, guid) stdmap"
  t_group :: guid

fun count_loop :: "lfg_queue \<Rightarrow> 'a lfg_store_scheme \<Rightarrow> guid list \<Rightarrow> tally \<Rightarrow> guid + tally" where
  "count_loop q s [] t = Inr t"
| "count_loop q s (g # gs) t =
     (if t_numLfgGroups t < 2 \<and> unat (t_numPlayers t) \<le> MAXGROUPSIZE
      then (case om_find (q_data q) g of
              None \<Rightarrow> Inl g
            | Some d \<Rightarrow>
                let t1 = t\<lparr>t_groups := fold (\<lambda>(p, r). om_put p (if IsGroup g then g else 0)) (qd_roles d) (t_groups t),
                           t_numPlayers := t_numPlayers t + of_nat (length (qd_roles d))\<rparr>
                in count_loop q s gs
                     (if IsLfgGroup g s
                      then t1\<lparr>t_group := (if t_numLfgGroups t = 0 then g else t_group t), t_numLfgGroups := t_numLfgGroups t + 1\<rparr>
                      else t1))
      else Inr t)"

definition entry_of :: "lfg_queue \<Rightarrow> guid \<Rightarrow> lfg_queue_data" where
  "entry_of q g = om_at (qd_make 0 [] []) (q_data q) g"

text \<open>A player is taken over unless one taken before ignores him, or he ignores him.\<close>

definition merge_role :: "lfg_env \<Rightarrow> guid \<times> uint8 \<Rightarrow> roles_map \<Rightarrow> roles_map" where
  "merge_role env pr roles =
     (if list_all (\<lambda>(k, r). fst pr = k \<or> \<not> HasIgnore env (fst pr) k) roles
      then om_put (fst pr) (snd pr) roles else roles)"

definition merge_roles :: "lfg_env \<Rightarrow> lfg_queue \<Rightarrow> guid list \<Rightarrow> roles_map" where
  "merge_roles env q check = fold (\<lambda>g roles. fold (merge_role env) (qd_roles (entry_of q g)) roles) check []"

text \<open>\<^verbatim>\<open>std::set_intersection\<close> of the dungeons of all entries\<close>

definition common_dungeons :: "lfg_queue \<Rightarrow> guid list \<Rightarrow> uint32 list" where
  "common_dungeons q check =
     fold (\<lambda>g ds. filter (\<lambda>d. d \<in> set (qd_dungeons (entry_of q g))) ds) (tl check) (qd_dungeons (entry_of q (hd check)))"

text \<open>\<^verbatim>\<open>SelectRandomContainerElement\<close>: an element at a random index below the size\<close>

definition select_random :: "lfg_env \<Rightarrow> 'b list \<Rightarrow> 'b" where
  "select_random env xs = xs ! (env_rand env (length xs) mod length xs)"

text \<open>Leader: one who offered to lead is preferred, otherwise a coin decides.\<close>

definition lead_step :: "lfg_env \<Rightarrow> guid \<times> uint8 \<Rightarrow> bool \<times> guid \<Rightarrow> bool \<times> guid" where
  "lead_step env pr acc =
     (let (p, role) = pr; (found, leader) = acc in
      if has_bits role PLAYER_ROLE_LEADER
      then (True, if \<not> found \<or> leader = 0 \<or> env_coin env p then p else leader)
      else (found, if \<not> found \<and> (leader = 0 \<or> env_coin env p) then p else leader))"

definition make_proposal :: "lfg_env \<Rightarrow> guid list \<Rightarrow> bool \<Rightarrow> tally \<Rightarrow> roles_map \<Rightarrow> uint32 list \<Rightarrow> lfg_proposal" where
  "make_proposal env check isNew t roles dungeons =
     \<lparr>pr_id = 0, pr_dungeonId = select_random env dungeons, pr_state = LFG_PROPOSAL_INITIATING, pr_group = t_group t,
      pr_leader = snd (fold (lead_step env) roles (False, 0)),
      pr_cancelTime = env_now env + LFG_TIME_PROPOSAL, pr_encounters = 0, pr_isNew = isNew,
      pr_queues = check, pr_showorder = [],
      pr_players = map (\<lambda>(p, role).
        let g = om_at 0 (t_groups t) p
        in (p, \<lparr>pp_role = role,
                pp_accept = (if \<not> isNew \<and> g \<noteq> 0 \<and> g = t_group t then LFG_ANSWER_AGREE else LFG_ANSWER_PENDING),
                pp_group = g\<rparr>)) roles\<rparr>"

text \<open>The playerbot condition: a group, or a player object that no bot drives.\<close>

definition non_bot :: "lfg_env \<Rightarrow> guid \<Rightarrow> bool" where
  "non_bot env g \<longleftrightarrow> IsGroup g \<or> env_FindPlayer env (Global HG_Player (ucast g)) = Some False"

text \<open>From \<^verbatim>\<open>// Enough players?\<close> to the end of \<^verbatim>\<open>CheckCompatibility\<close>.\<close>

definition check_match :: "lfg_env \<Rightarrow> guid list \<Rightarrow> tally \<Rightarrow> roles_map \<Rightarrow> uint32 list
    \<Rightarrow> lfg_queue \<times> 'a lfg_store_scheme \<Rightarrow> LfgCompatibility \<times> lfg_queue \<times> 'a lfg_store_scheme" where
  "check_match env check t roles dungeons st =
     (let (q, s) = st; key = ConcatenateGuids check in
      if unat (t_numPlayers t) \<noteq> MAXGROUPSIZE
      then (LFG_COMPATIBLES_WITH_LESS_PLAYERS,
            SetCompatibilityData key \<lparr>cd_compatibility = LFG_COMPATIBLES_WITH_LESS_PLAYERS, cd_roles = roles\<rparr>
              (fold (\<lambda>g. update_entry g (UpdateBestCompatibleInQueue key roles)) check q), s)
      else if \<not> list_ex (non_bot env) check
      then (LFG_INCOMPATIBLES_HAS_IGNORES, q, s)
      else if \<not> AllQueued check s
      then (LFG_COMPATIBLES_BAD_STATES, SetCompatibles key LFG_COMPATIBLES_BAD_STATES q, s)
      else (let isNew = (t_numLfgGroups t \<noteq> 1 \<or> GetOldState (hd check) s \<noteq> LFG_STATE_DUNGEON);
                proposal = make_proposal env check isNew t roles dungeons;
                q1 = fold (\<lambda>g q. RemoveFromCurrentQueue g (RemoveFromNewQueue g q)) check q
            in (LFG_COMPATIBLES_MATCH, SetCompatibles key LFG_COMPATIBLES_MATCH q1, AddProposal proposal s)))"

text \<open>The checks of one list, from the counting of its players on.\<close>

definition check_entries :: "lfg_env \<Rightarrow> guid list
    \<Rightarrow> lfg_queue \<times> 'a lfg_store_scheme \<Rightarrow> LfgCompatibility \<times> lfg_queue \<times> 'a lfg_store_scheme" where
  "check_entries env check st =
     (let (q, s) = st; key = ConcatenateGuids check in
      case count_loop q s check \<lparr>t_numPlayers = 0, t_numLfgGroups = 0, t_groups = [], t_group = 0\<rparr> of
        Inl g \<Rightarrow> (LFG_COMPATIBILITY_PENDING, RemoveFromQueue g q, s)
      | Inr t \<Rightarrow>
          if length check = 1 \<and> unat (t_numPlayers t) \<noteq> MAXGROUPSIZE
          then (let roles = snd (CheckGroupRoles (qd_roles (entry_of q (hd check))))
                in (LFG_COMPATIBLES_WITH_LESS_PLAYERS,
                    SetCompatibilityData key \<lparr>cd_compatibility = LFG_COMPATIBLES_WITH_LESS_PLAYERS, cd_roles = roles\<rparr>
                      (update_entry (hd check) (UpdateBestCompatibleInQueue key roles) q), s))
          else if 1 < t_numLfgGroups t
          then (LFG_INCOMPATIBLES_MULTIPLE_LFG_GROUPS, SetCompatibles key LFG_INCOMPATIBLES_MULTIPLE_LFG_GROUPS q, s)
          else if MAXGROUPSIZE < unat (t_numPlayers t)
          then (LFG_INCOMPATIBLES_TOO_MUCH_PLAYERS, SetCompatibles key LFG_INCOMPATIBLES_TOO_MUCH_PLAYERS q, s)
          else if 1 < length check
          then (let merged = merge_roles env q check in
                if t_numPlayers t - of_nat (length merged) \<noteq> 0
                then (LFG_INCOMPATIBLES_HAS_IGNORES, SetCompatibles key LFG_INCOMPATIBLES_HAS_IGNORES q, s)
                else case CheckGroupRoles merged of (ok, roles) \<Rightarrow>
                  if \<not> ok
                  then (LFG_INCOMPATIBLES_NO_ROLES, SetCompatibles key LFG_INCOMPATIBLES_NO_ROLES q, s)
                  else if common_dungeons q check = []
                  then (LFG_INCOMPATIBLES_NO_DUNGEONS, SetCompatibles key LFG_INCOMPATIBLES_NO_DUNGEONS q, s)
                  else check_match env check t roles (common_dungeons q check) (q, s))
          else check_match env check t (snd (CheckGroupRoles (qd_roles (entry_of q (hd check)))))
                 (qd_dungeons (entry_of q (hd check))) (q, s))"

fun CheckCompatibility :: "lfg_env \<Rightarrow> guid list
    \<Rightarrow> lfg_queue \<times> 'a lfg_store_scheme \<Rightarrow> LfgCompatibility \<times> lfg_queue \<times> 'a lfg_store_scheme" where
  "CheckCompatibility env [] st = (LFG_INCOMPATIBLES_WRONG_GROUP_SIZE, st)"
| "CheckCompatibility env (front # rest) st =
     (let check = front # rest in
      if MAXGROUPSIZE < length check then (LFG_INCOMPATIBLES_WRONG_GROUP_SIZE, st)
      else if 2 < length check
      then (case CheckCompatibility env rest st of (child, q, s) \<Rightarrow>
              if incompatible child then (child, SetCompatibles (ConcatenateGuids check) child q, s)
              else check_entries env check (q, s))
      else check_entries env check st)"

section \<open>Finding groups\<close>

text \<open>
  \<^verbatim>\<open>FindNewGroups(check, all)\<close>, with its loop over \<open>all\<close> as a parameter.  \<open>all\<close> is
  shared by the whole recursion and returned; \<open>check\<close> is restored by the callee
  unless it reports a match, after which nobody reads it.
\<close>

definition find_body :: "lfg_env
    \<Rightarrow> (guid list \<Rightarrow> guid list \<Rightarrow> lfg_queue \<times> 'a lfg_store_scheme \<Rightarrow> LfgCompatibility \<times> guid list \<times> lfg_queue \<times> 'a lfg_store_scheme)
    \<Rightarrow> guid list \<Rightarrow> guid list \<Rightarrow> lfg_queue \<times> 'a lfg_store_scheme \<Rightarrow> LfgCompatibility \<times> guid list \<times> lfg_queue \<times> 'a lfg_store_scheme" where
  "find_body env loop check all st =
     (let key = ConcatenateGuids check;
          cached = GetCompatibles key (fst st);
          (c, q, s) = (if cached = LFG_COMPATIBILITY_PENDING then CheckCompatibility env check st else (cached, st))
      in if c = LFG_COMPATIBLES_BAD_STATES \<and> AllQueued check s
         then (LFG_COMPATIBLES_MATCH, all, SetCompatibles key LFG_COMPATIBLES_MATCH q, s)
         else if c \<noteq> LFG_COMPATIBLES_WITH_LESS_PLAYERS then (c, all, q, s)
         else loop check all (q, s))"

text \<open>The loop; every round takes one element off \<open>all\<close>, so its length is enough fuel.\<close>

fun try_all :: "nat \<Rightarrow> lfg_env \<Rightarrow> guid list \<Rightarrow> guid list \<Rightarrow> lfg_queue \<times> 'a lfg_store_scheme
    \<Rightarrow> LfgCompatibility \<times> guid list \<times> lfg_queue \<times> 'a lfg_store_scheme" where
  "try_all fuel env check [] st = (LFG_COMPATIBLES_WITH_LESS_PLAYERS, [], st)"
| "try_all 0 env check (a # all) st = (LFG_COMPATIBLES_WITH_LESS_PLAYERS, a # all, st)"
| "try_all (Suc fuel) env check (a # all) st =
     (case find_body env (\<lambda>check' all' st'. try_all fuel env check' all' st') (check @ [a]) all st of
        (sub, all1, st1) \<Rightarrow>
          if sub = LFG_COMPATIBLES_MATCH then (LFG_COMPATIBLES_MATCH, all1, st1)
          else try_all fuel env check all1 st1)"

definition FindNewGroups :: "lfg_env \<Rightarrow> guid list \<Rightarrow> guid list \<Rightarrow> lfg_queue \<times> 'a lfg_store_scheme
    \<Rightarrow> LfgCompatibility \<times> guid list \<times> lfg_queue \<times> 'a lfg_store_scheme" where
  "FindNewGroups env check all st = find_body env (try_all (length all) env) check all st"

text \<open>Every round removes the front of the new queue, and nothing ever adds to it.\<close>

fun find_groups :: "nat \<Rightarrow> lfg_env \<Rightarrow> uint8 \<Rightarrow> lfg_queue \<times> 'a lfg_store_scheme \<Rightarrow> uint8 \<times> lfg_queue \<times> 'a lfg_store_scheme" where
  "find_groups 0 env proposals st = (proposals, st)"
| "find_groups (Suc fuel) env proposals (q, s) =
     (case q_new q of
        [] \<Rightarrow> (proposals, q, s)
      | front # rest \<Rightarrow>
          let q1 = RemoveFromNewQueue front q in
          case FindNewGroups env [front] (q_current q1) (q1, s) of
            (c, all, q2, s2) \<Rightarrow>
              if c = LFG_COMPATIBLES_MATCH then find_groups fuel env (proposals + 1) (q2, s2)
              else find_groups fuel env proposals (AddToCurrentQueue front q2, s2))"

definition FindGroups :: "lfg_env \<Rightarrow> lfg_queue \<times> 'a lfg_store_scheme \<Rightarrow> uint8 \<times> lfg_queue \<times> 'a lfg_store_scheme" where
  "FindGroups env st = find_groups (length (q_new (fst st))) env 0 st"

section \<open>Lemmas: keys\<close>

definition digits_value :: "string \<Rightarrow> nat" where
  "digits_value s = foldl (\<lambda>a c. 10 * a + (of_char c - 48)) 0 s"

lemma digit_char: "n < 10 \<Longrightarrow> of_char (char_of (48 + n)) = 48 + n" for n :: nat
  by (simp only: of_char_of) simp

lemma digits_value_dec [simp]: "digits_value (dec n) = n"
proof (induction n rule: dec.induct)
  case (1 n)
  then show ?case using digit_char [of n] digit_char [of "n mod 10"]
    by (subst dec.simps) (simp add: digits_value_def)
qed

lemma dec_inj [simp]: "dec m = dec n \<longleftrightarrow> m = n"
  by (metis digits_value_dec)

lemma digit_not_bar: "n < 10 \<Longrightarrow> char_of (48 + n) \<noteq> CHR ''|''" for n :: nat
proof
  assume "n < 10" "char_of (48 + n) = CHR ''|''"
  then have "of_char (CHR ''|'') = 48 + n" using digit_char [of n] by simp
  then show False using \<open>n < 10\<close> by simp
qed

lemma bar_not_in_dec [simp]: "CHR ''|'' \<notin> set (dec n)"
proof (induction n rule: dec.induct)
  case (1 n)
  then show ?case using digit_not_bar [of n] digit_not_bar [of "n mod 10"]
    by (subst dec.simps) auto
qed

lemma dec_not_Nil [simp]: "dec n \<noteq> []"
  by (subst dec.simps) simp

lemma guid_str_inj [simp]: "guid_str g = guid_str h \<longleftrightarrow> g = h"
  by (auto simp: guid_str_def dest: unsigned_word_eqI)

lemma guid_str_bar [simp]: "CHR ''|'' \<notin> set (guid_str g)" "guid_str g \<noteq> []"
  by (simp_all add: guid_str_def)

lemma append_bar_inj:
  "c \<notin> set xs \<Longrightarrow> c \<notin> set ys \<Longrightarrow> xs @ c # us = ys @ c # vs \<longleftrightarrow> xs = ys \<and> us = vs"
proof (induction xs arbitrary: ys)
  case (Cons x xs)
  then show ?case by (cases ys) auto
next
  case Nil
  then show ?case by (cases ys) auto
qed

lemma join_guids_Cons: "gs \<noteq> [] \<Longrightarrow> join_guids (g # gs) = guid_str g @ CHR ''|'' # join_guids gs"
  by (cases gs) simp_all

lemma join_guids_bar: "CHR ''|'' \<in> set (join_guids gs) \<longleftrightarrow> 1 < length gs"
  by (induction gs rule: join_guids.induct) auto

lemma join_guids_Nil [simp]: "join_guids gs = [] \<longleftrightarrow> gs = []"
  by (induction gs rule: join_guids.induct) auto

lemma join_guids_inj: "join_guids gs = join_guids hs \<longleftrightarrow> gs = hs"
proof (induction gs arbitrary: hs rule: join_guids.induct)
  case (2 g)
  then show ?case
  proof (cases hs)
    case (Cons h t)
    have "guid_str g \<noteq> guid_str h @ CHR ''|'' # us" for us
      using guid_str_bar(1) [of g] by (metis in_set_conv_decomp)
    then show ?thesis using Cons by (cases t) auto
  qed auto
next
  case (3 g g' gs)
  show ?case
  proof (cases "1 < length hs")
    case True
    then obtain h h' t where hs: "hs = h # h' # t" by (cases hs; cases "tl hs") auto
    show ?thesis using 3 [of "h' # t"] by (simp add: hs append_bar_inj)
  next
    case False
    then have "CHR ''|'' \<notin> set (join_guids hs)" by (simp add: join_guids_bar)
    moreover have "CHR ''|'' \<in> set (join_guids (g # g' # gs))" by simp
    ultimately show ?thesis using False by metis
  qed
qed (metis join_guids_Nil join_guids.simps(1))

lemma sorted_set [simp]: "set (fold os_insert xs s) = set xs \<union> set s" "os_ok s \<Longrightarrow> os_ok (fold os_insert xs s)"
  by (induction xs arbitrary: s) auto

lemma sorted_set_eq: "fold os_insert xs [] = fold os_insert ys [] \<longleftrightarrow> set xs = set ys" for xs ys :: "'a::linorder list"
proof
  assume "set xs = set ys"
  then show "fold os_insert xs [] = fold os_insert ys []"
    by (intro strict_sorted_equal) simp_all
next
  assume "fold os_insert xs [] = fold os_insert ys []"
  then have "set (fold os_insert xs []) = set (fold os_insert ys [])" by simp
  then show "set xs = set ys" by simp
qed

lemma key_eq [simp]: "ConcatenateGuids a = ConcatenateGuids b \<longleftrightarrow> set a = set b"
  by (simp add: ConcatenateGuids_def join_guids_inj sorted_set_eq)

lemma join_guids_mentions: "g \<in> set gs \<Longrightarrow> sublist (guid_str g) (join_guids gs)"
proof (induction gs rule: join_guids.induct)
  case (3 h h' gs)
  then show ?case
    by (auto simp: sublist_def) (metis append_Nil append_Cons append_assoc)+
qed auto

lemma key_mentions: "g \<in> set check \<Longrightarrow> sublist (guid_str g) (ConcatenateGuids check)"
  unfolding ConcatenateGuids_def by (rule join_guids_mentions) simp

lemma count_bars: "gs \<noteq> [] \<Longrightarrow> Suc (count_list (join_guids gs) (CHR ''|'')) = length gs"
proof -
  have none: "c \<notin> set xs \<Longrightarrow> count_list xs c = 0" for c and xs :: string by simp
  show "gs \<noteq> [] \<Longrightarrow> Suc (count_list (join_guids gs) (CHR ''|'')) = length gs"
    by (induction gs rule: join_guids.induct) (simp_all add: none)
qed

lemma key_size_card: "check \<noteq> [] \<Longrightarrow> key_size (ConcatenateGuids check) = of_nat (card (set check))"
proof -
  assume "check \<noteq> []"
  then have "fold os_insert check [] \<noteq> []" using sorted_set(1) [of check "[]"] by fastforce
  then show ?thesis using count_bars [of "fold os_insert check []"] os_ok_card [of "fold os_insert check []"]
    by (simp add: key_size_def ConcatenateGuids_def)
qed

section \<open>Lemmas: entries\<close>

text \<open>What the search for groups never changes of an entry.\<close>

definition entry_core :: "lfg_queue_data \<Rightarrow> int \<times> uint32 list \<times> roles_map" where
  "entry_core d = (qd_joinTime d, qd_dungeons d, qd_roles d)"

definition entries :: "lfg_queue \<Rightarrow> (guid \<times> int \<times> uint32 list \<times> roles_map) list" where
  "entries q = map (\<lambda>(g, d). (g, entry_core d)) (q_data q)"

lemma fold_need_role_core [simp]:
  "qd_best (fold (\<lambda>(p, role). need_role role) roles d) = qd_best d"
  "entry_core (fold (\<lambda>(p, role). need_role role) roles d) = entry_core d"
  by (induction roles arbitrary: d) (auto simp: entry_core_def)

lemma UpdateBest_core [simp]: "entry_core (UpdateBestCompatibleInQueue key roles d) = entry_core d"
  by (simp add: UpdateBestCompatibleInQueue_def Let_def) (simp add: entry_core_def)

lemma UpdateBest_best: "qd_best (UpdateBestCompatibleInQueue key roles d) \<in> {qd_best d, key}"
  by (simp add: UpdateBestCompatibleInQueue_def Let_def)

lemma FindBest_core [simp]: "entry_core (FindBestCompatibleInQueue cache g d) = entry_core d"
proof -
  have "entry_core (fold (\<lambda>(key, c) d. if cd_compatibility c = LFG_COMPATIBLES_WITH_LESS_PLAYERS \<and> sublist (guid_str g) key
      then UpdateBestCompatibleInQueue key (cd_roles c) d else d) cache d) = entry_core d"
    by (induction cache arbitrary: d) auto
  then show ?thesis by (simp add: FindBestCompatibleInQueue_def)
qed

lemma FindBest_best: "qd_best (FindBestCompatibleInQueue cache g d) \<in> insert (qd_best d) (fst ` set cache)"
proof -
  define step where "step = (\<lambda>(key, c :: compat_data) d. if cd_compatibility c = LFG_COMPATIBLES_WITH_LESS_PLAYERS \<and> sublist (guid_str g) key
      then UpdateBestCompatibleInQueue key (cd_roles c) d else d)"
  have step: "qd_best (step kc d) \<in> {qd_best d, fst kc}" for kc d
    using UpdateBest_best [of "fst kc"] by (simp add: step_def case_prod_unfold)
  have "qd_best (fold step cache d) \<in> insert (qd_best d) (fst ` set cache)"
  proof (induction cache arbitrary: d)
    case (Cons kc cache)
    then have "qd_best (fold step cache (step kc d)) \<in> insert (qd_best (step kc d)) (fst ` set cache)" .
    then show ?case using step [of kc d] by auto
  qed simp
  then show ?thesis by (simp add: FindBestCompatibleInQueue_def step_def)
qed

lemma qd_core:
  "entry_core d' = entry_core d \<Longrightarrow> qd_roles d' = qd_roles d \<and> qd_dungeons d' = qd_dungeons d \<and> qd_joinTime d' = qd_joinTime d"
  by (simp add: entry_core_def)

lemma entry_core_best [simp]: "entry_core (d\<lparr>qd_best := b\<rparr>) = entry_core d"
  by (simp add: entry_core_def)

lemma entries_update_entry [simp]:
  "(\<And>d. entry_core (f d) = entry_core d) \<Longrightarrow> entries (update_entry g f q) = entries q"
  by (simp add: entries_def update_entry_def comp_def case_prod_unfold)

lemma entries_cong [simp]:
  "entries (SetCompatibles key c q) = entries q"
  "entries (SetCompatibilityData key cd q) = entries q"
  "entries (RemoveFromCompatibles g q) = entries q"
  "entries (AddToNewQueue g q) = entries q"
  "entries (RemoveFromNewQueue g q) = entries q"
  "entries (AddToCurrentQueue g q) = entries q"
  "entries (RemoveFromCurrentQueue g q) = entries q"
  by (simp_all add: entries_def SetCompatibles_def SetCompatibilityData_def RemoveFromCompatibles_def
      AddToNewQueue_def RemoveFromNewQueue_def AddToCurrentQueue_def RemoveFromCurrentQueue_def Let_def)

lemma entries_RemoveFromQueue: "entries (RemoveFromQueue g q) = om_erase g (entries q)"
proof -
  have "map (\<lambda>(k, d). (k, entry_core d)) (filter (\<lambda>p. fst p \<noteq> g) (map (\<lambda>(k, d). (k, f k d)) es)) =
      filter (\<lambda>p. fst p \<noteq> g) (map (\<lambda>(k, d). (k, entry_core d)) es)"
    if "\<And>k d. entry_core (f k d) = entry_core d" for f and es :: "(guid \<times> lfg_queue_data) list"
    using that by (induction es) auto
  note this [of "\<lambda>k d. if k \<noteq> g \<and> sublist (guid_str g) (qd_best d)
      then FindBestCompatibleInQueue (q_compat (RemoveFromCompatibles g (RemoveFromCurrentQueue g (RemoveFromNewQueue g q)))) k
        (d\<lparr>qd_best := []\<rparr>) else d"]
  moreover have "q_data (RemoveFromCompatibles g (RemoveFromCurrentQueue g (RemoveFromNewQueue g q))) = q_data q"
    by (simp add: RemoveFromCompatibles_def RemoveFromCurrentQueue_def RemoveFromNewQueue_def)
  ultimately show ?thesis by (simp add: entries_def RemoveFromQueue_def Let_def om_erase_def)
qed

lemma entries_find: "om_find (entries q) g = map_option entry_core (om_find (q_data q) g)"
  unfolding entries_def by (simp add: om_find_map_values)

lemma entries_keys: "om_keys (entries q) = om_keys (q_data q)"
  by (simp add: entries_def)

lemma entries_ok: "om_ok (entries q) \<longleftrightarrow> om_ok (q_data q)"
  by (simp add: entries_def om_ok_def comp_def case_prod_unfold)

lemma entry_of_core: "entries q' = entries q \<Longrightarrow> entry_core (entry_of q' g) = entry_core (entry_of q g)"
proof -
  assume eq: "entries q' = entries q"
  then have "map_option entry_core (om_find (q_data q') g) = map_option entry_core (om_find (q_data q) g)"
    by (simp flip: entries_find)
  then show ?thesis by (auto simp: entry_of_def om_at_def split: option.splits)
qed

text \<open>Well-formed queues: sorted containers, between one and five members per entry.\<close>

definition entry_ok :: "lfg_queue_data \<Rightarrow> bool" where
  "entry_ok d \<longleftrightarrow> om_ok (qd_roles d) \<and> qd_roles d \<noteq> [] \<and> length (qd_roles d) \<le> MAXGROUPSIZE \<and>
     os_ok (qd_dungeons d) \<and> qd_dungeons d \<noteq> []"

definition queue_ok :: "lfg_queue \<Rightarrow> bool" where
  "queue_ok q \<longleftrightarrow> om_ok (q_data q) \<and> om_ok (q_compat q) \<and> (\<forall>(g, d)\<in>set (q_data q). entry_ok d)"

lemma entry_ok_core: "entry_core d' = entry_core d \<Longrightarrow> entry_ok d' = entry_ok d"
  by (simp add: entry_ok_def entry_core_def)

lemma queue_ok_entries:
  "queue_ok q \<longleftrightarrow> om_ok (entries q) \<and> om_ok (q_compat q) \<and>
     (\<forall>(g, j, ds, rs)\<in>set (entries q). om_ok rs \<and> rs \<noteq> [] \<and> length rs \<le> MAXGROUPSIZE \<and> os_ok ds \<and> ds \<noteq> [])"
  unfolding queue_ok_def entries_ok by (auto simp: entries_def entry_core_def entry_ok_def)

lemma queue_ok_find: "queue_ok q \<Longrightarrow> om_find (q_data q) g = Some d \<Longrightarrow> entry_ok d"
  by (auto simp: queue_ok_def dest: om_find_mem)

lemma compat_ok [simp]:
  "om_ok (q_compat q) \<Longrightarrow> om_ok (q_compat (SetCompatibles key c q))"
  "om_ok (q_compat q) \<Longrightarrow> om_ok (q_compat (SetCompatibilityData key cd q))"
  "om_ok (q_compat q) \<Longrightarrow> om_ok (q_compat (RemoveFromQueue g q))"
  "om_ok (q_compat q) \<Longrightarrow> om_ok (q_compat (RemoveFromCompatibles g q))"
  "q_compat (update_entry g f q) = q_compat q"
  "q_compat (RemoveFromNewQueue g q) = q_compat q"
  "q_compat (RemoveFromCurrentQueue g q) = q_compat q"
  "q_compat (AddToCurrentQueue g q) = q_compat q"
  "q_compat (AddToNewQueue g q) = q_compat q"
  by (simp_all add: SetCompatibles_def SetCompatibilityData_def RemoveFromQueue_def RemoveFromCompatibles_def
      update_entry_def RemoveFromNewQueue_def RemoveFromCurrentQueue_def AddToCurrentQueue_def AddToNewQueue_def
      om_ok_filter Let_def)

lemma queue_ok_cong: "queue_ok q \<Longrightarrow> entries q' = entries q \<Longrightarrow> om_ok (q_compat q') \<Longrightarrow> queue_ok q'"
  by (simp add: queue_ok_entries)

lemma queue_ok_compat: "queue_ok q \<Longrightarrow> om_ok (q_compat q)"
  by (simp add: queue_ok_def)

lemma queue_ok_ops [inv_intros]:
  "queue_ok q \<Longrightarrow> queue_ok (SetCompatibles key c q)"
  "queue_ok q \<Longrightarrow> queue_ok (SetCompatibilityData key cd q)"
  "queue_ok q \<Longrightarrow> queue_ok (update_entry g (UpdateBestCompatibleInQueue key roles) q)"
  "queue_ok q \<Longrightarrow> queue_ok (RemoveFromNewQueue g q)"
  "queue_ok q \<Longrightarrow> queue_ok (RemoveFromCurrentQueue g q)"
  "queue_ok q \<Longrightarrow> queue_ok (AddToCurrentQueue g q)"
  "queue_ok q \<Longrightarrow> queue_ok (AddToNewQueue g q)"
  by (auto intro: queue_ok_cong [of q] simp: queue_ok_compat)

lemma queue_ok_RemoveFromQueue [inv_intros]: "queue_ok q \<Longrightarrow> queue_ok (RemoveFromQueue g q)"
  by (simp add: queue_ok_entries entries_RemoveFromQueue) (auto simp: om_erase_def)

lemma queue_ok_AddQueueData:
  "queue_ok q \<Longrightarrow> entry_ok (qd_make joinTime dungeons roles) \<Longrightarrow> queue_ok (AddQueueData g joinTime dungeons roles q)"
proof -
  assume q: "queue_ok q" and e: "entry_ok (qd_make joinTime dungeons roles)"
  let ?q = "q\<lparr>q_data := om_put g (qd_make joinTime dungeons roles) (q_data q)\<rparr>"
  have "entry_ok d" if "(k, d) \<in> set (q_data ?q)" for k d
  proof -
    have "om_find (q_data ?q) k = Some d" using that q by (subst om_find_iff_mem) (auto simp: queue_ok_def)
    then show ?thesis using e queue_ok_find [OF q] by (auto split: if_splits)
  qed
  then have "queue_ok ?q" using q by (auto simp: queue_ok_def)
  then show ?thesis by (simp add: AddQueueData_def AddToQueue_def queue_ok_ops)
qed

section \<open>Lemmas: needs and waiting times\<close>

lemma fold_need_role:
  "qd_tanks (fold (\<lambda>(p, role). need_role role) roles d) =
     qd_tanks d - of_nat (length (filter (\<lambda>(p, r). has_bits r PLAYER_ROLE_TANK) roles))"
  "qd_healers (fold (\<lambda>(p, role). need_role role) roles d) =
     qd_healers d - of_nat (length (filter (\<lambda>(p, r). \<not> has_bits r PLAYER_ROLE_TANK \<and> has_bits r PLAYER_ROLE_HEALER) roles))"
  "qd_dps (fold (\<lambda>(p, role). need_role role) roles d) =
     qd_dps d - of_nat (length (filter (\<lambda>(p, r). \<not> has_bits r PLAYER_ROLE_TANK \<and> \<not> has_bits r PLAYER_ROLE_HEALER) roles))"
  by (induction roles arbitrary: d) (auto split: if_splits)

lemma single_role_bits:
  assumes "single_role r"
  shows "has_bits r PLAYER_ROLE_TANK \<longleftrightarrow> no_leader r = PLAYER_ROLE_TANK"
    and "\<not> has_bits r PLAYER_ROLE_TANK \<and> has_bits r PLAYER_ROLE_HEALER \<longleftrightarrow> no_leader r = PLAYER_ROLE_HEALER"
    and "\<not> has_bits r PLAYER_ROLE_TANK \<and> \<not> has_bits r PLAYER_ROLE_HEALER \<longleftrightarrow> no_leader r = PLAYER_ROLE_DAMAGE"
proof -
  obtain i where i: "i \<in> {Suc 0, 2, 3}" "no_leader r = role_flag i"
    using assms unfolding single_role_def role_flags by blast
  then have bits: "bit r n \<longleftrightarrow> n = i" if "1 \<le> n" for n
    using role_is_flag [of i r] that by auto
  have flags: "role_flag j = role_flag k \<longleftrightarrow> j = k" if "j < 8" "k < 8" for j k
    using that bit_role_flag by metis
  note has = has_role_flag [of "Suc 0" r] has_role_flag [of 2 r] bits [of "Suc 0"] bits [of 2]
  show "has_bits r PLAYER_ROLE_TANK \<longleftrightarrow> no_leader r = PLAYER_ROLE_TANK"
    "\<not> has_bits r PLAYER_ROLE_TANK \<and> has_bits r PLAYER_ROLE_HEALER \<longleftrightarrow> no_leader r = PLAYER_ROLE_HEALER"
    "\<not> has_bits r PLAYER_ROLE_TANK \<and> \<not> has_bits r PLAYER_ROLE_HEALER \<longleftrightarrow> no_leader r = PLAYER_ROLE_DAMAGE"
    unfolding role_flags i(2) using has i(1) flags by auto
qed

lemma role_count_bits:
  assumes "\<forall>(p, r)\<in>set roles. single_role r"
  shows "length (filter (\<lambda>(p, r). has_bits r PLAYER_ROLE_TANK) roles) = role_count PLAYER_ROLE_TANK roles"
    and "length (filter (\<lambda>(p, r). \<not> has_bits r PLAYER_ROLE_TANK \<and> has_bits r PLAYER_ROLE_HEALER) roles) = role_count PLAYER_ROLE_HEALER roles"
    and "length (filter (\<lambda>(p, r). \<not> has_bits r PLAYER_ROLE_TANK \<and> \<not> has_bits r PLAYER_ROLE_HEALER) roles) = role_count PLAYER_ROLE_DAMAGE roles"
proof -
  have "single_role (snd x)" if "x \<in> set roles" for x using assms that by auto
  note bits = single_role_bits [OF this]
  show "length (filter (\<lambda>(p, r). has_bits r PLAYER_ROLE_TANK) roles) = role_count PLAYER_ROLE_TANK roles"
    unfolding role_count_def case_prod_unfold by (rule arg_cong [where f = length], rule filter_cong) (simp_all only: bits(1))
  show "length (filter (\<lambda>(p, r). \<not> has_bits r PLAYER_ROLE_TANK \<and> has_bits r PLAYER_ROLE_HEALER) roles) = role_count PLAYER_ROLE_HEALER roles"
    unfolding role_count_def case_prod_unfold by (rule arg_cong [where f = length], rule filter_cong) (simp_all only: bits(2))
  show "length (filter (\<lambda>(p, r). \<not> has_bits r PLAYER_ROLE_TANK \<and> \<not> has_bits r PLAYER_ROLE_HEALER) roles) = role_count PLAYER_ROLE_DAMAGE roles"
    unfolding role_count_def case_prod_unfold by (rule arg_cong [where f = length], rule filter_cong) (simp_all only: bits(3))
qed

lemma unat_sub: "n \<le> m \<Longrightarrow> m < 256 \<Longrightarrow> unat (of_nat m - of_nat n :: uint8) = m - n"
  by (simp add: unat_sub_if' unat_of_nat flip: of_nat_diff)

lemma add_wait_exact:
  assumes "unat (wt_time wt) * unat (wt_number wt) + unat w < 2 ^ 32" and "unat (wt_number wt) + 1 < 2 ^ 32"
  shows "unat (wt_time (add_wait w wt)) = (unat (wt_time wt) * unat (wt_number wt) + unat w) div (unat (wt_number wt) + 1)"
    and "unat (wt_number (add_wait w wt)) = unat (wt_number wt) + 1"
proof -
  show n: "unat (wt_number (add_wait w wt)) = unat (wt_number wt) + 1"
    using assms(2) by (simp add: add_wait_def unat_word_ariths)
  have "unat (wt_time wt * wt_number wt + w) = unat (wt_time wt) * unat (wt_number wt) + unat w"
    using assms(1) by (simp add: unat_word_ariths mod_add_left_eq)
  then show "unat (wt_time (add_wait w wt)) = (unat (wt_time wt) * unat (wt_number wt) + unat w) div (unat (wt_number wt) + 1)"
    using n by (simp add: add_wait_def unat_div)
qed

lemma average_between:
  fixes t k w m M :: nat
  assumes "m \<le> t" "t \<le> M" "m \<le> w" "w \<le> M"
  shows "m \<le> (t * k + w) div (k + 1) \<and> (t * k + w) div (k + 1) \<le> M"
proof -
  have "m * k \<le> t * k" "t * k \<le> M * k" using assms(1,2) by (intro mult_le_mono; simp)+
  then have "m * (k + 1) \<le> t * k + w" "t * k + w \<le> M * (k + 1)"
    using assms(3,4) by (simp_all only: distrib_left mult_1_right add_mono)
  then show ?thesis
    by (metis add_gr_0 div_le_mono nonzero_mult_div_cancel_right not_gr_zero zero_less_one)
qed

lemma wait_steps:
  assumes "\<forall>w\<in>set ws. m \<le> unat w \<and> unat w \<le> M" and "m \<le> unat (wt_time wt)" "unat (wt_time wt) \<le> M"
    and "M * (unat (wt_number wt) + length ws) < 2 ^ 32" "unat (wt_number wt) + length ws < 2 ^ 32"
  shows "m \<le> unat (wt_time (fold add_wait ws wt)) \<and> unat (wt_time (fold add_wait ws wt)) \<le> M \<and>
    unat (wt_number (fold add_wait ws wt)) = unat (wt_number wt) + length ws"
  using assms
proof (induction ws arbitrary: wt)
  case (Cons w ws)
  let ?t = "unat (wt_time wt)" and ?k = "unat (wt_number wt)"
  have "?t * ?k + unat w \<le> M * ?k + M" using Cons.prems by (intro add_mono mult_mono) auto
  also have "\<dots> = M * (?k + 1)" by simp
  also have "\<dots> \<le> M * (?k + length (w # ws))" by (intro mult_le_mono2) simp
  also have "\<dots> < 2 ^ 32" by (rule Cons.prems(4))
  finally have small: "?t * ?k + unat w < 2 ^ 32" .
  have "?k + 1 < 2 ^ 32" using Cons.prems(5) by simp
  note step = add_wait_exact [OF small this]
  have "m \<le> unat (wt_time (add_wait w wt)) \<and> unat (wt_time (add_wait w wt)) \<le> M"
    unfolding step using Cons.prems by (intro average_between) auto
  then show ?case using Cons.IH [of "add_wait w wt"] Cons.prems step(2) by simp
qed simp

lemma RemoveFromQueue_fields:
  "q_current (RemoveFromQueue g q) = removeAll g (q_current q)"
  "q_new (RemoveFromQueue g q) = removeAll g (q_new q)"
  "q_compat (RemoveFromQueue g q) = filter (\<lambda>(key, d). \<not> sublist (guid_str g) key) (q_compat q)"
  by (simp_all add: RemoveFromQueue_def RemoveFromCompatibles_def RemoveFromCurrentQueue_def RemoveFromNewQueue_def Let_def)

section \<open>Properties\<close>

text \<open>The key of a list of entries identifies its set of entries: two lists have the
  same key exactly when they contain the same guids, whatever their order.\<close>

theorem ConcatenateGuids_identifies: "ConcatenateGuids a = ConcatenateGuids b \<longleftrightarrow> set a = set b"
  by (rule key_eq)

text \<open>C36: After a guid left the queue nothing refers to it: it is in none of the two lists, has no
  data, occurs in no key of the compatibility cache and in nobody's best combination; and
  all other entries keep their join time, dungeons and roles.\<close>

theorem RemoveFromQueue_forgets:
  "g \<notin> set (q_new (RemoveFromQueue g q)) \<and> g \<notin> set (q_current (RemoveFromQueue g q)) \<and>
   entries (RemoveFromQueue g q) = om_erase g (entries q) \<and>
   list_all (\<lambda>(key, c). \<not> sublist (guid_str g) key) (q_compat (RemoveFromQueue g q)) \<and>
   list_all (\<lambda>(k, d). \<not> sublist (guid_str g) (qd_best d)) (q_data (RemoveFromQueue g q))"
proof -
  let ?q = "RemoveFromCompatibles g (RemoveFromCurrentQueue g (RemoveFromNewQueue g q))"
  have clean: "\<not> sublist (guid_str g) (fst kc)" if "kc \<in> set (q_compat ?q)" for kc
    using that by (auto simp: RemoveFromCompatibles_def)
  have best: "\<not> sublist (guid_str g) (qd_best (FindBestCompatibleInQueue (q_compat ?q) k (d\<lparr>qd_best := []\<rparr>)))" for k and d :: lfg_queue_data
    using FindBest_best [of "q_compat ?q" k "d\<lparr>qd_best := []\<rparr>"] clean by auto
  have "list_all (\<lambda>(k, d). \<not> sublist (guid_str g) (qd_best d)) (q_data (RemoveFromQueue g q))"
    using best by (auto simp: RemoveFromQueue_def Let_def om_erase_def list_all_iff split: if_splits)
  then show ?thesis
    by (simp add: RemoveFromQueue_fields entries_RemoveFromQueue list_all_iff)
qed

text \<open>The places an entry still needs are what its best combination leaves open.  When a
  combination with valid roles replaces a smaller one, tank, healer and damage dealer
  needs are the group's places minus the members with that role.\<close>

theorem UpdateBest_needs:
  assumes "valid_roles roles" and "qd_best d = [] \<or> key_size (qd_best d) < key_size key" and "key_size key \<noteq> 0"
  shows "let d' = UpdateBestCompatibleInQueue key roles d in
      qd_best d' = key \<and> unat (qd_tanks d') = 1 - role_count PLAYER_ROLE_TANK roles \<and>
      unat (qd_healers d') = 1 - role_count PLAYER_ROLE_HEALER roles \<and>
      unat (qd_dps d') = 3 - role_count PLAYER_ROLE_DAMAGE roles"
proof -
  have grows: "\<not> key_size key \<le> (if qd_best d = [] then 0 else key_size (qd_best d))"
    using assms(2,3) by (auto simp: word_le_nat_alt word_less_nat_alt unat_eq_0)
  have single: "\<forall>(p, r)\<in>set roles. single_role r" and limits: "role_count PLAYER_ROLE_TANK roles \<le> 1"
    "role_count PLAYER_ROLE_HEALER roles \<le> 1" "role_count PLAYER_ROLE_DAMAGE roles \<le> 3"
    using assms(1) by (auto simp: valid_roles_def)
  note counts = role_count_bits [OF single]
  let ?d = "d\<lparr>qd_best := key, qd_tanks := LFG_TANKS_NEEDED, qd_healers := LFG_HEALERS_NEEDED, qd_dps := LFG_DPS_NEEDED\<rparr>"
  have new: "UpdateBestCompatibleInQueue key roles d = fold (\<lambda>(p, role). need_role role) roles ?d"
    using grows by (simp add: UpdateBestCompatibleInQueue_def Let_def)
  show ?thesis
    unfolding Let_def new fold_need_role counts
    using unat_sub [OF limits(1)] unat_sub [OF limits(2)] unat_sub [OF limits(3)] by simp
qed

lemma UpdateBest_needs_witness:
  "unat (qd_dps (UpdateBestCompatibleInQueue ''1|2'' [(1, 8), (2, 4)] (qd_make 0 [] []))) = 2"
proof -
  have "valid_roles [(1, 8), (2, 4)]" by (simp add: valid_roles_def single_role_def no_leader_def role_count_def)
  from UpdateBest_needs [OF this, of "qd_make 0 [] []" "''1|2''"]
  show ?thesis by (simp add: Let_def qd_make_def key_size_def role_count_def no_leader_def)
qed

text \<open>A waiting time stays between the shortest and the longest time reported, and
  counts the reports, as long as their sum fits into 32 bits.\<close>

theorem wait_time_between:
  assumes "ws \<noteq> []" and "\<forall>w\<in>set ws. m \<le> unat w \<and> unat w \<le> M"
    and "M * length ws < 2 ^ 32" and "length ws < 2 ^ 32"
  shows "m \<le> unat (wt_time (fold add_wait ws wt_init)) \<and> unat (wt_time (fold add_wait ws wt_init)) \<le> M \<and>
    unat (wt_number (fold add_wait ws wt_init)) = length ws"
proof -
  obtain w rest where ws: "ws = w # rest" using assms(1) by (cases ws) auto
  have first: "add_wait w wt_init = \<lparr>wt_time = w, wt_number = 1\<rparr>" by (simp add: add_wait_def wt_init_def)
  have "m \<le> unat (wt_time (fold add_wait rest (add_wait w wt_init))) \<and>
      unat (wt_time (fold add_wait rest (add_wait w wt_init))) \<le> M \<and>
      unat (wt_number (fold add_wait rest (add_wait w wt_init))) = unat (wt_number (add_wait w wt_init)) + length rest"
    by (rule wait_steps) (use assms ws in \<open>simp_all add: first\<close>)
  then show ?thesis by (simp add: ws first)
qed

lemma wait_time_between_witness: "unat (wt_time (fold add_wait [30, 90] wt_init)) \<le> 90"
  using wait_time_between [of "[30, 90]" 30 90] by simp

end
