(* ===== verification/LfgSearch.thy ===== *)
theory LfgSearch
  imports LfgQueue
begin

text \<open>
  Correctness of the search for groups, \<^verbatim>\<open>LFGQueue::FindGroups\<close> of
  \<^verbatim>\<open>src/src/server/game/DungeonFinding/LFGQueue.cpp\<close>: what a match consists of, the contract
  \<open>search_invariant\<close> of the changes a search makes to the queue and the manager, two
  instances of it, and the fuel of the two loops.
\<close>

section \<open>Lemmas: players, leader and dungeon of a match\<close>

lemma entry_of_find: "om_find (q_data q) g = Some d \<Longrightarrow> entry_of q g = d"
  by (simp add: entry_of_def om_at_def)

abbreviation members :: "lfg_queue \<Rightarrow> guid \<Rightarrow> roles_map" where
  "members q g \<equiv> qd_roles (entry_of q g)"

text \<open>When at most one group and at most five players were counted, the loop saw every entry.\<close>

lemma count_loop_complete:
  assumes "count_loop q s gs t = Inr t'" and "t_numLfgGroups t' < 2" and "unat (t_numPlayers t') \<le> MAXGROUPSIZE"
  shows "set gs \<subseteq> om_keys (q_data q) \<and>
    t_numPlayers t' = t_numPlayers t + of_nat (\<Sum>g\<leftarrow>gs. length (members q g))"
  using assms
proof (induction gs arbitrary: t)
  case (Cons g gs)
  have go: "t_numLfgGroups t < 2 \<and> unat (t_numPlayers t) \<le> MAXGROUPSIZE"
    using Cons.prems by (auto split: if_splits)
  then obtain d where d: "om_find (q_data q) g = Some d" using Cons.prems(1) by (auto split: option.splits)
  define t1 where "t1 = t\<lparr>t_groups := fold (\<lambda>(p, r). om_put p (if IsGroup g then g else 0)) (qd_roles d) (t_groups t),
     t_numPlayers := t_numPlayers t + of_nat (length (qd_roles d))\<rparr>"
  define t2 where "t2 = (if IsLfgGroup g s
     then t1\<lparr>t_group := (if t_numLfgGroups t = 0 then g else t_group t), t_numLfgGroups := t_numLfgGroups t + 1\<rparr> else t1)"
  have "count_loop q s (g # gs) t = count_loop q s gs t2" using go d by (simp add: t2_def t1_def Let_def)
  then have "count_loop q s gs t2 = Inr t'" using Cons.prems(1) by simp
  note IH = Cons.IH [OF this Cons.prems(2,3)]
  have "t_numPlayers t2 = t_numPlayers t + of_nat (length (members q g))"
    using entry_of_find [OF d] by (simp add: t2_def t1_def)
  moreover have "g \<in> om_keys (q_data q)" using d by (auto simp: om_find_keys)
  ultimately show ?case using IH by (simp add: add.assoc)
qed simp

lemma merge_role_keys: "om_keys (merge_role env pr roles) \<subseteq> insert (fst pr) (om_keys roles)"
  by (auto simp: merge_role_def)

lemma merge_role_ok: "om_ok roles \<Longrightarrow> om_ok (merge_role env pr roles)"
  by (simp add: merge_role_def)

lemma om_put_length: "length (om_put k v m) \<le> Suc (length m)"
  by (induction k v m rule: om_put.induct) auto

lemma merge_entry:
  "om_keys (fold (merge_role env) es roles) \<subseteq> om_keys es \<union> om_keys roles"
  "om_ok roles \<Longrightarrow> om_ok (fold (merge_role env) es roles)"
  "length (fold (merge_role env) es roles) \<le> length es + length roles"
proof -
  show "om_keys (fold (merge_role env) es roles) \<subseteq> om_keys es \<union> om_keys roles"
  proof (induction es arbitrary: roles)
    case (Cons pr es)
    then show ?case using Cons.IH [of "merge_role env pr roles"] merge_role_keys [of env pr roles]
      by (cases pr) auto
  qed simp
  show "om_ok roles \<Longrightarrow> om_ok (fold (merge_role env) es roles)"
    by (induction es arbitrary: roles) (simp_all add: merge_role_ok)
  show "length (fold (merge_role env) es roles) \<le> length es + length roles"
  proof (induction es arbitrary: roles)
    case (Cons pr es)
    have "length (merge_role env pr roles) \<le> Suc (length roles)" by (simp add: merge_role_def om_put_length)
    then show ?case using Cons.IH [of "merge_role env pr roles"] by simp
  qed simp
qed

lemma merge_roles_props:
  "om_keys (merge_roles env q gs) \<subseteq> (\<Union>g\<in>set gs. om_keys (members q g))"
  "om_ok (merge_roles env q gs)"
  "length (merge_roles env q gs) \<le> (\<Sum>g\<leftarrow>gs. length (members q g))"
proof -
  let ?f = "\<lambda>g. fold (merge_role env) (members q g)"
  have "om_keys (fold ?f gs roles) \<subseteq> (\<Union>g\<in>set gs. om_keys (members q g)) \<union> om_keys roles" for roles
  proof (induction gs arbitrary: roles)
    case (Cons g gs)
    then show ?case using Cons.IH [of "?f g roles"] merge_entry(1) [of env "members q g" roles] by auto
  qed simp
  then show "om_keys (merge_roles env q gs) \<subseteq> (\<Union>g\<in>set gs. om_keys (members q g))"
    unfolding merge_roles_def by fastforce
  have "om_ok roles \<Longrightarrow> om_ok (fold ?f gs roles)" for roles
    by (induction gs arbitrary: roles) (simp_all add: merge_entry(2))
  then show "om_ok (merge_roles env q gs)" by (simp add: merge_roles_def)
  have "length (fold ?f gs roles) \<le> (\<Sum>g\<leftarrow>gs. length (members q g)) + length roles" for roles
  proof (induction gs arbitrary: roles)
    case (Cons g gs)
    show ?case using Cons.IH [of "?f g roles"] merge_entry(3) [of env "members q g" roles] by simp
  qed simp
  from this [of "[]"] show "length (merge_roles env q gs) \<le> (\<Sum>g\<leftarrow>gs. length (members q g))"
    by (simp add: merge_roles_def)
qed

text \<open>Members of one another's ignore lists are never merged.\<close>

definition no_ignores :: "lfg_env \<Rightarrow> roles_map \<Rightarrow> bool" where
  "no_ignores env m \<longleftrightarrow> (\<forall>k\<in>om_keys m. \<forall>k'\<in>om_keys m. k \<noteq> k' \<longrightarrow> \<not> HasIgnore env k k')"

lemma HasIgnore_sym: "HasIgnore env a b = HasIgnore env b a"
  by (auto simp: HasIgnore_def)

lemma merge_role_no_ignores: "no_ignores env roles \<Longrightarrow> no_ignores env (merge_role env pr roles)"
proof -
  assume no: "no_ignores env roles"
  show "no_ignores env (merge_role env pr roles)"
  proof (cases "list_all (\<lambda>(k, r). fst pr = k \<or> \<not> HasIgnore env (fst pr) k) roles")
    case True
    then have "\<forall>k\<in>om_keys roles. k = fst pr \<or> (\<not> HasIgnore env (fst pr) k \<and> \<not> HasIgnore env k (fst pr))"
      by (auto simp: list_all_iff om_keys_def HasIgnore_sym)
    then show ?thesis using no unfolding no_ignores_def merge_role_def by auto
  qed (simp add: merge_role_def no)
qed

lemma merge_roles_no_ignores: "no_ignores env (merge_roles env q gs)"
proof -
  have entry: "no_ignores env roles \<Longrightarrow> no_ignores env (fold (merge_role env) es roles)" for es roles
    by (induction es arbitrary: roles) (simp_all add: merge_role_no_ignores)
  have "no_ignores env roles \<Longrightarrow> no_ignores env (fold (\<lambda>g. fold (merge_role env) (members q g)) gs roles)" for roles
    by (induction gs arbitrary: roles) (simp_all add: entry)
  from this [of "[]"] show ?thesis by (simp add: merge_roles_def no_ignores_def)
qed

lemma common_dungeons_mem:
  "gs \<noteq> [] \<Longrightarrow> set (common_dungeons q gs) = {d. \<forall>g\<in>set gs. d \<in> set (qd_dungeons (entry_of q g))}"
proof -
  have "set (fold (\<lambda>g ds. filter (\<lambda>d. d \<in> set (qd_dungeons (entry_of q g))) ds) gs ds) =
      {d \<in> set ds. \<forall>g\<in>set gs. d \<in> set (qd_dungeons (entry_of q g))}" for gs ds
    by (induction gs arbitrary: ds) auto
  then show "gs \<noteq> [] \<Longrightarrow> set (common_dungeons q gs) = {d. \<forall>g\<in>set gs. d \<in> set (qd_dungeons (entry_of q g))}"
    by (cases gs) (auto simp: common_dungeons_def)
qed

lemma select_random_in: "xs \<noteq> [] \<Longrightarrow> select_random env xs \<in> set xs"
  by (simp add: select_random_def)

text \<open>The leader is a member, and one who offered to lead when there is one.\<close>

definition lead_inv :: "roles_map \<Rightarrow> bool \<times> guid \<Rightarrow> bool" where
  "lead_inv seen acc \<longleftrightarrow> (seen \<noteq> [] \<longrightarrow> snd acc \<in> om_keys seen) \<and>
     (fst acc \<longleftrightarrow> (\<exists>(p, r)\<in>set seen. has_bits r PLAYER_ROLE_LEADER)) \<and>
     (fst acc \<longrightarrow> (\<exists>r. (snd acc, r) \<in> set seen \<and> has_bits r PLAYER_ROLE_LEADER))"

lemma lead_inv_step:
  assumes "lead_inv seen acc" and "seen = [] \<longrightarrow> snd acc = 0"
  shows "lead_inv (seen @ [pr]) (lead_step env pr acc)"
proof -
  obtain p r where pr: "pr = (p, r)" by fastforce
  obtain found leader where acc: "acc = (found, leader)" by fastforce
  show ?thesis
    using assms by (cases "seen = []") (auto simp: lead_inv_def lead_step_def pr acc om_keys_def)
qed

lemma lead_inv_fold: "lead_inv roles (fold (lead_step env) roles (False, 0))"
proof -
  have "lead_inv (seen @ roles) (fold (lead_step env) roles acc)"
    if "lead_inv seen acc" "seen = [] \<longrightarrow> snd acc = 0" for seen acc
    using that
  proof (induction roles arbitrary: seen acc)
    case (Cons pr roles)
    from lead_inv_step [OF Cons.prems] have "lead_inv (seen @ [pr]) (lead_step env pr acc)" .
    from Cons.IH [OF this] show ?case by simp
  qed simp
  from this [of "[]" "(False, 0)"] show ?thesis by (simp add: lead_inv_def)
qed

section \<open>The contract of the search\<close>

text \<open>A proposal that the entries of a queue and the states of their owners justify.\<close>

definition proposal_ok :: "lfg_env \<Rightarrow> lfg_queue \<Rightarrow> 'a lfg_store_scheme \<Rightarrow> lfg_proposal \<Rightarrow> bool" where
  "proposal_ok env q s p \<longleftrightarrow>
     pr_state p = LFG_PROPOSAL_INITIATING \<and> AllQueued (pr_queues p) s \<and> set (pr_queues p) \<subseteq> om_keys (q_data q) \<and>
     om_ok (pr_players p) \<and> length (pr_players p) = MAXGROUPSIZE \<and>
     om_keys (pr_players p) = (\<Union>g\<in>set (pr_queues p). om_keys (members q g)) \<and>
     (1 < length (pr_queues p) \<longrightarrow> valid_roles (map (\<lambda>(k, d). (k, pp_role d)) (pr_players p)) \<and>
        no_ignores env (map (\<lambda>(k, d). (k, pp_role d)) (pr_players p))) \<and>
     pr_leader p \<in> om_keys (pr_players p) \<and>
     ((\<exists>(k, d)\<in>set (pr_players p). has_bits (pp_role d) PLAYER_ROLE_LEADER) \<longrightarrow>
      (\<exists>d. (pr_leader p, d) \<in> set (pr_players p) \<and> has_bits (pp_role d) PLAYER_ROLE_LEADER)) \<and>
     (\<forall>g\<in>set (pr_queues p). pr_dungeonId p \<in> set (qd_dungeons (entry_of q g)))"

lemma proposal_ok_cong: "entries q' = entries q \<Longrightarrow> proposal_ok env q' s p = proposal_ok env q s p"
proof -
  assume eq: "entries q' = entries q"
  have core: "qd_roles (entry_of q' g) = qd_roles (entry_of q g)" "qd_dungeons (entry_of q' g) = qd_dungeons (entry_of q g)" for g
    using qd_core [OF entry_of_core [OF eq]] by simp_all
  have "om_keys (q_data q') = om_keys (q_data q)" using eq by (simp flip: entries_keys)
  then show ?thesis by (simp add: proposal_ok_def core)
qed

lemma proposal_ok_id [simp]: "proposal_ok env q s (p\<lparr>pr_id := i\<rparr>) = proposal_ok env q s p"
  by (simp add: proposal_ok_def)

lemma make_proposal_ok:
  assumes "check \<noteq> []" and "set check \<subseteq> om_keys (q_data q)" and "AllQueued check s"
    and "om_ok roles" and "length roles = MAXGROUPSIZE"
    and "om_keys roles = (\<Union>g\<in>set check. om_keys (members q g))"
    and "1 < length check \<longrightarrow> valid_roles roles \<and> no_ignores env roles"
    and "ds \<noteq> []" and "set ds \<subseteq> {d. \<forall>g\<in>set check. d \<in> set (qd_dungeons (entry_of q g))}"
  shows "proposal_ok env q s (make_proposal env check isNew t roles ds)"
proof -
  let ?p = "make_proposal env check isNew t roles ds"
  let ?lead = "fold (lead_step env) roles (False, 0)"
  have roles: "map (\<lambda>(k, d). (k, pp_role d)) (pr_players ?p) = roles"
    by (simp add: make_proposal_def comp_def case_prod_unfold Let_def)
  have keys: "om_keys (pr_players ?p) = om_keys roles" "om_ok (pr_players ?p)" "length (pr_players ?p) = length roles"
    using assms(4) by (simp_all add: make_proposal_def om_keys_def om_ok_def image_image comp_def case_prod_unfold Let_def)
  have mem: "(\<exists>d. (k, d) \<in> set (pr_players ?p) \<and> pp_role d = r) \<longleftrightarrow> (k, r) \<in> set roles" for k r
    unfolding arg_cong [OF roles, of set, symmetric] by force
  have lead: "lead_inv roles ?lead" by (rule lead_inv_fold)
  have some: "roles \<noteq> []" using assms(5) by auto
  have "(\<exists>(k, d)\<in>set (pr_players ?p). has_bits (pp_role d) PLAYER_ROLE_LEADER) \<longleftrightarrow> (\<exists>(k, r)\<in>set roles. has_bits r PLAYER_ROLE_LEADER)"
    unfolding Bex_def case_prod_unfold split_paired_Ex fst_conv snd_conv using mem by metis
  moreover have "(\<exists>d. (pr_leader ?p, d) \<in> set (pr_players ?p) \<and> has_bits (pp_role d) PLAYER_ROLE_LEADER)"
    if offer: "\<exists>(k, r)\<in>set roles. has_bits r PLAYER_ROLE_LEADER"
  proof -
    obtain r where "(snd ?lead, r) \<in> set roles" "has_bits r PLAYER_ROLE_LEADER"
      using lead offer unfolding lead_inv_def by blast
    moreover have "pr_leader ?p = snd ?lead" by (simp add: make_proposal_def)
    ultimately show ?thesis using mem by metis
  qed
  ultimately have offered: "(\<exists>(k, d)\<in>set (pr_players ?p). has_bits (pp_role d) PLAYER_ROLE_LEADER) \<longrightarrow>
      (\<exists>d. (pr_leader ?p, d) \<in> set (pr_players ?p) \<and> has_bits (pp_role d) PLAYER_ROLE_LEADER)" by blast
  have "pr_dungeonId ?p \<in> set ds" using select_random_in [OF assms(8), of env] by (simp add: make_proposal_def)
  then have dungeon: "\<forall>g\<in>set check. pr_dungeonId ?p \<in> set (qd_dungeons (entry_of q g))" using assms(9) by blast
  have leader: "pr_leader ?p \<in> om_keys roles" using lead some by (simp add: lead_inv_def make_proposal_def)
  have rest: "pr_queues ?p = check" "pr_state ?p = LFG_PROPOSAL_INITIATING" by (simp_all add: make_proposal_def)
  show ?thesis unfolding proposal_ok_def roles keys rest
    using assms offered dungeon leader keys by simp
qed

text \<open>
  What any property of the queue and the manager needs to survive the search:
  it holds after each single change the search makes.
\<close>

locale search_invariant =
  fixes env :: lfg_env and I :: "lfg_queue \<Rightarrow> 'a lfg_store_scheme \<Rightarrow> bool"
  assumes wf: "I q s \<Longrightarrow> queue_ok q"
    and forget: "I q s \<Longrightarrow> om_find (q_data q) g = None \<Longrightarrow> I (RemoveFromQueue g q) s"
    and remember: "I q s \<Longrightarrow> I (SetCompatibles key c q) s"
    and remember_data: "I q s \<Longrightarrow> I (SetCompatibilityData key cd q) s"
    and improve: "I q s \<Longrightarrow> I (update_entry g (UpdateBestCompatibleInQueue key roles) q) s"
    and take_new: "I q s \<Longrightarrow> I (RemoveFromNewQueue g q) s"
    and take_current: "I q s \<Longrightarrow> I (RemoveFromCurrentQueue g q) s"
    and wait_on: "I q s \<Longrightarrow> I (AddToCurrentQueue g q) s"
    and propose: "I q s \<Longrightarrow> proposal_ok env q s p \<Longrightarrow> I q (AddProposal p s)"
begin

lemma improve_all: "I q s \<Longrightarrow> I (fold (\<lambda>g. update_entry g (UpdateBestCompatibleInQueue key roles)) gs q) s"
  by (induction gs arbitrary: q) (simp_all add: improve)

lemma take_all: "I q s \<Longrightarrow> I (fold (\<lambda>g q. RemoveFromCurrentQueue g (RemoveFromNewQueue g q)) gs q) s"
  by (induction gs arbitrary: q) (simp_all add: take_new take_current)

lemma entries_take: "entries (fold (\<lambda>g q. RemoveFromCurrentQueue g (RemoveFromNewQueue g q)) gs q) = entries q"
  by (induction gs arbitrary: q) simp_all

lemma match_step:
  assumes "I q s" and "AllQueued gs s \<Longrightarrow> unat (t_numPlayers t) = MAXGROUPSIZE \<Longrightarrow>
      proposal_ok env q s (make_proposal env gs (t_numLfgGroups t \<noteq> 1 \<or> GetOldState (hd gs) s \<noteq> LFG_STATE_DUNGEON) t roles ds)"
  shows "(\<lambda>(c, q', s'). I q' s') (check_match env gs t roles ds (q, s))"
proof -
  let ?q = "fold (\<lambda>g q. RemoveFromCurrentQueue g (RemoveFromNewQueue g q)) gs q"
  have "I (SetCompatibles key c ?q) (AddProposal p s)" if "proposal_ok env q s p" for key c p
  proof -
    have "entries (SetCompatibles key c ?q) = entries q" by (simp add: entries_take)
    then have "proposal_ok env (SetCompatibles key c ?q) s p" using that proposal_ok_cong by blast
    then show ?thesis using propose remember take_all assms(1) by blast
  qed
  then show ?thesis using assms
    by (simp add: check_match_def Let_def remember remember_data improve_all)
qed

end

subsection \<open>The matches found\<close>

lemma count_loop_missing: "count_loop q s gs t = Inl g \<Longrightarrow> om_find (q_data q) g = None"
  by (induction gs arbitrary: t) (auto simp: Let_def split: if_splits option.splits)

lemma entry_of_ok: "queue_ok q \<Longrightarrow> g \<in> om_keys (q_data q) \<Longrightarrow> entry_ok (entry_of q g)"
  unfolding om_find_keys using entry_of_find queue_ok_find by metis

lemma roles_post_keys: "roles_post m res \<Longrightarrow> map fst (snd res) = map fst m"
  using refines_roles_keys [of "snd res" m] by (auto simp: roles_post_def split: if_splits)

lemma same_keys: "map fst m' = map fst m \<Longrightarrow> om_keys m' = om_keys m \<and> length m' = length m \<and> om_ok m' = om_ok m"
proof -
  assume eq: "map fst m' = map fst m"
  have "om_keys m' = om_keys m" using arg_cong [OF eq, of set] by (simp add: om_keys_def)
  moreover have "length m' = length m" using arg_cong [OF eq, of length] by simp
  moreover have "om_ok m' = om_ok m" by (simp only: om_ok_def eq)
  ultimately show ?thesis by blast
qed

lemma player_total:
  assumes "queue_ok q" and "set gs \<subseteq> om_keys (q_data q)" and "length gs \<le> 5"
  shows "(\<Sum>g\<leftarrow>gs. length (members q g)) \<le> 25"
proof -
  have "length (members q g) \<le> 5" if "g \<in> set gs" for g
    using entry_of_ok [OF assms(1), of g] assms(2) that by (auto simp: entry_ok_def)
  then have "(\<Sum>g\<leftarrow>gs. length (members q g)) \<le> (\<Sum>g\<leftarrow>gs. 5)" by (intro sum_list_mono)
  also have "\<dots> = length gs * 5" by (simp add: sum_list_triv)
  finally show ?thesis using assms(3) by simp
qed

lemma union_card: "(\<And>g. om_ok (members q g)) \<Longrightarrow> card (\<Union>g\<in>set gs. om_keys (members q g)) \<le> (\<Sum>g\<leftarrow>gs. length (members q g))"
proof (induction gs)
  case (Cons g gs)
  have "card (om_keys (members q g)) \<le> length (members q g)"
    unfolding om_keys_def by (metis card_length length_map list.set_map)
  then show ?case using card_Un_le [of "om_keys (members q g)" "\<Union>g\<in>set gs. om_keys (members q g)"] Cons by simp
qed simp

lemma group_match_ok:
  assumes q: "queue_ok q" and check: "check \<noteq> []" "length check \<le> 5" "AllQueued check s"
    and count: "count_loop q s check \<lparr>t_numPlayers = 0, t_numLfgGroups = 0, t_groups = [], t_group = 0\<rparr> = Inr t"
      "\<not> 1 < t_numLfgGroups t" "unat (t_numPlayers t) = MAXGROUPSIZE"
    and merged: "t_numPlayers t - of_nat (length (merge_roles env q check)) = 0"
      "CheckGroupRoles (merge_roles env q check) = (True, roles)"
    and ds: "common_dungeons q check \<noteq> []"
  shows "proposal_ok env q s (make_proposal env check isNew t roles (common_dungeons q check))"
proof -
  let ?m = "merge_roles env q check" and ?total = "\<Sum>g\<leftarrow>check. length (members q g)"
  have "t_numLfgGroups t < 2" using count(2) by (simp add: word_less_nat_alt)
  from count_loop_complete [OF count(1) this] count(3)
  have sub: "set check \<subseteq> om_keys (q_data q)" and num: "t_numPlayers t = of_nat ?total" by simp_all
  have total: "?total \<le> 25" by (rule player_total [OF q sub check(2)])
  then have "?total = 5" using count(3) by (simp add: num unat_of_nat)
  moreover have "length ?m \<le> 25" using merge_roles_props(3) [of env q check] total by (rule order_trans)
  moreover have "t_numPlayers t = of_nat (length ?m)" using merged(1) by simp
  ultimately have five: "length ?m = 5" using count(3) by (simp add: unat_of_nat)
  have ok: "om_ok ?m" by (rule merge_roles_props(2))
  have members_ok: "om_ok (members q g)" for g
  proof (cases "g \<in> om_keys (q_data q)")
    case False
    then show ?thesis by (simp add: entry_of_def om_at_def qd_make_def flip: om_find_None_iff)
  qed (use entry_of_ok [OF q] in \<open>simp add: entry_ok_def\<close>)
  have "card (om_keys ?m) = 5"
    using os_ok_card [of "map fst ?m"] ok five by (simp add: om_ok_def om_keys_def)
  moreover have "card (\<Union>g\<in>set check. om_keys (members q g)) \<le> 5"
    using union_card [OF members_ok] \<open>?total = 5\<close> by metis
  ultimately have keys: "om_keys ?m = (\<Union>g\<in>set check. om_keys (members q g))"
    by (intro card_seteq merge_roles_props(1)) (simp_all add: om_keys_def)
  have post: "roles_post ?m (True, roles)"
    using CheckGroupRoles_post [of ?m] ok five by (simp add: merged(2))
  have "map fst roles = map fst ?m" using roles_post_keys [OF post] by simp
  note same = same_keys [OF this]
  have "no_ignores env roles" using merge_roles_no_ignores [of env q check] same by (simp add: no_ignores_def)
  then have "1 < length check \<longrightarrow> valid_roles roles \<and> no_ignores env roles"
    using post by (simp add: roles_post_def)
  then show ?thesis
    using check sub same ok five keys ds common_dungeons_mem [OF check(1), of q]
    by (intro make_proposal_ok) simp_all
qed

lemma single_match_ok:
  assumes q: "queue_ok q" and check: "check = [g]" "AllQueued check s"
    and count: "count_loop q s check \<lparr>t_numPlayers = 0, t_numLfgGroups = 0, t_groups = [], t_group = 0\<rparr> = Inr t"
      "\<not> 1 < t_numLfgGroups t" "unat (t_numPlayers t) = MAXGROUPSIZE"
  shows "proposal_ok env q s (make_proposal env check isNew t (snd (CheckGroupRoles (members q g))) (qd_dungeons (entry_of q g)))"
proof -
  let ?m = "members q g"
  have "t_numLfgGroups t < 2" using count(2) by (simp add: word_less_nat_alt)
  from count_loop_complete [OF count(1) this] count(3)
  have sub: "g \<in> om_keys (q_data q)" and num: "t_numPlayers t = of_nat (length ?m)" by (simp_all add: check)
  note entry = entry_of_ok [OF q sub]
  have five: "length ?m = 5" using entry count(3) by (simp add: entry_ok_def num unat_of_nat)
  have "map fst (snd (CheckGroupRoles ?m)) = map fst ?m"
    using entry by (intro roles_post_keys CheckGroupRoles_post) (simp_all add: entry_ok_def)
  note same = same_keys [OF this]
  show ?thesis
    by (rule make_proposal_ok) (use check sub same five entry in \<open>simp_all add: entry_ok_def\<close>)
qed

context search_invariant begin

lemma check_entries_inv:
  assumes "I q s" and "check \<noteq> []" and "length check \<le> 5"
  shows "(\<lambda>(c, q', s'). I q' s') (check_entries env check (q, s))"
proof (cases "count_loop q s check \<lparr>t_numPlayers = 0, t_numLfgGroups = 0, t_groups = [], t_group = 0\<rparr>")
  case (Inl g)
  then show ?thesis using assms(1) count_loop_missing [OF Inl] by (simp add: check_entries_def forget)
next
  case (Inr t)
  note q = wf [OF assms(1)]
  show ?thesis
  proof (cases "(length check = 1 \<and> unat (t_numPlayers t) \<noteq> MAXGROUPSIZE) \<or> 1 < t_numLfgGroups t \<or> MAXGROUPSIZE < unat (t_numPlayers t)")
    case True
    then show ?thesis using assms(1) Inr
      by (auto simp: check_entries_def Let_def remember remember_data improve)
  next
    case False
    then have groups: "\<not> 1 < t_numLfgGroups t" by blast
    show ?thesis
    proof (cases "1 < length check")
      case True
      let ?m = "merge_roles env q check"
      show ?thesis
      proof (cases "t_numPlayers t - of_nat (length ?m) \<noteq> 0 \<or> \<not> fst (CheckGroupRoles ?m) \<or> common_dungeons q check = []")
        case True
        then show ?thesis using assms(1) Inr False \<open>1 < length check\<close>
          by (auto simp: check_entries_def Let_def remember split: prod.splits)
      next
        case match: False
        then obtain roles where roles: "CheckGroupRoles ?m = (True, roles)" by (metis prod.collapse)
        have "(\<lambda>(c, q', s'). I q' s') (check_match env check t roles (common_dungeons q check) (q, s))"
          using match roles by (intro match_step [OF assms(1)] group_match_ok [OF q assms(2,3) _ Inr groups]) simp_all
        then show ?thesis using Inr False True match roles by (simp add: check_entries_def Let_def)
      qed
    next
      case single: False
      then obtain g where g: "check = [g]" using assms(2) by (cases check; cases "tl check") auto
      have "(\<lambda>(c, q', s'). I q' s') (check_match env check t (snd (CheckGroupRoles (members q g))) (qd_dungeons (entry_of q g)) (q, s))"
        by (intro match_step [OF assms(1)] single_match_ok [OF q g _ Inr groups]) simp_all
      then show ?thesis using Inr False single g by (simp add: check_entries_def Let_def)
    qed
  qed
qed

lemma CheckCompatibility_inv:
  assumes "I q s"
  shows "(\<lambda>(c, q', s'). I q' s') (CheckCompatibility env check (q, s))"
  using assms
proof (induction check arbitrary: q s)
  case (Cons front rest)
  obtain child q1 s1 where child: "CheckCompatibility env rest (q, s) = (child, q1, s1)" by (metis prod_cases3)
  then have "I q1 s1" using Cons.IH [OF Cons.prems] by simp
  then show ?case using Cons.prems check_entries_inv [of q s "front # rest"] check_entries_inv [of q1 s1 "front # rest"]
    by (simp add: Let_def child remember)
qed simp

lemma find_body_inv:
  assumes loop: "\<And>check all q s. I q s \<Longrightarrow> (\<lambda>(c, rest, q', s'). I q' s') (loop check all (q, s))" and "I q s"
  shows "(\<lambda>(c, rest, q', s'). I q' s') (find_body env loop check all (q, s))"
proof -
  let ?key = "ConcatenateGuids check"
  obtain c q1 s1 where step: "(if GetCompatibles ?key q = LFG_COMPATIBILITY_PENDING then CheckCompatibility env check (q, s)
      else (GetCompatibles ?key q, q, s)) = (c, q1, s1)" by (metis prod_cases3)
  then have "I q1 s1" using CheckCompatibility_inv [OF assms(2), of check] assms(2) by (auto split: if_splits)
  then show ?thesis using loop [of q1 s1 check all] step by (simp add: find_body_def Let_def remember)
qed

lemma try_all_inv: "I q s \<Longrightarrow> (\<lambda>(c, rest, q', s'). I q' s') (try_all fuel env check all (q, s))"
proof (induction fuel arbitrary: check all q s)
  case 0
  then show ?case by (cases all) simp_all
next
  case (Suc fuel)
  show ?case
  proof (cases all)
    case (Cons a rest)
    obtain sub all1 q1 s1 where body: "find_body env (try_all fuel env) (check @ [a]) rest (q, s) = (sub, all1, q1, s1)"
      by (metis prod_cases4)
    then have "I q1 s1" using find_body_inv [of "try_all fuel env", OF Suc.IH Suc.prems, of "check @ [a]" rest] by simp
    then show ?thesis using Suc.IH [of q1 s1 check all1] by (simp add: Cons body)
  qed (simp add: Suc.prems)
qed

lemma FindNewGroups_inv: "I q s \<Longrightarrow> (\<lambda>(c, rest, q', s'). I q' s') (FindNewGroups env check all (q, s))"
  unfolding FindNewGroups_def by (rule find_body_inv) (simp_all add: try_all_inv)

lemma find_groups_inv: "I q s \<Longrightarrow> (\<lambda>(n, q', s'). I q' s') (find_groups fuel env n (q, s))"
proof (induction fuel arbitrary: n q s)
  case (Suc fuel)
  show ?case
  proof (cases "q_new q")
    case (Cons front rest)
    let ?q = "RemoveFromNewQueue front q"
    obtain c all q2 s2 where found: "FindNewGroups env [front] (q_current ?q) (?q, s) = (c, all, q2, s2)"
      by (metis prod_cases4)
    then have "I q2 s2" using FindNewGroups_inv [OF take_new [OF Suc.prems]] by (metis case_prod_conv)
    then show ?thesis
      using Suc.IH [of q2 s2 "n + 1"] Suc.IH [OF wait_on, of q2 s2 n front] by (simp add: Cons found Let_def)
  qed (simp add: Suc.prems)
qed simp

lemma FindGroups_inv: "I q s \<Longrightarrow> (\<lambda>(n, q', s'). I q' s') (FindGroups env (q, s))"
  unfolding FindGroups_def by (rule find_groups_inv)

end

subsection \<open>The queue satisfies the contract\<close>

lemma AllQueued_cong:
  "ms_players s' = ms_players s \<Longrightarrow> ms_groups s' = ms_groups s \<Longrightarrow> AllQueued check s' = AllQueued check s"
  by (simp add: AllQueued_def GetState_def)

text \<open>Adding proposals one after the other: each gets the next id, and nothing else changes.\<close>

lemma AddProposal_frame [simp]:
  "ms_players (AddProposal p s) = ms_players s" "ms_groups (AddProposal p s) = ms_groups s"
  "lfg_store.more (AddProposal p s) = lfg_store.more s" "ms_proposalId (AddProposal p s) = ms_proposalId s + 1"
  by (simp_all add: AddProposal_def Let_def)

lemma AddProposals_frame [simp]:
  "ms_players (fold AddProposal ps s) = ms_players s" "ms_groups (fold AddProposal ps s) = ms_groups s"
  "lfg_store.more (fold AddProposal ps s) = lfg_store.more s"
  "ms_proposalId (fold AddProposal ps s) = ms_proposalId s + of_nat (length ps)"
  by (induction ps arbitrary: s) simp_all

lemma AddProposals_found:
  assumes "unat (ms_proposalId s) + length ps < 2 ^ 32"
  shows "om_find (ms_proposals (fold AddProposal ps s)) i =
    (if unat (ms_proposalId s) < unat i \<and> unat i \<le> unat (ms_proposalId s) + length ps
     then Some ((ps ! (unat i - unat (ms_proposalId s) - 1))\<lparr>pr_id := i\<rparr>) else om_find (ms_proposals s) i)"
  using assms
proof (induction ps arbitrary: s)
  case (Cons p ps)
  let ?s = "AddProposal p s" and ?k = "unat (ms_proposalId s)"
  have up: "unat (ms_proposalId s + 1) = ?k + 1" using Cons.prems by (simp add: unat_word_ariths)
  have "om_find (ms_proposals ?s) i = (if i = ms_proposalId s + 1 then Some (p\<lparr>pr_id := i\<rparr>) else om_find (ms_proposals s) i)"
    by (simp add: AddProposal_def Let_def)
  moreover have "i = ms_proposalId s + 1 \<longleftrightarrow> unat i = ?k + 1" using up by (simp add: word_unat_eq_iff)
  ultimately have one: "om_find (ms_proposals ?s) i = (if unat i = ?k + 1 then Some (p\<lparr>pr_id := i\<rparr>) else om_find (ms_proposals s) i)"
    by simp
  have "unat (ms_proposalId ?s) + length ps < 2 ^ 32" using Cons.prems up by simp
  note IH = Cons.IH [OF this]
  show ?case
  proof (cases "?k + 1 < unat i \<and> unat i \<le> ?k + 1 + length ps")
    case True
    then have "unat i - ?k - 1 = Suc (unat i - (?k + 1) - 1)" by linarith
    then have next_one: "(p # ps) ! (unat i - ?k - 1) = ps ! (unat i - (?k + 1) - 1)" by (simp only: nth_Cons_Suc)
    have "om_find (ms_proposals (fold AddProposal ps ?s)) i = Some ((ps ! (unat i - (?k + 1) - 1))\<lparr>pr_id := i\<rparr>)"
      unfolding IH AddProposal_frame up by (rule if_P) (rule True)
    then have found: "om_find (ms_proposals (fold AddProposal (p # ps) s)) i = Some (((p # ps) ! (unat i - ?k - 1))\<lparr>pr_id := i\<rparr>)"
      unfolding fold_simps next_one .
    have "?k < unat i \<and> unat i \<le> ?k + length (p # ps)" using True by simp
    then show ?thesis unfolding found by (rule if_P [symmetric])
  next
    case False
    then show ?thesis using IH one up by auto
  qed
qed auto

text \<open>What a search started in a given state keeps and which proposals it adds.\<close>

definition search_frame :: "lfg_env \<Rightarrow> lfg_queue \<Rightarrow> 'a lfg_store_scheme \<Rightarrow> lfg_queue \<Rightarrow> 'a lfg_store_scheme \<Rightarrow> bool" where
  "search_frame env q0 s0 q s \<longleftrightarrow> queue_ok q \<and> entries q = entries q0 \<and>
     (\<exists>ps. list_all (proposal_ok env q0 s0) ps \<and> s = fold AddProposal ps s0)"

lemma search_frame_more:
  assumes "search_frame env q0 s0 q s" and "proposal_ok env q0 s0 p"
  shows "search_frame env q0 s0 q (AddProposal p s)"
proof -
  obtain ps where "list_all (proposal_ok env q0 s0) ps" "s = fold AddProposal ps s0"
    using assms(1) by (auto simp: search_frame_def)
  then have "list_all (proposal_ok env q0 s0) (ps @ [p])" "AddProposal p s = fold AddProposal (ps @ [p]) s0"
    using assms(2) by simp_all
  then show ?thesis using assms(1) unfolding search_frame_def by blast
qed

lemma om_erase_absent: "om_find m k = None \<Longrightarrow> om_erase k m = m"
  by (simp add: om_find_None_iff)

interpretation search_frame: search_invariant env "search_frame env q0 s0" for env q0 and s0 :: "'a lfg_store_scheme"
proof
  fix q g and s :: "'a lfg_store_scheme"
  assume inv: "search_frame env q0 s0 q s"
  show "queue_ok q" using inv by (simp add: search_frame_def)
  {
    assume "om_find (q_data q) g = None"
    then have "om_find (entries q) g = None" by (simp add: entries_find)
    then have "entries (RemoveFromQueue g q) = entries q" by (simp add: entries_RemoveFromQueue om_erase_absent)
    then show "search_frame env q0 s0 (RemoveFromQueue g q) s"
      using inv by (simp add: search_frame_def queue_ok_RemoveFromQueue)
  }
  fix p
  assume "proposal_ok env q s p"
  then have "proposal_ok env q0 s p" using inv proposal_ok_cong [of q q0 env s p] by (simp add: search_frame_def)
  moreover have "AllQueued check s = AllQueued check s0" for check
    using inv by (intro AllQueued_cong) (auto simp: search_frame_def)
  then have "proposal_ok env q0 s0 p = proposal_ok env q0 s p" by (simp only: proposal_ok_def)
  ultimately have "proposal_ok env q0 s0 p" by blast
  then show "search_frame env q0 s0 q (AddProposal p s)" by (rule search_frame_more [OF inv])
qed (simp_all add: search_frame_def queue_ok_ops)

lemma search_frame_start: "queue_ok q \<Longrightarrow> search_frame env q s q s"
  by (auto simp: search_frame_def intro: exI [of _ "[]"])

text \<open>The new queue never grows during a search.\<close>

definition new_bounded :: "nat \<Rightarrow> lfg_queue \<Rightarrow> bool" where
  "new_bounded n q \<longleftrightarrow> queue_ok q \<and> length (q_new q) \<le> n"

lemma length_removeAll_le: "length (removeAll x xs) \<le> length xs"
  by (simp add: removeAll_filter_not_eq)

lemma q_new_ops [simp]:
  "q_new (SetCompatibles key c q) = q_new q" "q_new (SetCompatibilityData key cd q) = q_new q"
  "q_new (update_entry g f q) = q_new q" "q_new (RemoveFromCurrentQueue g q) = q_new q"
  "q_new (AddToCurrentQueue g q) = q_new q" "q_new (RemoveFromNewQueue g q) = removeAll g (q_new q)"
  "q_new (RemoveFromQueue g q) = removeAll g (q_new q)"
  by (simp_all add: SetCompatibles_def SetCompatibilityData_def update_entry_def RemoveFromCurrentQueue_def
      AddToCurrentQueue_def RemoveFromNewQueue_def RemoveFromQueue_def RemoveFromCompatibles_def Let_def)

interpretation new_bounded: search_invariant env "\<lambda>q (s :: 'a lfg_store_scheme). new_bounded n q" for env n
  by unfold_locales (auto simp: new_bounded_def queue_ok_ops queue_ok_RemoveFromQueue intro: order_trans [OF length_removeAll_le])

lemma find_groups_drains:
  "queue_ok q \<Longrightarrow> length (q_new q) \<le> fuel \<Longrightarrow> (\<lambda>(n, q', s'). q_new q' = []) (find_groups fuel env n (q, s))"
proof (induction fuel arbitrary: n q s)
  case (Suc fuel)
  show ?case
  proof (cases "q_new q")
    case (Cons front rest)
    let ?q = "RemoveFromNewQueue front q"
    obtain c all q2 s2 where found: "FindNewGroups env [front] (q_current ?q) (?q, s) = (c, all, q2, s2)"
      by (metis prod_cases4)
    have "length (removeAll front rest) \<le> fuel"
      by (rule order_trans [OF length_removeAll_le]) (use Suc.prems Cons in simp)
    then have "new_bounded fuel ?q" using Suc.prems by (simp add: new_bounded_def queue_ok_ops Cons)
    from new_bounded.FindNewGroups_inv [OF this, of env "[front]" "q_current ?q" s]
    have "new_bounded fuel q2" by (simp add: found)
    then have q2: "queue_ok q2" "length (q_new q2) \<le> fuel" by (simp_all add: new_bounded_def)
    show ?thesis
      using Suc.IH [OF q2] Suc.IH [of "AddToCurrentQueue front q2" n s2] q2
      by (simp add: Cons found Let_def queue_ok_ops)
  qed simp
qed simp

text \<open>The fuel of the inner loop.\<close>

lemma find_body_rest:
  assumes "\<And>st'. length (fst (snd (loop check all st'))) \<le> length all"
  shows "length (fst (snd (find_body env loop check all st))) \<le> length all"
  using assms by (auto simp: find_body_def Let_def split: prod.splits)

lemma find_body_cong:
  "(\<And>st'. f check all st' = g check all st') \<Longrightarrow> find_body env f check all st = find_body env g check all st"
  by (auto simp: find_body_def Let_def split: prod.split)

lemma try_all_rest: "length (fst (snd (try_all fuel env check all st))) \<le> length all"
proof (induction fuel env check all st rule: try_all.induct)
  case (3 fuel env check a all st)
  obtain sub all1 st1 where body: "find_body env (try_all fuel env) (check @ [a]) all st = (sub, all1, st1)"
    by (metis prod_cases3)
  have "length all1 \<le> length all"
    using find_body_rest [of "try_all fuel env" "check @ [a]" all env st] 3(1) by (simp add: body)
  moreover have "sub \<noteq> LFG_COMPATIBLES_MATCH \<Longrightarrow> length (fst (snd (try_all fuel env check all1 st1))) \<le> length all1"
    by (rule 3(2)) (simp_all add: body)
  ultimately show ?case by (auto simp: body)
qed simp_all

lemma try_all_fuel:
  fixes st :: "lfg_queue \<times> 'a lfg_store_scheme"
  shows "length all \<le> fuel \<Longrightarrow> try_all fuel env check all st = try_all (length all) env check all st"
proof (induction "length all" arbitrary: fuel check all st rule: less_induct)
  case less
  show ?case
  proof (cases all)
    case (Cons a rest)
    then obtain fuel' where fuel: "fuel = Suc fuel'" using less.prems by (cases fuel) auto
    let ?n = "length rest"
    have "try_all fuel' env check' rest st' = try_all ?n env check' rest st'" for check' and st' :: "lfg_queue \<times> 'a lfg_store_scheme"
      by (rule less.hyps) (use less.prems in \<open>simp_all add: Cons fuel\<close>)
    then have same: "find_body env (try_all fuel' env) (check @ [a]) rest st = find_body env (try_all ?n env) (check @ [a]) rest st"
      by (rule find_body_cong)
    obtain sub all1 st1 where body: "find_body env (try_all ?n env) (check @ [a]) rest st = (sub, all1, st1)"
      by (metis prod_cases3)
    have shorter: "length all1 \<le> ?n"
      using find_body_rest [of "try_all ?n env" "check @ [a]" rest env st, OF try_all_rest] by (simp add: body)
    have "try_all fuel' env check all1 st1 = try_all (length all1) env check all1 st1"
      by (rule less.hyps) (use less.prems shorter in \<open>simp_all add: Cons fuel\<close>)
    moreover have "try_all ?n env check all1 st1 = try_all (length all1) env check all1 st1"
      by (rule less.hyps) (use shorter in \<open>simp_all add: Cons\<close>)
    ultimately show ?thesis by (simp add: Cons fuel same body)
  qed simp
qed

section \<open>Properties\<close>

text \<open>C1: A search changes the manager only by adding proposals, one after the other under the next ids, as long as
  the ids do not run out: proposals that were there are neither lost nor overwritten.  Every added proposal is justified: its
  five players are exactly the members of queued entries whose owners are all in the queued state; when several entries are
  combined the roles are valid and nobody ignores anybody (a single full group is taken as it is); every entry selected the
  dungeon; the leader is one of the players, and one who offered to lead if any did.
  Join times, dungeons and roles in the queue stay as they were.\<close>

theorem FindGroups_proposals:
  fixes s :: "'a lfg_store_scheme"
  assumes "queue_ok q"
  shows "case FindGroups env (q, s) of (n, q', s') \<Rightarrow>
      queue_ok q' \<and> entries q' = entries q \<and>
      ms_players s' = ms_players s \<and> ms_groups s' = ms_groups s \<and> lfg_store.more s' = lfg_store.more s \<and>
      (\<exists>ps. list_all (proposal_ok env q s) ps \<and> s' = fold AddProposal ps s \<and> ms_proposalId s' = ms_proposalId s + of_nat (length ps) \<and>
         (unat (ms_proposalId s) + length ps < 2 ^ 32 \<longrightarrow>
           (\<forall>i. om_find (ms_proposals s') i =
              (if unat (ms_proposalId s) < unat i \<and> unat i \<le> unat (ms_proposalId s) + length ps
               then Some ((ps ! (unat i - unat (ms_proposalId s) - 1))\<lparr>pr_id := i\<rparr>) else om_find (ms_proposals s) i))))"
proof -
  obtain n q' s' where f: "FindGroups env (q, s) = (n, q', s')" by (metis prod_cases3)
  then obtain ps where ps: "queue_ok q'" "entries q' = entries q" "list_all (proposal_ok env q s) ps" "s' = fold AddProposal ps s"
    using search_frame.FindGroups_inv [OF search_frame_start [OF assms], of env s] by (auto simp: search_frame_def)
  then have "\<exists>ps. list_all (proposal_ok env q s) ps \<and> s' = fold AddProposal ps s \<and> ms_proposalId s' = ms_proposalId s + of_nat (length ps) \<and>
      (unat (ms_proposalId s) + length ps < 2 ^ 32 \<longrightarrow>
        (\<forall>i. om_find (ms_proposals s') i =
           (if unat (ms_proposalId s) < unat i \<and> unat i \<le> unat (ms_proposalId s) + length ps
            then Some ((ps ! (unat i - unat (ms_proposalId s) - 1))\<lparr>pr_id := i\<rparr>) else om_find (ms_proposals s) i)))"
    using AddProposals_found [of s ps] by (intro exI [of _ ps]) simp
  then show ?thesis using ps unfolding f prod.case by simp
qed

definition sample_env :: lfg_env where
  "sample_env = \<lparr>env_now = 1000, env_connected = (\<lambda>g. True), env_ignores = (\<lambda>g c. False),
     env_FindPlayer = (\<lambda>g. if g = 5 then Some False else Some True), env_rand = (\<lambda>n. 0), env_coin = (\<lambda>g. False)\<rparr>"

text \<open>Four players in the queue, and a fifth one who is new.\<close>

definition sample_queue :: lfg_queue where
  "sample_queue = queue_init\<lparr>
     q_data := [(1, qd_make 800 [100, 200] [(1, 2)]), (2, qd_make 800 [100, 200] [(2, 4)]), (3, qd_make 800 [200] [(3, 8)]),
                (4, qd_make 800 [200] [(4, 8)]), (5, qd_make 900 [200, 300] [(5, 9)])],
     q_current := [1, 2, 3, 4], q_new := [5]\<rparr>"

definition sample_store :: lfg_store where
  "sample_store = \<lparr>ms_players = map (\<lambda>g. (g, pd_init\<lparr>pd_state := LFG_STATE_QUEUED\<rparr>)) [1, 2, 3, 4, 5],
     ms_groups = [], ms_proposals = [], ms_proposalId = 0\<rparr>"

lemma sample_queue_ok: "queue_ok sample_queue"
  by (auto simp: queue_ok_def sample_queue_def queue_init_def entry_ok_def qd_make_def)

lemma sample_match:
  "map (\<lambda>(i, p). (pr_leader p, pr_dungeonId p, map fst (pr_players p)))
     (ms_proposals (snd (snd (FindGroups sample_env (sample_queue, sample_store))))) = [(5, 200, [1, 2, 3, 4, 5])]"
  by code_simp

lemma sample_match_latest:
  "let s' = snd (snd (FindGroups sample_env (sample_queue, sample_store))) in ms_proposalId s' = 1 \<and>
     map_option (\<lambda>p. (pr_leader p, pr_dungeonId p)) (om_find (ms_proposals s') (ms_proposalId s')) = Some (5, 200)"
  by code_simp

lemma FindGroups_proposals_witness:
  "\<exists>p. proposal_ok sample_env sample_queue sample_store p \<and> pr_leader p = 5 \<and> pr_dungeonId p = 200 \<and>
     om_find (ms_proposals (snd (snd (FindGroups sample_env (sample_queue, sample_store))))) 1 = Some (p\<lparr>pr_id := 1\<rparr>)"
proof -
  let ?s = "snd (snd (FindGroups sample_env (sample_queue, sample_store)))"
  obtain ps where ps: "list_all (proposal_ok sample_env sample_queue sample_store) ps" "?s = fold AddProposal ps sample_store"
    using FindGroups_proposals [OF sample_queue_ok, where env = sample_env and s = sample_store] by (auto simp: case_prod_unfold)
  have "ms_proposalId sample_store = 0" by (simp add: sample_store_def)
  then have "ps \<noteq> []" using sample_match_latest ps(2) by (auto simp: Let_def)
  then obtain qs p where p: "ps = qs @ [p]" by (metis rev_exhaust)
  then have "om_find (ms_proposals ?s) (ms_proposalId ?s) = Some (p\<lparr>pr_id := ms_proposalId ?s\<rparr>)"
    unfolding ps(2) by (simp add: AddProposal_def Let_def)
  moreover have one: "ms_proposalId ?s = 1" using sample_match_latest by (simp add: Let_def)
  ultimately have found: "om_find (ms_proposals ?s) 1 = Some (p\<lparr>pr_id := 1\<rparr>)" by simp
  then have "pr_leader p = 5 \<and> pr_dungeonId p = 200" using sample_match_latest by (simp add: Let_def one)
  then show ?thesis using ps(1) p found by auto
qed

text \<open>C38: A search ends, and only when no new entry is left: afterwards the list of new
  entries is empty.\<close>

theorem FindGroups_drains:
  assumes "queue_ok q"
  shows "q_new (fst (snd (FindGroups env (q, s)))) = []"
  using find_groups_drains [OF assms order_refl, of env 0 s] by (simp add: FindGroups_def case_prod_unfold)

lemma FindGroups_drains_witness: "q_new (fst (snd (FindGroups sample_env (sample_queue, sample_store)))) = []"
  by (rule FindGroups_drains) (rule sample_queue_ok)

text \<open>The fuel of the recursive search is no limit: it gives the same result for every fuel from the length
  of the list it still has to try.\<close>

theorem FindNewGroups_terminates:
  "find_body env (try_all (length all + k) env) check all st = FindNewGroups env check all st"
  unfolding FindNewGroups_def by (rule find_body_cong) (rule try_all_fuel, simp)

text \<open>A full group whose combination is remembered as being in a bad state is lost once it
  is queued again: the search reports a match for it, makes no proposal and drops the
  group from both lists.\<close>

theorem remembered_bad_states_lose_group:
  fixes s :: "'a lfg_store_scheme"
  assumes "GetCompatibles (ConcatenateGuids [g]) q = LFG_COMPATIBLES_BAD_STATES" and "AllQueued [g] s"
    and "q_new q = [g]" and "g \<notin> set (q_current q)"
  shows "case FindGroups env (q, s) of (n, q', s') \<Rightarrow>
      n = 1 \<and> s' = s \<and> q_new q' = [] \<and> q_current q' = q_current q \<and> g \<notin> set (q_current q')"
proof -
  have "GetCompatibles (ConcatenateGuids [g]) (RemoveFromNewQueue g q) = LFG_COMPATIBLES_BAD_STATES"
    using assms(1) by (simp add: GetCompatibles_def)
  then have "FindNewGroups env [g] all (RemoveFromNewQueue g q, s) =
      (LFG_COMPATIBLES_MATCH, all, SetCompatibles (ConcatenateGuids [g]) LFG_COMPATIBLES_MATCH (RemoveFromNewQueue g q), s)" for all
    using assms(2) by (simp add: FindNewGroups_def find_body_def Let_def)
  then show ?thesis using assms(3,4)
    by (simp add: FindGroups_def Let_def RemoveFromNewQueue_def SetCompatibles_def)
qed

lemma remembered_bad_states_lose_group_witness:
  "fst (FindGroups sample_env (SetCompatibles (ConcatenateGuids [5]) LFG_COMPATIBLES_BAD_STATES (sample_queue\<lparr>q_current := []\<rparr>), sample_store)) = 1"
proof -
  let ?q = "SetCompatibles (ConcatenateGuids [5]) LFG_COMPATIBLES_BAD_STATES (sample_queue\<lparr>q_current := []\<rparr>)"
  have "GetCompatibles (ConcatenateGuids [5]) ?q = LFG_COMPATIBLES_BAD_STATES"
    by (simp add: GetCompatibles_def SetCompatibles_def Let_def)
  moreover have "AllQueued [5] sample_store" by code_simp
  moreover have "q_new ?q = [5]" "5 \<notin> set (q_current ?q)" by (simp_all add: sample_queue_def SetCompatibles_def Let_def)
  ultimately show ?thesis
    using remembered_bad_states_lose_group [where g = 5 and q = ?q and s = sample_store and env = sample_env] by (simp add: case_prod_unfold)
qed

end
