(* ===== verification/LfgMgr.thy ===== *)
theory LfgMgr
  imports LfgSearch
begin

text \<open>
  The manager of the dungeon finder, \<^verbatim>\<open>src/src/server/game/DungeonFinding/LFGMgr.cpp\<close>, and its
  group hooks, \<^verbatim>\<open>LFGScripts.cpp\<close>: role checks, proposals, vote kicks, leaving, and the
  periodic update.  The record \<open>lfg_mgr\<close> extends \<open>lfg_store\<close>, so the queue's operations
  apply to it.  Packets and calls into the world are appended to \<open>lm_sent\<close> in the
  order the code makes them.  The class \<^verbatim>\<open>Group\<close> is a parameter: what it does to the finder
  is the list of hook calls it makes, and the hooks are modelled.
\<close>

section \<open>State\<close>

datatype LfgUpdateType = LFG_UPDATETYPE_DEFAULT | LFG_UPDATETYPE_LEADER_UNK1 | LFG_UPDATETYPE_ROLECHECK_ABORTED
  | LFG_UPDATETYPE_JOIN_QUEUE | LFG_UPDATETYPE_ROLECHECK_FAILED | LFG_UPDATETYPE_REMOVED_FROM_QUEUE
  | LFG_UPDATETYPE_PROPOSAL_FAILED | LFG_UPDATETYPE_PROPOSAL_DECLINED | LFG_UPDATETYPE_GROUP_FOUND
  | LFG_UPDATETYPE_ADDED_TO_QUEUE | LFG_UPDATETYPE_PROPOSAL_BEGIN | LFG_UPDATETYPE_UPDATE_STATUS
  | LFG_UPDATETYPE_GROUP_MEMBER_OFFLINE | LFG_UPDATETYPE_GROUP_DISBAND_UNK16

datatype LfgJoinResult = LFG_JOIN_OK | LFG_JOIN_FAILED | LFG_JOIN_GROUPFULL | LFG_JOIN_INTERNAL_ERROR
  | LFG_JOIN_NOT_MEET_REQS | LFG_JOIN_PARTY_NOT_MEET_REQS | LFG_JOIN_MIXED_RAID_DUNGEON | LFG_JOIN_MULTI_REALM
  | LFG_JOIN_DISCONNECTED | LFG_JOIN_PARTY_INFO_FAILED | LFG_JOIN_DUNGEON_INVALID | LFG_JOIN_DESERTER
  | LFG_JOIN_PARTY_DESERTER | LFG_JOIN_RANDOM_COOLDOWN | LFG_JOIN_PARTY_RANDOM_COOLDOWN
  | LFG_JOIN_TOO_MUCH_MEMBERS | LFG_JOIN_USING_BG_SYSTEM

datatype RemoveMethod = GROUP_REMOVEMETHOD_DEFAULT | GROUP_REMOVEMETHOD_KICK | GROUP_REMOVEMETHOD_LEAVE
  | GROUP_REMOVEMETHOD_KICK_LFG

record lfg_role_check =
  rc_cancelTime :: int
  rc_roles :: roles_map
  rc_state :: LfgRoleCheckState
  rc_dungeons :: "uint32 list"
  rc_rDungeonId :: uint32
  rc_leader :: guid

record lfg_boot =
  bt_cancelTime :: int
  bt_inProgress :: bool
  bt_votes :: "(guid, LfgAnswer) stdmap"
  bt_victim :: guid
  bt_reason :: string

record update_data =
  ud_updateType :: LfgUpdateType
  ud_state :: LfgState
  ud_dungeons :: "uint32 list"
  ud_comment :: string

type_synonym lock_map = "(uint32, uint32) stdmap"
type_synonym lock_party_map = "(guid, lock_map) stdmap"

text \<open>What is sent to a player, and the calls into the world that concern him.\<close>

datatype lfg_message =
    RoleChosen guid uint8
  | RoleCheckUpdate lfg_role_check
  | UpdatePlayer update_data
  | UpdateParty update_data
  | JoinResult LfgJoinResult LfgRoleCheckState lock_party_map
  | BootProposalUpdate lfg_boot
  | UpdateProposalMsg lfg_proposal
  | QueueStatus queue_status
  | OfferContinue uint32
  | CastDeserter
  | CastCooldown
  | TeleportOut
  | TeleportIn
  | RaidBrowserDisabled
  | RewardQuest uint32
  | PlayerReward uint32 uint32 bool uint32
  | UseLfdCriteria
  | NameQuery guid
  | CastLuck
  | RemoveLuck
  | TeleportHome

text \<open>A dungeon; coordinates are bit patterns of floats.\<close>

record lfg_dungeon =
  dg_id :: uint32
  dg_map :: uint16
  dg_type :: uint8
  dg_expansion :: uint8
  dg_group :: uint8
  dg_minlevel :: uint8
  dg_maxlevel :: uint8
  dg_difficulty :: nat
  dg_seasonal :: bool
  dg_x :: uint32
  dg_y :: uint32
  dg_z :: uint32
  dg_o :: uint32

record lfg_reward =
  rw_maxLevel :: uint32
  rw_firstQuest :: uint32
  rw_otherQuest :: uint32

record lfg_mgr = lfg_store +
  lm_QueueTimer :: uint32
  lm_options :: uint32
  lm_queues :: "(uint8, lfg_queue) stdmap"
  lm_cached :: "(uint8, uint32 list) stdmap"
  lm_rewards :: "(uint32 \<times> lfg_reward) list"
  lm_dungeons :: "(uint32, lfg_dungeon) stdmap"
  lm_roleChecks :: "(guid, lfg_role_check) stdmap"
  lm_boots :: "(guid, lfg_boot) stdmap"
  lm_sent :: "(guid \<times> lfg_message) list"

text \<open>The constructor; proposal ids start behind 1.\<close>

definition lm_init :: "uint32 \<Rightarrow> lfg_mgr" where
  "lm_init options = \<lparr>ms_players = [], ms_groups = [], ms_proposals = [], ms_proposalId = 1, lm_QueueTimer = 0,
     lm_options = options, lm_queues = [], lm_cached = [], lm_rewards = [], lm_dungeons = [], lm_roleChecks = [],
     lm_boots = [], lm_sent = []\<rparr>"

text \<open>The hooks the class \<^verbatim>\<open>Group\<close> calls: group, member, leader; and the kind of group.\<close>

datatype group_event =
    AddMember guid guid guid
  | RemoveMember guid guid RemoveMethod guid string bool
  | Disband guid
  | ChangeLeader guid guid

text \<open>The calls the manager makes to groups: kick or remove a member, create and disband a group, add a member.\<close>

datatype group_call = CallKick guid guid | CallRemove guid guid | CallCreate guid | CallAdd guid guid | CallDisband guid

text \<open>
  The world as the manager sees it.  What groups do is a function of the calls made so
  far: the group of a player, the guid of the group just created, and the hooks that the
  last call runs.
\<close>

record lfg_world =
  lw_env :: lfg_env
  lw_group :: "group_call list \<Rightarrow> guid \<Rightarrow> guid option"
  lw_groupExists :: "guid \<Rightarrow> bool"
  lw_created :: "group_call list \<Rightarrow> guid"
  lw_hooks :: "group_call list \<Rightarrow> group_event list"
  lw_FindPlayer :: "guid \<Rightarrow> bool"
  lw_inDungeon :: "guid \<Rightarrow> bool"
  lw_twoSideGroups :: bool

abbreviation LFG_OPTION_ENABLE_DUNGEON_FINDER :: uint32 where "LFG_OPTION_ENABLE_DUNGEON_FINDER \<equiv> 1"
abbreviation LFG_OPTION_ENABLE_RAID_BROWSER :: uint32 where "LFG_OPTION_ENABLE_RAID_BROWSER \<equiv> 2"
abbreviation IN_MILLISECONDS :: int where "IN_MILLISECONDS \<equiv> 1000"
abbreviation LFG_TIME_ROLECHECK :: int where "LFG_TIME_ROLECHECK \<equiv> 45 * IN_MILLISECONDS"
abbreviation LFG_TIME_BOOT :: int where "LFG_TIME_BOOT \<equiv> 120"
abbreviation LFG_QUEUEUPDATE_INTERVAL :: uint32 where "LFG_QUEUEUPDATE_INTERVAL \<equiv> 15000"
abbreviation LFG_TYPE_NONE :: uint8 where "LFG_TYPE_NONE \<equiv> 0"
abbreviation LFG_TYPE_DUNGEON :: uint8 where "LFG_TYPE_DUNGEON \<equiv> 1"
abbreviation LFG_TYPE_RAID :: uint8 where "LFG_TYPE_RAID \<equiv> 2"
abbreviation LFG_TYPE_HEROIC :: uint8 where "LFG_TYPE_HEROIC \<equiv> 5"
abbreviation LFG_TYPE_RANDOM :: uint8 where "LFG_TYPE_RANDOM \<equiv> 6"
abbreviation LFG_GROUP_KICK_VOTES_NEEDED :: nat where "LFG_GROUP_KICK_VOTES_NEEDED \<equiv> 3"

section \<open>Data of players and groups\<close>

definition player_at :: "guid \<Rightarrow> lfg_mgr \<Rightarrow> lfg_player_data" where
  "player_at g m = om_at pd_init (ms_players m) g"

definition group_at :: "guid \<Rightarrow> lfg_mgr \<Rightarrow> lfg_group_data" where
  "group_at g m = om_at gd_init (ms_groups m) g"

definition on_player :: "guid \<Rightarrow> (lfg_player_data \<Rightarrow> lfg_player_data) \<Rightarrow> lfg_mgr \<Rightarrow> lfg_mgr" where
  "on_player g f m = m\<lparr>ms_players := om_put g (f (player_at g m)) (ms_players m)\<rparr>"

definition on_group :: "guid \<Rightarrow> (lfg_group_data \<Rightarrow> lfg_group_data) \<Rightarrow> lfg_mgr \<Rightarrow> lfg_mgr" where
  "on_group g f m = m\<lparr>ms_groups := om_put g (f (group_at g m)) (ms_groups m)\<rparr>"

definition SetState :: "guid \<Rightarrow> LfgState \<Rightarrow> lfg_mgr \<Rightarrow> lfg_mgr" where
  "SetState g state m = (if IsGroup g then on_group g (gd_SetState state) m else on_player g (pd_SetState state) m)"

definition RestoreState :: "guid \<Rightarrow> lfg_mgr \<Rightarrow> lfg_mgr" where
  "RestoreState g m = (if IsGroup g then on_group g gd_RestoreState m else on_player g pd_RestoreState m)"

text \<open>\<^verbatim>\<open>ASSERT(gguid.IsGroup())\<close> stops the server otherwise.\<close>

definition SetVoteKick :: "guid \<Rightarrow> bool \<Rightarrow> lfg_mgr \<Rightarrow> lfg_mgr" where
  "SetVoteKick g active m = on_group g (gd_SetVoteKick active) m"

definition IsVoteKickActive :: "guid \<Rightarrow> lfg_mgr \<Rightarrow> bool" where
  "IsVoteKickActive g m = gd_voteKick (group_at g m)"

definition GetDungeon :: "guid \<Rightarrow> bool \<Rightarrow> lfg_mgr \<Rightarrow> uint32" where
  "GetDungeon g asId m = gd_GetDungeon asId (group_at g m)"

definition SetDungeon :: "guid \<Rightarrow> uint32 \<Rightarrow> lfg_mgr \<Rightarrow> lfg_mgr" where
  "SetDungeon g dungeon m = on_group g (gd_SetDungeon dungeon) m"

definition GetRoles :: "guid \<Rightarrow> lfg_mgr \<Rightarrow> uint8" where
  "GetRoles g m = pd_roles (player_at g m)"

definition SetRoles :: "guid \<Rightarrow> uint8 \<Rightarrow> lfg_mgr \<Rightarrow> lfg_mgr" where
  "SetRoles g roles m = on_player g (pd_SetRoles roles) m"

definition GetComment :: "guid \<Rightarrow> lfg_mgr \<Rightarrow> string" where
  "GetComment g m = pd_comment (player_at g m)"

definition SetComment :: "guid \<Rightarrow> string \<Rightarrow> lfg_mgr \<Rightarrow> lfg_mgr" where
  "SetComment g c m = on_player g (pd_SetComment c) m"

definition GetSelectedDungeons :: "guid \<Rightarrow> lfg_mgr \<Rightarrow> uint32 list" where
  "GetSelectedDungeons g m = pd_dungeons (player_at g m)"

definition SetSelectedDungeons :: "guid \<Rightarrow> uint32 list \<Rightarrow> lfg_mgr \<Rightarrow> lfg_mgr" where
  "SetSelectedDungeons g ds m = on_player g (pd_SetSelectedDungeons ds) m"

definition GetKicksLeft :: "guid \<Rightarrow> lfg_mgr \<Rightarrow> uint8" where
  "GetKicksLeft g m = gd_kicksLeft (group_at g m)"

definition DecreaseKicksLeft :: "guid \<Rightarrow> lfg_mgr \<Rightarrow> lfg_mgr" where
  "DecreaseKicksLeft g m = on_group g gd_DecreaseKicksLeft m"

definition GetTeam :: "guid \<Rightarrow> lfg_mgr \<Rightarrow> uint8" where
  "GetTeam g m = pd_team (player_at g m)"

definition SetTeam :: "lfg_world \<Rightarrow> guid \<Rightarrow> uint8 \<Rightarrow> lfg_mgr \<Rightarrow> lfg_mgr" where
  "SetTeam w g team m = on_player g (pd_SetTeam (if lw_twoSideGroups w then 0 else team)) m"

definition GetGroup :: "guid \<Rightarrow> lfg_mgr \<Rightarrow> guid" where
  "GetGroup g m = pd_group (player_at g m)"

definition SetGroup :: "guid \<Rightarrow> guid \<Rightarrow> lfg_mgr \<Rightarrow> lfg_mgr" where
  "SetGroup g gguid m = on_player g (pd_SetGroup gguid) m"

definition GetPlayers :: "guid \<Rightarrow> lfg_mgr \<Rightarrow> guid list" where
  "GetPlayers g m = gd_players (group_at g m)"

definition GetPlayerCount :: "guid \<Rightarrow> lfg_mgr \<Rightarrow> uint8" where
  "GetPlayerCount g m = gd_GetPlayerCount (group_at g m)"

definition GetLeader :: "guid \<Rightarrow> lfg_mgr \<Rightarrow> guid" where
  "GetLeader g m = gd_leader (group_at g m)"

definition SetLeader :: "guid \<Rightarrow> guid \<Rightarrow> lfg_mgr \<Rightarrow> lfg_mgr" where
  "SetLeader g leader m = on_group g (gd_SetLeader leader) m"

definition AddPlayerToGroup :: "guid \<Rightarrow> guid \<Rightarrow> lfg_mgr \<Rightarrow> lfg_mgr" where
  "AddPlayerToGroup gguid g m = on_group gguid (gd_AddPlayer g) m"

definition RemovePlayerFromGroup :: "guid \<Rightarrow> guid \<Rightarrow> lfg_mgr \<Rightarrow> uint8 \<times> lfg_mgr" where
  "RemovePlayerFromGroup gguid g m =
     (case gd_RemovePlayer g (group_at gguid m) of (n, d) \<Rightarrow> (n, on_group gguid (\<lambda>_. d) m))"

definition RemovePlayerData :: "guid \<Rightarrow> lfg_mgr \<Rightarrow> lfg_mgr" where
  "RemovePlayerData g m = m\<lparr>ms_players := om_erase g (ms_players m)\<rparr>"

definition SetupGroupMember :: "guid \<Rightarrow> guid \<Rightarrow> lfg_mgr \<Rightarrow> lfg_mgr" where
  "SetupGroupMember g gguid m =
     (let m1 = SetSelectedDungeons g [GetDungeon gguid True m] m;
          m2 = SetState g (GetState gguid m1) m1
      in AddPlayerToGroup gguid g (SetGroup g gguid m2))"

definition isOptionEnabled :: "uint32 \<Rightarrow> lfg_mgr \<Rightarrow> bool" where
  "isOptionEnabled opt m = has_bits (lm_options m) opt"

definition SetOptions :: "uint32 \<Rightarrow> lfg_mgr \<Rightarrow> lfg_mgr" where
  "SetOptions options m = m\<lparr>lm_options := options\<rparr>"

definition Clean :: "lfg_mgr \<Rightarrow> lfg_mgr" where
  "Clean m = m\<lparr>lm_queues := []\<rparr>"

definition GetLfgStatus :: "guid \<Rightarrow> lfg_mgr \<Rightarrow> update_data" where
  "GetLfgStatus g m = \<lparr>ud_updateType = LFG_UPDATETYPE_UPDATE_STATUS, ud_state = pd_state (player_at g m),
     ud_dungeons = pd_dungeons (player_at g m), ud_comment = []\<rparr>"

section \<open>Packets\<close>

text \<open>\<^verbatim>\<open>SendLfg...(guid, data)\<close> reaches connected players only.\<close>

definition send :: "lfg_world \<Rightarrow> guid \<Rightarrow> lfg_message \<Rightarrow> lfg_mgr \<Rightarrow> lfg_mgr" where
  "send w g msg m = (if env_connected (lw_env w) g then m\<lparr>lm_sent := lm_sent m @ [(g, msg)]\<rparr> else m)"

text \<open>The two constructors of \<^verbatim>\<open>LfgUpdateData\<close> in use.\<close>

definition update_plain :: "LfgUpdateType \<Rightarrow> update_data" where
  "update_plain t = \<lparr>ud_updateType = t, ud_state = LFG_STATE_NONE, ud_dungeons = [], ud_comment = []\<rparr>"

definition update_with :: "LfgUpdateType \<Rightarrow> uint32 list \<Rightarrow> string \<Rightarrow> update_data" where
  "update_with t ds c = \<lparr>ud_updateType = t, ud_state = LFG_STATE_NONE, ud_dungeons = ds, ud_comment = c\<rparr>"

section \<open>Queues\<close>

text \<open>\<^verbatim>\<open>GetQueue\<close> picks the queue of the team, for a group that of its first player.\<close>

definition queue_id :: "guid \<Rightarrow> lfg_mgr \<Rightarrow> uint8" where
  "queue_id g m =
     (if IsGroup g
      then (let players = GetPlayers g m; pguid = (if players = [] then 0 else hd players)
            in if pguid \<noteq> 0 then GetTeam pguid m else 0)
      else GetTeam g m)"

definition queue_at :: "uint8 \<Rightarrow> lfg_mgr \<Rightarrow> lfg_queue" where
  "queue_at k m = om_at queue_init (lm_queues m) k"

definition on_queue :: "uint8 \<Rightarrow> (lfg_queue \<Rightarrow> lfg_queue) \<Rightarrow> lfg_mgr \<Rightarrow> lfg_mgr" where
  "on_queue k f m = m\<lparr>lm_queues := om_put k (f (queue_at k m)) (lm_queues m)\<rparr>"

section \<open>Role checks\<close>

text \<open>The state of the role check after an answer; no player means it is aborted.\<close>

definition answer_role_check :: "guid \<Rightarrow> uint8 \<Rightarrow> lfg_role_check \<Rightarrow> lfg_role_check" where
  "answer_role_check g roles rc =
     (if g = 0 then rc\<lparr>rc_state := LFG_ROLECHECK_ABORTED\<rparr>
      else if roles < PLAYER_ROLE_TANK then rc\<lparr>rc_state := LFG_ROLECHECK_NO_ROLE\<rparr>
      else let selected = om_put g roles (rc_roles rc); rc1 = rc\<lparr>rc_roles := selected\<rparr> in
        if list_all (\<lambda>(p, r). r \<noteq> PLAYER_ROLE_NONE) selected
        then rc1\<lparr>rc_state := (if fst (CheckGroupRoles selected) then LFG_ROLECHECK_FINISHED else LFG_ROLECHECK_WRONG_ROLES)\<rparr>
        else rc1)"

text \<open>What one member of the group is told, and his new state.\<close>

definition role_check_member :: "lfg_world \<Rightarrow> bool \<Rightarrow> guid \<Rightarrow> uint8 \<Rightarrow> lfg_role_check \<Rightarrow> uint32 list
    \<Rightarrow> guid \<times> uint8 \<Rightarrow> lfg_mgr \<Rightarrow> lfg_mgr" where
  "role_check_member w sendRoleChosen g roles rc dungeons pr m =
     (let (pguid, role) = pr;
          m1 = (if sendRoleChosen then send w pguid (RoleChosen g roles) m else m);
          m2 = send w pguid (RoleCheckUpdate rc) m1
      in case rc_state rc of
           LFG_ROLECHECK_INITIALITING \<Rightarrow> m2
         | LFG_ROLECHECK_FINISHED \<Rightarrow>
             (let m3 = SetRoles pguid role (SetState pguid LFG_STATE_QUEUED m2)
              in send w pguid (UpdateParty (update_with LFG_UPDATETYPE_ADDED_TO_QUEUE dungeons (GetComment pguid m3))) m3)
         | _ \<Rightarrow>
             (let m3 = (if rc_leader rc = pguid then send w pguid (JoinResult LFG_JOIN_FAILED (rc_state rc) []) m2 else m2);
                  m4 = send w pguid (UpdateParty (update_plain LFG_UPDATETYPE_ROLECHECK_FAILED)) m3
              in RestoreState pguid m4))"

definition UpdateRoleCheck :: "lfg_world \<Rightarrow> guid \<Rightarrow> guid \<Rightarrow> uint8 \<Rightarrow> lfg_mgr \<Rightarrow> lfg_mgr" where
  "UpdateRoleCheck w gguid g roles m =
     (if gguid = 0 then m
      else case om_find (lm_roleChecks m) gguid of
        None \<Rightarrow> m
      | Some rc0 \<Rightarrow>
          let sendRoleChosen = (rc_state rc0 \<noteq> LFG_ROLECHECK_DEFAULT \<and> g \<noteq> 0);
              rc = answer_role_check g roles rc0;
              dungeons = (if rc_rDungeonId rc \<noteq> 0 then [rc_rDungeonId rc] else rc_dungeons rc);
              m1 = m\<lparr>lm_roleChecks := om_put gguid rc (lm_roleChecks m)\<rparr>;
              m2 = fold (role_check_member w sendRoleChosen g roles rc dungeons) (rc_roles rc) m1
          in if rc_state rc = LFG_ROLECHECK_FINISHED
             then (let m3 = SetState gguid LFG_STATE_QUEUED m2;
                       m4 = on_queue (queue_id gguid m3)
                              (AddQueueData gguid (env_now (lw_env w)) (rc_dungeons rc) (rc_roles rc)) m3
                   in m4\<lparr>lm_roleChecks := om_erase gguid (lm_roleChecks m4)\<rparr>)
             else if rc_state rc \<noteq> LFG_ROLECHECK_INITIALITING
             then (let m3 = RestoreState gguid m2 in m3\<lparr>lm_roleChecks := om_erase gguid (lm_roleChecks m3)\<rparr>)
             else m2)"

section \<open>Removing a proposal\<close>

text \<open>Who did not answer has denied when the proposal failed.\<close>

definition deny_pending :: "LfgUpdateType \<Rightarrow> (guid, proposal_player) stdmap \<Rightarrow> (guid, proposal_player) stdmap" where
  "deny_pending type players =
     (if type = LFG_UPDATETYPE_PROPOSAL_FAILED
      then map (\<lambda>(p, d). (p, if pp_accept d = LFG_ANSWER_PENDING then d\<lparr>pp_accept := LFG_ANSWER_DENY\<rparr> else d)) players
      else players)"

definition entry_guid :: "guid \<times> proposal_player \<Rightarrow> guid" where
  "entry_guid pd = (if pp_group (snd pd) \<noteq> 0 then pp_group (snd pd) else fst pd)"

text \<open>\<^verbatim>\<open>toRemove\<close>: the players or groups with somebody who denied.\<close>

definition to_remove :: "(guid, proposal_player) stdmap \<Rightarrow> guid list" where
  "to_remove players =
     fold (\<lambda>pd removed. if pp_accept (snd pd) = LFG_ANSWER_DENY then os_insert (entry_guid pd) removed else removed) players []"

definition remove_member :: "lfg_world \<Rightarrow> LfgUpdateType \<Rightarrow> lfg_proposal \<Rightarrow> guid list
    \<Rightarrow> guid \<times> proposal_player \<Rightarrow> lfg_mgr \<Rightarrow> lfg_mgr" where
  "remove_member w type p removed pd m =
     (let g = fst pd; gguid = entry_guid pd;
          m1 = send w g (UpdateProposalMsg p) m
      in if gguid \<in> set removed
         then (let upd = update_plain (if pp_accept (snd pd) = LFG_ANSWER_DENY then type else LFG_UPDATETYPE_REMOVED_FROM_QUEUE);
                   m2 = RestoreState g m1
               in if gguid \<noteq> g
                  then send w g (UpdateParty upd) (RestoreState (pp_group (snd pd)) m2)
                  else send w g (UpdatePlayer upd) m2)
         else (let m2 = SetState g LFG_STATE_QUEUED m1
               in if gguid \<noteq> g
                  then (let m3 = SetState gguid LFG_STATE_QUEUED m2
                        in send w g (UpdateParty (update_with LFG_UPDATETYPE_ADDED_TO_QUEUE (GetSelectedDungeons g m3) (GetComment g m3))) m3)
                  else send w g (UpdatePlayer (update_with LFG_UPDATETYPE_ADDED_TO_QUEUE (GetSelectedDungeons g m2) (GetComment g m2))) m2))"

definition RemoveProposal :: "lfg_world \<Rightarrow> uint32 \<Rightarrow> LfgUpdateType \<Rightarrow> lfg_mgr \<Rightarrow> lfg_mgr" where
  "RemoveProposal w i type m =
     (case om_find (ms_proposals m) i of
        None \<Rightarrow> m
      | Some p0 \<Rightarrow>
          let players = deny_pending type (pr_players p0);
              p = p0\<lparr>pr_state := LFG_PROPOSAL_FAILED, pr_players := players\<rparr>;
              removed = to_remove players;
              m1 = fold (remove_member w type p removed) players m;
              k = queue_id (fst (hd players)) m1;
              m2 = on_queue k (fold RemoveFromQueue removed) m1;
              m3 = on_queue k (fold AddToQueue (filter (\<lambda>g. g \<notin> set removed) (pr_queues p0))) m2
          in m3\<lparr>ms_proposals := om_erase i (ms_proposals m3)\<rparr>)"

section \<open>Leaving\<close>

definition leave_queue_group :: "lfg_world \<Rightarrow> guid \<Rightarrow> lfg_mgr \<Rightarrow> lfg_mgr" where
  "leave_queue_group w gguid m =
     (let m1 = SetState gguid LFG_STATE_NONE (on_queue (queue_id gguid m) (RemoveFromQueue gguid) m)
      in fold (\<lambda>p m. send w p (UpdateParty (update_plain LFG_UPDATETYPE_REMOVED_FROM_QUEUE)) (SetState p LFG_STATE_NONE m))
           (GetPlayers gguid m1) m1)"

definition leave_queue_player :: "lfg_world \<Rightarrow> guid \<Rightarrow> lfg_mgr \<Rightarrow> lfg_mgr" where
  "leave_queue_player w g m =
     (let m1 = on_queue (queue_id g m) (RemoveFromQueue g) m;
          m2 = send w g (UpdatePlayer (update_plain LFG_UPDATETYPE_REMOVED_FROM_QUEUE)) m1
      in SetState g LFG_STATE_NONE m2)"

text \<open>The first proposal with the player, or with the leader of the group, is declined.\<close>

definition leave_proposal :: "lfg_world \<Rightarrow> guid \<Rightarrow> lfg_mgr \<Rightarrow> lfg_mgr" where
  "leave_proposal w pguid m =
     (case find (\<lambda>(i, p). om_find (pr_players p) pguid \<noteq> None) (ms_proposals m) of
        None \<Rightarrow> m
      | Some (i, p) \<Rightarrow>
          (case om_find (pr_players p) pguid of
             None \<Rightarrow> m
           | Some d \<Rightarrow>
               RemoveProposal w i LFG_UPDATETYPE_PROPOSAL_DECLINED
                 (m\<lparr>ms_proposals := om_put i (p\<lparr>pr_players := om_put pguid (d\<lparr>pp_accept := LFG_ANSWER_DENY\<rparr>) (pr_players p)\<rparr>)
                     (ms_proposals m)\<rparr>)))"

definition LeaveLfg :: "lfg_world \<Rightarrow> guid \<Rightarrow> bool \<Rightarrow> lfg_mgr \<Rightarrow> lfg_mgr" where
  "LeaveLfg w g disconnected m =
     (let gguid = (if IsGroup g then g else GetGroup g m) in
      case GetState g m of
        LFG_STATE_QUEUED \<Rightarrow> if gguid \<noteq> 0 then leave_queue_group w gguid m else leave_queue_player w g m
      | LFG_STATE_ROLECHECK \<Rightarrow> if gguid \<noteq> 0 then UpdateRoleCheck w gguid 0 PLAYER_ROLE_NONE m else m
      | LFG_STATE_PROPOSAL \<Rightarrow> leave_proposal w (if gguid = g then GetLeader gguid m else g) m
      | LFG_STATE_NONE \<Rightarrow> m
      | LFG_STATE_RAIDBROWSER \<Rightarrow> m
      | LFG_STATE_DUNGEON \<Rightarrow> if g \<noteq> gguid \<and> \<not> disconnected then SetState g LFG_STATE_NONE m else m
      | LFG_STATE_FINISHED_DUNGEON \<Rightarrow> if g \<noteq> gguid \<and> \<not> disconnected then SetState g LFG_STATE_NONE m else m)"

section \<open>Votes to kick\<close>

definition InitBoot :: "lfg_world \<Rightarrow> guid \<Rightarrow> guid \<Rightarrow> guid \<Rightarrow> string \<Rightarrow> lfg_mgr \<Rightarrow> lfg_mgr" where
  "InitBoot w gguid kicker victim reason m =
     (let m1 = SetVoteKick gguid True m;
          votes0 = (case om_find (lm_boots m1) gguid of None \<Rightarrow> [] | Some b \<Rightarrow> bt_votes b);
          players = GetPlayers gguid m1;
          votes1 = fold (\<lambda>p. om_put p LFG_ANSWER_PENDING) players votes0;
          boot = \<lparr>bt_cancelTime = env_now (lw_env w) + LFG_TIME_BOOT, bt_inProgress = True,
                  bt_votes = om_put kicker LFG_ANSWER_AGREE (om_put victim LFG_ANSWER_DENY votes1),
                  bt_victim = victim, bt_reason = reason\<rparr>
      in fold (\<lambda>p. send w p (BootProposalUpdate boot)) players
           (m1\<lparr>lm_boots := om_put gguid boot (lm_boots m1)\<rparr>))"

section \<open>Hooks of the class Group\<close>

abbreviation lfg_enabled :: "lfg_mgr \<Rightarrow> bool" where
  "lfg_enabled \<equiv> isOptionEnabled (LFG_OPTION_ENABLE_DUNGEON_FINDER OR LFG_OPTION_ENABLE_RAID_BROWSER)"

definition OnAddMember :: "lfg_world \<Rightarrow> guid \<Rightarrow> guid \<Rightarrow> guid \<Rightarrow> lfg_mgr \<Rightarrow> lfg_mgr" where
  "OnAddMember w gguid g leader m =
     (if \<not> lfg_enabled m then m
      else let m1 = (if leader = g then SetLeader gguid g m
                     else let gstate = GetState gguid m; state = GetState g m;
                              m2 = (if state = LFG_STATE_QUEUED then LeaveLfg w g False m else m)
                          in if gstate = LFG_STATE_QUEUED then LeaveLfg w gguid False m2 else m2)
           in AddPlayerToGroup gguid g (SetGroup g gguid m1))"

definition OnRemoveMember :: "lfg_world \<Rightarrow> guid \<Rightarrow> guid \<Rightarrow> RemoveMethod \<Rightarrow> guid \<Rightarrow> string \<Rightarrow> bool \<Rightarrow> lfg_mgr \<Rightarrow> lfg_mgr" where
  "OnRemoveMember w gguid g rm kicker reason isLFG m =
     (if \<not> lfg_enabled m then m
      else if isLFG \<and> rm = GROUP_REMOVEMETHOD_KICK then InitBoot w gguid kicker g reason m
      else let state = GetState gguid m in
        if state = LFG_STATE_PROPOSAL \<and> rm = GROUP_REMOVEMETHOD_DEFAULT
        then snd (RemovePlayerFromGroup gguid g (SetGroup g 0 m))
        else case RemovePlayerFromGroup gguid g (SetGroup g 0 (LeaveLfg w g False m)) of (players, m1) \<Rightarrow>
          let m2 = (if lw_FindPlayer w g
                    then (let sent = (if rm = GROUP_REMOVEMETHOD_LEAVE \<and> state = LFG_STATE_DUNGEON \<and>
                                          LFG_GROUP_KICK_VOTES_NEEDED \<le> unat players then [(g, CastDeserter)] else []) @
                                     [(g, UpdateParty (update_plain LFG_UPDATETYPE_LEADER_UNK1))] @
                                     (if isLFG \<and> lw_inDungeon w g then [(g, TeleportOut)] else [])
                          in m1\<lparr>lm_sent := lm_sent m1 @ sent\<rparr>)
                    else m1)
          in if isLFG \<and> state \<noteq> LFG_STATE_FINISHED_DUNGEON
             then send w (GetLeader gguid m2) (OfferContinue (GetDungeon gguid False m2)) m2 else m2)"

definition RemoveGroupData :: "lfg_world \<Rightarrow> guid \<Rightarrow> lfg_mgr \<Rightarrow> lfg_mgr" where
  "RemoveGroupData w g m =
     (case om_find (ms_groups m) g of
        None \<Rightarrow> m
      | Some d \<Rightarrow>
          let state = GetState g m;
              m1 = fold (\<lambda>p m. let m1 = SetGroup p 0 m in
                      if state \<noteq> LFG_STATE_PROPOSAL
                      then send w p (UpdateParty (update_plain LFG_UPDATETYPE_REMOVED_FROM_QUEUE)) (SetState p LFG_STATE_NONE m1)
                      else m1) (gd_players d) m
          in m1\<lparr>ms_groups := om_erase g (ms_groups m1)\<rparr>)"

fun group_hook :: "lfg_world \<Rightarrow> group_event \<Rightarrow> lfg_mgr \<Rightarrow> lfg_mgr" where
  "group_hook w (AddMember gguid g leader) m = OnAddMember w gguid g leader m"
| "group_hook w (RemoveMember gguid g rm kicker reason isLFG) m = OnRemoveMember w gguid g rm kicker reason isLFG m"
| "group_hook w (Disband gguid) m = (if lfg_enabled m then RemoveGroupData w gguid m else m)"
| "group_hook w (ChangeLeader gguid leader) m = (if lfg_enabled m then SetLeader gguid leader m else m)"

section \<open>Answers to a vote and to a proposal\<close>

definition vote_counts :: "(guid, LfgAnswer) stdmap \<Rightarrow> uint8 \<times> uint8" where
  "vote_counts votes =
     fold (\<lambda>(p, v) (votesNum, agreeNum).
       if v \<noteq> LFG_ANSWER_PENDING then (votesNum + 1, if v = LFG_ANSWER_AGREE then agreeNum + 1 else agreeNum)
       else (votesNum, agreeNum)) votes (0, 0)"

text \<open>The vote is decided: everybody but the victim is told, and three agreements kick him.\<close>

definition conclude_boot :: "lfg_world \<Rightarrow> guid \<Rightarrow> lfg_boot \<Rightarrow> uint8 \<Rightarrow> lfg_mgr \<Rightarrow> lfg_mgr" where
  "conclude_boot w gguid boot1 agreeNum m1 =
     (let boot2 = boot1\<lparr>bt_inProgress := False\<rparr>;
          m2 = fold (\<lambda>(p, v). if p \<noteq> bt_victim boot2 then send w p (BootProposalUpdate boot2) else id)
                 (bt_votes boot2) (m1\<lparr>lm_boots := om_put gguid boot2 (lm_boots m1)\<rparr>);
          m3 = SetVoteKick gguid False m2;
          m4 = (if unat agreeNum = LFG_GROUP_KICK_VOTES_NEEDED
                then DecreaseKicksLeft gguid (fold (group_hook w) (lw_hooks w [CallKick gguid (bt_victim boot2)]) m3)
                else m3)
      in m4\<lparr>lm_boots := om_erase gguid (lm_boots m4)\<rparr>)"

text \<open>
  \<^verbatim>\<open>boot.votes[guid] != LFG_ANSWER_PENDING\<close> creates the entry of a player who has none (one who came into
  the group after the vote began) with the value 0, which is \<^verbatim>\<open>LFG_ANSWER_DENY\<close>: he is refused as
  if he had voted, and his denial stays in the map.
  \<^verbatim>\<open>(votesNum - agreeNum) < NEEDED\<close> is computed in \<^verbatim>\<open>int\<close>, so it is \<open>votesNum < agreeNum + NEEDED\<close>.
\<close>

definition UpdateBoot :: "lfg_world \<Rightarrow> guid \<Rightarrow> bool \<Rightarrow> lfg_mgr \<Rightarrow> lfg_mgr" where
  "UpdateBoot w g accept m =
     (let gguid = GetGroup g m in
      if gguid = 0 then m
      else case om_find (lm_boots m) gguid of
        None \<Rightarrow> m
      | Some boot \<Rightarrow>
          if om_find (bt_votes boot) g = None
          then m\<lparr>lm_boots := om_put gguid (boot\<lparr>bt_votes := om_put g LFG_ANSWER_DENY (bt_votes boot)\<rparr>) (lm_boots m)\<rparr>
          else if om_find (bt_votes boot) g \<noteq> Some LFG_ANSWER_PENDING then m
          else let boot1 = boot\<lparr>bt_votes := om_put g (answer_of accept) (bt_votes boot)\<rparr>;
                   m1 = m\<lparr>lm_boots := om_put gguid boot1 (lm_boots m)\<rparr>;
                   (votesNum, agreeNum) = vote_counts (bt_votes boot1)
               in if unat agreeNum < LFG_GROUP_KICK_VOTES_NEEDED \<and>
                     unat votesNum < unat agreeNum + LFG_GROUP_KICK_VOTES_NEEDED then m1
                  else conclude_boot w gguid boot1 agreeNum m1)"

definition OnInviteMember :: "lfg_world \<Rightarrow> guid \<Rightarrow> guid \<Rightarrow> lfg_mgr \<Rightarrow> lfg_mgr" where
  "OnInviteMember w gguid leader m =
     (if lfg_enabled m \<and> leader \<noteq> 0 \<and> gguid = 0 then LeaveLfg w leader False m else m)"

text \<open>The player hooks; \<open>grp\<close> is the group of the player, if any.\<close>

definition OnLogout :: "lfg_world \<Rightarrow> guid \<Rightarrow> guid option \<Rightarrow> bool \<Rightarrow> lfg_mgr \<Rightarrow> lfg_mgr" where
  "OnLogout w g grp disconnected m =
     (if \<not> lfg_enabled m then m
      else case grp of
        None \<Rightarrow> LeaveLfg w g False (m\<lparr>lm_sent := lm_sent m @ [(g, RaidBrowserDisabled)]\<rparr>)
      | Some _ \<Rightarrow> if disconnected then LeaveLfg w g True m else m)"

definition OnLogin :: "lfg_world \<Rightarrow> guid \<Rightarrow> guid option \<Rightarrow> uint8 \<Rightarrow> lfg_mgr \<Rightarrow> lfg_mgr" where
  "OnLogin w g grp team m =
     (if \<not> lfg_enabled m then m
      else SetTeam w g team
        (case grp of None \<Rightarrow> m
         | Some gguid2 \<Rightarrow> if GetGroup g m \<noteq> gguid2 then SetupGroupMember g gguid2 m else m))"

definition dungeon_entry :: "lfg_dungeon \<Rightarrow> uint32" where
  "dungeon_entry d = dg_id d + push_bit 24 (ucast (dg_type d))"

definition GetLFGDungeon :: "uint32 \<Rightarrow> lfg_mgr \<Rightarrow> lfg_dungeon option" where
  "GetLFGDungeon i m = om_find (lm_dungeons m) i"

text \<open>The players of a proposal, its leader in front.\<close>

definition leader_first :: "lfg_proposal \<Rightarrow> guid list" where
  "leader_first p = fold (\<lambda>(g, d) players. if g = pr_leader p then g # players else players @ [g]) (pr_players p) []"

text \<open>A call to a group, with the hooks it runs; the history of calls is part of the state.\<close>

definition call_group :: "lfg_world \<Rightarrow> group_call \<Rightarrow> group_call list \<times> lfg_mgr \<Rightarrow> group_call list \<times> lfg_mgr" where
  "call_group w c cm = (let calls = fst cm @ [c] in (calls, fold (group_hook w) (lw_hooks w calls) (snd cm)))"

text \<open>One player joins the new group; the first one creates it, if it does not exist.\<close>

definition gather_member :: "lfg_world \<Rightarrow> lfg_dungeon \<Rightarrow> guid
    \<Rightarrow> guid option \<times> group_call list \<times> lfg_mgr \<Rightarrow> guid option \<times> group_call list \<times> lfg_mgr" where
  "gather_member w dungeon g acc =
     (if \<not> env_connected (lw_env w) g then acc
      else let (grp, cm) = acc;
               grp0 = lw_group w (fst cm) g;
               cm1 = (case grp0 of None \<Rightarrow> cm | Some old \<Rightarrow> if grp0 \<noteq> grp then call_group w (CallRemove old g) cm else cm);
               (grp', cm2) = (case grp of
                   None \<Rightarrow> (let (calls, m) = call_group w (CallCreate g) cm1; gguid = lw_created w calls
                            in (Some gguid, calls, SetState gguid LFG_STATE_PROPOSAL m))
                 | Some gguid \<Rightarrow> (grp, if grp0 \<noteq> grp then call_group w (CallAdd gguid g) cm1 else cm1));
               (calls, m3) = cm2
           in (grp', calls, if dg_type dungeon = LFG_TYPE_RANDOM
                            then m3\<lparr>lm_sent := lm_sent m3 @ [(g, CastCooldown)]\<rparr> else m3))"

text \<open>
  \<^verbatim>\<open>MakeNewGroup\<close>: a missing dungeon and a proposal with nobody connected fail an
  assertion, which stops the server (\<open>None\<close>).
\<close>

definition MakeNewGroup :: "lfg_world \<Rightarrow> lfg_proposal \<Rightarrow> lfg_mgr \<Rightarrow> lfg_mgr option" where
  "MakeNewGroup w p m =
     (let playersToTeleport = map fst (filter (\<lambda>(g, d). pr_isNew p \<or> GetGroup g m \<noteq> pr_group p) (pr_players p))
      in case GetLFGDungeon (pr_dungeonId p) m of
           None \<Rightarrow> None
         | Some dungeon \<Rightarrow>
             (let grp = (if pr_group p \<noteq> 0 \<and> lw_groupExists w (pr_group p) then Some (pr_group p) else None)
              in case fold (gather_member w dungeon) (leader_first p) (grp, [], m) of
                   (None, _, _) \<Rightarrow> None
                 | (Some gguid, _, m1) \<Rightarrow>
                     (let m2 = SetState gguid LFG_STATE_DUNGEON (SetDungeon gguid (dungeon_entry dungeon) m1)
                      in Some (m2\<lparr>lm_sent := lm_sent m2 @ map (\<lambda>g. (g, TeleportIn)) (filter (lw_FindPlayer w) playersToTeleport)\<rparr>))))"

text \<open>C++ division truncates towards zero.\<close>

definition tdiv :: "int \<Rightarrow> int \<Rightarrow> int" where
  "tdiv a b = sgn a * (\<bar>a\<bar> div b)"

definition report_wait :: "uint8 \<Rightarrow> int32 \<Rightarrow> uint32 \<Rightarrow> lfg_queue \<Rightarrow> lfg_queue" where
  "report_wait role waitTime dungeonId q =
     (if role = PLAYER_ROLE_DAMAGE then UpdateWaitTimeDps waitTime dungeonId q
      else if role = PLAYER_ROLE_HEALER then UpdateWaitTimeHealer waitTime dungeonId q
      else if role = PLAYER_ROLE_TANK then UpdateWaitTimeTank waitTime dungeonId q
      else UpdateWaitTimeAvg waitTime dungeonId q)"

text \<open>One player of an accepted proposal; the update type changes after the first one.\<close>

definition accept_member :: "lfg_world \<Rightarrow> uint8 \<Rightarrow> bool \<Rightarrow> lfg_proposal \<Rightarrow> guid \<times> proposal_player
    \<Rightarrow> LfgUpdateType \<times> lfg_mgr \<Rightarrow> LfgUpdateType \<times> lfg_mgr" where
  "accept_member w k sendUpdate p pd acc =
     (let (g, d) = pd; (utype, m) = acc;
          dungeonId = hd (GetSelectedDungeons g m);
          m1 = (if sendUpdate then send w g (UpdateProposalMsg p) m else m);
          owner = (if pp_group d \<noteq> 0 then pp_group d else g);
          (joined, q) = GetJoinTime (env_now (lw_env w)) owner (queue_at k m1);
          waitTime = of_int (tdiv (env_now (lw_env w) - joined) IN_MILLISECONDS);
          m2 = on_queue k (\<lambda>_. q) m1;
          m3 = send w g (if pp_group d \<noteq> 0 then UpdateParty (update_plain utype) else UpdatePlayer (update_plain utype)) m2;
          removed = update_plain LFG_UPDATETYPE_REMOVED_FROM_QUEUE;
          m4 = send w g (UpdateParty removed) (send w g (UpdatePlayer removed) m3);
          m5 = on_queue k (report_wait (no_leader (GetRoles g m4)) waitTime dungeonId) m4
      in (LFG_UPDATETYPE_REMOVED_FROM_QUEUE, SetState g LFG_STATE_DUNGEON m5))"

definition UpdateProposal :: "lfg_world \<Rightarrow> uint32 \<Rightarrow> guid \<Rightarrow> bool \<Rightarrow> lfg_mgr \<Rightarrow> lfg_mgr option" where
  "UpdateProposal w proposalId g accept m =
     (case om_find (ms_proposals m) proposalId of
        None \<Rightarrow> Some m
      | Some p0 \<Rightarrow>
          (case om_find (pr_players p0) g of
             None \<Rightarrow> Some m
           | Some d \<Rightarrow>
               let players = om_put g (d\<lparr>pp_accept := answer_of accept\<rparr>) (pr_players p0);
                   p1 = p0\<lparr>pr_players := players\<rparr>;
                   m1 = m\<lparr>ms_proposals := om_put proposalId p1 (ms_proposals m)\<rparr>
               in if \<not> accept then Some (RemoveProposal w proposalId LFG_UPDATETYPE_PROPOSAL_DECLINED m1)
                  else if \<not> list_all (\<lambda>(p, d). pp_accept d = LFG_ANSWER_AGREE) players
                  then Some (fold (\<lambda>(p, d). send w p (UpdateProposalMsg p1)) players m1)
                  else let sendUpdate = (pr_state p1 \<noteq> LFG_PROPOSAL_SUCCESS);
                           p2 = p1\<lparr>pr_state := LFG_PROPOSAL_SUCCESS\<rparr>;
                           m2 = m1\<lparr>ms_proposals := om_put proposalId p2 (ms_proposals m1)\<rparr>;
                           k = queue_id g m2;
                           m3 = snd (fold (accept_member w k sendUpdate p2) players (LFG_UPDATETYPE_GROUP_FOUND, m2));
                           m4 = on_queue k (fold RemoveFromQueue (pr_queues p2)) m3
                       in map_option (\<lambda>m5. m5\<lparr>ms_proposals := om_erase proposalId (ms_proposals m5)\<rparr>)
                            (MakeNewGroup w p2 m4)))"

section \<open>The periodic update\<close>

definition expire_role_check :: "lfg_world \<Rightarrow> guid \<times> lfg_role_check \<Rightarrow> lfg_mgr \<Rightarrow> lfg_mgr" where
  "expire_role_check w gr m =
     (let (gguid, rc0) = gr in
      if env_now (lw_env w) < rc_cancelTime rc0 then m
      else let rc = rc0\<lparr>rc_state := LFG_ROLECHECK_MISSING_ROLE\<rparr>;
               m1 = fold (\<lambda>(g, r) m.
                      let m1 = send w g (RoleCheckUpdate rc) (RestoreState g m)
                      in if g = rc_leader rc then send w g (JoinResult LFG_JOIN_FAILED LFG_ROLECHECK_MISSING_ROLE []) m1 else m1)
                    (rc_roles rc) m;
               m2 = RestoreState gguid m1
           in m2\<lparr>lm_roleChecks := om_erase gguid (lm_roleChecks m2)\<rparr>)"

definition expire_proposal :: "lfg_world \<Rightarrow> uint32 \<times> lfg_proposal \<Rightarrow> lfg_mgr \<Rightarrow> lfg_mgr" where
  "expire_proposal w ip m =
     (if pr_cancelTime (snd ip) < env_now (lw_env w) then RemoveProposal w (fst ip) LFG_UPDATETYPE_PROPOSAL_FAILED m else m)"

definition expire_boot :: "lfg_world \<Rightarrow> guid \<times> lfg_boot \<Rightarrow> lfg_mgr \<Rightarrow> lfg_mgr" where
  "expire_boot w gb m =
     (let (gguid, boot) = gb in
      if bt_cancelTime boot < env_now (lw_env w)
      then (let boot1 = boot\<lparr>bt_inProgress := False\<rparr>;
                m1 = fold (\<lambda>(p, v). if p \<noteq> bt_victim boot then send w p (BootProposalUpdate boot1) else id) (bt_votes boot) m;
                m2 = SetVoteKick gguid False m1
            in m2\<lparr>lm_boots := om_erase gguid (lm_boots m2)\<rparr>)
      else m)"

definition search_queue :: "lfg_world \<Rightarrow> uint8 \<Rightarrow> lfg_mgr \<Rightarrow> lfg_mgr" where
  "search_queue w k m =
     (case FindGroups (lw_env w) (queue_at k m, m) of (n, q, m1) \<Rightarrow> m1\<lparr>lm_queues := om_put k q (lm_queues m1)\<rparr>)"

definition announce_member :: "lfg_world \<Rightarrow> lfg_proposal \<Rightarrow> guid \<Rightarrow> lfg_mgr \<Rightarrow> lfg_mgr" where
  "announce_member w p g m =
     (let m1 = SetState g LFG_STATE_PROPOSAL m;
          gguid = GetGroup g m1;
          m2 = (if gguid \<noteq> 0 then SetState gguid LFG_STATE_PROPOSAL m1 else m1);
          upd = update_with LFG_UPDATETYPE_PROPOSAL_BEGIN (GetSelectedDungeons g m2) (GetComment g m2)
      in send w g (UpdateProposalMsg p) (send w g (if gguid \<noteq> 0 then UpdateParty upd else UpdatePlayer upd) m2))"

definition announce_proposal :: "lfg_world \<Rightarrow> uint32 \<times> lfg_proposal \<Rightarrow> lfg_mgr \<Rightarrow> lfg_mgr option" where
  "announce_proposal w ip m =
     (let (i, p) = ip; m1 = fold (announce_member w p) (map fst (pr_players p)) m
      in if pr_state p = LFG_PROPOSAL_SUCCESS
         then UpdateProposal w i (if pr_players p = [] then 0 else fst (last (pr_players p))) True m1
         else Some m1)"

text \<open>From \<^verbatim>\<open>ProposalsStore.find(m_lfgProposalId)\<close> to the end.\<close>

definition latest_proposals :: "lfg_mgr \<Rightarrow> (uint32 \<times> lfg_proposal) list" where
  "latest_proposals m = dropWhile (\<lambda>(i, p). i \<noteq> ms_proposalId m) (ms_proposals m)"

definition update_timers :: "lfg_world \<Rightarrow> uint8 \<Rightarrow> lfg_mgr \<Rightarrow> lfg_mgr" where
  "update_timers w k m =
     (case UpdateQueueTimers (env_now (lw_env w)) (queue_at k m) of (q, sent) \<Rightarrow>
        fold (\<lambda>(g, status). send w g (QueueStatus status)) sent (m\<lparr>lm_queues := om_put k q (lm_queues m)\<rparr>))"

definition Update :: "lfg_world \<Rightarrow> uint32 \<Rightarrow> lfg_mgr \<Rightarrow> lfg_mgr option" where
  "Update w diff m =
     (if \<not> lfg_enabled m then Some m
      else let m1 = fold (expire_role_check w) (lm_roleChecks m) m;
               m2 = fold (expire_proposal w) (ms_proposals m1) m1;
               m3 = fold (expire_boot w) (lm_boots m2) m2;
               m4 = fold (\<lambda>(k, q). search_queue w k) (lm_queues m3) m3;
               m5 = (if ms_proposalId m3 \<noteq> ms_proposalId m4
                     then fold (\<lambda>ip om. Option.bind om (announce_proposal w ip)) (latest_proposals m4) (Some m4)
                     else Some m4)
           in map_option (\<lambda>m5.
                if LFG_QUEUEUPDATE_INTERVAL < lm_QueueTimer m5
                then fold (\<lambda>(k, q). update_timers w k) (lm_queues m5) (m5\<lparr>lm_QueueTimer := 0\<rparr>)
                else m5\<lparr>lm_QueueTimer := lm_QueueTimer m5 + diff\<rparr>) m5)"

section \<open>Lemmas: frames\<close>

named_theorems frame_simps "what an operation of the manager leaves alone"

lemma send_fields [simp, frame_simps]:
  "ms_players (send w g x m) = ms_players m" "ms_groups (send w g x m) = ms_groups m"
  "ms_proposals (send w g x m) = ms_proposals m" "lm_queues (send w g x m) = lm_queues m"
  "lm_roleChecks (send w g x m) = lm_roleChecks m" "lm_boots (send w g x m) = lm_boots m"
  "lm_dungeons (send w g x m) = lm_dungeons m" "lm_options (send w g x m) = lm_options m"
  "ms_proposalId (send w g x m) = ms_proposalId m"
  by (simp_all add: send_def)

lemma on_player_fields [simp, frame_simps]:
  "ms_groups (on_player g f m) = ms_groups m" "ms_proposals (on_player g f m) = ms_proposals m"
  "lm_queues (on_player g f m) = lm_queues m" "lm_roleChecks (on_player g f m) = lm_roleChecks m"
  "lm_boots (on_player g f m) = lm_boots m" "lm_dungeons (on_player g f m) = lm_dungeons m"
  "lm_options (on_player g f m) = lm_options m" "ms_proposalId (on_player g f m) = ms_proposalId m"
  by (simp_all add: on_player_def)

lemma on_group_fields [simp, frame_simps]:
  "ms_players (on_group g f m) = ms_players m" "ms_proposals (on_group g f m) = ms_proposals m"
  "lm_queues (on_group g f m) = lm_queues m" "lm_roleChecks (on_group g f m) = lm_roleChecks m"
  "lm_boots (on_group g f m) = lm_boots m" "lm_dungeons (on_group g f m) = lm_dungeons m"
  "lm_options (on_group g f m) = lm_options m" "ms_proposalId (on_group g f m) = ms_proposalId m"
  by (simp_all add: on_group_def)

lemma on_queue_fields [simp, frame_simps]:
  "ms_players (on_queue k f m) = ms_players m" "ms_groups (on_queue k f m) = ms_groups m"
  "ms_proposals (on_queue k f m) = ms_proposals m" "lm_roleChecks (on_queue k f m) = lm_roleChecks m"
  "lm_boots (on_queue k f m) = lm_boots m" "lm_dungeons (on_queue k f m) = lm_dungeons m"
  "lm_options (on_queue k f m) = lm_options m" "ms_proposalId (on_queue k f m) = ms_proposalId m"
  by (simp_all add: on_queue_def)

lemma queue_at_simps [simp]:
  "queue_at k (on_queue k' f m) = (if k = k' then f (queue_at k m) else queue_at k m)"
  "queue_at k (on_player g f' m) = queue_at k m" "queue_at k (on_group g f'' m) = queue_at k m"
  "queue_at k (send w g x m) = queue_at k m"
  by (simp_all add: queue_at_def on_queue_def on_player_def on_group_def send_def om_at_def)

lemma player_at_simps [simp]:
  "player_at h (on_player g f m) = (if h = g then f (player_at g m) else player_at h m)"
  "player_at h (on_group g f' m) = player_at h m" "player_at h (on_queue k f'' m) = player_at h m"
  "player_at h (send w g x m) = player_at h m"
  by (simp_all add: player_at_def on_player_def on_group_def on_queue_def send_def om_at_def)

lemma group_at_simps [simp]:
  "group_at h (on_group g f m) = (if h = g then f (group_at g m) else group_at h m)"
  "group_at h (on_player g f' m) = group_at h m" "group_at h (on_queue k f'' m) = group_at h m"
  "group_at h (send w g x m) = group_at h m"
  by (simp_all add: group_at_def on_player_def on_group_def on_queue_def send_def om_at_def)

lemma store_updates [simp]:
  "queue_at k (m\<lparr>ms_proposals := ps\<rparr>) = queue_at k m" "queue_at k (m\<lparr>lm_roleChecks := rs\<rparr>) = queue_at k m"
  "queue_at k (m\<lparr>lm_boots := bs\<rparr>) = queue_at k m"
  "player_at g (m\<lparr>ms_proposals := ps\<rparr>) = player_at g m" "player_at g (m\<lparr>lm_roleChecks := rs\<rparr>) = player_at g m"
  "player_at g (m\<lparr>lm_boots := bs\<rparr>) = player_at g m"
  "group_at g (m\<lparr>ms_proposals := ps\<rparr>) = group_at g m" "group_at g (m\<lparr>lm_roleChecks := rs\<rparr>) = group_at g m"
  "group_at g (m\<lparr>lm_boots := bs\<rparr>) = group_at g m"
  by (simp_all add: queue_at_def player_at_def group_at_def)

lemma SetState_fields [simp, frame_simps]:
  "ms_proposals (SetState g s m) = ms_proposals m" "lm_queues (SetState g s m) = lm_queues m"
  "lm_roleChecks (SetState g s m) = lm_roleChecks m" "lm_boots (SetState g s m) = lm_boots m"
  "lm_dungeons (SetState g s m) = lm_dungeons m" "queue_at k (SetState g s m) = queue_at k m"
  by (simp_all add: SetState_def)

lemma RestoreState_fields [simp, frame_simps]:
  "ms_proposals (RestoreState g m) = ms_proposals m" "lm_queues (RestoreState g m) = lm_queues m"
  "lm_roleChecks (RestoreState g m) = lm_roleChecks m" "lm_boots (RestoreState g m) = lm_boots m"
  "lm_dungeons (RestoreState g m) = lm_dungeons m" "queue_at k (RestoreState g m) = queue_at k m"
  by (simp_all add: RestoreState_def)

section \<open>The contract of the table of states\<close>

lemma GetState_at: "GetState g m = (if IsGroup g then gd_state (group_at g m) else pd_state (player_at g m))" for m :: lfg_mgr
  by (simp add: GetState_def group_at_def player_at_def)

lemma GetOldState_at: "GetOldState g m = (if IsGroup g then gd_oldState (group_at g m) else pd_oldState (player_at g m))" for m :: lfg_mgr
  by (simp add: GetOldState_def group_at_def player_at_def)

text \<open>
  What role checks and proposals rely on: setting and restoring act on one guid, and only
  the stable states are remembered.
\<close>

locale state_table =
  fixes put :: "'g \<Rightarrow> LfgState \<Rightarrow> 'm \<Rightarrow> 'm"
    and undo :: "'g \<Rightarrow> 'm \<Rightarrow> 'm"
    and current :: "'g \<Rightarrow> 'm \<Rightarrow> LfgState"
    and kept :: "'g \<Rightarrow> 'm \<Rightarrow> LfgState"
  assumes current_put: "current h (put g s m) = (if h = g then s else current h m)"
    and kept_put: "kept h (put g s m) = (if h = g \<and> stable s then s else kept h m)"
    and current_undo: "current h (undo g m) = (if h = g then kept g m else current h m)"
    and kept_undo: "kept h (undo g m) = kept h m"
begin

lemma put_all_current: "current h (fold (\<lambda>g. put g s) gs m) = (if h \<in> set gs then s else current h m)"
  by (induction gs arbitrary: m) (auto simp: current_put)

lemma put_all_kept: "\<not> stable s \<Longrightarrow> kept h (fold (\<lambda>g. put g s) gs m) = kept h m"
  by (induction gs arbitrary: m) (auto simp: kept_put)

lemma undo_all_current: "current h (fold undo gs m) = (if h \<in> set gs then kept h m else current h m)"
  by (induction gs arbitrary: m) (auto simp: current_undo kept_undo)

lemma rollback_all: "\<not> stable s \<Longrightarrow> set gs \<subseteq> set hs \<Longrightarrow> h \<in> set hs \<Longrightarrow>
    current h (fold undo hs (fold (\<lambda>g. put g s) gs m)) = kept h m"
  by (simp add: undo_all_current put_all_kept)

end

interpretation states: state_table SetState RestoreState "GetState :: guid \<Rightarrow> lfg_mgr \<Rightarrow> LfgState" GetOldState
  by unfold_locales
    (auto simp: GetState_at GetOldState_at SetState_def RestoreState_def
      lfg_group.state_set lfg_group.old_set lfg_group.state_restore lfg_group.old_restore
      lfg_player.state_set lfg_player.old_set lfg_player.state_restore lfg_player.old_restore)

lemma state_frames [simp]:
  "GetState h (send w g x m) = GetState h m" "GetOldState h (send w g x m) = GetOldState h m"
  "GetState h (on_queue k f m) = GetState h m" "GetOldState h (on_queue k f m) = GetOldState h m"
  "GetState h (SetRoles g r m) = GetState h m" "GetOldState h (SetRoles g r m) = GetOldState h m"
  "GetState h (m\<lparr>ms_proposals := ps\<rparr>) = GetState h m" "GetOldState h (m\<lparr>ms_proposals := ps\<rparr>) = GetOldState h m"
  "GetState h (m\<lparr>lm_roleChecks := rs\<rparr>) = GetState h m" "GetOldState h (m\<lparr>lm_roleChecks := rs\<rparr>) = GetOldState h m"
  "GetState h (m\<lparr>lm_boots := bs\<rparr>) = GetState h m" "GetOldState h (m\<lparr>lm_boots := bs\<rparr>) = GetOldState h m"
  by (simp_all add: GetState_at GetOldState_at SetRoles_def pd_SetRoles_def)

lemma state_cong:
  "ms_players m' = ms_players m \<Longrightarrow> ms_groups m' = ms_groups m \<Longrightarrow> GetState h m' = GetState h m \<and> GetOldState h m' = GetOldState h m"
  for m m' :: lfg_mgr
  by (simp add: GetState_def GetOldState_def)

section \<open>Lemmas: leaving the queue\<close>

text \<open>An entry is gone from a queue.\<close>

definition gone :: "guid \<Rightarrow> lfg_queue \<Rightarrow> bool" where
  "gone g q \<longleftrightarrow> g \<notin> set (q_new q) \<and> g \<notin> set (q_current q) \<and> om_find (q_data q) g = None"

lemma data_RemoveFromQueue: "om_find (q_data (RemoveFromQueue g q)) h = None \<longleftrightarrow> h = g \<or> om_find (q_data q) h = None"
proof -
  have "om_find (entries (RemoveFromQueue g q)) h = None \<longleftrightarrow> h = g \<or> om_find (entries q) h = None"
    by (simp add: entries_RemoveFromQueue)
  then show ?thesis by (simp add: entries_find)
qed

lemma gone_RemoveFromQueue: "gone h (RemoveFromQueue g q) \<longleftrightarrow> h = g \<or> gone h q"
  by (auto simp: gone_def RemoveFromQueue_fields data_RemoveFromQueue)

lemma fold_RemoveFromQueue:
  "gone h (fold RemoveFromQueue gs q) \<longleftrightarrow> h \<in> set gs \<or> gone h q"
  "om_find (q_data (fold RemoveFromQueue gs q)) h = None \<longleftrightarrow> h \<in> set gs \<or> om_find (q_data q) h = None"
  by (induction gs arbitrary: q) (auto simp: gone_RemoveFromQueue data_RemoveFromQueue)

lemma fold_AddToQueue:
  "q_data (fold AddToQueue gs q) = q_data q \<and> q_current (fold AddToQueue gs q) = q_current q \<and>
   set (q_new (fold AddToQueue gs q)) = set (q_new q) \<union> {g \<in> set gs. om_find (q_data q) g \<noteq> None}"
  by (induction gs arbitrary: q) (auto simp: AddToQueue_def AddToNewQueue_def)

end
