(* ===== verification/LfgTables.thy ===== *)
theory LfgTables
  imports LfgMgr
begin

text \<open>
  The tables of the dungeon finder, \<^verbatim>\<open>LFGMgr.cpp\<close>: loading dungeons and rewards, looking
  them up, the locks of a player, the dungeons a group of players can do, and the rows
  of a group in the database.  The contents of the client files and of the database,
  and what a player has done, are parameters.
\<close>

section \<open>Dungeons\<close>

text \<open>A row of the client's table of dungeons.\<close>

record dungeon_row =
  de_ID :: uint32
  de_minlevel :: uint32
  de_maxlevel :: uint32
  de_map :: int32
  de_difficulty :: uint32
  de_flags :: uint32
  de_type :: uint32
  de_expansion :: uint32
  de_grouptype :: uint32

abbreviation LFG_FLAG_SEASONAL :: uint32 where "LFG_FLAG_SEASONAL \<equiv> 4"

text \<open>The constructor narrows the fields to the width of \<^verbatim>\<open>LFGDungeonData\<close>.\<close>

definition dungeon_of :: "dungeon_row \<Rightarrow> lfg_dungeon" where
  "dungeon_of r = \<lparr>dg_id = de_ID r, dg_map = ucast (de_map r), dg_type = ucast (de_type r),
     dg_expansion = ucast (de_expansion r), dg_group = ucast (de_grouptype r), dg_minlevel = ucast (de_minlevel r),
     dg_maxlevel = ucast (de_maxlevel r), dg_difficulty = unat (de_difficulty r),
     dg_seasonal = has_bits (de_flags r) LFG_FLAG_SEASONAL, dg_x = 0, dg_y = 0, dg_z = 0, dg_o = 0\<rparr>"

text \<open>A position, as bit patterns; both zeros of a float equal \<^verbatim>\<open>0.0f\<close>.\<close>

record position =
  ps_x :: uint32
  ps_y :: uint32
  ps_z :: uint32
  ps_o :: uint32

definition float_zero :: "uint32 \<Rightarrow> bool" where
  "float_zero x \<longleftrightarrow> x = 0 \<or> x = 0x80000000"

definition set_position :: "position \<Rightarrow> lfg_dungeon \<Rightarrow> lfg_dungeon" where
  "set_position ps d = d\<lparr>dg_x := ps_x ps, dg_y := ps_y ps, dg_z := ps_z ps, dg_o := ps_o ps\<rparr>"

definition read_row :: "dungeon_row option \<Rightarrow> (uint32, lfg_dungeon) stdmap \<Rightarrow> (uint32, lfg_dungeon) stdmap" where
  "read_row row ds =
     (case row of
        None \<Rightarrow> ds
      | Some r \<Rightarrow> if de_type r = 1 \<or> de_type r = 5 \<or> de_type r = 2 \<or> de_type r = 6 then om_put (de_ID r) (dungeon_of r) ds else ds)"

definition read_template :: "uint32 \<times> position \<Rightarrow> (uint32, lfg_dungeon) stdmap \<Rightarrow> (uint32, lfg_dungeon) stdmap" where
  "read_template row ds =
     (case om_find ds (fst row) of None \<Rightarrow> ds | Some d \<Rightarrow> om_put (fst row) (set_position (snd row) d) ds)"

text \<open>The dungeon with its entrance; \<open>None\<close> is the \<^verbatim>\<open>continue\<close> of a dungeon without one.\<close>

definition find_entrance :: "(uint16 \<Rightarrow> (uint32 \<times> position) option) \<Rightarrow> lfg_dungeon \<Rightarrow> lfg_dungeon option" where
  "find_entrance trigger d =
     (if dg_type d \<noteq> LFG_TYPE_RANDOM \<and> float_zero (dg_x d) \<and> float_zero (dg_y d) \<and> float_zero (dg_z d)
      then (case trigger (dg_map d) of
              None \<Rightarrow> None
            | Some (target, ps) \<Rightarrow> Some (set_position ps (d\<lparr>dg_map := ucast target\<rparr>)))
      else Some d)"

definition cache_dungeon :: "lfg_dungeon \<Rightarrow> (uint8, uint32 list) stdmap \<Rightarrow> (uint8, uint32 list) stdmap" where
  "cache_dungeon d c =
     (let add = (\<lambda>k c. om_put k (os_insert (dg_id d) (om_at [] c k)) c)
      in add 0 (if dg_type d \<noteq> LFG_TYPE_RANDOM then add (dg_group d) c else c))"

definition finish_dungeon_row :: "(uint16 \<Rightarrow> (uint32 \<times> position) option) \<Rightarrow> uint32 \<times> lfg_dungeon
    \<Rightarrow> (uint32, lfg_dungeon) stdmap \<times> (uint8, uint32 list) stdmap
    \<Rightarrow> (uint32, lfg_dungeon) stdmap \<times> (uint8, uint32 list) stdmap" where
  "finish_dungeon_row trigger kd acc =
     (case find_entrance trigger (snd kd) of
        None \<Rightarrow> acc
      | Some d \<Rightarrow> (om_put (fst kd) d (fst acc), cache_dungeon d (snd acc)))"

text \<open>
  The store is an \<^verbatim>\<open>unordered_map\<close>; its dungeons are independent of each other here, so
  the order of the last loop does not matter.
\<close>

definition LoadLFGDungeons :: "dungeon_row option list \<Rightarrow> (uint32 \<times> position) list
    \<Rightarrow> (uint16 \<Rightarrow> (uint32 \<times> position) option) \<Rightarrow> bool \<Rightarrow> lfg_mgr \<Rightarrow> lfg_mgr" where
  "LoadLFGDungeons rows templates trigger reload m =
     (let ds = fold read_row rows [] in
      if templates = [] then m\<lparr>lm_dungeons := ds\<rparr>
      else let ds1 = fold read_template templates ds;
               (ds2, c) = fold (finish_dungeon_row trigger) ds1 (ds1, lm_cached m)
           in m\<lparr>lm_dungeons := ds2, lm_cached := (if reload then [] else c)\<rparr>)"

definition GetLFGDungeonEntry :: "uint32 \<Rightarrow> lfg_mgr \<Rightarrow> uint32" where
  "GetLFGDungeonEntry i m =
     (if i \<noteq> 0 then (case GetLFGDungeon i m of None \<Rightarrow> 0 | Some d \<Rightarrow> dungeon_entry d) else 0)"

definition GetDungeonsByRandom :: "uint32 \<Rightarrow> lfg_mgr \<Rightarrow> uint32 list" where
  "GetDungeonsByRandom randomdungeon m =
     om_at [] (lm_cached m) (case GetLFGDungeon randomdungeon m of None \<Rightarrow> 0 | Some d \<Rightarrow> dg_group d)"

definition GetDungeonType :: "uint32 \<Rightarrow> lfg_mgr \<Rightarrow> uint8" where
  "GetDungeonType i m = (case GetLFGDungeon i m of None \<Rightarrow> LFG_TYPE_NONE | Some d \<Rightarrow> dg_type d)"

definition GetDungeonMapId :: "guid \<Rightarrow> lfg_mgr \<Rightarrow> uint32" where
  "GetDungeonMapId g m =
     (let i = GetDungeon g True m in
      if i \<noteq> 0 then (case GetLFGDungeon i m of None \<Rightarrow> 0 | Some d \<Rightarrow> ucast (dg_map d)) else 0)"

definition inLfgDungeonMap :: "guid \<Rightarrow> uint32 \<Rightarrow> nat \<Rightarrow> lfg_mgr \<Rightarrow> bool" where
  "inLfgDungeonMap g mapid difficulty m =
     (let g1 = (if IsGroup g then g else GetGroup g m); i = GetDungeon g1 True m
      in i \<noteq> 0 \<and> (case GetLFGDungeon i m of
           None \<Rightarrow> False
         | Some d \<Rightarrow> ucast (dg_map d) = mapid \<and> dg_difficulty d = difficulty))"

definition selectedRandomLfgDungeon :: "guid \<Rightarrow> lfg_mgr \<Rightarrow> bool" where
  "selectedRandomLfgDungeon g m =
     (if GetState g m \<noteq> LFG_STATE_NONE
      then (case GetSelectedDungeons g m of
              [] \<Rightarrow> False
            | i # _ \<Rightarrow> (case GetLFGDungeon i m of
                None \<Rightarrow> False
              | Some d \<Rightarrow> dg_type d = LFG_TYPE_RANDOM \<or> dg_seasonal d))
      else False)"

section \<open>Seasons\<close>

text \<open>\<open>holiday\<close> is \<^verbatim>\<open>IsHolidayActive\<close>.\<close>

definition IsSeasonActive :: "(nat \<Rightarrow> bool) \<Rightarrow> uint32 \<Rightarrow> bool" where
  "IsSeasonActive holiday i =
     (if i = 285 then holiday 324
      else if i = 286 then holiday 341
      else if i = 287 then holiday 372
      else if i = 288 then holiday 423
      else False)"

definition GetRandomAndSeasonalDungeons :: "(nat \<Rightarrow> bool) \<Rightarrow> uint8 \<Rightarrow> uint8 \<Rightarrow> lfg_mgr \<Rightarrow> uint32 list" where
  "GetRandomAndSeasonalDungeons holiday level expansion m =
     fold (\<lambda>(i, d) ds.
       if (dg_type d = LFG_TYPE_RANDOM \<or> dg_seasonal d \<and> IsSeasonActive holiday (dg_id d)) \<and>
          dg_expansion d \<le> expansion \<and> dg_minlevel d \<le> level \<and> level \<le> dg_maxlevel d
       then os_insert (dungeon_entry d) ds else ds) (lm_dungeons m) []"

section \<open>Rewards\<close>

record reward_row =
  rr_dungeonId :: uint32
  rr_maxLevel :: uint8
  rr_firstQuestId :: uint32
  rr_otherQuestId :: uint32

text \<open>The rewards are a \<^verbatim>\<open>multimap\<close>; rows of one dungeon come in ascending level.\<close>

definition read_reward :: "uint32 \<Rightarrow> (uint32 \<Rightarrow> bool) \<Rightarrow> lfg_mgr \<Rightarrow> reward_row
    \<Rightarrow> (uint32 \<times> lfg_reward) list \<Rightarrow> (uint32 \<times> lfg_reward) list" where
  "read_reward maxPlayerLevel quest m r rewards =
     (let level0 = ucast (rr_maxLevel r);
          level = (if level0 = 0 \<or> maxPlayerLevel < level0 then maxPlayerLevel else level0);
          other = (if rr_otherQuestId r \<noteq> 0 \<and> \<not> quest (rr_otherQuestId r) then 0 else rr_otherQuestId r)
      in if GetLFGDungeonEntry (rr_dungeonId r) m = 0 then rewards
         else if rr_firstQuestId r = 0 \<or> \<not> quest (rr_firstQuestId r) then rewards
         else mm_insert (rr_dungeonId r) \<lparr>rw_maxLevel = level, rw_firstQuest = rr_firstQuestId r, rw_otherQuest = other\<rparr> rewards)"

definition LoadRewards :: "reward_row list \<Rightarrow> uint32 \<Rightarrow> (uint32 \<Rightarrow> bool) \<Rightarrow> lfg_mgr \<Rightarrow> lfg_mgr" where
  "LoadRewards rows maxPlayerLevel quest m = m\<lparr>lm_rewards := fold (read_reward maxPlayerLevel quest m) rows []\<rparr>"

fun pick_reward :: "uint8 \<Rightarrow> lfg_reward list \<Rightarrow> lfg_reward option \<Rightarrow> lfg_reward option" where
  "pick_reward level [] rew = rew"
| "pick_reward level (r # rs) rew = (if ucast level \<le> rw_maxLevel r then Some r else pick_reward level rs (Some r))"

definition GetRandomDungeonReward :: "uint32 \<Rightarrow> uint8 \<Rightarrow> lfg_mgr \<Rightarrow> lfg_reward option" where
  "GetRandomDungeonReward dungeon level m =
     pick_reward level (map snd (filter (\<lambda>(i, r). i = dungeon AND 0x00FFFFFF) (lm_rewards m))) None"

section \<open>Locks\<close>

record access_requirement =
  ar_item_level :: uint16
  ar_item :: uint32
  ar_item2 :: uint32
  ar_quest_A :: uint32
  ar_quest_H :: uint32
  ar_achievement :: uint32

text \<open>
  What the finder asks a player.  \<open>jp_bound\<close> is \<^verbatim>\<open>GetBoundInstance\<close> with the instance of its
  save, if it has one; \<open>jp_gearBelow\<close> compares the average item level.
\<close>

record join_player =
  jp_level :: uint8
  jp_expansion :: uint8
  jp_permission :: bool
  jp_inBattleground :: bool
  jp_inArena :: bool
  jp_inQueue :: bool
  jp_aura :: "uint32 \<Rightarrow> bool"
  jp_disabled :: "uint16 \<Rightarrow> bool"
  jp_bound :: "uint16 \<Rightarrow> nat \<Rightarrow> uint32 option option"
  jp_gearBelow :: "uint16 \<Rightarrow> bool"
  jp_achieved :: "uint32 \<Rightarrow> bool"
  jp_team :: uint32
  jp_questDone :: "uint32 \<Rightarrow> bool"
  jp_hasItem :: "uint32 \<Rightarrow> bool"
  jp_mapId :: uint32
  jp_canReward :: "uint32 \<Rightarrow> bool"

record join_world = lfg_world +
  jw_player :: "guid \<Rightarrow> join_player option"
  jw_holiday :: "nat \<Rightarrow> bool"
  jw_access :: "uint16 \<Rightarrow> nat \<Rightarrow> access_requirement option"
  jw_quest :: "uint32 \<Rightarrow> bool"

abbreviation LFG_LOCKSTATUS_INSUFFICIENT_EXPANSION :: uint32 where "LFG_LOCKSTATUS_INSUFFICIENT_EXPANSION \<equiv> 1"
abbreviation LFG_LOCKSTATUS_TOO_LOW_LEVEL :: uint32 where "LFG_LOCKSTATUS_TOO_LOW_LEVEL \<equiv> 2"
abbreviation LFG_LOCKSTATUS_TOO_HIGH_LEVEL :: uint32 where "LFG_LOCKSTATUS_TOO_HIGH_LEVEL \<equiv> 3"
abbreviation LFG_LOCKSTATUS_TOO_LOW_GEAR_SCORE :: uint32 where "LFG_LOCKSTATUS_TOO_LOW_GEAR_SCORE \<equiv> 4"
abbreviation LFG_LOCKSTATUS_RAID_LOCKED :: uint32 where "LFG_LOCKSTATUS_RAID_LOCKED \<equiv> 6"
abbreviation LFG_LOCKSTATUS_QUEST_NOT_COMPLETED :: uint32 where "LFG_LOCKSTATUS_QUEST_NOT_COMPLETED \<equiv> 1022"
abbreviation LFG_LOCKSTATUS_MISSING_ITEM :: uint32 where "LFG_LOCKSTATUS_MISSING_ITEM \<equiv> 1025"
abbreviation LFG_LOCKSTATUS_NOT_IN_SEASON :: uint32 where "LFG_LOCKSTATUS_NOT_IN_SEASON \<equiv> 1031"
abbreviation LFG_LOCKSTATUS_MISSING_ACHIEVEMENT :: uint32 where "LFG_LOCKSTATUS_MISSING_ACHIEVEMENT \<equiv> 1034"
abbreviation ALLIANCE :: uint32 where "ALLIANCE \<equiv> 469"
abbreviation HORDE :: uint32 where "HORDE \<equiv> 67"

definition access_lock :: "join_player \<Rightarrow> access_requirement \<Rightarrow> uint32" where
  "access_lock p ar =
     (if ar_item_level ar \<noteq> 0 \<and> jp_gearBelow p (ar_item_level ar) then LFG_LOCKSTATUS_TOO_LOW_GEAR_SCORE
      else if ar_achievement ar \<noteq> 0 \<and> \<not> jp_achieved p (ar_achievement ar) then LFG_LOCKSTATUS_MISSING_ACHIEVEMENT
      else if jp_team p = ALLIANCE \<and> ar_quest_A ar \<noteq> 0 \<and> \<not> jp_questDone p (ar_quest_A ar) then LFG_LOCKSTATUS_QUEST_NOT_COMPLETED
      else if jp_team p = HORDE \<and> ar_quest_H ar \<noteq> 0 \<and> \<not> jp_questDone p (ar_quest_H ar) then LFG_LOCKSTATUS_QUEST_NOT_COMPLETED
      else if ar_item ar \<noteq> 0
      then (if \<not> jp_hasItem p (ar_item ar) \<and> (ar_item2 ar = 0 \<or> \<not> jp_hasItem p (ar_item2 ar))
            then LFG_LOCKSTATUS_MISSING_ITEM else 0)
      else if ar_item2 ar \<noteq> 0 \<and> \<not> jp_hasItem p (ar_item2 ar) then LFG_LOCKSTATUS_MISSING_ITEM
      else 0)"

definition dungeon_lock :: "'a join_world_scheme \<Rightarrow> join_player \<Rightarrow> lfg_dungeon \<Rightarrow> uint32" where
  "dungeon_lock w p d =
     (if \<not> jp_permission p then LFG_LOCKSTATUS_RAID_LOCKED
      else if jp_expansion p < dg_expansion d then LFG_LOCKSTATUS_INSUFFICIENT_EXPANSION
      else if jp_disabled p (dg_map d) then LFG_LOCKSTATUS_RAID_LOCKED
      else if 0 < dg_difficulty d \<and> jp_bound p (dg_map d) (dg_difficulty d) \<noteq> None then LFG_LOCKSTATUS_RAID_LOCKED
      else if jp_level p < dg_minlevel d then LFG_LOCKSTATUS_TOO_LOW_LEVEL
      else if dg_maxlevel d < jp_level p then LFG_LOCKSTATUS_TOO_HIGH_LEVEL
      else if dg_seasonal d \<and> \<not> IsSeasonActive (jw_holiday w) (dg_id d) then LFG_LOCKSTATUS_NOT_IN_SEASON
      else case jw_access w (dg_map d) (dg_difficulty d) of None \<Rightarrow> 0 | Some ar \<Rightarrow> access_lock p ar)"

definition GetLockedDungeons :: "'a join_world_scheme \<Rightarrow> guid \<Rightarrow> lfg_mgr \<Rightarrow> lock_map" where
  "GetLockedDungeons w g m =
     (case jw_player w g of
        None \<Rightarrow> []
      | Some p \<Rightarrow>
          fold (\<lambda>i lock. case GetLFGDungeon i m of
              None \<Rightarrow> lock
            | Some d \<Rightarrow> (let lockData = dungeon_lock w p d in if lockData \<noteq> 0 then om_put (dungeon_entry d) lockData lock else lock))
            (GetDungeonsByRandom 0 m) [])"

text \<open>
  One locked dungeon of one player: the dungeons left, what to report, and the instance
  seen for a dungeon that the group is about to continue.  A dungeon that is missing
  from the store, or a missing player, fails an assertion (\<open>None\<close>).
\<close>

type_synonym compat_state = "uint32 list \<times> lock_party_map \<times> (uint32, uint32) stdmap"

definition apply_lock :: "'a join_world_scheme \<Rightarrow> lfg_mgr \<Rightarrow> bool \<Rightarrow> guid \<Rightarrow> uint32 \<times> uint32 \<Rightarrow> compat_state \<Rightarrow> compat_state option" where
  "apply_lock w m isContinue g lock st =
     (let (dungeons, lockMap, locked) = st;
          dungeonId = fst lock AND 0x00FFFFFF;
          report = (\<lambda>erase locked'.
            Some (if erase then os_erase dungeonId dungeons else dungeons,
                  om_put g (om_put dungeonId (snd lock) (om_at [] lockMap g)) lockMap, locked'))
      in if dungeons = [] \<or> dungeonId \<notin> set dungeons then Some st
         else if snd lock = LFG_LOCKSTATUS_RAID_LOCKED \<and> isContinue
         then (case GetLFGDungeon dungeonId m of
                 None \<Rightarrow> None
               | Some d \<Rightarrow>
                   (case jw_player w g of
                      None \<Rightarrow> None
                    | Some p \<Rightarrow>
                        (case jp_bound p (dg_map d) (dg_difficulty d) of
                           Some (Some inst) \<Rightarrow>
                             report (\<not> (om_find locked dungeonId = None \<or> om_find locked dungeonId = Some inst)) (om_put dungeonId inst locked)
                         | _ \<Rightarrow> report True locked)))
         else report True locked)"

definition player_locks :: "'a join_world_scheme \<Rightarrow> lfg_mgr \<Rightarrow> bool \<Rightarrow> guid \<Rightarrow> compat_state \<Rightarrow> compat_state option" where
  "player_locks w m isContinue g st =
     (if fst st = [] then Some st
      else fold (\<lambda>lock acc. Option.bind acc (apply_lock w m isContinue g lock)) (GetLockedDungeons w g m) (Some st))"

definition GetCompatibleDungeons :: "'a join_world_scheme \<Rightarrow> uint32 list \<Rightarrow> guid list \<Rightarrow> bool \<Rightarrow> lfg_mgr
    \<Rightarrow> (uint32 list \<times> lock_party_map) option" where
  "GetCompatibleDungeons w dungeons players isContinue m =
     map_option (\<lambda>(ds, lockMap, locked). (ds, if ds \<noteq> [] then [] else lockMap))
       (fold (\<lambda>g acc. Option.bind acc (player_locks w m isContinue g)) players (Some (dungeons, [], [])))"

section \<open>Groups in the database\<close>

fun state_code :: "LfgState \<Rightarrow> nat" where
  "state_code LFG_STATE_NONE = 0"
| "state_code LFG_STATE_ROLECHECK = 1"
| "state_code LFG_STATE_QUEUED = 2"
| "state_code LFG_STATE_PROPOSAL = 3"
| "state_code LFG_STATE_DUNGEON = 5"
| "state_code LFG_STATE_FINISHED_DUNGEON = 6"
| "state_code LFG_STATE_RAIDBROWSER = 7"

text \<open>The row written for a group: its id in the database, dungeon and state.\<close>

definition SaveToDB :: "guid \<Rightarrow> uint32 \<Rightarrow> lfg_mgr \<Rightarrow> (uint32 \<times> uint32 \<times> uint32) option" where
  "SaveToDB g db_guid m =
     (if \<not> IsGroup g then None else Some (db_guid, GetDungeon g True m, of_nat (state_code (GetState g m))))"

text \<open>The fields read for a group: counter of the leader, dungeon and state.\<close>

definition LoadFromDB :: "(uint32 \<times> uint32 \<times> uint8) option \<Rightarrow> guid \<Rightarrow> lfg_mgr \<Rightarrow> lfg_mgr" where
  "LoadFromDB row g m =
     (case row of
        None \<Rightarrow> m
      | Some (leader, dungeon, state) \<Rightarrow>
          if \<not> IsGroup g then m
          else let m1 = SetLeader g (Global HG_Player leader) m in
            if dungeon = 0 \<or> state = 0 then m1
            else let m2 = SetDungeon g dungeon m1 in
              if state = 5 then SetState g LFG_STATE_DUNGEON m2
              else if state = 6 then SetState g LFG_STATE_FINISHED_DUNGEON m2
              else m2)"

section \<open>Lemmas: the cache\<close>

definition keyed :: "(uint32, lfg_dungeon) stdmap \<Rightarrow> bool" where
  "keyed ds \<longleftrightarrow> om_ok ds \<and> (\<forall>(i, d)\<in>set ds. dg_id d = i)"

lemma keyed_find: "keyed ds \<Longrightarrow> om_find ds i = Some d \<Longrightarrow> dg_id d = i"
  using om_find_mem [of ds i d] by (auto simp: keyed_def)

lemma keyed_put: "keyed ds \<Longrightarrow> dg_id d = i \<Longrightarrow> keyed (om_put i d ds)"
proof -
  assume ok: "keyed ds" "dg_id d = i"
  then have "om_ok (om_put i d ds)" by (simp add: keyed_def)
  moreover have "dg_id e = j" if "(j, e) \<in> set (om_put i d ds)" for j e
  proof -
    have "om_find (om_put i d ds) j = Some e" using that om_find_iff_mem [OF calculation] by blast
    then show ?thesis using ok keyed_find [OF ok(1), of j e] by (simp split: if_splits)
  qed
  ultimately show ?thesis by (auto simp: keyed_def)
qed

lemma keyed_rows: "keyed ds \<Longrightarrow> keyed (fold read_row rows ds)"
  by (induction rows arbitrary: ds) (auto simp: read_row_def keyed_put dungeon_of_def split: option.split)

lemma keyed_template: "keyed ds \<Longrightarrow> keyed (read_template row ds)"
  by (auto simp: read_template_def set_position_def keyed_put keyed_find split: option.split)

lemma keyed_templates: "keyed ds \<Longrightarrow> keyed (fold read_template rows ds)"
  by (induction rows arbitrary: ds) (simp_all add: keyed_template)

lemma entrance_kept: "find_entrance trigger d = Some d' \<Longrightarrow> dg_id d' = dg_id d \<and> dg_type d' = dg_type d \<and> dg_group d' = dg_group d"
  by (auto simp: find_entrance_def set_position_def split: if_splits option.splits)

lemma cache_dungeon_mem:
  "i \<in> set (om_at [] (cache_dungeon d c) k) \<longleftrightarrow>
     i \<in> set (om_at [] c k) \<or> i = dg_id d \<and> (k = 0 \<or> dg_type d \<noteq> LFG_TYPE_RANDOM \<and> k = dg_group d)"
  by (auto simp: cache_dungeon_def Let_def om_at_def)

text \<open>The dungeons of the client that got an entrance.\<close>

definition entered :: "(uint16 \<Rightarrow> (uint32 \<times> position) option) \<Rightarrow> (uint32, lfg_dungeon) stdmap \<Rightarrow> uint32 \<Rightarrow> lfg_dungeon option" where
  "entered trigger ds i = Option.bind (om_find ds i) (find_entrance trigger)"

lemma finish_rows:
  assumes "om_ok ds" and "\<forall>(i, d)\<in>set ds. dg_id d = i"
  shows "fold (finish_dungeon_row trigger) ds acc = (ds', c) \<Longrightarrow>
     om_find ds' i = (case entered trigger ds i of Some d \<Rightarrow> Some d | None \<Rightarrow> om_find (fst acc) i) \<and>
     (i \<in> set (om_at [] c k) \<longleftrightarrow> i \<in> set (om_at [] (snd acc) k) \<or>
        (case entered trigger ds i of None \<Rightarrow> False | Some d \<Rightarrow> k = 0 \<or> dg_type d \<noteq> LFG_TYPE_RANDOM \<and> k = dg_group d))"
  using assms
proof (induction ds arbitrary: acc)
  case Nil
  then show ?case by (auto simp: entered_def)
next
  case (Cons jd ds)
  obtain j d where jd: "jd = (j, d)" by fastforce
  have ds: "om_ok ds" "\<forall>(i, d)\<in>set ds. dg_id d = i" "dg_id d = j" "j \<notin> om_keys ds"
    using Cons.prems(2,3) by (auto simp: jd)
  have none: "om_find ds j = None" using ds(4) by (simp add: om_find_None_iff)
  define acc1 where "acc1 = finish_dungeon_row trigger jd acc"
  have "fold (finish_dungeon_row trigger) ds acc1 = (ds', c)" using Cons.prems(1) by (simp add: acc1_def)
  note IH = Cons.IH [OF this ds(1,2)]
  show ?case
  proof (cases "find_entrance trigger d")
    case None
    then have "acc1 = acc" by (simp add: acc1_def finish_dungeon_row_def jd)
    note IH [unfolded this]
    then show ?thesis using None none by (cases "i = j") (simp_all add: jd entered_def)
  next
    case (Some d')
    then have acc1: "acc1 = (om_put j d' (fst acc), cache_dungeon d' (snd acc))" by (simp add: acc1_def finish_dungeon_row_def jd)
    show ?thesis
      using IH Some none entrance_kept [OF Some] ds(3)
      by (cases "i = j") (auto simp: jd acc1 entered_def cache_dungeon_mem split: option.splits)
  qed
qed

text \<open>After loading, the cache of a group holds exactly the dungeons of that group that got
  an entrance, and group 0 all of them with the random ones; the others stay in the
  store and are not offered.  With \<open>reload\<close> the cache is empty in the end.\<close>

theorem LoadLFGDungeons_cached:
  "let ds = fold read_template templates (fold read_row rows []); m' = LoadLFGDungeons rows templates trigger reload m in
   if templates = [] then lm_dungeons m' = fold read_row rows [] \<and> lm_cached m' = lm_cached m
   else om_find (lm_dungeons m') i = (case entered trigger ds i of Some d \<Rightarrow> Some d | None \<Rightarrow> om_find ds i) \<and>
     (i \<in> set (om_at [] (lm_cached m') k) \<longleftrightarrow> \<not> reload \<and>
        (i \<in> set (om_at [] (lm_cached m) k) \<or>
         (\<exists>d. entered trigger ds i = Some d \<and> (k = 0 \<or> dg_type d \<noteq> LFG_TYPE_RANDOM \<and> k = dg_group d))))"
proof -
  define ds where "ds = fold read_template templates (fold read_row rows [])"
  have "keyed ds" unfolding ds_def by (intro keyed_templates keyed_rows) (simp add: keyed_def)
  then have ok: "om_ok ds" "\<forall>(i, d)\<in>set ds. dg_id d = i" by (simp_all add: keyed_def)
  obtain ds' c where fin: "fold (finish_dungeon_row trigger) ds (ds, lm_cached m) = (ds', c)" by fastforce
  from finish_rows [OF ok fin, of i k]
  show ?thesis
    unfolding ds_def [symmetric] Let_def
    by (simp add: LoadLFGDungeons_def Let_def fin flip: ds_def) (auto simp: om_at_def split: option.splits)
qed

section \<open>Lemmas: locks\<close>

text \<open>Player \<open>g\<close> has lock \<open>s\<close> on the dungeon with id \<open>i\<close>, among all dungeons on offer.\<close>

definition lock_of :: "'a join_world_scheme \<Rightarrow> lfg_mgr \<Rightarrow> guid \<Rightarrow> uint32 \<Rightarrow> uint32 \<Rightarrow> bool" where
  "lock_of w m g i s \<longleftrightarrow>
     (\<exists>p j d. jw_player w g = Some p \<and> j \<in> set (GetDungeonsByRandom 0 m) \<and> GetLFGDungeon j m = Some d \<and>
        s = dungeon_lock w p d \<and> s \<noteq> 0 \<and> dungeon_entry d AND 0x00FFFFFF = i)"

text \<open>\<^verbatim>\<open>GetLockedDungeons\<close> lists locks, and every locked dungeon.\<close>

lemma GetLockedDungeons_true:
  assumes "(e, s) \<in> set (GetLockedDungeons w g m)"
  shows "lock_of w m g (e AND 0x00FFFFFF) s"
proof -
  let ?step = "\<lambda>p i lock. case GetLFGDungeon i m of None \<Rightarrow> lock
      | Some d \<Rightarrow> (let lockData = dungeon_lock w p d in if lockData \<noteq> 0 then om_put (dungeon_entry d) lockData lock else lock)"
  have mem: "(e, s) \<in> set acc \<or> (\<exists>j d. j \<in> set is \<and> GetLFGDungeon j m = Some d \<and> s = dungeon_lock w p d \<and> s \<noteq> 0 \<and> dungeon_entry d = e)"
    if "(e, s) \<in> set (fold (?step p) is acc)" and "om_ok acc" for p "is" acc
    using that
  proof (induction "is" arbitrary: acc)
    case (Cons i "is")
    have "om_ok (?step p i acc)" using Cons.prems(2) by (auto simp: Let_def split: option.split)
    from Cons.IH [OF _ this] Cons.prems(1)
    consider "(e, s) \<in> set (?step p i acc)"
      | "\<exists>j d. j \<in> set is \<and> GetLFGDungeon j m = Some d \<and> s = dungeon_lock w p d \<and> s \<noteq> 0 \<and> dungeon_entry d = e" by auto
    then show ?case
    proof cases
      case 1
      then have "om_find (?step p i acc) e = Some s" using \<open>om_ok (?step p i acc)\<close> by (simp only: om_find_iff_mem)
      then show ?thesis using om_find_iff_mem [OF Cons.prems(2), of e s] by (fastforce simp: Let_def split: option.splits if_splits)
    qed auto
  qed simp
  obtain p where p: "jw_player w g = Some p" using assms by (cases "jw_player w g") (auto simp: GetLockedDungeons_def)
  then have "(e, s) \<in> set (fold (?step p) (GetDungeonsByRandom 0 m) [])" using assms by (simp add: GetLockedDungeons_def)
  from mem [OF this] show ?thesis using p by (auto simp: lock_of_def)
qed

lemma GetLockedDungeons_all:
  assumes "lock_of w m g i s"
  obtains e s' where "(e, s') \<in> set (GetLockedDungeons w g m)" and "e AND 0x00FFFFFF = i"
proof -
  obtain p j d where p: "jw_player w g = Some p" "j \<in> set (GetDungeonsByRandom 0 m)" "GetLFGDungeon j m = Some d"
      "dungeon_lock w p d \<noteq> 0" "dungeon_entry d AND 0x00FFFFFF = i" using assms by (auto simp: lock_of_def)
  let ?step = "\<lambda>i lock. case GetLFGDungeon i m of None \<Rightarrow> lock
      | Some d \<Rightarrow> (let lockData = dungeon_lock w p d in if lockData \<noteq> 0 then om_put (dungeon_entry d) lockData lock else lock)"
  have "e \<in> om_keys acc \<or> j \<in> set is \<and> e = dungeon_entry d \<Longrightarrow> e \<in> om_keys (fold ?step is acc)" for e "is" acc
  proof (induction "is" arbitrary: acc)
    case (Cons i "is")
    then show ?case using p(3,4) by (auto simp: Let_def split: option.split)
  qed auto
  then have "dungeon_entry d \<in> om_keys (GetLockedDungeons w g m)" using p(1,2) by (simp add: GetLockedDungeons_def)
  then show ?thesis using that p(5) by (auto simp: om_keys_def)
qed

abbreviation locks_out :: "'a join_world_scheme \<Rightarrow> lfg_mgr \<Rightarrow> uint32 \<Rightarrow> guid \<Rightarrow> bool" where
  "locks_out w m i g \<equiv> \<exists>s. lock_of w m g i s"

lemma locks_out_iff: "locks_out w m i g \<longleftrightarrow> (\<exists>(e, s)\<in>set (GetLockedDungeons w g m). e AND 0x00FFFFFF = i)"
  by (auto dest: GetLockedDungeons_true elim: GetLockedDungeons_all)

text \<open>What is reported is true: a lock of that player on a requested dungeon.\<close>

definition report_ok :: "'a join_world_scheme \<Rightarrow> lfg_mgr \<Rightarrow> uint32 list \<Rightarrow> guid list \<Rightarrow> lock_party_map \<Rightarrow> bool" where
  "report_ok w m requested players lockMap \<longleftrightarrow>
     (\<forall>g i s. om_find (om_at [] lockMap g) i = Some s \<longrightarrow> g \<in> set players \<and> i \<in> set requested \<and> lock_of w m g i s)"

lemma apply_lock_new:
  "apply_lock w m False g lock (ds, lockMap, locked) =
     (let i = fst lock AND 0x00FFFFFF in
      Some (if i \<in> set ds
            then (os_erase i ds, om_put g (om_put i (snd lock) (om_at [] lockMap g)) lockMap, locked)
            else (ds, lockMap, locked)))"
  by (simp add: apply_lock_def Let_def)

lemma report_put:
  assumes "report_ok w m requested players lockMap" and "g \<in> set players"
    and "lock \<in> set (GetLockedDungeons w g m)" and "fst lock AND 0x00FFFFFF \<in> set requested"
  shows "report_ok w m requested players
     (om_put g (om_put (fst lock AND 0x00FFFFFF) (snd lock) (om_at [] lockMap g)) lockMap)"
proof -
  obtain e s where "lock = (e, s)" by fastforce
  then show ?thesis using assms GetLockedDungeons_true [of e s w g m] by (auto simp: report_ok_def om_at_def split: if_splits)
qed

lemma os_erase_filter: "os_erase i ds = filter (\<lambda>d. d \<noteq> i) ds"
  by (simp add: os_erase_def)

lemma locks_fold:
  assumes "set locks \<subseteq> set (GetLockedDungeons w g m)" and "g \<in> set players" and "set ds \<subseteq> set requested"
    and "report_ok w m requested players lockMap"
  shows "\<exists>lockMap'. fold (\<lambda>lock acc. Option.bind acc (apply_lock w m False g lock)) locks (Some (ds, lockMap, locked)) =
       Some (filter (\<lambda>d. \<forall>(e, s)\<in>set locks. e AND 0x00FFFFFF \<noteq> d) ds, lockMap', locked) \<and>
     report_ok w m requested players lockMap'"
  using assms
proof (induction locks arbitrary: ds lockMap)
  case (Cons lock locks)
  obtain e s where lock: "lock = (e, s)" by fastforce
  define i where "i = e AND 0x00FFFFFF"
  define ds1 where "ds1 = filter (\<lambda>d. d \<noteq> i) ds"
  define lockMap1 where "lockMap1 = (if i \<in> set ds then om_put g (om_put i s (om_at [] lockMap g)) lockMap else lockMap)"
  have "ds1 = ds" if "i \<notin> set ds" using that by (auto simp: ds1_def intro!: filter_True)
  then have step: "apply_lock w m False g lock (ds, lockMap, locked) = Some (ds1, lockMap1, locked)"
    by (simp add: apply_lock_new lock lockMap1_def os_erase_filter flip: i_def ds1_def)
  have report: "report_ok w m requested players lockMap1"
    using report_put [of w m requested players lockMap g lock] Cons.prems by (auto simp: lockMap1_def lock i_def)
  have all: "set locks \<subseteq> set (GetLockedDungeons w g m)" "set ds1 \<subseteq> set requested"
    using Cons.prems by (auto simp: ds1_def)
  have "filter (\<lambda>d. \<forall>(e, s)\<in>set locks. e AND 0x00FFFFFF \<noteq> d) ds1 = filter (\<lambda>d. \<forall>(e, s)\<in>set (lock # locks). e AND 0x00FFFFFF \<noteq> d) ds"
    by (auto simp: ds1_def lock i_def intro: filter_cong)
  then show ?case
    using Cons.IH [OF all(1) Cons.prems(2) all(2) report] by (simp only: fold_Cons comp_def Option.bind.simps step)
qed simp

lemma players_fold:
  assumes "set gs \<subseteq> set players" and "set ds \<subseteq> set requested" and "report_ok w m requested players lockMap"
  shows "\<exists>lockMap'. fold (\<lambda>g acc. Option.bind acc (player_locks w m False g)) gs (Some (ds, lockMap, locked)) =
       Some (filter (\<lambda>d. \<forall>g\<in>set gs. \<not> locks_out w m d g) ds, lockMap', locked) \<and>
     report_ok w m requested players lockMap'"
  using assms
proof (induction gs arbitrary: ds lockMap)
  case (Cons g gs)
  let ?ds = "filter (\<lambda>d. \<not> locks_out w m d g) ds"
  have g: "g \<in> set players" "set gs \<subseteq> set players" using Cons.prems(1) by simp_all
  obtain lockMap1 where step: "player_locks w m False g (ds, lockMap, locked) = Some (?ds, lockMap1, locked)"
      and report: "report_ok w m requested players lockMap1"
  proof (cases "ds = []")
    case True
    then show ?thesis using that [of lockMap] Cons.prems(3) by (simp add: player_locks_def)
  next
    case False
    have "filter (\<lambda>d. \<forall>(e, s)\<in>set (GetLockedDungeons w g m). e AND 0x00FFFFFF \<noteq> d) ds = ?ds"
      by (rule filter_cong) (auto simp: locks_out_iff)
    then show ?thesis
      using that locks_fold [OF order_refl g(1) Cons.prems(2,3), of locked] False by (auto simp: player_locks_def)
  qed
  have "set ?ds \<subseteq> set requested" using Cons.prems(2) by auto
  moreover have "filter (\<lambda>d. \<forall>g\<in>set gs. \<not> locks_out w m d g) ?ds = filter (\<lambda>d. \<forall>g\<in>set (g # gs). \<not> locks_out w m d g) ds"
    by (auto intro: filter_cong)
  ultimately show ?case
    using Cons.IH [OF g(2) _ report, of ?ds] by (simp only: fold_Cons comp_def Option.bind.simps step)
qed simp

lemma GetCompatibleDungeons_result:
  "\<exists>lockMap. report_ok w m requested players lockMap \<and>
     GetCompatibleDungeons w requested players False m =
       (let ds = filter (\<lambda>d. \<forall>g\<in>set players. \<not> locks_out w m d g) requested in Some (ds, if ds \<noteq> [] then [] else lockMap))"
proof -
  have "report_ok w m requested players []" by (simp add: report_ok_def om_at_def)
  from players_fold [OF order_refl order_refl this, of "[]"]
  show ?thesis by (auto simp: GetCompatibleDungeons_def Let_def)
qed

text \<open>C35: For players who do not continue a dungeon the check never fails.  It leaves exactly the
  requested dungeons that no player is locked out of; if there are any nothing is
  reported, and otherwise every reported lock is a lock of that player on a requested
  dungeon.\<close>

theorem GetCompatibleDungeons_exact:
  "case GetCompatibleDungeons w requested players False m of
     None \<Rightarrow> False
   | Some (ds, lockMap) \<Rightarrow>
       ds = filter (\<lambda>d. \<not> list_ex (locks_out w m d) players) requested \<and>
       (if ds = [] then report_ok w m requested players lockMap else lockMap = [])"
proof -
  obtain lockMap where "report_ok w m requested players lockMap"
    "GetCompatibleDungeons w requested players False m =
       (let ds = filter (\<lambda>d. \<forall>g\<in>set players. \<not> locks_out w m d g) requested in Some (ds, if ds \<noteq> [] then [] else lockMap))"
    using GetCompatibleDungeons_result by blast
  then show ?thesis by (simp add: Let_def list_ex_iff del: filter_empty_conv)
qed

section \<open>Lemmas: rewards\<close>

text \<open>The rows that are kept, with the reward they give.\<close>

definition reward_of :: "uint32 \<Rightarrow> (uint32 \<Rightarrow> bool) \<Rightarrow> reward_row \<Rightarrow> lfg_reward" where
  "reward_of maxPlayerLevel quest r =
     \<lparr>rw_maxLevel = (if rr_maxLevel r = 0 \<or> maxPlayerLevel < ucast (rr_maxLevel r) then maxPlayerLevel else ucast (rr_maxLevel r)),
      rw_firstQuest = rr_firstQuestId r, rw_otherQuest = (if quest (rr_otherQuestId r) then rr_otherQuestId r else 0)\<rparr>"

definition reward_kept :: "(uint32 \<Rightarrow> bool) \<Rightarrow> lfg_mgr \<Rightarrow> reward_row \<Rightarrow> bool" where
  "reward_kept quest m r \<longleftrightarrow> GetLFGDungeonEntry (rr_dungeonId r) m \<noteq> 0 \<and> rr_firstQuestId r \<noteq> 0 \<and> quest (rr_firstQuestId r)"

lemma read_reward_eq:
  "read_reward maxLevel quest m r rewards =
     (if reward_kept quest m r then mm_insert (rr_dungeonId r) (reward_of maxLevel quest r) rewards else rewards)"
proof -
  have "(ucast l = (0 :: uint32)) = (l = 0)" for l :: uint8
    by transfer (simp add: take_bit_eq_mod)
  then show ?thesis by (simp add: read_reward_def reward_kept_def reward_of_def Let_def)
qed

lemma mm_insert_last: "\<forall>p\<in>set m. fst p = k \<Longrightarrow> mm_insert k v m = m @ [(k, v)]"
  by (induction m) auto

lemma filter_mm_insert_key:
  "mm_ok m \<Longrightarrow> filter (\<lambda>(i, x). i = d) (mm_insert k v m) =
     (if k = d then filter (\<lambda>(i, x). i = d) m @ [(k, v)] else filter (\<lambda>(i, x). i = d) m)"
  by (auto simp: filter_mm_insert intro!: mm_insert_last)

lemma rewards_in_order:
  assumes "mm_ok acc"
  shows "map snd (filter (\<lambda>(i, x). i = d) (fold (read_reward maxLevel quest m) rows acc)) =
     map snd (filter (\<lambda>(i, x). i = d) acc) @
     map (reward_of maxLevel quest) (filter (\<lambda>r. rr_dungeonId r = d \<and> reward_kept quest m r) rows)"
  using assms
proof (induction rows arbitrary: acc)
  case (Cons r rows)
  have "mm_ok (read_reward maxLevel quest m r acc)" using Cons.prems by (simp add: read_reward_eq)
  moreover have "filter (\<lambda>(i, x). i = d) (mm_insert k v acc) =
      (if k = d then filter (\<lambda>(i, x). i = d) acc @ [(k, v)] else filter (\<lambda>(i, x). i = d) acc)" for k and v :: lfg_reward
    using Cons.prems filter_mm_insert_key [of acc d k v] by simp
  ultimately show ?case using Cons.IH by (simp add: read_reward_eq)
qed simp

lemma pick_reward_eq:
  "pick_reward level rs rew = (case find (\<lambda>r. ucast level \<le> rw_maxLevel r) rs of
       Some r \<Rightarrow> Some r | None \<Rightarrow> if rs = [] then rew else Some (last rs))"
  by (induction rs arbitrary: rew) (auto split: option.split)

text \<open>The reward of a dungeon for a level, after loading: among the usable rows of that
  dungeon, in the order of the table, the first one whose level reaches the player's
  level, and the last one for players above all of them.\<close>

theorem reward_for_level:
  "GetRandomDungeonReward dungeon level (LoadRewards rows maxLevel quest m) =
     (let rs = map (reward_of maxLevel quest) (filter (\<lambda>r. rr_dungeonId r = dungeon AND 0x00FFFFFF \<and> reward_kept quest m r) rows)
      in case find (\<lambda>r. ucast level \<le> rw_maxLevel r) rs of
           Some r \<Rightarrow> Some r
         | None \<Rightarrow> if rs = [] then None else Some (last rs))"
  using rewards_in_order [of "[]" "dungeon AND 0x00FFFFFF" maxLevel quest m rows]
  by (simp add: GetRandomDungeonReward_def LoadRewards_def pick_reward_eq Let_def)

section \<open>Saved groups\<close>

text \<open>The row saved for a group in a dungeon brings back its state and its dungeon, by id,
  when it is loaded into an empty manager; the type in the upper byte of the dungeon is
  not saved, so the full entry comes back as the bare id.\<close>

theorem group_row_roundtrip:
  assumes "IsGroup g" and "GetState g m = LFG_STATE_DUNGEON \<or> GetState g m = LFG_STATE_FINISHED_DUNGEON"
    and "GetDungeon g True m \<noteq> 0" and "SaveToDB g db_guid m = Some (db, dungeon, state)"
  shows "let m' = LoadFromDB (Some (leader, dungeon, ucast state)) g (lm_init options) in
     GetState g m' = GetState g m \<and> GetDungeon g True m' = GetDungeon g True m \<and>
     GetDungeon g False m' = GetDungeon g True m \<and> GetLeader g m' = Global HG_Player leader"
proof -
  have "dungeon = GetDungeon g True m" "state = of_nat (state_code (GetState g m))" using assms(1,4) by (auto simp: SaveToDB_def)
  then show ?thesis
    using assms(1-3)
    by (auto simp: LoadFromDB_def Let_def SetDungeon_def GetDungeon_def GetState_def SetState_def SetLeader_def GetLeader_def
        on_group_def group_at_def om_at_def gd_GetDungeon_def gd_SetDungeon_def gd_SetLeader_def and.assoc)
qed

definition sample_group_guid :: guid where
  "sample_group_guid = 0x1F50000000000001"

lemma group_row_roundtrip_witness:
  "let m = (lm_init 1)\<lparr>ms_groups := [(sample_group_guid, gd_init\<lparr>gd_state := LFG_STATE_DUNGEON, gd_dungeon := 0x010000C8\<rparr>)]\<rparr>;
       m' = LoadFromDB (Some (7, 200, 5)) sample_group_guid (lm_init 1)
   in GetState sample_group_guid m' = LFG_STATE_DUNGEON \<and> GetDungeon sample_group_guid False m' = 200 \<and>
      GetDungeon sample_group_guid False m = 0x010000C8"
proof -
  let ?m = "(lm_init 1)\<lparr>ms_groups := [(sample_group_guid, gd_init\<lparr>gd_state := LFG_STATE_DUNGEON, gd_dungeon := 0x010000C8\<rparr>)]\<rparr>"
  have m: "IsGroup sample_group_guid" "GetState sample_group_guid ?m = LFG_STATE_DUNGEON" "GetDungeon sample_group_guid True ?m = 200"
    "GetDungeon sample_group_guid False ?m = 0x010000C8" "SaveToDB sample_group_guid 3 ?m = Some (3, 200, 5)"
    by code_simp+
  then show ?thesis
    using group_row_roundtrip [of sample_group_guid ?m 3 3 200 5 7 1] by (simp add: Let_def)
qed

end
