(* ===== verification/LfgOutcomes.thy ===== *)
theory LfgOutcomes
  imports LfgMgr
begin

text \<open>
  What the operations of \<^verbatim>\<open>LFGMgr.cpp\<close> achieve: the outcome of a declined and of an accepted
  proposal, of a role check and of a vote to kick.
\<close>

section \<open>Lemmas: teams and players of a group\<close>

lemma SetState_identity [simp]:
  "pd_team (pd_SetState s d) = pd_team d" "pd_group (pd_SetState s d) = pd_group d"
  "gd_players (gd_SetState s d') = gd_players d'" "gd_leader (gd_SetState s d') = gd_leader d'"
  by (cases s; simp)+

lemma RestoreState_identity [simp]:
  "pd_team (pd_RestoreState d) = pd_team d" "pd_group (pd_RestoreState d) = pd_group d"
  "gd_players (gd_RestoreState d') = gd_players d'" "gd_leader (gd_RestoreState d') = gd_leader d'"
  by (simp_all add: pd_RestoreState_def gd_RestoreState_def Let_def)

lemma GetTeam_frames [simp]:
  "GetTeam h (SetState g s m) = GetTeam h m" "GetTeam h (RestoreState g m) = GetTeam h m"
  "GetTeam h (SetRoles g r m) = GetTeam h m" "GetTeam h (send w g x m) = GetTeam h m"
  "GetTeam h (on_queue k f m) = GetTeam h m" "GetTeam h (m\<lparr>ms_proposals := ps\<rparr>) = GetTeam h m"
  "GetTeam h (m\<lparr>lm_roleChecks := rs\<rparr>) = GetTeam h m"
  by (simp_all add: GetTeam_def SetState_def RestoreState_def SetRoles_def pd_SetRoles_def)

lemma GetPlayers_frames [simp]:
  "GetPlayers h (SetState g s m) = GetPlayers h m" "GetPlayers h (RestoreState g m) = GetPlayers h m"
  "GetPlayers h (SetRoles g r m) = GetPlayers h m" "GetPlayers h (send w g x m) = GetPlayers h m"
  "GetPlayers h (on_queue k f m) = GetPlayers h m" "GetPlayers h (m\<lparr>ms_proposals := ps\<rparr>) = GetPlayers h m"
  "GetPlayers h (m\<lparr>lm_roleChecks := rs\<rparr>) = GetPlayers h m"
  by (simp_all add: GetPlayers_def SetState_def RestoreState_def SetRoles_def)

lemma queue_id_frames [simp]:
  "queue_id h (SetState g s m) = queue_id h m" "queue_id h (RestoreState g m) = queue_id h m"
  "queue_id h (SetRoles g r m) = queue_id h m" "queue_id h (send w g x m) = queue_id h m"
  "queue_id h (on_queue k f m) = queue_id h m" "queue_id h (m\<lparr>ms_proposals := ps\<rparr>) = queue_id h m"
  "queue_id h (m\<lparr>lm_roleChecks := rs\<rparr>) = queue_id h m"
  by (simp_all add: queue_id_def Let_def)

section \<open>Declined proposals\<close>

lemma to_remove_set: "set (to_remove players) = entry_guid ` {pd \<in> set players. pp_accept (snd pd) = LFG_ANSWER_DENY}"
proof -
  let ?step = "\<lambda>pd removed. if pp_accept (snd pd) = LFG_ANSWER_DENY then os_insert (entry_guid pd) removed else removed"
  have "set (fold ?step players acc) = set acc \<union> entry_guid ` {pd \<in> set players. pp_accept (snd pd) = LFG_ANSWER_DENY}" for acc
  proof (induction players arbitrary: acc)
    case (Cons pd players)
    have "{pd' \<in> set (pd # players). pp_accept (snd pd') = LFG_ANSWER_DENY} =
        (if pp_accept (snd pd) = LFG_ANSWER_DENY then {pd} else {}) \<union> {pd \<in> set players. pp_accept (snd pd) = LFG_ANSWER_DENY}"
      by auto
    then show ?case using Cons.IH by auto
  qed simp
  then show ?thesis by (simp add: to_remove_def)
qed

lemma remove_member_fields [simp]:
  "lm_queues (remove_member w type p removed pd m) = lm_queues m"
  "ms_proposals (remove_member w type p removed pd m) = ms_proposals m"
  "queue_at k (remove_member w type p removed pd m) = queue_at k m"
  by (simp_all add: remove_member_def Let_def)

lemma remove_members_fields [simp]:
  "ms_proposals (fold (remove_member w type p removed) players m) = ms_proposals m"
  "queue_at k (fold (remove_member w type p removed) players m) = queue_at k m"
  by (induction players arbitrary: m) simp_all

lemma GetState_remove_member:
  "GetState h (remove_member w type p removed pd m) =
     (if h = fst pd \<or> h = entry_guid pd
      then (if entry_guid pd \<in> set removed then GetOldState h m else LFG_STATE_QUEUED) else GetState h m)"
proof -
  have "entry_guid pd \<noteq> fst pd \<Longrightarrow> pp_group (snd pd) = entry_guid pd"
    by (simp add: entry_guid_def split: if_splits)
  then show ?thesis
    by (auto simp: remove_member_def Let_def states.current_put states.current_undo states.kept_undo)
qed

lemma GetOldState_remove_member [simp]: "GetOldState h (remove_member w type p removed pd m) = GetOldState h m"
  by (simp add: remove_member_def Let_def states.kept_put states.kept_undo)

text \<open>Players and groups are different kinds of guids.\<close>

definition guids_ok :: "(guid, proposal_player) stdmap \<Rightarrow> bool" where
  "guids_ok players \<longleftrightarrow> (\<forall>(g, d)\<in>set players. \<not> IsGroup g \<and> (pp_group d = 0 \<or> IsGroup (pp_group d)))"

lemma GetState_remove_members:
  assumes "guids_ok players" and "distinct (map fst players)" and "pd \<in> set players" and "h = fst pd \<or> h = entry_guid pd"
  shows "GetState h (fold (remove_member w type p removed) players m) =
     (if entry_guid pd \<in> set removed then GetOldState h m else LFG_STATE_QUEUED)"
proof -
  let ?touch = "\<lambda>pd. h = fst pd \<or> h = entry_guid pd"
  have keep: "GetOldState h (fold (remove_member w type p removed) ps m) = GetOldState h m" for ps m
    by (induction ps arbitrary: m) simp_all
  have same: "entry_guid pd' = entry_guid pd" if "pd' \<in> set players" "?touch pd'" for pd'
  proof -
    obtain g d g' d' where pd: "pd = (g, d)" "pd' = (g', d')" by (metis surj_pair)
    have "g = g' \<Longrightarrow> d = d'" using assms(2,3) that(1) pd by (metis eq_key_imp_eq_value)
    moreover have "\<not> IsGroup g \<and> (pp_group d = 0 \<or> IsGroup (pp_group d))" "\<not> IsGroup g' \<and> (pp_group d' = 0 \<or> IsGroup (pp_group d'))"
      using assms(1,3) that(1) pd by (auto simp: guids_ok_def)
    moreover have "h = g \<or> h = entry_guid (g, d)" "h = g' \<or> h = entry_guid (g', d')" using assms(4) that(2) pd by simp_all
    ultimately show ?thesis unfolding pd entry_guid_def fst_conv snd_conv by (auto split: if_splits)
  qed
  have "GetState h (fold (remove_member w type p removed) ps m) =
      (if \<exists>pd'\<in>set ps. ?touch pd' then (if entry_guid pd \<in> set removed then GetOldState h m else LFG_STATE_QUEUED) else GetState h m)"
    if "set ps \<subseteq> set players" for ps
    using that
  proof (induction ps arbitrary: m)
    case (Cons pd' ps)
    let ?m = "remove_member w type p removed pd' m"
    have IH: "GetState h (fold (remove_member w type p removed) ps ?m) =
        (if \<exists>pd'\<in>set ps. ?touch pd' then (if entry_guid pd \<in> set removed then GetOldState h ?m else LFG_STATE_QUEUED) else GetState h ?m)"
      using Cons.prems by (intro Cons.IH) simp
    show ?case
    proof (cases "?touch pd'")
      case True
      then have "entry_guid pd' = entry_guid pd" using Cons.prems same by simp
      then show ?thesis using IH True by (simp add: GetState_remove_member)
    next
      case False
      then show ?thesis using IH by (simp add: GetState_remove_member)
    qed
  qed simp
  from this [of players] show ?thesis using assms(3,4) by auto
qed

text \<open>The queue of a team after the denied entries left and the others came back.\<close>

lemma requeue:
  assumes "q' = fold AddToQueue gs (fold RemoveFromQueue removed q)" and "\<forall>g\<in>set gs. g \<notin> set removed"
  shows "\<forall>g\<in>set removed. gone g q'"
    and "\<forall>g\<in>set gs. om_find (q_data q) g \<noteq> None \<longrightarrow> g \<in> set (q_new q')"
proof -
  let ?q = "fold RemoveFromQueue removed q"
  note add = fold_AddToQueue [of gs ?q] and rem = fold_RemoveFromQueue
  show "\<forall>g\<in>set removed. gone g q'"
  proof
    fix g assume g: "g \<in> set removed"
    then have "gone g ?q" by (simp add: rem(1))
    then show "gone g q'" using add assms g by (auto simp: gone_def)
  qed
  show "\<forall>g\<in>set gs. om_find (q_data q) g \<noteq> None \<longrightarrow> g \<in> set (q_new q')"
    using add assms rem(2) [of removed q] by auto
qed

lemma deny_pending_keys [simp]: "map fst (deny_pending type players) = map fst players"
  by (simp add: deny_pending_def comp_def case_prod_unfold)

lemma deny_pending_group: "guids_ok (deny_pending type players) = guids_ok players"
proof -
  have "pp_group (if c then d\<lparr>pp_accept := x\<rparr> else d) = pp_group d" for c x and d :: proposal_player by simp
  then show ?thesis by (simp add: guids_ok_def deny_pending_def case_prod_unfold)
qed

lemma queue_id_remove_members [simp]:
  "queue_id h (fold (remove_member w type p removed) players m) = queue_id h m"
proof -
  have "queue_id h (remove_member w type p removed pd m) = queue_id h m" for pd m
    by (simp add: remove_member_def Let_def)
  then show ?thesis by (induction players arbitrary: m) simp_all
qed

text \<open>Removal of a proposal, all at once; the queue is that of its first player.\<close>

lemma RemoveProposal_result:
  fixes type :: LfgUpdateType
  assumes p: "om_find (ms_proposals m) i = Some p" and ok: "guids_ok (pr_players p)" "om_ok (pr_players p)" "om_ok (ms_proposals m)"
  defines "players \<equiv> deny_pending type (pr_players p)"
  shows "let m' = RemoveProposal w i type m; removed = to_remove players in
     om_find (ms_proposals m') i = None \<and>
     (\<forall>pd\<in>set players. \<forall>h\<in>{fst pd, entry_guid pd}.
        GetState h m' = (if entry_guid pd \<in> set removed then GetOldState h m else LFG_STATE_QUEUED)) \<and>
     (\<forall>g\<in>set removed. gone g (queue_at (queue_id (fst (hd players)) m) m')) \<and>
     (\<forall>g\<in>set (pr_queues p). g \<notin> set removed \<longrightarrow> om_find (q_data (queue_at (queue_id (fst (hd players)) m) m)) g \<noteq> None \<longrightarrow>
        g \<in> set (q_new (queue_at (queue_id (fst (hd players)) m) m')))"
proof -
  define removed where "removed = to_remove players"
  define p' where "p' = p\<lparr>pr_state := LFG_PROPOSAL_FAILED, pr_players := players\<rparr>"
  define m1 where "m1 = fold (remove_member w type p' removed) players m"
  define k where "k = queue_id (fst (hd players)) m"
  define gs where "gs = filter (\<lambda>g. g \<notin> set removed) (pr_queues p)"
  define m3 where "m3 = on_queue k (fold AddToQueue gs) (on_queue k (fold RemoveFromQueue removed) m1)"
  define m' where "m' = m3\<lparr>ms_proposals := om_erase i (ms_proposals m3)\<rparr>"
  have "queue_id (fst (hd players)) m1 = k" by (simp add: k_def m1_def)
  then have m': "RemoveProposal w i type m = m'"
    by (simp add: RemoveProposal_def p Let_def m'_def m3_def m1_def p'_def removed_def gs_def players_def)
  have "distinct (map fst players)" using ok(2) by (simp add: players_def om_ok_distinct)
  moreover have "guids_ok players" using ok(1) by (simp add: players_def deny_pending_group)
  ultimately have "GetState h m1 = (if entry_guid pd \<in> set removed then GetOldState h m else LFG_STATE_QUEUED)"
    if "pd \<in> set players" "h \<in> {fst pd, entry_guid pd}" for pd h
    using that GetState_remove_members [of players pd h w type p' removed m] by (simp add: m1_def)
  moreover have "GetState h m' = GetState h m1" for h
    using state_cong [of m' m1 h] by (simp add: m'_def m3_def)
  ultimately have states: "\<forall>pd\<in>set players. \<forall>h\<in>{fst pd, entry_guid pd}.
        GetState h m' = (if entry_guid pd \<in> set removed then GetOldState h m else LFG_STATE_QUEUED)" by simp
  have q: "queue_at k m' = fold AddToQueue gs (fold RemoveFromQueue removed (queue_at k m))"
    by (simp add: m'_def m3_def m1_def)
  have kept: "\<forall>g\<in>set gs. g \<notin> set removed" by (simp add: gs_def)
  note queue = requeue [OF q kept]
  have "\<forall>g\<in>set (pr_queues p). g \<notin> set removed \<longrightarrow> om_find (q_data (queue_at k m)) g \<noteq> None \<longrightarrow> g \<in> set (q_new (queue_at k m'))"
    using queue(2) by (simp add: gs_def)
  moreover have "om_find (ms_proposals m') i = None" by (simp add: m'_def)
  ultimately show ?thesis
    unfolding Let_def m' removed_def [symmetric] k_def [symmetric] using states queue(1) by blast
qed

section \<open>Accepted proposals\<close>

lemma accept_member_state:
  "GetState h (snd (accept_member w k su p pd acc)) = (if h = fst pd then LFG_STATE_DUNGEON else GetState h (snd acc))"
  by (simp add: accept_member_def Let_def states.current_put split: prod.splits)

lemma accept_members_state:
  "GetState h (snd (fold (accept_member w k su p) players acc)) =
     (if h \<in> fst ` set players then LFG_STATE_DUNGEON else GetState h (snd acc))"
  by (induction players arbitrary: acc) (auto simp: accept_member_state)

section \<open>Votes\<close>

definition agreed :: "(guid, LfgAnswer) stdmap \<Rightarrow> nat" where
  "agreed votes = length (filter (\<lambda>(p, v). v = LFG_ANSWER_AGREE) votes)"

definition denied :: "(guid, LfgAnswer) stdmap \<Rightarrow> nat" where
  "denied votes = length (filter (\<lambda>(p, v). v = LFG_ANSWER_DENY) votes)"

lemma vote_counts_fold:
  "fold (\<lambda>(p, v) (votesNum, agreeNum).
       if v \<noteq> LFG_ANSWER_PENDING then (votesNum + 1, if v = LFG_ANSWER_AGREE then agreeNum + 1 else agreeNum)
       else (votesNum, agreeNum)) votes (a :: uint8, b :: uint8) = (a + of_nat (agreed votes + denied votes), b + of_nat (agreed votes))"
proof (induction votes arbitrary: a b)
  case (Cons pv votes)
  obtain p v where pv: "pv = (p, v)" by fastforce
  show ?case using Cons.IH by (cases v) (simp_all add: pv agreed_def denied_def add.assoc)
qed (simp add: agreed_def denied_def)

lemma vote_counts_exact: "vote_counts votes = (of_nat (agreed votes + denied votes), of_nat (agreed votes))"
  unfolding vote_counts_def vote_counts_fold by simp

lemma votes_bounded: "agreed votes + denied votes \<le> length votes"
  unfolding agreed_def denied_def
proof (induction votes)
  case (Cons pv votes)
  then show ?case by (cases "snd pv") (auto simp: case_prod_unfold)
qed simp

section \<open>Role checks\<close>

lemma SetRoles_fields [simp]:
  "lm_queues (SetRoles g r m) = lm_queues m" "lm_roleChecks (SetRoles g r m) = lm_roleChecks m" "queue_at k (SetRoles g r m) = queue_at k m"
  by (simp_all add: SetRoles_def)

lemma role_check_member_queues [simp]:
  "lm_queues (role_check_member w s g r rc ds pr m) = lm_queues m"
  "lm_roleChecks (role_check_member w s g r rc ds pr m) = lm_roleChecks m"
  "queue_at k (role_check_member w s g r rc ds pr m) = queue_at k m"
  "queue_id h (role_check_member w s g r rc ds pr m) = queue_id h m"
  by (cases "rc_state rc"; simp add: role_check_member_def Let_def case_prod_unfold)+

lemma role_check_members_queues [simp]:
  "lm_roleChecks (fold (role_check_member w s g r rc ds) prs m) = lm_roleChecks m"
  "queue_at k (fold (role_check_member w s g r rc ds) prs m) = queue_at k m"
  "queue_id h (fold (role_check_member w s g r rc ds) prs m) = queue_id h m"
  by (induction prs arbitrary: m) simp_all

lemma GetOldState_role_check_member [simp]:
  "GetOldState h (role_check_member w s g r rc ds pr m) = GetOldState h m"
  by (simp add: role_check_member_def Let_def states.kept_put states.kept_undo split: LfgRoleCheckState.split prod.split)

lemma GetState_role_check_member:
  "GetState h (role_check_member w s g r rc ds pr m) =
     (if h \<noteq> fst pr \<or> rc_state rc = LFG_ROLECHECK_INITIALITING then GetState h m
      else if rc_state rc = LFG_ROLECHECK_FINISHED then LFG_STATE_QUEUED else GetOldState h m)"
  by (cases "rc_state rc")
    (simp_all add: role_check_member_def Let_def states.current_put states.current_undo case_prod_unfold)

lemma GetState_role_check_members:
  "GetState h (fold (role_check_member w s g r rc ds) prs m) =
     (if h \<notin> fst ` set prs \<or> rc_state rc = LFG_ROLECHECK_INITIALITING then GetState h m
      else if rc_state rc = LFG_ROLECHECK_FINISHED then LFG_STATE_QUEUED else GetOldState h m)"
  by (induction prs arbitrary: m) (auto simp: GetState_role_check_member)

lemma GetOldState_role_check_members [simp]:
  "GetOldState h (fold (role_check_member w s g r rc ds) prs m) = GetOldState h m"
  by (induction prs arbitrary: m) simp_all

section \<open>Properties\<close>

text \<open>C24: When a player declines, the proposal is gone; everybody who declined, and the whole
  group he queued with, falls back to the last stable state and leaves the queue
  completely; every other player and group is queued again, and their entries are new
  entries of the queue.\<close>

theorem UpdateProposal_declined:
  assumes "om_find (ms_proposals m) i = Some p" and "om_find (pr_players p) g = Some d"
    and "guids_ok (pr_players p)" and "om_ok (pr_players p)" and "om_ok (ms_proposals m)"
  shows "let players = om_put g (d\<lparr>pp_accept := LFG_ANSWER_DENY\<rparr>) (pr_players p);
             removed = entry_guid ` {pd \<in> set players. pp_accept (snd pd) = LFG_ANSWER_DENY};
             k = queue_id (fst (hd players)) m
         in \<exists>m'. UpdateProposal w i g False m = Some m' \<and> om_find (ms_proposals m') i = None \<and>
           (\<forall>pd\<in>set players. \<forall>h\<in>{fst pd, entry_guid pd}.
              GetState h m' = (if entry_guid pd \<in> removed then GetOldState h m else LFG_STATE_QUEUED)) \<and>
           (\<forall>e\<in>removed. gone e (queue_at k m')) \<and>
           (\<forall>e\<in>set (pr_queues p). e \<notin> removed \<longrightarrow> om_find (q_data (queue_at k m)) e \<noteq> None \<longrightarrow> e \<in> set (q_new (queue_at k m')))"
proof -
  define players where "players = om_put g (d\<lparr>pp_accept := LFG_ANSWER_DENY\<rparr>) (pr_players p)"
  define p1 where "p1 = p\<lparr>pr_players := players\<rparr>"
  define m1 where "m1 = m\<lparr>ms_proposals := om_put i p1 (ms_proposals m)\<rparr>"
  have step: "UpdateProposal w i g False m = Some (RemoveProposal w i LFG_UPDATETYPE_PROPOSAL_DECLINED m1)"
    using assms(1,2) by (simp add: UpdateProposal_def answer_of_def Let_def m1_def p1_def players_def)
  have "\<not> IsGroup g \<and> (pp_group d = 0 \<or> IsGroup (pp_group d))"
    using assms(3) om_find_mem [OF assms(2)] by (auto simp: guids_ok_def)
  moreover have "(h, e) \<in> set players \<Longrightarrow> (h, e) = (g, d\<lparr>pp_accept := LFG_ANSWER_DENY\<rparr>) \<or> (h, e) \<in> set (pr_players p)" for h e
    using om_find_iff_mem [of players h e] om_find_iff_mem [of "pr_players p" h e] assms(4)
    by (auto simp: players_def split: if_splits)
  ultimately have "guids_ok players" using assms(3) unfolding guids_ok_def by fastforce
  moreover have "om_ok players" using assms(4) by (simp add: players_def)
  ultimately have ok: "om_find (ms_proposals m1) i = Some p1" "guids_ok (pr_players p1)" "om_ok (pr_players p1)" "om_ok (ms_proposals m1)"
    using assms(5) by (simp_all add: m1_def p1_def)
  have same: "deny_pending LFG_UPDATETYPE_PROPOSAL_DECLINED (pr_players p1) = players"
    by (simp add: deny_pending_def p1_def)
  have frame: "GetOldState h m1 = GetOldState h m" "queue_at k m1 = queue_at k m" "queue_id h m1 = queue_id h m" for h k
    by (simp_all add: m1_def)
  from RemoveProposal_result [OF ok, where type = LFG_UPDATETYPE_PROPOSAL_DECLINED and w = w]
  show ?thesis unfolding players_def [symmetric] step Let_def same to_remove_set frame
    by (simp add: p1_def)
qed

text \<open>C32: When the last player agrees, everybody of the proposal is in the dungeon state and all its
  entries have left the queue before the group is formed, and then the proposal is
  deleted.  While an answer is missing only the answer is recorded.\<close>

theorem UpdateProposal_accepted:
  assumes "om_find (ms_proposals m) i = Some p" and "om_find (pr_players p) g = Some d"
  shows "let players = om_put g (d\<lparr>pp_accept := LFG_ANSWER_AGREE\<rparr>) (pr_players p);
             p1 = p\<lparr>pr_players := players\<rparr>
         in if list_all (\<lambda>(h, d). pp_accept d = LFG_ANSWER_AGREE) players
            then \<exists>m4. UpdateProposal w i g True m =
                   map_option (\<lambda>m5. m5\<lparr>ms_proposals := om_erase i (ms_proposals m5)\<rparr>)
                     (MakeNewGroup w (p1\<lparr>pr_state := LFG_PROPOSAL_SUCCESS\<rparr>) m4) \<and>
                 (\<forall>h\<in>om_keys players. GetState h m4 = LFG_STATE_DUNGEON) \<and>
                 (\<forall>e\<in>set (pr_queues p). gone e (queue_at (queue_id g m) m4))
            else \<exists>m1. UpdateProposal w i g True m = Some m1 \<and> om_find (ms_proposals m1) i = Some p1 \<and>
                 (\<forall>h. GetState h m1 = GetState h m) \<and> (\<forall>k. queue_at k m1 = queue_at k m)"
proof -
  define players where "players = om_put g (d\<lparr>pp_accept := LFG_ANSWER_AGREE\<rparr>) (pr_players p)"
  define p1 where "p1 = p\<lparr>pr_players := players\<rparr>"
  define m1 where "m1 = m\<lparr>ms_proposals := om_put i p1 (ms_proposals m)\<rparr>"
  have send: "ms_proposals (fold (\<lambda>(p, d). send w p (UpdateProposalMsg p1)) ps x) = ms_proposals x \<and>
      GetState h (fold (\<lambda>(p, d). send w p (UpdateProposalMsg p1)) ps x) = GetState h x \<and>
      queue_at k (fold (\<lambda>(p, d). send w p (UpdateProposalMsg p1)) ps x) = queue_at k x"
    for ps :: "(guid \<times> proposal_player) list" and x h k
    by (induction ps arbitrary: x) auto
  show ?thesis
  proof (cases "list_all (\<lambda>(h, d). pp_accept d = LFG_ANSWER_AGREE) players")
    case False
    then have "UpdateProposal w i g True m = Some (fold (\<lambda>(p, d). send w p (UpdateProposalMsg p1)) players m1)"
      using assms by (simp add: UpdateProposal_def answer_of_def Let_def m1_def p1_def players_def)
    moreover have "om_find (ms_proposals m1) i = Some p1" by (simp add: m1_def)
    ultimately show ?thesis unfolding players_def [symmetric] p1_def [symmetric] Let_def
      using False send by (simp add: m1_def)
  next
    case True
    let ?p2 = "p1\<lparr>pr_state := LFG_PROPOSAL_SUCCESS\<rparr>"
    define m2 where "m2 = m1\<lparr>ms_proposals := om_put i ?p2 (ms_proposals m1)\<rparr>"
    define k where "k = queue_id g m"
    have k: "queue_id g m2 = k" by (simp add: k_def m2_def m1_def)
    define m3 where "m3 = snd (fold (accept_member w k (pr_state p1 \<noteq> LFG_PROPOSAL_SUCCESS) ?p2) players (LFG_UPDATETYPE_GROUP_FOUND, m2))"
    define m4 where "m4 = on_queue k (fold RemoveFromQueue (pr_queues p)) m3"
    have "UpdateProposal w i g True m =
        map_option (\<lambda>m5. m5\<lparr>ms_proposals := om_erase i (ms_proposals m5)\<rparr>) (MakeNewGroup w ?p2 m4)"
      using assms True k by (simp add: UpdateProposal_def answer_of_def Let_def m4_def m3_def m2_def m1_def p1_def players_def)
    moreover have "\<forall>h\<in>om_keys players. GetState h m4 = LFG_STATE_DUNGEON"
      by (simp add: m4_def m3_def accept_members_state om_keys_def)
    moreover have "\<forall>e\<in>set (pr_queues p). gone e (queue_at k m4)"
      by (simp add: m4_def fold_RemoveFromQueue)
    ultimately show ?thesis unfolding players_def [symmetric] p1_def [symmetric] Let_def k_def using True by auto
  qed
qed

text \<open>C40: A vote to kick is decided by the first three equal answers.  A second answer of a player
  changes nothing; the answer of a player who has no entry in the vote, whatever it is, is
  recorded as a denial and decides nothing; below three of either kind only the answer is recorded; three
  denials end the vote with the kicks unchanged; three agreements kick the
  victim and cost a kick; and a decided vote is deleted.\<close>

theorem UpdateBoot_outcome:
  assumes "GetGroup g m = gguid" and "gguid \<noteq> 0" and "om_find (lm_boots m) gguid = Some b"
    and "length (bt_votes b) < 255"
  shows "let votes = om_put g (answer_of accept) (bt_votes b); m' = UpdateBoot w g accept m in
     if om_find (bt_votes b) g = None
     then m' = m\<lparr>lm_boots := om_put gguid (b\<lparr>bt_votes := om_put g LFG_ANSWER_DENY (bt_votes b)\<rparr>) (lm_boots m)\<rparr>
     else if om_find (bt_votes b) g \<noteq> Some LFG_ANSWER_PENDING then m' = m
     else if agreed votes < 3 \<and> denied votes < 3
     then m' = m\<lparr>lm_boots := om_put gguid (b\<lparr>bt_votes := votes\<rparr>) (lm_boots m)\<rparr>
     else om_find (lm_boots m') gguid = None \<and>
       (\<exists>m3. ms_players m3 = ms_players m \<and> IsVoteKickActive gguid m3 = False \<and> GetKicksLeft gguid m3 = GetKicksLeft gguid m \<and>
          (let m4 = (if agreed votes = 3 then DecreaseKicksLeft gguid (fold (group_hook w) (lw_hooks w [CallKick gguid (bt_victim b)]) m3) else m3)
           in m' = m4\<lparr>lm_boots := om_erase gguid (lm_boots m4)\<rparr>))"
proof -
  define votes where "votes = om_put g (answer_of accept) (bt_votes b)"
  have "length votes < 256" using assms(4) om_put_length [of g "answer_of accept" "bt_votes b"] by (simp add: votes_def)
  then have small: "agreed votes + denied votes < 256" using votes_bounded [of votes] by simp
  have counts: "vote_counts votes = (of_nat (agreed votes + denied votes), of_nat (agreed votes))"
    by (rule vote_counts_exact)
  have nat: "unat (of_nat (agreed votes) + of_nat (denied votes) :: uint8) = agreed votes + denied votes"
    "unat (of_nat (agreed votes) :: uint8) = agreed votes"
    using small by (simp_all add: unat_of_nat flip: of_nat_add)
  have open_vote: "UpdateBoot w g accept m =
      (if agreed votes < 3 \<and> denied votes < 3 then m\<lparr>lm_boots := om_put gguid (b\<lparr>bt_votes := votes\<rparr>) (lm_boots m)\<rparr>
       else conclude_boot w gguid (b\<lparr>bt_votes := votes\<rparr>) (of_nat (agreed votes))
              (m\<lparr>lm_boots := om_put gguid (b\<lparr>bt_votes := votes\<rparr>) (lm_boots m)\<rparr>))"
    if "om_find (bt_votes b) g = Some LFG_ANSWER_PENDING"
    using that assms(1-3) by (simp add: UpdateBoot_def Let_def votes_def [symmetric] counts nat)
  have sends: "ms_players (fold (\<lambda>(p, v). if p \<noteq> x then send w p y else id) vs n) = ms_players n \<and>
      group_at h (fold (\<lambda>(p, v). if p \<noteq> x then send w p y else id) vs n) = group_at h n"
    for vs :: "(guid \<times> LfgAnswer) list" and x y n h
    by (induction vs arbitrary: n) auto
  show ?thesis
  proof (cases "om_find (bt_votes b) g = Some LFG_ANSWER_PENDING")
    case False
    then show ?thesis using assms(1-3) by (simp add: UpdateBoot_def Let_def)
  next
    case True
    show ?thesis
    proof (cases "agreed votes < 3 \<and> denied votes < 3")
      case few: True
      then show ?thesis using open_vote [OF True] True by (simp add: Let_def votes_def [symmetric])
    next
      case decided: False
      let ?b2 = "b\<lparr>bt_votes := votes, bt_inProgress := False\<rparr>"
      define m2 where "m2 = fold (\<lambda>(p, v). if p \<noteq> bt_victim b then send w p (BootProposalUpdate ?b2) else id) votes
        (m\<lparr>lm_boots := om_put gguid ?b2 (om_put gguid (b\<lparr>bt_votes := votes\<rparr>) (lm_boots m))\<rparr>)"
      define m3 where "m3 = SetVoteKick gguid False m2"
      define m4 where "m4 = (if agreed votes = 3
        then DecreaseKicksLeft gguid (fold (group_hook w) (lw_hooks w [CallKick gguid (bt_victim b)]) m3) else m3)"
      have m': "UpdateBoot w g accept m = m4\<lparr>lm_boots := om_erase gguid (lm_boots m4)\<rparr>"
        unfolding open_vote [OF True] if_not_P [OF decided] by (simp add: conclude_boot_def Let_def m4_def m3_def m2_def nat)
      have "ms_players m3 = ms_players m" "IsVoteKickActive gguid m3 = False" "GetKicksLeft gguid m3 = GetKicksLeft gguid m"
        by (simp_all add: m3_def m2_def sends SetVoteKick_def IsVoteKickActive_def GetKicksLeft_def gd_SetVoteKick_def)
      then show ?thesis using True decided m' unfolding Let_def votes_def [symmetric]
        by (auto simp: m4_def intro!: exI [of _ m3])
    qed
  qed
qed

text \<open>C34: The outcome of a role check after an answer.  While answers are missing nobody's state
  changes.  When it succeeds the roles can form a group, all members and the
  group are queued, and the group is a new entry of its team's queue.  When it fails
  the members and the group fall back to their stable states and no queue changes.
  A decided role check is deleted.\<close>

theorem UpdateRoleCheck_outcome:
  assumes "gguid \<noteq> 0" and "om_find (lm_roleChecks m) gguid = Some rc0" and "rc_state rc0 = LFG_ROLECHECK_INITIALITING"
    and "om_ok (rc_roles rc0)" and "length (rc_roles rc0) < 255"
    and "gguid \<notin> om_keys (rc_roles (answer_role_check g roles rc0))"
  shows "let rc = answer_role_check g roles rc0; m' = UpdateRoleCheck w gguid g roles m;
             members = om_keys (rc_roles rc); q' = queue_at (queue_id gguid m) m'
         in if rc_state rc = LFG_ROLECHECK_INITIALITING
            then (\<forall>h. GetState h m' = GetState h m) \<and> om_find (lm_roleChecks m') gguid = Some rc
            else om_find (lm_roleChecks m') gguid = None \<and>
              (if rc_state rc = LFG_ROLECHECK_FINISHED
               then (\<exists>rs. refines_roles rs (rc_roles rc) \<and> valid_roles rs) \<and>
                 (\<forall>h\<in>insert gguid members. GetState h m' = LFG_STATE_QUEUED) \<and>
                 om_find (q_data q') gguid = Some (qd_make (env_now (lw_env w)) (rc_dungeons rc) (rc_roles rc)) \<and>
                 gguid \<in> set (q_new q')
               else (\<forall>h\<in>insert gguid members. GetState h m' = GetOldState h m) \<and> (\<forall>k. queue_at k m' = queue_at k m))"
proof -
  define rc where "rc = answer_role_check g roles rc0"
  define ds where "ds = (if rc_rDungeonId rc \<noteq> 0 then [rc_rDungeonId rc] else rc_dungeons rc)"
  define m1 where "m1 = m\<lparr>lm_roleChecks := om_put gguid rc (lm_roleChecks m)\<rparr>"
  define m2 where "m2 = fold (role_check_member w (rc_state rc0 \<noteq> LFG_ROLECHECK_DEFAULT \<and> g \<noteq> 0) g roles rc ds) (rc_roles rc) m1"
  define m3 where "m3 = SetState gguid LFG_STATE_QUEUED m2"
  have res: "UpdateRoleCheck w gguid g roles m =
      (if rc_state rc = LFG_ROLECHECK_FINISHED
       then (let m4 = on_queue (queue_id gguid m3) (AddQueueData gguid (env_now (lw_env w)) (rc_dungeons rc) (rc_roles rc)) m3
             in m4\<lparr>lm_roleChecks := om_erase gguid (lm_roleChecks m4)\<rparr>)
       else if rc_state rc \<noteq> LFG_ROLECHECK_INITIALITING
       then (RestoreState gguid m2)\<lparr>lm_roleChecks := om_erase gguid (lm_roleChecks (RestoreState gguid m2))\<rparr>
       else m2)"
    using assms(1,2) by (simp add: UpdateRoleCheck_def Let_def m3_def m2_def m1_def rc_def ds_def)
  have q: "queue_at k m2 = queue_at k m" "queue_id gguid m3 = queue_id gguid m" "lm_roleChecks m2 = om_put gguid rc (lm_roleChecks m)" for k
    by (simp_all add: m3_def m2_def m1_def)
  have old: "GetOldState h m2 = GetOldState h m" for h by (simp add: m2_def m1_def)
  have st: "GetState h m2 = (if h \<notin> om_keys (rc_roles rc) \<or> rc_state rc = LFG_ROLECHECK_INITIALITING then GetState h m
      else if rc_state rc = LFG_ROLECHECK_FINISHED then LFG_STATE_QUEUED else GetOldState h m)" for h
    by (simp add: m2_def m1_def GetState_role_check_members om_keys_def)
  have valid: "\<exists>rs. refines_roles rs (rc_roles rc) \<and> valid_roles rs" if "rc_state rc = LFG_ROLECHECK_FINISHED"
  proof -
    let ?sel = "om_put g roles (rc_roles rc0)"
    have fin: "rc_roles rc = ?sel \<and> fst (CheckGroupRoles ?sel)"
      using that assms(3) by (simp add: rc_def answer_role_check_def Let_def split: if_splits)
    have "length ?sel < 256" using assms(5) om_put_length [of g roles "rc_roles rc0"] by simp
    then have "roles_post ?sel (CheckGroupRoles ?sel)" using assms(4) by (intro CheckGroupRoles_post) simp_all
    then show ?thesis using fin by (auto simp: roles_post_def)
  qed
  define m' where "m' = UpdateRoleCheck w gguid g roles m"
  have failed: "(\<forall>h\<in>insert gguid (om_keys (rc_roles rc)). GetState h m' = GetOldState h m) \<and> (\<forall>k. queue_at k m' = queue_at k m)"
    if "rc_state rc \<noteq> LFG_ROLECHECK_FINISHED" "rc_state rc \<noteq> LFG_ROLECHECK_INITIALITING"
    using that q st old by (simp add: m'_def res states.current_undo)
  have queued: "GetState h m3 = LFG_STATE_QUEUED"
    if "rc_state rc = LFG_ROLECHECK_FINISHED" "h \<in> insert gguid (om_keys (rc_roles rc))" for h
    using that st [of h] by (auto simp: m3_def states.current_put)
  have finished: "(\<forall>h\<in>insert gguid (om_keys (rc_roles rc)). GetState h m' = LFG_STATE_QUEUED) \<and>
      om_find (q_data (queue_at (queue_id gguid m) m')) gguid = Some (qd_make (env_now (lw_env w)) (rc_dungeons rc) (rc_roles rc)) \<and>
      gguid \<in> set (q_new (queue_at (queue_id gguid m) m'))"
    if "rc_state rc = LFG_ROLECHECK_FINISHED"
    using that queued q by (simp add: m'_def res Let_def AddQueueData_def AddToQueue_def AddToNewQueue_def)
  have pending: "(\<forall>h. GetState h m' = GetState h m) \<and> om_find (lm_roleChecks m') gguid = Some rc"
    if "rc_state rc = LFG_ROLECHECK_INITIALITING"
    using that st q by (simp add: m'_def res)
  have decided: "om_find (lm_roleChecks m') gguid = None" if "rc_state rc \<noteq> LFG_ROLECHECK_INITIALITING"
    using that q by (simp add: m'_def res Let_def)
  show ?thesis unfolding Let_def rc_def [symmetric] m'_def [symmetric]
    using pending decided failed finished valid by (simp split: if_split)
qed

section \<open>Witnesses\<close>

text \<open>A group of four, guid \<open>20\<close>, whose members are asked for a proposal, a vote and their roles.\<close>

definition sample_world :: lfg_world where
  "sample_world = \<lparr>lw_env = sample_env, lw_group = (\<lambda>calls g. None), lw_groupExists = (\<lambda>g. False),
     lw_created = (\<lambda>calls. 20), lw_hooks = (\<lambda>calls. []),
     lw_FindPlayer = (\<lambda>g. True), lw_inDungeon = (\<lambda>g. False), lw_twoSideGroups = False\<rparr>"

definition sample_proposal :: lfg_proposal where
  "sample_proposal = \<lparr>pr_id = 7, pr_dungeonId = 200, pr_state = LFG_PROPOSAL_INITIATING, pr_group = 0, pr_leader = 1,
     pr_cancelTime = 1040, pr_encounters = 0, pr_isNew = True, pr_queues = [1, 2], pr_showorder = [],
     pr_players = [(1, \<lparr>pp_role = 2, pp_accept = LFG_ANSWER_AGREE, pp_group = 0\<rparr>),
                   (2, \<lparr>pp_role = 4, pp_accept = LFG_ANSWER_PENDING, pp_group = 0\<rparr>)]\<rparr>"

definition sample_mgr :: lfg_mgr where
  "sample_mgr = (lm_init 3)\<lparr>
     ms_players := map (\<lambda>g. (g, pd_init\<lparr>pd_state := LFG_STATE_PROPOSAL, pd_group := 20, pd_dungeons := [200]\<rparr>)) [1, 2, 3, 4],
     ms_proposals := [(7, sample_proposal)],
     lm_queues := [(0, queue_init\<lparr>q_data := [(1, qd_make 800 [200] [(1, 2)]), (2, qd_make 800 [200] [(2, 4)])]\<rparr>)],
     lm_boots := [(20, \<lparr>bt_cancelTime = 1100, bt_inProgress = True,
        bt_votes = [(1, LFG_ANSWER_AGREE), (2, LFG_ANSWER_AGREE), (3, LFG_ANSWER_PENDING), (4, LFG_ANSWER_DENY)],
        bt_victim = 4, bt_reason = ''afk''\<rparr>)],
     lm_roleChecks := [(20, \<lparr>rc_cancelTime = 46000, rc_roles = [(1, 3), (2, 4), (3, 0)],
        rc_state = LFG_ROLECHECK_INITIALITING, rc_dungeons = [200], rc_rDungeonId = 0, rc_leader = 1\<rparr>)]\<rparr>"

abbreviation sample_players :: "LfgAnswer \<Rightarrow> (guid, proposal_player) stdmap" where
  "sample_players answer \<equiv> [(1, \<lparr>pp_role = 2, pp_accept = LFG_ANSWER_AGREE, pp_group = 0\<rparr>),
     (2, \<lparr>pp_role = 4, pp_accept = answer, pp_group = 0\<rparr>)]"

lemma sample_proposal_found:
  "om_find (ms_proposals sample_mgr) 7 = Some sample_proposal"
  "om_find (pr_players sample_proposal) 2 = Some \<lparr>pp_role = 4, pp_accept = LFG_ANSWER_PENDING, pp_group = 0\<rparr>"
  "guids_ok (pr_players sample_proposal)" "om_ok (pr_players sample_proposal)" "om_ok (ms_proposals sample_mgr)"
  "pr_queues sample_proposal = [1, 2]"
  by code_simp+

lemma sample_answered:
  "om_put 2 (\<lparr>pp_role = 4, pp_accept = LFG_ANSWER_PENDING, pp_group = 0\<rparr>\<lparr>pp_accept := answer\<rparr>) (pr_players sample_proposal) =
     sample_players answer"
  by (simp add: sample_proposal_def)

lemma UpdateProposal_declined_witness:
  "\<exists>m'. UpdateProposal sample_world 7 2 False sample_mgr = Some m' \<and> om_find (ms_proposals m') 7 = None \<and>
     GetState 1 m' = LFG_STATE_QUEUED \<and> GetState 2 m' = LFG_STATE_NONE \<and>
     gone 2 (queue_at 0 m') \<and> 1 \<in> set (q_new (queue_at 0 m'))"
proof -
  have queue: "queue_id 1 sample_mgr = 0" "om_find (q_data (queue_at 0 sample_mgr)) 1 \<noteq> None" "GetOldState 2 sample_mgr = LFG_STATE_NONE"
    by code_simp+
  have "{pd \<in> set (sample_players LFG_ANSWER_DENY). pp_accept (snd pd) = LFG_ANSWER_DENY} =
      {(2, \<lparr>pp_role = 4, pp_accept = LFG_ANSWER_DENY, pp_group = 0\<rparr>)}" by auto
  then have removed: "entry_guid ` {pd \<in> set (sample_players LFG_ANSWER_DENY). pp_accept (snd pd) = LFG_ANSWER_DENY} = {2}"
    by (simp only:) (simp add: entry_guid_def)
  from UpdateProposal_declined [OF sample_proposal_found(1-5), where w = sample_world]
  show ?thesis unfolding sample_answered Let_def removed list.sel fst_conv queue(1) sample_proposal_found(6)
    using queue(2,3) by (elim exE) (auto simp: entry_guid_def)
qed

lemma UpdateProposal_accepted_witness:
  "\<exists>m4. UpdateProposal sample_world 7 2 True sample_mgr =
       map_option (\<lambda>m5. m5\<lparr>ms_proposals := om_erase 7 (ms_proposals m5)\<rparr>)
         (MakeNewGroup sample_world (sample_proposal\<lparr>pr_players := sample_players LFG_ANSWER_AGREE, pr_state := LFG_PROPOSAL_SUCCESS\<rparr>) m4) \<and>
     GetState 1 m4 = LFG_STATE_DUNGEON \<and> GetState 2 m4 = LFG_STATE_DUNGEON \<and>
     gone 1 (queue_at (queue_id 2 sample_mgr) m4) \<and> gone 2 (queue_at (queue_id 2 sample_mgr) m4)"
proof -
  have all: "list_all (\<lambda>(h, d). pp_accept d = LFG_ANSWER_AGREE) (sample_players LFG_ANSWER_AGREE)" by simp
  from UpdateProposal_accepted [OF sample_proposal_found(1,2), where w = sample_world]
  show ?thesis unfolding sample_answered Let_def if_P [OF all] sample_proposal_found(6)
    by (elim exE) (auto simp: om_keys_def)
qed

lemma UpdateBoot_outcome_witness:
  "\<exists>m3. ms_players m3 = ms_players sample_mgr \<and> GetKicksLeft 20 m3 = GetKicksLeft 20 sample_mgr \<and>
     UpdateBoot sample_world 3 True sample_mgr =
       (let m4 = DecreaseKicksLeft 20 (fold (group_hook sample_world) (lw_hooks sample_world [CallKick 20 4]) m3)
        in m4\<lparr>lm_boots := om_erase 20 (lm_boots m4)\<rparr>)"
proof -
  let ?b = "the (om_find (lm_boots sample_mgr) 20)"
  let ?votes = "om_put 3 (answer_of True) (bt_votes ?b)"
  have hyps: "GetGroup 3 sample_mgr = 20" "(20 :: guid) \<noteq> 0" "om_find (lm_boots sample_mgr) 20 = Some ?b" "length (bt_votes ?b) < 255"
    by (simp_all add: sample_mgr_def GetGroup_def player_at_def om_at_def)
  have vote: "om_find (bt_votes ?b) 3 = Some LFG_ANSWER_PENDING" "agreed ?votes = 3" "bt_victim ?b = 4"
    by (simp_all add: sample_mgr_def agreed_def answer_of_def om_at_def)
  show ?thesis
    using UpdateBoot_outcome [OF hyps, where accept = True and w = sample_world] by (auto simp: vote Let_def)
qed

lemma UpdateRoleCheck_outcome_witness:
  "om_find (lm_roleChecks (UpdateRoleCheck sample_world 20 3 8 sample_mgr)) 20 = None \<and>
     map (\<lambda>h. GetState h (UpdateRoleCheck sample_world 20 3 8 sample_mgr)) [1, 2, 3, 20] = replicate 4 LFG_STATE_QUEUED \<and>
     20 \<in> set (q_new (queue_at (queue_id 20 sample_mgr) (UpdateRoleCheck sample_world 20 3 8 sample_mgr)))"
proof -
  let ?rc = "the (om_find (lm_roleChecks sample_mgr) 20)"
  have hyps: "(20 :: guid) \<noteq> 0" "om_find (lm_roleChecks sample_mgr) 20 = Some ?rc" "rc_state ?rc = LFG_ROLECHECK_INITIALITING"
    "om_ok (rc_roles ?rc)" "length (rc_roles ?rc) < 255" "20 \<notin> om_keys (rc_roles (answer_role_check 3 8 ?rc))"
    by code_simp+
  have answered: "rc_state (answer_role_check 3 8 ?rc) = LFG_ROLECHECK_FINISHED" "om_keys (rc_roles (answer_role_check 3 8 ?rc)) = {1, 2, 3}"
    by code_simp+
  show ?thesis using UpdateRoleCheck_outcome [OF hyps, where w = sample_world] by (simp add: Let_def answered numeral_eq_Suc)
qed

end
