(* ===== verification/LfgJoin.thy ===== *)
theory LfgJoin
  imports LfgTables LfgOutcomes
begin

text \<open>
  Joining the dungeon finder, finishing a dungeon, and going in and out of it:
  \<^verbatim>\<open>JoinLfg\<close>, \<^verbatim>\<open>FinishDungeon\<close> and \<^verbatim>\<open>TeleportPlayer\<close> of \<^verbatim>\<open>LFGMgr.cpp\<close> and \<^verbatim>\<open>OnMapChanged\<close> of
  \<^verbatim>\<open>LFGScripts.cpp\<close>.
\<close>

section \<open>Joining\<close>

text \<open>The group of the player who joins; a member without a player object is \<open>None\<close>.\<close>

record join_group =
  jg_guid :: guid
  jg_isLFG :: bool
  jg_count :: nat
  jg_members :: "(guid \<times> join_player) option list"

abbreviation LFG_SPELL_DUNGEON_COOLDOWN :: uint32 where "LFG_SPELL_DUNGEON_COOLDOWN \<equiv> 71328"
abbreviation LFG_SPELL_DUNGEON_DESERTER :: uint32 where "LFG_SPELL_DUNGEON_DESERTER \<equiv> 71041"
abbreviation SPELL_FREEZE :: uint32 where "SPELL_FREEZE \<equiv> 9454"
abbreviation MAXGROUPSIZE :: nat where "MAXGROUPSIZE \<equiv> 5"

definition member_result :: "join_player \<Rightarrow> LfgJoinResult" where
  "member_result p =
     (let r = (if \<not> jp_permission p then LFG_JOIN_PARTY_NOT_MEET_REQS else LFG_JOIN_OK) in
      if jp_aura p LFG_SPELL_DUNGEON_DESERTER then LFG_JOIN_PARTY_DESERTER
      else if jp_aura p LFG_SPELL_DUNGEON_COOLDOWN then LFG_JOIN_PARTY_RANDOM_COOLDOWN
      else if jp_inBattleground p \<or> jp_inArena p \<or> jp_inQueue p then LFG_JOIN_USING_BG_SYSTEM
      else if jp_aura p SPELL_FREEZE then LFG_JOIN_PARTY_NOT_MEET_REQS
      else r)"

text \<open>The loop over the members stops at the first one who may not join.\<close>

fun check_members :: "(guid \<times> join_player) option list \<Rightarrow> LfgJoinResult \<times> uint8 \<times> guid list
    \<Rightarrow> LfgJoinResult \<times> uint8 \<times> guid list" where
  "check_members [] acc = acc"
| "check_members (x # xs) acc =
     (if fst acc \<noteq> LFG_JOIN_OK then acc
      else case x of
        None \<Rightarrow> check_members xs acc
      | Some (g, p) \<Rightarrow> check_members xs (member_result p, fst (snd acc) + 1, os_insert g (snd (snd acc))))"

definition check_joiner :: "guid \<Rightarrow> join_player \<Rightarrow> join_group option \<Rightarrow> uint32 list \<Rightarrow> LfgJoinResult \<times> guid list" where
  "check_joiner g p grp dungeons =
     (if \<not> jp_permission p then (LFG_JOIN_NOT_MEET_REQS, [])
      else if jp_inBattleground p \<or> jp_inArena p \<or> jp_inQueue p then (LFG_JOIN_USING_BG_SYSTEM, [])
      else if jp_aura p LFG_SPELL_DUNGEON_DESERTER then (LFG_JOIN_DESERTER, [])
      else if jp_aura p LFG_SPELL_DUNGEON_COOLDOWN then (LFG_JOIN_RANDOM_COOLDOWN, [])
      else if dungeons = [] then (LFG_JOIN_NOT_MEET_REQS, [])
      else if jp_aura p SPELL_FREEZE then (LFG_JOIN_NOT_MEET_REQS, [])
      else case grp of
        None \<Rightarrow> (LFG_JOIN_OK, [g])
      | Some gr \<Rightarrow>
          if MAXGROUPSIZE < jg_count gr then (LFG_JOIN_TOO_MUCH_MEMBERS, [])
          else (case check_members (jg_members gr) (LFG_JOIN_OK, 0, []) of
            (result, memberCount, players) \<Rightarrow>
              (if result = LFG_JOIN_OK \<and> unat memberCount \<noteq> jg_count gr then LFG_JOIN_DISCONNECTED else result, players)))"

text \<open>
  The types of the dungeons asked for: result, whether there is a dungeon and a raid,
  and the random dungeon.  The case of a random dungeon falls through to that of a
  dungeon.
\<close>

type_synonym types_state = "LfgJoinResult \<times> bool \<times> bool \<times> uint32"

definition check_type :: "uint32 list \<Rightarrow> lfg_mgr \<Rightarrow> uint32 \<Rightarrow> types_state \<Rightarrow> types_state" where
  "check_type dungeons m i st =
     (let (result, isDungeon, isRaid, rDungeonId) = st;
          plain = (\<lambda>result rDungeonId. (if isRaid then LFG_JOIN_MIXED_RAID_DUNGEON else result, True, isRaid, rDungeonId));
          type = GetDungeonType i m
      in if result \<noteq> LFG_JOIN_OK then st
         else if type = LFG_TYPE_RANDOM
         then (if 1 < length dungeons then plain LFG_JOIN_DUNGEON_INVALID rDungeonId else plain result (hd dungeons))
         else if type = LFG_TYPE_HEROIC \<or> type = LFG_TYPE_DUNGEON then plain result rDungeonId
         else if type = LFG_TYPE_RAID
         then (if isDungeon then LFG_JOIN_MIXED_RAID_DUNGEON else result, isDungeon, True, rDungeonId)
         else (LFG_JOIN_DUNGEON_INVALID, isDungeon, isRaid, rDungeonId))"

definition check_types :: "uint32 list \<Rightarrow> lfg_mgr \<Rightarrow> types_state" where
  "check_types dungeons m = fold (check_type dungeons m) dungeons (LFG_JOIN_OK, False, False, 0)"

text \<open>
  What comes of a request: the result, whether it is for raids, the random dungeon, the
  dungeons to queue for, and the locks to report.  \<open>None\<close> is a failed assertion.
\<close>

type_synonym join_check = "LfgJoinResult \<times> bool \<times> uint32 \<times> uint32 list \<times> lock_party_map"

definition check_join :: "'a join_world_scheme \<Rightarrow> guid \<Rightarrow> join_player \<Rightarrow> join_group option \<Rightarrow> bool \<Rightarrow> uint32 list
    \<Rightarrow> lfg_mgr \<Rightarrow> join_check option" where
  "check_join w g p grp isContinue dungeons m =
     (case check_joiner g p grp dungeons of
        (r0, players) \<Rightarrow>
          if r0 \<noteq> LFG_JOIN_OK then Some (r0, False, 0, dungeons, [])
          else (case check_types dungeons m of
            (r1, isDungeon, isRaid, rDungeonId) \<Rightarrow>
              if r1 \<noteq> LFG_JOIN_OK then Some (r1, isRaid, rDungeonId, dungeons, [])
              else map_option (\<lambda>(ds, lockMap).
                  (if ds = [] then (if grp \<noteq> None then LFG_JOIN_PARTY_NOT_MEET_REQS else LFG_JOIN_NOT_MEET_REQS) else LFG_JOIN_OK,
                   isRaid, rDungeonId, ds, lockMap))
                (GetCompatibleDungeons w (if rDungeonId \<noteq> 0 then GetDungeonsByRandom rDungeonId m else dungeons) players isContinue m)))"

text \<open>A packet to the player's own session.\<close>

definition tell :: "guid \<Rightarrow> lfg_message \<Rightarrow> lfg_mgr \<Rightarrow> lfg_mgr" where
  "tell g msg m = m\<lparr>lm_sent := lm_sent m @ [(g, msg)]\<rparr>"

definition rc_init :: lfg_role_check where
  "rc_init = \<lparr>rc_cancelTime = 0, rc_roles = [], rc_state = LFG_ROLECHECK_DEFAULT, rc_dungeons = [], rc_rDungeonId = 0, rc_leader = 0\<rparr>"

text \<open>One member is told and enters the role check without a role.\<close>

definition ask_member :: "guid \<Rightarrow> bool \<Rightarrow> uint32 list \<Rightarrow> string \<Rightarrow> guid \<Rightarrow> lfg_mgr \<Rightarrow> lfg_mgr" where
  "ask_member gguid isContinue dungeons comment pguid m =
     (let m1 = tell pguid (UpdateParty (update_with LFG_UPDATETYPE_JOIN_QUEUE dungeons comment)) m;
          m2 = SetState pguid LFG_STATE_ROLECHECK m1;
          m3 = (if \<not> isContinue then SetSelectedDungeons pguid dungeons m2 else m2);
          rc = om_at rc_init (lm_roleChecks m3) gguid
      in m3\<lparr>lm_roleChecks := om_put gguid (rc\<lparr>rc_roles := om_put pguid 0 (rc_roles rc)\<rparr>) (lm_roleChecks m3)\<rparr>)"

definition begin_role_check :: "'a join_world_scheme \<Rightarrow> guid \<Rightarrow> uint8 \<Rightarrow> join_group \<Rightarrow> bool \<Rightarrow> uint32 \<Rightarrow> uint32 list
    \<Rightarrow> string \<Rightarrow> lfg_mgr \<Rightarrow> lfg_mgr" where
  "begin_role_check w g roles gr isContinue rDungeonId dungeons comment m =
     (let gguid = jg_guid gr;
          rc = (om_at rc_init (lm_roleChecks m) gguid)\<lparr>rc_cancelTime := env_now (lw_env w) + LFG_TIME_ROLECHECK,
                 rc_state := LFG_ROLECHECK_INITIALITING, rc_leader := g, rc_dungeons := dungeons, rc_rDungeonId := rDungeonId\<rparr>;
          shown = (if rDungeonId \<noteq> 0 then [rDungeonId] else dungeons);
          m1 = SetState gguid LFG_STATE_ROLECHECK (m\<lparr>lm_roleChecks := om_put gguid rc (lm_roleChecks m)\<rparr>);
          m2 = fold (\<lambda>x. case x of None \<Rightarrow> id | Some (pguid, p) \<Rightarrow> ask_member gguid isContinue shown comment pguid) (jg_members gr) m1
      in UpdateRoleCheck (lfg_world.truncate w) gguid g roles m2)"

definition enqueue_player :: "'a join_world_scheme \<Rightarrow> guid \<Rightarrow> uint8 \<Rightarrow> bool \<Rightarrow> uint32 \<Rightarrow> uint32 list \<Rightarrow> string \<Rightarrow> lfg_mgr \<Rightarrow> lfg_mgr" where
  "enqueue_player w g roles isContinue rDungeonId dungeons comment m =
     (let m1 = on_queue (queue_id g m) (AddQueueData g (env_now (lw_env w)) dungeons [(g, roles)]) m;
          shown = (if \<not> isContinue \<and> rDungeonId \<noteq> 0 then [rDungeonId] else dungeons);
          m2 = (if \<not> isContinue then SetSelectedDungeons g shown m1 else m1);
          m3 = tell g (UpdatePlayer (update_with LFG_UPDATETYPE_JOIN_QUEUE shown comment))
                 (tell g (JoinResult LFG_JOIN_OK LFG_ROLECHECK_DEFAULT []) m2)
      in SetRoles g roles (SetState g LFG_STATE_QUEUED m3))"

text \<open>The guid that is queued, and whether its group goes on with a dungeon.\<close>

definition join_guid :: "guid \<Rightarrow> join_group option \<Rightarrow> guid" where
  "join_guid g grp = (case grp of None \<Rightarrow> g | Some gr \<Rightarrow> jg_guid gr)"

definition join_continues :: "guid \<Rightarrow> join_group option \<Rightarrow> lfg_mgr \<Rightarrow> bool" where
  "join_continues g grp m =
     (case grp of None \<Rightarrow> False | Some gr \<Rightarrow> jg_isLFG gr \<and> GetState (jg_guid gr) m \<noteq> LFG_STATE_FINISHED_DUNGEON)"

text \<open>Who is queued leaves the queue before the request is looked at.\<close>

definition leave_before_join :: "guid \<Rightarrow> lfg_mgr \<Rightarrow> lfg_mgr" where
  "leave_before_join gguid m =
     (if GetState gguid m = LFG_STATE_QUEUED then on_queue (queue_id gguid m) (RemoveFromQueue gguid) m else m)"

definition join_request :: "'a join_world_scheme \<Rightarrow> guid \<Rightarrow> join_player \<Rightarrow> join_group option \<Rightarrow> uint32 list \<Rightarrow> lfg_mgr
    \<Rightarrow> join_check option" where
  "join_request w g p grp dungeons m =
     (let isContinue = join_continues g grp m; gguid = join_guid g grp
      in check_join w g p grp isContinue (if isContinue then [GetDungeon gguid True m] else dungeons) (leave_before_join gguid m))"

text \<open>A player without session, and an empty request, are ignored.\<close>

definition JoinLfg :: "'a join_world_scheme \<Rightarrow> (guid \<times> join_player) option \<Rightarrow> join_group option \<Rightarrow> uint8 \<Rightarrow> uint32 list
    \<Rightarrow> string \<Rightarrow> lfg_mgr \<Rightarrow> lfg_mgr option" where
  "JoinLfg w player grp roles dungeons comment m =
     (case player of
        None \<Rightarrow> Some m
      | Some (g, p) \<Rightarrow>
          if dungeons = [] then Some m
          else let isContinue = join_continues g grp m; m1 = leave_before_join (join_guid g grp) m
               in map_option (\<lambda>(result, isRaid, rDungeonId, ds, lockMap).
                    if result \<noteq> LFG_JOIN_OK
                    then tell g (JoinResult result LFG_ROLECHECK_DEFAULT (if ds \<noteq> [] then [] else lockMap)) m1
                    else let m2 = SetComment g comment m1
                         in if isRaid then m2
                            else case grp of
                                Some gr \<Rightarrow> begin_role_check w g roles gr isContinue rDungeonId ds comment m2
                              | None \<Rightarrow> enqueue_player w g roles isContinue rDungeonId ds comment m2)
                  (join_request w g p grp dungeons m))"

section \<open>Finishing a dungeon\<close>

text \<open>
  The reward of one player of the group, once he is in the finished state: for a random
  or seasonal dungeon, in the world, on the map of the dungeon.
\<close>

definition give_reward :: "'a join_world_scheme \<Rightarrow> guid \<Rightarrow> uint32 \<Rightarrow> guid \<Rightarrow> uint32 \<Rightarrow> lfg_mgr \<Rightarrow> lfg_mgr" where
  "give_reward w gguid dungeonId g rDungeonId m =
     (case GetLFGDungeon rDungeonId m of
        None \<Rightarrow> m
      | Some dungeon \<Rightarrow>
          if dg_type dungeon \<noteq> LFG_TYPE_RANDOM \<and> \<not> dg_seasonal dungeon then m
          else case (if lw_FindPlayer w g then jw_player w g else None) of
            None \<Rightarrow> m
          | Some p \<Rightarrow>
              let mapId = (case GetLFGDungeon dungeonId m of None \<Rightarrow> 0 | Some d \<Rightarrow> ucast (dg_map d)) in
              if jp_mapId p \<noteq> mapId then m
              else let m1 = (if dg_difficulty dungeon = 1 then tell g UseLfdCriteria m else m) in
                (case GetRandomDungeonReward rDungeonId (jp_level p) m1 of
                   None \<Rightarrow> m1
                 | Some rew \<Rightarrow>
                     if \<not> jw_quest w (rw_firstQuest rew) then m1
                     else let done = \<not> jp_canReward p (rw_firstQuest rew);
                              quest = (if done then rw_otherQuest rew else rw_firstQuest rew)
                          in if done \<and> \<not> jw_quest w quest then m1
                             else tell g (PlayerReward (dungeon_entry dungeon) (GetDungeon gguid False m1) done quest)
                                    (tell g (RewardQuest quest) m1)))"

definition finish_player :: "'a join_world_scheme \<Rightarrow> guid \<Rightarrow> uint32 \<Rightarrow> guid \<Rightarrow> lfg_mgr \<Rightarrow> lfg_mgr" where
  "finish_player w gguid dungeonId g m =
     (if GetState g m = LFG_STATE_FINISHED_DUNGEON then m
      else let rDungeonId = (case GetSelectedDungeons g m of [] \<Rightarrow> 0 | i # _ \<Rightarrow> i)
           in give_reward w gguid dungeonId g rDungeonId (SetState g LFG_STATE_FINISHED_DUNGEON m))"

definition FinishDungeon :: "'a join_world_scheme \<Rightarrow> guid \<Rightarrow> uint32 \<Rightarrow> lfg_mgr \<Rightarrow> lfg_mgr" where
  "FinishDungeon w gguid dungeonId m =
     (if GetDungeon gguid True m \<noteq> dungeonId then m
      else if GetState gguid m = LFG_STATE_FINISHED_DUNGEON then m
      else let m1 = SetState gguid LFG_STATE_FINISHED_DUNGEON m
           in fold (finish_player w gguid dungeonId) (GetPlayers gguid m1) m1)"

section \<open>In and out of a dungeon\<close>

text \<open>The body of a player; \<open>bd_teleport\<close> is whether \<^verbatim>\<open>TeleportTo\<close> succeeds.\<close>

record player_body =
  bd_guid :: guid
  bd_mapId :: uint32
  bd_pos :: position
  bd_alive :: bool
  bd_falling :: bool
  bd_jumping :: bool
  bd_fatigue :: bool
  bd_vehicle :: bool
  bd_charm :: bool
  bd_freeze :: bool
  bd_inDungeon :: bool
  bd_inFlight :: bool
  bd_teleport :: "uint32 \<Rightarrow> position \<Rightarrow> bool"

text \<open>What happens to the player, in order.\<close>

datatype teleport_step = TeleportError uint8 | ToBGEntryPoint | SetEntryPoint | EndFlight | GoTo uint32 position

abbreviation LFG_TELEPORTERROR_OK :: uint8 where "LFG_TELEPORTERROR_OK \<equiv> 0"
abbreviation LFG_TELEPORTERROR_PLAYER_DEAD :: uint8 where "LFG_TELEPORTERROR_PLAYER_DEAD \<equiv> 1"
abbreviation LFG_TELEPORTERROR_FALLING :: uint8 where "LFG_TELEPORTERROR_FALLING \<equiv> 2"
abbreviation LFG_TELEPORTERROR_IN_VEHICLE :: uint8 where "LFG_TELEPORTERROR_IN_VEHICLE \<equiv> 3"
abbreviation LFG_TELEPORTERROR_FATIGUE :: uint8 where "LFG_TELEPORTERROR_FATIGUE \<equiv> 4"
abbreviation LFG_TELEPORTERROR_INVALID_LOCATION :: uint8 where "LFG_TELEPORTERROR_INVALID_LOCATION \<equiv> 6"
abbreviation LFG_TELEPORTERROR_CHARMING :: uint8 where "LFG_TELEPORTERROR_CHARMING \<equiv> 8"

text \<open>
  The loop over the members looks for one on the map of the dungeon as long as \<^verbatim>\<open>mapid\<close>
  is zero.
\<close>

fun find_inside :: "guid \<Rightarrow> lfg_dungeon \<Rightarrow> player_body option list \<Rightarrow> uint32 \<times> position \<Rightarrow> uint32 \<times> position" where
  "find_inside g d [] target = target"
| "find_inside g d (x # xs) target =
     (if fst target \<noteq> 0 then target
      else case x of
        None \<Rightarrow> find_inside g d xs target
      | Some b \<Rightarrow> if bd_guid b \<noteq> g \<and> bd_mapId b = ucast (dg_map d) then (bd_mapId b, bd_pos b) else find_inside g d xs target)"

definition TeleportPlayer :: "player_body \<Rightarrow> join_group option \<Rightarrow> player_body option list \<Rightarrow> bool \<Rightarrow> bool
    \<Rightarrow> lfg_mgr \<Rightarrow> teleport_step list" where
  "TeleportPlayer b grp others out fromOpcode m =
     (case (case grp of None \<Rightarrow> None
            | Some gr \<Rightarrow> if jg_isLFG gr then GetLFGDungeon (GetDungeon (jg_guid gr) True m) m else None) of
        None \<Rightarrow> [TeleportError LFG_TELEPORTERROR_INVALID_LOCATION]
      | Some d \<Rightarrow>
          if out then (if bd_mapId b = ucast (dg_map d) then [ToBGEntryPoint] else [])
          else if \<not> bd_alive b then [TeleportError LFG_TELEPORTERROR_PLAYER_DEAD]
          else if bd_falling b \<or> bd_jumping b then [TeleportError LFG_TELEPORTERROR_FALLING]
          else if bd_fatigue b then [TeleportError LFG_TELEPORTERROR_FATIGUE]
          else if bd_vehicle b then [TeleportError LFG_TELEPORTERROR_IN_VEHICLE]
          else if bd_charm b then [TeleportError LFG_TELEPORTERROR_CHARMING]
          else if bd_freeze b then [TeleportError LFG_TELEPORTERROR_INVALID_LOCATION]
          else if bd_mapId b \<noteq> ucast (dg_map d)
          then (let entrance = (ucast (dg_map d), \<lparr>ps_x = dg_x d, ps_y = dg_y d, ps_z = dg_z d, ps_o = dg_o d\<rparr>);
                    (mapid, pos) = (if \<not> fromOpcode then find_inside (bd_guid b) d others entrance else entrance)
                in (if \<not> bd_inDungeon b then [SetEntryPoint] else []) @ (if bd_inFlight b then [EndFlight] else []) @
                   [GoTo mapid pos] @ (if \<not> bd_teleport b mapid pos then [TeleportError LFG_TELEPORTERROR_INVALID_LOCATION] else []))
          else [TeleportError LFG_TELEPORTERROR_INVALID_LOCATION])"

text \<open>
  A player changes the map; \<open>grp\<close> is his group with its number of members and the players
  in it.  Disbanding the group runs its hooks.
\<close>

definition OnMapChanged :: "lfg_world \<Rightarrow> guid \<Rightarrow> uint32 \<Rightarrow> nat \<Rightarrow> (guid \<times> nat \<times> guid list) option \<Rightarrow> lfg_mgr \<Rightarrow> lfg_mgr" where
  "OnMapChanged w g mapid difficulty grp m =
     (if inLfgDungeonMap g mapid difficulty m
      then (case grp of
              None \<Rightarrow> tell g TeleportHome (tell g RemoveLuck (LeaveLfg w g False m))
            | Some (gguid, n, sources) \<Rightarrow>
                let m1 = fold (\<lambda>member. tell g (NameQuery member)) sources m
                in if selectedRandomLfgDungeon g m1 then tell g CastLuck m1 else m1)
      else tell g RemoveLuck
        (case grp of
           Some (gguid, n, sources) \<Rightarrow>
             if n = 1
             then (let m1 = LeaveLfg w gguid False m in fold (group_hook w) (lw_hooks w [CallDisband gguid]) m1)
             else m
         | None \<Rightarrow> m))"

section \<open>Lemmas: requests\<close>

lemma tell_fields [simp]:
  "ms_players (tell g x m) = ms_players m" "ms_groups (tell g x m) = ms_groups m"
  "ms_proposals (tell g x m) = ms_proposals m" "lm_queues (tell g x m) = lm_queues m"
  "lm_roleChecks (tell g x m) = lm_roleChecks m" "lm_boots (tell g x m) = lm_boots m"
  "lm_dungeons (tell g x m) = lm_dungeons m" "lm_cached (tell g x m) = lm_cached m" "lm_rewards (tell g x m) = lm_rewards m"
  "queue_at k (tell g x m) = queue_at k m" "queue_id h (tell g x m) = queue_id h m"
  "GetState h (tell g x m) = GetState h m" "GetOldState h (tell g x m) = GetOldState h m"
  "GetGroup h (tell g x m) = GetGroup h m" "GetDungeon h asId (tell g x m) = GetDungeon h asId m"
  "lm_sent (tell g x m) = lm_sent m @ [(g, x)]"
  by (simp_all add: tell_def queue_at_def queue_id_def Let_def GetPlayers_def GetTeam_def group_at_def player_at_def
      GetState_def GetOldState_def GetGroup_def GetDungeon_def)

lemma leave_before_join_fields [simp]:
  "ms_players (leave_before_join g m) = ms_players m" "ms_groups (leave_before_join g m) = ms_groups m"
  "lm_dungeons (leave_before_join g m) = lm_dungeons m" "lm_cached (leave_before_join g m) = lm_cached m"
  "lm_sent (leave_before_join g m) = lm_sent m"
  "GetState h (leave_before_join g m) = GetState h m" "queue_id h (leave_before_join g m) = queue_id h m"
  by (simp_all add: leave_before_join_def on_queue_def GetState_def queue_id_def Let_def GetPlayers_def GetTeam_def
      group_at_def player_at_def)

lemma leave_before_join_queue:
  "queue_at k (leave_before_join g m) =
     (if GetState g m = LFG_STATE_QUEUED \<and> k = queue_id g m then RemoveFromQueue g (queue_at k m) else queue_at k m)"
  by (auto simp: leave_before_join_def on_queue_def queue_at_def om_at_def)

lemma who_is_queued [simp]:
  "GetTeam h (SetComment g c m) = GetTeam h m" "GetTeam h (SetSelectedDungeons g ds m) = GetTeam h m"
  "GetTeam h (tell g x m) = GetTeam h m" "GetTeam h (leave_before_join g m) = GetTeam h m"
  "GetGroup h (SetComment g c m) = GetGroup h m" "GetGroup h (SetSelectedDungeons g ds m) = GetGroup h m"
  "GetGroup h (SetRoles g r m) = GetGroup h m" "GetGroup h (SetState g s m) = GetGroup h m"
  "GetGroup h (on_queue k f m) = GetGroup h m" "GetGroup h (leave_before_join g m) = GetGroup h m"
  by (simp_all add: GetTeam_def GetGroup_def SetComment_def SetSelectedDungeons_def SetRoles_def SetState_def on_player_def
      on_group_def player_at_def om_at_def pd_SetComment_def pd_SetSelectedDungeons_def pd_SetRoles_def tell_def
      on_queue_def leave_before_join_def)

lemma queue_at_data [simp]:
  "queue_at k (SetComment g c m) = queue_at k m" "queue_at k (SetSelectedDungeons g ds m) = queue_at k m"
  by (simp_all add: queue_at_def SetComment_def SetSelectedDungeons_def)

lemma queue_of_player: "\<not> IsGroup g \<Longrightarrow> queue_id g m = GetTeam g m"
  by (simp add: queue_id_def)

text \<open>Locks depend on the tables only.\<close>

lemma lock_of_tables:
  "lm_cached m' = lm_cached m \<Longrightarrow> lm_dungeons m' = lm_dungeons m \<Longrightarrow> lock_of w m' = lock_of w m"
  by (simp add: lock_of_def GetDungeonsByRandom_def GetLFGDungeon_def fun_eq_iff)

text \<open>A refused request changes no state and tells the player alone; but whoever was queued has
  left the queue before the request was looked at, and stays in the queued state.\<close>

theorem JoinLfg_refused:
  assumes "dungeons \<noteq> []" and "join_request w g p grp dungeons m = Some (result, isRaid, rDungeonId, ds, lockMap)"
    and "result \<noteq> LFG_JOIN_OK"
  shows "\<exists>m'. JoinLfg w (Some (g, p)) grp roles dungeons comment m = Some m' \<and>
     lm_sent m' = lm_sent m @ [(g, JoinResult result LFG_ROLECHECK_DEFAULT (if ds \<noteq> [] then [] else lockMap))] \<and>
     (\<forall>h. GetState h m' = GetState h m) \<and>
     (let gguid = join_guid g grp; k = queue_id gguid m
      in if GetState gguid m = LFG_STATE_QUEUED
         then gone gguid (queue_at k m') \<and> GetState gguid m' = LFG_STATE_QUEUED
         else \<forall>k. queue_at k m' = queue_at k m)"
proof -
  have "JoinLfg w (Some (g, p)) grp roles dungeons comment m =
      Some (tell g (JoinResult result LFG_ROLECHECK_DEFAULT (if ds \<noteq> [] then [] else lockMap)) (leave_before_join (join_guid g grp) m))"
    using assms by (simp add: JoinLfg_def Let_def)
  moreover have "GetState (join_guid g grp) m = LFG_STATE_QUEUED \<Longrightarrow>
      gone (join_guid g grp) (queue_at (queue_id (join_guid g grp) m) (leave_before_join (join_guid g grp) m))"
    by (simp add: leave_before_join_queue gone_RemoveFromQueue)
  moreover have "GetState (join_guid g grp) m \<noteq> LFG_STATE_QUEUED \<Longrightarrow> leave_before_join (join_guid g grp) m = m"
    by (simp add: leave_before_join_def)
  ultimately show ?thesis unfolding Let_def by simp
qed

lemma check_join_ok:
  assumes "check_join w g p None False requested m = Some (LFG_JOIN_OK, isRaid, r, ds, lockMap)"
  shows "ds \<noteq> [] \<and> (\<forall>d\<in>set ds. d \<in> set (if r \<noteq> 0 then GetDungeonsByRandom r m else requested) \<and> \<not> locks_out w m d g)"
proof -
  obtain r0 players where c: "check_joiner g p None requested = (r0, players)" by fastforce
  have players: "r0 = LFG_JOIN_OK \<Longrightarrow> players = [g]" using c by (auto simp: check_joiner_def split: if_splits)
  obtain r1 isD isR rD where t: "check_types requested m = (r1, isD, isR, rD)" using prod_cases4 by blast
  have ok: "r0 = LFG_JOIN_OK" "r1 = LFG_JOIN_OK" using assms by (auto simp: check_join_def c t split: if_splits)
  define req where "req = (if rD \<noteq> 0 then GetDungeonsByRandom rD m else requested)"
  have "GetCompatibleDungeons w req [g] False m = Some (ds, lockMap) \<and>
      (if ds = [] then if (None :: join_group option) \<noteq> None then LFG_JOIN_PARTY_NOT_MEET_REQS else LFG_JOIN_NOT_MEET_REQS
       else LFG_JOIN_OK) = LFG_JOIN_OK \<and> rD = r"
    using assms ok players by (simp add: check_join_def c t split del: if_split flip: req_def)
  then obtain ds0 l0 where compat: "GetCompatibleDungeons w req [g] False m = Some (ds0, l0)"
      and res: "ds0 \<noteq> []" "ds = ds0" "r = rD"
    by (auto split: if_splits)
  have "ds0 = filter (\<lambda>d. \<not> locks_out w m d g) req"
    using GetCompatibleDungeons_result [where w = w and m = m and requested = req and players = "[g]"] compat
    by (auto simp: Let_def)
  then show ?thesis using res unfolding req_def by auto
qed

text \<open>C22: A single player who may join is queued: his state is queued and he is a new entry of his
  team's queue, with his roles and at least one dungeon; each of them he asked for, or
  it belongs to the random dungeon he asked for, and he is locked out of none.  When he
  leaves, he is in no list of that queue any more and back in the initial state.\<close>

theorem JoinLfg_single:
  assumes "dungeons \<noteq> []" and "join_request w g p None dungeons m = Some (LFG_JOIN_OK, False, r, ds, lockMap)"
    and "\<not> IsGroup g" and "GetGroup g m = 0"
  shows "\<exists>m'. JoinLfg w (Some (g, p)) None roles dungeons comment m = Some m' \<and> GetState g m' = LFG_STATE_QUEUED \<and>
     (let q = queue_at (queue_id g m) m'
      in om_find (q_data q) g = Some (qd_make (env_now (lw_env w)) ds [(g, roles)]) \<and> g \<in> set (q_new q)) \<and>
     ds \<noteq> [] \<and> (\<forall>d\<in>set ds. d \<in> set (if r \<noteq> 0 then GetDungeonsByRandom r m else dungeons) \<and> \<not> locks_out w m d g) \<and>
     (let m'' = LeaveLfg w' g disconnected m'
      in GetState g m'' = LFG_STATE_NONE \<and> gone g (queue_at (queue_id g m) m''))"
proof -
  define m1 where "m1 = SetComment g comment (leave_before_join g m)"
  define m' where "m' = enqueue_player w g roles False r ds comment m1"
  have join: "JoinLfg w (Some (g, p)) None roles dungeons comment m = Some m'"
    using assms(1,2) by (simp add: JoinLfg_def Let_def m'_def m1_def join_guid_def join_continues_def)
  have "check_join w g p None False dungeons (leave_before_join g m) = Some (LFG_JOIN_OK, False, r, ds, lockMap)"
    using assms(2) by (simp add: join_request_def join_continues_def join_guid_def)
  note checked = check_join_ok [OF this]
  have same: "lock_of w (leave_before_join g m) = lock_of w m" "GetDungeonsByRandom i (leave_before_join g m) = GetDungeonsByRandom i m" for i
    by (simp_all add: lock_of_tables [of "leave_before_join g m" m] GetDungeonsByRandom_def GetLFGDungeon_def)
  have ds: "ds \<noteq> [] \<and> (\<forall>d\<in>set ds. d \<in> set (if r \<noteq> 0 then GetDungeonsByRandom r m else dungeons) \<and> \<not> locks_out w m d g)"
    using checked unfolding same .
  have k: "queue_id g m1 = queue_id g m" "queue_id g m' = queue_id g m" "GetGroup g m' = 0"
    using assms(3,4) by (simp_all add: m'_def m1_def enqueue_player_def Let_def queue_of_player)
  have q: "queue_at (queue_id g m) m' = AddQueueData g (env_now (lw_env w)) ds [(g, roles)] (queue_at (queue_id g m) m1)"
    using k by (simp add: m'_def enqueue_player_def Let_def)
  have st: "GetState g m' = LFG_STATE_QUEUED"
    by (simp add: m'_def enqueue_player_def Let_def states.current_put)
  have leave: "LeaveLfg w' g disconnected m' = leave_queue_player w' g m'"
    using assms(3) st k by (simp add: LeaveLfg_def)
  have "GetState g (leave_queue_player w' g m') = LFG_STATE_NONE" "gone g (queue_at (queue_id g m) (leave_queue_player w' g m'))"
    using k by (simp_all add: leave_queue_player_def Let_def states.current_put gone_RemoveFromQueue)
  then show ?thesis using join st ds q leave
    by (simp add: AddQueueData_def AddToQueue_def AddToNewQueue_def)
qed

section \<open>Lemmas: finishing a dungeon\<close>

lemma give_reward_fields [simp]:
  "GetState h (give_reward w gg dg g r m) = GetState h m" "GetDungeon h asId (give_reward w gg dg g r m) = GetDungeon h asId m"
  "ms_groups (give_reward w gg dg g r m) = ms_groups m"
  by (simp_all add: give_reward_def Let_def split: option.split)

lemma GetState_finish_player:
  "GetState h (finish_player w gg dg g m) = (if h = g then LFG_STATE_FINISHED_DUNGEON else GetState h m)"
  by (simp add: finish_player_def Let_def states.current_put)

lemma GetState_finish_players:
  "GetState h (fold (finish_player w gg dg) gs m) = (if h \<in> set gs then LFG_STATE_FINISHED_DUNGEON else GetState h m)"
  by (induction gs arbitrary: m) (auto simp: GetState_finish_player)

lemma dungeon_SetState_finished:
  "GetDungeon h asId (SetState g LFG_STATE_FINISHED_DUNGEON m) = GetDungeon h asId m"
  by (simp add: GetDungeon_def SetState_def on_group_def on_player_def group_at_def om_at_def gd_GetDungeon_def)

lemma dungeon_finish_players:
  "GetDungeon h asId (fold (finish_player w gg dg) gs m) = GetDungeon h asId m"
proof -
  have "GetDungeon h asId (finish_player w gg dg g m) = GetDungeon h asId m" for g m
    by (simp add: finish_player_def Let_def dungeon_SetState_finished)
  then show ?thesis by (induction gs arbitrary: m) simp_all
qed

text \<open>A dungeon is rewarded once: finishing it again changes nothing.  After the first time the
  group and all its players are in the finished state; another dungeon than the group's
  changes nothing at all.\<close>

theorem FinishDungeon_once:
  "let m' = FinishDungeon w gguid dungeonId m in
     FinishDungeon w gguid dungeonId m' = m' \<and>
     (if GetDungeon gguid True m \<noteq> dungeonId then m' = m
      else GetState gguid m' = LFG_STATE_FINISHED_DUNGEON \<and>
        (GetState gguid m = LFG_STATE_FINISHED_DUNGEON \<or>
         list_all (\<lambda>g. GetState g m' = LFG_STATE_FINISHED_DUNGEON) (GetPlayers gguid (SetState gguid LFG_STATE_FINISHED_DUNGEON m))))"
  by (auto simp: FinishDungeon_def Let_def GetState_finish_players dungeon_finish_players dungeon_SetState_finished
      states.current_put list_all_iff)

section \<open>Lemmas: teleports\<close>

text \<open>The map of a dungeon is not zero, so the loop that looks for a member inside never runs.\<close>

lemma find_inside_never: "fst target \<noteq> 0 \<Longrightarrow> find_inside g d others target = target"
  by (cases others) simp_all

lemma TeleportPlayer_entrance:
  assumes "om_find (lm_dungeons m) (GetDungeon (jg_guid gr) True m) = Some d" and "dg_map d \<noteq> 0"
  shows "TeleportPlayer b (Some gr) others out fromOpcode m = TeleportPlayer b (Some gr) [] out fromOpcode m"
proof -
  have "ucast x = (0 :: uint32) \<longleftrightarrow> x = 0" for x :: uint16 by transfer (simp add: take_bit_eq_mod)
  then have "(ucast (dg_map d) :: uint32) \<noteq> 0" using assms(2) by simp
  then show ?thesis using assms(1) by (simp add: TeleportPlayer_def GetLFGDungeon_def find_inside_never Let_def)
qed

section \<open>Lemmas: the time of a role check\<close>

lemma ask_members_check:
  "om_find (lm_roleChecks m) gguid = Some rc \<Longrightarrow>
   \<exists>roles. om_find (lm_roleChecks (fold (\<lambda>x. case x of None \<Rightarrow> id | Some (pguid, p) \<Rightarrow> ask_member gguid c ds txt pguid) ms m)) gguid =
     Some (rc\<lparr>rc_roles := roles\<rparr>)"
proof (induction ms arbitrary: m rc)
  case Nil
  then show ?case by (auto intro: exI [of _ "rc_roles rc"])
next
  case (Cons x ms)
  show ?case
  proof (cases x)
    case None
    then show ?thesis using Cons by simp
  next
    case (Some gp)
    obtain h p where gp: "gp = (h, p)" by fastforce
    have "om_find (lm_roleChecks (ask_member gguid c ds txt h m)) gguid = Some (rc\<lparr>rc_roles := om_put h 0 (rc_roles rc)\<rparr>)"
      using Cons.prems by (simp add: ask_member_def Let_def om_at_def SetSelectedDungeons_def)
    from Cons.IH [OF this] show ?thesis by (simp add: Some gp)
  qed
qed

text \<open>A role check begun at a time lasts for 45000 seconds from then.\<close>

lemma role_check_lasts:
  assumes "om_find (lm_roleChecks (begin_role_check w g roles gr c r ds txt m)) (jg_guid gr) = Some rc"
    and "jg_guid gr \<noteq> 0" and "env_now (lw_env w') < env_now (lw_env w) + 45000"
  shows "expire_role_check w' (jg_guid gr, rc) m' = m'"
proof -
  have time: "rc_cancelTime (answer_role_check g roles x) = rc_cancelTime x" for x
    by (simp add: answer_role_check_def Let_def)
  define rc0 where "rc0 = (om_at rc_init (lm_roleChecks m) (jg_guid gr))\<lparr>rc_cancelTime := env_now (lw_env w) + LFG_TIME_ROLECHECK,
    rc_state := LFG_ROLECHECK_INITIALITING, rc_leader := g, rc_dungeons := ds, rc_rDungeonId := r\<rparr>"
  define m1 where "m1 = SetState (jg_guid gr) LFG_STATE_ROLECHECK (m\<lparr>lm_roleChecks := om_put (jg_guid gr) rc0 (lm_roleChecks m)\<rparr>)"
  define shown where "shown = (if r \<noteq> 0 then [r] else ds)"
  define m2 where "m2 = fold (\<lambda>x. case x of None \<Rightarrow> id | Some (h, p) \<Rightarrow> ask_member (jg_guid gr) c shown txt h) (jg_members gr) m1"
  have start: "begin_role_check w g roles gr c r ds txt m = UpdateRoleCheck (lfg_world.truncate w) (jg_guid gr) g roles m2"
    by (simp add: begin_role_check_def Let_def m2_def m1_def rc0_def shown_def)
  have "om_find (lm_roleChecks m1) (jg_guid gr) = Some rc0" by (simp add: m1_def)
  from ask_members_check [OF this] obtain rs where m2: "om_find (lm_roleChecks m2) (jg_guid gr) = Some (rc0\<lparr>rc_roles := rs\<rparr>)"
    unfolding m2_def by blast
  have "rc = answer_role_check g roles (rc0\<lparr>rc_roles := rs\<rparr>)"
    using assms(1,2) by (auto simp: start UpdateRoleCheck_def m2 Let_def split: if_splits)
  then have "rc_cancelTime rc = env_now (lw_env w) + 45000" by (simp add: time rc0_def)
  then show ?thesis using assms(3) by (simp add: expire_role_check_def)
qed

section \<open>Witnesses\<close>

text \<open>A player of level 80, with or without the deserter debuff, and two dungeons, one of them for level 85.\<close>

definition sample_joiner :: "bool \<Rightarrow> join_player" where
  "sample_joiner deserter = \<lparr>jp_level = 80, jp_expansion = 2, jp_permission = True, jp_inBattleground = False, jp_inArena = False,
     jp_inQueue = False, jp_aura = (\<lambda>a. deserter \<and> a = LFG_SPELL_DUNGEON_DESERTER), jp_disabled = (\<lambda>map. False),
     jp_bound = (\<lambda>map diff. None), jp_gearBelow = (\<lambda>i. False), jp_achieved = (\<lambda>a. True), jp_team = ALLIANCE,
     jp_questDone = (\<lambda>q. True), jp_hasItem = (\<lambda>i. True), jp_mapId = 0, jp_canReward = (\<lambda>q. True)\<rparr>"

definition sample_join_world :: join_world where
  "sample_join_world = lfg_world.extend sample_world
     (join_world.fields (\<lambda>g. Some (sample_joiner False)) (\<lambda>h. False) (\<lambda>map diff. None) (\<lambda>q. True))"

definition sample_dungeon :: "uint32 \<Rightarrow> uint8 \<Rightarrow> lfg_dungeon" where
  "sample_dungeon i level = dungeon_of \<lparr>de_ID = i, de_minlevel = ucast level, de_maxlevel = 90, de_map = 574, de_difficulty = 0,
     de_flags = 0, de_type = 1, de_expansion = 2, de_grouptype = 11\<rparr>"

definition sample_join_mgr :: lfg_mgr where
  "sample_join_mgr = sample_mgr\<lparr>
     ms_players := [(1, pd_init\<lparr>pd_state := LFG_STATE_QUEUED\<rparr>), (5, pd_init)],
     lm_dungeons := [(200, sample_dungeon 200 70), (300, sample_dungeon 300 85)], lm_cached := [(0, [200, 300]), (11, [200, 300])]\<rparr>"

lemma JoinLfg_refused_witness:
  "\<exists>m'. JoinLfg sample_join_world (Some (1, sample_joiner True)) None 2 [200] [] sample_join_mgr = Some m' \<and>
     GetState 1 m' = LFG_STATE_QUEUED \<and> gone 1 (queue_at 0 m')"
proof -
  have request: "join_request sample_join_world 1 (sample_joiner True) None [200] sample_join_mgr = Some (LFG_JOIN_DESERTER, False, 0, [200], [])"
    by code_simp
  have queued: "GetState 1 sample_join_mgr = LFG_STATE_QUEUED" "queue_id 1 sample_join_mgr = 0" by code_simp+
  show ?thesis
    using JoinLfg_refused [OF _ request, where roles = 2 and comment = "[]"] queued by (auto simp: Let_def join_guid_def)
qed

lemma JoinLfg_single_witness:
  "\<exists>m'. JoinLfg sample_join_world (Some (5, sample_joiner False)) None 2 [200, 300] [] sample_join_mgr = Some m' \<and>
     GetState 5 m' = LFG_STATE_QUEUED \<and> om_find (q_data (queue_at 0 m')) 5 = Some (qd_make 1000 [200] [(5, 2)]) \<and>
     GetState 5 (LeaveLfg sample_world 5 False m') = LFG_STATE_NONE"
proof -
  have request: "join_request sample_join_world 5 (sample_joiner False) None [200, 300] sample_join_mgr = Some (LFG_JOIN_OK, False, 0, [200], [])"
    by code_simp
  have player: "\<not> IsGroup 5" "GetGroup 5 sample_join_mgr = 0" "queue_id 5 sample_join_mgr = 0" "env_now (lw_env sample_join_world) = 1000"
    by code_simp+
  show ?thesis
    using JoinLfg_single [OF _ request player(1,2), where roles = 2 and comment = "[]" and w' = sample_world and disconnected = False] player(3,4)
    by (auto simp: Let_def)
qed

end
