(* ===== verification/GroupState.thy ===== *)
theory GroupState
  imports LfgMgr
begin

text \<open>
  The state of the player groups, \<^verbatim>\<open>src/src/server/game/Groups\<close>: the class \<^verbatim>\<open>Group\<close> with its
  member slots, subgroup counters and loot rolls, the manager \<^verbatim>\<open>GroupMgr\<close>, and the
  references between a player and his groups (\<^verbatim>\<open>GroupReference\<close>, kept in the intrusive list
  \<^verbatim>\<open>GroupRefManager\<close> of the group).  A \<^verbatim>\<open>Group*\<close> is an address, a key of \<open>ps_groups\<close>; a
  \<^verbatim>\<open>Player*\<close> is the player's guid.  Packets, database statements, script hooks and calls into
  players and maps are appended to \<open>ps_fx\<close> in the order the code makes them; what the code
  reads from the rest of the world is the record \<open>party_world\<close>.
\<close>

section \<open>Constants\<close>

abbreviation MAXGROUPSIZE :: nat where "MAXGROUPSIZE \<equiv> 5"
abbreviation MAXRAIDSIZE :: nat where "MAXRAIDSIZE \<equiv> 40"
abbreviation MAX_RAID_SUBGROUPS :: nat where "MAX_RAID_SUBGROUPS \<equiv> 8"
abbreviation TARGETICONCOUNT :: nat where "TARGETICONCOUNT \<equiv> 8"

abbreviation MEMBER_FLAG_ASSISTANT :: uint8 where "MEMBER_FLAG_ASSISTANT \<equiv> 0x01"
abbreviation MEMBER_FLAG_MAINTANK :: uint8 where "MEMBER_FLAG_MAINTANK \<equiv> 0x02"
abbreviation MEMBER_FLAG_MAINASSIST :: uint8 where "MEMBER_FLAG_MAINASSIST \<equiv> 0x04"

abbreviation GROUPTYPE_NORMAL :: uint8 where "GROUPTYPE_NORMAL \<equiv> 0x00"
abbreviation GROUPTYPE_RAID :: uint8 where "GROUPTYPE_RAID \<equiv> 0x02"
abbreviation GROUPTYPE_BGRAID :: uint8 where "GROUPTYPE_BGRAID \<equiv> 0x03"
abbreviation GROUPTYPE_LFG_RESTRICTED :: uint8 where "GROUPTYPE_LFG_RESTRICTED \<equiv> 0x04"
abbreviation GROUPTYPE_LFG :: uint8 where "GROUPTYPE_LFG \<equiv> 0x08"

abbreviation FREE_FOR_ALL :: uint8 where "FREE_FOR_ALL \<equiv> 0"
abbreviation MASTER_LOOT :: uint8 where "MASTER_LOOT \<equiv> 2"
abbreviation GROUP_LOOT :: uint8 where "GROUP_LOOT \<equiv> 3"
abbreviation NEED_BEFORE_GREED :: uint8 where "NEED_BEFORE_GREED \<equiv> 4"
abbreviation ITEM_QUALITY_UNCOMMON :: uint8 where "ITEM_QUALITY_UNCOMMON \<equiv> 2"
abbreviation ITEM_QUALITY_ARTIFACT :: uint8 where "ITEM_QUALITY_ARTIFACT \<equiv> 6"

abbreviation MEMBER_STATUS_ONLINE :: uint8 where "MEMBER_STATUS_ONLINE \<equiv> 0x01"
abbreviation MEMBER_STATUS_PVP :: uint8 where "MEMBER_STATUS_PVP \<equiv> 0x02"

abbreviation ROLL_PASS :: uint8 where "ROLL_PASS \<equiv> 0"
abbreviation ROLL_NEED :: uint8 where "ROLL_NEED \<equiv> 1"
abbreviation ROLL_GREED :: uint8 where "ROLL_GREED \<equiv> 2"
abbreviation ROLL_DISENCHANT :: uint8 where "ROLL_DISENCHANT \<equiv> 3"
abbreviation MAX_ROLL_TYPE :: uint8 where "MAX_ROLL_TYPE \<equiv> 4"
abbreviation ROLL_FLAG_TYPE_NEED :: uint8 where "ROLL_FLAG_TYPE_NEED \<equiv> 0x02"
abbreviation ROLL_FLAG_TYPE_DISENCHANT :: uint8 where "ROLL_FLAG_TYPE_DISENCHANT \<equiv> 0x08"
abbreviation ROLL_ALL_TYPE_NO_DISENCHANT :: uint8 where "ROLL_ALL_TYPE_NO_DISENCHANT \<equiv> 0x07"

datatype RollVote = PASS | NEED | GREED | DISENCHANT | NOT_EMITED_YET | NOT_VALID

fun vote_value :: "RollVote \<Rightarrow> uint8" where
  "vote_value PASS = 0"
| "vote_value NEED = 1"
| "vote_value GREED = 2"
| "vote_value DISENCHANT = 3"
| "vote_value NOT_EMITED_YET = 4"
| "vote_value NOT_VALID = 5"

section \<open>Loot and rolls\<close>

record loot_item =
  li_itemid :: uint32
  li_randomSuffix :: uint32
  li_randomPropertyId :: int32
  li_count :: uint8
  li_is_looted :: bool
  li_is_blocked :: bool
  li_freeforall :: bool
  li_is_underthreshold :: bool
  li_follow_loot_rules :: bool

record loot =
  lt_items :: "loot_item list"
  lt_quest_items :: "loot_item list"
  lt_unlootedCount :: uint8

text \<open>What the rolls read of an item template.\<close>

record item_template =
  it_Quality :: uint32
  it_DisenchantID :: uint32
  it_RequiredDisenchantSkill :: uint32
  it_needDisabled :: bool

text \<open>A roll; \<open>rl_loot\<close> is the target of the validator reference, \<open>None\<close> once the loot is gone.\<close>

record loot_roll =
  rl_itemGUID :: guid
  rl_itemid :: uint32
  rl_itemRandomPropId :: int32
  rl_itemRandomSuffix :: uint32
  rl_itemCount :: uint8
  rl_votes :: "(guid, RollVote) stdmap"
  rl_players :: uint8
  rl_need :: uint8
  rl_greed :: uint8
  rl_pass :: uint8
  rl_slot :: uint8
  rl_mask :: uint8
  rl_loot :: "nat option"

definition Roll_init :: "guid \<Rightarrow> loot_item \<Rightarrow> loot_roll" where
  "Roll_init g li = \<lparr>rl_itemGUID = g, rl_itemid = li_itemid li, rl_itemRandomPropId = li_randomPropertyId li,
     rl_itemRandomSuffix = li_randomSuffix li, rl_itemCount = li_count li, rl_votes = [], rl_players = 0, rl_need = 0,
     rl_greed = 0, rl_pass = 0, rl_slot = 0, rl_mask = ROLL_ALL_TYPE_NO_DISENCHANT, rl_loot = None\<rparr>"

text \<open>What every packet about a roll says of its item: slot, item, suffix and property.\<close>

type_synonym roll_key = "uint8 \<times> uint32 \<times> uint32 \<times> int32"

definition roll_item :: "loot_roll \<Rightarrow> roll_key" where
  "roll_item r = (rl_slot r, rl_itemid r, rl_itemRandomSuffix r, rl_itemRandomPropId r)"

section \<open>Groups\<close>

record member_slot =
  sl_guid :: guid
  sl_name :: string
  sl_group :: uint8
  sl_flags :: uint8
  sl_roles :: uint8

text \<open>The two references of a player: to his group and, while he is in a battleground raid, to his own group.\<close>

datatype ref_kind = CurrentGroup | OriginalGroup

record group_ref =
  rf_to :: "nat option"
  rf_sub :: uint8

record party_group =
  pg_members :: "member_slot list"
  pg_refs :: "(ref_kind \<times> guid) list"
  pg_invitees :: "guid list"
  pg_leaderGuid :: guid
  pg_leaderName :: string
  pg_type :: uint8
  pg_dungeonDifficulty :: uint8
  pg_raidDifficulty :: uint8
  pg_bg :: "nat option"
  pg_bf :: "nat option"
  pg_icons :: "guid list"
  pg_lootMethod :: uint8
  pg_threshold :: uint8
  pg_looter :: guid
  pg_masterLooter :: guid
  pg_rolls :: "loot_roll list"
  pg_counts :: "uint8 list option"
  pg_guid :: guid
  pg_counter :: uint32
  pg_maxEnchanting :: uint32
  pg_dbId :: uint32

definition Group_init :: party_group where
  "Group_init = \<lparr>pg_members = [], pg_refs = [], pg_invitees = [], pg_leaderGuid = 0, pg_leaderName = [],
     pg_type = GROUPTYPE_NORMAL, pg_dungeonDifficulty = 0, pg_raidDifficulty = 0, pg_bg = None, pg_bf = None,
     pg_icons = replicate TARGETICONCOUNT 0, pg_lootMethod = FREE_FOR_ALL, pg_threshold = ITEM_QUALITY_UNCOMMON,
     pg_looter = 0, pg_masterLooter = 0, pg_rolls = [], pg_counts = None, pg_guid = 0, pg_counter = 0,
     pg_maxEnchanting = 0, pg_dbId = 0\<rparr>"

section \<open>Effects\<close>

text \<open>A line of \<^verbatim>\<open>SMSG_GROUP_LIST\<close> for one other member: name, guid, online state, subgroup, flags, roles.\<close>

record list_entry =
  le_name :: string
  le_guid :: guid
  le_online :: uint8
  le_group :: uint8
  le_flags :: uint8
  le_roles :: uint8

record group_list =
  gl_type :: uint8
  gl_slot :: "uint8 \<times> uint8 \<times> uint8"
  gl_lfg :: "(uint8 \<times> uint32) option"
  gl_guid :: guid
  gl_counter :: uint32
  gl_count :: uint32
  gl_others :: "list_entry list"
  gl_leader :: guid
  gl_loot :: "(uint8 \<times> guid \<times> uint8 \<times> uint8 \<times> uint8 \<times> bool) option"

datatype PartyOperation = PARTY_OP_INVITE | PARTY_OP_UNINVITE | PARTY_OP_LEAVE | PARTY_OP_SWAP

datatype PartyResult = ERR_PARTY_RESULT_OK | ERR_BAD_PLAYER_NAME_S | ERR_TARGET_NOT_IN_GROUP_S
  | ERR_TARGET_NOT_IN_INSTANCE_S | ERR_GROUP_FULL | ERR_ALREADY_IN_GROUP_S | ERR_NOT_IN_GROUP | ERR_NOT_LEADER
  | ERR_PLAYER_WRONG_FACTION | ERR_IGNORING_YOU_S | ERR_INVITE_RESTRICTED | ERR_PARTY_LFG_BOOT_LIMIT
  | ERR_PARTY_LFG_BOOT_IN_PROGRESS | ERR_PARTY_LFG_BOOT_TOO_FEW_PLAYERS | ERR_PARTY_LFG_BOOT_IN_COMBAT
  | ERR_PARTY_LFG_BOOT_DUNGEON_COMPLETE | ERR_PARTY_LFG_BOOT_LOOT_ROLLS

datatype party_packet =
    SMSG_GROUP_LIST group_list
  | SMSG_GROUP_LIST_LEFT guid uint32
  | SMSG_GROUP_UNINVITE
  | SMSG_GROUP_DESTROYED
  | SMSG_GROUP_SET_LEADER string
  | SMSG_GROUP_INVITE bool string
  | SMSG_GROUP_DECLINE string
  | SMSG_PARTY_COMMAND_RESULT PartyOperation string PartyResult
  | SMSG_PARTY_MEMBER_STATS guid
  | MSG_RAID_TARGET_UPDATE guid uint8 guid
  | MSG_RAID_TARGET_LIST "(uint8 \<times> guid) list"
  | MSG_RAID_READY_CHECK guid
  | MSG_RAID_READY_CHECK_CONFIRM guid uint8
  | MSG_MINIMAP_PING guid uint32 uint32
  | MSG_RANDOM_ROLL uint32 uint32 uint32 guid
  | SMSG_LOOT_START_ROLL guid uint32 roll_key uint8 uint32 uint8
  | SMSG_LOOT_ROLL guid guid uint8 uint8 roll_key
  | SMSG_LOOT_ROLL_WON guid guid uint8 uint8 roll_key
  | SMSG_LOOT_ALL_PASSED guid roll_key
  | SMSG_LOOT_MASTER_LIST uint8 "guid list"
  | SMSG_LOOT_LIST nat "guid option" "guid option"
  | SMSG_UPDATE_FIELDS "guid list"

datatype group_sql =
    CHAR_INS_GROUP uint32 uint32 uint8 uint32 uint8 "guid list" uint8 uint8 uint8 uint32
  | CHAR_INS_GROUP_MEMBER uint32 uint32 uint8 uint8 uint8
  | CHAR_DEL_GROUP_MEMBER uint32
  | CHAR_UPD_GROUP_LEADER uint32 uint32
  | CHAR_UPD_GROUP_TYPE uint8 uint32
  | CHAR_UPD_GROUP_MEMBER_SUBGROUP uint8 uint32
  | CHAR_UPD_GROUP_MEMBER_FLAG uint8 uint32
  | CHAR_UPD_GROUP_DIFFICULTY uint8 uint32
  | CHAR_UPD_GROUP_RAID_DIFFICULTY uint8 uint32
  | CHAR_DEL_GROUP uint32
  | CHAR_DEL_GROUP_MEMBER_ALL uint32
  | CHAR_DEL_LFG_DATA uint32

text \<open>Calls into a player; \<open>StoreItem\<close> carries the loot item the code hands over.\<close>

datatype player_call =
    GroupLeaderFlag bool
  | UpdateObjectVisibility
  | CheckInstanceValidity
  | InvalidateInstance
  | ResetPlayerInstances bool
  | PutDungeonDifficulty uint8
  | PutRaidDifficulty uint8
  | FullGroupUpdate
  | UpdateForQuestWorldObjects
  | ForceGroupValues
  | RollWonCriteria bool uint32 uint8
  | DisenchantCriteria
  | RollCriteria bool
  | PassOnGroupLoot bool
  | StoreItem loot_item
  | EquipError nat uint32
  | StoreDisenchanted uint32
  | MailDisenchanted uint32
  | AutoJoinIrc

datatype party_fx =
    Hook group_event
  | InviteHook guid guid
  | Send guid party_packet
  | Sql group_sql
  | Call guid player_call
  | ConvertLeaderInstances guid bool
  | ResetGroupInstances bool
  | DropPermanentBinds
  | ClearBgRaid nat
  | LootTimer nat uint32 uint32
  | ItemRemoved nat uint8
  | SetupLfgMember guid guid
  | LfgLoad guid

section \<open>World and state\<close>

record party_world =
  pw_connected :: "guid \<Rightarrow> bool"
  pw_inWorld :: "guid \<Rightarrow> bool"
  pw_session :: "guid \<Rightarrow> bool"
  pw_logout :: "guid \<Rightarrow> bool"
  pw_name :: "guid \<Rightarrow> string"
  pw_dbName :: "guid \<Rightarrow> string option"
  pw_enchanting :: "guid \<Rightarrow> uint16"
  pw_level :: "guid \<Rightarrow> uint8"
  pw_dungeonDifficulty :: "guid \<Rightarrow> uint8"
  pw_raidDifficulty :: "guid \<Rightarrow> uint8"
  pw_outOfRange :: "guid \<Rightarrow> guid \<Rightarrow> bool"
  pw_atClient :: "guid \<Rightarrow> guid \<Rightarrow> bool"
  pw_gm :: "guid \<Rightarrow> bool"
  pw_inDungeonMap :: "guid \<Rightarrow> bool"
  pw_alive :: "guid \<Rightarrow> bool"
  pw_mapId :: "guid \<Rightarrow> uint32"
  pw_lfgFinished :: "guid \<Rightarrow> bool"
  pw_lfgDungeon :: "guid \<Rightarrow> uint32"
  pw_lfgMap :: "guid \<Rightarrow> uint32"
  pw_near :: "guid \<Rightarrow> nat \<Rightarrow> bool"
  pw_objectMap :: "nat \<Rightarrow> uint32"
  pw_lootTimer :: "nat \<Rightarrow> bool"
  pw_overThreshold :: "nat \<Rightarrow> bool"
  pw_item :: "uint32 \<Rightarrow> item_template option"
  pw_allowed :: "loot_item \<Rightarrow> guid \<Rightarrow> bool"
  pw_pass :: "guid \<Rightarrow> bool"
  pw_canNeed :: "guid \<Rightarrow> uint32 \<Rightarrow> nat \<Rightarrow> bool"
  pw_canStore :: "party_fx list \<Rightarrow> guid \<Rightarrow> uint32 \<Rightarrow> uint8 \<Rightarrow> nat"
  pw_urand :: "nat \<Rightarrow> uint8"

abbreviation EQUIP_ERR_OK :: nat where "EQUIP_ERR_OK \<equiv> 0"

text \<open>\<^verbatim>\<open>ObjectAccessor::FindPlayer\<close>: connected and in the world.\<close>

definition FindPlayer :: "party_world \<Rightarrow> guid \<Rightarrow> bool" where
  "FindPlayer w g \<longleftrightarrow> pw_connected w g \<and> pw_inWorld w g"

record party_state =
  ps_groups :: "(nat, party_group) stdmap"
  ps_cur :: "(guid, group_ref) stdmap"
  ps_orig :: "(guid, group_ref) stdmap"
  ps_invite :: "(guid, nat) stdmap"
  ps_loots :: "(nat, loot) stdmap"
  ps_items :: guid_generator
  ps_draws :: nat
  gm_nextDb :: uint32
  gm_dbStore :: "nat option list"
  gm_nextId :: uint32
  gm_store :: "(uint32, nat) stdmap"
  gm_stopped :: bool
  ps_fx :: "party_fx list"

definition fx :: "party_fx list \<Rightarrow> party_state \<Rightarrow> party_state" where
  "fx es s = s\<lparr>ps_fx := ps_fx s @ es\<rparr>"

definition gr :: "nat \<Rightarrow> party_state \<Rightarrow> party_group" where
  "gr p s = om_at Group_init (ps_groups s) p"

definition on_gr :: "nat \<Rightarrow> (party_group \<Rightarrow> party_group) \<Rightarrow> party_state \<Rightarrow> party_state" where
  "on_gr p f s = s\<lparr>ps_groups := om_put p (f (gr p s)) (ps_groups s)\<rparr>"

text \<open>\<^verbatim>\<open>new Group\<close> at a fresh address.\<close>

definition new_group :: "nat \<Rightarrow> party_state \<Rightarrow> party_state" where
  "new_group p s = s\<lparr>ps_groups := om_put p Group_init (ps_groups s)\<rparr>"

lemma gr_on_gr [simp]: "gr q (on_gr p f s) = (if q = p then f (gr p s) else gr q s)"
  by (simp add: gr_def on_gr_def om_at_def)

lemma gr_fx [simp]: "gr p (fx es s) = gr p s"
  by (simp add: gr_def fx_def)

lemma fx_Nil [simp]: "fx [] s = s"
  by (simp add: fx_def)

lemma fx_fx [simp]: "fx es (fx ds s) = fx (ds @ es) s"
  by (simp add: fx_def)

lemma ps_fx_fx [simp]: "ps_fx (fx es s) = ps_fx s @ es"
  by (simp add: fx_def)

lemma ps_fx_on_gr [simp]: "ps_fx (on_gr p f s) = ps_fx s"
  by (simp add: on_gr_def)

section \<open>A sample world\<close>

text \<open>Everybody is connected, near, allowed to loot and draws 7.\<close>

definition sample_party_world :: party_world where
  "sample_party_world = \<lparr>pw_connected = (\<lambda>g. True), pw_inWorld = (\<lambda>g. True), pw_session = (\<lambda>g. True),
     pw_logout = (\<lambda>g. False), pw_name = (\<lambda>g. ''Ann''), pw_dbName = (\<lambda>g. Some ''Ann''), pw_enchanting = (\<lambda>g. 0),
     pw_level = (\<lambda>g. 80), pw_dungeonDifficulty = (\<lambda>g. 0), pw_raidDifficulty = (\<lambda>g. 0), pw_outOfRange = (\<lambda>g h. False),
     pw_atClient = (\<lambda>g h. True), pw_gm = (\<lambda>g. False), pw_inDungeonMap = (\<lambda>g. False), pw_alive = (\<lambda>g. True),
     pw_mapId = (\<lambda>g. 0), pw_lfgFinished = (\<lambda>g. False), pw_lfgDungeon = (\<lambda>g. 0), pw_lfgMap = (\<lambda>g. 0),
     pw_near = (\<lambda>g ob. True), pw_objectMap = (\<lambda>ob. 0), pw_lootTimer = (\<lambda>ob. False), pw_overThreshold = (\<lambda>ob. False),
     pw_item = (\<lambda>i. None), pw_allowed = (\<lambda>li g. True), pw_pass = (\<lambda>g. False), pw_canNeed = (\<lambda>g i n. True),
     pw_canStore = (\<lambda>es g i c. EQUIP_ERR_OK), pw_urand = (\<lambda>n. 7)\<rparr>"

end
