(* ===== verification/GroupLoot.thy ===== *)
theory GroupLoot
  imports GroupState
begin

text \<open>
  Rolling for loot, \<^verbatim>\<open>src/src/server/game/Groups/Group.cpp\<close>: opening the rolls of a loot
  (group loot, need before greed, master loot), votes, and the end of a roll.  A roll is
  an element of \<open>pg_rolls\<close>, the vector \<^verbatim>\<open>RollId\<close>; an iterator into it is an index.
  The draws of \<^verbatim>\<open>urand(1, 100)\<close> are numbered by \<open>ps_draws\<close>.
\<close>

section \<open>Packets\<close>

text \<open>The voters a packet goes to: connected, with a session, and with a vote of the given kind.\<close>

definition to_voters :: "party_world \<Rightarrow> loot_roll \<Rightarrow> (RollVote \<Rightarrow> bool) \<Rightarrow> party_packet \<Rightarrow> party_fx list" where
  "to_voters w r sel pkt =
     concat (map (\<lambda>(g, v). if pw_connected w g \<and> pw_session w g \<and> sel v then [Send g pkt] else []) (rl_votes r))"

definition SendLootStartRoll :: "party_world \<Rightarrow> uint32 \<Rightarrow> uint32 \<Rightarrow> loot_roll \<Rightarrow> party_fx list" where
  "SendLootStartRoll w countDown mapid r =
     to_voters w r (\<lambda>v. v = NOT_EMITED_YET)
       (SMSG_LOOT_START_ROLL (rl_itemGUID r) mapid (roll_item r) (rl_itemCount r) countDown (rl_mask r))"

definition SendLootStartRollToPlayer ::
  "party_world \<Rightarrow> uint32 \<Rightarrow> uint32 \<Rightarrow> guid \<Rightarrow> bool \<Rightarrow> loot_roll \<Rightarrow> party_fx list" where
  "SendLootStartRollToPlayer w countDown mapid g canNeed r =
     (if pw_session w g
      then [Send g (SMSG_LOOT_START_ROLL (rl_itemGUID r) mapid (roll_item r) (rl_itemCount r) countDown
                     (if canNeed then rl_mask r else rl_mask r AND NOT ROLL_FLAG_TYPE_NEED))]
      else [])"

definition SendLootRoll :: "party_world \<Rightarrow> guid \<Rightarrow> guid \<Rightarrow> uint8 \<Rightarrow> uint8 \<Rightarrow> loot_roll \<Rightarrow> party_fx list" where
  "SendLootRoll w src tgt num type r =
     to_voters w r (\<lambda>v. v \<noteq> NOT_VALID) (SMSG_LOOT_ROLL src tgt num type (roll_item r))"

definition SendLootRollWon :: "party_world \<Rightarrow> guid \<Rightarrow> guid \<Rightarrow> uint8 \<Rightarrow> uint8 \<Rightarrow> loot_roll \<Rightarrow> party_fx list" where
  "SendLootRollWon w src tgt num type r =
     to_voters w r (\<lambda>v. v \<noteq> NOT_VALID) (SMSG_LOOT_ROLL_WON src tgt num type (roll_item r))"

definition SendLootAllPassed :: "party_world \<Rightarrow> loot_roll \<Rightarrow> party_fx list" where
  "SendLootAllPassed w r = to_voters w r (\<lambda>v. v \<noteq> NOT_VALID) (SMSG_LOOT_ALL_PASSED (rl_itemGUID r) (roll_item r))"

section \<open>Loot\<close>

definition loot_init :: loot where
  "loot_init = \<lparr>lt_items = [], lt_quest_items = [], lt_unlootedCount = 0\<rparr>"

definition loot_at :: "nat \<Rightarrow> party_state \<Rightarrow> loot" where
  "loot_at l s = om_at loot_init (ps_loots s) l"

definition on_loot :: "nat \<Rightarrow> (loot \<Rightarrow> loot) \<Rightarrow> party_state \<Rightarrow> party_state" where
  "on_loot l f s = s\<lparr>ps_loots := om_put l (f (loot_at l s)) (ps_loots s)\<rparr>"

text \<open>The item of a slot: the quest items follow the items.\<close>

definition slot_item :: "uint8 \<Rightarrow> loot \<Rightarrow> loot_item" where
  "slot_item slot lt =
     (if unat slot \<ge> length (lt_items lt) then lt_quest_items lt ! (unat slot - length (lt_items lt))
      else lt_items lt ! unat slot)"

definition on_slot :: "uint8 \<Rightarrow> (loot_item \<Rightarrow> loot_item) \<Rightarrow> loot \<Rightarrow> loot" where
  "on_slot slot f lt =
     (if unat slot \<ge> length (lt_items lt)
      then lt\<lparr>lt_quest_items := (lt_quest_items lt)[unat slot - length (lt_items lt) := f (slot_item slot lt)]\<rparr>
      else lt\<lparr>lt_items := (lt_items lt)[unat slot := f (slot_item slot lt)]\<rparr>)"

section \<open>Opening rolls\<close>

text \<open>The linked members near the object who may have the item; \<open>passes\<close> tells whether the option to pass on loot counts.\<close>

definition enter_roll :: "party_world \<Rightarrow> bool \<Rightarrow> loot_item \<Rightarrow> nat \<Rightarrow> ref_kind \<times> guid \<Rightarrow> loot_roll \<Rightarrow> loot_roll" where
  "enter_roll w passes it ob ref r =
     (let g = snd ref in
      if pw_session w g \<and> pw_allowed w it g \<and> pw_near w g ob
      then (if passes \<and> pw_pass w g
            then r\<lparr>rl_players := rl_players r + 1, rl_votes := om_put g PASS (rl_votes r), rl_pass := rl_pass r + 1\<rparr>
            else r\<lparr>rl_players := rl_players r + 1, rl_votes := om_put g NOT_EMITED_YET (rl_votes r)\<rparr>)
      else r)"

definition roll_mask :: "bool \<Rightarrow> item_template \<Rightarrow> uint32 \<Rightarrow> uint8 \<Rightarrow> uint8" where
  "roll_mask nbg tm maxEnchanting msk =
     (let m1 = (if it_DisenchantID tm \<noteq> 0 \<and> maxEnchanting \<ge> it_RequiredDisenchantSkill tm
                then msk OR ROLL_FLAG_TYPE_DISENCHANT else msk)
      in if nbg \<and> it_needDisabled tm then m1 AND NOT ROLL_FLAG_TYPE_NEED else m1)"

text \<open>The announcement: passes first and then the start (group loot), or vote by vote (need before greed).\<close>

definition announce_group :: "party_world \<Rightarrow> bool \<Rightarrow> nat \<Rightarrow> loot_roll \<Rightarrow> party_fx list" where
  "announce_group w quest ob r =
     (if \<not> quest \<and> rl_pass r \<noteq> 0
      then concat (map (\<lambda>(g, v). if pw_connected w g \<and> pw_session w g \<and> v = PASS
                                 then SendLootRoll w (rl_itemGUID r) g 128 ROLL_PASS r else []) (rl_votes r))
      else []) @ SendLootStartRoll w 60000 (pw_objectMap w ob) r"

definition announce_need :: "party_world \<Rightarrow> nat \<Rightarrow> loot_roll \<Rightarrow> party_fx list" where
  "announce_need w ob r =
     concat (map (\<lambda>(g, v).
         if pw_connected w g \<and> pw_session w g
         then (if v = PASS then SendLootRoll w (rl_itemGUID r) g 128 ROLL_PASS r
               else SendLootStartRollToPlayer w 60000 (pw_objectMap w ob) g (pw_canNeed w g (rl_itemid r) ob) r)
         else []) (rl_votes r))"

definition start_roll ::
  "party_world \<Rightarrow> bool \<Rightarrow> bool \<Rightarrow> nat \<Rightarrow> nat \<Rightarrow> nat \<Rightarrow> item_template \<Rightarrow> uint8 \<Rightarrow> loot_item \<Rightarrow> party_state \<Rightarrow> party_state" where
  "start_roll w nbg quest p l ob tm slot it s =
     (case Generate (ps_items s) of (c, gen) \<Rightarrow>
        let itemGuid = Global HG_Item c;
            r0 = fold (enter_roll w (\<not> quest) it ob) (pg_refs (gr p s)) (Roll_init itemGuid it);
            s1 = s\<lparr>ps_items := gen\<rparr>
        in if rl_players r0 > 0
           then let msk = (if quest then rl_mask r0 else roll_mask nbg tm (pg_maxEnchanting (gr p s)) (rl_mask r0));
                    r1 = r0\<lparr>rl_loot := Some l, rl_slot := slot, rl_mask := msk\<rparr>;
                    s2 = on_loot l (on_slot slot (\<lambda>x. x\<lparr>li_is_blocked := True\<rparr>)) s1;
                    s3 = fx (if nbg then announce_need w ob r1 else announce_group w quest ob r1) s2;
                    s4 = on_gr p (\<lambda>gp. gp\<lparr>pg_rolls := pg_rolls gp @ [r1]\<rparr>) s3
                in if pw_lootTimer w ob then fx [LootTimer ob 60000 (GetCounter (pg_guid (gr p s4)))] s4 else s4
           else s1)"

text \<open>One item and one quest item of a loot under group loot; \<open>i\<close> is the position in its vector.\<close>

definition group_loot_item :: "party_world \<Rightarrow> nat \<Rightarrow> nat \<Rightarrow> nat \<Rightarrow> nat \<Rightarrow> party_state \<Rightarrow> party_state" where
  "group_loot_item w p l ob i s =
     (let it = lt_items (loot_at l s) ! i in
      if li_freeforall it then s
      else case pw_item w (li_itemid it) of None \<Rightarrow> s
         | Some tm \<Rightarrow>
             if it_Quality tm \<ge> ucast (pg_threshold (gr p s)) then start_roll w False False p l ob tm (of_nat i) it s
             else on_loot l (\<lambda>lt. lt\<lparr>lt_items := (lt_items lt)[i := it\<lparr>li_is_underthreshold := True\<rparr>]\<rparr>) s)"

definition group_loot_quest :: "party_world \<Rightarrow> nat \<Rightarrow> nat \<Rightarrow> nat \<Rightarrow> nat \<Rightarrow> party_state \<Rightarrow> party_state" where
  "group_loot_quest w p l ob i s =
     (let it = lt_quest_items (loot_at l s) ! i in
      if \<not> li_follow_loot_rules it then s
      else case pw_item w (li_itemid it) of None \<Rightarrow> s
         | Some tm \<Rightarrow> start_roll w False True p l ob tm (of_nat (length (lt_items (loot_at l s)) + i)) it s)"

definition GroupLoot :: "party_world \<Rightarrow> nat \<Rightarrow> nat \<Rightarrow> nat \<Rightarrow> party_state \<Rightarrow> party_state" where
  "GroupLoot w p l ob s =
     (let s1 = fold (group_loot_item w p l ob) [0..<length (lt_items (loot_at l s))] s
      in fold (group_loot_quest w p l ob) [0..<length (lt_quest_items (loot_at l s1))] s1)"

text \<open>
  Under need before greed the template is read without a check: \<open>None\<close> is the null
  dereference of an item without a template.
\<close>

definition need_loot_item :: "party_world \<Rightarrow> nat \<Rightarrow> nat \<Rightarrow> nat \<Rightarrow> nat \<Rightarrow> party_state \<Rightarrow> party_state option" where
  "need_loot_item w p l ob i s =
     (let it = lt_items (loot_at l s) ! i in
      if li_freeforall it then Some s
      else case pw_item w (li_itemid it) of None \<Rightarrow> None
         | Some tm \<Rightarrow> Some (
             if it_Quality tm \<ge> ucast (pg_threshold (gr p s)) then start_roll w True False p l ob tm (of_nat i) it s
             else on_loot l (\<lambda>lt. lt\<lparr>lt_items := (lt_items lt)[i := it\<lparr>li_is_underthreshold := True\<rparr>]\<rparr>) s))"

text \<open>A quest item needs no template to open its roll; only the players' right to need is asked of it.\<close>

definition need_loot_quest :: "party_world \<Rightarrow> nat \<Rightarrow> nat \<Rightarrow> nat \<Rightarrow> nat \<Rightarrow> party_state \<Rightarrow> party_state" where
  "need_loot_quest w p l ob i s =
     (let it = lt_quest_items (loot_at l s) ! i in
      if \<not> li_follow_loot_rules it then s
      else start_roll w True True p l ob \<lparr>it_Quality = 0, it_DisenchantID = 0, it_RequiredDisenchantSkill = 0, it_needDisabled = False\<rparr>
             (of_nat (length (lt_items (loot_at l s)) + i)) it s)"

fun need_loot_items :: "party_world \<Rightarrow> nat \<Rightarrow> nat \<Rightarrow> nat \<Rightarrow> nat list \<Rightarrow> party_state \<Rightarrow> party_state option" where
  "need_loot_items w p l ob [] s = Some s"
| "need_loot_items w p l ob (i # is) s = Option.bind (need_loot_item w p l ob i s) (need_loot_items w p l ob is)"

definition NeedBeforeGreed :: "party_world \<Rightarrow> nat \<Rightarrow> nat \<Rightarrow> nat \<Rightarrow> party_state \<Rightarrow> party_state option" where
  "NeedBeforeGreed w p l ob s =
     map_option (\<lambda>s1. fold (need_loot_quest w p l ob) [0..<length (lt_quest_items (loot_at l s1))] s1)
       (need_loot_items w p l ob [0..<length (lt_items (loot_at l s))] s)"

definition block_item :: "loot_item \<Rightarrow> loot_item" where
  "block_item it = it\<lparr>li_is_blocked := \<not> li_is_underthreshold it\<rparr>"

definition MasterLoot :: "party_world \<Rightarrow> nat \<Rightarrow> nat \<Rightarrow> nat \<Rightarrow> party_state \<Rightarrow> party_state" where
  "MasterLoot w p l ob s =
     (let s1 = on_loot l (\<lambda>lt. lt\<lparr>
            lt_items := map (\<lambda>it. if li_freeforall it then it else block_item it) (lt_items lt),
            lt_quest_items := map (\<lambda>it. if li_follow_loot_rules it then block_item it else it) (lt_quest_items lt)\<rparr>) s;
          looters = map snd (pg_refs (gr p s1));
          near = filter (\<lambda>g. pw_inWorld w g \<and> pw_near w g ob) looters
      in fx (map (\<lambda>g. Send g (SMSG_LOOT_MASTER_LIST (of_nat (length near)) near)) (filter (\<lambda>g. pw_near w g ob) looters)) s1)"

section \<open>The end of a roll\<close>

text \<open>
  The loop over the votes: every vote of the kind draws a number, and the first highest
  number wins.  The accumulator holds the packets, the winner, his number, his vote and the draws.
\<close>

definition draw :: "party_world \<Rightarrow> (RollVote \<Rightarrow> bool) \<Rightarrow> loot_roll \<Rightarrow> guid \<times> RollVote \<Rightarrow>
    party_fx list \<times> guid \<times> uint8 \<times> RollVote \<times> nat \<Rightarrow> party_fx list \<times> guid \<times> uint8 \<times> RollVote \<times> nat" where
  "draw w sel r gv acc =
     (case gv of (g, v) \<Rightarrow> case acc of (es, mg, mr, mv, n) \<Rightarrow>
        if sel v
        then let x = pw_urand w n; es1 = es @ SendLootRoll w 0 g x (vote_value v) r
             in if mr < x then (es1, g, x, v, n + 1) else (es1, mg, mr, mv, n + 1)
        else acc)"

definition roll_off :: "party_world \<Rightarrow> (RollVote \<Rightarrow> bool) \<Rightarrow> loot_roll \<Rightarrow> nat \<Rightarrow>
    party_fx list \<times> guid \<times> uint8 \<times> RollVote \<times> nat" where
  "roll_off w sel r n = fold (draw w sel r) (rl_votes r) ([], fst (hd (rl_votes r)), 0, NOT_VALID, n)"

definition take_item :: "nat \<Rightarrow> uint8 \<Rightarrow> party_state \<Rightarrow> party_state" where
  "take_item l slot s =
     fx [ItemRemoved l slot]
       (on_loot l (\<lambda>lt. (on_slot slot (\<lambda>it. it\<lparr>li_is_looted := True\<rparr>) lt)\<lparr>lt_unlootedCount := lt_unlootedCount lt - 1\<rparr>) s)"

definition unblock_item :: "nat \<Rightarrow> uint8 \<Rightarrow> party_state \<Rightarrow> party_state" where
  "unblock_item l slot s = on_loot l (on_slot slot (\<lambda>it. it\<lparr>li_is_blocked := False\<rparr>)) s"

definition award_item :: "party_world \<Rightarrow> nat \<Rightarrow> loot_roll \<Rightarrow> guid \<Rightarrow> party_state \<Rightarrow> party_state" where
  "award_item w l r g s =
     (let it = slot_item (rl_slot r) (loot_at l s);
          msg = pw_canStore w (ps_fx s) g (rl_itemid r) (li_count it)
      in if msg = EQUIP_ERR_OK
         then fx [Call g (StoreItem (it\<lparr>li_itemid := rl_itemid r, li_is_looted := True\<rparr>))] (take_item l (rl_slot r) s)
         else fx [Call g (EquipError msg (rl_itemid r))] (unblock_item l (rl_slot r) s))"

definition award_disenchant :: "party_world \<Rightarrow> nat \<Rightarrow> loot_roll \<Rightarrow> guid \<Rightarrow> party_state \<Rightarrow> party_state" where
  "award_disenchant w l r g s =
     (let it = slot_item (rl_slot r) (loot_at l s);
          s1 = fx [Call g DisenchantCriteria] (take_item l (rl_slot r) s);
          dis = (case pw_item w (rl_itemid r) of None \<Rightarrow> 0 | Some tm \<Rightarrow> it_DisenchantID tm)
      in if pw_canStore w (ps_fx s1) g (rl_itemid r) (li_count it) = EQUIP_ERR_OK
         then fx [Call g (StoreDisenchanted dis)] s1 else fx [Call g (MailDisenchanted dis)] s1)"

definition erase_roll :: "nat \<Rightarrow> nat \<Rightarrow> party_state \<Rightarrow> party_state" where
  "erase_roll p i = on_gr p (\<lambda>gp. gp\<lparr>pg_rolls := take i (pg_rolls gp) @ drop (Suc i) (pg_rolls gp)\<rparr>)"

definition conclude_need :: "party_world \<Rightarrow> nat \<Rightarrow> loot_roll \<Rightarrow> party_state \<Rightarrow> party_state" where
  "conclude_need w l r s =
     (case roll_off w (\<lambda>v. v = NEED) r (ps_draws s) of (es, g, x, v, n) \<Rightarrow>
        let s1 = fx (es @ SendLootRollWon w 0 g x ROLL_NEED r) (s\<lparr>ps_draws := n\<rparr>)
        in if pw_connected w g \<and> pw_session w g
           then award_item w l r g (fx [Call g (RollWonCriteria True (rl_itemid r) x)] s1) else s1)"

definition conclude_greed :: "party_world \<Rightarrow> nat \<Rightarrow> loot_roll \<Rightarrow> party_state \<Rightarrow> party_state" where
  "conclude_greed w l r s =
     (case roll_off w (\<lambda>v. v = GREED \<or> v = DISENCHANT) r (ps_draws s) of (es, g, x, v, n) \<Rightarrow>
        let s1 = fx (es @ SendLootRollWon w 0 g x (vote_value v) r) (s\<lparr>ps_draws := n\<rparr>)
        in if pw_connected w g \<and> pw_session w g
           then let s2 = fx [Call g (RollWonCriteria False (rl_itemid r) x)] s1
                in if v = GREED then award_item w l r g s2
                   else if v = DISENCHANT then award_disenchant w l r g s2 else s2
           else s1)"

definition CountTheRoll :: "party_world \<Rightarrow> nat \<Rightarrow> nat \<Rightarrow> party_state \<Rightarrow> party_state" where
  "CountTheRoll w p i s =
     (let r = pg_rolls (gr p s) ! i in
      case rl_loot r of None \<Rightarrow> erase_roll p i s
      | Some l \<Rightarrow>
          erase_roll p i
           (if rl_need r > 0 then (if rl_votes r \<noteq> [] then conclude_need w l r s else s)
            else if rl_greed r > 0 then (if rl_votes r \<noteq> [] then conclude_greed w l r s else s)
            else unblock_item l (rl_slot r) (fx (SendLootAllPassed w r) s)))"

section \<open>Votes\<close>

fun find_index :: "('a \<Rightarrow> bool) \<Rightarrow> 'a list \<Rightarrow> nat option" where
  "find_index P [] = None"
| "find_index P (x # xs) = (if P x then Some 0 else map_option Suc (find_index P xs))"

definition GetRoll :: "guid \<Rightarrow> party_group \<Rightarrow> nat option" where
  "GetRoll g gp = find_index (\<lambda>r. rl_itemGUID r = g \<and> rl_loot r \<noteq> None) (pg_rolls gp)"

definition cast_vote :: "uint8 \<Rightarrow> guid \<Rightarrow> loot_roll \<Rightarrow> loot_roll" where
  "cast_vote choice g r =
     (if choice = ROLL_PASS then r\<lparr>rl_pass := rl_pass r + 1, rl_votes := om_put g PASS (rl_votes r)\<rparr>
      else if choice = ROLL_NEED then r\<lparr>rl_need := rl_need r + 1, rl_votes := om_put g NEED (rl_votes r)\<rparr>
      else if choice = ROLL_GREED then r\<lparr>rl_greed := rl_greed r + 1, rl_votes := om_put g GREED (rl_votes r)\<rparr>
      else if choice = ROLL_DISENCHANT then r\<lparr>rl_greed := rl_greed r + 1, rl_votes := om_put g DISENCHANT (rl_votes r)\<rparr>
      else r)"

definition vote_message :: "party_world \<Rightarrow> uint8 \<Rightarrow> guid \<Rightarrow> loot_roll \<Rightarrow> party_fx list" where
  "vote_message w choice g r =
     (if choice = ROLL_PASS then SendLootRoll w 0 g 128 ROLL_PASS r
      else if choice = ROLL_NEED then SendLootRoll w 0 g 0 0 r
      else if choice = ROLL_GREED then SendLootRoll w 0 g 128 ROLL_GREED r
      else if choice = ROLL_DISENCHANT then SendLootRoll w 0 g 128 ROLL_DISENCHANT r
      else [])"

definition all_voted :: "loot_roll \<Rightarrow> bool" where
  "all_voted r \<longleftrightarrow> unat (rl_pass r) + unat (rl_need r) + unat (rl_greed r) \<ge> unat (rl_players r)"

definition CountRollVote :: "party_world \<Rightarrow> nat \<Rightarrow> guid \<Rightarrow> guid \<Rightarrow> uint8 \<Rightarrow> party_state \<Rightarrow> party_state" where
  "CountRollVote w p g itemGuid choice s =
     (case GetRoll itemGuid (gr p s) of None \<Rightarrow> s
      | Some i \<Rightarrow>
          let r = pg_rolls (gr p s) ! i in
          if om_find (rl_votes r) g = None then s
          else if (case rl_loot r of None \<Rightarrow> False | Some l \<Rightarrow> lt_items (loot_at l s) = []) then s
          else let r1 = cast_vote choice g r;
                   s1 = on_gr p (\<lambda>gp. gp\<lparr>pg_rolls := (pg_rolls gp)[i := r1]\<rparr>) (fx (vote_message w choice g r) s)
               in if all_voted r1 then CountTheRoll w p i s1 else s1)"

section \<open>The timer of a loot runs out\<close>

lemma groups_fx [simp]: "ps_groups (fx es s) = ps_groups s"
  by (simp add: fx_def)

lemma groups_on_loot [simp]: "ps_groups (on_loot l f s) = ps_groups s"
  by (simp add: on_loot_def)

lemma gr_on_loot [simp]: "gr p (on_loot l f s) = gr p s"
  by (simp add: gr_def)

lemma gr_draws [simp]: "gr p (s\<lparr>ps_draws := n\<rparr>) = gr p s" and gr_items [simp]: "gr p (s\<lparr>ps_items := gen\<rparr>) = gr p s"
  by (simp_all add: gr_def)

lemma gr_unblock_item [simp]: "gr p (unblock_item l slot s) = gr p s"
  by (simp add: unblock_item_def)

lemma gr_take_item [simp]: "gr p (take_item l slot s) = gr p s"
  by (simp add: take_item_def)

lemma gr_award_item [simp]: "gr p (award_item w l r g s) = gr p s"
  by (simp add: award_item_def Let_def)

lemma gr_award_disenchant [simp]: "gr p (award_disenchant w l r g s) = gr p s"
  by (simp add: award_disenchant_def Let_def)

lemma gr_conclude_need [simp]: "gr p (conclude_need w l r s) = gr p s"
  by (simp add: conclude_need_def Let_def split: prod.split)

lemma gr_conclude_greed [simp]: "gr p (conclude_greed w l r s) = gr p s"
  by (simp add: conclude_greed_def Let_def split: prod.split)

lemma CountTheRoll_group:
  "gr p (CountTheRoll w p i s) =
     (gr p s)\<lparr>pg_rolls := take i (pg_rolls (gr p s)) @ drop (Suc i) (pg_rolls (gr p s))\<rparr>"
  by (simp add: CountTheRoll_def erase_roll_def Let_def split: option.split)

lemma CountTheRoll_length:
  "i < length (pg_rolls (gr p s)) \<Longrightarrow> length (pg_rolls (gr p (CountTheRoll w p i s))) < length (pg_rolls (gr p s))"
  by (simp add: CountTheRoll_group)

lemma find_index_Some:
  "find_index P xs = Some i \<Longrightarrow> i < length xs \<and> P (xs ! i) \<and> (\<forall>j<i. \<not> P (xs ! j))"
proof (induction xs arbitrary: i)
  case (Cons x xs)
  show ?case
  proof (cases "P x")
    case False
    then obtain j where j: "find_index P xs = Some j" "i = Suc j" using Cons.prems by auto
    then show ?thesis using Cons.IH [OF j(1)] False by (auto simp: less_Suc_eq_0_disj)
  qed (use Cons.prems in simp)
qed simp

lemma find_index_None: "find_index P xs = None \<longleftrightarrow> (\<forall>x\<in>set xs. \<not> P x)"
  by (induction xs) auto

text \<open>Every roll of the loot is counted; after each the search starts again at the front.\<close>

function EndRoll :: "party_world \<Rightarrow> nat \<Rightarrow> nat \<Rightarrow> party_state \<Rightarrow> party_state" where
  "EndRoll w p l s =
     (case find_index (\<lambda>r. rl_loot r = Some l) (pg_rolls (gr p s)) of
        None \<Rightarrow> s
      | Some i \<Rightarrow> EndRoll w p l (CountTheRoll w p i s))"
  by pat_completeness auto
termination
  by (relation "measure (\<lambda>(w, p, l, s). length (pg_rolls (gr p s)))")
    (auto dest: find_index_Some intro: CountTheRoll_length)

declare EndRoll.simps [simp del]

section \<open>The counters of a roll\<close>

definition votes_of :: "(RollVote \<Rightarrow> bool) \<Rightarrow> loot_roll \<Rightarrow> nat" where
  "votes_of P r = length (filter (\<lambda>gv. P (snd gv)) (rl_votes r))"

text \<open>The counters are the numbers of the votes, and every voter is in play.\<close>

definition roll_ok :: "loot_roll \<Rightarrow> bool" where
  "roll_ok r \<longleftrightarrow> om_ok (rl_votes r) \<and> length (rl_votes r) < 256 \<and> NOT_VALID \<notin> snd ` set (rl_votes r) \<and>
     unat (rl_players r) = length (rl_votes r) \<and> unat (rl_pass r) = votes_of (\<lambda>v. v = PASS) r \<and>
     unat (rl_need r) = votes_of (\<lambda>v. v = NEED) r \<and> unat (rl_greed r) = votes_of (\<lambda>v. v = GREED \<or> v = DISENCHANT) r"

lemma votes_split:
  assumes "NOT_VALID \<notin> snd ` set vs"
  shows "length vs = length (filter (\<lambda>gv. snd gv = PASS) vs) + length (filter (\<lambda>gv. snd gv = NEED) vs) +
           length (filter (\<lambda>gv. snd gv = GREED \<or> snd gv = DISENCHANT) vs) +
           length (filter (\<lambda>gv. snd gv = NOT_EMITED_YET) vs)"
  using assms
proof (induction vs)
  case (Cons gv vs)
  then show ?case by (cases "snd gv") auto
qed simp

text \<open>The end test of the code says that nobody is left to vote.\<close>

lemma all_voted_iff: "roll_ok r \<Longrightarrow> all_voted r \<longleftrightarrow> NOT_EMITED_YET \<notin> snd ` set (rl_votes r)"
proof -
  assume ok: "roll_ok r"
  have "NOT_EMITED_YET \<notin> snd ` set (rl_votes r) \<longleftrightarrow> filter (\<lambda>gv. snd gv = NOT_EMITED_YET) (rl_votes r) = []"
    by (force simp: filter_empty_conv)
  with ok show ?thesis
    using votes_split [of "rl_votes r"] by (auto simp: roll_ok_def all_voted_def votes_of_def)
qed

text \<open>A vote of a player who has not voted yet moves one voter into the counter of his choice.\<close>

lemma unat_succ: "unat x < 255 \<Longrightarrow> unat (x + 1) = unat x + 1" for x :: uint8
  by (simp add: unat_word_ariths)

lemma cast_vote_ok:
  assumes ok: "roll_ok r" and pending: "om_find (rl_votes r) g = Some NOT_EMITED_YET"
  shows "roll_ok (cast_vote choice g r)"
proof -
  have "(g, NOT_EMITED_YET) \<in> set (rl_votes r)" using pending by (rule om_find_mem)
  then obtain pre suf where vs: "rl_votes r = pre @ (g, NOT_EMITED_YET) # suf" by (meson split_list)
  have omv: "om_ok (pre @ (g, NOT_EMITED_YET) # suf)" using ok vs by (simp add: roll_ok_def)
  have len: "length pre + length suf < 255" using ok vs by (simp add: roll_ok_def)
  have put: "om_put g v (pre @ (g, NOT_EMITED_YET) # suf) = pre @ (g, v) # suf" for v using omv by (rule om_put_present)
  have le: "unat (rl_pass r) < 255" "unat (rl_need r) < 255" "unat (rl_greed r) < 255"
    using ok len vs by (auto simp: roll_ok_def votes_of_def intro: le_less_trans [OF add_mono [OF length_filter_le length_filter_le]])
  have succ: "unat (rl_pass r + 1) = unat (rl_pass r) + 1" "unat (rl_need r + 1) = unat (rl_need r) + 1"
    "unat (rl_greed r + 1) = unat (rl_greed r) + 1"
    using le by (simp_all add: unat_succ)
  note omr = om_ok_replace [OF omv]
  show ?thesis
    using ok len succ omr by (auto simp: cast_vote_def roll_ok_def votes_of_def put vs)
qed

end
