(* ===== verification/GroupRolls.thy ===== *)
theory GroupRolls
  imports GroupLoot
begin

text \<open>
  What the rolls of a group promise: the roll ends with the last vote, need goes before
  greed, the highest number wins, and what becomes of the item; and two ways in which
  the code does not keep these promises.
\<close>

section \<open>The highest number\<close>

text \<open>The voters of the kind, in the order of the vote map: the one at position \<open>k\<close> draws the \<open>k\<close>-th next number.\<close>

definition contenders :: "(RollVote \<Rightarrow> bool) \<Rightarrow> (guid \<times> RollVote) list \<Rightarrow> (guid \<times> RollVote) list" where
  "contenders sel vs = filter (\<lambda>gv. sel (snd gv)) vs"

text \<open>Position \<open>k\<close> of the numbers drawn from \<open>n\<close> on is the first of the highest.\<close>

definition first_best :: "party_world \<Rightarrow> nat \<Rightarrow> nat \<Rightarrow> nat \<Rightarrow> bool" where
  "first_best w n len k \<longleftrightarrow> k < len \<and> (\<forall>j<len. pw_urand w (n + j) \<le> pw_urand w (n + k)) \<and>
     (\<forall>j<k. pw_urand w (n + j) < pw_urand w (n + k))"

fun roll_messages :: "party_world \<Rightarrow> loot_roll \<Rightarrow> nat \<Rightarrow> (guid \<times> RollVote) list \<Rightarrow> party_fx list" where
  "roll_messages w r n [] = []"
| "roll_messages w r n ((g, v) # cs) = SendLootRoll w 0 g (pw_urand w n) (vote_value v) r @ roll_messages w r (n + 1) cs"

lemma draw_step:
  "draw w sel r (g, v) (es, mg, mr, mv, n) =
     (if sel v
      then (let es1 = es @ SendLootRoll w 0 g (pw_urand w n) (vote_value v) r
            in if mr < pw_urand w n then (es1, g, pw_urand w n, v, n + 1) else (es1, mg, mr, mv, n + 1))
      else (es, mg, mr, mv, n))"
  by (simp add: draw_def Let_def)

lemma draw_fold:
  assumes "fold (draw w sel r) vs (es, mg, mr, mv, n) = (es', g, x, v, n')"
  shows "es' = es @ roll_messages w r n (contenders sel vs) \<and> n' = n + length (contenders sel vs) \<and>
    ((\<forall>j<length (contenders sel vs). pw_urand w (n + j) \<le> mr) \<and> (g, x, v) = (mg, mr, mv) \<or>
     (\<exists>k. first_best w n (length (contenders sel vs)) k \<and> mr < pw_urand w (n + k) \<and>
        contenders sel vs ! k = (g, v) \<and> x = pw_urand w (n + k)))"
  using assms
proof (induction vs arbitrary: es mg mr mv n)
  case Nil
  then show ?case by (simp add: contenders_def)
next
  case (Cons gv vs)
  obtain h u where gv: "gv = (h, u)" by fastforce
  show ?case
  proof (cases "sel u")
    case False
    then show ?thesis using Cons.IH [of es mg mr mv n] Cons.prems gv by (simp add: draw_step contenders_def)
  next
    case True
    let ?x = "pw_urand w n" and ?c = "contenders sel vs"
    let ?es = "es @ SendLootRoll w 0 h ?x (vote_value u) r"
    have cs: "contenders sel (gv # vs) = (h, u) # ?c" using True gv by (simp add: contenders_def)
    have split: "(\<forall>j<length ((h, u) # ?c). P j) \<longleftrightarrow> P 0 \<and> (\<forall>j<length ?c. P (Suc j))" for P
      using less_Suc_eq_0_disj by auto
    show ?thesis
    proof (cases "mr < ?x")
      case less: True
      have step: "fold (draw w sel r) vs (?es, h, ?x, u, n + 1) = (es', g, x, v, n')"
        using Cons.prems gv True less by (simp add: draw_step)
      note IH = Cons.IH [OF step]
      have out: "\<exists>k. first_best w n (Suc (length ?c)) k \<and> mr < pw_urand w (n + k) \<and>
          ((h, u) # ?c) ! k = (g, v) \<and> x = pw_urand w (n + k)"
      proof (cases "(\<forall>j<length ?c. pw_urand w (n + 1 + j) \<le> ?x) \<and> (g, x, v) = (h, ?x, u)")
        case True
        then have "first_best w n (Suc (length ?c)) 0"
          unfolding first_best_def using split [of "\<lambda>j. pw_urand w (n + j) \<le> ?x"] by simp
        then show ?thesis using True less by (intro exI [of _ 0]) simp
      next
        case False
        then obtain k where k: "first_best w (n + 1) (length ?c) k" "?x < pw_urand w (n + 1 + k)"
          "?c ! k = (g, v)" "x = pw_urand w (n + 1 + k)" using IH by auto
        have "first_best w n (Suc (length ?c)) (Suc k)"
          using k(1,2) unfolding first_best_def by (auto simp: less_Suc_eq_0_disj)
        then show ?thesis using k less by (intro exI [of _ "Suc k"]) auto
      qed
      show ?thesis unfolding cs using IH out by (simp)
    next
      case ge: False
      have step: "fold (draw w sel r) vs (?es, mg, mr, mv, n + 1) = (es', g, x, v, n')"
        using Cons.prems gv True ge by (simp add: draw_step)
      note IH = Cons.IH [OF step]
      show ?thesis
      proof (cases "(\<forall>j<length ?c. pw_urand w (n + 1 + j) \<le> mr) \<and> (g, x, v) = (mg, mr, mv)")
        case True
        then show ?thesis unfolding cs using IH ge by (auto simp: less_Suc_eq_0_disj)
      next
        case False
        then obtain k where k: "first_best w (n + 1) (length ?c) k" "mr < pw_urand w (n + 1 + k)"
          "?c ! k = (g, v)" "x = pw_urand w (n + 1 + k)" using IH by auto
        have "first_best w n (Suc (length ?c)) (Suc k)"
          using k(1,2) ge unfolding first_best_def by (auto simp: less_Suc_eq_0_disj)
        then have "\<exists>k. first_best w n (Suc (length ?c)) k \<and> mr < pw_urand w (n + k) \<and>
          ((h, u) # ?c) ! k = (g, v) \<and> x = pw_urand w (n + k)" using k by (intro exI [of _ "Suc k"]) auto
        then show ?thesis unfolding cs using IH by (simp)
      qed
    qed
  qed
qed

text \<open>Who takes part in the decision: the needers if there are any, and otherwise the greedy.\<close>

definition in_decision :: "loot_roll \<Rightarrow> RollVote \<Rightarrow> bool" where
  "in_decision r v = (if NEED \<in> snd ` set (rl_votes r) then v = NEED else v = GREED \<or> v = DISENCHANT)"

text \<open>The state in which the winner has been announced.\<close>

definition announced :: "party_world \<Rightarrow> loot_roll \<Rightarrow> nat \<Rightarrow> party_state \<Rightarrow> party_state" where
  "announced w r k s =
     (let cs = contenders (in_decision r) (rl_votes r)
      in fx (roll_messages w r (ps_draws s) cs @
             SendLootRollWon w 0 (fst (cs ! k)) (pw_urand w (ps_draws s + k)) (vote_value (snd (cs ! k))) r)
           (s\<lparr>ps_draws := ps_draws s + length cs\<rparr>))"

definition settled :: "party_world \<Rightarrow> nat \<Rightarrow> loot_roll \<Rightarrow> nat \<Rightarrow> party_state \<Rightarrow> party_state" where
  "settled w l r k s =
     (let g = fst (contenders (in_decision r) (rl_votes r) ! k); v = snd (contenders (in_decision r) (rl_votes r) ! k);
          s1 = announced w r k s;
          s2 = fx [Call g (RollWonCriteria (v = NEED) (rl_itemid r) (pw_urand w (ps_draws s + k)))] s1
      in if pw_connected w g \<and> pw_session w g
         then (if v = DISENCHANT then award_disenchant w l r g s2 else award_item w l r g s2) else s1)"

lemma in_decision_need: "NEED \<in> snd ` set (rl_votes r) \<Longrightarrow> in_decision r = (\<lambda>v. v = NEED)"
  by (auto simp: in_decision_def fun_eq_iff)

lemma in_decision_greed: "NEED \<notin> snd ` set (rl_votes r) \<Longrightarrow> in_decision r = (\<lambda>v. v = GREED \<or> v = DISENCHANT)"
  by (auto simp: in_decision_def fun_eq_iff)

lemma roll_off_winner:
  assumes "contenders sel (rl_votes r) \<noteq> []" and pos: "\<forall>n. 0 < pw_urand w n"
  shows "\<exists>k. first_best w n (length (contenders sel (rl_votes r))) k \<and>
    roll_off w sel r n = (roll_messages w r n (contenders sel (rl_votes r)), fst (contenders sel (rl_votes r) ! k),
      pw_urand w (n + k), snd (contenders sel (rl_votes r) ! k), n + length (contenders sel (rl_votes r)))"
proof -
  obtain es g x v n' where ro: "roll_off w sel r n = (es, g, x, v, n')" by (metis prod_cases5)
  note D = draw_fold [OF ro [unfolded roll_off_def]]
  have "0 < pw_urand w (n + 0)" using pos by blast
  then have "\<not> (\<forall>j<length (contenders sel (rl_votes r)). pw_urand w (n + j) \<le> 0)"
    using assms(1) by (metis length_greater_0_conv leD)
  then obtain k where k: "first_best w n (length (contenders sel (rl_votes r))) k"
    "contenders sel (rl_votes r) ! k = (g, v)" "x = pw_urand w (n + k)" using D by blast
  then show ?thesis using ro D by (intro exI [of _ k]) simp
qed

lemma votes_of_pos: "0 < votes_of P r \<longleftrightarrow> (\<exists>v\<in>snd ` set (rl_votes r). P v)"
  by (force simp: votes_of_def filter_empty_conv)

lemma contender_vote: "k < length (contenders sel vs) \<Longrightarrow> sel (snd (contenders sel vs ! k))"
  using nth_mem [of k "contenders sel vs"] by (auto simp: contenders_def)

lemma CountTheRoll_winner:
  assumes r: "pg_rolls (gr p s) ! i = r" "rl_loot r = Some l" and ok: "roll_ok r"
    and some: "contenders (in_decision r) (rl_votes r) \<noteq> []" and pos: "\<forall>n. 0 < pw_urand w n"
  shows "\<exists>k. first_best w (ps_draws s) (length (contenders (in_decision r) (rl_votes r))) k \<and>
    CountTheRoll w p i s = erase_roll p i (settled w l r k s)"
proof -
  let ?cs = "contenders (in_decision r) (rl_votes r)"
  obtain k where k: "first_best w (ps_draws s) (length ?cs) k"
    "roll_off w (in_decision r) r (ps_draws s) = (roll_messages w r (ps_draws s) ?cs, fst (?cs ! k),
       pw_urand w (ps_draws s + k), snd (?cs ! k), ps_draws s + length ?cs)"
    using roll_off_winner [OF some pos] by blast
  then have "k < length ?cs" by (simp add: first_best_def)
  then have sel: "in_decision r (snd (?cs ! k))" by (rule contender_vote)
  have votes: "rl_votes r \<noteq> []" using some by (auto simp: contenders_def)
  have "CountTheRoll w p i s = erase_roll p i (settled w l r k s)"
  proof (cases "NEED \<in> snd ` set (rl_votes r)")
    case True
    then have "0 < votes_of (\<lambda>v. v = NEED) r" by (simp add: votes_of_pos)
    then have "rl_need r > 0" using ok by (simp add: roll_ok_def word_less_nat_alt)
    then show ?thesis using r votes k(2) sel
      by (simp add: CountTheRoll_def conclude_need_def settled_def announced_def Let_def in_decision_need [OF True])
  next
    case False
    then have "votes_of (\<lambda>v. v = NEED) r = 0" by (force simp: votes_of_def filter_empty_conv)
    then have need: "rl_need r = 0" using ok by (simp add: roll_ok_def unat_eq_zero)
    have "snd (?cs ! k) \<in> snd ` set (rl_votes r)"
      using nth_mem [OF \<open>k < length ?cs\<close>] by (auto simp: contenders_def)
    then have "0 < votes_of (\<lambda>v. v = GREED \<or> v = DISENCHANT) r"
      using sel unfolding votes_of_pos in_decision_greed [OF False] by (rule bexI [rotated])
    then have "rl_greed r > 0" using ok by (simp add: roll_ok_def word_less_nat_alt)
    note k2 = k(2) [unfolded in_decision_greed [OF False]]
    from sel consider "snd (?cs ! k) = GREED" | "snd (?cs ! k) = DISENCHANT"
      by (auto simp: in_decision_greed [OF False])
    then show ?thesis
      using r votes k2 need \<open>rl_greed r > 0\<close> unfolding in_decision_greed [OF False]
      by cases (simp_all add: CountTheRoll_def conclude_greed_def settled_def announced_def Let_def in_decision_greed [OF False])
  qed
  then show ?thesis using k(1) by blast
qed

lemma GetRoll_at:
  "GetRoll ig gp = Some i \<Longrightarrow> i < length (pg_rolls gp) \<and> rl_itemGUID (pg_rolls gp ! i) = ig \<and> rl_loot (pg_rolls gp ! i) \<noteq> None"
  unfolding GetRoll_def by (drule find_index_Some) blast

text \<open>The state after a vote that does not end the roll.\<close>

definition vote_recorded :: "party_world \<Rightarrow> nat \<Rightarrow> nat \<Rightarrow> guid \<Rightarrow> uint8 \<Rightarrow> party_state \<Rightarrow> party_state" where
  "vote_recorded w p i g choice s =
     (let r = pg_rolls (gr p s) ! i
      in on_gr p (\<lambda>gp. gp\<lparr>pg_rolls := (pg_rolls gp)[i := cast_vote choice g r]\<rparr>) (fx (vote_message w choice g r) s))"

lemma CountRollVote_eq:
  assumes "GetRoll ig (gr p s) = Some i" "pg_rolls (gr p s) ! i = r" "rl_loot r = Some l"
    "lt_items (loot_at l s) \<noteq> []" "om_find (rl_votes r) g \<noteq> None"
  shows "CountRollVote w p g ig choice s =
    (if all_voted (cast_vote choice g r) then CountTheRoll w p i (vote_recorded w p i g choice s)
     else vote_recorded w p i g choice s)"
  using assms by (auto simp: CountRollVote_def vote_recorded_def Let_def)

lemma choice_cases:
  fixes choice :: uint8
  assumes "choice \<le> 3"
  shows "choice \<in> {ROLL_PASS, ROLL_NEED, ROLL_GREED, ROLL_DISENCHANT}"
proof -
  have "unat choice \<le> 3" using assms by (simp add: word_le_nat_alt)
  then consider "unat choice = 0" | "unat choice = 1" | "unat choice = 2" | "unat choice = 3" by linarith
  moreover have "choice = word_of_nat (unat choice)" by simp
  ultimately show ?thesis by cases simp_all
qed

lemma cast_vote_votes:
  "choice \<le> 3 \<Longrightarrow> \<exists>v. v \<noteq> NOT_EMITED_YET \<and> rl_votes (cast_vote choice g r) = om_put g v (rl_votes r)"
proof -
  assume "choice \<le> 3"
  then show ?thesis by (auto dest!: choice_cases simp: cast_vote_def)
qed

section \<open>Votes of one player\<close>

lemma find_index_update: "find_index P xs = Some i \<Longrightarrow> P y \<Longrightarrow> find_index P (xs[i := y]) = Some i"
  by (induction xs arbitrary: i) (auto split: if_splits)

lemma cast_vote_frame [simp]:
  "rl_itemGUID (cast_vote choice g r) = rl_itemGUID r" "rl_loot (cast_vote choice g r) = rl_loot r"
  "rl_players (cast_vote choice g r) = rl_players r"
  by (simp_all add: cast_vote_def)

lemma loot_at_fx [simp]: "loot_at l (fx es s) = loot_at l s" and loot_at_gr [simp]: "loot_at l (on_gr p f s) = loot_at l s"
  and loot_at_draws [simp]: "loot_at l (s\<lparr>ps_draws := n\<rparr>) = loot_at l s"
  by (simp_all add: loot_at_def fx_def on_gr_def)

lemma loot_at_erase [simp]: "loot_at l (erase_roll p i s) = loot_at l s"
  by (simp add: erase_roll_def)

lemma vote_recorded_roll:
  assumes "GetRoll ig (gr p s) = Some i"
  shows "GetRoll ig (gr p (vote_recorded w p i g choice s)) = Some i"
    and "pg_rolls (gr p (vote_recorded w p i g choice s)) = (pg_rolls (gr p s))[i := cast_vote choice g (pg_rolls (gr p s) ! i)]"
    and "loot_at l (vote_recorded w p i g choice s) = loot_at l s"
  using GetRoll_at [OF assms] assms
  by (auto simp: vote_recorded_def GetRoll_def Let_def intro: find_index_update)

text \<open>Two players are left; the first votes twice.\<close>

lemma two_votes:
  assumes ok: "roll_ok r" and pending: "om_find (rl_votes r) a = Some NOT_EMITED_YET"
      "om_find (rl_votes r) b = Some NOT_EMITED_YET" "a \<noteq> b"
    and others: "\<forall>h. h \<noteq> a \<longrightarrow> h \<noteq> b \<longrightarrow> om_find (rl_votes r) h \<noteq> Some NOT_EMITED_YET"
  shows "\<not> all_voted (cast_vote ROLL_NEED a r)" and "all_voted (cast_vote ROLL_NEED a (cast_vote ROLL_NEED a r))"
proof -
  have om: "om_ok (rl_votes r)" using ok by (simp add: roll_ok_def)
  let ?open = "filter (\<lambda>gv. snd gv = NOT_EMITED_YET) (rl_votes r)"
  have "set (map fst ?open) = {a, b}"
    using pending others by (force simp: om_find_iff_mem [OF om])
  moreover have "distinct (map fst ?open)" using om_ok_distinct [OF om_ok_filter [OF om]] .
  ultimately have two: "length ?open = 2" using distinct_card [of "map fst ?open"] pending(3) by simp
  have tot: "length (rl_votes r) = unat (rl_pass r) + unat (rl_need r) + unat (rl_greed r) + 2"
    using votes_split [of "rl_votes r"] two ok by (simp add: roll_ok_def votes_of_def)
  have "unat (rl_players r) < 256" "unat (rl_players r) = length (rl_votes r)" using ok by (simp_all add: roll_ok_def)
  then have "unat (rl_need r + 1) = unat (rl_need r) + 1" "unat (2 + rl_need r) = unat (rl_need r) + 2"
    using tot by (simp_all add: unat_word_ariths)
  then show "\<not> all_voted (cast_vote ROLL_NEED a r)" "all_voted (cast_vote ROLL_NEED a (cast_vote ROLL_NEED a r))"
    using tot ok by (simp_all add: all_voted_def cast_vote_def roll_ok_def)
qed

section \<open>Properties\<close>

definition open_votes :: "loot_roll \<Rightarrow> nat" where
  "open_votes r = length (filter (\<lambda>gv. snd gv = NOT_EMITED_YET) (rl_votes r))"

lemma votes_total:
  assumes "roll_ok r"
  shows "unat (rl_pass r) + unat (rl_need r) + unat (rl_greed r) + open_votes r = unat (rl_players r)"
  using votes_split [of "rl_votes r"] assms by (simp add: roll_ok_def votes_of_def open_votes_def)

lemma vote_counted:
  assumes ok: "roll_ok r" and small: "length (rl_votes r) \<le> 40"
  shows "all_voted (cast_vote choice g r) \<longleftrightarrow> open_votes r \<le> (if choice \<le> 3 then 1 else 0)"
proof -
  have len: "unat (rl_players r) \<le> 40" using ok small by (simp add: roll_ok_def)
  then have up: "unat (rl_pass r + 1) = unat (rl_pass r) + 1" "unat (rl_need r + 1) = unat (rl_need r) + 1"
    "unat (rl_greed r + 1) = unat (rl_greed r) + 1"
    using votes_total [OF ok] by (simp_all add: unat_word_ariths)
  show ?thesis
  proof (cases "choice \<le> 3")
    case True
    then have "choice \<in> {ROLL_PASS, ROLL_NEED, ROLL_GREED, ROLL_DISENCHANT}" by (rule choice_cases)
    then show ?thesis using True votes_total [OF ok] up by (auto simp: all_voted_def cast_vote_def)
  next
    case False
    then have "cast_vote choice g r = r" by (auto simp: cast_vote_def)
    moreover have "all_voted r \<longleftrightarrow> open_votes r = 0" using votes_total [OF ok] unfolding all_voted_def by linarith
    ultimately show ?thesis using False by simp
  qed
qed

lemma one_open:
  assumes ok: "roll_ok r" and pending: "om_find (rl_votes r) g = Some NOT_EMITED_YET"
  shows "open_votes r \<le> 1 \<longleftrightarrow> \<not> (\<exists>h. h \<noteq> g \<and> om_find (rl_votes r) h = Some NOT_EMITED_YET)"
proof -
  have om: "om_ok (rl_votes r)" using ok by (simp add: roll_ok_def)
  let ?open = "filter (\<lambda>gv. snd gv = NOT_EMITED_YET) (rl_votes r)"
  have d: "distinct (map fst ?open)" using om_ok_distinct [OF om_ok_filter [OF om]] .
  have S: "set (map fst ?open) = {h. om_find (rl_votes r) h = Some NOT_EMITED_YET}"
    by (force simp: om_find_iff_mem [OF om])
  have card: "open_votes r = card {h. om_find (rl_votes r) h = Some NOT_EMITED_YET}"
    using distinct_card [OF d] unfolding S open_votes_def by simp
  have fin: "finite {h. om_find (rl_votes r) h = Some NOT_EMITED_YET}" unfolding S [symmetric] by simp
  show ?thesis unfolding card One_nat_def card_le_Suc0_iff_eq [OF fin] using pending
    by (metis (mono_tags, lifting) mem_Collect_eq)
qed

lemma CountRollVote_all:
  assumes "GetRoll ig (gr p s) = Some i" "pg_rolls (gr p s) ! i = r" "rl_loot r = Some l"
  shows "CountRollVote w p g ig choice s =
    (if om_find (rl_votes r) g = None \<or> lt_items (loot_at l s) = [] then s
     else if all_voted (cast_vote choice g r) then CountTheRoll w p i (vote_recorded w p i g choice s)
     else vote_recorded w p i g choice s)"
  using assms by (auto simp: CountRollVote_def vote_recorded_def Let_def)

section \<open>A sample roll\<close>

text \<open>Two players roll for the only item of loot 1.\<close>

definition sample_loot_item :: loot_item where
  "sample_loot_item = \<lparr>li_itemid = 50, li_randomSuffix = 0, li_randomPropertyId = 0, li_count = 1, li_is_looted = False,
     li_is_blocked = True, li_freeforall = False, li_is_underthreshold = False, li_follow_loot_rules = False\<rparr>"

definition sample_roll :: "RollVote \<Rightarrow> RollVote \<Rightarrow> loot_roll" where
  "sample_roll x y = (Roll_init 9 sample_loot_item)\<lparr>rl_votes := [(1, x), (2, y)], rl_players := 2,
     rl_need := of_nat (count_list [x, y] NEED), rl_greed := of_nat (count_list [x, y] GREED), rl_loot := Some 1\<rparr>"

definition sample_rolling :: "loot_item list \<Rightarrow> RollVote \<Rightarrow> RollVote \<Rightarrow> party_state" where
  "sample_rolling items x y = \<lparr>ps_groups = [(1, Group_init\<lparr>pg_rolls := [sample_roll x y]\<rparr>)], ps_cur = [], ps_orig = [],
     ps_invite = [], ps_loots = [(1, \<lparr>lt_items = items, lt_quest_items = [sample_loot_item], lt_unlootedCount = 1\<rparr>)],
     ps_items = generator_init HG_Item 1, ps_draws = 0, gm_nextDb = 1, gm_dbStore = [], gm_nextId = 1, gm_store = [],
     gm_stopped = False, ps_fx = []\<rparr>"

section \<open>Properties\<close>

text \<open>C14: What a vote does, whoever sends it and whatever it says, for a roll of at most forty players whose
  counters agree with the votes.  The vote of a player who does not take part is ignored, and so is
  every vote when the loot holds no items; any other is recorded, and ends the roll exactly when at most one player has not
  voted yet (none, for a choice the code does not know).  For a first vote this means that nobody else is left, and the
  counters keep agreeing with the votes.  A second vote is not refused: it counts in the place of the
  player who has not voted.
\<close>

theorem vote_ends_roll:
  assumes roll: "GetRoll ig (gr p s) = Some i" "pg_rolls (gr p s) ! i = r" "rl_loot r = Some l"
    and ok: "roll_ok r" "length (rl_votes r) \<le> MAXRAIDSIZE"
  shows "CountRollVote w p g ig choice s =
    (if om_find (rl_votes r) g = None \<or> lt_items (loot_at l s) = [] then s
     else if open_votes r \<le> (if choice \<le> 3 then 1 else 0) then CountTheRoll w p i (vote_recorded w p i g choice s)
     else vote_recorded w p i g choice s) \<and>
    (om_find (rl_votes r) g = Some NOT_EMITED_YET \<longrightarrow>
       (open_votes r \<le> 1 \<longleftrightarrow> \<not> (\<exists>h. h \<noteq> g \<and> om_find (rl_votes r) h = Some NOT_EMITED_YET)) \<and>
       (choice \<le> 3 \<longrightarrow> roll_ok (cast_vote choice g r)))"
  using CountRollVote_all [OF roll, of w g choice] vote_counted [OF ok] one_open [OF ok(1)] cast_vote_ok [OF ok(1)]
  by auto

lemma vote_ends_roll_witness:
  "CountRollVote sample_party_world 1 1 9 ROLL_NEED (sample_rolling [sample_loot_item] NOT_EMITED_YET NEED) =
     CountTheRoll sample_party_world 1 0
       (vote_recorded sample_party_world 1 0 1 ROLL_NEED (sample_rolling [sample_loot_item] NOT_EMITED_YET NEED))"
proof -
  let ?s = "sample_rolling [sample_loot_item] NOT_EMITED_YET NEED" and ?r = "sample_roll NOT_EMITED_YET NEED"
  have h: "GetRoll 9 (gr 1 ?s) = Some 0" "pg_rolls (gr 1 ?s) ! 0 = ?r" "rl_loot ?r = Some 1" "roll_ok ?r"
    "length (rl_votes ?r) \<le> MAXRAIDSIZE" by code_simp+
  have e: "\<not> (om_find (rl_votes ?r) 1 = None \<or> lt_items (loot_at 1 ?s) = [])" "open_votes ?r \<le> (if ROLL_NEED \<le> 3 then 1 else 0)"
    by code_simp+
  show ?thesis
    using conjunct1 [OF vote_ends_roll [OF h, of sample_party_world 1 ROLL_NEED]] unfolding if_not_P [OF e(1)] if_P [OF e(2)] .
qed

text \<open>C16: When somebody voted need or greed, the roll goes to the first of the highest
  numbers among the needers, or among the greedy if nobody needs; that player gets the item (or,
  for the vote to disenchant, its materials), and the roll is over.
\<close>

theorem roll_winner:
  assumes "pg_rolls (gr p s) ! i = r" "rl_loot r = Some l" "roll_ok r"
    and "contenders (in_decision r) (rl_votes r) \<noteq> []" and "\<forall>n. 0 < pw_urand w n"
  shows "\<exists>k. first_best w (ps_draws s) (length (contenders (in_decision r) (rl_votes r))) k \<and>
    CountTheRoll w p i s = erase_roll p i (settled w l r k s)"
  using assms by (rule CountTheRoll_winner)

lemma roll_winner_witness:
  "CountTheRoll sample_party_world 1 0 (sample_rolling [sample_loot_item] GREED NEED) =
     erase_roll 1 0 (settled sample_party_world 1 (sample_roll GREED NEED) 0 (sample_rolling [sample_loot_item] GREED NEED))"
proof -
  let ?s = "sample_rolling [sample_loot_item] GREED NEED" and ?r = "sample_roll GREED NEED"
  have h: "pg_rolls (gr 1 ?s) ! 0 = ?r" "rl_loot ?r = Some 1" "roll_ok ?r"
    "contenders (in_decision ?r) (rl_votes ?r) \<noteq> []" by code_simp+
  have pos: "\<forall>n. 0 < pw_urand sample_party_world n" by (simp add: sample_party_world_def)
  have "length (contenders (in_decision ?r) (rl_votes ?r)) = 1" by code_simp
  then show ?thesis using roll_winner [OF h pos] by (simp add: first_best_def)
qed

text \<open>C30: Nothing stops a player from voting again: with two players left, the first ends
  the roll by voting twice, and the vote of the second is never waited for.
\<close>

theorem second_vote_counts:
  assumes roll: "GetRoll ig (gr p s) = Some i" "pg_rolls (gr p s) ! i = r" "rl_loot r = Some l"
      "lt_items (loot_at l s) \<noteq> []" and ok: "roll_ok r"
    and pending: "om_find (rl_votes r) a = Some NOT_EMITED_YET" "om_find (rl_votes r) b = Some NOT_EMITED_YET" "a \<noteq> b"
    and others: "\<forall>h. h \<noteq> a \<longrightarrow> h \<noteq> b \<longrightarrow> om_find (rl_votes r) h \<noteq> Some NOT_EMITED_YET"
  shows "pg_rolls (gr p (CountRollVote w p a ig ROLL_NEED (CountRollVote w p a ig ROLL_NEED s))) =
    take i (pg_rolls (gr p s)) @ drop (Suc i) (pg_rolls (gr p s))"
proof -
  let ?s1 = "vote_recorded w p i a ROLL_NEED s" and ?r1 = "cast_vote ROLL_NEED a r"
  note two = two_votes [OF ok pending others]
  have first: "CountRollVote w p a ig ROLL_NEED s = ?s1"
    using CountRollVote_eq [OF roll, of a] pending(1) two(1) by simp
  have i: "i < length (pg_rolls (gr p s))" using GetRoll_at [OF roll(1)] by simp
  have roll1: "GetRoll ig (gr p ?s1) = Some i" "pg_rolls (gr p ?s1) ! i = ?r1" "rl_loot ?r1 = Some l"
    "lt_items (loot_at l ?s1) \<noteq> []" "om_find (rl_votes ?r1) a \<noteq> None"
    using roll i vote_recorded_roll [OF roll(1)] by (simp_all add: cast_vote_def)
  have "CountRollVote w p a ig ROLL_NEED ?s1 = CountTheRoll w p i (vote_recorded w p i a ROLL_NEED ?s1)"
    using CountRollVote_eq [OF roll1] two(2) by simp
  then show ?thesis
    using first vote_recorded_roll(2) [OF roll1(1)] vote_recorded_roll(2) [OF roll(1)] i
    by (simp add: CountTheRoll_group drop_update_cancel)
qed

lemma second_vote_counts_witness:
  "pg_rolls (gr 1 (CountRollVote sample_party_world 1 1 9 ROLL_NEED (CountRollVote sample_party_world 1 1 9 ROLL_NEED
     (sample_rolling [sample_loot_item] NOT_EMITED_YET NOT_EMITED_YET)))) = []"
proof -
  let ?s = "sample_rolling [sample_loot_item] NOT_EMITED_YET NOT_EMITED_YET" and ?r = "sample_roll NOT_EMITED_YET NOT_EMITED_YET"
  have h: "GetRoll 9 (gr 1 ?s) = Some 0" "pg_rolls (gr 1 ?s) ! 0 = ?r" "rl_loot ?r = Some 1" "lt_items (loot_at 1 ?s) \<noteq> []"
    "roll_ok ?r" "om_find (rl_votes ?r) 1 = Some NOT_EMITED_YET" "om_find (rl_votes ?r) 2 = Some NOT_EMITED_YET" "(1::guid) \<noteq> 2"
    by code_simp+
  have "\<forall>h. h \<noteq> 1 \<longrightarrow> h \<noteq> 2 \<longrightarrow> om_find (rl_votes ?r) h \<noteq> Some NOT_EMITED_YET" by (simp add: sample_roll_def)
  moreover have "pg_rolls (gr 1 ?s) = [?r]" by code_simp
  ultimately show ?thesis using second_vote_counts [OF h, where w = sample_party_world] by simp
qed

text \<open>The loot of a roll that holds only quest items counts as gone: every vote on such
  a roll is ignored, and when the timer ends the roll all players have passed.
\<close>

theorem quest_roll_ignores_votes:
  assumes roll: "GetRoll ig (gr p s) = Some i" "pg_rolls (gr p s) ! i = r" "rl_loot r = Some l"
      "lt_items (loot_at l s) = []" and fresh: "rl_need r = 0" "rl_greed r = 0"
  shows "CountTheRoll w p i (fold (\<lambda>(g, choice). CountRollVote w p g ig choice) votes s) =
    erase_roll p i (unblock_item l (rl_slot r) (fx (SendLootAllPassed w r) s))"
proof -
  have "CountRollVote w p g ig choice s = s" for g choice
    using roll by (simp add: CountRollVote_def Let_def)
  then have "fold (\<lambda>(g, choice). CountRollVote w p g ig choice) votes s = s"
    by (induction votes) auto
  then show ?thesis using roll fresh by (simp add: CountTheRoll_def Let_def)
qed

lemma quest_roll_ignores_votes_witness:
  "CountTheRoll sample_party_world 1 0 (fold (\<lambda>(g, choice). CountRollVote sample_party_world 1 g 9 choice) [(1, ROLL_NEED), (2, ROLL_GREED)]
       (sample_rolling [] NOT_EMITED_YET NOT_EMITED_YET)) =
     erase_roll 1 0 (unblock_item 1 0 (fx (SendLootAllPassed sample_party_world (sample_roll NOT_EMITED_YET NOT_EMITED_YET))
       (sample_rolling [] NOT_EMITED_YET NOT_EMITED_YET)))"
proof -
  let ?s = "sample_rolling [] NOT_EMITED_YET NOT_EMITED_YET" and ?r = "sample_roll NOT_EMITED_YET NOT_EMITED_YET"
  have h: "GetRoll 9 (gr 1 ?s) = Some 0" "pg_rolls (gr 1 ?s) ! 0 = ?r" "rl_loot ?r = Some 1" "lt_items (loot_at 1 ?s) = []"
    "rl_need ?r = 0" "rl_greed ?r = 0" by code_simp+
  have "rl_slot ?r = 0" by code_simp
  then show ?thesis
    using quest_roll_ignores_votes [OF h, where w = sample_party_world and votes = "[(1, ROLL_NEED), (2, ROLL_GREED)]"] by (simp only:)
qed

text \<open>A roll won by a player who is not connected ends without giving the item to
  anyone and without unblocking it: it stays in the loot, blocked for everybody.
\<close>

theorem offline_winner_blocks_item:
  assumes roll: "pg_rolls (gr p s) ! i = r" "rl_loot r = Some l" "roll_ok r"
    and some: "contenders (in_decision r) (rl_votes r) \<noteq> []" and pos: "\<forall>n. 0 < pw_urand w n"
    and offline: "list_all (\<lambda>(g, v). \<not> pw_connected w g) (contenders (in_decision r) (rl_votes r))"
  shows "loot_at l (CountTheRoll w p i s) = loot_at l s \<and>
    pg_rolls (gr p (CountTheRoll w p i s)) = take i (pg_rolls (gr p s)) @ drop (Suc i) (pg_rolls (gr p s))"
proof -
  obtain k where k: "first_best w (ps_draws s) (length (contenders (in_decision r) (rl_votes r))) k"
    "CountTheRoll w p i s = erase_roll p i (settled w l r k s)"
    using CountTheRoll_winner [OF roll some pos] by blast
  then have "\<not> pw_connected w (fst (contenders (in_decision r) (rl_votes r) ! k))"
    using offline by (auto simp: first_best_def list_all_length case_prod_unfold)
  then have "loot_at l (settled w l r k s) = loot_at l s" by (simp add: settled_def announced_def Let_def)
  then show ?thesis by (simp add: k(2)) (simp add: CountTheRoll_group flip: k(2))
qed

lemma offline_winner_blocks_item_witness:
  "loot_at 1 (CountTheRoll (sample_party_world\<lparr>pw_connected := \<lambda>g. g \<noteq> 2\<rparr>) 1 0 (sample_rolling [sample_loot_item] GREED NEED)) =
     \<lparr>lt_items = [sample_loot_item], lt_quest_items = [sample_loot_item], lt_unlootedCount = 1\<rparr>"
proof -
  let ?s = "sample_rolling [sample_loot_item] GREED NEED" and ?r = "sample_roll GREED NEED"
  let ?w = "sample_party_world\<lparr>pw_connected := \<lambda>g. g \<noteq> 2\<rparr>"
  have h: "pg_rolls (gr 1 ?s) ! 0 = ?r" "rl_loot ?r = Some 1" "roll_ok ?r"
    "contenders (in_decision ?r) (rl_votes ?r) \<noteq> []" by code_simp+
  have pos: "\<forall>n. 0 < pw_urand ?w n" by (simp add: sample_party_world_def)
  have "list_all (\<lambda>(g, v). \<not> pw_connected ?w g) (contenders (in_decision ?r) (rl_votes ?r))" by code_simp
  moreover have "loot_at 1 ?s = \<lparr>lt_items = [sample_loot_item], lt_quest_items = [sample_loot_item], lt_unlootedCount = 1\<rparr>"
    by code_simp
  ultimately show ?thesis using offline_winner_blocks_item [OF h pos] by simp
qed

end
