(* ===== verification/GroupCore.thy ===== *)
theory GroupCore
  imports GroupLoot
begin

text \<open>
  The members of a group, \<^verbatim>\<open>Group.cpp\<close>, the manager, \<^verbatim>\<open>GroupMgr.cpp\<close>, and the references
  between players and groups (\<^verbatim>\<open>Reference.h\<close>, \<^verbatim>\<open>GroupReference.cpp\<close>, \<^verbatim>\<open>Player.cpp\<close>).
  Operations take the address of the group first, as \<^verbatim>\<open>this\<close>.  The instance saves a group is
  bound to are not modelled: the calls that copy, drop or reset them are effects.
\<close>

section \<open>References\<close>

definition no_ref :: group_ref where
  "no_ref = \<lparr>rf_to = None, rf_sub = 0\<rparr>"

fun ref_of :: "ref_kind \<Rightarrow> guid \<Rightarrow> party_state \<Rightarrow> group_ref" where
  "ref_of CurrentGroup g s = om_at no_ref (ps_cur s) g"
| "ref_of OriginalGroup g s = om_at no_ref (ps_orig s) g"

fun put_ref :: "ref_kind \<Rightarrow> guid \<Rightarrow> group_ref \<Rightarrow> party_state \<Rightarrow> party_state" where
  "put_ref CurrentGroup g r s = s\<lparr>ps_cur := om_put g r (ps_cur s)\<rparr>"
| "put_ref OriginalGroup g r s = s\<lparr>ps_orig := om_put g r (ps_orig s)\<rparr>"

text \<open>\<^verbatim>\<open>delink\<close> takes the element out of the list of its group.\<close>

definition unlink :: "ref_kind \<Rightarrow> guid \<Rightarrow> party_state \<Rightarrow> party_state" where
  "unlink k g s =
     (case rf_to (ref_of k g s) of None \<Rightarrow> s
      | Some q \<Rightarrow> put_ref k g ((ref_of k g s)\<lparr>rf_to := None\<rparr>)
                   (on_gr q (\<lambda>gp. gp\<lparr>pg_refs := filter (\<lambda>x. x \<noteq> (k, g)) (pg_refs gp)\<rparr>) s))"

text \<open>\<^verbatim>\<open>link\<close> drops an old link and puts the reference in front of the list of the new group.\<close>

definition link :: "ref_kind \<Rightarrow> nat \<Rightarrow> guid \<Rightarrow> party_state \<Rightarrow> party_state" where
  "link k q g s =
     (let s1 = unlink k g s
      in on_gr q (\<lambda>gp. gp\<lparr>pg_refs := (k, g) # pg_refs gp\<rparr>) (put_ref k g ((ref_of k g s1)\<lparr>rf_to := Some q\<rparr>) s1))"

definition setSubGroup :: "ref_kind \<Rightarrow> guid \<Rightarrow> uint8 \<Rightarrow> party_state \<Rightarrow> party_state" where
  "setSubGroup k g sub s = put_ref k g ((ref_of k g s)\<lparr>rf_sub := sub\<rparr>) s"

definition GetGroupOf :: "guid \<Rightarrow> party_state \<Rightarrow> nat option" where
  "GetGroupOf g s = rf_to (ref_of CurrentGroup g s)"

definition GetOriginalGroup :: "guid \<Rightarrow> party_state \<Rightarrow> nat option" where
  "GetOriginalGroup g s = rf_to (ref_of OriginalGroup g s)"

text \<open>The setters of the player; \<open>None\<close> is the null group.\<close>

definition PlayerSetGroup :: "guid \<Rightarrow> (nat \<times> uint8) option \<Rightarrow> party_state \<Rightarrow> party_state" where
  "PlayerSetGroup g to s =
     fx [Call g UpdateObjectVisibility]
       (case to of None \<Rightarrow> unlink CurrentGroup g s
        | Some (q, sub) \<Rightarrow> setSubGroup CurrentGroup g sub (link CurrentGroup q g s))"

definition SetOriginalGroup :: "guid \<Rightarrow> (nat \<times> uint8) option \<Rightarrow> party_state \<Rightarrow> party_state" where
  "SetOriginalGroup g to s =
     (case to of None \<Rightarrow> unlink OriginalGroup g s
      | Some (q, sub) \<Rightarrow> setSubGroup OriginalGroup g sub (link OriginalGroup q g s))"

definition SetBattlegroundOrBattlefieldRaid :: "guid \<Rightarrow> nat \<Rightarrow> uint8 \<Rightarrow> party_state \<Rightarrow> party_state" where
  "SetBattlegroundOrBattlefieldRaid g q sub s =
     (let cur = ref_of CurrentGroup g s;
          s1 = SetOriginalGroup g (map_option (\<lambda>x. (x, rf_sub cur)) (rf_to cur)) s
      in setSubGroup CurrentGroup g sub (link CurrentGroup q g (unlink CurrentGroup g s1)))"

definition RemoveFromBattlegroundOrBattlefieldRaid :: "guid \<Rightarrow> party_state \<Rightarrow> party_state" where
  "RemoveFromBattlegroundOrBattlefieldRaid g s =
     (let s1 = unlink CurrentGroup g s; orig = ref_of OriginalGroup g s1;
          s2 = (case rf_to orig of None \<Rightarrow> s1
                | Some q \<Rightarrow> setSubGroup CurrentGroup g (rf_sub orig) (link CurrentGroup q g s1))
      in SetOriginalGroup g None s2)"

definition SetGroupInvite :: "guid \<Rightarrow> nat option \<Rightarrow> party_state \<Rightarrow> party_state" where
  "SetGroupInvite g to s =
     s\<lparr>ps_invite := (case to of None \<Rightarrow> om_erase g (ps_invite s) | Some q \<Rightarrow> om_put g q (ps_invite s))\<rparr>"

section \<open>Accessors\<close>

definition isLFGGroup :: "party_group \<Rightarrow> bool" where
  "isLFGGroup gp \<longleftrightarrow> has_bits (pg_type gp) GROUPTYPE_LFG"

definition isRaidGroup :: "party_group \<Rightarrow> bool" where
  "isRaidGroup gp \<longleftrightarrow> has_bits (pg_type gp) GROUPTYPE_RAID"

definition isBGGroup :: "party_group \<Rightarrow> bool" where
  "isBGGroup gp \<longleftrightarrow> pg_bg gp \<noteq> None"

definition isBFGroup :: "party_group \<Rightarrow> bool" where
  "isBFGroup gp \<longleftrightarrow> pg_bf gp \<noteq> None"

abbreviation stored :: "party_group \<Rightarrow> bool" where
  "stored gp \<equiv> \<not> isBGGroup gp \<and> \<not> isBFGroup gp"

definition GetMembersCount :: "party_group \<Rightarrow> nat" where
  "GetMembersCount gp = length (pg_members gp)"

definition IsCreated :: "party_group \<Rightarrow> bool" where
  "IsCreated gp \<longleftrightarrow> GetMembersCount gp > 0"

definition IsFull :: "party_group \<Rightarrow> bool" where
  "IsFull gp \<longleftrightarrow> (if isRaidGroup gp then length (pg_members gp) \<ge> MAXRAIDSIZE else length (pg_members gp) \<ge> MAXGROUPSIZE)"

definition IsLeader :: "guid \<Rightarrow> party_group \<Rightarrow> bool" where
  "IsLeader g gp \<longleftrightarrow> pg_leaderGuid gp = g"

definition GetLooterGuid :: "party_group \<Rightarrow> guid" where
  "GetLooterGuid gp = (if pg_lootMethod gp = FREE_FOR_ALL then 0 else pg_looter gp)"

definition find_slot :: "guid \<Rightarrow> party_group \<Rightarrow> member_slot option" where
  "find_slot g gp = find (\<lambda>m. sl_guid m = g) (pg_members gp)"

definition IsMember :: "guid \<Rightarrow> party_group \<Rightarrow> bool" where
  "IsMember g gp \<longleftrightarrow> find_slot g gp \<noteq> None"

definition IsAssistant :: "guid \<Rightarrow> party_group \<Rightarrow> bool" where
  "IsAssistant g gp \<longleftrightarrow> (case find_slot g gp of None \<Rightarrow> False | Some m \<Rightarrow> has_bits (sl_flags m) MEMBER_FLAG_ASSISTANT)"

definition GetMemberGUID :: "string \<Rightarrow> party_group \<Rightarrow> guid" where
  "GetMemberGUID name gp = (case find (\<lambda>m. sl_name m = name) (pg_members gp) of None \<Rightarrow> 0 | Some m \<Rightarrow> sl_guid m)"

definition SameSubGroup :: "guid \<Rightarrow> guid \<Rightarrow> party_group \<Rightarrow> bool" where
  "SameSubGroup g h gp \<longleftrightarrow>
     (case find_slot h gp of None \<Rightarrow> False
      | Some m2 \<Rightarrow> (case find_slot g gp of None \<Rightarrow> False | Some m1 \<Rightarrow> sl_group m1 = sl_group m2))"

definition HasFreeSlotSubGroup :: "uint8 \<Rightarrow> party_group \<Rightarrow> bool" where
  "HasFreeSlotSubGroup sub gp \<longleftrightarrow>
     (case pg_counts gp of None \<Rightarrow> False | Some cs \<Rightarrow> unat (cs ! unat sub) < MAXGROUPSIZE)"

definition GetMemberGroup :: "guid \<Rightarrow> party_group \<Rightarrow> uint8" where
  "GetMemberGroup g gp = (case find_slot g gp of None \<Rightarrow> of_nat (MAX_RAID_SUBGROUPS + 1) | Some m \<Rightarrow> sl_group m)"

definition isRollLootActive :: "party_group \<Rightarrow> bool" where
  "isRollLootActive gp \<longleftrightarrow> pg_rolls gp \<noteq> []"

definition GetInvited :: "guid \<Rightarrow> party_group \<Rightarrow> guid option" where
  "GetInvited g gp = find (\<lambda>x. x = g) (pg_invitees gp)"

definition GetInvitedByName :: "party_world \<Rightarrow> string \<Rightarrow> party_group \<Rightarrow> guid option" where
  "GetInvitedByName w name gp = find (\<lambda>x. pw_name w x = name) (pg_invitees gp)"

definition GetDifficulty :: "bool \<Rightarrow> party_group \<Rightarrow> uint8" where
  "GetDifficulty isRaid gp = (if isRaid then pg_raidDifficulty gp else pg_dungeonDifficulty gp)"

section \<open>Slots and counters\<close>

fun upd_slot :: "guid \<Rightarrow> (member_slot \<Rightarrow> member_slot) \<Rightarrow> member_slot list \<Rightarrow> member_slot list" where
  "upd_slot g f [] = []"
| "upd_slot g f (m # ms) = (if sl_guid m = g then f m # ms else m # upd_slot g f ms)"

fun erase_slot :: "guid \<Rightarrow> member_slot list \<Rightarrow> member_slot list" where
  "erase_slot g [] = []"
| "erase_slot g (m # ms) = (if sl_guid m = g then ms else m # erase_slot g ms)"

definition on_slot_of :: "guid \<Rightarrow> (member_slot \<Rightarrow> member_slot) \<Rightarrow> party_group \<Rightarrow> party_group" where
  "on_slot_of g f gp = gp\<lparr>pg_members := upd_slot g f (pg_members gp)\<rparr>"

text \<open>Counters are bytes and wrap; a subgroup outside the array is not written.\<close>

definition SubGroupCounterIncrease :: "uint8 \<Rightarrow> party_group \<Rightarrow> party_group" where
  "SubGroupCounterIncrease sub gp =
     gp\<lparr>pg_counts := map_option (\<lambda>cs. cs[unat sub := cs ! unat sub + 1]) (pg_counts gp)\<rparr>"

definition SubGroupCounterDecrease :: "uint8 \<Rightarrow> party_group \<Rightarrow> party_group" where
  "SubGroupCounterDecrease sub gp =
     gp\<lparr>pg_counts := map_option (\<lambda>cs. cs[unat sub := cs ! unat sub - 1]) (pg_counts gp)\<rparr>"

definition initRaidSubGroupsCounter :: "party_group \<Rightarrow> party_group" where
  "initRaidSubGroupsCounter gp =
     gp\<lparr>pg_counts := Some (fold (\<lambda>m cs. cs[unat (sl_group m) := cs ! unat (sl_group m) + 1]) (pg_members gp)
          (replicate MAX_RAID_SUBGROUPS 0))\<rparr>"

definition ToggleGroupMemberFlag :: "uint8 \<Rightarrow> bool \<Rightarrow> member_slot \<Rightarrow> member_slot" where
  "ToggleGroupMemberFlag flag apply_flag m =
     m\<lparr>sl_flags := (if apply_flag then sl_flags m OR flag else sl_flags m AND NOT flag)\<rparr>"

definition RemoveUniqueGroupMemberFlag :: "uint8 \<Rightarrow> party_group \<Rightarrow> party_group" where
  "RemoveUniqueGroupMemberFlag flag gp =
     gp\<lparr>pg_members := map (\<lambda>m. if has_bits (sl_flags m) flag then m\<lparr>sl_flags := sl_flags m AND NOT flag\<rparr> else m) (pg_members gp)\<rparr>"

section \<open>Messages to the group\<close>

definition BroadcastPacket ::
  "party_world \<Rightarrow> nat \<Rightarrow> party_packet \<Rightarrow> bool \<Rightarrow> uint8 option \<Rightarrow> guid \<Rightarrow> party_state \<Rightarrow> party_state" where
  "BroadcastPacket w p pkt ignorePlayersInBGRaid sub ignored s =
     fx (concat (map (\<lambda>(k, g).
           if ignored \<noteq> 0 \<and> g = ignored \<or> ignorePlayersInBGRaid \<and> GetGroupOf g s \<noteq> Some p then []
           else if pw_session w g \<and> (sub = None \<or> sub = Some (rf_sub (ref_of k g s))) then [Send g pkt] else [])
         (pg_refs (gr p s)))) s"

definition BroadcastReadyCheck :: "party_world \<Rightarrow> nat \<Rightarrow> party_packet \<Rightarrow> party_state \<Rightarrow> party_state" where
  "BroadcastReadyCheck w p pkt s =
     fx (concat (map (\<lambda>(k, g). if pw_session w g \<and> (IsLeader g (gr p s) \<or> IsAssistant g (gr p s)) then [Send g pkt] else [])
         (pg_refs (gr p s)))) s"

definition OfflineReadyCheck :: "party_world \<Rightarrow> nat \<Rightarrow> party_state \<Rightarrow> party_state" where
  "OfflineReadyCheck w p s =
     fold (\<lambda>m. if pw_connected w (sl_guid m) \<and> pw_session w (sl_guid m) then id
               else BroadcastReadyCheck w p (MSG_RAID_READY_CHECK_CONFIRM (sl_guid m) 0))
       (pg_members (gr p s)) s"

definition list_entry_of :: "party_world \<Rightarrow> party_group \<Rightarrow> member_slot \<Rightarrow> list_entry" where
  "list_entry_of w gp m =
     \<lparr>le_name = sl_name m, le_guid = sl_guid m,
      le_online = (if pw_connected w (sl_guid m) \<and> \<not> pw_logout w (sl_guid m) then MEMBER_STATUS_ONLINE else 0) OR
                  (if isBGGroup gp \<or> isBFGroup gp then MEMBER_STATUS_PVP else 0),
      le_group = sl_group m, le_flags = sl_flags m, le_roles = sl_roles m\<rparr>"

definition group_list_of :: "party_world \<Rightarrow> party_group \<Rightarrow> member_slot \<Rightarrow> group_list" where
  "group_list_of w gp slot =
     \<lparr>gl_type = pg_type gp, gl_slot = (sl_group slot, sl_flags slot, sl_roles slot),
      gl_lfg = (if isLFGGroup gp then Some (if pw_lfgFinished w (pg_guid gp) then 2 else 0, pw_lfgDungeon w (pg_guid gp)) else None),
      gl_guid = pg_guid gp, gl_counter = pg_counter gp, gl_count = of_nat (GetMembersCount gp) - 1,
      gl_others = map (list_entry_of w gp) (filter (\<lambda>m. sl_guid m \<noteq> sl_guid slot) (pg_members gp)),
      gl_leader = pg_leaderGuid gp,
      gl_loot = (if GetMembersCount gp = 1 then None
                 else Some (pg_lootMethod gp, if pg_lootMethod gp = MASTER_LOOT then pg_masterLooter gp else 0, pg_threshold gp,
                            pg_dungeonDifficulty gp, pg_raidDifficulty gp, pg_raidDifficulty gp \<ge> 2))\<rparr>"

definition SendUpdateToPlayer :: "party_world \<Rightarrow> nat \<Rightarrow> guid \<Rightarrow> member_slot option \<Rightarrow> party_state \<Rightarrow> party_state" where
  "SendUpdateToPlayer w p g slot s =
     (if \<not> pw_connected w g \<or> \<not> pw_session w g \<or> GetGroupOf g s \<noteq> Some p then s
      else case (if slot = None then find_slot g (gr p s) else slot) of None \<Rightarrow> s
        | Some m \<Rightarrow> on_gr p (\<lambda>gp. gp\<lparr>pg_counter := pg_counter gp + 1\<rparr>)
                      (fx [Send g (SMSG_GROUP_LIST (group_list_of w (gr p s) m))] s))"

definition SendUpdate :: "party_world \<Rightarrow> nat \<Rightarrow> party_state \<Rightarrow> party_state" where
  "SendUpdate w p s = fold (\<lambda>m. SendUpdateToPlayer w p (sl_guid m) (Some m)) (pg_members (gr p s)) s"

definition UpdatePlayerOutOfRange :: "party_world \<Rightarrow> nat \<Rightarrow> guid \<Rightarrow> party_state \<Rightarrow> party_state" where
  "UpdatePlayerOutOfRange w p g s =
     (if \<not> pw_inWorld w g then s
      else fx (concat (map (\<lambda>(k, h). if h \<noteq> g \<and> pw_outOfRange w h g then [Send h (SMSG_PARTY_MEMBER_STATS g)] else [])
                 (pg_refs (gr p s)))) s)"

definition BroadcastGroupUpdate :: "party_world \<Rightarrow> nat \<Rightarrow> party_state \<Rightarrow> party_state" where
  "BroadcastGroupUpdate w p s =
     fx (concat (map (\<lambda>m. if FindPlayer w (sl_guid m) then [Call (sl_guid m) ForceGroupValues] else []) (pg_members (gr p s)))) s"

definition SendLooter :: "party_world \<Rightarrow> nat \<Rightarrow> nat \<Rightarrow> guid option \<Rightarrow> party_state \<Rightarrow> party_state" where
  "SendLooter w p creature looter s =
     BroadcastPacket w p
       (SMSG_LOOT_LIST creature
          (if pg_lootMethod (gr p s) = MASTER_LOOT \<and> pw_overThreshold w creature then Some (pg_masterLooter (gr p s)) else None)
          looter) False None 0 s"

section \<open>The manager\<close>

definition mgr_init :: "guid_generator \<Rightarrow> party_state" where
  "mgr_init gen = \<lparr>ps_groups = [], ps_cur = [], ps_orig = [], ps_invite = [], ps_loots = [], ps_items = gen, ps_draws = 0,
     gm_nextDb = 1, gm_dbStore = [], gm_nextId = 1, gm_store = [], gm_stopped = False, ps_fx = []\<rparr>"

text \<open>The loop from \<open>i\<close> on: the first free place of the pool below \<open>2 ^ 32 - 1\<close>.\<close>

function free_slot :: "nat option list \<Rightarrow> uint32 \<Rightarrow> uint32 option" where
  "free_slot store i =
     (if i < 0xFFFFFFFF
      then (if unat i < length store \<and> store ! unat i = None \<or> unat i \<ge> length store then Some i else free_slot store (i + 1))
      else None)"
  by pat_completeness auto
termination
proof (relation "measure (\<lambda>(store, i). 2 ^ 32 - unat i)")
  fix store :: "nat option list" and i :: uint32
  assume "i < 0xFFFFFFFF"
  then have "unat i < 0xFFFFFFFF" by (simp add: word_less_nat_alt)
  then show "((store, i + 1), store, i) \<in> measure (\<lambda>(store, i). 2 ^ 32 - unat i)" by (simp add: unat_word_ariths)
qed simp

declare free_slot.simps [simp del]

definition GenerateNewGroupDbStoreId :: "party_state \<Rightarrow> uint32 \<times> party_state" where
  "GenerateNewGroupDbStoreId s =
     (let new = gm_nextDb s; next1 = new + 1;
          next2 = (case free_slot (gm_dbStore s) next1 of None \<Rightarrow> next1 | Some i \<Rightarrow> i);
          s1 = s\<lparr>gm_nextDb := next2\<rparr>
      in (new, if new = next2 then s1\<lparr>gm_stopped := True\<rparr> else s1))"

definition RegisterGroupDbStoreId :: "uint32 \<Rightarrow> nat \<Rightarrow> party_state \<Rightarrow> party_state" where
  "RegisterGroupDbStoreId sid p s =
     (let store = (if unat sid \<ge> length (gm_dbStore s)
                   then gm_dbStore s @ replicate (unat sid + 1 - length (gm_dbStore s)) None else gm_dbStore s)
      in s\<lparr>gm_dbStore := store[unat sid := Some p]\<rparr>)"

definition FreeGroupDbStoreId :: "nat \<Rightarrow> party_state \<Rightarrow> party_state" where
  "FreeGroupDbStoreId p s =
     (let sid = pg_dbId (gr p s)
      in s\<lparr>gm_nextDb := (if sid < gm_nextDb s then sid else gm_nextDb s), gm_dbStore := (gm_dbStore s)[unat sid := None]\<rparr>)"

definition GetGroupByDbStoreId :: "uint32 \<Rightarrow> party_state \<Rightarrow> nat option" where
  "GetGroupByDbStoreId sid s = (if unat sid < length (gm_dbStore s) then gm_dbStore s ! unat sid else None)"

definition GenerateGroupId :: "party_state \<Rightarrow> uint32 \<times> party_state" where
  "GenerateGroupId s =
     (let s1 = (if gm_nextId s \<ge> 0xFFFFFFFE then s\<lparr>gm_stopped := True\<rparr> else s)
      in (gm_nextId s, s1\<lparr>gm_nextId := gm_nextId s + 1\<rparr>))"

definition GetLowGUID :: "party_group \<Rightarrow> uint32" where
  "GetLowGUID gp = GetCounter (pg_guid gp)"

definition GetGroupByGUID :: "uint32 \<Rightarrow> party_state \<Rightarrow> nat option" where
  "GetGroupByGUID i s = om_find (gm_store s) i"

definition AddGroup :: "nat \<Rightarrow> party_state \<Rightarrow> party_state" where
  "AddGroup p s = s\<lparr>gm_store := om_put (GetLowGUID (gr p s)) p (gm_store s)\<rparr>"

definition RemoveGroup :: "nat \<Rightarrow> party_state \<Rightarrow> party_state" where
  "RemoveGroup p s = s\<lparr>gm_store := om_erase (GetLowGUID (gr p s)) (gm_store s)\<rparr>"

end
