(* ===== verification/GroupMembers.thy ===== *)
theory GroupMembers
  imports GroupCore
begin

text \<open>
  The operations that change who is in a group and what he is there,
  \<^verbatim>\<open>src/src/server/game/Groups/Group.cpp\<close>: creation and loading, invitations, adding and
  removing members, the leader, subgroups, flags, target icons, and disbanding.
\<close>

section \<open>Loading\<close>

record group_row =
  gw_leader :: uint32
  gw_lootMethod :: uint8
  gw_looter :: uint32
  gw_threshold :: uint8
  gw_icons :: "guid list"
  gw_type :: uint8
  gw_difficulty :: uint8
  gw_raidDifficulty :: uint8
  gw_masterLooter :: uint32
  gw_dbId :: uint32

text \<open>A leader without a name ends the loading early: the rest keeps its defaults.\<close>

definition LoadGroupFromDB :: "party_world \<Rightarrow> nat \<Rightarrow> group_row \<Rightarrow> party_state \<Rightarrow> party_state" where
  "LoadGroupFromDB w p row s =
     (case GenerateGroupId s of (c, s1) \<Rightarrow>
        let leader = Global HG_Player (gw_leader row);
            s2 = on_gr p (\<lambda>gp. gp\<lparr>pg_dbId := gw_dbId row, pg_guid := Global HG_Group c, pg_leaderGuid := leader\<rparr>) s1
        in case pw_dbName w leader of None \<Rightarrow> s2
           | Some name \<Rightarrow>
               let s3 = on_gr p (\<lambda>gp. let gp1 = gp\<lparr>pg_leaderName := name, pg_lootMethod := gw_lootMethod row,
                          pg_looter := Global HG_Player (gw_looter row), pg_threshold := gw_threshold row,
                          pg_icons := gw_icons row, pg_type := gw_type row\<rparr>;
                          gp2 = (if has_bits (gw_type row) GROUPTYPE_RAID then initRaidSubGroupsCounter gp1 else gp1)
                        in gp2\<lparr>pg_dungeonDifficulty := (if gw_difficulty row \<ge> 3 then 0 else gw_difficulty row),
                               pg_raidDifficulty := (if gw_raidDifficulty row \<ge> 4 then 0 else gw_raidDifficulty row),
                               pg_masterLooter := Global HG_Player (gw_masterLooter row)\<rparr>) s2
               in if has_bits (gw_type row) GROUPTYPE_LFG then fx [LfgLoad (pg_guid (gr p s3))] s3 else s3)"

definition push_slot :: "member_slot \<Rightarrow> party_group \<Rightarrow> party_group" where
  "push_slot m gp = SubGroupCounterIncrease (sl_group m) (gp\<lparr>pg_members := pg_members gp @ [m]\<rparr>)"

definition LoadMemberFromDB ::
  "party_world \<Rightarrow> nat \<Rightarrow> uint32 \<Rightarrow> uint8 \<Rightarrow> uint8 \<Rightarrow> uint8 \<Rightarrow> party_state \<Rightarrow> party_state" where
  "LoadMemberFromDB w p guidLow flags sub roles s =
     (let g = Global HG_Player guidLow in
      case pw_dbName w g of None \<Rightarrow> fx [Sql (CHAR_DEL_GROUP_MEMBER guidLow)] s
      | Some name \<Rightarrow>
          fx [SetupLfgMember g (pg_guid (gr p s))]
            (on_gr p (push_slot \<lparr>sl_guid = g, sl_name = name, sl_group = sub, sl_flags = flags, sl_roles = roles\<rparr>) s))"

text \<open>\<^verbatim>\<open>GroupMgr::LoadGroups\<close>: the groups in the order of their ids, then the members.\<close>

definition load_group :: "party_world \<Rightarrow> nat \<times> group_row \<Rightarrow> party_state \<Rightarrow> party_state" where
  "load_group w pr s =
     (case pr of (p, row) \<Rightarrow>
        let s1 = AddGroup p (LoadGroupFromDB w p row (new_group p s));
            sid = pg_dbId (gr p s1);
            s2 = RegisterGroupDbStoreId sid p s1
        in if sid = gm_nextDb s2 then s2\<lparr>gm_nextDb := gm_nextDb s2 + 1\<rparr> else s2)"

definition load_member :: "party_world \<Rightarrow> uint32 \<times> uint32 \<times> uint8 \<times> uint8 \<times> uint8 \<Rightarrow> party_state \<Rightarrow> party_state" where
  "load_member w row s =
     (case row of (sid, guidLow, flags, sub, roles) \<Rightarrow>
        case GetGroupByDbStoreId sid s of None \<Rightarrow> s
        | Some p \<Rightarrow> LoadMemberFromDB w p guidLow flags sub roles s)"

text \<open>The rows are what the two queries return, \<open>fresh\<close> the address each new group gets.  Without groups no member is read.\<close>

type_synonym member_row = "uint32 \<times> uint32 \<times> uint8 \<times> uint8 \<times> uint8"

definition LoadGroups :: "party_world \<Rightarrow> (nat \<times> group_row) list \<Rightarrow> member_row list \<Rightarrow> party_state \<Rightarrow> party_state" where
  "LoadGroups w group_rows member_rows s =
     (if group_rows = [] then s else fold (load_member w) member_rows (fold (load_group w) group_rows s))"

section \<open>Invitations\<close>

definition RemoveInvite :: "nat \<Rightarrow> guid \<Rightarrow> party_state \<Rightarrow> party_state" where
  "RemoveInvite p g s = SetGroupInvite g None (on_gr p (\<lambda>gp. gp\<lparr>pg_invitees := os_erase g (pg_invitees gp)\<rparr>) s)"

definition AddInvite :: "nat \<Rightarrow> guid \<Rightarrow> party_state \<Rightarrow> bool \<times> party_state" where
  "AddInvite p g s =
     (if om_find (ps_invite s) g \<noteq> None then (False, s)
      else let cur = GetGroupOf g s;
               own = (case cur of None \<Rightarrow> None
                      | Some q \<Rightarrow> if isBGGroup (gr q s) \<or> isBFGroup (gr q s) then GetOriginalGroup g s else Some q)
           in if own \<noteq> None then (False, s)
              else let s1 = RemoveInvite p g s;
                       s2 = on_gr p (\<lambda>gp. gp\<lparr>pg_invitees := os_insert g (pg_invitees gp)\<rparr>) s1
                   in (True, fx [InviteHook (pg_guid (gr p s2)) g] (SetGroupInvite g (Some p) s2)))"

definition AddLeaderInvite :: "party_world \<Rightarrow> nat \<Rightarrow> guid \<Rightarrow> party_state \<Rightarrow> bool \<times> party_state" where
  "AddLeaderInvite w p g s =
     (case AddInvite p g s of (ok, s1) \<Rightarrow>
        if \<not> ok then (False, s1)
        else (True, on_gr p (\<lambda>gp. gp\<lparr>pg_leaderGuid := g, pg_leaderName := pw_name w g\<rparr>) s1))"

definition RemoveAllInvites :: "nat \<Rightarrow> party_state \<Rightarrow> party_state" where
  "RemoveAllInvites p s =
     on_gr p (\<lambda>gp. gp\<lparr>pg_invitees := []\<rparr>) (fold (\<lambda>g. SetGroupInvite g None) (pg_invitees (gr p s)) s)"

section \<open>Adding a member\<close>

definition first_subgroup :: "uint8 list \<Rightarrow> nat option" where
  "first_subgroup cs = find (\<lambda>i. unat (cs ! i) < MAXGROUPSIZE) [0..<MAX_RAID_SUBGROUPS]"

definition link_member :: "nat \<Rightarrow> guid \<Rightarrow> uint8 \<Rightarrow> party_state \<Rightarrow> party_state" where
  "link_member p g sub s =
     (if GetGroupOf g s \<noteq> None
      then (if isBGGroup (gr p s) \<or> isBFGroup (gr p s) then SetBattlegroundOrBattlefieldRaid g p sub s
            else SetOriginalGroup g (Some (p, sub)) s)
      else PlayerSetGroup g (Some (p, sub)) s)"

text \<open>A new member of a group that is not a battleground group takes over its difficulties.\<close>

definition adopt_difficulty :: "party_world \<Rightarrow> guid \<Rightarrow> party_group \<Rightarrow> party_fx list" where
  "adopt_difficulty w g gp =
     (if \<not> IsLeader g gp \<and> stored gp
      then [Call g (ResetPlayerInstances False), Call g (ResetPlayerInstances True)] @
           (if unat (pw_level w g) \<ge> 70
            then (if pw_dungeonDifficulty w g \<noteq> pg_dungeonDifficulty gp then [Call g (PutDungeonDifficulty (pg_dungeonDifficulty gp))] else []) @
                 (if pw_raidDifficulty w g \<noteq> pg_raidDifficulty gp then [Call g (PutRaidDifficulty (pg_raidDifficulty gp))] else [])
            else [])
      else [])"

text \<open>The party fields of the others for the new member, and his fields for those who see him.\<close>

definition share_fields :: "party_world \<Rightarrow> guid \<Rightarrow> party_group \<Rightarrow> party_fx list" where
  "share_fields w g gp =
     (let others = filter (\<lambda>h. h \<noteq> g) (map snd (pg_refs gp));
          seen = filter (\<lambda>h. pw_atClient w g h) others
      in map (\<lambda>h. Send h (SMSG_UPDATE_FIELDS [g])) (filter (\<lambda>h. pw_atClient w h g) others) @
         (if seen = [] then [] else [Send g (SMSG_UPDATE_FIELDS seen)]))"

definition note_enchanter :: "party_world \<Rightarrow> guid \<Rightarrow> party_group \<Rightarrow> party_group" where
  "note_enchanter w g gp =
     (if pg_maxEnchanting gp < ucast (pw_enchanting w g) then gp\<lparr>pg_maxEnchanting := ucast (pw_enchanting w g)\<rparr> else gp)"

definition new_slot :: "party_world \<Rightarrow> guid \<Rightarrow> uint8 \<Rightarrow> member_slot" where
  "new_slot w g sub = \<lparr>sl_guid = g, sl_name = pw_name w g, sl_group = sub, sl_flags = 0, sl_roles = 0\<rparr>"

definition join_party :: "party_world \<Rightarrow> nat \<Rightarrow> guid \<Rightarrow> uint8 \<Rightarrow> party_state \<Rightarrow> party_state" where
  "join_party w p g sub s =
     (let s1 = SetGroupInvite g None (on_gr p (push_slot (new_slot w g sub)) s);
          s2 = fx [Call g CheckInstanceValidity] (link_member p g sub s1);
          s3 = (if isRaidGroup (gr p s2) then s2 else on_gr p (\<lambda>gp. gp\<lparr>pg_icons := replicate TARGETICONCOUNT 0\<rparr>) s2);
          s4 = (if stored (gr p s3)
                then fx [Sql (CHAR_INS_GROUP_MEMBER (pg_dbId (gr p s3)) (GetCounter g) 0 sub 0)] s3 else s3);
          s5 = SendUpdate w p s4;
          s6 = fx (Hook (LfgMgr.AddMember (pg_guid (gr p s5)) g (pg_leaderGuid (gr p s5))) #
                   adopt_difficulty w g (gr p s5) @ [Call g FullGroupUpdate]) s5;
          s7 = UpdatePlayerOutOfRange w p g s6;
          s8 = fx ((if isRaidGroup (gr p s7) then [Call g UpdateForQuestWorldObjects] else []) @ share_fields w g (gr p s7)) s7
      in on_gr p (note_enchanter w g) s8)"

definition Group_AddMember :: "party_world \<Rightarrow> nat \<Rightarrow> guid \<Rightarrow> party_state \<Rightarrow> bool \<times> party_state" where
  "Group_AddMember w p g s =
     (case pg_counts (gr p s) of None \<Rightarrow> (True, join_party w p g 0 s)
      | Some cs \<Rightarrow>
          (case first_subgroup cs of None \<Rightarrow> (False, s)
           | Some sub \<Rightarrow> (True, join_party w p g (of_nat sub) s)))"

section \<open>Creation\<close>

definition group_row_sql :: "party_group \<Rightarrow> group_sql" where
  "group_row_sql gp =
     CHAR_INS_GROUP (pg_dbId gp) (GetCounter (pg_leaderGuid gp)) (pg_lootMethod gp) (GetCounter (pg_looter gp)) (pg_threshold gp)
       (pg_icons gp) (pg_type gp) (pg_dungeonDifficulty gp) (pg_raidDifficulty gp) (GetCounter (pg_masterLooter gp))"

text \<open>The settings of a new group: its kind, its counters and its loot rules.\<close>

definition found_settings :: "guid \<Rightarrow> party_group \<Rightarrow> party_group" where
  "found_settings g gp =
     (let gp1 = (if isBGGroup gp \<or> isBFGroup gp then gp\<lparr>pg_type := GROUPTYPE_BGRAID\<rparr> else gp);
          gp2 = (if isRaidGroup gp1 then initRaidSubGroupsCounter gp1 else gp1);
          gp3 = (if isLFGGroup gp2 then gp2 else gp2\<lparr>pg_lootMethod := GROUP_LOOT\<rparr>)
      in gp3\<lparr>pg_threshold := ITEM_QUALITY_UNCOMMON, pg_looter := g, pg_masterLooter := 0,
             pg_dungeonDifficulty := 0, pg_raidDifficulty := 0\<rparr>)"

text \<open>The state before the leader becomes a member; for a stored group, with the row in the database.\<close>

definition found_group :: "party_world \<Rightarrow> nat \<Rightarrow> guid \<Rightarrow> party_state \<Rightarrow> party_state" where
  "found_group w p g s =
     (let (c, s1) = GenerateGroupId s;
          s2 = fx [Call g (GroupLeaderFlag True)]
                 (on_gr p (\<lambda>gp. gp\<lparr>pg_guid := Global HG_Group c, pg_leaderGuid := g, pg_leaderName := pw_name w g\<rparr>) s1);
          s3 = on_gr p (found_settings g) s2
      in if stored (gr p s3)
         then let (sid, s4) = GenerateNewGroupDbStoreId
                    (on_gr p (\<lambda>gp. gp\<lparr>pg_dungeonDifficulty := pw_dungeonDifficulty w g,
                                      pg_raidDifficulty := pw_raidDifficulty w g\<rparr>) s3);
                  s5 = RegisterGroupDbStoreId sid p (on_gr p (\<lambda>gp. gp\<lparr>pg_dbId := sid\<rparr>) s4)
              in fx [Sql (group_row_sql (gr p s5)), ConvertLeaderInstances g False] s5
         else s3)"

text \<open>\<^verbatim>\<open>ASSERT(AddMember(leader))\<close> stops the server when the leader of a stored group cannot be added.\<close>

definition Group_Create :: "party_world \<Rightarrow> nat \<Rightarrow> guid \<Rightarrow> party_state \<Rightarrow> bool \<times> party_state" where
  "Group_Create w p g s = Group_AddMember w p g (found_group w p g s)"

section \<open>Kinds of group\<close>

definition ConvertToLFG :: "party_world \<Rightarrow> nat \<Rightarrow> party_state \<Rightarrow> party_state" where
  "ConvertToLFG w p s =
     (let s1 = on_gr p (\<lambda>gp. gp\<lparr>pg_type := pg_type gp OR GROUPTYPE_LFG OR GROUPTYPE_LFG_RESTRICTED,
                                pg_lootMethod := NEED_BEFORE_GREED\<rparr>) s;
          s2 = (if stored (gr p s1) then fx [Sql (CHAR_UPD_GROUP_TYPE (pg_type (gr p s1)) (pg_dbId (gr p s1)))] s1 else s1)
      in SendUpdate w p s2)"

definition ConvertToRaid :: "party_world \<Rightarrow> nat \<Rightarrow> party_state \<Rightarrow> party_state" where
  "ConvertToRaid w p s =
     (let s1 = on_gr p (\<lambda>gp. initRaidSubGroupsCounter (gp\<lparr>pg_type := pg_type gp OR GROUPTYPE_RAID\<rparr>)) s;
          s2 = (if stored (gr p s1) then fx [Sql (CHAR_UPD_GROUP_TYPE (pg_type (gr p s1)) (pg_dbId (gr p s1)))] s1 else s1);
          s3 = SendUpdate w p s2
      in fx (concat (map (\<lambda>m. if FindPlayer w (sl_guid m) then [Call (sl_guid m) UpdateForQuestWorldObjects] else [])
               (pg_members (gr p s3)))) s3)"

definition SetBattlegroundGroup :: "nat \<Rightarrow> nat option \<Rightarrow> party_state \<Rightarrow> party_state" where
  "SetBattlegroundGroup p bg = on_gr p (\<lambda>gp. gp\<lparr>pg_bg := bg\<rparr>)"

definition SetBattlefieldGroup :: "nat \<Rightarrow> nat option \<Rightarrow> party_state \<Rightarrow> party_state" where
  "SetBattlefieldGroup p bf = on_gr p (\<lambda>gp. gp\<lparr>pg_bf := bf\<rparr>)"

section \<open>The leader\<close>

definition Group_ChangeLeader :: "party_world \<Rightarrow> nat \<Rightarrow> guid \<Rightarrow> party_state \<Rightarrow> party_state" where
  "Group_ChangeLeader w p g s =
     (case find_slot g (gr p s) of None \<Rightarrow> s
      | Some m \<Rightarrow>
          if \<not> pw_connected w g then s
          else let old = pg_leaderGuid (gr p s);
                   s1 = fx (Hook (LfgMgr.ChangeLeader (pg_guid (gr p s)) g) #
                            (if stored (gr p s)
                             then [DropPermanentBinds, ConvertLeaderInstances g True,
                                   Sql (CHAR_UPD_GROUP_LEADER (GetCounter g) (pg_dbId (gr p s)))] else []) @
                            (if pw_connected w old then [Call old (GroupLeaderFlag False)] else []) @
                            [Call g (GroupLeaderFlag True)]) s;
                   s2 = on_gr p (\<lambda>gp. on_slot_of g (ToggleGroupMemberFlag MEMBER_FLAG_ASSISTANT False)
                                  (gp\<lparr>pg_leaderGuid := g, pg_leaderName := pw_name w g\<rparr>)) s1
               in BroadcastPacket w p (SMSG_GROUP_SET_LEADER (sl_name m)) True None 0 s2)"

section \<open>Disbanding\<close>

text \<open>The destructor clears the references that still point to the group.\<close>

definition delete_group :: "nat \<Rightarrow> party_state \<Rightarrow> party_state" where
  "delete_group p s =
     (let s1 = (case pg_bg (gr p s) of None \<Rightarrow> s | Some b \<Rightarrow> fx [ClearBgRaid b] s);
          s2 = fold (\<lambda>(k, g) s. put_ref k g ((ref_of k g s)\<lparr>rf_to := None\<rparr>) s) (pg_refs (gr p s1)) s1
      in s2\<lparr>ps_groups := om_erase p (ps_groups s2)\<rparr>)"

definition homebindIfInstance :: "party_world \<Rightarrow> guid \<Rightarrow> party_fx list" where
  "homebindIfInstance w g = (if \<not> pw_gm w g \<and> pw_inDungeonMap w g then [Call g InvalidateInstance] else [])"

definition leave_group :: "nat \<Rightarrow> guid \<Rightarrow> party_state \<Rightarrow> party_state" where
  "leave_group p g s =
     (if isBGGroup (gr p s) \<or> isBFGroup (gr p s) then RemoveFromBattlegroundOrBattlefieldRaid g s
      else if GetOriginalGroup g s = Some p then SetOriginalGroup g None s else PlayerSetGroup g None s)"

definition disband_member :: "party_world \<Rightarrow> nat \<Rightarrow> bool \<Rightarrow> member_slot \<Rightarrow> party_state \<Rightarrow> party_state" where
  "disband_member w p hideDestroy m s =
     (let g = sl_guid m in
      if \<not> pw_connected w g then s
      else let s1 = leave_group p g s;
               s2 = (if isRaidGroup (gr p s1) then fx [Call g UpdateForQuestWorldObjects] s1 else s1)
           in if \<not> pw_session w g then s2
              else let s3 = (if hideDestroy then s2 else fx [Send g SMSG_GROUP_DESTROYED] s2);
                       s4 = (case GetGroupOf g s3 of
                               Some q \<Rightarrow> SendUpdate w q s3
                             | None \<Rightarrow> fx [Send g (SMSG_GROUP_LIST_LEFT (pg_guid (gr p s3)) (pg_counter (gr p s3)))] s3)
                   in fx (homebindIfInstance w g) s4)"

definition Group_Disband :: "party_world \<Rightarrow> nat \<Rightarrow> bool \<Rightarrow> party_state \<Rightarrow> party_state" where
  "Group_Disband w p hideDestroy s =
     (let s1 = fx [Hook (LfgMgr.Disband (pg_guid (gr p s)))] s;
          s2 = fold (disband_member w p hideDestroy) (pg_members (gr p s1)) s1;
          s3 = RemoveAllInvites p (on_gr p (\<lambda>gp. gp\<lparr>pg_rolls := [], pg_members := []\<rparr>) s2);
          sid = pg_dbId (gr p s3);
          s4 = (if stored (gr p s3)
                then FreeGroupDbStoreId p (fx [Sql (CHAR_DEL_GROUP sid), Sql (CHAR_DEL_GROUP_MEMBER_ALL sid),
                       ResetGroupInstances False, ResetGroupInstances True, Sql (CHAR_DEL_LFG_DATA sid)] s3)
                else s3)
      in delete_group p (RemoveGroup p s4))"

section \<open>Removing a member\<close>

definition DelinkMember :: "nat \<Rightarrow> guid \<Rightarrow> party_state \<Rightarrow> party_state" where
  "DelinkMember p g s =
     (case find (\<lambda>(k, h). h = g) (pg_refs (gr p s)) of None \<Rightarrow> s | Some (k, h) \<Rightarrow> unlink k g s)"

definition ResetMaxEnchantingLevel :: "party_world \<Rightarrow> party_group \<Rightarrow> party_group" where
  "ResetMaxEnchantingLevel w gp =
     gp\<lparr>pg_maxEnchanting :=
         fold (\<lambda>m x. if FindPlayer w (sl_guid m) \<and> x < ucast (pw_enchanting w (sl_guid m))
                     then ucast (pw_enchanting w (sl_guid m)) else x) (pg_members gp) 0\<rparr>"

definition drop_vote :: "guid \<Rightarrow> loot_roll \<Rightarrow> loot_roll" where
  "drop_vote g r =
     (case om_find (rl_votes r) g of None \<Rightarrow> r
      | Some v \<Rightarrow>
          let r1 = (if v = GREED \<or> v = DISENCHANT then r\<lparr>rl_greed := rl_greed r - 1\<rparr>
                    else if v = NEED then r\<lparr>rl_need := rl_need r - 1\<rparr>
                    else if v = PASS then r\<lparr>rl_pass := rl_pass r - 1\<rparr> else r);
              r2 = (if v \<noteq> NOT_VALID then r1\<lparr>rl_players := rl_players r1 - 1\<rparr> else r1)
          in r2\<lparr>rl_votes := om_erase g (rl_votes r2)\<rparr>)"

text \<open>The loop over the rolls by position; the call that is to count the roll comes after the vote is gone.\<close>

definition drop_votes_at :: "party_world \<Rightarrow> nat \<Rightarrow> guid \<Rightarrow> nat \<Rightarrow> party_state \<Rightarrow> party_state" where
  "drop_votes_at w p g i s =
     (if i < length (pg_rolls (gr p s))
      then let r = pg_rolls (gr p s) ! i in
           if om_find (rl_votes r) g = None then s
           else CountRollVote w p g (rl_itemGUID r) MAX_ROLL_TYPE
                  (on_gr p (\<lambda>gp. gp\<lparr>pg_rolls := (pg_rolls gp)[i := drop_vote g r]\<rparr>) s)
      else s)"

definition drop_votes :: "party_world \<Rightarrow> nat \<Rightarrow> guid \<Rightarrow> party_state \<Rightarrow> party_state" where
  "drop_votes w p g s = fold (drop_votes_at w p g) [0..<length (pg_rolls (gr p s))] s"

text \<open>The part of a connected player: his references, the packets and the homebind timer.\<close>

definition dismiss :: "party_world \<Rightarrow> nat \<Rightarrow> guid \<Rightarrow> RemoveMethod \<Rightarrow> party_state \<Rightarrow> party_state" where
  "dismiss w p g rm s =
     (let s1 = leave_group p g s;
          s2 = (if stored (gr p s1) then fx [Call g UpdateForQuestWorldObjects] s1 else s1)
      in fx ((if rm = GROUP_REMOVEMETHOD_KICK \<or> rm = GROUP_REMOVEMETHOD_KICK_LFG then [Send g SMSG_GROUP_UNINVITE] else []) @
             [Send g (SMSG_GROUP_LIST_LEFT (pg_guid (gr p s2)) (pg_counter (gr p s2)))] @ homebindIfInstance w g) s2)"

definition take_slot :: "guid \<Rightarrow> party_group \<Rightarrow> party_group" where
  "take_slot g gp =
     (case find_slot g gp of None \<Rightarrow> gp
      | Some m \<Rightarrow> (SubGroupCounterDecrease (sl_group m) gp)\<lparr>pg_members := erase_slot g (pg_members gp)\<rparr>)"

definition next_leader :: "party_world \<Rightarrow> party_group \<Rightarrow> guid option" where
  "next_leader w gp = map_option sl_guid (find (\<lambda>m. pw_connected w (sl_guid m)) (pg_members gp))"

definition remove_slot :: "party_world \<Rightarrow> nat \<Rightarrow> guid \<Rightarrow> RemoveMethod \<Rightarrow> party_state \<Rightarrow> party_state" where
  "remove_slot w p g rm s =
     (let s1 = (if pw_connected w g then dismiss w p g rm s else s);
          s2 = (if stored (gr p s1) then DelinkMember p g (fx [Sql (CHAR_DEL_GROUP_MEMBER (GetCounter g))] s1) else s1);
          s3 = (if \<not> pw_connected w g \<or> pw_enchanting w g \<noteq> 0 then on_gr p (ResetMaxEnchantingLevel w) s2 else s2);
          s4 = on_gr p (take_slot g) (drop_votes w p g s3);
          s5 = (if pg_leaderGuid (gr p s4) = g
                then (case next_leader w (gr p s4) of None \<Rightarrow> s4 | Some h \<Rightarrow> Group_ChangeLeader w p h s4) else s4)
      in SendUpdate w p s5)"

text \<open>An LFG group of one is kept while its leader is dead or in the dungeon.\<close>

definition lonely_lfg :: "party_world \<Rightarrow> party_group \<Rightarrow> bool" where
  "lonely_lfg w gp \<longleftrightarrow>
     isLFGGroup gp \<and> GetMembersCount gp = 1 \<and>
     (let leader = pg_leaderGuid gp; mapId = pw_lfgMap w (pg_guid gp)
      in mapId = 0 \<or> \<not> pw_connected w leader \<or> pw_alive w leader \<and> pw_mapId w leader \<noteq> mapId)"

text \<open>After the removal: the rest may be too small to stay a group.\<close>

definition settle_group :: "party_world \<Rightarrow> nat \<Rightarrow> party_state \<Rightarrow> bool \<times> party_state" where
  "settle_group w p s =
     (if lonely_lfg w (gr p s) then (False, Group_Disband w p False s)
      else if length (pg_refs (gr p s)) < (if isLFGGroup (gr p s) \<or> isBGGroup (gr p s) then 1 else 2)
      then (True, Group_Disband w p False s) else (True, s))"

definition Group_RemoveMember ::
  "party_world \<Rightarrow> nat \<Rightarrow> guid \<Rightarrow> RemoveMethod \<Rightarrow> guid \<Rightarrow> string \<Rightarrow> party_state \<Rightarrow> bool \<times> party_state" where
  "Group_RemoveMember w p g rm kicker reason s =
     (let s1 = BroadcastGroupUpdate w p s;
          s2 = fx [Hook (LfgMgr.RemoveMember (pg_guid (gr p s1)) g rm kicker reason (isLFGGroup (gr p s1)))] s1;
          gp = gr p s2
      in if isLFGGroup gp \<and> rm = GROUP_REMOVEMETHOD_KICK then (pg_members gp \<noteq> [], s2)
         else if GetMembersCount gp > (if isBGGroup gp \<or> isLFGGroup gp \<or> isBFGroup gp then 1 else 2)
         then settle_group w p (remove_slot w p g rm s2)
         else (False, Group_Disband w p False s2))"

lemma settle_cases:
  obtains "snd (settle_group w p s) = s" | "snd (settle_group w p s) = Group_Disband w p False s"
proof -
  have "snd (settle_group w p s) = s \<or> snd (settle_group w p s) = Group_Disband w p False s"
    unfolding settle_group_def by (rule if_split [THEN iffD2], rule conjI, simp, rule impI, rule if_split [THEN iffD2], rule conjI, simp, simp)
  with that show thesis by blast
qed

definition UninviteFromGroup :: "party_world \<Rightarrow> guid \<Rightarrow> party_state \<Rightarrow> party_state" where
  "UninviteFromGroup w g s =
     (case om_find (ps_invite s) g of None \<Rightarrow> s
      | Some p \<Rightarrow>
          let s1 = RemoveInvite p g s;
              s2 = (if GetMembersCount (gr p s1) \<le> 1
                    then (if IsCreated (gr p s1) then Group_Disband w p True s1 else delete_group p (RemoveAllInvites p s1))
                    else s1)
          in fx [Call g AutoJoinIrc] s2)"

section \<open>Subgroups, flags, icons and loot settings\<close>

definition ChangeMembersGroup :: "party_world \<Rightarrow> nat \<Rightarrow> guid \<Rightarrow> uint8 \<Rightarrow> party_state \<Rightarrow> party_state" where
  "ChangeMembersGroup w p g sub s =
     (if \<not> isRaidGroup (gr p s) then s
      else case find_slot g (gr p s) of None \<Rightarrow> s
        | Some m \<Rightarrow>
            if sl_group m = sub then s
            else let s1 = on_gr p (\<lambda>gp. SubGroupCounterDecrease (sl_group m) (SubGroupCounterIncrease sub
                                          (on_slot_of g (\<lambda>m. m\<lparr>sl_group := sub\<rparr>) gp))) s;
                     s2 = (if stored (gr p s1) then fx [Sql (CHAR_UPD_GROUP_MEMBER_SUBGROUP sub (GetCounter g))] s1 else s1);
                     s3 = (if pw_connected w g
                           then (if GetGroupOf g s2 = Some p then setSubGroup CurrentGroup g sub s2
                                 else setSubGroup OriginalGroup g sub s2)
                           else s2)
                 in SendUpdate w p s3)"

definition setMembersGroup :: "nat \<Rightarrow> guid \<Rightarrow> uint8 \<Rightarrow> party_state \<Rightarrow> bool \<times> party_state" where
  "setMembersGroup p g sub s =
     (if find_slot g (gr p s) = None then (False, s)
      else let s1 = on_gr p (\<lambda>gp. SubGroupCounterIncrease sub (on_slot_of g (\<lambda>m. m\<lparr>sl_group := sub\<rparr>) gp)) s
           in (True, if stored (gr p s1) then fx [Sql (CHAR_UPD_GROUP_MEMBER_SUBGROUP sub (GetCounter g))] s1 else s1))"

definition SetGroupMemberFlag :: "party_world \<Rightarrow> nat \<Rightarrow> guid \<Rightarrow> bool \<Rightarrow> uint8 \<Rightarrow> party_state \<Rightarrow> party_state" where
  "SetGroupMemberFlag w p g apply_flag flag s =
     (if \<not> isRaidGroup (gr p s) \<or> find_slot g (gr p s) = None \<or>
         flag \<notin> {MEMBER_FLAG_MAINASSIST, MEMBER_FLAG_MAINTANK, MEMBER_FLAG_ASSISTANT} then s
      else let s1 = (if flag = MEMBER_FLAG_ASSISTANT then s else on_gr p (RemoveUniqueGroupMemberFlag flag) s);
               s2 = on_gr p (on_slot_of g (ToggleGroupMemberFlag flag apply_flag)) s1;
               flags = (case find_slot g (gr p s2) of None \<Rightarrow> 0 | Some m \<Rightarrow> sl_flags m)
           in SendUpdate w p (fx [Sql (CHAR_UPD_GROUP_MEMBER_FLAG flags (GetCounter g))] s2))"

definition SetLfgRoles :: "party_world \<Rightarrow> nat \<Rightarrow> guid \<Rightarrow> uint8 \<Rightarrow> party_state \<Rightarrow> party_state" where
  "SetLfgRoles w p g roles s =
     (if find_slot g (gr p s) = None then s
      else SendUpdate w p (on_gr p (on_slot_of g (\<lambda>m. m\<lparr>sl_roles := roles\<rparr>)) s))"

definition put_icon :: "party_world \<Rightarrow> nat \<Rightarrow> uint8 \<Rightarrow> guid \<Rightarrow> guid \<Rightarrow> party_state \<Rightarrow> party_state" where
  "put_icon w p i who target s =
     BroadcastPacket w p (MSG_RAID_TARGET_UPDATE who i target) True None 0
       (on_gr p (\<lambda>gp. gp\<lparr>pg_icons := (pg_icons gp)[unat i := target]\<rparr>) s)"

definition SetTargetIcon :: "party_world \<Rightarrow> nat \<Rightarrow> uint8 \<Rightarrow> guid \<Rightarrow> guid \<Rightarrow> party_state \<Rightarrow> party_state" where
  "SetTargetIcon w p i who target s =
     (if unat i \<ge> TARGETICONCOUNT then s
      else let s1 = (if target \<noteq> 0
                     then fold (\<lambda>j s. if pg_icons (gr p s) ! j = target then put_icon w p (of_nat j) 0 0 s else s)
                            [0..<TARGETICONCOUNT] s
                     else s)
           in put_icon w p i who target s1)"

definition SendTargetIconList :: "nat \<Rightarrow> guid \<Rightarrow> party_state \<Rightarrow> party_state" where
  "SendTargetIconList p g s =
     fx [Send g (MSG_RAID_TARGET_LIST
           (concat (map (\<lambda>j. if pg_icons (gr p s) ! j = 0 then [] else [(of_nat j, pg_icons (gr p s) ! j)]) [0..<TARGETICONCOUNT])))] s"

definition SetDungeonDifficulty :: "party_world \<Rightarrow> nat \<Rightarrow> uint8 \<Rightarrow> party_state \<Rightarrow> party_state" where
  "SetDungeonDifficulty w p d s =
     (let s1 = on_gr p (\<lambda>gp. gp\<lparr>pg_dungeonDifficulty := d\<rparr>) s
      in fx ((if stored (gr p s1) then [Sql (CHAR_UPD_GROUP_DIFFICULTY d (pg_dbId (gr p s1)))] else []) @
             concat (map (\<lambda>(k, g). if pw_session w g then [Call g (PutDungeonDifficulty d)] else []) (pg_refs (gr p s1)))) s1)"

definition SetRaidDifficulty :: "party_world \<Rightarrow> nat \<Rightarrow> uint8 \<Rightarrow> party_state \<Rightarrow> party_state" where
  "SetRaidDifficulty w p d s =
     (let s1 = on_gr p (\<lambda>gp. gp\<lparr>pg_raidDifficulty := d\<rparr>) s
      in fx ((if stored (gr p s1) then [Sql (CHAR_UPD_GROUP_RAID_DIFFICULTY d (pg_dbId (gr p s1)))] else []) @
             concat (map (\<lambda>(k, g). if pw_session w g then [Call g (PutRaidDifficulty d)] else []) (pg_refs (gr p s1)))) s1)"

definition SetLootMethod :: "nat \<Rightarrow> uint8 \<Rightarrow> party_state \<Rightarrow> party_state" where
  "SetLootMethod p x = on_gr p (\<lambda>gp. gp\<lparr>pg_lootMethod := x\<rparr>)"

definition SetLooterGuid :: "nat \<Rightarrow> guid \<Rightarrow> party_state \<Rightarrow> party_state" where
  "SetLooterGuid p g = on_gr p (\<lambda>gp. gp\<lparr>pg_looter := g\<rparr>)"

definition SetMasterLooterGuid :: "nat \<Rightarrow> guid \<Rightarrow> party_state \<Rightarrow> party_state" where
  "SetMasterLooterGuid p g = on_gr p (\<lambda>gp. gp\<lparr>pg_masterLooter := g\<rparr>)"

definition SetLootThreshold :: "nat \<Rightarrow> uint8 \<Rightarrow> party_state \<Rightarrow> party_state" where
  "SetLootThreshold p x = on_gr p (\<lambda>gp. gp\<lparr>pg_threshold := x\<rparr>)"

section \<open>Round robin\<close>

definition can_loot :: "party_world \<Rightarrow> nat \<Rightarrow> member_slot \<Rightarrow> bool" where
  "can_loot w ob m \<longleftrightarrow> FindPlayer w (sl_guid m) \<and> pw_near w (sl_guid m) ob"

text \<open>The next looter: behind the present one, and then from the start up to and including him.\<close>

definition UpdateLooterGuid :: "party_world \<Rightarrow> nat \<Rightarrow> nat \<Rightarrow> bool \<Rightarrow> party_state \<Rightarrow> party_state" where
  "UpdateLooterGuid w p ob ifneed s =
     (if pg_lootMethod (gr p s) = FREE_FOR_ALL then s
      else let old = GetLooterGuid (gr p s); ms = pg_members (gr p s);
               at = find_index (\<lambda>m. sl_guid m = old) ms;
               start = (case at of None \<Rightarrow> length ms | Some i \<Rightarrow> Suc i)
           in if (case at of None \<Rightarrow> False | Some i \<Rightarrow> ifneed \<and> can_loot w ob (ms ! i)) then s
              else case (case find (can_loot w ob) (drop start ms) of
                           Some m \<Rightarrow> Some m | None \<Rightarrow> find (can_loot w ob) (take start ms)) of
                     Some m \<Rightarrow> if old \<noteq> sl_guid m then SendUpdate w p (SetLooterGuid p (sl_guid m) s) else s
                   | None \<Rightarrow> SendUpdate w p (SetLooterGuid p 0 s))"

end
