(* ===== verification/GroupInvariant.thy ===== *)
theory GroupInvariant
  imports GroupMembers
begin

text \<open>
  The well-formedness of a group and the steps that keep it: distinct members, subgroup
  counters that count the members of their subgroup, no subgroup above its size,
  and target icons that are all different.
\<close>

section \<open>What an operation leaves alone\<close>

text \<open>A group without the parts that following references and sending packets change.\<close>

definition core :: "party_group \<Rightarrow> party_group" where
  "core gp = gp\<lparr>pg_refs := [], pg_counter := 0\<rparr>"

named_theorems core_simps "operations that leave the core of every group alone"

lemma core_on_gr: "(\<And>gp. core (f gp) = core gp) \<Longrightarrow> core (gr q (on_gr p f s)) = core (gr q s)"
  by simp

lemma core_refs [simp]: "core (gp\<lparr>pg_refs := x\<rparr>) = core gp" and core_counter [simp]: "core (gp\<lparr>pg_counter := n\<rparr>) = core gp"
  by (simp_all add: core_def)

lemma gr_put_ref [simp]: "gr q (put_ref k g r s) = gr q s"
  by (cases k) (simp_all add: gr_def)

lemma gr_invite [simp]: "gr q (SetGroupInvite g to s) = gr q s"
  by (simp add: gr_def SetGroupInvite_def)

lemma core_unlink [core_simps]: "core (gr q (unlink k g s)) = core (gr q s)"
  by (simp add: unlink_def split: option.split)

lemma core_link [core_simps]: "core (gr q (link k p g s)) = core (gr q s)"
  by (simp add: link_def Let_def core_simps)

lemma core_setSubGroup [core_simps]: "core (gr q (setSubGroup k g sub s)) = core (gr q s)"
  by (simp add: setSubGroup_def)

lemma core_SetOriginalGroup [core_simps]: "core (gr q (SetOriginalGroup g to s)) = core (gr q s)"
  by (simp add: SetOriginalGroup_def core_simps split: option.split)

lemma core_PlayerSetGroup [core_simps]: "core (gr q (PlayerSetGroup g to s)) = core (gr q s)"
  by (simp add: PlayerSetGroup_def core_simps split: option.split)

lemma core_SetRaid [core_simps]: "core (gr q (SetBattlegroundOrBattlefieldRaid g p sub s)) = core (gr q s)"
  by (simp add: SetBattlegroundOrBattlefieldRaid_def Let_def core_simps)

lemma core_RemoveFromRaid [core_simps]: "core (gr q (RemoveFromBattlegroundOrBattlefieldRaid g s)) = core (gr q s)"
  by (simp add: RemoveFromBattlegroundOrBattlefieldRaid_def Let_def core_simps split: option.split)

lemma core_SendUpdateToPlayer [core_simps]: "core (gr q (SendUpdateToPlayer w p g m s)) = core (gr q s)"
  by (simp add: SendUpdateToPlayer_def split: option.split)

lemma core_SendUpdate [core_simps]: "core (gr q (SendUpdate w p s)) = core (gr q s)"
proof -
  have "core (gr q (fold (\<lambda>m. SendUpdateToPlayer w p (sl_guid m) (Some m)) ms s)) = core (gr q s)" for ms
    by (induction ms arbitrary: s) (simp_all add: core_simps)
  then show ?thesis by (simp add: SendUpdate_def)
qed

lemma gr_BroadcastPacket [simp]: "gr q (BroadcastPacket w p pkt ign sub i s) = gr q s"
  by (simp add: BroadcastPacket_def)

lemma gr_BroadcastGroupUpdate [simp]: "gr q (BroadcastGroupUpdate w p s) = gr q s"
  by (simp add: BroadcastGroupUpdate_def)

lemma gr_UpdatePlayerOutOfRange [simp]: "gr q (UpdatePlayerOutOfRange w p g s) = gr q s"
  by (simp add: UpdatePlayerOutOfRange_def)

lemma core_link_member [core_simps]: "core (gr q (link_member p g sub s)) = core (gr q s)"
  by (simp add: link_member_def core_simps)

lemma core_leave_group [core_simps]: "core (gr q (leave_group p g s)) = core (gr q s)"
  by (simp add: leave_group_def core_simps)

lemma core_dismiss [core_simps]: "core (gr q (dismiss w p g rm s)) = core (gr q s)"
  by (simp add: dismiss_def Let_def core_simps)

lemma core_DelinkMember [core_simps]: "core (gr q (DelinkMember p g s)) = core (gr q s)"
  by (simp add: DelinkMember_def core_simps split: option.split)

lemma core_disband_member [core_simps]: "core (gr q (disband_member w p hide m s)) = core (gr q s)"
  by (simp add: disband_member_def Let_def core_simps split: option.split)

lemma core_disband_members [core_simps]: "core (gr q (fold (disband_member w p hide) ms s)) = core (gr q s)"
  by (induction ms arbitrary: s) (simp_all add: core_simps)

section \<open>Well-formed groups\<close>

definition slots_in :: "nat \<Rightarrow> member_slot list \<Rightarrow> nat" where
  "slots_in i ms = length (filter (\<lambda>m. unat (sl_group m) = i) ms)"

definition flagged :: "uint8 \<Rightarrow> member_slot list \<Rightarrow> nat" where
  "flagged flag ms = length (filter (\<lambda>m. has_bits (sl_flags m) flag) ms)"

definition counts_ok :: "party_group \<Rightarrow> bool" where
  "counts_ok gp \<longleftrightarrow>
     (case pg_counts gp of None \<Rightarrow> length (pg_members gp) \<le> MAXGROUPSIZE
      | Some cs \<Rightarrow> cs = map (\<lambda>i. of_nat (slots_in i (pg_members gp))) [0..<MAX_RAID_SUBGROUPS])"

definition icons_ok :: "guid list \<Rightarrow> bool" where
  "icons_ok xs \<longleftrightarrow> length xs = TARGETICONCOUNT \<and>
     (\<forall>i<TARGETICONCOUNT. \<forall>j<TARGETICONCOUNT. i \<noteq> j \<longrightarrow> xs ! i = xs ! j \<longrightarrow> xs ! i = 0)"

lemma icons_ok_clear [simp]: "icons_ok (replicate TARGETICONCOUNT 0)"
  by (simp add: icons_ok_def)

definition group_ok :: "party_group \<Rightarrow> bool" where
  "group_ok gp \<longleftrightarrow>
     distinct (map sl_guid (pg_members gp)) \<and>
     list_all (\<lambda>m. unat (sl_group m) < MAX_RAID_SUBGROUPS) (pg_members gp) \<and>
     list_all (\<lambda>i. slots_in i (pg_members gp) \<le> MAXGROUPSIZE) [0..<MAX_RAID_SUBGROUPS] \<and>
     counts_ok gp \<and> (isRaidGroup gp \<longleftrightarrow> pg_counts gp \<noteq> None) \<and>
     icons_ok (pg_icons gp)"

lemma group_ok_core: "group_ok (core gp) = group_ok gp"
  by (simp add: group_ok_def core_def counts_ok_def isRaidGroup_def split: option.split)

lemma group_ok_same: "core gp = core gp' \<Longrightarrow> group_ok gp = group_ok gp'"
  by (metis group_ok_core)

lemmas group_ok_gr [simp] = core_simps [THEN group_ok_same]

lemma group_ok_init: "group_ok Group_init"
  by (simp add: group_ok_def Group_init_def counts_ok_def isRaidGroup_def has_bits_def slots_in_def flagged_def list_all_iff)

section \<open>Slots\<close>

lemma slots_in_append [simp]: "slots_in i (xs @ ys) = slots_in i xs + slots_in i ys"
  and slots_in_Cons [simp]: "slots_in i (m # ms) = (if unat (sl_group m) = i then 1 else 0) + slots_in i ms"
  and slots_in_Nil [simp]: "slots_in i [] = 0"
  by (simp_all add: slots_in_def)

lemma flagged_append [simp]: "flagged f (xs @ ys) = flagged f xs + flagged f ys"
  and flagged_Cons [simp]: "flagged f (m # ms) = (if has_bits (sl_flags m) f then 1 else 0) + flagged f ms"
  and flagged_Nil [simp]: "flagged f [] = 0"
  by (simp_all add: flagged_def)

lemma find_slot_split:
  assumes "find_slot g gp = Some m"
  obtains pre suf where "pg_members gp = pre @ m # suf" "sl_guid m = g" "g \<notin> sl_guid ` set pre"
proof -
  obtain i where i: "i < length (pg_members gp)" "sl_guid (pg_members gp ! i) = g" "m = pg_members gp ! i"
    "\<forall>j<i. sl_guid (pg_members gp ! j) \<noteq> g"
    using assms by (auto simp: find_slot_def find_Some_iff)
  have "pg_members gp = take i (pg_members gp) @ m # drop (Suc i) (pg_members gp)"
    using i(1,3) by (simp add: id_take_nth_drop)
  moreover have "g \<notin> sl_guid ` set (take i (pg_members gp))"
    using i(1,4) by (fastforce simp: in_set_conv_nth)
  ultimately show thesis using that i(2,3) by blast
qed

lemma find_slot_None: "find_slot g gp = None \<longleftrightarrow> g \<notin> sl_guid ` set (pg_members gp)"
  by (auto simp: find_slot_def find_None_iff)

lemma upd_slot_at: "g \<notin> sl_guid ` set pre \<Longrightarrow> sl_guid m = g \<Longrightarrow> upd_slot g f (pre @ m # suf) = pre @ f m # suf"
  by (induction pre) auto

lemma erase_slot_at: "g \<notin> sl_guid ` set pre \<Longrightarrow> sl_guid m = g \<Longrightarrow> erase_slot g (pre @ m # suf) = pre @ suf"
  by (induction pre) auto

lemma counter_succ:
  "k < 8 \<Longrightarrow> (map f [0..<8])[k := (map f [0..<8]) ! k + 1] = map (\<lambda>i. f i + (if k = i then 1 else 0)) [0..<8]"
  for f :: "nat \<Rightarrow> uint8"
  by (rule nth_equalityI) (auto simp: nth_list_update)

lemma counter_pred:
  "k < 8 \<Longrightarrow> (map f [0..<8])[k := (map f [0..<8]) ! k - 1] = map (\<lambda>i. f i - (if k = i then 1 else 0)) [0..<8]"
  for f :: "nat \<Rightarrow> uint8"
  by (rule nth_equalityI) (auto simp: nth_list_update)

lemma group_ok_push:
  assumes ok: "group_ok gp" and new: "sl_guid m \<notin> sl_guid ` set (pg_members gp)"
    and sub: "unat (sl_group m) < 8" "slots_in (unat (sl_group m)) (pg_members gp) < 5"
    and room: "pg_counts gp = None \<longrightarrow> length (pg_members gp) < 5"
  shows "group_ok (push_slot m gp)"
proof -
  have "counts_ok (push_slot m gp)"
  proof (cases "pg_counts gp")
    case None
    then show ?thesis using room by (simp add: counts_ok_def push_slot_def SubGroupCounterIncrease_def)
  next
    case (Some cs)
    have "cs = map (\<lambda>i. of_nat (slots_in i (pg_members gp))) [0..<8]" using ok Some by (simp add: group_ok_def counts_ok_def)
    then show ?thesis using Some counter_succ [OF sub(1)]
      by (simp add: counts_ok_def push_slot_def SubGroupCounterIncrease_def del: upt_Suc)
  qed
  then show ?thesis using assms
    by (auto simp: group_ok_def push_slot_def SubGroupCounterIncrease_def list_all_iff isRaidGroup_def)
qed

lemma group_ok_take: assumes ok: "group_ok gp" shows "group_ok (take_slot g gp)"
proof (cases "find_slot g gp")
  case (Some m)
  obtain pre suf where ms: "pg_members gp = pre @ m # suf" "sl_guid m = g" "g \<notin> sl_guid ` set pre"
    using find_slot_split [OF Some] .
  have sub: "unat (sl_group m) < 8" using ok ms by (simp add: group_ok_def)
  have "counts_ok (take_slot g gp)"
  proof (cases "pg_counts gp")
    case None
    then show ?thesis using ok Some ms
      by (simp add: group_ok_def counts_ok_def take_slot_def SubGroupCounterDecrease_def erase_slot_at)
  next
    case (Some cs)
    have "cs = map (\<lambda>i. of_nat (slots_in i (pg_members gp))) [0..<8]" using ok Some by (simp add: group_ok_def counts_ok_def)
    then show ?thesis using Some \<open>find_slot g gp = Some m\<close> ms counter_pred [OF sub]
      by (simp add: counts_ok_def take_slot_def SubGroupCounterDecrease_def erase_slot_at del: upt_Suc)
  qed
  moreover have "take_slot g gp = (SubGroupCounterDecrease (sl_group m) gp)\<lparr>pg_members := pre @ suf\<rparr>"
    using Some ms by (simp add: take_slot_def erase_slot_at)
  ultimately show ?thesis using ok ms
    by (auto simp: group_ok_def SubGroupCounterDecrease_def list_all_iff isRaidGroup_def split: if_splits)
qed (use ok in \<open>simp add: take_slot_def\<close>)

lemma group_ok_move:
  assumes ok: "group_ok gp" and slot: "find_slot g gp = Some m" and raid: "isRaidGroup gp"
    and sub: "unat sub < 8" "sl_group m \<noteq> sub" "slots_in (unat sub) (pg_members gp) < 5"
  shows "group_ok (SubGroupCounterDecrease (sl_group m) (SubGroupCounterIncrease sub
           (on_slot_of g (\<lambda>m. m\<lparr>sl_group := sub\<rparr>) gp)))" (is "group_ok ?gp")
proof -
  obtain pre suf where ms: "pg_members gp = pre @ m # suf" "sl_guid m = g" "g \<notin> sl_guid ` set pre"
    using find_slot_split [OF slot] .
  obtain cs where cs: "pg_counts gp = Some cs" using ok raid by (auto simp: group_ok_def)
  have k: "unat (sl_group m) < 8" using ok ms by (simp add: group_ok_def)
  have ne: "unat (sl_group m) \<noteq> unat sub" using sub(2) by (simp flip: word_unat_eq_iff)
  have mem: "pg_members ?gp = pre @ m\<lparr>sl_group := sub\<rparr> # suf"
    using ms by (simp add: SubGroupCounterDecrease_def SubGroupCounterIncrease_def on_slot_of_def upd_slot_at)
  have "cs = map (\<lambda>i. of_nat (slots_in i (pg_members gp))) [0..<8]" using ok cs by (simp add: group_ok_def counts_ok_def)
  then have "pg_counts ?gp = Some (map (\<lambda>i. of_nat (slots_in i (pg_members gp)) +
      (if unat sub = i then 1 else 0) - (if unat (sl_group m) = i then 1 else 0)) [0..<8])"
    using cs counter_succ [OF sub(1)] counter_pred [OF k]
    by (simp add: SubGroupCounterDecrease_def SubGroupCounterIncrease_def on_slot_of_def del: upt_Suc)
  then have counts: "counts_ok ?gp" unfolding counts_ok_def mem using ne ms(1) by (simp del: upt_Suc)
  show ?thesis using ok counts ms sub mem ne k cs
    by (auto simp: group_ok_def SubGroupCounterDecrease_def SubGroupCounterIncrease_def on_slot_of_def list_all_iff
        isRaidGroup_def image_iff split: if_splits)
qed

text \<open>Changing flags and roles of a slot.\<close>

lemma group_ok_slot:
  assumes ok: "group_ok gp"
    and f: "\<And>m. sl_guid (f m) = sl_guid m" "\<And>m. sl_group (f m) = sl_group m"
  shows "group_ok (on_slot_of g f gp)"
proof (cases "find_slot g gp")
  case None
  have id: "upd_slot g f ms = ms" if "g \<notin> sl_guid ` set ms" for ms using that by (induction ms) auto
  show ?thesis using ok None by (simp add: on_slot_of_def find_slot_None id)
next
  case (Some m)
  obtain pre suf where ms: "pg_members gp = pre @ m # suf" "sl_guid m = g" "g \<notin> sl_guid ` set pre"
    using find_slot_split [OF Some] .
  have mem: "on_slot_of g f gp = gp\<lparr>pg_members := pre @ f m # suf\<rparr>"
    using ms by (simp add: on_slot_of_def upd_slot_at)
  have sl: "slots_in i (pre @ f m # suf) = slots_in i (pg_members gp)" for i using ms(1) f(2) by simp
  have "counts_ok (on_slot_of g f gp) = counts_ok gp"
    unfolding mem counts_ok_def using sl ms(1) by (simp split: option.split)
  then show ?thesis using ok ms f sl
    by (auto simp: group_ok_def mem list_all_iff isRaidGroup_def)
qed

lemma has_bits_and_not [simp]: "\<not> has_bits (x AND NOT f) f"
  by (simp add: has_bits_iff bit_simps)

lemma has_bits_or: "has_bits (x OR y) f \<longleftrightarrow> has_bits x f \<or> has_bits y f"
  by (auto simp: has_bits_iff bit_simps)

lemma has_bits_andD: "has_bits (x AND y) f \<Longrightarrow> has_bits x f"
  by (auto simp: has_bits_iff bit_simps)

lemma group_ok_unique: assumes ok: "group_ok gp" shows "group_ok (RemoveUniqueGroupMemberFlag flag gp)"
    "flagged flag (pg_members (RemoveUniqueGroupMemberFlag flag gp)) = 0"
proof -
  let ?f = "\<lambda>m. if has_bits (sl_flags m) flag then m\<lparr>sl_flags := sl_flags m AND NOT flag\<rparr> else m"
  have gm: "sl_guid (?f m) = sl_guid m" "sl_group (?f m) = sl_group m" for m by auto
  have sl: "slots_in i (map ?f ms) = slots_in i ms" for i ms by (induction ms) auto
  have "counts_ok (RemoveUniqueGroupMemberFlag flag gp) = counts_ok gp"
    unfolding counts_ok_def RemoveUniqueGroupMemberFlag_def using sl by (simp split: option.split)
  then show "group_ok (RemoveUniqueGroupMemberFlag flag gp)"
    using ok by (auto simp: group_ok_def RemoveUniqueGroupMemberFlag_def comp_def sl gm list_all_iff isRaidGroup_def
        simp del: One_nat_def cong: if_cong)
  show "flagged flag (pg_members (RemoveUniqueGroupMemberFlag flag gp)) = 0"
    by (auto simp: RemoveUniqueGroupMemberFlag_def flagged_def filter_empty_conv)
qed

end
