(* ===== verification/GroupSteps.thy ===== *)
theory GroupSteps
  imports GroupInvariant GroupRolls
begin

text \<open>
  Every operation of a group keeps every group well formed: the lemmas operation by
  operation.
\<close>

section \<open>The parts that well-formedness reads\<close>

definition shape :: "party_group \<Rightarrow> member_slot list \<times> uint8 list option \<times> uint8 \<times> guid list" where
  "shape gp = (pg_members gp, pg_counts gp, pg_type gp, pg_icons gp)"

lemma group_ok_shape: "shape gp = shape gp' \<Longrightarrow> group_ok gp = group_ok gp'"
  by (simp add: shape_def group_ok_def counts_ok_def isRaidGroup_def split: option.split)

lemma shape_core: "core gp = core gp' \<Longrightarrow> shape gp = shape gp'"
  by (metis (no_types, lifting) core_def party_group.select_convs party_group.simps shape_def party_group.surjective party_group.update_convs)

definition all_ok :: "party_state \<Rightarrow> bool" where
  "all_ok s \<longleftrightarrow> (\<forall>q. group_ok (gr q s))"

lemma all_ok_shape: "(\<And>q. shape (gr q s') = shape (gr q s)) \<Longrightarrow> all_ok s \<Longrightarrow> all_ok s'"
  unfolding all_ok_def using group_ok_shape by blast

lemma all_ok_core: "(\<And>q. core (gr q s') = core (gr q s)) \<Longrightarrow> all_ok s \<Longrightarrow> all_ok s'"
  using all_ok_shape shape_core by blast

lemma all_ok_on_gr: "all_ok s \<Longrightarrow> group_ok (f (gr p s)) \<Longrightarrow> all_ok (on_gr p f s)"
  by (simp add: all_ok_def)

lemma all_ok_fx [simp]: "all_ok (fx es s) = all_ok s"
  by (simp add: all_ok_def)

lemma all_okD: "all_ok s \<Longrightarrow> group_ok (gr p s)"
  by (simp add: all_ok_def)

lemma all_ok_SendUpdate [simp]: "all_ok (SendUpdate w p s) \<longleftrightarrow> all_ok s"
  by (simp add: all_ok_def)

lemma all_ok_invite [simp]: "all_ok (SetGroupInvite g to s) = all_ok s"
  by (simp add: all_ok_def)

lemma all_ok_broadcast [simp]: "all_ok (BroadcastPacket w p pkt ign sub i s) = all_ok s"
  "all_ok (BroadcastGroupUpdate w p s) = all_ok s" "all_ok (UpdatePlayerOutOfRange w p g s) = all_ok s"
  by (simp_all add: all_ok_def)

section \<open>Adding a member\<close>

lemma group_ok_icons: "group_ok gp \<Longrightarrow> group_ok (gp\<lparr>pg_icons := replicate TARGETICONCOUNT 0\<rparr>)"
  by (simp add: group_ok_def counts_ok_def isRaidGroup_def split: option.splits)

lemma group_ok_note_enchanter [simp]: "group_ok (note_enchanter w g gp) = group_ok gp"
  by (rule group_ok_shape) (simp add: shape_def note_enchanter_def)

lemma all_ok_join_party:
  assumes "all_ok s" and "g \<notin> sl_guid ` set (pg_members (gr p s))"
    and "unat sub < 8" "slots_in (unat sub) (pg_members (gr p s)) < 5"
    and "pg_counts (gr p s) = None \<longrightarrow> length (pg_members (gr p s)) < 5"
  shows "all_ok (join_party w p g sub s)"
proof -
  have "group_ok (push_slot (new_slot w g sub) (gr p s))"
    by (rule group_ok_push) (use assms in \<open>auto simp: new_slot_def dest: all_okD\<close>)
  then show ?thesis
    using assms(1) group_ok_icons by (auto simp: join_party_def Let_def all_ok_def)
qed

lemma first_subgroup_Some: "first_subgroup cs = Some i \<Longrightarrow> i < 8 \<and> unat (cs ! i) < 5"
  by (auto simp: first_subgroup_def find_Some_iff)

lemma unat_small: "n < 256 \<Longrightarrow> unat (of_nat n :: uint8) = n"
  by (simp add: unat_of_nat take_bit_eq_mod)

lemma group_count:
  assumes "group_ok gp" "pg_counts gp = Some cs" "i < 8"
  shows "unat (cs ! i) = slots_in i (pg_members gp)" "slots_in i (pg_members gp) \<le> 5"
proof -
  show le: "slots_in i (pg_members gp) \<le> 5" using assms by (auto simp: group_ok_def list_all_iff)
  have "cs ! i = of_nat (slots_in i (pg_members gp))"
    using assms by (simp add: group_ok_def counts_ok_def del: upt_Suc)
  then show "unat (cs ! i) = slots_in i (pg_members gp)" using le by (simp add: unat_small)
qed

lemma slots_in_le: "slots_in i ms \<le> length ms"
  by (simp add: slots_in_def)

lemma all_ok_AddMember:
  assumes ok: "all_ok s" and new: "\<not> IsMember g (gr p s)" and room: "\<not> IsFull (gr p s)"
  shows "all_ok (snd (Group_AddMember w p g s))"
proof (cases "pg_counts (gr p s)")
  case None
  then have "length (pg_members (gr p s)) < 5" using all_okD [OF ok, of p] room by (simp add: group_ok_def IsFull_def)
  then have "all_ok (join_party w p g 0 s)"
    using slots_in_le [of 0 "pg_members (gr p s)"] new
    by (intro all_ok_join_party [OF ok]) (auto simp: IsMember_def find_slot_None)
  then show ?thesis using None by (simp add: Group_AddMember_def)
next
  case (Some cs)
  show ?thesis
  proof (cases "first_subgroup cs")
    case (Some i)
    then have i: "i < 8" "slots_in i (pg_members (gr p s)) < 5"
      using first_subgroup_Some [OF Some] group_count(1) [OF all_okD [OF ok] \<open>pg_counts (gr p s) = Some cs\<close>, of i] by auto
    then have "all_ok (join_party w p g (of_nat i) s)"
      using new \<open>pg_counts (gr p s) = Some cs\<close>
      by (intro all_ok_join_party [OF ok]) (auto simp: IsMember_def find_slot_None unat_small)
    then show ?thesis using \<open>pg_counts (gr p s) = Some cs\<close> Some by (simp add: Group_AddMember_def)
  qed (use ok Some in \<open>simp add: Group_AddMember_def\<close>)
qed

text \<open>A group that is not full takes a new member: a raid of fewer than forty has a free subgroup.\<close>

lemma length_slots:
  "list_all (\<lambda>m. unat (sl_group m) < n) ms \<Longrightarrow> length ms = (\<Sum>i<n. slots_in i ms)"
proof (induction ms)
  case (Cons m ms)
  have "(\<Sum>i<n. (if unat (sl_group m) = i then 1 else 0 :: nat)) = 1"
    using Cons.prems by (simp add: sum.delta)
  then show ?case using Cons by (simp add: sum.distrib)
qed simp

lemma raid_room:
  assumes ok: "group_ok gp" and cs: "pg_counts gp = Some cs" and room: "length (pg_members gp) < 40"
  shows "first_subgroup cs \<noteq> None"
proof
  assume "first_subgroup cs = None"
  then have "\<forall>i\<in>{..<8}. 5 \<le> slots_in i (pg_members gp)"
    using group_count(1) [OF ok cs] by (auto simp: first_subgroup_def find_None_iff simp del: upt_Suc)
  then have "(\<Sum>i<(8::nat). (5::nat)) \<le> (\<Sum>i<8. slots_in i (pg_members gp))" by (intro sum_mono) auto
  also have "\<dots> = length (pg_members gp)" using ok by (intro length_slots [symmetric]) (simp add: group_ok_def)
  finally show False using room by simp
qed

section \<open>Creation, kinds and the leader\<close>

lemma gr_manager [simp]:
  "gr q (snd (GenerateGroupId s)) = gr q s" "gr q (snd (GenerateNewGroupDbStoreId s)) = gr q s"
  "gr q (RegisterGroupDbStoreId sid p s) = gr q s" "gr q (FreeGroupDbStoreId p s) = gr q s"
  "gr q (AddGroup p s) = gr q s" "gr q (RemoveGroup p s) = gr q s"
  by (simp_all add: gr_def GenerateGroupId_def GenerateNewGroupDbStoreId_def RegisterGroupDbStoreId_def
      FreeGroupDbStoreId_def AddGroup_def RemoveGroup_def Let_def)

lemma init_counts:
  fixes f :: "nat \<Rightarrow> uint8"
  assumes "list_all (\<lambda>m. unat (sl_group m) < 8) ms"
  shows "fold (\<lambda>m cs. cs[unat (sl_group m) := cs ! unat (sl_group m) + 1]) ms (map f [0..<8]) =
    map (\<lambda>i. f i + of_nat (slots_in i ms)) [0..<8]"
  using assms
proof (induction ms arbitrary: f)
  case (Cons m ms)
  then show ?case using counter_succ [of "unat (sl_group m)" f]
    by (simp add: add.assoc del: upt_Suc)
qed simp

lemma group_ok_init_counter:
  assumes "list_all (\<lambda>m. unat (sl_group m) < 8) (pg_members gp)"
  shows "pg_counts (initRaidSubGroupsCounter gp) = Some (map (\<lambda>i. of_nat (slots_in i (pg_members gp))) [0..<8])"
proof -
  have "replicate 8 (0 :: uint8) = map (\<lambda>i. 0) [0..<8]" by (simp add: map_replicate_const)
  then show ?thesis using init_counts [OF assms, of "\<lambda>i. 0"]
    by (simp add: initRaidSubGroupsCounter_def del: upt_Suc)
qed

lemma group_ok_ConvertToRaid:
  assumes "group_ok gp"
  shows "group_ok (initRaidSubGroupsCounter (gp\<lparr>pg_type := pg_type gp OR GROUPTYPE_RAID\<rparr>))" (is "group_ok ?gp")
proof -
  have c: "pg_counts ?gp = Some (map (\<lambda>i. of_nat (slots_in i (pg_members gp))) [0..<8])"
    using assms group_ok_init_counter [of "gp\<lparr>pg_type := pg_type gp OR GROUPTYPE_RAID\<rparr>"] by (simp add: group_ok_def)
  have m: "pg_members ?gp = pg_members gp" "pg_icons ?gp = pg_icons gp" "pg_type ?gp = pg_type gp OR GROUPTYPE_RAID"
    by (simp_all add: initRaidSubGroupsCounter_def)
  have "isRaidGroup ?gp" by (simp add: isRaidGroup_def m has_bits_or) (simp add: has_bits_def)
  then show ?thesis using assms c m by (simp add: group_ok_def counts_ok_def del: upt_Suc)
qed

lemma all_ok_ConvertToRaid: "all_ok s \<Longrightarrow> all_ok (ConvertToRaid w p s)"
  by (simp add: ConvertToRaid_def Let_def all_ok_on_gr group_ok_ConvertToRaid all_okD)

lemma all_ok_ConvertToLFG: assumes "all_ok s" shows "all_ok (ConvertToLFG w p s)"
proof -
  have "has_bits (x OR GROUPTYPE_LFG OR GROUPTYPE_LFG_RESTRICTED) GROUPTYPE_RAID = has_bits x GROUPTYPE_RAID" for x
    by (simp add: has_bits_or) (simp add: has_bits_def)
  then have "group_ok (gr p s\<lparr>pg_type := pg_type (gr p s) OR GROUPTYPE_LFG OR GROUPTYPE_LFG_RESTRICTED,
      pg_lootMethod := NEED_BEFORE_GREED\<rparr>)"
    using all_okD [OF assms, of p] by (simp add: group_ok_def counts_ok_def isRaidGroup_def split: option.splits)
  then show ?thesis using assms by (simp add: ConvertToLFG_def Let_def all_ok_on_gr)
qed

lemma group_ok_settings:
  assumes ok: "group_ok gp" and empty: "pg_members gp = []"
  shows "group_ok (found_settings g gp)" and "pg_members (found_settings g gp) = []"
proof -
  have ok_raid: "group_ok (initRaidSubGroupsCounter (gp\<lparr>pg_type := t\<rparr>))" if "has_bits t GROUPTYPE_RAID" for t
  proof -
    have "pg_counts (initRaidSubGroupsCounter (gp\<lparr>pg_type := t\<rparr>)) = Some (map (\<lambda>i. 0) [0..<8])"
      using group_ok_init_counter [of "gp\<lparr>pg_type := t\<rparr>"] empty by simp
    then show ?thesis using ok empty that
      by (simp add: group_ok_def counts_ok_def isRaidGroup_def initRaidSubGroupsCounter_def del: upt_Suc)
  qed
  have raid: "has_bits GROUPTYPE_BGRAID GROUPTYPE_RAID" by (simp add: has_bits_def)
  let ?gp1 = "if isBGGroup gp \<or> isBFGroup gp then gp\<lparr>pg_type := GROUPTYPE_BGRAID\<rparr> else gp"
  let ?gp2 = "if isRaidGroup ?gp1 then initRaidSubGroupsCounter ?gp1 else ?gp1"
  have ok2: "group_ok ?gp2"
    using ok ok_raid [OF raid] ok_raid [of "pg_type gp"] raid by (simp add: isRaidGroup_def)
  have "shape (found_settings g gp) = shape ?gp2"
    by (simp add: found_settings_def Let_def shape_def)
  then show "group_ok (found_settings g gp)" using ok2 group_ok_shape by blast
  show "pg_members (found_settings g gp) = []"
    using empty by (simp add: found_settings_def Let_def initRaidSubGroupsCounter_def)
qed

lemma found_group_group:
  "\<exists>c. shape (gr p (found_group w p g s)) = shape (found_settings g (gr p s\<lparr>pg_guid := Global HG_Group c,
     pg_leaderGuid := g, pg_leaderName := pw_name w g\<rparr>)) \<and> (\<forall>q. q \<noteq> p \<longrightarrow> gr q (found_group w p g s) = gr q s)"
proof -
  obtain c s1 where gid: "GenerateGroupId s = (c, s1)" by fastforce
  then have s1: "gr q s1 = gr q s" for q by (metis gr_manager(1) snd_conv)
  show ?thesis
    by (rule exI [of _ c]) (simp add: found_group_def gid Let_def s1 case_prod_unfold shape_def)
qed

lemma all_ok_found_group:
  assumes ok: "all_ok s" and empty: "pg_members (gr p s) = []"
  shows "all_ok (found_group w p g s)" and "pg_members (gr p (found_group w p g s)) = []"
proof -
  obtain c where c: "shape (gr p (found_group w p g s)) = shape (found_settings g (gr p s\<lparr>pg_guid := Global HG_Group c,
     pg_leaderGuid := g, pg_leaderName := pw_name w g\<rparr>))" "\<forall>q. q \<noteq> p \<longrightarrow> gr q (found_group w p g s) = gr q s"
    using found_group_group by blast
  have "group_ok (gr p s\<lparr>pg_guid := Global HG_Group c, pg_leaderGuid := g, pg_leaderName := pw_name w g\<rparr>)"
    using all_okD [OF ok, of p] by (subst group_ok_shape [of _ "gr p s"]) (simp_all add: shape_def)
  note set = group_ok_settings [OF this]
  have "group_ok (gr p (found_group w p g s))" using set(1) empty by (simp add: group_ok_shape [OF c(1)])
  then have "group_ok (gr q (found_group w p g s))" for q
    using c(2) all_okD [OF ok, of q] by (cases "q = p") simp_all
  then show "all_ok (found_group w p g s)" by (simp add: all_ok_def)
  show "pg_members (gr p (found_group w p g s)) = []" using set(2) empty c(1) by (simp add: shape_def)
qed

lemma all_ok_Create:
  assumes "all_ok s" "pg_members (gr p s) = []"
  shows "all_ok (snd (Group_Create w p g s))"
proof -
  have "\<not> IsMember g (gr p (found_group w p g s))" "\<not> IsFull (gr p (found_group w p g s))"
    using all_ok_found_group(2) [OF assms] by (simp_all add: IsMember_def find_slot_None IsFull_def)
  then show ?thesis using all_ok_AddMember [OF all_ok_found_group(1) [OF assms]] by (simp add: Group_Create_def)
qed

lemma all_ok_ChangeLeader: assumes "all_ok s" shows "all_ok (Group_ChangeLeader w p g s)"
proof -
  have "group_ok (on_slot_of g (ToggleGroupMemberFlag MEMBER_FLAG_ASSISTANT False)
          (gr p s\<lparr>pg_leaderGuid := g, pg_leaderName := pw_name w g\<rparr>))"
  proof (rule group_ok_slot)
    show "group_ok (gr p s\<lparr>pg_leaderGuid := g, pg_leaderName := pw_name w g\<rparr>)"
      using all_okD [OF assms, of p] by (subst group_ok_shape [of _ "gr p s"]) (simp_all add: shape_def)
  qed (auto simp: ToggleGroupMemberFlag_def)
  then show ?thesis using assms
    by (simp add: Group_ChangeLeader_def Let_def all_ok_on_gr split: option.split)
qed

section \<open>Rolls\<close>

lemma shape_on_gr: "(\<And>gp. shape (f gp) = shape gp) \<Longrightarrow> shape (gr q (on_gr p f s)) = shape (gr q s)"
  by simp

lemma shape_updates [simp]:
  "shape (gp\<lparr>pg_rolls := x\<rparr>) = shape gp" "shape (gp\<lparr>pg_looter := y\<rparr>) = shape gp"
  "shape (gp\<lparr>pg_lootMethod := z\<rparr>) = shape gp" "shape (gp\<lparr>pg_threshold := z\<rparr>) = shape gp"
  "shape (gp\<lparr>pg_masterLooter := y\<rparr>) = shape gp" "shape (gp\<lparr>pg_dungeonDifficulty := z\<rparr>) = shape gp"
  "shape (gp\<lparr>pg_raidDifficulty := z\<rparr>) = shape gp" "shape (gp\<lparr>pg_invitees := i\<rparr>) = shape gp"
  "shape (gp\<lparr>pg_bg := b\<rparr>) = shape gp" "shape (gp\<lparr>pg_bf := b\<rparr>) = shape gp"
  "shape (gp\<lparr>pg_leaderGuid := y\<rparr>) = shape gp" "shape (gp\<lparr>pg_leaderName := n\<rparr>) = shape gp"
  "shape (gp\<lparr>pg_dbId := d\<rparr>) = shape gp" "shape (gp\<lparr>pg_guid := y\<rparr>) = shape gp"
  "shape (ResetMaxEnchantingLevel w gp) = shape gp"
  by (simp_all add: shape_def ResetMaxEnchantingLevel_def)

lemma shape_CountTheRoll [simp]: "shape (gr q (CountTheRoll w p i s)) = shape (gr q s)"
  by (simp add: CountTheRoll_def erase_roll_def Let_def split: option.split)

lemma shape_CountRollVote [simp]: "shape (gr q (CountRollVote w p g ig c s)) = shape (gr q s)"
  by (simp add: CountRollVote_def Let_def split: option.split)

lemma shape_EndRoll [simp]: "shape (gr q (EndRoll w p l s)) = shape (gr q s)"
proof (induction w p l s rule: EndRoll.induct)
  case (1 w p l s)
  show ?case
  proof (cases "find_index (\<lambda>r. rl_loot r = Some l) (pg_rolls (gr p s))")
    case None
    then show ?thesis by (subst EndRoll.simps) simp
  next
    case (Some i)
    then have "EndRoll w p l s = EndRoll w p l (CountTheRoll w p i s)" by (subst EndRoll.simps) simp
    then show ?thesis using 1 [OF Some] by simp
  qed
qed

lemma shape_start_roll [simp]: "shape (gr q (start_roll w nbg quest p l ob tm slot it s)) = shape (gr q s)"
  by (simp add: start_roll_def Let_def split: prod.split)

lemma shape_fold: "(\<And>x s. shape (gr q (f x s)) = shape (gr q s)) \<Longrightarrow> shape (gr q (fold f xs s)) = shape (gr q s)"
  by (induction xs arbitrary: s) simp_all

lemma shape_GroupLoot [simp]: "shape (gr q (GroupLoot w p l ob s)) = shape (gr q s)"
proof -
  have "shape (gr q (group_loot_item w p l ob i s)) = shape (gr q s)"
    "shape (gr q (group_loot_quest w p l ob i s)) = shape (gr q s)" for i s
    by (simp_all add: group_loot_item_def group_loot_quest_def Let_def split: option.split)
  then show ?thesis by (simp add: GroupLoot_def Let_def shape_fold)
qed

lemma shape_NeedBeforeGreed: "NeedBeforeGreed w p l ob s = Some s' \<Longrightarrow> shape (gr q s') = shape (gr q s)"
proof -
  have one: "shape (gr q s2) = shape (gr q s1)" if "need_loot_item w p l ob i s1 = Some s2" for i s1 s2
    using that by (auto simp: need_loot_item_def Let_def split: if_splits option.splits)
  have all: "shape (gr q s2) = shape (gr q s1)" if "need_loot_items w p l ob is s1 = Some s2" for "is" s1 s2
    using that
  proof (induction "is" arbitrary: s1)
    case (Cons i "is")
    then obtain s3 where "need_loot_item w p l ob i s1 = Some s3" "need_loot_items w p l ob is s3 = Some s2"
      by (auto simp: bind_eq_Some_conv)
    then show ?case using one Cons.IH by metis
  qed simp
  have "shape (gr q (need_loot_quest w p l ob i s)) = shape (gr q s)" for i s
    by (simp add: need_loot_quest_def Let_def)
  then show "NeedBeforeGreed w p l ob s = Some s' \<Longrightarrow> shape (gr q s') = shape (gr q s)"
    using all by (auto simp: NeedBeforeGreed_def shape_fold)
qed

lemma shape_MasterLoot [simp]: "shape (gr q (MasterLoot w p l ob s)) = shape (gr q s)"
  by (simp add: MasterLoot_def Let_def)

section \<open>Removing members and disbanding\<close>

lemma shape_drop_votes [simp]: "shape (gr q (drop_votes w p g s)) = shape (gr q s)"
  unfolding drop_votes_def by (rule shape_fold) (simp add: drop_votes_at_def Let_def)

lemma group_ok_drop_votes [simp]: "group_ok (gr q (drop_votes w p g s)) = group_ok (gr q s)"
  by (rule group_ok_shape) simp

lemma group_ok_enchanting [simp]: "group_ok (ResetMaxEnchantingLevel w gp) = group_ok gp"
  by (rule group_ok_shape) simp

lemma all_ok_remove_slot: assumes "all_ok s" shows "all_ok (remove_slot w p g rm s)"
proof -
  define s1 where "s1 = (if pw_connected w g then dismiss w p g rm s else s)"
  define s2 where "s2 = (if stored (gr p s1) then DelinkMember p g (fx [Sql (CHAR_DEL_GROUP_MEMBER (GetCounter g))] s1) else s1)"
  define s3 where "s3 = (if \<not> pw_connected w g \<or> pw_enchanting w g \<noteq> 0 then on_gr p (ResetMaxEnchantingLevel w) s2 else s2)"
  define s4 where "s4 = on_gr p (take_slot g) (drop_votes w p g s3)"
  have "all_ok s2" using assms by (simp add: all_ok_def s1_def s2_def)
  then have "all_ok s3" by (simp add: s3_def all_ok_on_gr all_okD)
  then have "all_ok s4" unfolding s4_def by (intro all_ok_on_gr group_ok_take) (auto simp: all_ok_def)
  moreover have "remove_slot w p g rm s = SendUpdate w p (if pg_leaderGuid (gr p s4) = g
      then (case next_leader w (gr p s4) of None \<Rightarrow> s4 | Some h \<Rightarrow> Group_ChangeLeader w p h s4) else s4)"
    by (simp only: remove_slot_def Let_def s1_def s2_def s3_def s4_def)
  ultimately show ?thesis by (simp add: all_ok_ChangeLeader split: option.split)
qed

lemma gr_delete_group: "gr q (delete_group p s) = (if q = p then Group_init else gr q s)"
proof -
  have refs: "gr q (fold (\<lambda>(k, g) s. put_ref k g ((ref_of k g s)\<lparr>rf_to := None\<rparr>) s) xs s) = gr q s" for q xs s
    by (induction xs arbitrary: s) auto
  have bg: "gr q (case b of None \<Rightarrow> s | Some x \<Rightarrow> fx [ClearBgRaid x] s) = gr q s" for q b by (cases b) simp_all
  have er: "gr q (s\<lparr>ps_groups := om_erase p (ps_groups s)\<rparr>) = (if q = p then Group_init else gr q s)" for q s
    by (simp add: gr_def om_at_def)
  show ?thesis by (simp add: delete_group_def Let_def er refs bg)
qed

lemma gr_RemoveAllInvites: "gr q (RemoveAllInvites p s) = (if q = p then gr p s\<lparr>pg_invitees := []\<rparr> else gr q s)"
proof -
  have "gr q (fold (\<lambda>g. SetGroupInvite g None) xs s) = gr q s" for q xs s by (induction xs arbitrary: s) auto
  then show ?thesis by (simp add: RemoveAllInvites_def)
qed

text \<open>A disbanded group is gone; nothing else changes in the other groups but references and packet counters.\<close>

lemma Disband_gone: "gr p (Group_Disband w p hide s) = Group_init"
  by (simp add: Group_Disband_def Let_def gr_delete_group)

lemma Disband_others: "q \<noteq> p \<Longrightarrow> core (gr q (Group_Disband w p hide s)) = core (gr q s)"
  by (simp add: Group_Disband_def Let_def gr_delete_group gr_RemoveAllInvites core_simps)

lemma all_ok_Disband: assumes "all_ok s" shows "all_ok (Group_Disband w p hide s)"
proof -
  have "group_ok (gr q (Group_Disband w p hide s))" for q
    using assms by (cases "q = p") (simp_all add: Disband_gone group_ok_init group_ok_same [OF Disband_others] all_okD)
  then show ?thesis by (simp add: all_ok_def)
qed

lemma all_ok_RemoveMember: "all_ok s \<Longrightarrow> all_ok (snd (Group_RemoveMember w p g rm kicker reason s))"
  by (simp add: Group_RemoveMember_def settle_group_def Let_def all_ok_Disband all_ok_remove_slot)

lemma all_ok_delete_group: "all_ok s \<Longrightarrow> all_ok (delete_group p s)"
  by (simp add: all_ok_def gr_delete_group group_ok_init)

lemma all_ok_RemoveAllInvites: assumes "all_ok s" shows "all_ok (RemoveAllInvites p s)"
  by (rule all_ok_shape [OF _ assms]) (simp add: gr_RemoveAllInvites)

lemma shape_RemoveInvite [simp]: "shape (gr q (RemoveInvite p g s)) = shape (gr q s)"
  by (simp add: RemoveInvite_def)

lemma shape_AddInvite [simp]: "shape (gr q (snd (AddInvite p g s))) = shape (gr q s)"
  by (simp add: AddInvite_def Let_def)

lemma shape_AddLeaderInvite [simp]: "shape (gr q (snd (AddLeaderInvite w p g s))) = shape (gr q s)"
proof -
  have "shape (gr q s1) = shape (gr q s)" if "AddInvite p g s = (ok, s1)" for q ok s1
    by (metis shape_AddInvite snd_conv that)
  then show ?thesis by (simp add: AddLeaderInvite_def split: prod.split)
qed

lemma all_ok_Uninvite: assumes "all_ok s" shows "all_ok (UninviteFromGroup w g s)"
proof -
  have "all_ok (RemoveInvite p g s)" for p by (rule all_ok_shape [OF _ assms]) simp
  then show ?thesis using assms
    by (simp add: UninviteFromGroup_def Let_def all_ok_Disband all_ok_delete_group all_ok_RemoveAllInvites split: option.split)
qed

end
