(* ===== verification/GroupReach.thy ===== *)
theory GroupReach
  imports GroupSteps
begin

text \<open>
  The step relation of the groups, its reachable states, and what holds in all of them:
  every group is well formed, and a group that is not full takes a new member.
\<close>

section \<open>Subgroups, flags, icons, settings\<close>

lemma group_ok_SendUpdate_gr: "group_ok (gr q (SendUpdate w p s)) = group_ok (gr q s)"
  by simp

lemma gr_setSubGroup [simp]: "gr q (setSubGroup k g sub s) = gr q s"
  by (simp add: setSubGroup_def)

lemma all_ok_ChangeMembersGroup:
  assumes ok: "all_ok s" and sub: "unat sub < 8" "HasFreeSlotSubGroup sub (gr p s)"
  shows "all_ok (ChangeMembersGroup w p g sub s)"
proof (cases "isRaidGroup (gr p s) \<and> (\<exists>m. find_slot g (gr p s) = Some m \<and> sl_group m \<noteq> sub)")
  case True
  then obtain m where m: "isRaidGroup (gr p s)" "find_slot g (gr p s) = Some m" "sl_group m \<noteq> sub" by blast
  obtain cs where "pg_counts (gr p s) = Some cs" using all_okD [OF ok, of p] m(1) by (auto simp: group_ok_def)
  then have "slots_in (unat sub) (pg_members (gr p s)) < 5"
    using group_count(1) [OF all_okD [OF ok, of p] _ sub(1)] sub(2) by (simp add: HasFreeSlotSubGroup_def)
  then have "all_ok (on_gr p (\<lambda>gp. SubGroupCounterDecrease (sl_group m) (SubGroupCounterIncrease sub
               (on_slot_of g (\<lambda>m. m\<lparr>sl_group := sub\<rparr>) gp))) s)"
    using group_ok_move [OF all_okD [OF ok] m(2,1) sub(1) m(3)] ok by (simp add: all_ok_on_gr)
  then show ?thesis using m by (simp add: ChangeMembersGroup_def Let_def all_ok_def split: if_splits)
next
  case False
  then show ?thesis using ok by (auto simp: ChangeMembersGroup_def split: option.split)
qed

lemma all_ok_SetGroupMemberFlag: assumes "all_ok s" shows "all_ok (SetGroupMemberFlag w p g on flag s)"
proof -
  define gp1 where "gp1 = (if flag = MEMBER_FLAG_ASSISTANT then gr p s else RemoveUniqueGroupMemberFlag flag (gr p s))"
  have ok1: "group_ok gp1" using all_okD [OF assms, of p] by (simp add: gp1_def group_ok_unique)
  have "group_ok (on_slot_of g (ToggleGroupMemberFlag flag on) gp1)"
    by (rule group_ok_slot [OF ok1]) (simp_all add: ToggleGroupMemberFlag_def)
  then show ?thesis using assms
    by (auto simp: SetGroupMemberFlag_def Let_def all_ok_on_gr all_ok_def gp1_def)
qed

lemma all_ok_SetLfgRoles: assumes "all_ok s" shows "all_ok (SetLfgRoles w p g roles s)"
proof -
  have "group_ok (on_slot_of g (\<lambda>m. m\<lparr>sl_roles := roles\<rparr>) (gr p s))"
    by (rule group_ok_slot [OF all_okD [OF assms]]) simp_all
  then show ?thesis using assms by (simp add: SetLfgRoles_def all_ok_on_gr)
qed

text \<open>Setting an icon clears the same target elsewhere first.\<close>

lemma shape_not_icons: "shape gp = (pg_members gp, pg_counts gp, pg_type gp, pg_icons gp)"
  by (simp add: shape_def)

definition clear_icons :: "guid \<Rightarrow> nat list \<Rightarrow> guid list \<Rightarrow> guid list" where
  "clear_icons t js xs = fold (\<lambda>j xs. if xs ! j = t then xs[j := 0] else xs) js xs"

lemma clear_fold:
  "list_all (\<lambda>j. j < 8) js \<Longrightarrow>
   gr q (fold (\<lambda>j s. if pg_icons (gr p s) ! j = t then put_icon w p (of_nat j) 0 0 s else s) js s) =
     (if q = p then gr p s\<lparr>pg_icons := clear_icons t js (pg_icons (gr p s))\<rparr> else gr q s)"
proof (induction js arbitrary: s)
  case (Cons j js)
  have j: "unat (of_nat j :: uint8) = j" using Cons.prems by (simp add: unat_small)
  show ?case using Cons by (auto simp: put_icon_def clear_icons_def j)
qed (simp add: clear_icons_def)

lemma clear_icons_length [simp]: "length (clear_icons t js xs) = length xs"
proof -
  have "length (fold (\<lambda>j xs. if xs ! j = t then xs[j := 0] else xs) js xs) = length xs"
    by (induction js arbitrary: xs) auto
  then show ?thesis by (simp add: clear_icons_def)
qed

lemma clear_icons_nth:
  "t \<noteq> 0 \<Longrightarrow> list_all (\<lambda>j. j < length xs) js \<Longrightarrow> i < length xs \<Longrightarrow>
   clear_icons t js xs ! i = (if i \<in> set js \<and> xs ! i = t then 0 else xs ! i)"
  unfolding clear_icons_def by (induction js arbitrary: xs) (auto simp: nth_list_update)

lemma group_ok_put_icons:
  "group_ok gp \<Longrightarrow> icons_ok xs \<Longrightarrow> group_ok (gp\<lparr>pg_icons := xs\<rparr>)"
  by (simp add: group_ok_def counts_ok_def isRaidGroup_def split: option.splits)

lemma icons_ok_set:
  assumes ok: "icons_ok xs" and i: "i < 8"
  shows "icons_ok ((if t \<noteq> 0 then clear_icons t [0..<8] xs else xs)[i := t])"
proof (cases "t = 0")
  case True
  then show ?thesis using ok i by (auto simp: icons_ok_def nth_list_update)
next
  case False
  have "clear_icons t [0..<8] xs ! j = (if xs ! j = t then 0 else xs ! j)" if "j < 8" for j
    using clear_icons_nth [OF False, of xs "[0..<8]" j] ok that by (simp add: icons_ok_def list_all_iff)
  then show ?thesis using ok i False by (auto simp: icons_ok_def nth_list_update)
qed

lemma all_ok_SetTargetIcon: assumes ok: "all_ok s" shows "all_ok (SetTargetIcon w p i who t s)"
proof (cases "unat i < 8")
  case True
  define xs where "xs = (if t \<noteq> 0 then clear_icons t [0..<8] (pg_icons (gr p s)) else pg_icons (gr p s))[unat i := t]"
  have "gr q (SetTargetIcon w p i who t s) = (if q = p then gr p s\<lparr>pg_icons := xs\<rparr> else gr q s)" for q
    using True by (simp add: SetTargetIcon_def Let_def put_icon_def clear_fold list_all_iff xs_def del: upt_Suc)
  moreover have "icons_ok xs" using icons_ok_set [OF _ True] all_okD [OF ok, of p] unfolding xs_def by (simp add: group_ok_def)
  ultimately show ?thesis using ok by (simp add: all_ok_def group_ok_put_icons)
qed (use ok in \<open>simp add: SetTargetIcon_def\<close>)

section \<open>Loading\<close>

text \<open>The members' rows of a stored group.\<close>

definition rows_of :: "uint32 \<Rightarrow> member_row list \<Rightarrow> member_row list" where
  "rows_of sid = filter (\<lambda>(i, _). i = sid)"

text \<open>
  The tables a server starts from: a member has one row (\<^verbatim>\<open>memberGuid\<close> is the primary key of \<^verbatim>\<open>group_member\<close>),
  leaders exist (\<^verbatim>\<open>LoadGroups\<close> deletes the other rows first), no group has more rows
  than places.  Nothing is said of the flags of the members.
\<close>

definition tables_ok :: "party_world \<Rightarrow> (nat \<times> group_row) list \<Rightarrow> member_row list \<Rightarrow> bool" where
  "tables_ok w gs ms \<longleftrightarrow>
     distinct (map fst gs) \<and> distinct (map (\<lambda>(_, g, _). g) ms) \<and>
     list_all (\<lambda>(_, _, _, sub, _). unat sub < MAX_RAID_SUBGROUPS) ms \<and>
     list_all (\<lambda>(p, row). pw_dbName w (Global HG_Player (gw_leader row)) \<noteq> None \<and> icons_ok (gw_icons row) \<and>
       (has_bits (gw_type row) GROUPTYPE_RAID \<or> length (rows_of (gw_dbId row) ms) \<le> MAXGROUPSIZE) \<and>
       list_all (\<lambda>i. length (filter (\<lambda>(_, _, _, sub, _). unat sub = i) (rows_of (gw_dbId row) ms)) \<le> MAXGROUPSIZE)
         [0..<MAX_RAID_SUBGROUPS]) gs"

text \<open>The slot of a row, if the player exists.\<close>

definition row_slots :: "party_world \<Rightarrow> member_row list \<Rightarrow> member_slot list" where
  "row_slots w ms = map (\<lambda>(_, g, flags, sub, roles).
     \<lparr>sl_guid = Global HG_Player g, sl_name = the (pw_dbName w (Global HG_Player g)), sl_group = sub, sl_flags = flags, sl_roles = roles\<rparr>)
     (filter (\<lambda>(_, g, _). pw_dbName w (Global HG_Player g) \<noteq> None) ms)"

lemma Global_player: "Global HG_Player c = ucast c"
  by (simp add: Global_def)

lemma ucast_player_inj:
  fixes a b :: uint32
  assumes "(ucast a :: guid) = ucast b"
  shows "a = b"
proof -
  have "(ucast (ucast c :: guid) :: uint32) = c" for c :: uint32 by (rule bit_word_eqI) (simp add: bit_simps)
  then show ?thesis using assms by metis
qed

lemma dbId_Register: "GetGroupByDbStoreId i (RegisterGroupDbStoreId sid p s) = (if i = sid then Some p else GetGroupByDbStoreId i s)"
  by (auto simp: GetGroupByDbStoreId_def RegisterGroupDbStoreId_def Let_def nth_append nth_list_update word_unat_eq_iff)

lemma load_member_store [simp]: "GetGroupByDbStoreId i (load_member w r s) = GetGroupByDbStoreId i s"
  by (auto simp: load_member_def LoadMemberFromDB_def Let_def GetGroupByDbStoreId_def on_gr_def fx_def split: prod.splits option.splits)

lemma load_members_gr:
  "gr q (fold (load_member w) ms s) =
     fold push_slot (row_slots w (filter (\<lambda>r. GetGroupByDbStoreId (fst r) s = Some q) ms)) (gr q s)"
proof (induction ms arbitrary: s)
  case (Cons r ms)
  have "gr q (load_member w r s) =
      fold push_slot (row_slots w (filter (\<lambda>r. GetGroupByDbStoreId (fst r) s = Some q) [r])) (gr q s)"
    by (auto simp: load_member_def LoadMemberFromDB_def Let_def row_slots_def split: prod.splits option.splits)
  then show ?case using Cons.IH [of "load_member w r s"] by (simp add: row_slots_def)
qed (simp add: row_slots_def)

lemma group_ok_push_all:
  "group_ok gp \<Longrightarrow> distinct (map sl_guid (pg_members gp @ ms)) \<Longrightarrow> list_all (\<lambda>m. unat (sl_group m) < 8) ms \<Longrightarrow>
   \<forall>i<8. slots_in i (pg_members gp @ ms) \<le> 5 \<Longrightarrow> pg_counts gp = None \<longrightarrow> length (pg_members gp @ ms) \<le> 5 \<Longrightarrow>
   group_ok (fold push_slot ms gp)"
proof (induction ms arbitrary: gp)
  case (Cons m ms)
  have "slots_in (unat (sl_group m)) (pg_members gp @ m # ms) \<le> 5" using Cons.prems(3,4) by (simp del: slots_in_append slots_in_Cons)
  then have ok: "group_ok (push_slot m gp)"
    using Cons.prems(2,3,5) by (intro group_ok_push [OF Cons.prems(1)]) auto
  have mem: "pg_members (push_slot m gp) = pg_members gp @ [m]" "pg_counts (push_slot m gp) = None \<longleftrightarrow> pg_counts gp = None"
    by (simp_all add: push_slot_def SubGroupCounterIncrease_def split: option.split)
  show ?case unfolding fold_simps
    by (rule Cons.IH [OF ok]) (use Cons.prems in \<open>simp_all add: mem\<close>)
qed simp

text \<open>After the groups: all are empty and well formed, and the pool of ids leads to the groups that have them.\<close>

definition groups_loaded :: "(nat \<times> group_row) list \<Rightarrow> party_state \<Rightarrow> bool" where
  "groups_loaded gs s \<longleftrightarrow> (\<forall>q. group_ok (gr q s) \<and> pg_members (gr q s) = []) \<and>
     (\<forall>i q. GetGroupByDbStoreId i s = Some q \<longrightarrow> (\<exists>row. (q, row) \<in> set gs \<and> gw_dbId row = i \<and>
        (pg_counts (gr q s) = None \<longleftrightarrow> \<not> has_bits (gw_type row) GROUPTYPE_RAID)))"

lemma group_ok_empty:
  "pg_members gp = [] \<Longrightarrow> icons_ok (pg_icons gp) \<Longrightarrow> pg_counts gp = (if isRaidGroup gp then Some (replicate 8 0) else None) \<Longrightarrow> group_ok gp"
  by (auto simp: group_ok_def counts_ok_def list_all_iff map_replicate_const)

lemma gr_counters [simp]:
  "gr q (s\<lparr>gm_nextId := x\<rparr>) = gr q s" "gr q (s\<lparr>gm_stopped := b\<rparr>) = gr q s" "gr q (s\<lparr>gm_store := st\<rparr>) = gr q s"
  "gr q (s\<lparr>gm_dbStore := db\<rparr>) = gr q s" "gr q (s\<lparr>gm_nextDb := x\<rparr>) = gr q s"
  by (simp_all add: gr_def)

lemma dbId_same [simp]:
  "GetGroupByDbStoreId i (fx es s) = GetGroupByDbStoreId i s" "GetGroupByDbStoreId i (on_gr p f s) = GetGroupByDbStoreId i s"
  "GetGroupByDbStoreId i (AddGroup p s) = GetGroupByDbStoreId i s" "GetGroupByDbStoreId i (new_group p s) = GetGroupByDbStoreId i s"
  "GetGroupByDbStoreId i (s\<lparr>gm_nextDb := x\<rparr>) = GetGroupByDbStoreId i s"
  "GetGroupByDbStoreId i (snd (GenerateGroupId s)) = GetGroupByDbStoreId i s"
  by (simp_all add: GetGroupByDbStoreId_def fx_def on_gr_def AddGroup_def new_group_def GenerateGroupId_def Let_def)

lemma gr_new_group: "gr q (new_group p s) = (if q = p then Group_init else gr q s)"
  by (simp add: gr_def new_group_def om_at_def)

lemma LoadGroupFromDB_gr:
  assumes "pw_dbName w (Global HG_Player (gw_leader row)) \<noteq> None" and "gr p s = Group_init"
  shows "\<exists>gp. (\<forall>q. gr q (LoadGroupFromDB w p row s) = (if q = p then gp else gr q s)) \<and> pg_members gp = [] \<and>
      pg_icons gp = gw_icons row \<and> pg_type gp = gw_type row \<and> pg_dbId gp = gw_dbId row \<and>
      pg_counts gp = (if has_bits (gw_type row) GROUPTYPE_RAID then Some (replicate 8 0) else None)"
    and "GetGroupByDbStoreId i (LoadGroupFromDB w p row s) = GetGroupByDbStoreId i s"
proof -
  obtain c s1 where g: "GenerateGroupId s = (c, s1)" by fastforce
  have s1: "gr q s1 = gr q s" "GetGroupByDbStoreId i s1 = GetGroupByDbStoreId i s" for q
    using g dbId_same(6) [of i s] by (auto simp: GenerateGroupId_def Let_def split: if_splits)
  obtain name where n: "pw_dbName w (Global HG_Player (gw_leader row)) = Some name" using assms(1) by blast
  show "\<exists>gp. (\<forall>q. gr q (LoadGroupFromDB w p row s) = (if q = p then gp else gr q s)) \<and> pg_members gp = [] \<and>
      pg_icons gp = gw_icons row \<and> pg_type gp = gw_type row \<and> pg_dbId gp = gw_dbId row \<and>
      pg_counts gp = (if has_bits (gw_type row) GROUPTYPE_RAID then Some (replicate 8 0) else None)"
    by (rule exI [of _ "gr p (LoadGroupFromDB w p row s)"])
      (simp add: LoadGroupFromDB_def g n Let_def s1 assms(2) Group_init_def initRaidSubGroupsCounter_def)
  show "GetGroupByDbStoreId i (LoadGroupFromDB w p row s) = GetGroupByDbStoreId i s"
    by (simp add: LoadGroupFromDB_def g n Let_def s1)
qed

lemma load_group_gr:
  assumes "pw_dbName w (Global HG_Player (gw_leader row)) \<noteq> None"
  shows "\<exists>gp. (\<forall>q. gr q (load_group w (p, row) s) = (if q = p then gp else gr q s)) \<and> pg_members gp = [] \<and>
      pg_icons gp = gw_icons row \<and> pg_type gp = gw_type row \<and>
      pg_counts gp = (if has_bits (gw_type row) GROUPTYPE_RAID then Some (replicate 8 0) else None)"
    and "GetGroupByDbStoreId i (load_group w (p, row) s) = (if i = gw_dbId row then Some p else GetGroupByDbStoreId i s)"
proof -
  have new: "gr p (new_group p s) = Group_init" by (simp add: gr_new_group)
  obtain gp where all: "\<forall>q. gr q (LoadGroupFromDB w p row (new_group p s)) = (if q = p then gp else gr q (new_group p s))"
    and gp: "pg_members gp = []" "pg_icons gp = gw_icons row" "pg_type gp = gw_type row" "pg_dbId gp = gw_dbId row"
      "pg_counts gp = (if has_bits (gw_type row) GROUPTYPE_RAID then Some (replicate 8 0) else None)"
    using LoadGroupFromDB_gr(1) [OF assms new] by blast
  have one: "gr q (LoadGroupFromDB w p row (new_group p s)) = (if q = p then gp else gr q s)" for q
    using all by (simp add: gr_new_group)
  have "gr q (load_group w (p, row) s) = (if q = p then gp else gr q s)" for q
    by (simp add: load_group_def Let_def one AddGroup_def RegisterGroupDbStoreId_def)
  then show "\<exists>gp. (\<forall>q. gr q (load_group w (p, row) s) = (if q = p then gp else gr q s)) \<and> pg_members gp = [] \<and>
      pg_icons gp = gw_icons row \<and> pg_type gp = gw_type row \<and>
      pg_counts gp = (if has_bits (gw_type row) GROUPTYPE_RAID then Some (replicate 8 0) else None)"
    using gp by blast
  have "gr p (AddGroup p x) = gr p x" for x by (simp add: AddGroup_def)
  then show "GetGroupByDbStoreId i (load_group w (p, row) s) = (if i = gw_dbId row then Some p else GetGroupByDbStoreId i s)"
    using LoadGroupFromDB_gr(2) [OF assms new, of i]
    by (simp add: load_group_def Let_def one gp(4) dbId_Register)
qed

lemma groups_loaded_all:
  "groups_loaded gs0 s \<Longrightarrow> distinct (map fst (gs0 @ gs)) \<Longrightarrow>
   list_all (\<lambda>(p, row). pw_dbName w (Global HG_Player (gw_leader row)) \<noteq> None \<and> icons_ok (gw_icons row)) gs \<Longrightarrow>
   groups_loaded (gs0 @ gs) (fold (load_group w) gs s)"
proof (induction gs arbitrary: gs0 s)
  case (Cons x gs)
  obtain p row where x: "x = (p, row)" by fastforce
  have n: "pw_dbName w (Global HG_Player (gw_leader row)) \<noteq> None" "icons_ok (gw_icons row)" using Cons.prems(3) x by auto
  obtain gp where gp: "\<forall>q. gr q (load_group w (p, row) s) = (if q = p then gp else gr q s)" "pg_members gp = []"
      "pg_icons gp = gw_icons row" "pg_type gp = gw_type row"
      "pg_counts gp = (if has_bits (gw_type row) GROUPTYPE_RAID then Some (replicate 8 0) else None)"
    using load_group_gr(1) [OF n(1), of p s] by blast
  have "group_ok gp" by (rule group_ok_empty) (use gp n(2) in \<open>simp_all add: isRaidGroup_def\<close>)
  moreover have "p \<notin> fst ` set gs0" using Cons.prems(2) x by auto
  ultimately have "groups_loaded (gs0 @ [x]) (load_group w x s)"
    using Cons.prems(1) gp n(1) unfolding groups_loaded_def x
    by (fastforce simp: load_group_gr(2) image_iff split: if_splits)
  from Cons.IH [OF this] Cons.prems(2,3) show ?case by simp
qed simp

lemma all_ok_LoadGroups:
  assumes "tables_ok w gs ms"
  shows "all_ok (LoadGroups w gs ms (mgr_init gen))"
proof -
  let ?s = "fold (load_group w) gs (mgr_init gen)"
  have T: "distinct (map fst gs)" "distinct (map (\<lambda>(_, g, _). g) ms)" "list_all (\<lambda>(_, _, _, sub, _). unat sub < 8) ms"
    using assms by (simp_all add: tables_ok_def)
  have "groups_loaded [] (mgr_init gen)"
    using group_ok_init
    by (simp add: groups_loaded_def mgr_init_def gr_def om_at_def GetGroupByDbStoreId_def) (simp add: Group_init_def)
  moreover have "list_all (\<lambda>(p, row). pw_dbName w (Global HG_Player (gw_leader row)) \<noteq> None \<and> icons_ok (gw_icons row)) gs"
    using assms by (auto simp: tables_ok_def list_all_iff)
  ultimately have L: "groups_loaded gs ?s"
    using groups_loaded_all [of "[]" "mgr_init gen" gs w] T(1) by simp
  have "group_ok (gr q (fold (load_member w) ms ?s))" for q
  proof (cases "\<exists>i. GetGroupByDbStoreId i ?s = Some q")
    case True
    then obtain i where i: "GetGroupByDbStoreId i ?s = Some q" by blast
    then obtain row where row: "(q, row) \<in> set gs" "gw_dbId row = i" "pg_counts (gr q ?s) = None \<longleftrightarrow> \<not> has_bits (gw_type row) GROUPTYPE_RAID"
      using L unfolding groups_loaded_def by blast
    have "j = i" if "GetGroupByDbStoreId j ?s = Some q" for j
      using L that row(1,2) T(1) unfolding groups_loaded_def by (metis eq_key_imp_eq_value)
    then have "GetGroupByDbStoreId j ?s = Some q \<longleftrightarrow> j = i" for j using i by blast
    then have own: "filter (\<lambda>r. GetGroupByDbStoreId (fst r) ?s = Some q) ms = rows_of i ms"
      unfolding rows_of_def by (intro filter_cong refl) (simp add: case_prod_beta)
    have E: "pg_members (gr q ?s) = []" "group_ok (gr q ?s)" using L by (simp_all add: groups_loaded_def)
    have R: "length (rows_of i ms) \<le> 5 \<or> has_bits (gw_type row) GROUPTYPE_RAID"
      "\<forall>k<8. length (filter (\<lambda>(_, _, _, sub, _). unat sub = k) (rows_of i ms)) \<le> 5"
      using assms row(1,2) by (auto simp: tables_ok_def list_all_iff)
    show ?thesis unfolding load_members_gr own
    proof (rule group_ok_push_all)
      show "group_ok (gr q ?s)" by (rule E(2))
      have "distinct (map sl_guid (row_slots w xs))" if "distinct (map (\<lambda>(_, g, _). g) xs)" for xs :: "member_row list"
      proof -
        have "map sl_guid (row_slots w xs) =
            map ucast (map (\<lambda>(_, g, _). g) (filter (\<lambda>(_, g, _). pw_dbName w (Global HG_Player g) \<noteq> None) xs))"
          by (induction xs) (auto simp: row_slots_def Global_player)
        moreover have "inj_on (ucast :: uint32 \<Rightarrow> guid) A" for A by (rule inj_onI) (rule ucast_player_inj)
        moreover have "distinct (map (\<lambda>(_, g, _). g) (filter (\<lambda>(_, g, _). pw_dbName w (Global HG_Player g) \<noteq> None) xs))"
          by (rule distinct_map_filter [OF that])
        ultimately show ?thesis by (simp only: distinct_map [of ucast])
      qed
      moreover have "distinct (map (\<lambda>(_, g, _). g) (rows_of i ms))"
        unfolding rows_of_def by (rule distinct_map_filter [OF T(2)])
      ultimately show "distinct (map sl_guid (pg_members (gr q ?s) @ row_slots w (rows_of i ms)))" by (simp add: E(1))
      show "list_all (\<lambda>m. unat (sl_group m) < 8) (row_slots w (rows_of i ms))"
        using T(3) by (fastforce simp: row_slots_def rows_of_def list_all_iff)
      have "slots_in k (row_slots w xs) \<le> length (filter (\<lambda>(_, _, _, sub, _). unat sub = k) xs)" for k and xs :: "member_row list"
        by (induction xs) (auto simp: row_slots_def split: prod.splits)
      then show "\<forall>k<8. slots_in k (pg_members (gr q ?s) @ row_slots w (rows_of i ms)) \<le> 5"
        using R(2) by (auto simp: E(1) intro: le_trans)
      have "length (row_slots w xs) \<le> length xs" for xs by (simp add: row_slots_def)
      then show "pg_counts (gr q ?s) = None \<longrightarrow> length (pg_members (gr q ?s) @ row_slots w (rows_of i ms)) \<le> 5"
        using R(1) row(3) by (auto simp: E(1) intro: le_trans)
    qed
  next
    case False
    then have "filter (\<lambda>r. GetGroupByDbStoreId (fst r) ?s = Some q) ms = []" by (auto simp: filter_empty_conv)
    then show ?thesis using L unfolding load_members_gr groups_loaded_def by (simp add: row_slots_def)
  qed
  moreover have "all_ok (mgr_init gen)" using group_ok_init by (simp add: all_ok_def mgr_init_def gr_def om_at_def)
  ultimately show ?thesis by (simp add: all_ok_def LoadGroups_def)
qed

section \<open>Steps\<close>

text \<open>Packets and calls into players.\<close>

fun sending :: "party_fx \<Rightarrow> bool" where
  "sending (Send _ _) = True"
| "sending (Call _ _) = True"
| "sending _ = False"

text \<open>
  The operations of the groups: a player is added to a group that is not
  full (the handler of an acceptance asks) and that he is not in (nobody asks: the handlers look at his reference,
  and \<open>player_twice_in_group\<close> of \<open>GroupClients\<close> is a run in which it is wrong), and moved to a subgroup with a free place.
  A server starts without groups or with those of its tables.
\<close>

inductive party_step :: "party_world \<Rightarrow> party_state \<Rightarrow> party_state \<Rightarrow> bool" for w where
  st_new: "om_find (ps_groups s) p = None \<Longrightarrow> party_step w s (new_group p s)"
| st_bg: "pg_members (gr p s) = [] \<Longrightarrow> party_step w s (SetBattlegroundGroup p bg s)"
| st_bf: "pg_members (gr p s) = [] \<Longrightarrow> party_step w s (SetBattlefieldGroup p bg s)"
| st_create: "pg_members (gr p s) = [] \<Longrightarrow> party_step w s (snd (Group_Create w p g s))"
| st_register: "party_step w s (AddGroup p s)"
| st_add: "\<not> IsFull (gr p s) \<Longrightarrow> \<not> IsMember g (gr p s) \<Longrightarrow> party_step w s (snd (Group_AddMember w p g s))"
| st_remove: "party_step w s (snd (Group_RemoveMember w p g rm kicker reason s))"
| st_leader: "party_step w s (Group_ChangeLeader w p g s)"
| st_disband: "party_step w s (Group_Disband w p hide s)"
| st_raid: "party_step w s (ConvertToRaid w p s)"
| st_lfg: "party_step w s (ConvertToLFG w p s)"
| st_move: "unat sub < MAX_RAID_SUBGROUPS \<Longrightarrow> HasFreeSlotSubGroup sub (gr p s) \<Longrightarrow> party_step w s (ChangeMembersGroup w p g sub s)"
| st_flag: "party_step w s (SetGroupMemberFlag w p g on flag s)"
| st_unique: "party_step w s (on_gr p (RemoveUniqueGroupMemberFlag flag) s)"
| st_roles: "party_step w s (SetLfgRoles w p g roles s)"
| st_icon: "party_step w s (SetTargetIcon w p i who t s)"
| st_invite: "party_step w s (snd (AddInvite p g s))"
| st_lead: "party_step w s (snd (AddLeaderInvite w p g s))"
| st_decline: "party_step w s (RemoveInvite p g s)"
| st_uninvite: "party_step w s (UninviteFromGroup w g s)"
| st_clear: "party_step w s (RemoveAllInvites p s)"
| st_loot: "party_step w s (GroupLoot w p l ob s)"
| st_need: "NeedBeforeGreed w p l ob s = Some s' \<Longrightarrow> party_step w s s'"
| st_master: "party_step w s (MasterLoot w p l ob s)"
| st_vote: "party_step w s (CountRollVote w p g ig choice s)"
| st_end: "party_step w s (EndRoll w p l s)"
| st_looter: "party_step w s (UpdateLooterGuid w p ob ifneed s)"
| st_method: "party_step w s (SetLootMethod p x s)"
| st_threshold: "party_step w s (SetLootThreshold p x s)"
| st_ml: "party_step w s (SetMasterLooterGuid p g s)"
| st_dd: "party_step w s (SetDungeonDifficulty w p x s)"
| st_rd: "party_step w s (SetRaidDifficulty w p x s)"
| st_update: "party_step w s (SendUpdate w p s)"
| st_delete: "party_step w s (delete_group p s)"
| st_send: "list_all sending es \<Longrightarrow> party_step w s (fx es s)"

inductive party_reach :: "party_world \<Rightarrow> party_state \<Rightarrow> bool" for w where
  re_init: "party_reach w (mgr_init gen)"
| re_load: "tables_ok w group_rows member_rows \<Longrightarrow> party_reach w (LoadGroups w group_rows member_rows (mgr_init gen))"
| re_step: "party_reach w s \<Longrightarrow> party_step w s s' \<Longrightarrow> party_reach w s'"

lemma shape_settings [simp]:
  "shape (gr q (SetBattlegroundGroup p bg s)) = shape (gr q s)" "shape (gr q (SetBattlefieldGroup p bf s)) = shape (gr q s)"
  "shape (gr q (SetLootMethod p x s)) = shape (gr q s)" "shape (gr q (SetLootThreshold p x s)) = shape (gr q s)"
  "shape (gr q (SetMasterLooterGuid p g s)) = shape (gr q s)" "shape (gr q (SetLooterGuid p g s)) = shape (gr q s)"
  "shape (gr q (SetDungeonDifficulty w p x s)) = shape (gr q s)" "shape (gr q (SetRaidDifficulty w p x s)) = shape (gr q s)"
  "shape (gr q (SendUpdate w p s)) = shape (gr q s)"
  by (simp_all add: SetBattlegroundGroup_def SetBattlefieldGroup_def SetLootMethod_def SetLootThreshold_def
      SetMasterLooterGuid_def SetLooterGuid_def SetDungeonDifficulty_def SetRaidDifficulty_def Let_def
      shape_core [OF core_SendUpdate])

lemma shape_UpdateLooterGuid [simp]: "shape (gr q (UpdateLooterGuid w p ob ifneed s)) = shape (gr q s)"
  by (simp add: UpdateLooterGuid_def Let_def split: option.split)

lemma all_ok_new: "all_ok s \<Longrightarrow> all_ok (new_group p s)"
  by (simp add: all_ok_def new_group_def gr_def om_at_def group_ok_init)

lemma all_ok_step: assumes "party_step w s s'" and "all_ok s" shows "all_ok s'"
  using assms
proof cases
  case st_need
  show ?thesis by (rule all_ok_shape [OF shape_NeedBeforeGreed [OF st_need] assms(2)])
qed (use assms(2) in \<open>auto simp: all_ok_new all_ok_Create all_ok_AddMember all_ok_RemoveMember all_ok_ChangeLeader
      all_ok_Disband all_ok_ConvertToRaid all_ok_ConvertToLFG all_ok_ChangeMembersGroup all_ok_SetGroupMemberFlag
      all_ok_SetLfgRoles all_ok_SetTargetIcon all_ok_Uninvite all_ok_delete_group all_ok_RemoveAllInvites all_okD all_ok_on_gr group_ok_unique
      intro: all_ok_shape [rotated]\<close>)

lemma reach_all_ok: "party_reach w s \<Longrightarrow> all_ok s"
proof (induction rule: party_reach.induct)
  case (re_init gen)
  then show ?case by (simp add: all_ok_def mgr_init_def gr_def om_at_def group_ok_init)
next
  case (re_load group_rows member_rows gen)
  then show ?case by (rule all_ok_LoadGroups)
qed (rule all_ok_step)

lemma AddMember_place:
  assumes ok: "group_ok (gr p s)" and "\<not> IsFull (gr p s)"
  shows "fst (Group_AddMember w p g s)"
proof (cases "pg_counts (gr p s)")
  case (Some cs)
  have "isRaidGroup (gr p s)" using ok Some by (simp add: group_ok_def)
  then have "first_subgroup cs \<noteq> None" using raid_room [OF ok Some] assms(2) by (simp add: IsFull_def)
  then show ?thesis using Some by (auto simp: Group_AddMember_def)
qed (simp add: Group_AddMember_def)

section \<open>A sample state\<close>

text \<open>Tables of a raid with two main tanks.\<close>

definition sample_rows :: "(nat \<times> group_row) list" where
  "sample_rows = [(1, \<lparr>gw_leader = 2, gw_lootMethod = GROUP_LOOT, gw_looter = 2, gw_threshold = 2, gw_icons = replicate 8 0,
     gw_type = GROUPTYPE_RAID, gw_difficulty = 0, gw_raidDifficulty = 0, gw_masterLooter = 0, gw_dbId = 1\<rparr>)]"

definition sample_member_rows :: "member_row list" where
  "sample_member_rows = [(1, 2, MEMBER_FLAG_MAINTANK, 0, 0), (1, 3, MEMBER_FLAG_MAINTANK, 0, 0)]"

definition sample_loaded :: party_state where
  "sample_loaded = LoadGroups sample_party_world sample_rows sample_member_rows (mgr_init (generator_init HG_Item 1))"

lemma sample_loaded_reach: "party_reach sample_party_world sample_loaded"
  unfolding sample_loaded_def
  by (rule re_load) (simp add: tables_ok_def sample_rows_def sample_member_rows_def rows_of_def sample_party_world_def list_all_iff)

lemma push_all_members: "pg_members (fold push_slot ms gp) = pg_members gp @ ms"
  by (induction ms arbitrary: gp) (simp_all add: push_slot_def SubGroupCounterIncrease_def split: option.split)

lemma sample_loaded_members: "map sl_guid (pg_members (gr 1 sample_loaded)) = [2, 3]"
  "flagged MEMBER_FLAG_MAINTANK (pg_members (gr 1 sample_loaded)) = 2"
proof -
  let ?row = "snd (hd sample_rows)" and ?s = "mgr_init (generator_init HG_Item 1)" and ?w = sample_party_world
  have rows: "sample_rows = [(1, ?row)]" "gw_dbId ?row = 1" by (simp_all add: sample_rows_def)
  have n: "pw_dbName ?w g = Some ''Ann''" for g by (simp add: sample_party_world_def)
  have named: "pw_dbName ?w (Global HG_Player (gw_leader ?row)) \<noteq> None" by (simp add: n)
  have empty: "pg_members (gr 1 (load_group ?w (1, ?row) ?s)) = []"
    using load_group_gr(1) [of ?w ?row 1 ?s] n by auto
  have store: "GetGroupByDbStoreId 1 (load_group ?w (1, ?row) ?s) = Some 1"
    unfolding load_group_gr(2) [OF named] rows(2) by simp
  have all: "filter (\<lambda>r. GetGroupByDbStoreId (fst r) (load_group ?w (1, ?row) ?s) = Some 1) sample_member_rows = sample_member_rows"
    unfolding sample_member_rows_def by (simp add: store [unfolded One_nat_def])
  have s: "sample_loaded = fold (load_member ?w) sample_member_rows (load_group ?w (1, ?row) ?s)"
    unfolding sample_loaded_def LoadGroups_def by (subst (2) rows(1)) (simp add: sample_rows_def)
  have "pg_members (gr 1 sample_loaded) = row_slots ?w sample_member_rows"
    unfolding s load_members_gr push_all_members all empty by simp
  then show "map sl_guid (pg_members (gr 1 sample_loaded)) = [2, 3]" "flagged MEMBER_FLAG_MAINTANK (pg_members (gr 1 sample_loaded)) = 2"
    by (simp_all add: row_slots_def sample_member_rows_def n Global_player has_bits_def)
qed

text \<open>Player 2 founds group 1 and player 3 joins.\<close>

definition sample_founded :: party_state where
  "sample_founded = snd (Group_Create sample_party_world 1 2 (new_group 1 (mgr_init (generator_init HG_Item 1))))"

definition sample_party :: party_state where
  "sample_party = snd (Group_AddMember sample_party_world 1 3 sample_founded)"

lemma sample_founded_reach: "party_reach sample_party_world sample_founded"
proof -
  let ?s = "mgr_init (generator_init HG_Item 1)"
  have "party_reach sample_party_world (new_group 1 ?s)"
    by (rule re_step [OF re_init st_new]) (simp add: mgr_init_def)
  then show ?thesis unfolding sample_founded_def
    by (rule re_step) (rule st_create, simp add: gr_def new_group_def om_at_def Group_init_def)
qed

lemma sample_open: "\<not> IsFull (gr 1 sample_founded)" "\<not> IsMember 3 (gr 1 sample_founded)"
  by code_simp+

lemma sample_party_reach: "party_reach sample_party_world sample_party"
  unfolding sample_party_def by (rule re_step [OF sample_founded_reach st_add [OF sample_open]])

section \<open>Properties\<close>



text \<open>A group that is not full always takes a player: the search for a subgroup finds
  one in every raid with fewer than forty members, so the assertion in \<^verbatim>\<open>Create\<close> never fires.
\<close>

theorem AddMember_finds_place:
  assumes "party_reach w s" and "\<not> IsFull (gr p s)"
  shows "fst (Group_AddMember w p g s)"
  using all_okD [OF reach_all_ok [OF assms(1)]] assms(2) by (rule AddMember_place)

lemma AddMember_finds_place_witness: "fst (Group_AddMember sample_party_world 1 3 sample_founded)"
  by (rule AddMember_finds_place [OF sample_founded_reach sample_open(1)])

section \<open>The main tank in the database\<close>

definition flags_of :: "guid \<Rightarrow> party_group \<Rightarrow> uint8" where
  "flags_of g gp = (case find_slot g gp of None \<Rightarrow> 0 | Some m \<Rightarrow> sl_flags m)"

fun is_sql :: "party_fx \<Rightarrow> bool" where
  "is_sql (Sql _) = True"
| "is_sql _ = False"

definition sqls :: "party_state \<Rightarrow> party_fx list" where
  "sqls s = filter is_sql (ps_fx s)"

lemma sqls_SendUpdate [simp]: "sqls (SendUpdate w p s) = sqls s"
proof -
  have "sqls (SendUpdateToPlayer w p g m s) = sqls s" for g m s
    by (auto simp: SendUpdateToPlayer_def sqls_def split: option.split)
  then have "sqls (fold (\<lambda>m. SendUpdateToPlayer w p (sl_guid m) (Some m)) ms s) = sqls s" for ms
    by (induction ms arbitrary: s) simp_all
  then show ?thesis by (simp add: SendUpdate_def)
qed

lemma find_join: "find P (xs @ ys) = (case find P xs of None \<Rightarrow> find P ys | Some x \<Rightarrow> Some x)"
  by (induction xs) simp_all

lemma find_slot_core: "core gp = core gp' \<Longrightarrow> find_slot h gp = find_slot h gp'"
  using shape_core [of gp gp'] by (simp add: shape_def find_slot_def)

lemma set_unique_flag:
  fixes s w p g flag
  defines "s' \<equiv> SetGroupMemberFlag w p g True flag s"
  assumes raid: "isRaidGroup (gr p s)" and slot: "find_slot g (gr p s) \<noteq> None"
    and flag: "flag \<in> {MEMBER_FLAG_MAINTANK, MEMBER_FLAG_MAINASSIST}"
  shows "flagged flag (pg_members (gr p s')) = 1" and "has_bits (flags_of g (gr p s')) flag"
    and "h \<noteq> g \<Longrightarrow> \<not> has_bits (flags_of h (gr p s')) flag"
    and "sqls s' = sqls s @ [Sql (CHAR_UPD_GROUP_MEMBER_FLAG (flags_of g (gr p s')) (GetCounter g))]"
    and "isRaidGroup (gr p s')" and "find_slot h (gr p s') = None \<longleftrightarrow> find_slot h (gr p s) = None"
proof -
  define gp1 where "gp1 = RemoveUniqueGroupMemberFlag flag (gr p s)"
  define gp2 where "gp2 = on_slot_of g (ToggleGroupMemberFlag flag True) gp1"
  let ?s2 = "on_gr p (on_slot_of g (ToggleGroupMemberFlag flag True)) (on_gr p (RemoveUniqueGroupMemberFlag flag) s)"
  have s': "s' = SendUpdate w p (fx [Sql (CHAR_UPD_GROUP_MEMBER_FLAG (flags_of g gp2) (GetCounter g))] ?s2)"
    using raid slot flag by (auto simp: s'_def SetGroupMemberFlag_def Let_def flags_of_def gp2_def gp1_def)
  have c: "core (gr p s') = core gp2" unfolding s' by (simp add: core_simps gp2_def gp1_def)
  have mem: "pg_members (gr p s') = pg_members gp2" using shape_core [OF c] by (simp add: shape_def)
  have fl: "flags_of k (gr p s') = flags_of k gp2" for k unfolding flags_of_def find_slot_core [OF c] ..
  have none: "\<not> has_bits (sl_flags m) flag" if "m \<in> set (pg_members gp1)" for m
    using that by (auto simp: gp1_def RemoveUniqueGroupMemberFlag_def split: if_splits)
  have "map sl_guid (pg_members gp1) = map sl_guid (pg_members (gr p s))"
    by (simp add: gp1_def RemoveUniqueGroupMemberFlag_def)
  then have same: "find_slot k gp1 = None \<longleftrightarrow> find_slot k (gr p s) = None" for k
    unfolding find_slot_None by (metis set_map)
  obtain m where m: "find_slot g gp1 = Some m" using slot same [of g] by auto
  obtain pre suf where ms: "pg_members gp1 = pre @ m # suf" "sl_guid m = g" "g \<notin> sl_guid ` set pre"
    using find_slot_split [OF m] .
  have mem2: "pg_members gp2 = pre @ m\<lparr>sl_flags := sl_flags m OR flag\<rparr> # suf"
    using ms by (simp add: gp2_def on_slot_of_def upd_slot_at ToggleGroupMemberFlag_def)
  have has: "has_bits (sl_flags m OR flag) flag" using flag by (auto simp: has_bits_or has_bits_def)
  have clean: "flagged flag pre = 0" "flagged flag suf = 0"
    using none ms(1) by (auto simp: flagged_def filter_empty_conv)
  show "flagged flag (pg_members (gr p s')) = 1" using clean has by (simp add: mem mem2)
  have pre: "find (\<lambda>m. sl_guid m = g) pre = None" using ms(3) by (auto simp: find_None_iff)
  then have found: "find_slot g gp2 = Some (m\<lparr>sl_flags := sl_flags m OR flag\<rparr>)"
    using ms(2) by (simp add: find_slot_def mem2 find_join)
  then show "has_bits (flags_of g (gr p s')) flag" using has unfolding fl unfolding flags_of_def by simp
  show "sqls s' = sqls s @ [Sql (CHAR_UPD_GROUP_MEMBER_FLAG (flags_of g (gr p s')) (GetCounter g))]"
    unfolding fl unfolding s' sqls_SendUpdate by (simp add: sqls_def)
  have k2: "find_slot k gp2 = (if k = g then find_slot g gp2 else find_slot k gp1)" for k
    using ms(1,2) mem2 by (auto simp: find_slot_def find_join split: option.split)
  show "\<not> has_bits (flags_of h (gr p s')) flag" if "h \<noteq> g"
  proof (cases "find_slot h gp1")
    case (Some n)
    then have "n \<in> set (pg_members gp1)" by (auto simp: find_slot_def find_Some_iff)
    then show ?thesis using none that Some unfolding fl unfolding flags_of_def by (simp add: k2)
  next
    case None
    then show ?thesis using that flag unfolding fl unfolding flags_of_def by (auto simp: k2 has_bits_def)
  qed
  show "find_slot h (gr p s') = None \<longleftrightarrow> find_slot h (gr p s) = None"
    using find_slot_core [OF c, of h] k2 [of h] found slot same [of h] by auto
  have "pg_type (gr p s') = pg_type (gr p s)"
    using shape_core [OF c] by (simp add: shape_def gp2_def gp1_def on_slot_of_def RemoveUniqueGroupMemberFlag_def)
  then show "isRaidGroup (gr p s')" using raid by (simp add: isRaidGroup_def)
qed

text \<open>C29: Naming a second main tank (or main assist) takes the flag from the first one in memory, but not in the
  database: the only statements are the two that write the new holders' flags, and the
  row of the first keeps his.  After a restart the raid has two.\<close>

theorem old_main_tank_stays_stored:
  assumes "isRaidGroup (gr p s)" "IsMember g (gr p s)" "IsMember h (gr p s)" "g \<noteq> h"
    and "flag \<in> {MEMBER_FLAG_MAINTANK, MEMBER_FLAG_MAINASSIST}"
  shows "let s1 = SetGroupMemberFlag w p g True flag s; s2 = SetGroupMemberFlag w p h True flag s1 in
    flagged flag (pg_members (gr p s2)) = 1 \<and> has_bits (flags_of h (gr p s2)) flag \<and> \<not> has_bits (flags_of g (gr p s2)) flag \<and>
    (\<exists>fg fh. sqls s2 = sqls s @ [Sql (CHAR_UPD_GROUP_MEMBER_FLAG fg (GetCounter g)), Sql (CHAR_UPD_GROUP_MEMBER_FLAG fh (GetCounter h))] \<and>
       has_bits fg flag \<and> has_bits fh flag)"
proof -
  define s1 where "s1 = SetGroupMemberFlag w p g True flag s"
  define s2 where "s2 = SetGroupMemberFlag w p h True flag s1"
  have g: "find_slot g (gr p s) \<noteq> None" and h: "find_slot h (gr p s) \<noteq> None" using assms(2,3) by (simp_all add: IsMember_def)
  note a = set_unique_flag [OF assms(1) g assms(5), where w = w, folded s1_def]
  have h1: "find_slot h (gr p s1) \<noteq> None" using a(6) h by simp
  note b = set_unique_flag [OF a(5) h1 assms(5), where w = w, folded s2_def]
  have "sqls s2 = sqls s @ [Sql (CHAR_UPD_GROUP_MEMBER_FLAG (flags_of g (gr p s1)) (GetCounter g)),
      Sql (CHAR_UPD_GROUP_MEMBER_FLAG (flags_of h (gr p s2)) (GetCounter h))]"
    using a(4) b(4) by simp
  then show ?thesis using a(2) b(1-3) assms(4)
    unfolding Let_def s1_def [symmetric] s2_def [symmetric] by blast
qed

lemma old_main_tank_stays_stored_witness:
  "let s = ConvertToRaid sample_party_world 1 sample_party;
       s2 = SetGroupMemberFlag sample_party_world 1 3 True MEMBER_FLAG_MAINTANK (SetGroupMemberFlag sample_party_world 1 2 True MEMBER_FLAG_MAINTANK s)
   in \<not> has_bits (flags_of 2 (gr 1 s2)) MEMBER_FLAG_MAINTANK \<and> flagged MEMBER_FLAG_MAINTANK (pg_members (gr 1 s2)) = 1"
proof -
  let ?s = "ConvertToRaid sample_party_world 1 sample_party"
  have "isRaidGroup (gr 1 ?s)" "IsMember 2 (gr 1 ?s)" "IsMember 3 (gr 1 ?s)" by code_simp+
  from old_main_tank_stays_stored [OF this, of MEMBER_FLAG_MAINTANK sample_party_world] show ?thesis by (simp add: Let_def)
qed

end
