(* ===== verification/GroupLinks.thy ===== *)
theory GroupLinks
  imports GroupReach
begin

text \<open>
  The references between players and groups.  In every reachable state a player's
  reference points to a group exactly when it stands in the list of that group, so no
  player refers to a group that is gone, also after a group disbands.
\<close>

section \<open>The view of the references\<close>

named_theorems view_simps "operations that leave the references alone"

definition link_view :: "party_state \<Rightarrow> (ref_kind \<Rightarrow> guid \<Rightarrow> nat option) \<times> (nat \<Rightarrow> (ref_kind \<times> guid) list)" where
  "link_view s = (\<lambda>k g. rf_to (ref_of k g s), \<lambda>p. pg_refs (gr p s))"

definition links_ok :: "party_state \<Rightarrow> bool" where
  "links_ok s \<longleftrightarrow> (\<forall>k g p. rf_to (ref_of k g s) = Some p \<longleftrightarrow> (k, g) \<in> set (pg_refs (gr p s))) \<and>
     (\<forall>p. distinct (pg_refs (gr p s)))"

lemma links_ok_view: "link_view s' = link_view s \<Longrightarrow> links_ok s' = links_ok s"
  by (simp add: links_ok_def link_view_def fun_eq_iff)

lemma ref_of_fx [simp]: "ref_of k g (fx es s) = ref_of k g s" by (cases k) (simp_all add: fx_def)

lemma ref_of_on_gr [simp]: "ref_of k g (on_gr p f s) = ref_of k g s" by (cases k) (simp_all add: on_gr_def)

lemma ref_of_put [simp]: "ref_of k g (put_ref k' g' r s) = (if k = k' \<and> g = g' then r else ref_of k g s)"
  by (cases k; cases k') (simp_all add: om_at_def)

lemma view_fx [simp]: "link_view (fx es s) = link_view s"
  by (simp add: link_view_def)

lemma view_on_gr [simp]: "(\<And>gp. pg_refs (f gp) = pg_refs gp) \<Longrightarrow> link_view (on_gr p f s) = link_view s"
  by (simp add: link_view_def fun_eq_iff)

lemma view_on_gr_at: "pg_refs (f (gr p s)) = pg_refs (gr p s) \<Longrightarrow> link_view (on_gr p f s) = link_view s"
  by (simp add: link_view_def fun_eq_iff)

lemma view_fields [simp]:
  "link_view (s\<lparr>ps_draws := n\<rparr>) = link_view s" "link_view (s\<lparr>ps_items := gen\<rparr>) = link_view s"
  "link_view (on_loot l h s) = link_view s" "link_view (SetGroupInvite g to s) = link_view s"
  "link_view (snd (GenerateGroupId s)) = link_view s" "link_view (snd (GenerateNewGroupDbStoreId s)) = link_view s"
  "link_view (RegisterGroupDbStoreId sid p s) = link_view s" "link_view (FreeGroupDbStoreId p s) = link_view s"
  "link_view (AddGroup p s) = link_view s" "link_view (RemoveGroup p s) = link_view s"
proof -
  have r: "ref_of k g (s\<lparr>ps_draws := n\<rparr>) = ref_of k g s" "ref_of k g (s\<lparr>ps_items := gen\<rparr>) = ref_of k g s"
    "ref_of k g (on_loot l h s) = ref_of k g s" "ref_of k g (SetGroupInvite g' to s) = ref_of k g s"
    "ref_of k g (snd (GenerateGroupId s)) = ref_of k g s" "ref_of k g (snd (GenerateNewGroupDbStoreId s)) = ref_of k g s"
    "ref_of k g (RegisterGroupDbStoreId sid p s) = ref_of k g s" "ref_of k g (FreeGroupDbStoreId p s) = ref_of k g s"
    "ref_of k g (AddGroup p s) = ref_of k g s" "ref_of k g (RemoveGroup p s) = ref_of k g s" for k g g'
    by (cases k; simp add: on_loot_def SetGroupInvite_def GenerateGroupId_def GenerateNewGroupDbStoreId_def
        RegisterGroupDbStoreId_def FreeGroupDbStoreId_def AddGroup_def RemoveGroup_def Let_def)+
  then show "link_view (s\<lparr>ps_draws := n\<rparr>) = link_view s" "link_view (s\<lparr>ps_items := gen\<rparr>) = link_view s"
    "link_view (on_loot l h s) = link_view s" "link_view (SetGroupInvite g to s) = link_view s"
    "link_view (snd (GenerateGroupId s)) = link_view s" "link_view (snd (GenerateNewGroupDbStoreId s)) = link_view s"
    "link_view (RegisterGroupDbStoreId sid p s) = link_view s" "link_view (FreeGroupDbStoreId p s) = link_view s"
    "link_view (AddGroup p s) = link_view s" "link_view (RemoveGroup p s) = link_view s"
    by (simp_all add: link_view_def)
qed

lemma view_setSubGroup [simp]: "link_view (setSubGroup k g sub s) = link_view s"
  by (auto simp: link_view_def setSubGroup_def fun_eq_iff)

lemma view_fold: "(\<And>x s. link_view (f x s) = link_view s) \<Longrightarrow> link_view (fold f xs s) = link_view s"
  by (induction xs arbitrary: s) simp_all

lemma view_sends [simp]:
  "link_view (SendUpdateToPlayer w p g m s) = link_view s" "link_view (SendUpdate w p s) = link_view s"
  "link_view (BroadcastPacket w p pkt ign sub i s) = link_view s" "link_view (BroadcastGroupUpdate w p s) = link_view s"
  "link_view (UpdatePlayerOutOfRange w p g s) = link_view s"
proof -
  show one: "link_view (SendUpdateToPlayer w p g m s) = link_view s" for w p g m s
    by (simp add: SendUpdateToPlayer_def split: option.split)
  show "link_view (SendUpdate w p s) = link_view s" by (simp add: SendUpdate_def view_fold one)
qed (simp_all add: BroadcastPacket_def BroadcastGroupUpdate_def UpdatePlayerOutOfRange_def)

section \<open>Linking and unlinking\<close>

lemma links_ok_unlink: assumes "links_ok s" shows "links_ok (unlink k g s)"
proof (cases "rf_to (ref_of k g s)")
  case (Some q)
  have eq: "unlink k g s = put_ref k g ((ref_of k g s)\<lparr>rf_to := None\<rparr>)
      (on_gr q (\<lambda>gp. gp\<lparr>pg_refs := filter (\<lambda>x. x \<noteq> (k, g)) (pg_refs gp)\<rparr>) s)"
    using Some by (simp add: unlink_def)
  have L: "rf_to (ref_of k' g' s) = Some p \<longleftrightarrow> (k', g') \<in> set (pg_refs (gr p s))" for k' g' p
    using assms by (simp add: links_ok_def)
  have "rf_to (ref_of k' g' (unlink k g s)) = Some p \<longleftrightarrow> (k', g') \<in> set (pg_refs (gr p (unlink k g s)))" for k' g' p
    using L [of k' g' p] L [of k g p] Some unfolding eq by auto
  moreover have "distinct (pg_refs (gr p (unlink k g s)))" for p
    using assms unfolding eq by (auto simp: links_ok_def)
  ultimately show ?thesis by (simp add: links_ok_def)
qed (use assms in \<open>simp add: unlink_def\<close>)

lemma unlink_to [simp]: "rf_to (ref_of k' g' (unlink k g s)) = (if k' = k \<and> g' = g then None else rf_to (ref_of k' g' s))"
  by (simp add: unlink_def split: option.split)

lemma links_ok_link: assumes "links_ok s" shows "links_ok (link k q g s)"
proof -
  let ?s1 = "unlink k g s"
  have ok: "links_ok ?s1" using assms by (rule links_ok_unlink)
  then have free: "(k, g) \<notin> set (pg_refs (gr p ?s1))" for p
    unfolding links_ok_def by (metis unlink_to option.distinct(1))
  have "rf_to (ref_of k' g' (link k q g s)) = Some p \<longleftrightarrow> (k', g') \<in> set (pg_refs (gr p (link k q g s)))" for k' g' p
    using ok free by (auto simp: link_def Let_def links_ok_def simp del: unlink_to)
  moreover have "distinct (pg_refs (gr p (link k q g s)))" for p
    using ok free by (auto simp: link_def Let_def links_ok_def simp del: unlink_to)
  ultimately show ?thesis by (simp add: links_ok_def)
qed

lemma links_ok_setters:
  assumes "links_ok s"
  shows "links_ok (PlayerSetGroup g to s)" "links_ok (SetOriginalGroup g to s)"
    "links_ok (SetBattlegroundOrBattlefieldRaid g q sub s)" "links_ok (RemoveFromBattlegroundOrBattlefieldRaid g s)"
proof -
  have v: "links_ok (fx es s) = links_ok s" "links_ok (setSubGroup k g sub s) = links_ok s" for es s k g sub
    by (rule links_ok_view, simp)+
  show "links_ok (PlayerSetGroup g to s)" using assms
    by (simp add: PlayerSetGroup_def v links_ok_link links_ok_unlink split: option.split)
  have orig: "links_ok (SetOriginalGroup g to s)" if "links_ok s" for g to s using that
    by (simp add: SetOriginalGroup_def v links_ok_link links_ok_unlink split: option.split)
  show "links_ok (SetOriginalGroup g to s)" using assms by (rule orig)
  show "links_ok (SetBattlegroundOrBattlefieldRaid g q sub s)" using assms
    by (simp add: SetBattlegroundOrBattlefieldRaid_def Let_def v links_ok_link links_ok_unlink orig)
  show "links_ok (RemoveFromBattlegroundOrBattlefieldRaid g s)" using assms
    by (simp add: RemoveFromBattlegroundOrBattlefieldRaid_def Let_def v links_ok_link links_ok_unlink orig split: option.split)
qed

lemma links_ok_delete: assumes "links_ok s" shows "links_ok (delete_group p s)"
proof -
  have refs: "rf_to (ref_of k g (fold (\<lambda>(k, g) s. put_ref k g ((ref_of k g s)\<lparr>rf_to := None\<rparr>) s) xs s)) =
      (if (k, g) \<in> set xs then None else rf_to (ref_of k g s))" for k g xs s
    by (induction xs arbitrary: s) (auto split: if_splits)
  have er: "ref_of k g (s\<lparr>ps_groups := x\<rparr>) = ref_of k g s" for k g s x by (cases k) simp_all
  have bg: "rf_to (ref_of k g (case b of None \<Rightarrow> s | Some x \<Rightarrow> fx [ClearBgRaid x] s)) = rf_to (ref_of k g s)"
    "gr q (case b of None \<Rightarrow> s | Some x \<Rightarrow> fx [ClearBgRaid x] s) = gr q s" for k g b q
    by (cases b; simp)+
  have to: "rf_to (ref_of k g (delete_group p s)) = (if (k, g) \<in> set (pg_refs (gr p s)) then None else rf_to (ref_of k g s))" for k g
    by (simp add: delete_group_def Let_def er refs bg)
  have L: "rf_to (ref_of k g s) = Some q \<longleftrightarrow> (k, g) \<in> set (pg_refs (gr q s))" for k g q
    using assms by (simp add: links_ok_def)
  have "rf_to (ref_of k g (delete_group p s)) = Some q \<longleftrightarrow> (k, g) \<in> set (pg_refs (gr q (delete_group p s)))" for k g q
    using L [of k g p] L [of k g q] by (auto simp: to gr_delete_group Group_init_def)
  moreover have "distinct (pg_refs (gr q (delete_group p s)))" for q
    using assms by (simp add: links_ok_def gr_delete_group Group_init_def)
  ultimately show ?thesis by (simp add: links_ok_def)
qed

section \<open>The operations\<close>

lemma links_ok_neutral [simp]:
  "links_ok (fx es s) = links_ok s" "links_ok (setSubGroup k g sub s) = links_ok s"
  "links_ok (SetGroupInvite g to s) = links_ok s" "links_ok (SendUpdate w p s) = links_ok s"
  "links_ok (BroadcastPacket w p pkt ign i x s) = links_ok s" "links_ok (BroadcastGroupUpdate w p s) = links_ok s"
  "links_ok (UpdatePlayerOutOfRange w p g s) = links_ok s"
  "links_ok (snd (GenerateGroupId s)) = links_ok s" "links_ok (snd (GenerateNewGroupDbStoreId s)) = links_ok s"
  "links_ok (RegisterGroupDbStoreId sid p s) = links_ok s" "links_ok (FreeGroupDbStoreId p s) = links_ok s"
  "links_ok (AddGroup p s) = links_ok s" "links_ok (RemoveGroup p s) = links_ok s"
  by (rule links_ok_view, simp)+

lemma links_ok_on_gr [simp]: "(\<And>gp. pg_refs (f gp) = pg_refs gp) \<Longrightarrow> links_ok (on_gr p f s) = links_ok s"
  by (rule links_ok_view) simp

lemma refs_slots [simp]:
  "pg_refs (push_slot m gp) = pg_refs gp" "pg_refs (take_slot g gp) = pg_refs gp"
  "pg_refs (note_enchanter w g gp) = pg_refs gp" "pg_refs (found_settings g gp) = pg_refs gp"
  "pg_refs (on_slot_of g f gp) = pg_refs gp" "pg_refs (ResetMaxEnchantingLevel w gp) = pg_refs gp"
  "pg_refs (initRaidSubGroupsCounter gp) = pg_refs gp" "pg_refs (SubGroupCounterIncrease sub gp) = pg_refs gp"
  "pg_refs (SubGroupCounterDecrease sub gp) = pg_refs gp" "pg_refs (RemoveUniqueGroupMemberFlag flag gp) = pg_refs gp"
  by (simp_all add: push_slot_def take_slot_def note_enchanter_def found_settings_def on_slot_of_def Let_def
      ResetMaxEnchantingLevel_def initRaidSubGroupsCounter_def SubGroupCounterIncrease_def SubGroupCounterDecrease_def
      RemoveUniqueGroupMemberFlag_def split: option.split)

lemma links_ok_join_party: "links_ok s \<Longrightarrow> links_ok (join_party w p g sub s)"
  by (simp add: join_party_def Let_def link_member_def links_ok_setters)

lemma links_ok_AddMember: "links_ok s \<Longrightarrow> links_ok (snd (Group_AddMember w p g s))"
  by (simp add: Group_AddMember_def links_ok_join_party split: option.split)

lemma links_ok_found_group: assumes "links_ok s" shows "links_ok (found_group w p g s)"
proof -
  obtain c s1 where gid: "GenerateGroupId s = (c, s1)" by fastforce
  have "links_ok s1" using assms links_ok_neutral(8) [of s] gid by simp
  then show ?thesis by (simp add: found_group_def gid Let_def case_prod_unfold)
qed

lemma links_ok_Create: "links_ok s \<Longrightarrow> links_ok (snd (Group_Create w p g s))"
  by (simp add: Group_Create_def links_ok_AddMember links_ok_found_group)

lemma links_ok_ChangeLeader [simp]: "links_ok (Group_ChangeLeader w p g s) = links_ok s"
  by (simp add: Group_ChangeLeader_def Let_def split: option.split)

lemma links_ok_leave: "links_ok s \<Longrightarrow> links_ok (leave_group p g s)"
  by (simp add: leave_group_def links_ok_setters)

lemma links_ok_disband_member: "links_ok s \<Longrightarrow> links_ok (disband_member w p hide m s)"
  by (simp add: disband_member_def Let_def links_ok_leave split: option.split)

lemma links_ok_fold: "(\<And>x s. links_ok s \<Longrightarrow> links_ok (f x s)) \<Longrightarrow> links_ok s \<Longrightarrow> links_ok (fold f xs s)"
  by (induction xs arbitrary: s) simp_all

lemma links_ok_RemoveAllInvites: "links_ok s \<Longrightarrow> links_ok (RemoveAllInvites p s)"
  by (simp add: RemoveAllInvites_def links_ok_fold)

lemma links_ok_Disband: "links_ok s \<Longrightarrow> links_ok (Group_Disband w p hide s)"
  by (simp add: Group_Disband_def Let_def links_ok_delete links_ok_RemoveAllInvites links_ok_fold links_ok_disband_member)

lemma view_rolls [simp]:
  "link_view (erase_roll p i s) = link_view s" "link_view (CountTheRoll w p i s) = link_view s"
  "link_view (CountRollVote w p g ig c s) = link_view s" "link_view (EndRoll w p l s) = link_view s"
proof -
  have t: "link_view (take_item l slot s) = link_view s" "link_view (unblock_item l slot s) = link_view s" for l slot s
    by (simp_all add: take_item_def unblock_item_def)
  have a: "link_view (award_item w l r g s) = link_view s" "link_view (award_disenchant w l r g s) = link_view s" for w l r g s
    by (simp_all add: award_item_def award_disenchant_def Let_def t)
  have c: "link_view (conclude_need w l r s) = link_view s" "link_view (conclude_greed w l r s) = link_view s" for w l r s
    by (simp_all add: conclude_need_def conclude_greed_def Let_def a split: prod.split)
  show e: "link_view (erase_roll p i s) = link_view s" for p i s by (simp add: erase_roll_def)
  have ct: "link_view (CountTheRoll w p i s) = link_view s" for w p i s
    by (simp add: CountTheRoll_def Let_def e c t split: option.split)
  show "link_view (CountTheRoll w p i s) = link_view s" by (rule ct)
  show "link_view (CountRollVote w p g ig c s) = link_view s"
    by (simp add: CountRollVote_def Let_def ct split: option.split)
  show "link_view (EndRoll w p l s) = link_view s"
  proof (induction w p l s rule: EndRoll.induct)
    case (1 w p l s)
    show ?case
    proof (cases "find_index (\<lambda>r. rl_loot r = Some l) (pg_rolls (gr p s))")
      case None
      then show ?thesis by (subst EndRoll.simps) simp
    next
      case (Some i)
      then have "EndRoll w p l s = EndRoll w p l (CountTheRoll w p i s)" by (subst EndRoll.simps) simp
      then show ?thesis using 1 [OF Some] ct by simp
    qed
  qed
qed

lemma links_ok_rolls [simp]:
  "links_ok (CountRollVote w p g ig c s) = links_ok s" "links_ok (EndRoll w p l s) = links_ok s"
  by (rule links_ok_view, simp)+

lemma links_ok_drop_votes: "links_ok s \<Longrightarrow> links_ok (drop_votes w p g s)"
  unfolding drop_votes_def by (rule links_ok_fold) (simp_all add: drop_votes_at_def Let_def)

lemma links_ok_Delink: "links_ok s \<Longrightarrow> links_ok (DelinkMember p g s)"
  by (simp add: DelinkMember_def links_ok_unlink split: option.split prod.split)

lemma links_ok_dismiss: "links_ok s \<Longrightarrow> links_ok (dismiss w p g rm s)"
  by (simp add: dismiss_def Let_def links_ok_leave)

lemma links_ok_remove_slot: assumes "links_ok s" shows "links_ok (remove_slot w p g rm s)"
proof -
  define s1 where "s1 = (if pw_connected w g then dismiss w p g rm s else s)"
  define s2 where "s2 = (if stored (gr p s1) then DelinkMember p g (fx [Sql (CHAR_DEL_GROUP_MEMBER (GetCounter g))] s1) else s1)"
  define s3 where "s3 = (if \<not> pw_connected w g \<or> pw_enchanting w g \<noteq> 0 then on_gr p (ResetMaxEnchantingLevel w) s2 else s2)"
  define s4 where "s4 = on_gr p (take_slot g) (drop_votes w p g s3)"
  have "links_ok s2" using assms by (simp add: s1_def s2_def links_ok_dismiss links_ok_Delink)
  then have "links_ok s4" by (simp add: s3_def s4_def links_ok_drop_votes)
  moreover have "remove_slot w p g rm s = SendUpdate w p (if pg_leaderGuid (gr p s4) = g
      then (case next_leader w (gr p s4) of None \<Rightarrow> s4 | Some h \<Rightarrow> Group_ChangeLeader w p h s4) else s4)"
    by (simp only: remove_slot_def Let_def s1_def s2_def s3_def s4_def)
  ultimately show ?thesis by (simp split: option.split)
qed

lemma links_ok_RemoveMember: "links_ok s \<Longrightarrow> links_ok (snd (Group_RemoveMember w p g rm kicker reason s))"
  by (simp add: Group_RemoveMember_def settle_group_def Let_def links_ok_remove_slot links_ok_Disband)

lemma links_ok_RemoveInvite [simp]: "links_ok (RemoveInvite p g s) = links_ok s"
  by (simp add: RemoveInvite_def)

lemma links_ok_AddInvite [simp]: "links_ok (snd (AddInvite p g s)) = links_ok s"
  by (simp add: AddInvite_def Let_def)

lemma links_ok_AddLeaderInvite [simp]: "links_ok (snd (AddLeaderInvite w p g s)) = links_ok s"
proof -
  have "links_ok s1 = links_ok s" if "AddInvite p g s = (ok, s1)" for ok s1
    by (metis links_ok_AddInvite snd_conv that)
  then show ?thesis by (simp add: AddLeaderInvite_def split: prod.split)
qed

lemma links_ok_Uninvite: "links_ok s \<Longrightarrow> links_ok (UninviteFromGroup w g s)"
  by (simp add: UninviteFromGroup_def Let_def links_ok_Disband links_ok_delete links_ok_RemoveAllInvites split: option.split)

lemma view_start_roll [simp]: "link_view (start_roll w nbg quest p l ob tm slot it s) = link_view s"
  by (simp add: start_roll_def Let_def split: prod.split)

lemma view_GroupLoot [simp, view_simps]: "link_view (GroupLoot w p l ob s) = link_view s"
proof -
  have "link_view (group_loot_item w p l ob i s) = link_view s"
    "link_view (group_loot_quest w p l ob i s) = link_view s" for i s
    by (simp_all add: group_loot_item_def group_loot_quest_def Let_def split: option.split)
  then show ?thesis by (simp add: GroupLoot_def Let_def view_fold)
qed

lemma view_NeedBeforeGreed: "NeedBeforeGreed w p l ob s = Some s' \<Longrightarrow> link_view s' = link_view s"
proof -
  have one: "link_view s2 = link_view s1" if "need_loot_item w p l ob i s1 = Some s2" for i s1 s2
    using that by (auto simp: need_loot_item_def Let_def split: if_splits option.splits)
  have all: "link_view s2 = link_view s1" if "need_loot_items w p l ob is s1 = Some s2" for "is" s1 s2
    using that
  proof (induction "is" arbitrary: s1)
    case (Cons i "is")
    then obtain s3 where "need_loot_item w p l ob i s1 = Some s3" "need_loot_items w p l ob is s3 = Some s2"
      by (auto simp: bind_eq_Some_conv)
    then show ?case using one Cons.IH by metis
  qed simp
  have "link_view (need_loot_quest w p l ob i s) = link_view s" for i s
    by (simp add: need_loot_quest_def Let_def)
  then show "NeedBeforeGreed w p l ob s = Some s' \<Longrightarrow> link_view s' = link_view s"
    using all by (auto simp: NeedBeforeGreed_def view_fold)
qed

lemma view_MasterLoot [simp, view_simps]: "link_view (MasterLoot w p l ob s) = link_view s"
  by (simp add: MasterLoot_def Let_def split: option.split)

lemma view_ConvertToRaid [simp, view_simps]: "link_view (ConvertToRaid w p s) = link_view s"
  by (simp add: ConvertToRaid_def Let_def split: option.split)

lemma view_ConvertToLFG [simp, view_simps]: "link_view (ConvertToLFG w p s) = link_view s"
  by (simp add: ConvertToLFG_def Let_def split: option.split)

lemma view_ChangeMembersGroup [simp, view_simps]: "link_view (ChangeMembersGroup w p g sub s) = link_view s"
  by (simp add: ChangeMembersGroup_def Let_def split: option.split)

lemma view_SetGroupMemberFlag [simp, view_simps]: "link_view (SetGroupMemberFlag w p g on flag s) = link_view s"
  by (simp add: SetGroupMemberFlag_def Let_def split: option.split)

lemma view_SetLfgRoles [simp, view_simps]: "link_view (SetLfgRoles w p g roles s) = link_view s"
  by (simp add: SetLfgRoles_def Let_def split: option.split)

lemma view_UpdateLooterGuid [simp, view_simps]: "link_view (UpdateLooterGuid w p ob ifneed s) = link_view s"
  by (simp add: UpdateLooterGuid_def Let_def SetLooterGuid_def split: option.split)

lemma view_SetBattlegroundGroup [simp, view_simps]: "link_view (SetBattlegroundGroup p bg s) = link_view s"
  by (simp add: SetBattlegroundGroup_def Let_def split: option.split)

lemma view_SetBattlefieldGroup [simp, view_simps]: "link_view (SetBattlefieldGroup p bf s) = link_view s"
  by (simp add: SetBattlefieldGroup_def Let_def split: option.split)

lemma view_SetLootMethod [simp, view_simps]: "link_view (SetLootMethod p x s) = link_view s"
  by (simp add: SetLootMethod_def Let_def split: option.split)

lemma view_SetLootThreshold [simp, view_simps]: "link_view (SetLootThreshold p x s) = link_view s"
  by (simp add: SetLootThreshold_def Let_def split: option.split)

lemma view_SetMasterLooterGuid [simp, view_simps]: "link_view (SetMasterLooterGuid p g s) = link_view s"
  by (simp add: SetMasterLooterGuid_def Let_def split: option.split)

lemma view_SetDungeonDifficulty [simp, view_simps]: "link_view (SetDungeonDifficulty w p x s) = link_view s"
  by (simp add: SetDungeonDifficulty_def Let_def split: option.split)

lemma view_SetRaidDifficulty [simp, view_simps]: "link_view (SetRaidDifficulty w p x s) = link_view s"
  by (simp add: SetRaidDifficulty_def Let_def split: option.split)

lemma view_SetTargetIcon [simp, view_simps]: "link_view (SetTargetIcon w p i who t s) = link_view s"
proof -
  have icon: "link_view (put_icon w p i who t s) = link_view s" for i who t s by (simp add: put_icon_def)
  show ?thesis by (simp add: SetTargetIcon_def Let_def icon view_fold del: upt_Suc)
qed

lemmas links_ok_settings [simp] = view_simps [THEN links_ok_view]

section \<open>Reachable states\<close>

lemma links_ok_new: assumes "links_ok s" "om_find (ps_groups s) p = None" shows "links_ok (new_group p s)"
proof -
  have "pg_refs (gr q (new_group p s)) = pg_refs (gr q s)" for q
    using assms(2) by (simp add: new_group_def gr_def om_at_def)
  moreover have "ref_of k g (new_group p s) = ref_of k g s" for k g by (cases k) (simp_all add: new_group_def)
  ultimately have "link_view (new_group p s) = link_view s" by (simp add: link_view_def)
  then show ?thesis using assms(1) links_ok_view by blast
qed

lemma links_ok_step: assumes "party_step w s s'" and ok: "links_ok s" shows "links_ok s'"
  using assms(1)
proof cases
  case st_need
  show ?thesis using links_ok_view [OF view_NeedBeforeGreed [OF st_need]] ok by simp
qed (use ok in \<open>auto simp: links_ok_new links_ok_Create links_ok_AddMember links_ok_RemoveMember links_ok_Disband
      links_ok_Uninvite links_ok_RemoveAllInvites links_ok_delete\<close>)

text \<open>Loading links nobody: the players are not there yet.\<close>

definition unlinked :: "party_state \<Rightarrow> bool" where
  "unlinked s \<longleftrightarrow> (\<forall>q. pg_refs (gr q s) = []) \<and> (\<forall>k g. ref_of k g s = no_ref)"

lemma ref_of_same [simp]:
  "ref_of k g (new_group p s) = ref_of k g s" "ref_of k g (s\<lparr>gm_nextId := x\<rparr>) = ref_of k g s"
  "ref_of k g (s\<lparr>gm_stopped := b\<rparr>) = ref_of k g s" "ref_of k g (s\<lparr>gm_store := st\<rparr>) = ref_of k g s"
  "ref_of k g (s\<lparr>gm_dbStore := db\<rparr>) = ref_of k g s" "ref_of k g (s\<lparr>gm_nextDb := x\<rparr>) = ref_of k g s"
  by (cases k; simp add: new_group_def)+

lemma unlinked_load_group: "unlinked s \<Longrightarrow> unlinked (load_group w x s)"
  by (cases x) (simp add: unlinked_def load_group_def Let_def LoadGroupFromDB_def GenerateGroupId_def AddGroup_def
      RegisterGroupDbStoreId_def gr_new_group Group_init_def initRaidSubGroupsCounter_def split: option.split)

lemma unlinked_load_member: "unlinked s \<Longrightarrow> unlinked (load_member w x s)"
  by (cases x) (simp add: unlinked_def load_member_def LoadMemberFromDB_def Let_def push_slot_def
      SubGroupCounterIncrease_def split: option.split)

lemma unlinked_LoadGroups: "unlinked s \<Longrightarrow> unlinked (LoadGroups w gs ms s)"
proof -
  assume "unlinked s"
  then have "unlinked (fold (load_group w) gs s)" by (induction gs arbitrary: s) (simp_all add: unlinked_load_group)
  then have "unlinked (fold (load_member w) ms (fold (load_group w) gs s))"
    by (induction ms arbitrary: gs s rule: rev_induct) (simp_all add: unlinked_load_member)
  then show ?thesis using \<open>unlinked s\<close> by (simp add: LoadGroups_def)
qed

lemma unlinked_init: "unlinked (mgr_init gen)"
proof -
  have "ref_of k g (mgr_init gen) = no_ref" for k g by (cases k) (simp_all add: mgr_init_def om_at_def)
  then show ?thesis by (simp add: unlinked_def mgr_init_def gr_def om_at_def Group_init_def)
qed

lemma unlinked_links_ok: "unlinked s \<Longrightarrow> links_ok s"
  by (simp add: unlinked_def links_ok_def no_ref_def)

lemma reach_links_ok: "party_reach w s \<Longrightarrow> links_ok s"
proof (induction rule: party_reach.induct)
  case (re_init gen)
  then show ?case by (rule unlinked_links_ok [OF unlinked_init])
next
  case (re_load group_rows member_rows gen)
  then show ?case by (intro unlinked_links_ok unlinked_LoadGroups unlinked_init)
qed (rule links_ok_step)

text \<open>C12: In every reachable state a player's group exists and has the player in its list of
  references, and the groups list nobody else: the same for the group he has in reserve while he is in a
  battleground.  So no player keeps a reference to a group that was disbanded.
\<close>

theorem references_agree:
  assumes "party_reach w s"
  shows "(GetGroupOf g s = Some p \<longleftrightarrow> (CurrentGroup, g) \<in> set (pg_refs (gr p s))) \<and>
    (GetOriginalGroup g s = Some p \<longleftrightarrow> (OriginalGroup, g) \<in> set (pg_refs (gr p s))) \<and>
    (om_find (ps_groups s) p = None \<longrightarrow> GetGroupOf g s \<noteq> Some p \<and> GetOriginalGroup g s \<noteq> Some p)"
proof -
  have L: "rf_to (ref_of k g s) = Some p \<longleftrightarrow> (k, g) \<in> set (pg_refs (gr p s))" for k
    using reach_links_ok [OF assms] by (simp add: links_ok_def)
  moreover have "om_find (ps_groups s) p = None \<Longrightarrow> pg_refs (gr p s) = []"
    by (simp add: gr_def om_at_def Group_init_def)
  ultimately show ?thesis by (simp add: GetGroupOf_def GetOriginalGroup_def del: ref_of.simps)
qed

lemma references_agree_witness:
  "(CurrentGroup, 3) \<in> set (pg_refs (gr 1 sample_party)) \<and> GetOriginalGroup 3 sample_party \<noteq> Some 1"
proof -
  have "GetGroupOf 3 sample_party = Some 1" "(OriginalGroup, 3) \<notin> set (pg_refs (gr 1 sample_party))" by code_simp+
  then show ?thesis using references_agree [OF sample_party_reach, of 3 1] by simp
qed

end
