(* ===== verification/GroupTrace.thy ===== *)
theory GroupTrace
  imports GroupLinks
begin

text \<open>
  What an operation tells the outside: the script hooks it runs and the statements it
  sends to the database, in order.  All other effects (packets, calls into players) are
  left out of the trace.
\<close>

section \<open>The trace\<close>

fun loud :: "party_fx \<Rightarrow> bool" where
  "loud (Hook _) = True"
| "loud (Sql _) = True"
| "loud _ = False"

definition trace :: "party_state \<Rightarrow> party_fx list" where
  "trace s = filter loud (ps_fx s)"

named_theorems quiet "operations without hooks and statements"

lemma trace_fx [simp]: "trace (fx es s) = trace s @ filter loud es"
  by (simp add: trace_def)

lemma trace_on_gr [simp]: "trace (on_gr p f s) = trace s"
  by (simp add: trace_def)

lemma trace_fields [quiet]:
  "trace (s\<lparr>ps_draws := n\<rparr>) = trace s" "trace (s\<lparr>ps_items := gen\<rparr>) = trace s" "trace (put_ref k g r s) = trace s"
  "trace (on_loot l h s) = trace s" "trace (SetGroupInvite g to s) = trace s"
  "trace (snd (GenerateGroupId s)) = trace s" "trace (snd (GenerateNewGroupDbStoreId s)) = trace s"
  "trace (RegisterGroupDbStoreId sid p s) = trace s" "trace (FreeGroupDbStoreId p s) = trace s"
  "trace (AddGroup p s) = trace s" "trace (RemoveGroup p s) = trace s" "trace (s\<lparr>ps_groups := x\<rparr>) = trace s"
  by (cases k; simp add: trace_def on_loot_def SetGroupInvite_def GenerateGroupId_def GenerateNewGroupDbStoreId_def
      RegisterGroupDbStoreId_def FreeGroupDbStoreId_def AddGroup_def RemoveGroup_def Let_def)+

lemma trace_fold: "(\<And>x s. trace (f x s) = trace s) \<Longrightarrow> trace (fold f xs s) = trace s"
  by (induction xs arbitrary: s) simp_all

lemma quiet_sends: "filter loud (concat (map (\<lambda>x. if P x then [Send (f x) (h x)] else []) xs)) = []"
  by (induction xs) auto

lemma quiet_to_voters [simp]: "filter loud (to_voters w r sel pkt) = []"
  by (simp add: to_voters_def filter_concat comp_def case_prod_unfold filter_empty_conv)

lemma trace_links [quiet]:
  "trace (unlink k g s) = trace s" "trace (link k q g s) = trace s" "trace (setSubGroup k g sub s) = trace s"
  "trace (PlayerSetGroup g to s) = trace s" "trace (SetOriginalGroup g to s) = trace s"
  "trace (SetBattlegroundOrBattlefieldRaid g q sub s) = trace s" "trace (RemoveFromBattlegroundOrBattlefieldRaid g s) = trace s"
proof -
  show u: "trace (unlink k g s) = trace s" for k g s by (simp add: unlink_def quiet split: option.split)
  show l: "trace (link k q g s) = trace s" for k q g s by (simp add: link_def Let_def quiet u)
  show b: "trace (setSubGroup k g sub s) = trace s" for k g sub s by (simp add: setSubGroup_def quiet)
  show "trace (PlayerSetGroup g to s) = trace s" by (simp add: PlayerSetGroup_def u l b split: option.split)
  show o: "trace (SetOriginalGroup g to s) = trace s" for g to s by (simp add: SetOriginalGroup_def u l b split: option.split)
  show "trace (SetBattlegroundOrBattlefieldRaid g q sub s) = trace s"
    by (simp add: SetBattlegroundOrBattlefieldRaid_def Let_def u l b o)
  show "trace (RemoveFromBattlegroundOrBattlefieldRaid g s) = trace s"
    by (simp add: RemoveFromBattlegroundOrBattlefieldRaid_def Let_def u l b o split: option.split)
qed

lemma trace_sends [quiet]:
  "trace (SendUpdateToPlayer w p g m s) = trace s" "trace (SendUpdate w p s) = trace s"
  "trace (BroadcastPacket w p pkt ign sub i s) = trace s" "trace (BroadcastGroupUpdate w p s) = trace s"
  "trace (UpdatePlayerOutOfRange w p g s) = trace s"
proof -
  show one: "trace (SendUpdateToPlayer w p g m s) = trace s" for w p g m s
    by (simp add: SendUpdateToPlayer_def split: option.split)
  show "trace (SendUpdate w p s) = trace s" by (simp add: SendUpdate_def trace_fold one)
qed (auto simp: BroadcastPacket_def BroadcastGroupUpdate_def UpdatePlayerOutOfRange_def filter_empty_conv split: if_splits)

lemma trace_rolls [quiet]:
  "trace (CountTheRoll w p i s) = trace s" "trace (CountRollVote w p g ig c s) = trace s"
  "trace (drop_votes w p g s) = trace s"
proof -
  have m: "filter loud (SendLootRoll w a b c d r) = []" "filter loud (SendLootRollWon w a b c d r) = []"
    "filter loud (SendLootAllPassed w r) = []" "filter loud (vote_message w ch g r) = []" for w a b c d r ch g
    by (simp_all add: SendLootRoll_def SendLootRollWon_def SendLootAllPassed_def vote_message_def)
  have d: "filter loud (fst (draw w sel r gv acc)) = filter loud (fst acc)" for w sel r gv acc
    by (cases acc; cases gv) (simp add: draw_def Let_def m)
  have ro: "filter loud (fst (fold (draw w sel r) vs acc)) = filter loud (fst acc)" for w sel r vs acc
    by (induction vs arbitrary: acc) (simp_all add: d)
  have off: "filter loud es = []" if "roll_off w sel r n = (es, x)" for w sel r n es x
    using ro [of w sel r "rl_votes r" "([], fst (hd (rl_votes r)), 0, NOT_VALID, n)"] that by (simp add: roll_off_def)
  have t: "trace (take_item l slot s) = trace s" "trace (unblock_item l slot s) = trace s" for l slot s
    by (simp_all add: take_item_def unblock_item_def quiet)
  have a: "trace (award_item w l r g s) = trace s" "trace (award_disenchant w l r g s) = trace s" for w l r g s
    by (simp_all add: award_item_def award_disenchant_def Let_def t)
  have c: "trace (conclude_need w l r s) = trace s" "trace (conclude_greed w l r s) = trace s" for w l r s
    by (auto simp: conclude_need_def conclude_greed_def Let_def a m off quiet split: prod.split)
  show ct: "trace (CountTheRoll w p i s) = trace s" for p i s
    by (simp add: CountTheRoll_def Let_def erase_roll_def c t m split: option.split)
  show cv: "trace (CountRollVote w p g ig c s) = trace s" for g ig c s
    by (simp add: CountRollVote_def Let_def ct m split: option.split)
  show "trace (drop_votes w p g s) = trace s"
    unfolding drop_votes_def by (rule trace_fold) (simp add: drop_votes_at_def Let_def cv)
qed

section \<open>What the operations tell\<close>

text \<open>What identifies a group to the outside.\<close>

definition ident :: "party_group \<Rightarrow> guid \<times> uint32 \<times> guid \<times> uint8 \<times> nat option \<times> nat option" where
  "ident gp = (pg_guid gp, pg_dbId gp, pg_leaderGuid gp, pg_type gp, pg_bg gp, pg_bf gp)"

lemma core_fields:
  assumes "core gp = core gp'"
  shows "pg_members gp = pg_members gp'" and "ident gp = ident gp'"
proof -
  have "pg_members (core x) = pg_members x" "ident (core x) = ident x" for x by (simp_all add: core_def ident_def)
  then show "pg_members gp = pg_members gp'" "ident gp = ident gp'" using assms by metis+
qed

lemma identD:
  assumes "ident gp = ident gp'"
  shows "pg_guid gp = pg_guid gp'" "pg_dbId gp = pg_dbId gp'" "pg_leaderGuid gp = pg_leaderGuid gp'"
    "isBGGroup gp = isBGGroup gp'" "isBFGroup gp = isBFGroup gp'" "isLFGGroup gp = isLFGGroup gp'" "isRaidGroup gp = isRaidGroup gp'"
  using assms by (simp_all add: ident_def isBGGroup_def isBFGroup_def isLFGGroup_def isRaidGroup_def)

lemmas gr_members [simp] = core_simps [THEN core_fields(1)]
lemmas gr_ident [simp] = core_simps [THEN core_fields(2)]

lemma ident_updates [simp]:
  "ident (push_slot m gp) = ident gp" "ident (take_slot g gp) = ident gp" "ident (note_enchanter w g gp) = ident gp"
  "ident (gp\<lparr>pg_icons := x\<rparr>) = ident gp" "ident (ResetMaxEnchantingLevel w gp) = ident gp"
  "ident (gp\<lparr>pg_rolls := y\<rparr>) = ident gp" "ident (gp\<lparr>pg_members := ms\<rparr>) = ident gp"
  by (simp_all add: ident_def push_slot_def take_slot_def note_enchanter_def SubGroupCounterIncrease_def
      SubGroupCounterDecrease_def ResetMaxEnchantingLevel_def split: option.split)

lemma members_updates [simp]:
  "pg_members (push_slot m gp) = pg_members gp @ [m]" "pg_members (note_enchanter w g gp) = pg_members gp"
  "pg_members (ResetMaxEnchantingLevel w gp) = pg_members gp"
  by (simp_all add: push_slot_def note_enchanter_def SubGroupCounterIncrease_def ResetMaxEnchantingLevel_def)

lemma quiet_difficulty [simp]: "filter loud (adopt_difficulty w g gp) = []"
  by (simp add: adopt_difficulty_def)

lemma quiet_fields [simp]: "filter loud (share_fields w g gp) = []"
  by (simp add: share_fields_def Let_def filter_empty_conv)

lemmas ident_fields [simp] =
  gr_ident [THEN identD(1)] gr_ident [THEN identD(2)] gr_ident [THEN identD(3)] gr_ident [THEN identD(4)]
  gr_ident [THEN identD(5)] gr_ident [THEN identD(6)] gr_ident [THEN identD(7)]
  ident_updates [THEN identD(1)] ident_updates [THEN identD(2)] ident_updates [THEN identD(3)] ident_updates [THEN identD(4)]
  ident_updates [THEN identD(5)] ident_updates [THEN identD(6)] ident_updates [THEN identD(7)]

text \<open>A new member: the row of the database, and then the hook.\<close>

lemma join_party_tells:
  shows "pg_members (gr p (join_party w p g sub s)) = pg_members (gr p s) @ [new_slot w g sub]"
    and "ident (gr p (join_party w p g sub s)) = ident (gr p s)"
    and "trace (join_party w p g sub s) = trace s @
      (if stored (gr p s) then [Sql (CHAR_INS_GROUP_MEMBER (pg_dbId (gr p s)) (GetCounter g) 0 sub 0)] else []) @
      [Hook (LfgMgr.AddMember (pg_guid (gr p s)) g (pg_leaderGuid (gr p s)))]"
proof -
  show "pg_members (gr p (join_party w p g sub s)) = pg_members (gr p s) @ [new_slot w g sub]"
    by (simp add: join_party_def Let_def)
  show "ident (gr p (join_party w p g sub s)) = ident (gr p s)"
    by (simp add: join_party_def Let_def)
  have tl: "trace (link_member p g sub s) = trace s" for s by (simp add: link_member_def quiet)
  show "trace (join_party w p g sub s) = trace s @
      (if stored (gr p s) then [Sql (CHAR_INS_GROUP_MEMBER (pg_dbId (gr p s)) (GetCounter g) 0 sub 0)] else []) @
      [Hook (LfgMgr.AddMember (pg_guid (gr p s)) g (pg_leaderGuid (gr p s)))]"
    by (simp add: join_party_def Let_def quiet tl)
qed

text \<open>A removed member: the hook, the row of the database, and the change of the leader if it was him.\<close>

definition leader_after :: "party_world \<Rightarrow> guid \<Rightarrow> party_group \<Rightarrow> guid option" where
  "leader_after w g gp = (if pg_leaderGuid gp = g then next_leader w (take_slot g gp) else None)"

lemma take_slot_members [simp]: "pg_members (take_slot g gp) = erase_slot g (pg_members gp)"
proof (cases "find_slot g gp")
  case None
  have "g \<notin> sl_guid ` set ms \<Longrightarrow> erase_slot g ms = ms" for ms by (induction ms) auto
  moreover have "g \<notin> sl_guid ` set (pg_members gp)" using None by (simp add: find_slot_None)
  ultimately show ?thesis using None by (simp add: take_slot_def)
qed (simp add: take_slot_def SubGroupCounterDecrease_def)

lemma next_leader_members: "pg_members gp = pg_members gp' \<Longrightarrow> next_leader w gp = next_leader w gp'"
  by (simp add: next_leader_def)

lemma next_leader_Some: "next_leader w gp = Some h \<Longrightarrow> pw_connected w h \<and> find_slot h gp \<noteq> None"
  by (auto simp: next_leader_def find_slot_None find_Some_iff)

lemma ChangeLeader_tells:
  assumes "find_slot h (gr p s) \<noteq> None" "pw_connected w h"
  shows "trace (Group_ChangeLeader w p h s) = trace s @ [Hook (LfgMgr.ChangeLeader (pg_guid (gr p s)) h)] @
      (if stored (gr p s) then [Sql (CHAR_UPD_GROUP_LEADER (GetCounter h) (pg_dbId (gr p s)))] else [])"
    and "pg_leaderGuid (gr p (Group_ChangeLeader w p h s)) = h"
    and "pg_guid (gr p (Group_ChangeLeader w p h s)) = pg_guid (gr p s)"
    and "map sl_guid (pg_members (gr p (Group_ChangeLeader w p h s))) = map sl_guid (pg_members (gr p s))"
    and "map sl_group (pg_members (gr p (Group_ChangeLeader w p h s))) = map sl_group (pg_members (gr p s))"
    and "pg_dbId (gr p (Group_ChangeLeader w p h s)) = pg_dbId (gr p s)"
    and "stored (gr p (Group_ChangeLeader w p h s)) = stored (gr p s)"
proof -
  obtain m where m: "find_slot h (gr p s) = Some m" using assms(1) by auto
  have up: "map sl_guid (upd_slot h (ToggleGroupMemberFlag f b) ms) = map sl_guid ms"
    "map sl_group (upd_slot h (ToggleGroupMemberFlag f b) ms) = map sl_group ms" for f b ms
    by (induction ms) (auto simp: ToggleGroupMemberFlag_def)
  note d = Group_ChangeLeader_def Let_def on_slot_of_def
  show "trace (Group_ChangeLeader w p h s) = trace s @ [Hook (LfgMgr.ChangeLeader (pg_guid (gr p s)) h)] @
      (if stored (gr p s) then [Sql (CHAR_UPD_GROUP_LEADER (GetCounter h) (pg_dbId (gr p s)))] else [])"
    using m assms(2) by (simp add: d quiet)
  show "pg_leaderGuid (gr p (Group_ChangeLeader w p h s)) = h" "pg_guid (gr p (Group_ChangeLeader w p h s)) = pg_guid (gr p s)"
    "map sl_guid (pg_members (gr p (Group_ChangeLeader w p h s))) = map sl_guid (pg_members (gr p s))"
    "map sl_group (pg_members (gr p (Group_ChangeLeader w p h s))) = map sl_group (pg_members (gr p s))"
    "pg_dbId (gr p (Group_ChangeLeader w p h s)) = pg_dbId (gr p s)"
    "stored (gr p (Group_ChangeLeader w p h s)) = stored (gr p s)"
    using m assms(2) by (simp_all add: d up isBGGroup_def isBFGroup_def)
qed

lemma shape_members: "shape gp = shape gp' \<Longrightarrow> pg_members gp = pg_members gp'"
  by (simp add: shape_def)

lemma drop_votes_group [simp]:
  "pg_members (gr q (drop_votes w p g s)) = pg_members (gr q s)" "ident (gr q (drop_votes w p g s)) = ident (gr q s)"
proof -
  show "pg_members (gr q (drop_votes w p g s)) = pg_members (gr q s)" by (rule shape_members) simp
  have ct: "ident (gr q (CountTheRoll w p i s)) = ident (gr q s)" for p i s
    by (simp add: CountTheRoll_def erase_roll_def Let_def split: option.split)
  have cv: "ident (gr q (CountRollVote w p g ig c s)) = ident (gr q s)" for g ig c s
    by (simp add: CountRollVote_def Let_def ct split: option.split)
  have "ident (gr q (fold (drop_votes_at w p g) is s)) = ident (gr q s)" for "is" s
    by (induction "is" arbitrary: s) (simp_all add: drop_votes_at_def Let_def cv)
  then show "ident (gr q (drop_votes w p g s)) = ident (gr q s)" by (simp add: drop_votes_def)
qed

lemma remove_slot_tells:
  shows "trace (remove_slot w p g rm s) = trace s @
      (if stored (gr p s) then [Sql (CHAR_DEL_GROUP_MEMBER (GetCounter g))] else []) @
      (case leader_after w g (gr p s) of None \<Rightarrow> []
       | Some h \<Rightarrow> [Hook (LfgMgr.ChangeLeader (pg_guid (gr p s)) h)] @
           (if stored (gr p s) then [Sql (CHAR_UPD_GROUP_LEADER (GetCounter h) (pg_dbId (gr p s)))] else []))"
    and "map sl_guid (pg_members (gr p (remove_slot w p g rm s))) = map sl_guid (erase_slot g (pg_members (gr p s)))"
    and "map sl_group (pg_members (gr p (remove_slot w p g rm s))) = map sl_group (erase_slot g (pg_members (gr p s)))"
    and "pg_guid (gr p (remove_slot w p g rm s)) = pg_guid (gr p s)"
    and "pg_leaderGuid (gr p (remove_slot w p g rm s)) = (case leader_after w g (gr p s) of None \<Rightarrow> pg_leaderGuid (gr p s) | Some h \<Rightarrow> h)"
    and "pg_dbId (gr p (remove_slot w p g rm s)) = pg_dbId (gr p s)"
    and "stored (gr p (remove_slot w p g rm s)) = stored (gr p s)"
proof -
  define s1 where "s1 = (if pw_connected w g then dismiss w p g rm s else s)"
  define s2 where "s2 = (if stored (gr p s1) then DelinkMember p g (fx [Sql (CHAR_DEL_GROUP_MEMBER (GetCounter g))] s1) else s1)"
  define s3 where "s3 = (if \<not> pw_connected w g \<or> pw_enchanting w g \<noteq> 0 then on_gr p (ResetMaxEnchantingLevel w) s2 else s2)"
  define s4 where "s4 = on_gr p (take_slot g) (drop_votes w p g s3)"
  have rs: "remove_slot w p g rm s = SendUpdate w p (if pg_leaderGuid (gr p s4) = g
      then (case next_leader w (gr p s4) of None \<Rightarrow> s4 | Some h \<Rightarrow> Group_ChangeLeader w p h s4) else s4)"
    by (simp only: remove_slot_def Let_def s1_def s2_def s3_def s4_def)
  have i: "ident (gr p s1) = ident (gr p s)" "ident (gr p s2) = ident (gr p s)" "ident (gr p s3) = ident (gr p s)"
    "ident (gr p s4) = ident (gr p s)" by (simp_all add: s1_def s2_def s3_def s4_def)
  have m: "pg_members (gr p s4) = erase_slot g (pg_members (gr p s))" by (simp add: s1_def s2_def s3_def s4_def)
  have t1: "trace s1 = trace s"
    by (simp add: s1_def dismiss_def Let_def leave_group_def homebindIfInstance_def quiet)
  have t2: "trace s2 = trace s @ (if stored (gr p s) then [Sql (CHAR_DEL_GROUP_MEMBER (GetCounter g))] else [])"
    by (simp add: s2_def DelinkMember_def quiet t1 identD [OF i(1)] split: option.split prod.split)
  have t4: "trace s4 = trace s @ (if stored (gr p s) then [Sql (CHAR_DEL_GROUP_MEMBER (GetCounter g))] else [])"
    by (simp add: s4_def s3_def quiet t2)
  have la: "(if pg_leaderGuid (gr p s4) = g then next_leader w (gr p s4) else None) = leader_after w g (gr p s)"
    using m by (simp add: leader_after_def identD [OF i(4)] next_leader_members [of "gr p s4" "take_slot g (gr p s)"])
  have rs2: "remove_slot w p g rm s = SendUpdate w p (case leader_after w g (gr p s) of None \<Rightarrow> s4 | Some h \<Rightarrow> Group_ChangeLeader w p h s4)"
    unfolding rs la [symmetric] by (simp split: option.split)
  have ch: "find_slot h (gr p s4) \<noteq> None \<and> pw_connected w h" if "leader_after w g (gr p s) = Some h" for h
    using that la next_leader_Some [of w "gr p s4" h] by (auto split: if_splits)
  note C = ChangeLeader_tells [of _ p s4 w]
  show "trace (remove_slot w p g rm s) = trace s @
      (if stored (gr p s) then [Sql (CHAR_DEL_GROUP_MEMBER (GetCounter g))] else []) @
      (case leader_after w g (gr p s) of None \<Rightarrow> []
       | Some h \<Rightarrow> [Hook (LfgMgr.ChangeLeader (pg_guid (gr p s)) h)] @
           (if stored (gr p s) then [Sql (CHAR_UPD_GROUP_LEADER (GetCounter h) (pg_dbId (gr p s)))] else []))"
    using ch C(1) t4 identD [OF i(4)] by (cases "leader_after w g (gr p s)") (simp_all add: rs2 quiet)
  show "map sl_guid (pg_members (gr p (remove_slot w p g rm s))) = map sl_guid (erase_slot g (pg_members (gr p s)))"
    using ch C(4) m by (cases "leader_after w g (gr p s)") (simp_all add: rs2)
  show "map sl_group (pg_members (gr p (remove_slot w p g rm s))) = map sl_group (erase_slot g (pg_members (gr p s)))"
    using ch C(5) m by (cases "leader_after w g (gr p s)") (simp_all add: rs2)
  show "pg_guid (gr p (remove_slot w p g rm s)) = pg_guid (gr p s)"
    using ch C(3) identD [OF i(4)] by (cases "leader_after w g (gr p s)") (simp_all add: rs2)
  show "pg_leaderGuid (gr p (remove_slot w p g rm s)) = (case leader_after w g (gr p s) of None \<Rightarrow> pg_leaderGuid (gr p s) | Some h \<Rightarrow> h)"
    using ch C(2) identD [OF i(4)] by (cases "leader_after w g (gr p s)") (simp_all add: rs2)
  show "pg_dbId (gr p (remove_slot w p g rm s)) = pg_dbId (gr p s)"
    using ch C(6) identD [OF i(4)] by (cases "leader_after w g (gr p s)") (simp_all add: rs2)
  show "stored (gr p (remove_slot w p g rm s)) = stored (gr p s)"
    using ch C(7) identD [OF i(4)] by (cases "leader_after w g (gr p s)") (simp_all add: rs2)
qed

text \<open>A disbanded group: the hook, and for a stored group the statements that delete its rows.\<close>

lemma Disband_tells:
  "trace (Group_Disband w p hide s) = trace s @ [Hook (LfgMgr.Disband (pg_guid (gr p s)))] @
     (if stored (gr p s) then [Sql (CHAR_DEL_GROUP (pg_dbId (gr p s))), Sql (CHAR_DEL_GROUP_MEMBER_ALL (pg_dbId (gr p s))),
        Sql (CHAR_DEL_LFG_DATA (pg_dbId (gr p s)))] else [])"
proof -
  have lg: "trace (leave_group p g s) = trace s" for g s by (simp add: leave_group_def Let_def quiet)
  have hb: "filter loud (homebindIfInstance w g) = []" for g by (simp add: homebindIfInstance_def)
  have up: "trace (case q of None \<Rightarrow> fx [Send g pkt] s | Some q \<Rightarrow> SendUpdate w q s) = trace s" for q g pkt s
    by (simp add: quiet split: option.split)
  have dm: "trace (disband_member w p hide m s) = trace s" for m s
  proof -
    define s1 where "s1 = leave_group p (sl_guid m) s"
    define s2 where "s2 = (if isRaidGroup (gr p s1) then fx [Call (sl_guid m) UpdateForQuestWorldObjects] s1 else s1)"
    define s3 where "s3 = (if hide then s2 else fx [Send (sl_guid m) SMSG_GROUP_DESTROYED] s2)"
    have "trace s3 = trace s" by (simp add: s3_def s2_def s1_def lg)
    moreover have "disband_member w p hide m s =
        (if \<not> pw_connected w (sl_guid m) then s else if \<not> pw_session w (sl_guid m) then s2
         else fx (homebindIfInstance w (sl_guid m))
           (case GetGroupOf (sl_guid m) s3 of Some q \<Rightarrow> SendUpdate w q s3
            | None \<Rightarrow> fx [Send (sl_guid m) (SMSG_GROUP_LIST_LEFT (pg_guid (gr p s3)) (pg_counter (gr p s3)))] s3))"
      by (simp only: disband_member_def Let_def s3_def s2_def s1_def)
    moreover have "trace s2 = trace s" by (simp add: s2_def s1_def lg)
    ultimately show ?thesis by (simp add: hb up)
  qed
  have inv: "trace (RemoveAllInvites p s) = trace s" for s
    by (simp add: RemoveAllInvites_def trace_fold quiet)
  have refs: "trace (fold (\<lambda>(k, g) s. put_ref k g ((ref_of k g s)\<lparr>rf_to := None\<rparr>) s) xs s) = trace s" for xs s
    by (rule trace_fold) (simp add: case_prod_unfold quiet)
  have bg: "trace (case b of None \<Rightarrow> s | Some x \<Rightarrow> fx [ClearBgRaid x] s) = trace s" for b s by (cases b) simp_all
  have del: "trace (delete_group p s) = trace s" for s
    by (simp add: delete_group_def Let_def quiet refs bg)
  define s2 where "s2 = fold (disband_member w p hide) (pg_members (gr p (fx [Hook (LfgMgr.Disband (pg_guid (gr p s)))] s)))
      (fx [Hook (LfgMgr.Disband (pg_guid (gr p s)))] s)"
  define s3 where "s3 = RemoveAllInvites p (on_gr p (\<lambda>gp. gp\<lparr>pg_rolls := [], pg_members := []\<rparr>) s2)"
  have "ident (gr p s2) = ident (gr p s)" unfolding s2_def using core_fields(2) [OF core_disband_members] by simp
  then have i3: "ident (gr p s3) = ident (gr p s)" by (simp add: s3_def gr_RemoveAllInvites ident_def)
  have t3: "trace s3 = trace s @ [Hook (LfgMgr.Disband (pg_guid (gr p s)))]"
    by (simp add: s3_def s2_def inv trace_fold dm)
  have "Group_Disband w p hide s = delete_group p (RemoveGroup p
      (if stored (gr p s3)
       then FreeGroupDbStoreId p (fx [Sql (CHAR_DEL_GROUP (pg_dbId (gr p s3))), Sql (CHAR_DEL_GROUP_MEMBER_ALL (pg_dbId (gr p s3))),
              ResetGroupInstances False, ResetGroupInstances True, Sql (CHAR_DEL_LFG_DATA (pg_dbId (gr p s3)))] s3)
       else s3))"
    by (simp only: Group_Disband_def Let_def s2_def s3_def)
  then show ?thesis using t3 identD [OF i3] by (simp add: del quiet)
qed

end
