(* ===== verification/GroupFinder.thy ===== *)
theory GroupFinder
  imports GroupTrace LfgOutcomes
begin

text \<open>
  The groups and the dungeon finder together.  The finder keeps its own list of the
  members and its own leader of every group and is told of changes by script hooks only.  Its
  state is a function of the hooks that ran so far; it follows the groups.
\<close>

section \<open>What the finder knows of a group\<close>

definition hooks :: "party_state \<Rightarrow> group_event list" where
  "hooks s = concat (map (\<lambda>e. case e of Hook h \<Rightarrow> [h] | _ \<Rightarrow> []) (trace s))"

definition finder :: "lfg_world \<Rightarrow> lfg_mgr \<Rightarrow> party_state \<Rightarrow> lfg_mgr" where
  "finder lw m s = fold (group_hook lw) (hooks s) m"

definition roster :: "lfg_mgr \<Rightarrow> uint32 \<times> (guid \<Rightarrow> guid list \<times> guid)" where
  "roster m = (lm_options m, \<lambda>x. (GetPlayers x m, GetLeader x m))"

named_theorems roster_simps "operations of the finder that keep what it knows of the groups"

lemma rosterD: "roster m' = roster m \<Longrightarrow> GetPlayers x m' = GetPlayers x m \<and> GetLeader x m' = GetLeader x m \<and> lm_options m' = lm_options m"
  by (auto simp: roster_def fun_eq_iff)

lemma group_at_on_group: "group_at x (on_group g f m) = (if x = g then f (group_at g m) else group_at x m)"
  by (simp add: group_at_def on_group_def om_at_def)

lemma group_at_on_player [simp]: "group_at x (on_player g f m) = group_at x m"
  by (simp add: group_at_def on_player_def)

lemma roster_on_player [roster_simps]: "roster (on_player g f m) = roster m"
  by (simp add: roster_def GetPlayers_def GetLeader_def) 

lemma roster_on_group [roster_simps]:
  "(\<And>d. gd_players (f d) = gd_players d) \<Longrightarrow> (\<And>d. gd_leader (f d) = gd_leader d) \<Longrightarrow> roster (on_group g f m) = roster m"
  by (simp add: roster_def GetPlayers_def GetLeader_def group_at_on_group fun_eq_iff)

lemma gd_state_frame: "gd_players (gd_SetState st d) = gd_players d" "gd_leader (gd_SetState st d) = gd_leader d"
  "gd_players (gd_RestoreState d) = gd_players d" "gd_leader (gd_RestoreState d) = gd_leader d"
  "gd_players (gd_SetVoteKick b d) = gd_players d" "gd_leader (gd_SetVoteKick b d) = gd_leader d"
  by (cases st; simp add: gd_RestoreState_def gd_SetVoteKick_def)+

lemma roster_steps [roster_simps]:
  "roster (SetState g st m) = roster m" "roster (RestoreState g m) = roster m" "roster (SetRoles g r m) = roster m"
  "roster (SetGroup g h m) = roster m" "roster (send w g msg m) = roster m" "roster (on_queue k qf m) = roster m"
  "roster (m\<lparr>ms_proposals := ps\<rparr>) = roster m" "roster (m\<lparr>lm_roleChecks := rs\<rparr>) = roster m"
  "roster (m\<lparr>lm_boots := bs\<rparr>) = roster m" "roster (m\<lparr>lm_sent := es\<rparr>) = roster m" "roster (SetVoteKick g b m) = roster m"
  by (simp_all add: SetState_def RestoreState_def SetRoles_def SetGroup_def SetVoteKick_def roster_on_player roster_on_group gd_state_frame)
    (simp_all add: send_def on_queue_def roster_def GetPlayers_def GetLeader_def group_at_def)

lemma roster_fold: "(\<And>x m. roster (f x m) = roster m) \<Longrightarrow> roster (fold f xs m) = roster m"
  by (induction xs arbitrary: m) simp_all

lemma roster_UpdateRoleCheck [roster_simps]: "roster (UpdateRoleCheck w gguid g roles m) = roster m"
proof -
  have one: "roster (role_check_member w s g roles rc ds pr m) = roster m" for s rc ds pr m
    by (simp add: role_check_member_def Let_def case_prod_unfold roster_simps split: LfgRoleCheckState.split)
  show ?thesis by (simp add: UpdateRoleCheck_def Let_def roster_simps roster_fold one split: option.split)
qed

lemma roster_RemoveProposal [roster_simps]: "roster (RemoveProposal w i type m) = roster m"
proof -
  have one: "roster (remove_member w type p removed pd m) = roster m" for p removed pd m
    by (simp add: remove_member_def Let_def roster_simps)
  show ?thesis by (simp add: RemoveProposal_def Let_def roster_simps roster_fold one split: option.split)
qed

lemma roster_LeaveLfg [roster_simps]: "roster (LeaveLfg w g disc m) = roster m"
proof -
  have q: "roster (leave_queue_group w gguid m) = roster m" "roster (leave_queue_player w g m) = roster m" for gguid g m
    by (simp_all add: leave_queue_group_def leave_queue_player_def Let_def roster_simps roster_fold)
  have p: "roster (leave_proposal w g m) = roster m" for g m
    by (auto simp: leave_proposal_def roster_simps split: option.split)
  show ?thesis by (simp add: LeaveLfg_def Let_def q p roster_simps split: LfgState.split)
qed

lemma roster_InitBoot [roster_simps]: "roster (InitBoot w gguid k v reason m) = roster m"
  by (simp add: InitBoot_def Let_def roster_simps roster_fold)

section \<open>The hooks\<close>

lemma OnAddMember_roster:
  assumes "lfg_enabled m"
  shows "GetPlayers gguid (OnAddMember lw gguid g leader m) = os_insert g (GetPlayers gguid m)"
    and "GetLeader gguid (OnAddMember lw gguid g leader m) = (if leader = g then g else GetLeader gguid m)"
    and "lm_options (OnAddMember lw gguid g leader m) = lm_options m"
proof -
  define m1 where "m1 = (if leader = g then SetLeader gguid g m
      else let gstate = GetState gguid m; state = GetState g m;
               m2 = (if state = LFG_STATE_QUEUED then LeaveLfg lw g False m else m)
           in if gstate = LFG_STATE_QUEUED then LeaveLfg lw gguid False m2 else m2)"
  have r: "roster m1 = roster m" if "leader \<noteq> g" using that by (simp add: m1_def Let_def roster_simps)
  have m1: "GetPlayers gguid m1 = GetPlayers gguid m \<and> GetLeader gguid m1 = (if leader = g then g else GetLeader gguid m) \<and>
    lm_options m1 = lm_options m"
  proof (cases "leader = g")
    case True
    then show ?thesis
      by (simp add: m1_def SetLeader_def GetPlayers_def GetLeader_def group_at_on_group gd_SetLeader_def)
  qed (use rosterD [OF r, of gguid] in simp)
  have eq: "OnAddMember lw gguid g leader m = AddPlayerToGroup gguid g (SetGroup g gguid m1)"
    unfolding OnAddMember_def m1_def using assms by (simp only: if_False not_True_eq_False simp_thms Let_def)
  note sg = rosterD [OF roster_steps(4), of gguid g gguid m1]
  show "GetPlayers gguid (OnAddMember lw gguid g leader m) = os_insert g (GetPlayers gguid m)"
    "GetLeader gguid (OnAddMember lw gguid g leader m) = (if leader = g then g else GetLeader gguid m)"
    "lm_options (OnAddMember lw gguid g leader m) = lm_options m"
    unfolding eq using m1 sg
    by (simp_all add: AddPlayerToGroup_def GetPlayers_def GetLeader_def group_at_on_group gd_AddPlayer_def)
qed

lemma RemovePlayer_roster:
  "GetPlayers gguid (snd (RemovePlayerFromGroup gguid g m)) = os_erase g (GetPlayers gguid m)"
  "GetLeader gguid (snd (RemovePlayerFromGroup gguid g m)) = GetLeader gguid m"
  "lm_options (snd (RemovePlayerFromGroup gguid g m)) = lm_options m"
  by (simp_all add: RemovePlayerFromGroup_def gd_RemovePlayer_def Let_def GetPlayers_def GetLeader_def group_at_on_group)

lemma OnRemoveMember_roster:
  assumes "lfg_enabled m" and "\<not> (isLFG \<and> rm = GROUP_REMOVEMETHOD_KICK)"
  shows "GetPlayers gguid (OnRemoveMember lw gguid g rm k reason isLFG m) = os_erase g (GetPlayers gguid m)"
    and "GetLeader gguid (OnRemoveMember lw gguid g rm k reason isLFG m) = GetLeader gguid m"
    and "lm_options (OnRemoveMember lw gguid g rm k reason isLFG m) = lm_options m"
proof -
  obtain m0 where m0: "roster m0 = roster m"
    "roster (OnRemoveMember lw gguid g rm k reason isLFG m) = roster (snd (RemovePlayerFromGroup gguid g m0))"
  proof (cases "GetState gguid m = LFG_STATE_PROPOSAL \<and> rm = GROUP_REMOVEMETHOD_DEFAULT")
    case True
    then show thesis using assms that [of "SetGroup g 0 m"] by (simp add: OnRemoveMember_def Let_def roster_simps)
  next
    case False
    show thesis using assms False that [of "SetGroup g 0 (LeaveLfg lw g False m)"]
      by (auto simp: OnRemoveMember_def Let_def roster_simps split: prod.split)
  qed
  note a = rosterD [OF m0(1), of gguid] and b = rosterD [OF m0(2), of gguid]
  show "GetPlayers gguid (OnRemoveMember lw gguid g rm k reason isLFG m) = os_erase g (GetPlayers gguid m)"
    "GetLeader gguid (OnRemoveMember lw gguid g rm k reason isLFG m) = GetLeader gguid m"
    "lm_options (OnRemoveMember lw gguid g rm k reason isLFG m) = lm_options m"
    using a b by (simp_all add: RemovePlayer_roster)
qed

lemma SetLeader_roster:
  "GetPlayers gguid (SetLeader gguid h m) = GetPlayers gguid m" "GetLeader gguid (SetLeader gguid h m) = h"
  "lm_options (SetLeader gguid h m) = lm_options m"
  by (simp_all add: SetLeader_def GetPlayers_def GetLeader_def group_at_on_group gd_SetLeader_def)

lemma RemoveGroupData_gone: "om_find (ms_groups (RemoveGroupData lw g m)) g = None"
  by (simp add: RemoveGroupData_def Let_def split: option.split)

section \<open>The finder follows the groups\<close>

definition lfg_follows :: "party_group \<Rightarrow> lfg_mgr \<Rightarrow> bool" where
  "lfg_follows gp m \<longleftrightarrow> lfg_enabled m \<and> set (GetPlayers (pg_guid gp) m) = sl_guid ` set (pg_members gp) \<and>
     GetLeader (pg_guid gp) m = pg_leaderGuid gp"

lemma hooks_trace:
  assumes "trace s' = trace s @ es"
  shows "finder lw m s' = fold (group_hook lw) (concat (map (\<lambda>e. case e of Hook h \<Rightarrow> [h] | _ \<Rightarrow> []) es)) (finder lw m s)"
  by (simp add: finder_def hooks_def assms)

lemma lfg_enabled_options: "lm_options m = lm_options m' \<Longrightarrow> lfg_enabled m = lfg_enabled m'"
  by (simp add: isOptionEnabled_def)

lemma erase_slot_guids:
  "distinct (map sl_guid ms) \<Longrightarrow> sl_guid ` set (erase_slot g ms) = sl_guid ` set ms - {g}"
proof (induction ms)
  case (Cons m ms)
  then have "sl_guid m \<notin> sl_guid ` set ms" by simp
  with Cons show ?case by (cases "sl_guid m = g") auto
qed simp

lemma follows_join:
  assumes "lfg_follows (gr p s) (finder lw m s)"
  shows "lfg_follows (gr p (join_party w p g sub s)) (finder lw m (join_party w p g sub s))"
proof -
  note T = join_party_tells [where p = p and w = w and g = g and sub = sub and s = s]
  have en: "lfg_enabled (finder lw m s)" using assms by (simp add: lfg_follows_def)
  have "finder lw m (join_party w p g sub s) = OnAddMember lw (pg_guid (gr p s)) g (pg_leaderGuid (gr p s)) (finder lw m s)"
    using hooks_trace [OF T(3), of lw m] by simp
  then show ?thesis
    using assms OnAddMember_roster [OF en] identD [OF T(2)] T(1) lfg_enabled_options [OF OnAddMember_roster(3) [OF en]]
    by (auto simp: lfg_follows_def new_slot_def)
qed

lemma follows_remove_slot:
  assumes en: "lfg_enabled m'" and players: "set (GetPlayers (pg_guid (gr p s)) m') = sl_guid ` set (pg_members (gr p s)) - {g}"
    and leader: "GetLeader (pg_guid (gr p s)) m' = pg_leaderGuid (gr p s)"
    and dist: "distinct (map sl_guid (pg_members (gr p s)))"
  shows "lfg_follows (gr p (remove_slot w p g rm s))
    (case leader_after w g (gr p s) of None \<Rightarrow> m' | Some h \<Rightarrow> SetLeader (pg_guid (gr p s)) h m')"
proof -
  note T = remove_slot_tells [where w = w and p = p and g = g and rm = rm and s = s]
  have mem: "sl_guid ` set (pg_members (gr p (remove_slot w p g rm s))) = sl_guid ` set (pg_members (gr p s)) - {g}"
    using arg_cong [OF T(2), of set] erase_slot_guids [OF dist, of g] by simp
  show ?thesis
    using en players leader mem T(4,5) lfg_enabled_options [OF SetLeader_roster(3)]
    by (cases "leader_after w g (gr p s)") (auto simp: lfg_follows_def SetLeader_roster)
qed

lemma follows_leader:
  assumes "lfg_follows (gr p s) (finder lw m s)"
  shows "lfg_follows (gr p (Group_ChangeLeader w p h s)) (finder lw m (Group_ChangeLeader w p h s))"
proof (cases "find_slot h (gr p s) \<noteq> None \<and> pw_connected w h")
  case True
  then have C: "find_slot h (gr p s) \<noteq> None" "pw_connected w h" by simp_all
  note T = ChangeLeader_tells [OF C]
  have run: "finder lw m (Group_ChangeLeader w p h s) = SetLeader (pg_guid (gr p s)) h (finder lw m s)"
    using hooks_trace [OF T(1), of lw m] assms by (simp add: lfg_follows_def)
  have mem: "sl_guid ` set (pg_members (gr p (Group_ChangeLeader w p h s))) = sl_guid ` set (pg_members (gr p s))"
    using arg_cong [OF T(4), of set] by simp
  show ?thesis using assms T(2,3) mem lfg_enabled_options [OF SetLeader_roster(3)]
    by (simp add: lfg_follows_def run SetLeader_roster)
next
  case False
  then have "Group_ChangeLeader w p h s = s" by (auto simp: Group_ChangeLeader_def split: option.split)
  then show ?thesis using assms by simp
qed

lemma Disband_erases: "om_find (ps_groups (Group_Disband w p hide s)) p = None"
  by (simp add: Group_Disband_def Let_def delete_group_def)

lemma finder_Disband:
  assumes "lfg_enabled (finder lw m s)"
  shows "om_find (ms_groups (finder lw m (Group_Disband w p hide s))) (pg_guid (gr p s)) = None"
  using hooks_trace [OF Disband_tells [of w p hide s], of lw m] assms by (simp add: RemoveGroupData_gone)

lemma follows_RemoveMember:
  assumes fol: "lfg_follows (gr p s) (finder lw m s)" and dist: "distinct (map sl_guid (pg_members (gr p s)))"
    and s': "s' = snd (Group_RemoveMember w p g rm k reason s)"
  shows "lfg_follows (gr p s') (finder lw m s') \<or>
    om_find (ps_groups s') p = None \<and> om_find (ms_groups (finder lw m s')) (pg_guid (gr p s)) = None"
proof -
  let ?lfg = "isLFGGroup (gr p s)"
  define s2 where "s2 = fx [Hook (LfgMgr.RemoveMember (pg_guid (gr p s)) g rm k reason ?lfg)] (BroadcastGroupUpdate w p s)"
  have gr2: "gr p s2 = gr p s" by (simp add: s2_def)
  have "trace s2 = trace s @ [Hook (LfgMgr.RemoveMember (pg_guid (gr p s)) g rm k reason ?lfg)]"
    by (simp add: s2_def quiet)
  then have run2: "finder lw m s2 = OnRemoveMember lw (pg_guid (gr p s)) g rm k reason ?lfg (finder lw m s)"
    using hooks_trace by fastforce
  have en: "lfg_enabled (finder lw m s)" using fol by (simp add: lfg_follows_def)
  show ?thesis
  proof (cases "?lfg \<and> rm = GROUP_REMOVEMETHOD_KICK")
    case True
    have "s' = s2" using True s' by (simp add: Group_RemoveMember_def Let_def s2_def)
    moreover have "roster (finder lw m s2) = roster (finder lw m s)"
      using True en by (simp add: run2 OnRemoveMember_def roster_simps)
    then have "lfg_follows (gr p s2) (finder lw m s2)"
      using fol rosterD [of "finder lw m s2" "finder lw m s"] lfg_enabled_options [of "finder lw m s2" "finder lw m s"]
      by (simp add: lfg_follows_def gr2)
    ultimately show ?thesis by simp
  next
    case False
    note R = OnRemoveMember_roster [OF en False]
    have en2: "lfg_enabled (finder lw m s2)" using en lfg_enabled_options [OF R(3)] by (simp add: run2)
    define s3 where "s3 = remove_slot w p g rm s2"
    have players: "set (GetPlayers (pg_guid (gr p s2)) (finder lw m s2)) = sl_guid ` set (pg_members (gr p s2)) - {g}"
      using fol R(1) by (simp add: lfg_follows_def gr2 run2)
    have leader: "GetLeader (pg_guid (gr p s2)) (finder lw m s2) = pg_leaderGuid (gr p s2)"
      using fol R(2) by (simp add: lfg_follows_def gr2 run2)
    note T = remove_slot_tells [where w = w and p = p and g = g and rm = rm and s = s2]
    have "finder lw m s3 = (case leader_after w g (gr p s2) of None \<Rightarrow> finder lw m s2
        | Some h \<Rightarrow> SetLeader (pg_guid (gr p s2)) h (finder lw m s2))"
      unfolding s3_def using hooks_trace [OF T(1), of lw m] en2 by (simp split: option.split)
    then have f3: "lfg_follows (gr p s3) (finder lw m s3)"
      using follows_remove_slot [OF en2 players leader] dist gr2 by (simp add: s3_def)
    have g3: "pg_guid (gr p s3) = pg_guid (gr p s)" using T(4) gr2 by (simp add: s3_def)
    have en3: "lfg_enabled (finder lw m s3)" using f3 by (simp add: lfg_follows_def)
    have "s' = snd (if ?lfg \<and> rm = GROUP_REMOVEMETHOD_KICK then (pg_members (gr p s2) \<noteq> [], s2)
         else if GetMembersCount (gr p s2) > (if isBGGroup (gr p s2) \<or> isLFGGroup (gr p s2) \<or> isBFGroup (gr p s2) then 1 else 2)
         then settle_group w p s3 else (False, Group_Disband w p False s2))"
      by (simp add: s' Group_RemoveMember_def Let_def s3_def s2_def)
    then have "s' = snd (settle_group w p s3) \<or> s' = Group_Disband w p False s2"
      unfolding if_not_P [OF False] by (cases "GetMembersCount (gr p s2) > (if isBGGroup (gr p s2) \<or> isLFGGroup (gr p s2) \<or> isBFGroup (gr p s2) then 1 else 2)") simp_all
    then consider "s' = s3" | "s' = Group_Disband w p False s3" | "s' = Group_Disband w p False s2"
      by (cases rule: settle_cases [of w p s3]) auto
    then show ?thesis
    proof cases
      case 1
      then show ?thesis using f3 by simp
    next
      case 2
      then show ?thesis using finder_Disband [OF en3, of w p False] g3 Disband_erases by simp
    next
      case 3
      then show ?thesis using finder_Disband [OF en2, of w p False] gr2 Disband_erases by simp
    qed
  qed
qed

text \<open>C2: The dungeon finder, which is told of changes by script hooks only, keeps the
  members and the leader of a group: after every join, removal, vote to kick and change of the leader
  its list of players is the list of members again, and a disbanded group is forgotten.
\<close>

theorem finder_follows_groups:
  assumes "lfg_follows (gr p s) (finder lw m s)" and "distinct (map sl_guid (pg_members (gr p s)))"
  shows "lfg_follows (gr p (snd (Group_AddMember w p g s))) (finder lw m (snd (Group_AddMember w p g s))) \<and>
    lfg_follows (gr p (Group_ChangeLeader w p g s)) (finder lw m (Group_ChangeLeader w p g s)) \<and>
    (let s' = snd (Group_RemoveMember w p g rm k reason s)
     in lfg_follows (gr p s') (finder lw m s') \<or>
        om_find (ps_groups s') p = None \<and> om_find (ms_groups (finder lw m s')) (pg_guid (gr p s)) = None)"
  using assms follows_join [OF assms(1)] follows_leader [OF assms(1)] follows_RemoveMember [OF assms refl]
  by (simp add: Group_AddMember_def Let_def split: option.split)

lemma finder_follows_groups_witness:
  "lfg_follows (gr 1 (snd (Group_AddMember sample_party_world 1 4 sample_party)))
     (finder sample_world (lm_init 3) (snd (Group_AddMember sample_party_world 1 4 sample_party)))"
proof -
  have "lfg_follows (gr 1 sample_party) (finder sample_world (lm_init 3) sample_party)"
    "distinct (map sl_guid (pg_members (gr 1 sample_party)))" by code_simp+
  from finder_follows_groups [OF this, where w = sample_party_world] show ?thesis by blast
qed

end
