(* ===== verification/GroupHandlers.thy ===== *)
theory GroupHandlers
  imports GroupLinks
begin

text \<open>
  The packets a client sends about his group, \<^verbatim>\<open>src/src/server/game/Handlers/GroupHandler.cpp\<close>.
  A handler takes the guid of the session's player and the fields of the packet; a
  \<^verbatim>\<open>float\<close> of the minimap ping is its bit pattern.  What the handlers ask of players,
  settings and the dungeon finder is the record \<open>party_client\<close>; the address of a group that an
  invitation creates is an argument.
\<close>

section \<open>What the handlers ask\<close>

record party_client =
  pc_normalize :: "string \<Rightarrow> bool \<times> string"
  pc_byName :: "string \<Rightarrow> guid option"
  pc_connectedByName :: "string \<Rightarrow> guid option"
  pc_guidByName :: "string \<Rightarrow> guid"
  pc_allowGM :: bool
  pc_twoSide :: bool
  pc_team :: "guid \<Rightarrow> nat"
  pc_instance :: "guid \<Rightarrow> uint32"
  pc_ignores :: "guid \<Rightarrow> guid \<Rightarrow> bool"
  pc_inBattleground :: "guid \<Rightarrow> bool"
  pc_inCombat :: "guid \<Rightarrow> bool"
  pc_hostile :: "guid \<Rightarrow> guid \<Rightarrow> bool"
  pc_kicksLeft :: "guid \<Rightarrow> uint8"
  pc_kickActive :: "guid \<Rightarrow> bool"
  pc_roll :: "uint32 \<Rightarrow> uint32 \<Rightarrow> uint32"

definition SendPartyResult :: "guid \<Rightarrow> PartyOperation \<Rightarrow> string \<Rightarrow> PartyResult \<Rightarrow> party_state \<Rightarrow> party_state" where
  "SendPartyResult me op name res = fx [Send me (SMSG_PARTY_COMMAND_RESULT op name res)]"

text \<open>The group that counts for invitations: in a battleground group, the player's own one.\<close>

definition home_group :: "guid \<Rightarrow> party_state \<Rightarrow> nat option" where
  "home_group g s =
     (case GetGroupOf g s of None \<Rightarrow> None
      | Some q \<Rightarrow> if isBGGroup (gr q s) then GetOriginalGroup g s else Some q)"

definition in_charge :: "guid \<Rightarrow> party_group \<Rightarrow> bool" where
  "in_charge g gp \<longleftrightarrow> IsLeader g gp \<or> IsAssistant g gp"

section \<open>Invitations\<close>

text \<open>What stands against inviting player \<open>h\<close>, before any group is looked at.\<close>

definition invite_refusal :: "party_world \<Rightarrow> party_client \<Rightarrow> guid \<Rightarrow> guid \<Rightarrow> PartyResult option" where
  "invite_refusal w c me h =
     (if \<not> pc_allowGM c \<and> \<not> pw_gm w me \<and> pw_gm w h then Some ERR_BAD_PLAYER_NAME_S
      else if \<not> pw_gm w me \<and> \<not> pc_twoSide c \<and> pc_team c me \<noteq> pc_team c h then Some ERR_PLAYER_WRONG_FACTION
      else if pc_instance c me \<noteq> 0 \<and> pc_instance c h \<noteq> 0 \<and> pc_instance c me \<noteq> pc_instance c h \<and> pw_mapId w me = pw_mapId w h
      then Some ERR_TARGET_NOT_IN_INSTANCE_S
      else if pc_instance c h \<noteq> 0 \<and> pw_dungeonDifficulty w h \<noteq> pw_dungeonDifficulty w me then Some ERR_IGNORING_YOU_S
      else if pc_ignores c h me then Some ERR_IGNORING_YOU_S
      else None)"

definition invited :: "party_world \<Rightarrow> guid \<Rightarrow> guid \<Rightarrow> string \<Rightarrow> party_state \<Rightarrow> party_state" where
  "invited w me h name s =
     SendPartyResult me PARTY_OP_INVITE name ERR_PARTY_RESULT_OK (fx [Send h (SMSG_GROUP_INVITE True (pw_name w me))] s)"

text \<open>An invitation into a new group at address \<open>p\<close>, whose leader is invited first.\<close>

definition invite_to_new :: "party_world \<Rightarrow> nat \<Rightarrow> guid \<Rightarrow> guid \<Rightarrow> string \<Rightarrow> party_state \<Rightarrow> party_state" where
  "invite_to_new w p me h name s =
     (case AddLeaderInvite w p me (new_group p s) of (ok, s1) \<Rightarrow>
        if \<not> ok then delete_group p s1
        else (case AddInvite p h s1 of (ok2, s2) \<Rightarrow> if \<not> ok2 then delete_group p s2 else invited w me h name s2))"

definition invite_to :: "party_world \<Rightarrow> nat \<Rightarrow> guid \<Rightarrow> guid \<Rightarrow> string \<Rightarrow> party_state \<Rightarrow> party_state" where
  "invite_to w q me h name s =
     (if \<not> in_charge me (gr q s) then SendPartyResult me PARTY_OP_INVITE '''' ERR_NOT_LEADER s
      else if IsFull (gr q s) then SendPartyResult me PARTY_OP_INVITE '''' ERR_GROUP_FULL s
      else case AddInvite q h s of (ok, s1) \<Rightarrow> if \<not> ok then s1 else invited w me h name s1)"

definition HandleGroupInvite :: "party_world \<Rightarrow> party_client \<Rightarrow> nat \<Rightarrow> guid \<Rightarrow> string \<Rightarrow> party_state \<Rightarrow> party_state" where
  "HandleGroupInvite w c p me name0 s =
     (case pc_normalize c name0 of (ok, name) \<Rightarrow>
        if \<not> ok then SendPartyResult me PARTY_OP_INVITE name ERR_BAD_PLAYER_NAME_S s
        else case pc_byName c name of None \<Rightarrow> SendPartyResult me PARTY_OP_INVITE name ERR_BAD_PLAYER_NAME_S s
        | Some h \<Rightarrow>
            (case invite_refusal w c me h of Some r \<Rightarrow> SendPartyResult me PARTY_OP_INVITE name r s
             | None \<Rightarrow>
                 if home_group h s \<noteq> None \<or> om_find (ps_invite s) h \<noteq> None
                 then fx (if home_group h s \<noteq> None then [Send h (SMSG_GROUP_INVITE False (pw_name w me))] else [])
                        (SendPartyResult me PARTY_OP_INVITE name ERR_ALREADY_IN_GROUP_S s)
                 else (case home_group me s of None \<Rightarrow> invite_to_new w p me h name s
                       | Some q \<Rightarrow> invite_to w q me h name s)))"

text \<open>Accepting: the group is created with its leader when he is in the world.\<close>

definition create_for :: "party_world \<Rightarrow> nat \<Rightarrow> party_state \<Rightarrow> party_state" where
  "create_for w p s =
     (let leader = pg_leaderGuid (gr p s) in AddGroup p (snd (Group_Create w p leader (RemoveInvite p leader s))))"

definition accept_into :: "party_world \<Rightarrow> nat \<Rightarrow> guid \<Rightarrow> party_state \<Rightarrow> party_state" where
  "accept_into w p me s =
     (case Group_AddMember w p me s of (ok, s1) \<Rightarrow> if ok then BroadcastGroupUpdate w p s1 else s1)"

definition HandleGroupAccept :: "party_world \<Rightarrow> guid \<Rightarrow> party_state \<Rightarrow> party_state" where
  "HandleGroupAccept w me s =
     (case om_find (ps_invite s) me of None \<Rightarrow> s
      | Some p \<Rightarrow>
          let s1 = RemoveInvite p me s
          in if IsLeader me (gr p s1) then s1
             else if IsFull (gr p s1) then SendPartyResult me PARTY_OP_INVITE '''' ERR_GROUP_FULL s1
             else if IsCreated (gr p s1) then accept_into w p me s1
             else if \<not> FindPlayer w (pg_leaderGuid (gr p s1)) then RemoveAllInvites p s1
             else accept_into w p me (create_for w p s1))"

definition HandleGroupDecline :: "party_world \<Rightarrow> guid \<Rightarrow> party_state \<Rightarrow> party_state" where
  "HandleGroupDecline w me s =
     (case om_find (ps_invite s) me of None \<Rightarrow> s
      | Some p \<Rightarrow>
          let leader = pg_leaderGuid (gr p s); s1 = UninviteFromGroup w me s
          in if \<not> pw_connected w leader \<or> \<not> pw_session w leader then s1
             else fx [Send leader (SMSG_GROUP_DECLINE (pw_name w me))] s1)"

section \<open>Removing\<close>

definition CanUninviteFromGroup :: "party_world \<Rightarrow> party_client \<Rightarrow> guid \<Rightarrow> guid \<Rightarrow> party_state \<Rightarrow> PartyResult" where
  "CanUninviteFromGroup w c me g s =
     (case GetGroupOf me s of None \<Rightarrow> ERR_NOT_IN_GROUP
      | Some q \<Rightarrow>
          let gp = gr q s
          in if isLFGGroup gp
             then (if pc_kicksLeft c (pg_guid gp) = 0 then ERR_PARTY_LFG_BOOT_LIMIT
                   else if pc_kickActive c (pg_guid gp) then ERR_PARTY_LFG_BOOT_IN_PROGRESS
                   else if GetMembersCount gp \<le> LFG_GROUP_KICK_VOTES_NEEDED then ERR_PARTY_LFG_BOOT_TOO_FEW_PLAYERS
                   else if pw_lfgFinished w (pg_guid gp) then ERR_PARTY_LFG_BOOT_DUNGEON_COMPLETE
                   else if isRollLootActive gp then ERR_PARTY_LFG_BOOT_LOOT_ROLLS
                   else if list_ex (\<lambda>(k, h). pc_inCombat c h) (pg_refs gp) then ERR_PARTY_LFG_BOOT_IN_COMBAT
                   else ERR_PARTY_RESULT_OK)
             else (if \<not> in_charge me gp then ERR_NOT_LEADER
                   else if pc_inBattleground c me then ERR_INVITE_RESTRICTED
                   else if IsLeader g gp then ERR_NOT_LEADER
                   else ERR_PARTY_RESULT_OK))"

definition HandleGroupUninviteGuid ::
  "party_world \<Rightarrow> party_client \<Rightarrow> guid \<Rightarrow> guid \<Rightarrow> string \<Rightarrow> party_state \<Rightarrow> party_state" where
  "HandleGroupUninviteGuid w c me g reason s =
     (if g = me then s
      else if CanUninviteFromGroup w c me g s \<noteq> ERR_PARTY_RESULT_OK
      then SendPartyResult me PARTY_OP_UNINVITE '''' (CanUninviteFromGroup w c me g s) s
      else case GetGroupOf me s of None \<Rightarrow> s
        | Some q \<Rightarrow>
            if IsMember g (gr q s) then snd (Group_RemoveMember w q g GROUP_REMOVEMETHOD_KICK me reason s)
            else case GetInvited g (gr q s) of Some h \<Rightarrow> UninviteFromGroup w h s
              | None \<Rightarrow> SendPartyResult me PARTY_OP_UNINVITE '''' ERR_TARGET_NOT_IN_GROUP_S s)"

text \<open>By name: the check is made for the default argument, the empty guid.\<close>

definition HandleGroupUninvite ::
  "party_world \<Rightarrow> party_client \<Rightarrow> guid \<Rightarrow> string \<Rightarrow> party_state \<Rightarrow> party_state" where
  "HandleGroupUninvite w c me name0 s =
     (case pc_normalize c name0 of (ok, name) \<Rightarrow>
        if \<not> ok \<or> pw_name w me = name then s
        else if CanUninviteFromGroup w c me 0 s \<noteq> ERR_PARTY_RESULT_OK
        then SendPartyResult me PARTY_OP_UNINVITE '''' (CanUninviteFromGroup w c me 0 s) s
        else case GetGroupOf me s of None \<Rightarrow> s
          | Some q \<Rightarrow>
              if GetMemberGUID name (gr q s) \<noteq> 0
              then snd (Group_RemoveMember w q (GetMemberGUID name (gr q s)) GROUP_REMOVEMETHOD_KICK me '''' s)
              else case GetInvitedByName w name (gr q s) of Some h \<Rightarrow> UninviteFromGroup w h s
                | None \<Rightarrow> SendPartyResult me PARTY_OP_UNINVITE name ERR_TARGET_NOT_IN_GROUP_S s)"

definition HandleGroupDisband :: "party_world \<Rightarrow> party_client \<Rightarrow> guid \<Rightarrow> party_state \<Rightarrow> party_state" where
  "HandleGroupDisband w c me s =
     (case GetGroupOf me s of None \<Rightarrow> s
      | Some q \<Rightarrow>
          if pc_inBattleground c me then SendPartyResult me PARTY_OP_INVITE '''' ERR_INVITE_RESTRICTED s
          else snd (Group_RemoveMember w q me GROUP_REMOVEMETHOD_LEAVE 0 ''''
                 (SendPartyResult me PARTY_OP_LEAVE (pw_name w me) ERR_PARTY_RESULT_OK s)))"

section \<open>Settings\<close>

definition HandleGroupSetLeader :: "party_world \<Rightarrow> guid \<Rightarrow> guid \<Rightarrow> party_state \<Rightarrow> party_state" where
  "HandleGroupSetLeader w me g s =
     (case GetGroupOf me s of None \<Rightarrow> s
      | Some q \<Rightarrow>
          if \<not> pw_connected w g \<or> \<not> IsLeader me (gr q s) \<or> GetGroupOf g s \<noteq> Some q then s
          else SendUpdate w q (Group_ChangeLeader w q g s))"

definition HandleLootMethod :: "party_world \<Rightarrow> guid \<Rightarrow> uint32 \<Rightarrow> guid \<Rightarrow> uint32 \<Rightarrow> party_state \<Rightarrow> party_state" where
  "HandleLootMethod w me method master threshold s =
     (case GetGroupOf me s of None \<Rightarrow> s
      | Some q \<Rightarrow>
          if \<not> IsLeader me (gr q s) \<or> method > ucast NEED_BEFORE_GREED \<or>
             threshold < ucast ITEM_QUALITY_UNCOMMON \<or> threshold > ucast ITEM_QUALITY_ARTIFACT \<or>
             method = ucast MASTER_LOOT \<and> \<not> IsMember master (gr q s) then s
          else SendUpdate w q (SetLootThreshold q (ucast threshold) (SetMasterLooterGuid q master (SetLootMethod q (ucast method) s))))"

definition HandleLootRoll :: "party_world \<Rightarrow> guid \<Rightarrow> guid \<Rightarrow> uint8 \<Rightarrow> party_state \<Rightarrow> party_state" where
  "HandleLootRoll w me item rollType s =
     (case GetGroupOf me s of None \<Rightarrow> s
      | Some q \<Rightarrow>
          fx (if rollType = ROLL_NEED then [Call me (RollCriteria True)]
              else if rollType = ROLL_GREED then [Call me (RollCriteria False)] else [])
            (CountRollVote w q me item rollType s))"

definition HandleMinimapPing :: "party_world \<Rightarrow> guid \<Rightarrow> uint32 \<Rightarrow> uint32 \<Rightarrow> party_state \<Rightarrow> party_state" where
  "HandleMinimapPing w me x y s =
     (case GetGroupOf me s of None \<Rightarrow> s
      | Some q \<Rightarrow> BroadcastPacket w q (MSG_MINIMAP_PING me x y) True None me s)"

definition HandleRandomRoll :: "party_world \<Rightarrow> party_client \<Rightarrow> guid \<Rightarrow> uint32 \<Rightarrow> uint32 \<Rightarrow> party_state \<Rightarrow> party_state" where
  "HandleRandomRoll w c me minimum maximum s =
     (if minimum > maximum \<or> maximum > 10000 then s
      else let pkt = MSG_RANDOM_ROLL minimum maximum (pc_roll c minimum maximum) me
           in case GetGroupOf me s of None \<Rightarrow> fx [Send me pkt] s | Some q \<Rightarrow> BroadcastPacket w q pkt False None 0 s)"

definition HandleRaidTargetUpdate :: "party_world \<Rightarrow> party_client \<Rightarrow> guid \<Rightarrow> uint8 \<Rightarrow> guid \<Rightarrow> party_state \<Rightarrow> party_state" where
  "HandleRaidTargetUpdate w c me x g s =
     (case GetGroupOf me s of None \<Rightarrow> s
      | Some q \<Rightarrow>
          if x = 0xFF then SendTargetIconList q me s
          else if isRaidGroup (gr q s) \<and> \<not> in_charge me (gr q s) then s
          else if IsPlayer g \<and> (\<not> pw_connected w g \<or> pc_hostile c g me) then s
          else SetTargetIcon w q x me g s)"

definition HandleGroupRaidConvert :: "party_world \<Rightarrow> party_client \<Rightarrow> guid \<Rightarrow> party_state \<Rightarrow> party_state" where
  "HandleGroupRaidConvert w c me s =
     (case GetGroupOf me s of None \<Rightarrow> s
      | Some q \<Rightarrow>
          if pc_inBattleground c me \<or> \<not> IsLeader me (gr q s) \<or> GetMembersCount (gr q s) < 2 then s
          else ConvertToRaid w q (SendPartyResult me PARTY_OP_INVITE '''' ERR_PARTY_RESULT_OK s))"

definition HandleGroupChangeSubGroup ::
  "party_world \<Rightarrow> party_client \<Rightarrow> guid \<Rightarrow> string \<Rightarrow> uint8 \<Rightarrow> party_state \<Rightarrow> party_state" where
  "HandleGroupChangeSubGroup w c me name sub s =
     (case GetGroupOf me s of None \<Rightarrow> s
      | Some q \<Rightarrow>
          if unat sub \<ge> MAX_RAID_SUBGROUPS \<or> \<not> in_charge me (gr q s) \<or> \<not> HasFreeSlotSubGroup sub (gr q s) then s
          else ChangeMembersGroup w q (case pc_connectedByName c name of Some h \<Rightarrow> h | None \<Rightarrow> pc_guidByName c name) sub s)"

definition HandleGroupAssistantLeader :: "party_world \<Rightarrow> guid \<Rightarrow> guid \<Rightarrow> bool \<Rightarrow> party_state \<Rightarrow> party_state" where
  "HandleGroupAssistantLeader w me g on s =
     (case GetGroupOf me s of None \<Rightarrow> s
      | Some q \<Rightarrow> if \<not> IsLeader me (gr q s) then s else SetGroupMemberFlag w q g on MEMBER_FLAG_ASSISTANT s)"

text \<open>\<^verbatim>\<open>GROUP_ASSIGN_MAINTANK\<close> is 0, \<^verbatim>\<open>GROUP_ASSIGN_MAINASSIST\<close> is 1.\<close>

definition HandlePartyAssignment :: "party_world \<Rightarrow> guid \<Rightarrow> uint8 \<Rightarrow> bool \<Rightarrow> guid \<Rightarrow> party_state \<Rightarrow> party_state" where
  "HandlePartyAssignment w me assignment on g s =
     (case GetGroupOf me s of None \<Rightarrow> s
      | Some q \<Rightarrow>
          if \<not> in_charge me (gr q s) then s
          else let s1 = (if assignment = 1
                         then SetGroupMemberFlag w q g on MEMBER_FLAG_MAINASSIST (on_gr q (RemoveUniqueGroupMemberFlag MEMBER_FLAG_MAINASSIST) s)
                         else if assignment = 0
                         then SetGroupMemberFlag w q g on MEMBER_FLAG_MAINTANK (on_gr q (RemoveUniqueGroupMemberFlag MEMBER_FLAG_MAINTANK) s)
                         else s)
               in SendUpdate w q s1)"

text \<open>A ready check is a request (no state) or an answer.\<close>

definition HandleRaidReadyCheck :: "party_world \<Rightarrow> guid \<Rightarrow> uint8 option \<Rightarrow> party_state \<Rightarrow> party_state" where
  "HandleRaidReadyCheck w me answer s =
     (case GetGroupOf me s of None \<Rightarrow> s
      | Some q \<Rightarrow>
          (case answer of
             None \<Rightarrow> if \<not> in_charge me (gr q s) then s
                     else OfflineReadyCheck w q (BroadcastPacket w q (MSG_RAID_READY_CHECK me) False None 0 s)
           | Some state \<Rightarrow> BroadcastReadyCheck w q (MSG_RAID_READY_CHECK_CONFIRM me state) s))"

definition HandleOptOutOfLoot :: "guid \<Rightarrow> uint32 \<Rightarrow> party_state \<Rightarrow> party_state" where
  "HandleOptOutOfLoot me x = fx [Call me (PassOnGroupLoot (x \<noteq> 0))]"

section \<open>Packets\<close>

datatype client_packet =
    CMSG_GROUP_INVITE nat string
  | CMSG_GROUP_ACCEPT
  | CMSG_GROUP_DECLINE
  | CMSG_GROUP_UNINVITE_GUID guid string
  | CMSG_GROUP_UNINVITE string
  | CMSG_GROUP_SET_LEADER guid
  | CMSG_GROUP_DISBAND
  | CMSG_LOOT_METHOD uint32 guid uint32
  | CMSG_LOOT_ROLL guid uint8
  | CMSG_MINIMAP_PING uint32 uint32
  | CMSG_RANDOM_ROLL uint32 uint32
  | CMSG_RAID_TARGET_UPDATE uint8 guid
  | CMSG_GROUP_RAID_CONVERT
  | CMSG_GROUP_CHANGE_SUB_GROUP string uint8
  | CMSG_GROUP_ASSISTANT_LEADER guid bool
  | CMSG_PARTY_ASSIGNMENT uint8 bool guid
  | CMSG_RAID_READY_CHECK "uint8 option"
  | CMSG_OPT_OUT_OF_LOOT uint32

fun handle_packet :: "party_world \<Rightarrow> party_client \<Rightarrow> guid \<Rightarrow> client_packet \<Rightarrow> party_state \<Rightarrow> party_state" where
  "handle_packet w c me (CMSG_GROUP_INVITE p name) = HandleGroupInvite w c p me name"
| "handle_packet w c me CMSG_GROUP_ACCEPT = HandleGroupAccept w me"
| "handle_packet w c me CMSG_GROUP_DECLINE = HandleGroupDecline w me"
| "handle_packet w c me (CMSG_GROUP_UNINVITE_GUID g reason) = HandleGroupUninviteGuid w c me g reason"
| "handle_packet w c me (CMSG_GROUP_UNINVITE name) = HandleGroupUninvite w c me name"
| "handle_packet w c me (CMSG_GROUP_SET_LEADER g) = HandleGroupSetLeader w me g"
| "handle_packet w c me CMSG_GROUP_DISBAND = HandleGroupDisband w c me"
| "handle_packet w c me (CMSG_LOOT_METHOD method master threshold) = HandleLootMethod w me method master threshold"
| "handle_packet w c me (CMSG_LOOT_ROLL item rollType) = HandleLootRoll w me item rollType"
| "handle_packet w c me (CMSG_MINIMAP_PING x y) = HandleMinimapPing w me x y"
| "handle_packet w c me (CMSG_RANDOM_ROLL lo hi) = HandleRandomRoll w c me lo hi"
| "handle_packet w c me (CMSG_RAID_TARGET_UPDATE x g) = HandleRaidTargetUpdate w c me x g"
| "handle_packet w c me CMSG_GROUP_RAID_CONVERT = HandleGroupRaidConvert w c me"
| "handle_packet w c me (CMSG_GROUP_CHANGE_SUB_GROUP name sub) = HandleGroupChangeSubGroup w c me name sub"
| "handle_packet w c me (CMSG_GROUP_ASSISTANT_LEADER g on) = HandleGroupAssistantLeader w me g on"
| "handle_packet w c me (CMSG_PARTY_ASSIGNMENT assignment on g) = HandlePartyAssignment w me assignment on g"
| "handle_packet w c me (CMSG_RAID_READY_CHECK answer) = HandleRaidReadyCheck w me answer"
| "handle_packet w c me (CMSG_OPT_OUT_OF_LOOT x) = HandleOptOutOfLoot me x"

end
