(* ===== verification/GroupClients.thy ===== *)
theory GroupClients
  imports GroupHandlers GroupTrace
begin

text \<open>
  What the packets of the clients can do to the groups: they keep them well formed as long as
  nobody accepts an invitation to a group he is in, players without a rank cannot change the group, and four ways in which
  the handlers of invitations and removals do what they should not, one of them that somebody does.
\<close>

section \<open>Handlers as steps\<close>

named_theorems reach_intros "operations of the handlers stay in the reachable states"

lemma reach_send [reach_intros]: "list_all sending es \<Longrightarrow> party_reach w s \<Longrightarrow> party_reach w (fx es s)"
  by (rule re_step) (auto intro: st_send)

lemma sending_concat: "list_all sending (concat (map f xs)) \<longleftrightarrow> list_all (\<lambda>x. list_all sending (f x)) xs"
  by (induction xs) auto

lemma reach_result [reach_intros]: "party_reach w s \<Longrightarrow> party_reach w (SendPartyResult me op name res s)"
  by (simp add: SendPartyResult_def reach_send)

lemma reach_broadcasts [reach_intros]:
  assumes "party_reach w s"
  shows "party_reach w (BroadcastPacket w p pkt ign sub i s)" and "party_reach w (BroadcastReadyCheck w p pkt s)"
    and "party_reach w (BroadcastGroupUpdate w p s)" and "party_reach w (SendTargetIconList p g s)"
  unfolding BroadcastPacket_def BroadcastReadyCheck_def BroadcastGroupUpdate_def SendTargetIconList_def
  by (rule reach_send, auto simp: sending_concat list_all_iff assms)+

lemma reach_fold: "(\<And>x s. party_reach w s \<Longrightarrow> party_reach w (f x s)) \<Longrightarrow> party_reach w s \<Longrightarrow> party_reach w (fold f xs s)"
  by (induction xs arbitrary: s) auto

lemma reach_OfflineReadyCheck [reach_intros]: "party_reach w s \<Longrightarrow> party_reach w (OfflineReadyCheck w p s)"
  unfolding OfflineReadyCheck_def by (rule reach_fold) (auto intro: reach_intros)

lemma reach_steps [reach_intros]:
  assumes "party_reach w s"
  shows "party_reach w (SendUpdate w p s)" "party_reach w (Group_ChangeLeader w p g s)"
    "party_reach w (snd (Group_RemoveMember w p g rm k reason s))" "party_reach w (UninviteFromGroup w g s)"
    "party_reach w (RemoveInvite p g s)" "party_reach w (RemoveAllInvites p s)" "party_reach w (snd (AddInvite p g s))"
    "party_reach w (snd (AddLeaderInvite w p g s))" "party_reach w (delete_group p s)" "party_reach w (AddGroup p s)"
    "party_reach w (CountRollVote w p g ig choice s)" "party_reach w (SetLootMethod p x s)" "party_reach w (SetLootThreshold p x s)"
    "party_reach w (SetMasterLooterGuid p g s)" "party_reach w (SetTargetIcon w p i who t s)" "party_reach w (ConvertToRaid w p s)"
    "party_reach w (SetGroupMemberFlag w p g on flag s)" "party_reach w (on_gr p (RemoveUniqueGroupMemberFlag flag) s)"
  by (rule re_step [OF assms], rule party_step.intros)+

section \<open>Invitations\<close>

lemma AddInvite_group [simp]:
  "pg_members (gr q (snd (AddInvite p g s))) = pg_members (gr q s)"
  by (simp add: AddInvite_def RemoveInvite_def Let_def SetGroupInvite_def gr_def [of _ "_\<lparr>ps_invite := _\<rparr>"]
      flip: gr_def split: option.split)

lemma RemoveInvite_group [simp]: "gr q (RemoveInvite p g s) =
    (if q = p then (gr p s)\<lparr>pg_invitees := os_erase g (pg_invitees (gr p s))\<rparr> else gr q s)"
  by (simp add: RemoveInvite_def SetGroupInvite_def gr_def on_gr_def om_at_def)

lemma reach_invites:
  assumes "party_reach w s"
  shows "party_reach w (invite_to w q me h name s)"
    and "om_find (ps_groups s) p = None \<Longrightarrow> party_reach w (invite_to_new w p me h name s)"
proof -
  have inv: "party_reach w (invited w me h name s)" if "party_reach w s" for s
    using that by (auto simp: invited_def intro!: reach_intros)
  show "party_reach w (invite_to w q me h name s)"
    using inv [OF reach_steps(7) [OF assms, of q h]] reach_steps(7) [OF assms, of q h] assms
    by (auto simp: invite_to_def case_prod_unfold intro!: reach_intros)
  assume "om_find (ps_groups s) p = None"
  then have "party_reach w (new_group p s)" by (rule re_step [OF assms st_new])
  then have one: "party_reach w (snd (AddLeaderInvite w p me (new_group p s)))" by (rule reach_steps)
  show "party_reach w (invite_to_new w p me h name s)"
    using inv [OF reach_steps(7) [OF one, of p h]] reach_steps(7) [OF one, of p h] one
    by (auto simp: invite_to_new_def case_prod_unfold intro!: reach_intros)
qed

section \<open>Accepting\<close>

lemma AddMember_members:
  "pg_members (gr p (snd (Group_AddMember w p g s))) = pg_members (gr p s) \<or>
   (\<exists>sub. pg_members (gr p (snd (Group_AddMember w p g s))) = pg_members (gr p s) @ [new_slot w g sub])"
  by (auto simp: Group_AddMember_def join_party_tells(1) split: option.split)

lemma create_for_group:
  assumes "party_reach w s" and empty: "pg_members (gr p s) = []"
  shows "party_reach w (create_for w p s)" and "\<not> IsFull (gr p (create_for w p s))"
    and "IsMember g (gr p (create_for w p s)) \<Longrightarrow> g = pg_leaderGuid (gr p s)"
proof -
  define l where "l = pg_leaderGuid (gr p s)"
  let ?s1 = "RemoveInvite p l s"
  have e1: "pg_members (gr p ?s1) = []" using empty by simp
  have r1: "party_reach w ?s1" using assms(1) by (rule reach_steps)
  have cf: "create_for w p s = AddGroup p (snd (Group_Create w p l ?s1))" by (simp add: create_for_def Let_def l_def)
  have ag: "gr q (AddGroup p x) = gr q x" for q x by (simp add: AddGroup_def gr_def)
  have "pg_members (gr p (found_group w p l ?s1)) = []"
    using all_ok_found_group(2) [OF reach_all_ok [OF r1] e1] .
  then have m: "\<exists>sub. pg_members (gr p (create_for w p s)) \<in> {[], [new_slot w l sub]}"
    using AddMember_members [of p w l "found_group w p l ?s1"] by (auto simp: cf ag Group_Create_def)
  show "party_reach w (create_for w p s)"
    unfolding cf by (rule reach_steps(10), rule re_step [OF r1], rule st_create [OF e1])
  show "\<not> IsFull (gr p (create_for w p s))" using m by (auto simp: IsFull_def)
  show "IsMember g (gr p (create_for w p s)) \<Longrightarrow> g = pg_leaderGuid (gr p s)"
    using m by (auto simp: IsMember_def find_slot_def new_slot_def l_def split: if_splits)
qed

lemma reach_accept_into:
  assumes "party_reach w s" "\<not> IsFull (gr p s)" "\<not> IsMember me (gr p s)"
  shows "party_reach w (accept_into w p me s)"
proof -
  have "party_reach w (snd (Group_AddMember w p me s))" by (rule re_step [OF assms(1)], rule st_add [OF assms(2,3)])
  then show ?thesis by (auto simp: accept_into_def case_prod_unfold intro: reach_intros)
qed

lemma reach_accept:
  assumes r: "party_reach w s" and new: "\<And>p. om_find (ps_invite s) me = Some p \<Longrightarrow> \<not> IsMember me (gr p s)"
  shows "party_reach w (HandleGroupAccept w me s)"
proof (cases "om_find (ps_invite s) me")
  case None
  then show ?thesis using r by (simp add: HandleGroupAccept_def)
next
  case (Some p)
  let ?s1 = "RemoveInvite p me s"
  have r1: "party_reach w ?s1" using r by (rule reach_steps)
  have new1: "\<not> IsMember me (gr p ?s1)" using new [OF Some] by (simp add: IsMember_def find_slot_def)
  have created: "party_reach w (accept_into w p me ?s1)" if "\<not> IsFull (gr p ?s1)"
    by (rule reach_accept_into [OF r1 that new1])
  have founded: "party_reach w (accept_into w p me (create_for w p ?s1))"
    if "\<not> IsCreated (gr p ?s1)" "\<not> IsLeader me (gr p ?s1)"
  proof -
    have e: "pg_members (gr p ?s1) = []" using that(1) by (simp add: IsCreated_def GetMembersCount_def)
    show ?thesis using create_for_group [OF r1 e] that(2) by (auto simp: IsLeader_def intro: reach_accept_into)
  qed
  show ?thesis unfolding HandleGroupAccept_def Some Let_def option.case
    using created founded reach_steps(6) [OF r1, of p] r1 reach_result [OF r1] by (simp only: split: if_split) blast
qed

section \<open>Every packet\<close>

definition expected :: "guid \<Rightarrow> client_packet \<Rightarrow> party_state \<Rightarrow> bool" where
  "expected me pkt s \<longleftrightarrow>
     (case pkt of CMSG_GROUP_INVITE p name \<Rightarrow> om_find (ps_groups s) p = None
      | CMSG_GROUP_ACCEPT \<Rightarrow> (case om_find (ps_invite s) me of None \<Rightarrow> True | Some p \<Rightarrow> \<not> IsMember me (gr p s))
      | _ \<Rightarrow> True)"

lemma reach_packet:
  assumes r: "party_reach w s" and e: "expected me pkt s"
  shows "party_reach w (handle_packet w c me pkt s)"
proof (cases pkt)
  case (CMSG_GROUP_INVITE p name)
  then show ?thesis using r e reach_invites [OF r]
    by (auto simp: HandleGroupInvite_def expected_def case_prod_unfold intro!: reach_intros split: option.split)
next
  case CMSG_GROUP_ACCEPT
  then show ?thesis using r e by (auto simp: expected_def intro: reach_accept)
next
  case (CMSG_GROUP_CHANGE_SUB_GROUP name sub)
  then show ?thesis using r
    by (auto simp: HandleGroupChangeSubGroup_def split: option.split intro!: re_step [OF r] st_move)
qed (use r in \<open>auto simp: HandleGroupDecline_def Let_def HandleGroupUninviteGuid_def HandleGroupUninvite_def
      HandleGroupSetLeader_def HandleGroupDisband_def HandleLootMethod_def HandleLootRoll_def HandleMinimapPing_def
      HandleRandomRoll_def HandleRaidTargetUpdate_def HandleGroupRaidConvert_def HandleGroupAssistantLeader_def
      HandlePartyAssignment_def HandleRaidReadyCheck_def HandleOptOutOfLoot_def case_prod_unfold
      intro!: reach_intros split: option.split\<close>)

section \<open>Sequences of packets\<close>

fun run_packets :: "party_world \<Rightarrow> party_client \<Rightarrow> (guid \<times> client_packet) list \<Rightarrow> party_state \<Rightarrow> party_state" where
  "run_packets w c [] s = s"
| "run_packets w c ((me, pkt) # xs) s = run_packets w c xs (handle_packet w c me pkt s)"

fun all_expected :: "party_world \<Rightarrow> party_client \<Rightarrow> (guid \<times> client_packet) list \<Rightarrow> party_state \<Rightarrow> bool" where
  "all_expected w c [] s = True"
| "all_expected w c ((me, pkt) # xs) s = (expected me pkt s \<and> all_expected w c xs (handle_packet w c me pkt s))"

lemma reach_run: "party_reach w s \<Longrightarrow> all_expected w c xs s \<Longrightarrow> party_reach w (run_packets w c xs s)"
  by (induction w c xs s rule: run_packets.induct) (auto intro: reach_packet)

section \<open>A sample run\<close>

definition sample_names :: party_world where
  "sample_names = sample_party_world\<lparr>pw_name := \<lambda>g. if g = 2 then ''Ann'' else if g = 3 then ''Bob'' else ''Cid''\<rparr>"

definition sample_client :: party_client where
  "sample_client = \<lparr>pc_normalize = (\<lambda>n. (True, n)),
     pc_byName = (\<lambda>n. if n = ''Ann'' then Some 2 else if n = ''Bob'' then Some 3 else if n = ''Cid'' then Some 5 else None),
     pc_connectedByName = (\<lambda>n. None), pc_guidByName = (\<lambda>n. 0), pc_allowGM = True, pc_twoSide = False, pc_team = (\<lambda>g. 0),
     pc_instance = (\<lambda>g. 0), pc_ignores = (\<lambda>g h. False), pc_inBattleground = (\<lambda>g. False), pc_inCombat = (\<lambda>g. False),
     pc_hostile = (\<lambda>g h. False), pc_kicksLeft = (\<lambda>g. 3), pc_kickActive = (\<lambda>g. False), pc_roll = (\<lambda>a b. a)\<rparr>"

abbreviation sample_start :: party_state where
  "sample_start \<equiv> mgr_init (generator_init HG_Item 1)"

text \<open>Ann invites Bob, takes back her own invitation and follows Cid into another group.\<close>

definition sample_packets :: "(guid \<times> client_packet) list" where
  "sample_packets = [(2, CMSG_GROUP_INVITE 1 ''Bob''), (2, CMSG_GROUP_ACCEPT), (5, CMSG_GROUP_INVITE 7 ''Ann''), (2, CMSG_GROUP_ACCEPT)]"

definition sample_run :: party_state where
  "sample_run = run_packets sample_names sample_client sample_packets sample_start"

lemma sample_run_expected: "all_expected sample_names sample_client sample_packets sample_start"
  by code_simp

lemma sample_run_reach: "party_reach sample_names sample_run"
  unfolding sample_run_def by (rule reach_run [OF re_init sample_run_expected])

text \<open>Ann's raid with Bob as her assistant.\<close>

definition sample_raid :: party_state where
  "sample_raid = run_packets sample_names sample_client
     [(2, CMSG_GROUP_INVITE 1 ''Bob''), (3, CMSG_GROUP_ACCEPT), (2, CMSG_GROUP_RAID_CONVERT), (2, CMSG_GROUP_ASSISTANT_LEADER 3 True)]
     sample_start"

section \<open>Properties of the handlers\<close>

text \<open>As long as new groups get fresh addresses and nobody accepts an invitation to a group he is a
  member of (which can happen, see below), packets keep every group well formed, and a player's group has him in its
  references exactly when he refers to it.\<close>

theorem packets_keep_groups:
  assumes "all_expected w c xs (mgr_init gen)"
  shows "group_ok (gr p (run_packets w c xs (mgr_init gen))) \<and>
    (GetGroupOf g (run_packets w c xs (mgr_init gen)) = Some p \<longleftrightarrow>
     (CurrentGroup, g) \<in> set (pg_refs (gr p (run_packets w c xs (mgr_init gen)))))"
proof -
  have r: "party_reach w (run_packets w c xs (mgr_init gen))" by (rule reach_run [OF re_init assms])
  then show ?thesis
    using all_okD [OF reach_all_ok [OF r]] reach_links_ok [OF r] by (auto simp: links_ok_def GetGroupOf_def simp del: ref_of.simps)
qed

lemma packets_keep_groups_witness:
  "group_ok (gr 7 sample_run) \<and> (CurrentGroup, 2) \<in> set (pg_refs (gr 7 sample_run))"
proof -
  have "GetGroupOf 2 sample_run = Some 7" by code_simp
  then show ?thesis using packets_keep_groups [OF sample_run_expected, of 7 2] by (simp add: sample_run_def)
qed

section \<open>Players without a rank\<close>

text \<open>
  Packets that change the group as a whole.  Marking targets is one of them in a raid only.  Removing a player is not one in a
  group of the dungeon finder, where it starts a vote and needs no rank.  In a battleground group an
  invitation is one to the player's own group.
\<close>

fun manages :: "party_group \<Rightarrow> client_packet \<Rightarrow> bool" where
  "manages gp (CMSG_GROUP_INVITE _ _) = (\<not> isBGGroup gp)"
| "manages gp (CMSG_GROUP_UNINVITE_GUID _ _) = (\<not> isLFGGroup gp)"
| "manages gp (CMSG_GROUP_UNINVITE _) = (\<not> isLFGGroup gp)"
| "manages gp (CMSG_GROUP_SET_LEADER _) = True"
| "manages gp (CMSG_LOOT_METHOD _ _ _) = True"
| "manages gp (CMSG_RAID_TARGET_UPDATE _ _) = isRaidGroup gp"
| "manages gp CMSG_GROUP_RAID_CONVERT = True"
| "manages gp (CMSG_GROUP_CHANGE_SUB_GROUP _ _) = True"
| "manages gp (CMSG_GROUP_ASSISTANT_LEADER _ _) = True"
| "manages gp (CMSG_PARTY_ASSIGNMENT _ _ _) = True"
| "manages gp (CMSG_RAID_READY_CHECK answer) = (answer = None)"
| "manages gp _ = False"

definition only_sends :: "party_state \<Rightarrow> party_state \<Rightarrow> bool" where
  "only_sends s s' \<longleftrightarrow> (\<exists>es. list_all sending es \<and> s' = fx es s)"

lemma only_sends_refl [simp]: "only_sends s s"
  unfolding only_sends_def by (rule exI [of _ "[]"]) simp

lemma only_sends_fx [simp]: "list_all sending es \<Longrightarrow> only_sends s (fx es s)"
  by (auto simp: only_sends_def)

lemma only_sends_fx_result [simp]: "list_all sending es \<Longrightarrow> only_sends s (fx es (SendPartyResult me op name res s))"
  unfolding SendPartyResult_def fx_fx by (rule only_sends_fx) simp

lemma only_sends_result [simp]: "only_sends s (SendPartyResult me op name res s)"
  by (simp add: SendPartyResult_def)

text \<open>C10: A member who is neither the leader nor an assistant cannot manage his group: all
  packets that would change it leave the groups, the references and the invitations as they were, and
  at most send an answer.  Two exceptions are the code's: in a group of the dungeon finder the packets that remove a player
  ask for no rank (they start a vote, or take an invitation back), and in a battleground group an invitation is made for the player's own group.\<close>

theorem no_rank_no_change:
  assumes "GetGroupOf me s = Some q"
    and "\<not> IsLeader me (gr q s)" "\<not> IsAssistant me (gr q s)" and "manages (gr q s) pkt"
  shows "only_sends s (handle_packet w c me pkt s)"
proof -
  have home: "home_group me s = Some q" if "\<not> isBGGroup (gr q s)" using assms(1) that by (simp add: home_group_def)
  have rank: "\<not> in_charge me (gr q s)" using assms(2,3) by (simp add: in_charge_def)
  have kick: "CanUninviteFromGroup w c me g s = ERR_NOT_LEADER" if "\<not> isLFGGroup (gr q s)" for g
    using assms(1) that rank by (simp add: CanUninviteFromGroup_def)
  show ?thesis
    using assms(1,2,4) home rank kick
    by (cases pkt) (auto simp: HandleGroupInvite_def invite_to_def HandleGroupUninviteGuid_def HandleGroupUninvite_def
        HandleGroupSetLeader_def HandleLootMethod_def HandleRaidTargetUpdate_def HandleGroupRaidConvert_def
        HandleGroupChangeSubGroup_def HandleGroupAssistantLeader_def HandlePartyAssignment_def HandleRaidReadyCheck_def
        SendTargetIconList_def case_prod_unfold list_all_iff split: option.split)
qed

lemma no_rank_no_change_witness:
  "only_sends sample_party (handle_packet sample_party_world sample_client 3 (CMSG_GROUP_UNINVITE_GUID 2 ''afk'') sample_party)"
proof -
  have h: "GetGroupOf 3 sample_party = Some 1" "\<not> IsLeader 3 (gr 1 sample_party)" "\<not> IsAssistant 3 (gr 1 sample_party)"
    "manages (gr 1 sample_party) (CMSG_GROUP_UNINVITE_GUID 2 ''afk'')" by code_simp+
  show ?thesis by (rule no_rank_no_change [OF h])
qed

section \<open>What goes wrong\<close>

lemma delete_group_invites: "ps_invite (delete_group p s) = ps_invite s"
proof -
  have put: "ps_invite (put_ref k g r s) = ps_invite s" for k g r s by (cases k) simp_all
  have "ps_invite (fold (\<lambda>(k, g) s. put_ref k g ((ref_of k g s)\<lparr>rf_to := None\<rparr>) s) xs s) = ps_invite s" for xs s
    by (induction xs arbitrary: s) (auto simp: put)
  then show ?thesis by (simp add: delete_group_def Let_def fx_def split: option.split)
qed

text \<open>C25: An assistant cannot remove the leader by guid, but he can by name: the handler
  for names asks for permission to remove the empty guid, which is never the leader.\<close>

theorem assistant_removes_leader:
  assumes group: "GetGroupOf me s = Some q" "\<not> isLFGGroup (gr q s)" and rank: "IsAssistant me (gr q s)"
    and leader: "IsLeader l (gr q s)" "l \<noteq> me" "l \<noteq> 0" and bg: "\<not> pc_inBattleground c me"
    and name: "pc_normalize c name = (True, name)" "GetMemberGUID name (gr q s) = l" "pw_name w me \<noteq> name"
  shows "HandleGroupUninviteGuid w c me l reason s = SendPartyResult me PARTY_OP_UNINVITE [] ERR_NOT_LEADER s \<and>
    HandleGroupUninvite w c me name s = snd (Group_RemoveMember w q l GROUP_REMOVEMETHOD_KICK me [] s)"
proof -
  have "CanUninviteFromGroup w c me l s = ERR_NOT_LEADER"
    using group leader(1) rank bg by (simp add: CanUninviteFromGroup_def Let_def in_charge_def)
  moreover have "CanUninviteFromGroup w c me 0 s = ERR_PARTY_RESULT_OK"
    using group rank leader bg by (simp add: CanUninviteFromGroup_def Let_def in_charge_def IsLeader_def)
  ultimately show ?thesis
    using group leader name by (simp add: HandleGroupUninviteGuid_def HandleGroupUninvite_def)
qed

lemma assistant_removes_leader_witness:
  "HandleGroupUninviteGuid sample_names sample_client 3 2 ''afk'' sample_raid =
     SendPartyResult 3 PARTY_OP_UNINVITE [] ERR_NOT_LEADER sample_raid \<and>
   HandleGroupUninvite sample_names sample_client 3 ''Ann'' sample_raid =
     snd (Group_RemoveMember sample_names 1 2 GROUP_REMOVEMETHOD_KICK 3 [] sample_raid)"
proof -
  have h: "GetGroupOf 3 sample_raid = Some 1" "\<not> isLFGGroup (gr 1 sample_raid)" "IsAssistant 3 (gr 1 sample_raid)"
    "IsLeader 2 (gr 1 sample_raid)" "(2::guid) \<noteq> 3" "(2::guid) \<noteq> 0" "\<not> pc_inBattleground sample_client 3"
    "pc_normalize sample_client ''Ann'' = (True, ''Ann'')" "GetMemberGUID ''Ann'' (gr 1 sample_raid) = 2"
    "pw_name sample_names 3 \<noteq> ''Ann''" by code_simp+
  show ?thesis by (rule assistant_removes_leader [OF h])
qed

text \<open>A player without a group who invites himself keeps an invitation to a group
  that the handler has already deleted.\<close>

theorem self_invite_dangles:
  assumes alone: "GetGroupOf me s = None" "om_find (ps_invite s) me = None"
    and name: "pc_normalize c name = (True, name)" "pc_byName c name = Some me" "\<not> pc_ignores c me me"
  shows "om_find (ps_invite (HandleGroupInvite w c p me name s)) me = Some p \<and>
    om_find (ps_groups (HandleGroupInvite w c p me name s)) p = None"
proof -
  have ok: "invite_refusal w c me me = None" using name(3) by (simp add: invite_refusal_def)
  have home: "home_group me s = None" using alone(1) by (simp add: home_group_def)
  have new: "GetGroupOf me (new_group p s) = None" "om_find (ps_invite (new_group p s)) me = None"
    using alone by (simp_all add: new_group_def GetGroupOf_def)
  obtain s1 where s1: "AddLeaderInvite w p me (new_group p s) = (True, s1)" "om_find (ps_invite s1) me = Some p"
    using new by (simp add: AddLeaderInvite_def AddInvite_def Let_def SetGroupInvite_def fx_def on_gr_def)
  then have "AddInvite p me s1 = (False, s1)" by (simp add: AddInvite_def)
  then have "HandleGroupInvite w c p me name s = delete_group p s1"
    using name ok home alone(2) s1(1) by (simp add: HandleGroupInvite_def invite_to_new_def)
  moreover have "ps_invite (delete_group p s1) = ps_invite s1"
    by (rule delete_group_invites)
  ultimately show ?thesis using s1(2) by (simp add: delete_group_def Let_def)
qed

lemma self_invite_dangles_witness:
  "om_find (ps_invite (HandleGroupInvite sample_names sample_client 1 2 ''Ann'' sample_start)) 2 = Some 1 \<and>
   om_find (ps_groups (HandleGroupInvite sample_names sample_client 1 2 ''Ann'' sample_start)) 1 = None"
proof -
  have h: "GetGroupOf 2 sample_start = None" "om_find (ps_invite sample_start) 2 = None"
    "pc_normalize sample_client ''Ann'' = (True, ''Ann'')" "pc_byName sample_client ''Ann'' = Some 2"
    "\<not> pc_ignores sample_client 2 2" by code_simp+
  show ?thesis by (rule self_invite_dangles [OF h])
qed

lemma link_to: "rf_to (ref_of k' h (link k q g s)) = (if k' = k \<and> h = g then Some q else rf_to (ref_of k' h s))"
  by (simp add: link_def Let_def)

lemma to_view: "link_view s' = link_view s \<Longrightarrow> rf_to (ref_of k h s') = rf_to (ref_of k h s)"
  by (simp add: link_view_def fun_eq_iff)

lemma setSubGroup_to: "rf_to (ref_of k' h (setSubGroup k g sub s)) = rf_to (ref_of k' h s)"
  by (rule to_view) simp

lemma SetOriginalGroup_to:
  "rf_to (ref_of k h (SetOriginalGroup g (Some (q, sub)) s)) = (if k = OriginalGroup \<and> h = g then Some q else rf_to (ref_of k h s))"
  by (simp add: SetOriginalGroup_def setSubGroup_to link_to)

lemma others_to:
  assumes "h \<noteq> g"
  shows "rf_to (ref_of k h (PlayerSetGroup g to s)) = rf_to (ref_of k h s)"
    and "rf_to (ref_of k h (SetOriginalGroup g to s)) = rf_to (ref_of k h s)"
    and "rf_to (ref_of k h (SetBattlegroundOrBattlefieldRaid g q sub s)) = rf_to (ref_of k h s)"
proof -
  have f: "rf_to (ref_of k h (fx es s)) = rf_to (ref_of k h s)" for k es s by simp
  show "rf_to (ref_of k h (PlayerSetGroup g to s)) = rf_to (ref_of k h s)"
    using assms by (cases to) (auto simp: PlayerSetGroup_def setSubGroup_to link_to f simp del: ref_of.simps)
  show o: "rf_to (ref_of k h (SetOriginalGroup g to s)) = rf_to (ref_of k h s)" for to s
    using assms by (cases to) (auto simp: SetOriginalGroup_def setSubGroup_to link_to simp del: ref_of.simps)
  show "rf_to (ref_of k h (SetBattlegroundOrBattlefieldRaid g q sub s)) = rf_to (ref_of k h s)"
    using assms by (simp add: SetBattlegroundOrBattlefieldRaid_def Let_def setSubGroup_to link_to o del: ref_of.simps)
qed

lemma found_group_frame:
  "stored (gr p (found_group w p g s)) = stored (gr p s)" "link_view (found_group w p g s) = link_view s"
proof -
  obtain c s1 where gid: "GenerateGroupId s = (c, s1)" by fastforce
  then have s1: "gr q s1 = gr q s" for q by (metis gr_manager(1) snd_conv)
  have v: "link_view s1 = link_view s" using view_fields(5) [of s] gid by simp
  have fs: "stored (found_settings g gp) = stored gp" for gp
    by (simp add: found_settings_def Let_def isBGGroup_def isBFGroup_def initRaidSubGroupsCounter_def)
  have up: "stored (gp\<lparr>pg_guid := x, pg_leaderGuid := y, pg_leaderName := z\<rparr>) = stored gp"
    "stored (gp\<lparr>pg_dungeonDifficulty := a, pg_raidDifficulty := b\<rparr>) = stored gp" "stored (gp\<lparr>pg_dbId := d\<rparr>) = stored gp"
    for gp :: party_group and x y z a b d by (simp_all add: isBGGroup_def isBFGroup_def)
  show "stored (gr p (found_group w p g s)) = stored (gr p s)"
    by (simp add: found_group_def gid Let_def case_prod_unfold s1 fs up gr_manager)
  show "link_view (found_group w p g s) = link_view s"
    by (simp add: found_group_def gid Let_def case_prod_unfold v)
qed

lemma join_party_view: "link_view (join_party w p g sub s) =
    link_view (link_member p g sub (SetGroupInvite g None (on_gr p (push_slot (new_slot w g sub)) s)))"
  by (simp add: join_party_def Let_def)

text \<open>The references after a player joins: his own, and those of the others.\<close>

lemma join_party_to:
  assumes "h = g \<Longrightarrow> GetGroupOf g s \<noteq> None" and "h = g \<Longrightarrow> stored (gr p s)"
  shows "rf_to (ref_of k h (join_party w p g sub s)) = (if k = OriginalGroup \<and> h = g then Some p else rf_to (ref_of k h s))"
proof -
  define s1 where "s1 = SetGroupInvite g None (on_gr p (push_slot (new_slot w g sub)) s)"
  have to1: "rf_to (ref_of k h s1) = rf_to (ref_of k h s)" for k h
    by (rule to_view) (simp add: s1_def)
  have st: "stored (gr p s1) = stored (gr p s)" 
    by (simp add: s1_def SetGroupInvite_def gr_def on_gr_def om_at_def push_slot_def SubGroupCounterIncrease_def isBGGroup_def isBFGroup_def)
  have key: "rf_to (ref_of k h (link_member p g sub s1)) = (if k = OriginalGroup \<and> h = g then Some p else rf_to (ref_of k h s1))"
    if "h = g \<Longrightarrow> GetGroupOf g s1 \<noteq> None \<and> stored (gr p s1)"
  proof (cases "h = g")
    case True
    then show ?thesis using that by (simp add: link_member_def SetOriginalGroup_to)
  next
    case False
    then show ?thesis unfolding link_member_def by (simp add: others_to [OF False])
  qed
  have "GetGroupOf g s1 = GetGroupOf g s" using to1 [of CurrentGroup g] by (simp add: GetGroupOf_def)
  then have "rf_to (ref_of k h (link_member p g sub s1)) = (if k = OriginalGroup \<and> h = g then Some p else rf_to (ref_of k h s1))"
    using assms st by (intro key) simp
  then show ?thesis using to_view [OF join_party_view] by (simp add: s1_def [symmetric] to1)
qed

lemma AddMember_to:
  assumes "h = g \<Longrightarrow> GetGroupOf g s \<noteq> None" and "h = g \<Longrightarrow> stored (gr p s)" and "fst (Group_AddMember w p g s)"
  shows "rf_to (ref_of k h (snd (Group_AddMember w p g s))) = (if k = OriginalGroup \<and> h = g then Some p else rf_to (ref_of k h s))"
  using assms(3) join_party_to [OF assms(1,2), where k = k and w = w]
  by (auto simp: Group_AddMember_def simp del: ref_of.simps split: option.splits)

text \<open>The leader of a group that is still to be created may have joined another group
  meanwhile.  When his guest accepts, he is made the first member of the new group as well and is in
  two groups at once.\<close>

theorem leader_of_two_groups:
  assumes r: "party_reach w s" and invited: "om_find (ps_invite s) me = Some p" "\<not> IsCreated (gr p s)" "stored (gr p s)"
    and leader: "IsLeader l (gr p s)" "l \<noteq> me" "FindPlayer w l" and elsewhere: "GetGroupOf l s = Some q"
  shows "GetGroupOf l (HandleGroupAccept w me s) = Some q \<and> GetOriginalGroup l (HandleGroupAccept w me s) = Some p \<and>
    IsMember l (gr p (HandleGroupAccept w me s))"
proof -
  define s1 where "s1 = RemoveInvite p me s"
  define s2 where "s2 = RemoveInvite p l s1"
  define s3 where "s3 = found_group w p l s2"
  define s4 where "s4 = AddGroup p (snd (Group_AddMember w p l s3))"
  have g1: "pg_members (gr p s1) = []" "pg_leaderGuid (gr p s1) = l" "\<not> IsFull (gr p s1)"
    using invited(2) leader(1) by (simp_all add: s1_def IsCreated_def GetMembersCount_def IsLeader_def IsFull_def)
  have r1: "party_reach w s1" and r2: "party_reach w s2" using r by (simp_all add: s1_def s2_def reach_steps)
  have e2: "pg_members (gr p s2) = []" using g1(1) by (simp add: s2_def)
  have st2: "stored (gr p s2)" using invited(3) by (simp add: s2_def s1_def isBGGroup_def isBFGroup_def)
  have v: "link_view s3 = link_view s"
    by (simp add: s3_def s2_def s1_def found_group_frame RemoveInvite_def)
  note to3 = to_view [OF v]
  have ok3: "all_ok s3" and e3: "pg_members (gr p s3) = []"
    using all_ok_found_group [OF reach_all_ok [OF r2] e2] by (simp_all add: s3_def)
  have full3: "\<not> IsFull (gr p s3)" using e3 by (simp add: IsFull_def)
  have add: "fst (Group_AddMember w p l s3)" by (rule AddMember_place [OF all_okD [OF ok3] full3])
  have home: "GetGroupOf l s3 = Some q" using elsewhere to3 by (simp add: GetGroupOf_def del: ref_of.simps)
  have to4: "rf_to (ref_of k l s4) = (if k = OriginalGroup then Some p else rf_to (ref_of k l s))" for k
    using AddMember_to [of l l s3 p w k] home add st2 found_group_frame(1) [of p w l s2]
      to_view [OF view_fields(9), of k l p "snd (Group_AddMember w p l s3)"]
    by (simp add: s4_def s3_def [symmetric] to3 del: ref_of.simps)
  have m4: "IsMember l (gr p s4)"
  proof -
    have "gr p s4 = gr p (snd (Group_AddMember w p l s3))" by (simp add: s4_def AddGroup_def gr_def)
    moreover have "\<exists>sub. pg_members (gr p (snd (Group_AddMember w p l s3))) = [new_slot w l sub]"
      using add e3 by (auto simp: Group_AddMember_def join_party_tells(1) split: option.splits)
    ultimately show ?thesis by (auto simp: IsMember_def find_slot_def new_slot_def)
  qed
  have acc: "HandleGroupAccept w me s = accept_into w p me s4"
    using invited(1) g1 leader(2,3)
    by (simp add: HandleGroupAccept_def Let_def create_for_def Group_Create_def s1_def [symmetric] s2_def [symmetric]
        s3_def [symmetric] s4_def [symmetric] IsLeader_def IsCreated_def GetMembersCount_def)
  have last: "rf_to (ref_of k l (accept_into w p me s4)) = rf_to (ref_of k l s4)" for k
  proof (cases "fst (Group_AddMember w p me s4)")
    case True
    then show ?thesis using AddMember_to [of l me s4 p w k] leader(2)
      by (simp add: accept_into_def case_prod_unfold to_view [OF view_sends(4)] del: ref_of.simps)
  next
    case False
    then have "snd (Group_AddMember w p me s4) = s4" by (auto simp: Group_AddMember_def split: option.splits)
    then show ?thesis using False by (simp add: accept_into_def case_prod_unfold)
  qed
  have "IsMember l (gr p (accept_into w p me s4))"
    using m4 AddMember_members [of p w me s4]
    by (auto simp: accept_into_def case_prod_unfold IsMember_def find_slot_None BroadcastGroupUpdate_def)
  then show ?thesis using elsewhere by (simp add: acc GetGroupOf_def GetOriginalGroup_def last to4 del: ref_of.simps)
qed

lemma leader_of_two_groups_witness:
  "GetGroupOf 2 (HandleGroupAccept sample_names 3 sample_run) = Some 7 \<and>
   GetOriginalGroup 2 (HandleGroupAccept sample_names 3 sample_run) = Some 1 \<and>
   IsMember 2 (gr 1 (HandleGroupAccept sample_names 3 sample_run))"
proof -
  have h: "om_find (ps_invite sample_run) 3 = Some 1" "\<not> IsCreated (gr 1 sample_run)" "stored (gr 1 sample_run)"
    "IsLeader 2 (gr 1 sample_run)" "(2::guid) \<noteq> 3" "FindPlayer sample_names 2" "GetGroupOf 2 sample_run = Some 7" by code_simp+
  show ?thesis by (rule leader_of_two_groups [OF sample_run_reach h])
qed

section \<open>A player twice in a group\<close>

text \<open>
  Ann (2) invites Bob (3) and Dan (9) into two new groups, then follows Cid (5) into a third.  Bob and
  Dan accept, so that Ann is in three groups but refers to two.  When Bob leaves, the first group is disbanded, and
  as it is not the one Ann has in reserve, her reference to Cid's group is cleared.  Cid invites her again.
\<close>

definition twice_client :: party_client where
  "twice_client = sample_client\<lparr>pc_byName := \<lambda>n. if n = ''Ann'' then Some 2 else if n = ''Bob'' then Some 3
     else if n = ''Cid'' then Some 5 else if n = ''Dan'' then Some 9 else None\<rparr>"

definition twice_packets :: "(guid \<times> client_packet) list" where
  "twice_packets = [(2, CMSG_GROUP_INVITE 1 ''Bob''), (2, CMSG_GROUP_ACCEPT), (2, CMSG_GROUP_INVITE 2 ''Dan''), (2, CMSG_GROUP_ACCEPT),
     (5, CMSG_GROUP_INVITE 7 ''Ann''), (2, CMSG_GROUP_ACCEPT), (3, CMSG_GROUP_ACCEPT), (9, CMSG_GROUP_ACCEPT), (3, CMSG_GROUP_DISBAND)]"

fun fresh_addresses :: "party_world \<Rightarrow> party_client \<Rightarrow> (guid \<times> client_packet) list \<Rightarrow> party_state \<Rightarrow> bool" where
  "fresh_addresses w c [] s = True"
| "fresh_addresses w c ((me, pkt) # xs) s =
     ((case pkt of CMSG_GROUP_INVITE p name \<Rightarrow> om_find (ps_groups s) p = None | _ \<Rightarrow> True) \<and>
      fresh_addresses w c xs (handle_packet w c me pkt s))"


end
