(* ===== verification/Channels.thy ===== *)
theory Channels
  imports LfgQueue ByteBuffer
begin

text \<open>
  Chat channels, \<^verbatim>\<open>src/src/server/game/Chat/Channels/Channel.cpp\<close>, \<^verbatim>\<open>Channel.h\<close>,
  \<^verbatim>\<open>ChannelMgr.cpp\<close>, and the packet handlers of \<^verbatim>\<open>Handlers/ChannelHandler.cpp\<close>.  A player
  is his guid; what the code asks of players, permissions, settings and the database is the record
  \<open>chat_world\<close>.  Packets, statements and the relay to IRC are appended to \<open>ch_fx\<close>.  The list of
  channels a player keeps (\<^verbatim>\<open>Player::m_channels\<close>) is seen from the channel: \<open>ch_joined\<close> holds the
  players whose list holds it.
\<close>

section \<open>Constants and packets\<close>

abbreviation CHANNEL_FLAG_CUSTOM :: uint8 where "CHANNEL_FLAG_CUSTOM \<equiv> 0x01"
abbreviation CHANNEL_FLAG_TRADE :: uint8 where "CHANNEL_FLAG_TRADE \<equiv> 0x04"
abbreviation CHANNEL_FLAG_NOT_LFG :: uint8 where "CHANNEL_FLAG_NOT_LFG \<equiv> 0x08"
abbreviation CHANNEL_FLAG_GENERAL :: uint8 where "CHANNEL_FLAG_GENERAL \<equiv> 0x10"
abbreviation CHANNEL_FLAG_CITY :: uint8 where "CHANNEL_FLAG_CITY \<equiv> 0x20"
abbreviation CHANNEL_FLAG_LFG :: uint8 where "CHANNEL_FLAG_LFG \<equiv> 0x40"

abbreviation CHANNEL_DBC_FLAG_TRADE :: uint32 where "CHANNEL_DBC_FLAG_TRADE \<equiv> 0x00008"
abbreviation CHANNEL_DBC_FLAG_CITY_ONLY2 :: uint32 where "CHANNEL_DBC_FLAG_CITY_ONLY2 \<equiv> 0x00020"
abbreviation CHANNEL_DBC_FLAG_LFG :: uint32 where "CHANNEL_DBC_FLAG_LFG \<equiv> 0x40000"

abbreviation CHANNEL_MEMBER_OWNER :: uint8 where "CHANNEL_MEMBER_OWNER \<equiv> 0x01"
abbreviation CHANNEL_MEMBER_MODERATOR :: uint8 where "CHANNEL_MEMBER_MODERATOR \<equiv> 0x02"
abbreviation CHANNEL_MEMBER_MUTED :: uint8 where "CHANNEL_MEMBER_MUTED \<equiv> 0x08"

text \<open>The notices with their arguments; \<open>notice_code\<close> is \<^verbatim>\<open>enum ChatNotify\<close>.\<close>

datatype chat_notice =
    CHAT_JOINED_NOTICE guid
  | CHAT_LEFT_NOTICE guid
  | CHAT_YOU_JOINED_NOTICE uint8 uint32
  | CHAT_YOU_LEFT_NOTICE uint32 bool
  | CHAT_WRONG_PASSWORD_NOTICE
  | CHAT_NOT_MEMBER_NOTICE
  | CHAT_NOT_MODERATOR_NOTICE
  | CHAT_PASSWORD_CHANGED_NOTICE guid
  | CHAT_OWNER_CHANGED_NOTICE guid
  | CHAT_PLAYER_NOT_FOUND_NOTICE string
  | CHAT_NOT_OWNER_NOTICE
  | CHAT_CHANNEL_OWNER_NOTICE string
  | CHAT_MODE_CHANGE_NOTICE guid uint8 uint8
  | CHAT_ANNOUNCEMENTS_ON_NOTICE guid
  | CHAT_ANNOUNCEMENTS_OFF_NOTICE guid
  | CHAT_MUTED_NOTICE
  | CHAT_PLAYER_KICKED_NOTICE guid guid
  | CHAT_BANNED_NOTICE
  | CHAT_PLAYER_BANNED_NOTICE guid guid
  | CHAT_PLAYER_UNBANNED_NOTICE guid guid
  | CHAT_PLAYER_ALREADY_MEMBER_NOTICE guid
  | CHAT_INVITE_NOTICE guid
  | CHAT_INVITE_WRONG_FACTION_NOTICE
  | CHAT_PLAYER_INVITED_NOTICE string
  | CHAT_PLAYER_INVITE_BANNED_NOTICE string
  | CHAT_NOT_IN_LFG_NOTICE

fun notice_code :: "chat_notice \<Rightarrow> uint8" where
  "notice_code (CHAT_JOINED_NOTICE _) = 0x00"
| "notice_code (CHAT_LEFT_NOTICE _) = 0x01"
| "notice_code (CHAT_YOU_JOINED_NOTICE _ _) = 0x02"
| "notice_code (CHAT_YOU_LEFT_NOTICE _ _) = 0x03"
| "notice_code CHAT_WRONG_PASSWORD_NOTICE = 0x04"
| "notice_code CHAT_NOT_MEMBER_NOTICE = 0x05"
| "notice_code CHAT_NOT_MODERATOR_NOTICE = 0x06"
| "notice_code (CHAT_PASSWORD_CHANGED_NOTICE _) = 0x07"
| "notice_code (CHAT_OWNER_CHANGED_NOTICE _) = 0x08"
| "notice_code (CHAT_PLAYER_NOT_FOUND_NOTICE _) = 0x09"
| "notice_code CHAT_NOT_OWNER_NOTICE = 0x0A"
| "notice_code (CHAT_CHANNEL_OWNER_NOTICE _) = 0x0B"
| "notice_code (CHAT_MODE_CHANGE_NOTICE _ _ _) = 0x0C"
| "notice_code (CHAT_ANNOUNCEMENTS_ON_NOTICE _) = 0x0D"
| "notice_code (CHAT_ANNOUNCEMENTS_OFF_NOTICE _) = 0x0E"
| "notice_code CHAT_MUTED_NOTICE = 0x11"
| "notice_code (CHAT_PLAYER_KICKED_NOTICE _ _) = 0x12"
| "notice_code CHAT_BANNED_NOTICE = 0x13"
| "notice_code (CHAT_PLAYER_BANNED_NOTICE _ _) = 0x14"
| "notice_code (CHAT_PLAYER_UNBANNED_NOTICE _ _) = 0x15"
| "notice_code (CHAT_PLAYER_ALREADY_MEMBER_NOTICE _) = 0x17"
| "notice_code (CHAT_INVITE_NOTICE _) = 0x18"
| "notice_code CHAT_INVITE_WRONG_FACTION_NOTICE = 0x19"
| "notice_code (CHAT_PLAYER_INVITED_NOTICE _) = 0x1D"
| "notice_code (CHAT_PLAYER_INVITE_BANNED_NOTICE _) = 0x1E"
| "notice_code CHAT_NOT_IN_LFG_NOTICE = 0x21"

text \<open>The bytes of a notice: the code, the name of the channel, the arguments.\<close>

definition cstring :: "string \<Rightarrow> uint8 list" where
  "cstring s = map of_char s @ [0]"

fun notice_body :: "chat_notice \<Rightarrow> uint8 list" where
  "notice_body (CHAT_JOINED_NOTICE g) = le_bytes g"
| "notice_body (CHAT_LEFT_NOTICE g) = le_bytes g"
| "notice_body (CHAT_YOU_JOINED_NOTICE flags i) = flags # le_bytes i @ le_bytes (0 :: uint32)"
| "notice_body (CHAT_YOU_LEFT_NOTICE i const) = le_bytes i @ [of_bool const]"
| "notice_body (CHAT_PASSWORD_CHANGED_NOTICE g) = le_bytes g"
| "notice_body (CHAT_OWNER_CHANGED_NOTICE g) = le_bytes g"
| "notice_body (CHAT_PLAYER_NOT_FOUND_NOTICE s) = cstring s"
| "notice_body (CHAT_CHANNEL_OWNER_NOTICE s) = cstring s"
| "notice_body (CHAT_MODE_CHANGE_NOTICE g old new) = le_bytes g @ [old, new]"
| "notice_body (CHAT_ANNOUNCEMENTS_ON_NOTICE g) = le_bytes g"
| "notice_body (CHAT_ANNOUNCEMENTS_OFF_NOTICE g) = le_bytes g"
| "notice_body (CHAT_PLAYER_KICKED_NOTICE bad good) = le_bytes bad @ le_bytes good"
| "notice_body (CHAT_PLAYER_BANNED_NOTICE bad good) = le_bytes bad @ le_bytes good"
| "notice_body (CHAT_PLAYER_UNBANNED_NOTICE bad good) = le_bytes bad @ le_bytes good"
| "notice_body (CHAT_PLAYER_ALREADY_MEMBER_NOTICE g) = le_bytes g"
| "notice_body (CHAT_INVITE_NOTICE g) = le_bytes g"
| "notice_body (CHAT_PLAYER_INVITED_NOTICE s) = cstring s"
| "notice_body (CHAT_PLAYER_INVITE_BANNED_NOTICE s) = cstring s"
| "notice_body _ = []"

definition notice_bytes :: "string \<Rightarrow> chat_notice \<Rightarrow> uint8 list" where
  "notice_bytes name n = notice_code n # cstring name @ notice_body n"

datatype channel_packet =
    SMSG_CHANNEL_NOTIFY string chat_notice
  | SMSG_CHANNEL_LIST string uint8 "(guid \<times> uint8) list"
  | SMSG_USERLIST_ADD guid uint8 uint8 uint32 string
  | SMSG_USERLIST_UPDATE guid uint8 uint8 uint32 string
  | SMSG_USERLIST_REMOVE guid uint8 uint32 string
  | SMSG_CHANNEL_MEMBER_COUNT string uint8 uint32
  | CHAT_MSG_CHANNEL guid string uint32 string

datatype channel_fx =
    Deliver guid channel_packet
  | CHAR_INS_CHANNEL string uint32
  | CHAR_UPD_CHANNEL bool bool string string string uint32
  | CHAR_UPD_CHANNEL_USAGE string uint32
  | IrcRelay string guid bool

section \<open>World and state\<close>

record chat_world =
  cw_connected :: "guid \<Rightarrow> bool"
  cw_byName :: "string \<Rightarrow> guid option"
  cw_name :: "guid \<Rightarrow> string"
  cw_dbName :: "guid \<Rightarrow> string option"
  cw_team :: "guid \<Rightarrow> uint32"
  cw_silent :: "guid \<Rightarrow> bool"
  cw_overrides :: "guid \<Rightarrow> bool"
  cw_twoSide :: "guid \<Rightarrow> bool"
  cw_seesAll :: "guid \<Rightarrow> bool"
  cw_playerAccount :: "guid \<Rightarrow> bool"
  cw_security :: "guid \<Rightarrow> nat"
  cw_visible :: "guid \<Rightarrow> guid \<Rightarrow> bool"
  cw_gmVisible :: "guid \<Rightarrow> bool"
  cw_grouped :: "guid \<Rightarrow> bool"
  cw_ignores :: "guid \<Rightarrow> guid \<Rightarrow> bool"
  cw_restrictedLfg :: bool
  cw_preserve :: bool
  cw_crossFaction :: bool
  cw_whoLevel :: nat
  cw_builtin :: "uint32 \<Rightarrow> uint32 option"
  cw_row :: "string \<Rightarrow> uint32 \<Rightarrow> (bool \<times> bool \<times> string \<times> string option) option"
  cw_lower :: "string \<Rightarrow> string option"
  cw_normalize :: "string \<Rightarrow> bool \<times> string"
  cw_zoneAllows :: "uint32 \<Rightarrow> guid \<Rightarrow> bool"

text \<open>\<^verbatim>\<open>Channel::PlayerInfo\<close>; a missing entry is created with the empty guid and no flags.\<close>

record member_info =
  mi_player :: guid
  mi_flags :: uint8

definition info_init :: member_info where
  "info_init = \<lparr>mi_player = 0, mi_flags = 0\<rparr>"

record channel =
  ch_announce :: bool
  ch_ownership :: bool
  ch_saved :: bool
  ch_flags :: uint8
  ch_id :: uint32
  ch_team :: uint32
  ch_owner :: guid
  ch_name :: string
  ch_password :: string
  ch_players :: "(guid, member_info) stdmap"
  ch_banned :: "guid list"
  ch_joined :: "guid list"
  ch_fx :: "channel_fx list"

definition cfx :: "channel_fx list \<Rightarrow> channel \<Rightarrow> channel" where
  "cfx es c = c\<lparr>ch_fx := ch_fx c @ es\<rparr>"

definition IsOn :: "guid \<Rightarrow> channel \<Rightarrow> bool" where
  "IsOn g c \<longleftrightarrow> om_find (ch_players c) g \<noteq> None"

definition IsBanned :: "guid \<Rightarrow> channel \<Rightarrow> bool" where
  "IsBanned g c \<longleftrightarrow> g \<in> set (ch_banned c)"

definition IsConstant :: "channel \<Rightarrow> bool" where
  "IsConstant c \<longleftrightarrow> ch_id c \<noteq> 0"

definition GetNumPlayers :: "channel \<Rightarrow> uint32" where
  "GetNumPlayers c = of_nat (length (ch_players c))"

definition GetPlayerFlags :: "guid \<Rightarrow> channel \<Rightarrow> uint8" where
  "GetPlayerFlags g c = (case om_find (ch_players c) g of None \<Rightarrow> 0 | Some i \<Rightarrow> mi_flags i)"

text \<open>\<^verbatim>\<open>playersStore[guid]\<close>, for reading and for writing.\<close>

definition info_at :: "guid \<Rightarrow> channel \<Rightarrow> member_info" where
  "info_at g c = om_at info_init (ch_players c) g"

definition on_info :: "guid \<Rightarrow> (uint8 \<Rightarrow> uint8) \<Rightarrow> channel \<Rightarrow> channel" where
  "on_info g f c = c\<lparr>ch_players := om_put g ((info_at g c)\<lparr>mi_flags := f (mi_flags (info_at g c))\<rparr>) (ch_players c)\<rparr>"

definition set_bits :: "uint8 \<Rightarrow> bool \<Rightarrow> uint8 \<Rightarrow> uint8" where
  "set_bits flag on x = (if on then x OR flag else x AND NOT flag)"

definition IsModerator :: "guid \<Rightarrow> channel \<Rightarrow> bool" where
  "IsModerator g c \<longleftrightarrow> has_bits (mi_flags (info_at g c)) CHANNEL_MEMBER_MODERATOR"

definition IsMuted :: "guid \<Rightarrow> channel \<Rightarrow> bool" where
  "IsMuted g c \<longleftrightarrow> has_bits (mi_flags (info_at g c)) CHANNEL_MEMBER_MUTED"

definition IsOwner :: "guid \<Rightarrow> channel \<Rightarrow> bool" where
  "IsOwner g c \<longleftrightarrow> has_bits (mi_flags (info_at g c)) CHANNEL_MEMBER_OWNER"

section \<open>Sending\<close>

definition SendToOne :: "chat_world \<Rightarrow> chat_notice \<Rightarrow> guid \<Rightarrow> channel \<Rightarrow> channel" where
  "SendToOne w n who c = cfx (if cw_connected w who then [Deliver who (SMSG_CHANNEL_NOTIFY (ch_name c) n)] else []) c"

text \<open>To all members; a sender other than \<open>0\<close> is not heard by those who ignore him.\<close>

definition SendToAll :: "chat_world \<Rightarrow> channel_packet \<Rightarrow> guid \<Rightarrow> channel \<Rightarrow> channel" where
  "SendToAll w pkt from c =
     cfx (concat (map (\<lambda>(h, i). if cw_connected w h \<and> (from = 0 \<or> \<not> cw_ignores w h from) then [Deliver h pkt] else [])
       (ch_players c))) c"

definition SendToAllButOne :: "chat_world \<Rightarrow> channel_packet \<Rightarrow> guid \<Rightarrow> channel \<Rightarrow> channel" where
  "SendToAllButOne w pkt who c =
     cfx (concat (map (\<lambda>(h, i). if h \<noteq> who \<and> cw_connected w h then [Deliver h pkt] else []) (ch_players c))) c"

definition NotifyAll :: "chat_world \<Rightarrow> chat_notice \<Rightarrow> channel \<Rightarrow> channel" where
  "NotifyAll w n c = SendToAll w (SMSG_CHANNEL_NOTIFY (ch_name c) n) 0 c"

definition JoinNotify :: "chat_world \<Rightarrow> guid \<Rightarrow> channel \<Rightarrow> channel" where
  "JoinNotify w g c =
     (if IsConstant c
      then SendToAllButOne w (SMSG_USERLIST_ADD g (GetPlayerFlags g c) (ch_flags c) (GetNumPlayers c) (ch_name c)) g c
      else SendToAll w (SMSG_USERLIST_UPDATE g (GetPlayerFlags g c) (ch_flags c) (GetNumPlayers c) (ch_name c)) 0 c)"

definition LeaveNotify :: "chat_world \<Rightarrow> guid \<Rightarrow> channel \<Rightarrow> channel" where
  "LeaveNotify w g c =
     (if IsConstant c then SendToAllButOne w (SMSG_USERLIST_REMOVE g (ch_flags c) (GetNumPlayers c) (ch_name c)) g c
      else SendToAll w (SMSG_USERLIST_REMOVE g (ch_flags c) (GetNumPlayers c) (ch_name c)) 0 c)"

section \<open>The database\<close>

text \<open>\<^verbatim>\<open>strtoull\<close> with base 10: spaces, a sign, digits; too large a value is cut to the largest.\<close>

definition is_digit :: "char \<Rightarrow> bool" where
  "is_digit ch \<longleftrightarrow> 48 \<le> (of_char ch :: nat) \<and> (of_char ch :: nat) \<le> 57"

definition is_space :: "char \<Rightarrow> bool" where
  "is_space ch \<longleftrightarrow> (of_char ch :: nat) = 32 \<or> 9 \<le> (of_char ch :: nat) \<and> (of_char ch :: nat) \<le> 13"

definition strtoull :: "string \<Rightarrow> uint64" where
  "strtoull s =
     (let t = dropWhile is_space s;
          neg = (t \<noteq> [] \<and> hd t = CHR ''-'');
          u = (if t \<noteq> [] \<and> (hd t = CHR ''-'' \<or> hd t = CHR ''+'') then tl t else t);
          v = of_nat (min (digits_value (takeWhile is_digit u)) (2 ^ 64 - 1))
      in if neg then - v else v)"

text \<open>\<^verbatim>\<open>Tokenizer\<close>: the pieces between separators; an empty last piece is dropped.\<close>

fun tokenize :: "char \<Rightarrow> string \<Rightarrow> string \<Rightarrow> string list" where
  "tokenize sep acc [] = (if acc = [] then [] else [acc])"
| "tokenize sep acc (ch # s) = (if ch = sep then acc # tokenize sep [] s else tokenize sep (acc @ [ch]) s)"

definition banlist_string :: "guid list \<Rightarrow> string" where
  "banlist_string bs = concat (map (\<lambda>g. guid_str g @ '' '') bs)"

definition read_banlist :: "string \<Rightarrow> guid list" where
  "read_banlist s = fold (\<lambda>t bs. if strtoull t \<noteq> 0 then os_insert (strtoull t) bs else bs) (tokenize CHR '' '' [] s) []"

definition UpdateChannelInDB :: "channel \<Rightarrow> channel" where
  "UpdateChannelInDB c =
     (if ch_saved c
      then cfx [CHAR_UPD_CHANNEL (ch_announce c) (ch_ownership c) (ch_password c) (banlist_string (ch_banned c))
                  (ch_name c) (ch_team c)] c
      else c)"

definition UpdateChannelUseageInDB :: "channel \<Rightarrow> channel" where
  "UpdateChannelUseageInDB c = cfx [CHAR_UPD_CHANNEL_USAGE (ch_name c) (ch_team c)] c"

section \<open>Creation\<close>

definition builtin_flags :: "uint32 \<Rightarrow> uint8" where
  "builtin_flags dbc =
     CHANNEL_FLAG_GENERAL OR (if has_bits dbc CHANNEL_DBC_FLAG_TRADE then CHANNEL_FLAG_TRADE else 0) OR
     (if has_bits dbc CHANNEL_DBC_FLAG_CITY_ONLY2 then CHANNEL_FLAG_CITY else 0) OR
     (if has_bits dbc CHANNEL_DBC_FLAG_LFG then CHANNEL_FLAG_LFG else CHANNEL_FLAG_NOT_LFG)"

definition Channel_init :: "chat_world \<Rightarrow> string \<Rightarrow> uint32 \<Rightarrow> uint32 \<Rightarrow> channel" where
  "Channel_init w name i team =
     (let c = \<lparr>ch_announce = True, ch_ownership = True, ch_saved = False, ch_flags = 0, ch_id = i, ch_team = team,
               ch_owner = 0, ch_name = name, ch_password = [], ch_players = [], ch_banned = [], ch_joined = [], ch_fx = []\<rparr>
      in case cw_builtin w i of
           Some dbc \<Rightarrow> c\<lparr>ch_announce := False, ch_ownership := False, ch_flags := builtin_flags dbc\<rparr>
         | None \<Rightarrow>
             let c1 = c\<lparr>ch_flags := CHANNEL_FLAG_CUSTOM\<rparr>
             in if \<not> cw_preserve w then c1
                else case cw_row w name team of
                       Some (announce, ownership, password, banlist) \<Rightarrow>
                         c1\<lparr>ch_announce := announce, ch_ownership := ownership, ch_password := password,
                            ch_banned := (case banlist of None \<Rightarrow> [] | Some s \<Rightarrow> read_banlist s), ch_saved := True\<rparr>
                     | None \<Rightarrow> (cfx [CHAR_INS_CHANNEL name team] c1)\<lparr>ch_saved := True\<rparr>)"

end
