(* ===== verification/ChannelOps.thy ===== *)
theory ChannelOps
  imports Channels
begin

text \<open>
  The operations of a chat channel (\<^verbatim>\<open>Channel.cpp\<close>), the channels of a team
  (\<^verbatim>\<open>ChannelMgr.cpp\<close>) and the packets about them (\<^verbatim>\<open>ChannelHandler.cpp\<close>).
\<close>

section \<open>Owner, moderator, mute\<close>

definition ModeChange :: "chat_world \<Rightarrow> guid \<Rightarrow> uint8 \<Rightarrow> channel \<Rightarrow> channel" where
  "ModeChange w g old c = NotifyAll w (CHAT_MODE_CHANGE_NOTICE g old (GetPlayerFlags g c)) c"

text \<open>\<^verbatim>\<open>SetOwner(ObjectGuid, bool)\<close>\<close>

definition PutOwner :: "chat_world \<Rightarrow> guid \<Rightarrow> bool \<Rightarrow> channel \<Rightarrow> channel" where
  "PutOwner w g exclaim c =
     (let c1 = (if ch_owner c \<noteq> 0 \<and> IsOn (ch_owner c) c then on_info (ch_owner c) (set_bits CHANNEL_MEMBER_OWNER False) c else c);
          c2 = c1\<lparr>ch_owner := g\<rparr>
      in if g = 0 then c2
         else let old = GetPlayerFlags g c2;
                  c3 = on_info g (set_bits CHANNEL_MEMBER_OWNER True) (on_info g (set_bits CHANNEL_MEMBER_MODERATOR True) c2);
                  c4 = ModeChange w g old c3;
                  c5 = (if exclaim then NotifyAll w (CHAT_OWNER_CHANGED_NOTICE g) c4 else c4)
              in UpdateChannelInDB c5)"

definition PutModerator :: "chat_world \<Rightarrow> guid \<Rightarrow> bool \<Rightarrow> channel \<Rightarrow> channel" where
  "PutModerator w g on c =
     (if IsModerator g c = on then on_info g id c
      else ModeChange w g (GetPlayerFlags g c) (on_info g (set_bits CHANNEL_MEMBER_MODERATOR on) c))"

definition PutMute :: "chat_world \<Rightarrow> guid \<Rightarrow> bool \<Rightarrow> channel \<Rightarrow> channel" where
  "PutMute w g on c =
     (if IsMuted g c = on then on_info g id c
      else ModeChange w g (GetPlayerFlags g c) (on_info g (set_bits CHANNEL_MEMBER_MUTED on) c))"

section \<open>Joining and leaving\<close>

definition PlayerJoinedChannel :: "guid \<Rightarrow> channel \<Rightarrow> channel" where
  "PlayerJoinedChannel g c = c\<lparr>ch_joined := ch_joined c @ [g]\<rparr>"

definition PlayerLeftChannel :: "guid \<Rightarrow> channel \<Rightarrow> channel" where
  "PlayerLeftChannel g c = c\<lparr>ch_joined := filter (\<lambda>h. h \<noteq> g) (ch_joined c)\<rparr>"

definition add_player :: "guid \<Rightarrow> channel \<Rightarrow> channel" where
  "add_player g c = c\<lparr>ch_players := om_put g \<lparr>mi_player = g, mi_flags = 0\<rparr> (ch_players c)\<rparr>"

definition erase_player :: "guid \<Rightarrow> channel \<Rightarrow> channel" where
  "erase_player g c = c\<lparr>ch_players := om_erase g (ch_players c)\<rparr>"

definition join_refusal :: "chat_world \<Rightarrow> guid \<Rightarrow> string \<Rightarrow> channel \<Rightarrow> chat_notice option" where
  "join_refusal w g pass c =
     (if IsBanned g c then Some CHAT_BANNED_NOTICE
      else if ch_password c \<noteq> [] \<and> pass \<noteq> ch_password c then Some CHAT_WRONG_PASSWORD_NOTICE
      else if has_bits (ch_flags c) CHANNEL_FLAG_LFG \<and> cw_restrictedLfg w \<and> cw_playerAccount w g \<and> cw_grouped w g
      then Some CHAT_NOT_IN_LFG_NOTICE else None)"

definition announces :: "chat_world \<Rightarrow> guid \<Rightarrow> channel \<Rightarrow> bool" where
  "announces w g c \<longleftrightarrow> ch_announce c \<and> \<not> cw_silent w g"

definition enter_channel :: "chat_world \<Rightarrow> guid \<Rightarrow> channel \<Rightarrow> channel" where
  "enter_channel w g c =
     (let c1 = PlayerJoinedChannel g c;
          c2 = (if announces w g c1 then NotifyAll w (CHAT_JOINED_NOTICE g) c1 else c1);
          c3 = add_player g c2;
          c4 = SendToOne w (CHAT_YOU_JOINED_NOTICE (ch_flags c3) (ch_id c3)) g c3;
          c5 = cfx [IrcRelay (ch_name c4) g True] (JoinNotify w g c4)
      in if IsConstant c5 then c5
         else let c6 = (if ch_players c5 \<noteq> [] then UpdateChannelUseageInDB c5 else c5)
              in if ch_owner c6 = 0 \<and> ch_ownership c6
                 then on_info g (set_bits CHANNEL_MEMBER_MODERATOR True) (PutOwner w g (length (ch_players c6) > 1) c6)
                 else c6)"

definition JoinChannel :: "chat_world \<Rightarrow> guid \<Rightarrow> string \<Rightarrow> channel \<Rightarrow> channel" where
  "JoinChannel w g pass c =
     (if IsOn g c then (if IsConstant c then c else SendToOne w (CHAT_PLAYER_ALREADY_MEMBER_NOTICE g) g c)
      else case join_refusal w g pass c of Some n \<Rightarrow> SendToOne w n g c | None \<Rightarrow> enter_channel w g c)"

text \<open>The entry of the first player of the store: \<^verbatim>\<open>playersStore.begin()->second.player\<close>.\<close>

definition first_player :: "channel \<Rightarrow> guid" where
  "first_player c = mi_player (snd (hd (ch_players c)))"

definition hand_over :: "chat_world \<Rightarrow> guid \<Rightarrow> channel \<Rightarrow> channel" where
  "hand_over w g c = PutOwner w g True (on_info g (set_bits CHANNEL_MEMBER_MODERATOR True) c)"

definition LeaveChannel :: "chat_world \<Rightarrow> guid \<Rightarrow> bool \<Rightarrow> channel \<Rightarrow> channel" where
  "LeaveChannel w g snd_packets c =
     (if \<not> IsOn g c then (if snd_packets then SendToOne w CHAT_NOT_MEMBER_NOTICE g c else c)
      else let c1 = (if snd_packets then PlayerLeftChannel g (SendToOne w (CHAT_YOU_LEFT_NOTICE (ch_id c) (IsConstant c)) g c) else c);
               changeowner = IsOwner g c1;
               c2 = erase_player g c1;
               c3 = (if announces w g c2 then NotifyAll w (CHAT_LEFT_NOTICE g) c2 else c2);
               c4 = LeaveNotify w g (cfx [IrcRelay (ch_name c3) g False] c3)
           in if IsConstant c4 then c4
              else let c5 = UpdateChannelUseageInDB c4
                   in if changeowner \<and> ch_ownership c5 \<and> ch_players c5 \<noteq> [] then hand_over w (first_player c5) c5 else c5)"

text \<open>\<^verbatim>\<open>Player::CleanupChannels\<close> for this channel: off the player's list, then out of the channel.\<close>

definition CleanupChannel :: "chat_world \<Rightarrow> guid \<Rightarrow> channel \<Rightarrow> channel" where
  "CleanupChannel w g c = LeaveChannel w g False (c\<lparr>ch_joined := remove1 g (ch_joined c)\<rparr>)"

section \<open>Kick and ban\<close>

text \<open>The player of that name, when he is connected and in the channel.\<close>

definition member_named :: "chat_world \<Rightarrow> string \<Rightarrow> channel \<Rightarrow> guid option" where
  "member_named w name c =
     (case cw_byName w name of None \<Rightarrow> None | Some h \<Rightarrow> if h = 0 \<or> \<not> IsOn h c then None else Some h)"

text \<open>What stands against an operation that moderators may do.\<close>

definition rank_refusal :: "chat_world \<Rightarrow> guid \<Rightarrow> channel \<Rightarrow> chat_notice option" where
  "rank_refusal w g c =
     (if \<not> IsOn g c then Some CHAT_NOT_MEMBER_NOTICE
      else if \<not> IsModerator g c \<and> \<not> cw_overrides w g then Some CHAT_NOT_MODERATOR_NOTICE else None)"

definition throw_out :: "chat_world \<Rightarrow> guid \<Rightarrow> guid \<Rightarrow> bool \<Rightarrow> channel \<Rightarrow> channel" where
  "throw_out w good victim ban c =
     (let changeowner = (ch_owner c = victim);
          c1 = (if ban \<and> \<not> IsBanned victim c
                then let c0 = UpdateChannelInDB (c\<lparr>ch_banned := os_insert victim (ch_banned c)\<rparr>)
                     in if cw_silent w good then c0 else NotifyAll w (CHAT_PLAYER_BANNED_NOTICE victim good) c0
                else if cw_silent w good then c else NotifyAll w (CHAT_PLAYER_KICKED_NOTICE victim good) c);
          c2 = PlayerLeftChannel victim (erase_player victim c1)
      in if changeowner \<and> ch_ownership c2 \<and> ch_players c2 \<noteq> [] then hand_over w good c2 else c2)"

definition KickOrBan :: "chat_world \<Rightarrow> guid \<Rightarrow> string \<Rightarrow> bool \<Rightarrow> channel \<Rightarrow> channel" where
  "KickOrBan w good badname ban c =
     (case rank_refusal w good c of Some n \<Rightarrow> SendToOne w n good c
      | None \<Rightarrow>
          (case member_named w badname c of None \<Rightarrow> SendToOne w (CHAT_PLAYER_NOT_FOUND_NOTICE badname) good c
           | Some victim \<Rightarrow>
               if \<not> cw_overrides w good \<and> ch_owner c = victim \<and> good \<noteq> ch_owner c then SendToOne w CHAT_NOT_OWNER_NOTICE good c
               else throw_out w good victim ban c))"

definition UnBan :: "chat_world \<Rightarrow> guid \<Rightarrow> string \<Rightarrow> channel \<Rightarrow> channel" where
  "UnBan w good badname c =
     (case rank_refusal w good c of Some n \<Rightarrow> SendToOne w n good c
      | None \<Rightarrow>
          (case cw_byName w badname of
             Some victim \<Rightarrow>
               if victim = 0 \<or> \<not> IsBanned victim c then SendToOne w (CHAT_PLAYER_NOT_FOUND_NOTICE badname) good c
               else UpdateChannelInDB (NotifyAll w (CHAT_PLAYER_UNBANNED_NOTICE victim good)
                      (c\<lparr>ch_banned := os_erase victim (ch_banned c)\<rparr>))
           | None \<Rightarrow> SendToOne w (CHAT_PLAYER_NOT_FOUND_NOTICE badname) good c))"

section \<open>Settings\<close>

definition ChannelPassword :: "chat_world \<Rightarrow> guid \<Rightarrow> string \<Rightarrow> channel \<Rightarrow> channel" where
  "ChannelPassword w g pass c =
     (case rank_refusal w g c of Some n \<Rightarrow> SendToOne w n g c
      | None \<Rightarrow> UpdateChannelInDB (NotifyAll w (CHAT_PASSWORD_CHANGED_NOTICE g) (c\<lparr>ch_password := pass\<rparr>)))"

definition ChannelAnnounce :: "chat_world \<Rightarrow> guid \<Rightarrow> channel \<Rightarrow> channel" where
  "ChannelAnnounce w g c =
     (case rank_refusal w g c of Some n \<Rightarrow> SendToOne w n g c
      | None \<Rightarrow>
          let c1 = c\<lparr>ch_announce := \<not> ch_announce c\<rparr>
          in UpdateChannelInDB (NotifyAll w (if ch_announce c1 then CHAT_ANNOUNCEMENTS_ON_NOTICE g else CHAT_ANNOUNCEMENTS_OFF_NOTICE g) c1))"

text \<open>A player of the other team can only be addressed when both may cross factions.\<close>

definition foreign :: "chat_world \<Rightarrow> guid \<Rightarrow> guid \<Rightarrow> bool" where
  "foreign w g h \<longleftrightarrow> cw_team w g \<noteq> cw_team w h \<and> (\<not> cw_twoSide w g \<or> \<not> cw_twoSide w h)"

definition SetMode :: "chat_world \<Rightarrow> guid \<Rightarrow> string \<Rightarrow> bool \<Rightarrow> bool \<Rightarrow> channel \<Rightarrow> channel" where
  "SetMode w g name moderator on c =
     (case rank_refusal w g c of Some n \<Rightarrow> SendToOne w n g c
      | None \<Rightarrow>
          if g = ch_owner c \<and> name = cw_name w g \<and> moderator then c
          else (case member_named w name c of None \<Rightarrow> SendToOne w (CHAT_PLAYER_NOT_FOUND_NOTICE name) g c
                | Some victim \<Rightarrow>
                    if foreign w g victim then SendToOne w (CHAT_PLAYER_NOT_FOUND_NOTICE name) g c
                    else if ch_owner c = victim \<and> ch_owner c \<noteq> g then SendToOne w CHAT_NOT_OWNER_NOTICE g c
                    else if moderator then PutModerator w victim on c else PutMute w victim on c))"

definition ChannelSetOwner :: "chat_world \<Rightarrow> guid \<Rightarrow> string \<Rightarrow> channel \<Rightarrow> channel" where
  "ChannelSetOwner w g name c =
     (if \<not> IsOn g c then SendToOne w CHAT_NOT_MEMBER_NOTICE g c
      else if \<not> cw_overrides w g \<and> g \<noteq> ch_owner c then SendToOne w CHAT_NOT_OWNER_NOTICE g c
      else case member_named w name c of None \<Rightarrow> SendToOne w (CHAT_PLAYER_NOT_FOUND_NOTICE name) g c
        | Some victim \<Rightarrow>
            if foreign w g victim then SendToOne w (CHAT_PLAYER_NOT_FOUND_NOTICE name) g c
            else hand_over w victim c)"

section \<open>Queries, messages, invitations\<close>

definition owner_name :: "chat_world \<Rightarrow> channel \<Rightarrow> string" where
  "owner_name w c =
     (let name = (case cw_dbName w (ch_owner c) of None \<Rightarrow> ''PLAYER_NOT_FOUND''
                  | Some n \<Rightarrow> if n = [] then ''PLAYER_NOT_FOUND'' else n)
      in if IsConstant c \<or> ch_owner c = 0 then ''Nobody'' else name)"

definition SendWhoOwner :: "chat_world \<Rightarrow> guid \<Rightarrow> channel \<Rightarrow> channel" where
  "SendWhoOwner w g c =
     SendToOne w (if IsOn g c then CHAT_CHANNEL_OWNER_NOTICE (owner_name w c) else CHAT_NOT_MEMBER_NOTICE) g c"

definition ChannelList :: "chat_world \<Rightarrow> guid \<Rightarrow> channel \<Rightarrow> channel" where
  "ChannelList w g c =
     (if \<not> IsOn g c then SendToOne w CHAT_NOT_MEMBER_NOTICE g c
      else let seen = filter (\<lambda>(h, i). cw_connected w h \<and> (cw_seesAll w g \<or> cw_security w h \<le> cw_whoLevel w) \<and> cw_visible w h g)
                        (ch_players c)
           in cfx (if cw_connected w g
                   then [Deliver g (SMSG_CHANNEL_LIST (ch_name c) (ch_flags c) (map (\<lambda>(h, i). (h, mi_flags i)) seen))] else []) c)"

definition Say :: "chat_world \<Rightarrow> guid \<Rightarrow> string \<Rightarrow> uint32 \<Rightarrow> channel \<Rightarrow> channel" where
  "Say w g what lang c =
     (if what = [] then c
      else if \<not> IsOn g c then SendToOne w CHAT_NOT_MEMBER_NOTICE g c
      else if IsMuted g c then SendToOne w CHAT_MUTED_NOTICE g c
      else SendToAll w (CHAT_MSG_CHANNEL g what (if cw_crossFaction w then 0 else lang) (ch_name c)) (if IsModerator g c then 0 else g) c)"

definition ChannelInvite :: "chat_world \<Rightarrow> guid \<Rightarrow> string \<Rightarrow> channel \<Rightarrow> channel" where
  "ChannelInvite w g name c =
     (if \<not> IsOn g c then SendToOne w CHAT_NOT_MEMBER_NOTICE g c
      else case cw_byName w name of None \<Rightarrow> SendToOne w (CHAT_PLAYER_NOT_FOUND_NOTICE name) g c
        | Some h \<Rightarrow>
            if \<not> cw_gmVisible w h then SendToOne w (CHAT_PLAYER_NOT_FOUND_NOTICE name) g c
            else if IsBanned h c then SendToOne w (CHAT_PLAYER_INVITE_BANNED_NOTICE name) g c
            else if foreign w h g then SendToOne w CHAT_INVITE_WRONG_FACTION_NOTICE g c
            else if IsOn h c then SendToOne w (CHAT_PLAYER_ALREADY_MEMBER_NOTICE h) g c
            else SendToOne w (CHAT_PLAYER_INVITED_NOTICE (cw_name w h)) g
                   (if cw_ignores w h g then c else SendToOne w (CHAT_INVITE_NOTICE g) h c))"

section \<open>The channels of a team\<close>

text \<open>The manager keeps the channels by their names in lower case; \<open>mg_fx\<close> holds its own answers.\<close>

record channel_mgr =
  mg_channels :: "(string, channel) stdmap"
  mg_team :: uint32
  mg_fx :: "channel_fx list"

definition GetJoinChannel :: "chat_world \<Rightarrow> string \<Rightarrow> uint32 \<Rightarrow> channel_mgr \<Rightarrow> string option \<times> channel_mgr" where
  "GetJoinChannel w name i m =
     (case cw_lower w name of None \<Rightarrow> (None, m)
      | Some key \<Rightarrow>
          (Some key, if om_find (mg_channels m) key = None
                     then m\<lparr>mg_channels := om_put key (Channel_init w name i (mg_team m)) (mg_channels m)\<rparr> else m))"

definition GetChannel :: "chat_world \<Rightarrow> string \<Rightarrow> guid \<Rightarrow> channel_mgr \<Rightarrow> string option \<times> channel_mgr" where
  "GetChannel w name g m =
     (case cw_lower w name of None \<Rightarrow> (None, m)
      | Some key \<Rightarrow>
          if om_find (mg_channels m) key = None
          then (None, m\<lparr>mg_fx := mg_fx m @ [Deliver g (SMSG_CHANNEL_NOTIFY name CHAT_NOT_MEMBER_NOTICE)]\<rparr>)
          else (Some key, m))"

definition MgrLeftChannel :: "chat_world \<Rightarrow> string \<Rightarrow> channel_mgr \<Rightarrow> channel_mgr" where
  "MgrLeftChannel w name m =
     (case cw_lower w name of None \<Rightarrow> m
      | Some key \<Rightarrow>
          (case om_find (mg_channels m) key of None \<Rightarrow> m
           | Some c \<Rightarrow> if GetNumPlayers c = 0 \<and> \<not> IsConstant c then m\<lparr>mg_channels := om_erase key (mg_channels m)\<rparr> else m))"

definition on_channel :: "string \<Rightarrow> (channel \<Rightarrow> channel) \<Rightarrow> channel_mgr \<Rightarrow> channel_mgr" where
  "on_channel key f m =
     (case om_find (mg_channels m) key of None \<Rightarrow> m | Some c \<Rightarrow> m\<lparr>mg_channels := om_put key (f c) (mg_channels m)\<rparr>)"

text \<open>An operation on the channel of that name, if there is one.\<close>

definition with_channel :: "chat_world \<Rightarrow> guid \<Rightarrow> string \<Rightarrow> (channel \<Rightarrow> channel) \<Rightarrow> channel_mgr \<Rightarrow> channel_mgr" where
  "with_channel w g name f m =
     (case GetChannel w name g m of (None, m1) \<Rightarrow> m1 | (Some key, m1) \<Rightarrow> on_channel key f m1)"

text \<open>
  \<^verbatim>\<open>Player::CleanupChannels\<close>, at logout: the player leaves every channel of his list, and those left empty are
  deleted.  They are visited in the order of their names here; each channel has its own log, so that
  the order in which the player joined them is not seen.
\<close>

definition CleanupChannels :: "chat_world \<Rightarrow> guid \<Rightarrow> channel_mgr \<Rightarrow> channel_mgr" where
  "CleanupChannels w g m =
     fold (\<lambda>(key, c) m'. if g \<in> set (ch_joined c) then MgrLeftChannel w (ch_name c) (on_channel key (CleanupChannel w g) m') else m')
       (mg_channels m) m"

section \<open>Packets\<close>

definition HandleJoinChannel :: "chat_world \<Rightarrow> guid \<Rightarrow> uint32 \<Rightarrow> string \<Rightarrow> string \<Rightarrow> channel_mgr \<Rightarrow> channel_mgr" where
  "HandleJoinChannel w g i name pass m =
     (if i \<noteq> 0 \<and> (cw_builtin w i = None \<or> \<not> cw_zoneAllows w i g) then m
      else if name = [] \<or> is_digit (hd name) then m
      else case GetJoinChannel w name i (m\<lparr>mg_team := cw_team w g\<rparr>) of
             (None, m1) \<Rightarrow> m1
           | (Some key, m1) \<Rightarrow> on_channel key (JoinChannel w g pass) m1)"

definition HandleLeaveChannel :: "chat_world \<Rightarrow> guid \<Rightarrow> string \<Rightarrow> channel_mgr \<Rightarrow> channel_mgr" where
  "HandleLeaveChannel w g name m =
     (if name = [] then m else MgrLeftChannel w name (with_channel w g name (LeaveChannel w g True) m))"

text \<open>A packet that names a player: the name is brought into its usual form first.\<close>

definition with_target :: "chat_world \<Rightarrow> guid \<Rightarrow> string \<Rightarrow> string \<Rightarrow> (string \<Rightarrow> channel \<Rightarrow> channel) \<Rightarrow> channel_mgr \<Rightarrow> channel_mgr" where
  "with_target w g name target f m =
     (case cw_normalize w target of (ok, t) \<Rightarrow> if \<not> ok then m else with_channel w g name (f t) m)"

datatype channel_request =
    CMSG_CHANNEL_LIST
  | CMSG_CHANNEL_PASSWORD string
  | CMSG_CHANNEL_SET_OWNER string
  | CMSG_CHANNEL_OWNER
  | CMSG_CHANNEL_MODERATOR string
  | CMSG_CHANNEL_UNMODERATOR string
  | CMSG_CHANNEL_MUTE string
  | CMSG_CHANNEL_UNMUTE string
  | CMSG_CHANNEL_INVITE string
  | CMSG_CHANNEL_KICK string
  | CMSG_CHANNEL_BAN string
  | CMSG_CHANNEL_UNBAN string
  | CMSG_CHANNEL_ANNOUNCEMENTS
  | CMSG_GET_CHANNEL_MEMBER_COUNT

fun HandleChannel :: "chat_world \<Rightarrow> guid \<Rightarrow> string \<Rightarrow> channel_request \<Rightarrow> channel_mgr \<Rightarrow> channel_mgr" where
  "HandleChannel w g name CMSG_CHANNEL_LIST = with_channel w g name (ChannelList w g)"
| "HandleChannel w g name (CMSG_CHANNEL_PASSWORD pass) =
     (if length pass > 31 then id else with_channel w g name (ChannelPassword w g pass))"
| "HandleChannel w g name (CMSG_CHANNEL_SET_OWNER t) = with_target w g name t (ChannelSetOwner w g)"
| "HandleChannel w g name CMSG_CHANNEL_OWNER = with_channel w g name (SendWhoOwner w g)"
| "HandleChannel w g name (CMSG_CHANNEL_MODERATOR t) = with_target w g name t (\<lambda>n. SetMode w g n True True)"
| "HandleChannel w g name (CMSG_CHANNEL_UNMODERATOR t) = with_target w g name t (\<lambda>n. SetMode w g n True False)"
| "HandleChannel w g name (CMSG_CHANNEL_MUTE t) = with_target w g name t (\<lambda>n. SetMode w g n False True)"
| "HandleChannel w g name (CMSG_CHANNEL_UNMUTE t) = with_target w g name t (\<lambda>n. SetMode w g n False False)"
| "HandleChannel w g name (CMSG_CHANNEL_INVITE t) = with_target w g name t (ChannelInvite w g)"
| "HandleChannel w g name (CMSG_CHANNEL_KICK t) = with_target w g name t (\<lambda>n. KickOrBan w g n False)"
| "HandleChannel w g name (CMSG_CHANNEL_BAN t) = with_target w g name t (\<lambda>n. KickOrBan w g n True)"
| "HandleChannel w g name (CMSG_CHANNEL_UNBAN t) = with_target w g name t (UnBan w g)"
| "HandleChannel w g name CMSG_CHANNEL_ANNOUNCEMENTS = with_channel w g name (ChannelAnnounce w g)"
| "HandleChannel w g name CMSG_GET_CHANNEL_MEMBER_COUNT =
     with_channel w g name (\<lambda>c. cfx [Deliver g (SMSG_CHANNEL_MEMBER_COUNT (ch_name c) (ch_flags c) (GetNumPlayers c))] c)"

end
