(* ===== verification/ChannelSafety.thy ===== *)
theory ChannelSafety
  imports ChannelOps
begin

text \<open>
  What the channels promise: the entries of the players are in order, nobody but the owner is
  marked as owner, a player's list of channels agrees with the channel, a banned player stays out,
  and without rank nothing can be changed.  One operation breaks this: an owner who kicks himself.
\<close>

section \<open>What sending leaves alone\<close>

text \<open>The part of a channel that the operations are about.\<close>

definition inner :: "channel \<Rightarrow> channel" where
  "inner c = c\<lparr>ch_fx := []\<rparr>"

lemma inner_cfx [simp]: "inner (cfx es c) = inner c"
  by (simp add: inner_def cfx_def)

lemma inner_sends [simp]:
  "inner (SendToOne w n g c) = inner c" "inner (SendToAll w pkt from c) = inner c" "inner (NotifyAll w n c) = inner c"
  "inner (ModeChange w g old c) = inner c" "inner (JoinNotify w g c) = inner c" "inner (LeaveNotify w g c) = inner c"
  "inner (UpdateChannelInDB c) = inner c" "inner (UpdateChannelUseageInDB c) = inner c"
  by (simp_all add: SendToOne_def SendToAll_def SendToAllButOne_def NotifyAll_def ModeChange_def JoinNotify_def
      LeaveNotify_def UpdateChannelInDB_def UpdateChannelUseageInDB_def)

lemma inner_fields:
  assumes "inner c = inner c'"
  shows "ch_players c = ch_players c'" "ch_owner c = ch_owner c'" "ch_banned c = ch_banned c'" "ch_joined c = ch_joined c'"
    "ch_ownership c = ch_ownership c'" "ch_id c = ch_id c'" "ch_announce c = ch_announce c'" "ch_password c = ch_password c'"
    "ch_flags c = ch_flags c'" "ch_saved c = ch_saved c'" "ch_name c = ch_name c'"
proof -
  have f: "ch_players (inner c) = ch_players c" "ch_owner (inner c) = ch_owner c" "ch_banned (inner c) = ch_banned c"
    "ch_joined (inner c) = ch_joined c" "ch_ownership (inner c) = ch_ownership c" "ch_id (inner c) = ch_id c"
    "ch_announce (inner c) = ch_announce c" "ch_password (inner c) = ch_password c" "ch_flags (inner c) = ch_flags c"
    "ch_saved (inner c) = ch_saved c" "ch_name (inner c) = ch_name c" for c by (simp_all add: inner_def)
  show "ch_players c = ch_players c'" "ch_owner c = ch_owner c'" "ch_banned c = ch_banned c'" "ch_joined c = ch_joined c'"
    "ch_ownership c = ch_ownership c'" "ch_id c = ch_id c'" "ch_announce c = ch_announce c'" "ch_password c = ch_password c'"
    "ch_flags c = ch_flags c'" "ch_saved c = ch_saved c'" "ch_name c = ch_name c'"
    using assms f [of c] f [of c'] by simp_all
qed

lemmas sent [simp] = inner_sends [THEN inner_fields(1)] inner_sends [THEN inner_fields(2)] inner_sends [THEN inner_fields(3)]
  inner_sends [THEN inner_fields(4)] inner_sends [THEN inner_fields(5)] inner_sends [THEN inner_fields(6)]
  inner_sends [THEN inner_fields(7)] inner_sends [THEN inner_fields(8)]

lemma sent_on:
  assumes "inner c' = inner c"
  shows "IsOn g c' = IsOn g c" "IsBanned g c' = IsBanned g c" "info_at g c' = info_at g c"
  using inner_fields [OF assms] by (simp_all add: IsOn_def IsBanned_def info_at_def)

lemmas sent_on_sends [simp] = inner_sends [THEN sent_on(1)] inner_sends [THEN sent_on(2)] inner_sends [THEN sent_on(3)]

section \<open>Flags and entries\<close>

lemma flag_bits: "has_bits x CHANNEL_MEMBER_OWNER = bit x 0" "has_bits x CHANNEL_MEMBER_MODERATOR = bit x 1"
  "has_bits x CHANNEL_MEMBER_MUTED = bit x 3" for x :: uint8
proof -
  have e: "x AND 2 ^ n = (if bit x n then 2 ^ n else 0)" for n
    by (rule bit_word_eqI) (auto simp: bit_simps)
  show "has_bits x CHANNEL_MEMBER_OWNER = bit x 0" using e [of 0] by (simp add: has_bits_def)
  show "has_bits x CHANNEL_MEMBER_MODERATOR = bit x 1" using e [of 1] by (simp add: has_bits_def)
  show "has_bits x CHANNEL_MEMBER_MUTED = bit x 3" using e [of 3] by (simp add: has_bits_def)
qed

lemma set_flag_bits: "bit (set_bits CHANNEL_MEMBER_OWNER on x) n = (if n = 0 then on else bit x n)"
  "bit (set_bits CHANNEL_MEMBER_MODERATOR on x) n = (if n = 1 then on else bit x n)"
  "bit (set_bits CHANNEL_MEMBER_MUTED on x) n = (if n = 3 then on else bit x n)"
proof -
  have e: "bit (set_bits (2 ^ k) on x) n = (if n = k then on \<and> n < 8 else bit x n)" for k
    by (auto simp: set_bits_def bit_simps dest: bit_imp_le_length)
  show "bit (set_bits CHANNEL_MEMBER_OWNER on x) n = (if n = 0 then on else bit x n)" using e [of 0] by simp
  show "bit (set_bits CHANNEL_MEMBER_MODERATOR on x) n = (if n = 1 then on else bit x n)" using e [of 1] by simp
  show "bit (set_bits CHANNEL_MEMBER_MUTED on x) n = (if n = 3 then on else bit x n)" using e [of 3] by simp
qed

lemmas flags = flag_bits set_flag_bits

lemma IsOn_keys: "IsOn g c \<longleftrightarrow> g \<in> om_keys (ch_players c)"
  by (simp add: IsOn_def om_find_None_iff)

lemma all_om_put: "list_all P m \<Longrightarrow> P (k, v) \<Longrightarrow> list_all P (om_put k v m)"
  by (induction k v m rule: om_put.induct) auto

lemma all_om_erase: "list_all P m \<Longrightarrow> list_all P (om_erase k m)"
  by (auto simp: list_all_iff om_erase_def)

lemma on_info_fields [simp]:
  "om_keys (ch_players (on_info g f c)) = insert g (om_keys (ch_players c))"
  "ch_owner (on_info g f c) = ch_owner c" "ch_banned (on_info g f c) = ch_banned c" "ch_joined (on_info g f c) = ch_joined c"
  "IsOn h (on_info g f c) \<longleftrightarrow> h = g \<or> IsOn h c" "IsBanned h (on_info g f c) = IsBanned h c"
  by (simp_all add: on_info_def IsOn_keys IsBanned_def)

section \<open>Well-formed channels\<close>

text \<open>The entry of a player names him, and only the owner is marked as owner.\<close>

definition member_ok :: "guid \<Rightarrow> guid \<times> member_info \<Rightarrow> bool" where
  "member_ok owner e \<longleftrightarrow> fst e \<noteq> 0 \<and> mi_player (snd e) = fst e \<and>
     (has_bits (mi_flags (snd e)) CHANNEL_MEMBER_OWNER \<longrightarrow> fst e = owner)"

definition owned_by :: "guid \<Rightarrow> channel \<Rightarrow> bool" where
  "owned_by owner c \<longleftrightarrow> om_ok (ch_players c) \<and> list_all (member_ok owner) (ch_players c) \<and>
     set (ch_joined c) = om_keys (ch_players c) \<and> distinct (ch_joined c) \<and> os_ok (ch_banned c)"

definition channel_ok :: "channel \<Rightarrow> bool" where
  "channel_ok c \<longleftrightarrow> owned_by (ch_owner c) c"

lemma owned_cong: "inner c' = inner c \<Longrightarrow> owned_by own c' = owned_by own c"
  using inner_fields(1,3,4) [of c' c] by (simp add: owned_by_def)

lemma owned_sent [simp]: "owned_by own (SendToOne w n g c) = owned_by own c" "owned_by own (SendToAll w pkt h c) = owned_by own c"
  "owned_by own (NotifyAll w n c) = owned_by own c" "owned_by own (ModeChange w g old c) = owned_by own c"
  "owned_by own (JoinNotify w g c) = owned_by own c" "owned_by own (LeaveNotify w g c) = owned_by own c"
  "owned_by own (UpdateChannelInDB c) = owned_by own c" "owned_by own (UpdateChannelUseageInDB c) = owned_by own c"
  "owned_by own (cfx es c) = owned_by own c"
  by (rule owned_cong, simp)+

lemma ok_sent [simp]: "channel_ok (SendToOne w n g c) = channel_ok c" "channel_ok (SendToAll w pkt h c) = channel_ok c"
  "channel_ok (NotifyAll w n c) = channel_ok c" "channel_ok (UpdateChannelInDB c) = channel_ok c"
  "channel_ok (UpdateChannelUseageInDB c) = channel_ok c" "channel_ok (LeaveNotify w g c) = channel_ok c"
  "channel_ok (cfx es c) = channel_ok c"
  by (simp_all add: channel_ok_def inner_fields(2) [OF inner_cfx])

lemma owned_info: "owned_by own c \<Longrightarrow> om_find (ch_players c) g = Some i \<Longrightarrow> member_ok own (g, i)"
  by (auto simp: owned_by_def list_all_iff dest: om_find_mem)

lemma owned_on:
  assumes "owned_by own c" "IsOn g c" "\<And>x. bit (f x) 0 \<Longrightarrow> g = own \<or> bit x 0"
  shows "owned_by own (on_info g f c)"
proof -
  obtain i where i: "om_find (ch_players c) g = Some i" using assms(2) by (auto simp: IsOn_def)
  then have m: "member_ok own (g, i)" by (rule owned_info [OF assms(1)])
  then have "member_ok own (g, i\<lparr>mi_flags := f (mi_flags i)\<rparr>)" using assms(3) by (auto simp: member_ok_def flags)
  then show ?thesis using assms(1,2) i
    by (auto simp: owned_by_def on_info_def info_at_def om_at_def all_om_put IsOn_keys)
qed

lemma owned_disown:
  assumes "owned_by own c"
  shows "owned_by 0 (if own \<noteq> 0 \<and> IsOn own c then on_info own (set_bits CHANNEL_MEMBER_OWNER False) c else c)"
proof (cases "own \<noteq> 0 \<and> IsOn own c")
  case True
  then obtain i where i: "om_find (ch_players c) own = Some i" by (auto simp: IsOn_def)
  have ok: "om_ok (ch_players c)" using assms by (simp add: owned_by_def)
  let ?j = "i\<lparr>mi_flags := set_bits CHANNEL_MEMBER_OWNER False (mi_flags i)\<rparr>"
  have j: "member_ok 0 (own, ?j)" using owned_info [OF assms i] by (simp add: member_ok_def flags)
  have "member_ok 0 e" if in_put: "e \<in> set (om_put own ?j (ch_players c))" for e
  proof -
    obtain k v where e: "e = (k, v)" by fastforce
    consider "k = own" "v = ?j" | "(k, v) \<in> set (ch_players c)" "k \<noteq> own" using set_om_put [OF ok] in_put e by auto
    then show ?thesis
    proof cases
      case 1 then show ?thesis using j e by simp
    next
      case 2 then show ?thesis using assms e by (auto simp: owned_by_def list_all_iff member_ok_def)
    qed
  qed
  then show ?thesis using True assms i
    by (auto simp: owned_by_def on_info_def info_at_def om_at_def list_all_iff IsOn_keys)
next
  case False
  have "member_ok 0 (k, v)" if "(k, v) \<in> set (ch_players c)" for k v
    using that assms False by (force simp: owned_by_def list_all_iff member_ok_def flags IsOn_keys om_keys_def)
  then show ?thesis using False assms by (auto simp: owned_by_def list_all_iff)
qed

lemma owned_mono: "owned_by 0 c \<Longrightarrow> owned_by own c"
  by (auto simp: owned_by_def list_all_iff member_ok_def)


lemma PutOwner_fields [simp]:
  assumes "IsOn g c"
  shows "IsOn h (PutOwner w g ex c) = IsOn h c" "ch_banned (PutOwner w g ex c) = ch_banned c"
    "ch_joined (PutOwner w g ex c) = ch_joined c" "ch_owner (PutOwner w g ex c) = g"
  using assms by (auto simp: PutOwner_def Let_def IsOn_keys)

lemma owned_owner [simp]: "owned_by own (c\<lparr>ch_owner := g\<rparr>) = owned_by own c" "IsOn h (c\<lparr>ch_owner := g\<rparr>) = IsOn h c"
  by (simp_all add: owned_by_def IsOn_def)

lemma PutOwner_ok:
  assumes "channel_ok c" "IsOn g c"
  shows "channel_ok (PutOwner w g ex c)"
proof -
  define c1 where "c1 = (if ch_owner c \<noteq> 0 \<and> IsOn (ch_owner c) c then on_info (ch_owner c) (set_bits CHANNEL_MEMBER_OWNER False) c else c)"
  have o1: "owned_by 0 c1" unfolding c1_def using assms(1) by (intro owned_disown) (simp add: channel_ok_def)
  have on: "IsOn g c1" using assms(2) by (simp add: c1_def)
  define c3 where "c3 = on_info g (set_bits CHANNEL_MEMBER_OWNER True) (on_info g (set_bits CHANNEL_MEMBER_MODERATOR True) (c1\<lparr>ch_owner := g\<rparr>))"
  have "owned_by g c3" unfolding c3_def
    by (intro owned_on) (use o1 on in \<open>auto simp: flags intro: owned_mono\<close>)
  moreover have "ch_owner c3 = g" by (simp add: c3_def)
  moreover have "PutOwner w g ex c = (if g = 0 then c1\<lparr>ch_owner := 0\<rparr> else
      UpdateChannelInDB (if ex then NotifyAll w (CHAT_OWNER_CHANGED_NOTICE g) (ModeChange w g (GetPlayerFlags g (c1\<lparr>ch_owner := g\<rparr>)) c3)
        else ModeChange w g (GetPlayerFlags g (c1\<lparr>ch_owner := g\<rparr>)) c3))"
    by (simp add: PutOwner_def Let_def c1_def c3_def)
  ultimately show ?thesis using o1 by (simp add: channel_ok_def)
qed

lemma hand_over_ok: "channel_ok c \<Longrightarrow> IsOn g c \<Longrightarrow> channel_ok (hand_over w g c)"
  unfolding hand_over_def by (rule PutOwner_ok) (auto simp: channel_ok_def flags intro!: owned_on)

lemma PutModerator_ok: "channel_ok c \<Longrightarrow> IsOn g c \<Longrightarrow> channel_ok (PutModerator w g on c)"
  by (auto simp: PutModerator_def channel_ok_def flags intro!: owned_on)

lemma PutMute_ok: "channel_ok c \<Longrightarrow> IsOn g c \<Longrightarrow> channel_ok (PutMute w g on c)"
  by (auto simp: PutMute_def channel_ok_def flags intro!: owned_on)

text \<open>A player comes in, and he is gone.\<close>

lemma owned_enter:
  assumes "owned_by own c" "\<not> IsOn g c" "g \<noteq> 0"
  shows "owned_by own (add_player g (PlayerJoinedChannel g c))"
  using assms by (auto simp: owned_by_def add_player_def PlayerJoinedChannel_def all_om_put member_ok_def flags IsOn_keys)

lemma owned_leave:
  assumes "owned_by own c"
  shows "owned_by own (erase_player g (PlayerLeftChannel g c))"
  using assms by (auto simp: owned_by_def erase_player_def PlayerLeftChannel_def all_om_erase)

lemma first_player_on: "owned_by own c \<Longrightarrow> ch_players c \<noteq> [] \<Longrightarrow> IsOn (first_player c) c"
  by (cases "ch_players c") (auto simp: owned_by_def first_player_def member_ok_def IsOn_keys om_keys_def)


section \<open>Runs of operations\<close>

datatype channel_op =
    OpJoin guid string
  | OpLeave guid
  | OpLogout guid
  | OpKickOrBan guid string bool
  | OpUnBan guid string
  | OpPassword guid string
  | OpAnnounce guid
  | OpSetMode guid string bool bool
  | OpSetOwner guid string
  | OpWhoOwner guid
  | OpList guid
  | OpSay guid string uint32
  | OpInvite guid string

fun channel_step :: "chat_world \<Rightarrow> channel_op \<Rightarrow> channel \<Rightarrow> channel" where
  "channel_step w (OpJoin g pass) = JoinChannel w g pass"
| "channel_step w (OpLeave g) = LeaveChannel w g True"
| "channel_step w (OpLogout g) = CleanupChannel w g"
| "channel_step w (OpKickOrBan g name ban) = KickOrBan w g name ban"
| "channel_step w (OpUnBan g name) = UnBan w g name"
| "channel_step w (OpPassword g pass) = ChannelPassword w g pass"
| "channel_step w (OpAnnounce g) = ChannelAnnounce w g"
| "channel_step w (OpSetMode g name moderator on) = SetMode w g name moderator on"
| "channel_step w (OpSetOwner g name) = ChannelSetOwner w g name"
| "channel_step w (OpWhoOwner g) = SendWhoOwner w g"
| "channel_step w (OpList g) = ChannelList w g"
| "channel_step w (OpSay g what lang) = Say w g what lang"
| "channel_step w (OpInvite g name) = ChannelInvite w g name"

fun op_actor :: "channel_op \<Rightarrow> guid" where
  "op_actor (OpJoin g _) = g"
| "op_actor (OpLeave g) = g"
| "op_actor (OpLogout g) = g"
| "op_actor (OpKickOrBan g _ _) = g"
| "op_actor (OpUnBan g _) = g"
| "op_actor (OpPassword g _) = g"
| "op_actor (OpAnnounce g) = g"
| "op_actor (OpSetMode g _ _ _) = g"
| "op_actor (OpSetOwner g _) = g"
| "op_actor (OpWhoOwner g) = g"
| "op_actor (OpList g) = g"
| "op_actor (OpSay g _ _) = g"
| "op_actor (OpInvite g _) = g"

text \<open>The owner kicks or bans himself.\<close>

fun self_kick :: "chat_world \<Rightarrow> channel_op \<Rightarrow> channel \<Rightarrow> bool" where
  "self_kick w (OpKickOrBan g name _) c \<longleftrightarrow> g = ch_owner c \<and> cw_byName w name = Some g"
| "self_kick w _ c \<longleftrightarrow> False"

fun run_channel :: "chat_world \<Rightarrow> channel_op list \<Rightarrow> channel \<Rightarrow> channel" where
  "run_channel w [] c = c"
| "run_channel w (op # ops) c = run_channel w ops (channel_step w op c)"

text \<open>Every operation is allowed in the state in which it runs.\<close>

fun allowed_along :: "(channel_op \<Rightarrow> channel \<Rightarrow> bool) \<Rightarrow> chat_world \<Rightarrow> channel_op list \<Rightarrow> channel \<Rightarrow> bool" where
  "allowed_along ok w [] c \<longleftrightarrow> True"
| "allowed_along ok w (op # ops) c \<longleftrightarrow> ok op c \<and> allowed_along ok w ops (channel_step w op c)"

definition by_player :: "chat_world \<Rightarrow> channel_op \<Rightarrow> channel \<Rightarrow> bool" where
  "by_player w op c \<longleftrightarrow> op_actor op \<noteq> 0 \<and> \<not> self_kick w op c"

text \<open>What every allowed operation keeps holds after any run of them.\<close>

locale channel_invariant =
  fixes w :: chat_world and I :: "channel \<Rightarrow> bool" and ok :: "channel_op \<Rightarrow> channel \<Rightarrow> bool"
  assumes step: "I c \<Longrightarrow> ok op c \<Longrightarrow> I (channel_step w op c)"
begin

lemma run: "I c \<Longrightarrow> allowed_along ok w ops c \<Longrightarrow> I (run_channel w ops c)"
  by (induction ops arbitrary: c) (simp_all add: step)

lemma run_always: "(\<And>op c. op \<in> set ops \<Longrightarrow> ok op c) \<Longrightarrow> I c \<Longrightarrow> I (run_channel w ops c)"
  by (induction ops arbitrary: c) (simp_all add: step)

end

section \<open>Every operation keeps the channel well formed\<close>

lemma IsOn_plain [simp]:
  "IsOn h (erase_player g c) \<longleftrightarrow> h \<noteq> g \<and> IsOn h c" "IsOn h (PlayerLeftChannel g c) = IsOn h c"
  "IsOn h (add_player g c) \<longleftrightarrow> h = g \<or> IsOn h c" "IsOn h (PlayerJoinedChannel g c) = IsOn h c"
  by (auto simp: IsOn_keys erase_player_def PlayerLeftChannel_def add_player_def PlayerJoinedChannel_def)

lemma owner_plain [simp]: "ch_owner (erase_player g c) = ch_owner c" "ch_owner (PlayerLeftChannel g c) = ch_owner c"
  "ch_owner (add_player g c) = ch_owner c" "ch_owner (PlayerJoinedChannel g c) = ch_owner c"
  by (simp_all add: erase_player_def PlayerLeftChannel_def add_player_def PlayerJoinedChannel_def)

text \<open>The player is in, and everybody has been told.\<close>

definition entered :: "chat_world \<Rightarrow> guid \<Rightarrow> channel \<Rightarrow> channel" where
  "entered w g c =
     (let c1 = PlayerJoinedChannel g c;
          c2 = (if announces w g c1 then NotifyAll w (CHAT_JOINED_NOTICE g) c1 else c1);
          c3 = add_player g c2;
          c4 = SendToOne w (CHAT_YOU_JOINED_NOTICE (ch_flags c3) (ch_id c3)) g c3
      in cfx [IrcRelay (ch_name c4) g True] (JoinNotify w g c4))"

lemma enter_entered:
  "enter_channel w g c = (if IsConstant (entered w g c) then entered w g c
     else let c6 = (if ch_players (entered w g c) \<noteq> [] then UpdateChannelUseageInDB (entered w g c) else entered w g c)
          in if ch_owner c6 = 0 \<and> ch_ownership c6
             then on_info g (set_bits CHANNEL_MEMBER_MODERATOR True) (PutOwner w g (length (ch_players c6) > 1) c6)
             else c6)"
  by (simp only: enter_channel_def entered_def Let_def)

lemma inner_entered: "inner (entered w g c) = inner (add_player g (PlayerJoinedChannel g c))"
proof -
  have "inner (add_player g (if b then NotifyAll w n (PlayerJoinedChannel g c) else PlayerJoinedChannel g c))
      = inner (add_player g (PlayerJoinedChannel g c))" for b n
    by (simp add: add_player_def inner_def NotifyAll_def SendToAll_def cfx_def)
  then show ?thesis unfolding entered_def Let_def by simp
qed

lemma enter_ok:
  assumes "channel_ok c" "\<not> IsOn g c" "g \<noteq> 0"
  shows "channel_ok (enter_channel w g c)"
proof -
  note i = inner_entered [of w g c]
  have "channel_ok (entered w g c)"
    using owned_cong [OF i] inner_fields(2) [OF i] owned_enter [of "ch_owner c" c g] assms by (simp add: channel_ok_def)
  moreover have "IsOn g (entered w g c)" using sent_on(1) [OF i] by simp
  moreover have "channel_ok (on_info g (set_bits CHANNEL_MEMBER_MODERATOR True) d)" if "channel_ok d" "IsOn g d" for d
    using that by (auto simp: channel_ok_def flags intro!: owned_on)
  ultimately show ?thesis by (simp add: enter_entered Let_def PutOwner_ok)
qed

lemma JoinChannel_ok: "channel_ok c \<Longrightarrow> g \<noteq> 0 \<Longrightarrow> channel_ok (JoinChannel w g pass c)"
  by (simp add: JoinChannel_def enter_ok split: option.split)

text \<open>What follows once the player is out.\<close>

definition after_leave :: "chat_world \<Rightarrow> guid \<Rightarrow> bool \<Rightarrow> channel \<Rightarrow> channel" where
  "after_leave w g changeowner c2 =
     (let c3 = (if announces w g c2 then NotifyAll w (CHAT_LEFT_NOTICE g) c2 else c2);
          c4 = LeaveNotify w g (cfx [IrcRelay (ch_name c3) g False] c3)
      in if IsConstant c4 then c4
         else let c5 = UpdateChannelUseageInDB c4
              in if changeowner \<and> ch_ownership c5 \<and> ch_players c5 \<noteq> [] then hand_over w (first_player c5) c5 else c5)"

lemma after_leave_ok:
  assumes "channel_ok c"
  shows "channel_ok (after_leave w g b c)"
proof -
  define c5 where "c5 = UpdateChannelUseageInDB (LeaveNotify w g (cfx [IrcRelay (ch_name (if announces w g c
    then NotifyAll w (CHAT_LEFT_NOTICE g) c else c)) g False] (if announces w g c then NotifyAll w (CHAT_LEFT_NOTICE g) c else c)))"
  have ok: "channel_ok c5" using assms by (simp add: c5_def)
  have "channel_ok (hand_over w (first_player c5) c5)" if "ch_players c5 \<noteq> []"
    by (rule hand_over_ok [OF ok], rule first_player_on) (use ok that in \<open>simp_all add: channel_ok_def\<close>)
  then show ?thesis using ok assms by (simp add: after_leave_def Let_def c5_def)
qed

lemma LeaveChannel_after:
  "IsOn g c \<Longrightarrow> LeaveChannel w g snd_packets c =
     (let c1 = (if snd_packets then PlayerLeftChannel g (SendToOne w (CHAT_YOU_LEFT_NOTICE (ch_id c) (IsConstant c)) g c) else c)
      in after_leave w g (IsOwner g c1) (erase_player g c1))"
  by (simp add: LeaveChannel_def after_leave_def Let_def)

lemma leave_ok: "channel_ok c \<Longrightarrow> channel_ok (erase_player g (PlayerLeftChannel g c))"
  by (simp add: channel_ok_def owned_leave)

lemma LeaveChannel_ok: "channel_ok c \<Longrightarrow> channel_ok (LeaveChannel w g True c)"
  by (cases "IsOn g c") (simp_all add: LeaveChannel_after Let_def after_leave_ok leave_ok, simp add: LeaveChannel_def)

lemma CleanupChannel_ok:
  assumes "channel_ok c"
  shows "channel_ok (CleanupChannel w g c)"
proof (cases "IsOn g c")
  case True
  have "c\<lparr>ch_joined := remove1 g (ch_joined c)\<rparr> = PlayerLeftChannel g c"
  proof -
    have "remove1 g (ch_joined c) = removeAll g (ch_joined c)"
      using assms by (simp add: channel_ok_def owned_by_def distinct_remove1_removeAll)
    also have "\<dots> = filter (\<lambda>h. h \<noteq> g) (ch_joined c)" by (induction "ch_joined c") (simp_all add: removeAll_filter_not_eq eq_commute)
    finally show ?thesis by (simp add: PlayerLeftChannel_def)
  qed
  moreover have "IsOn g (PlayerLeftChannel g c)" using True by simp
  ultimately show ?thesis using assms by (simp add: CleanupChannel_def LeaveChannel_after Let_def after_leave_ok leave_ok)
next
  case False
  then have "g \<notin> set (ch_joined c)" using assms by (simp add: channel_ok_def owned_by_def IsOn_keys)
  then have "c\<lparr>ch_joined := remove1 g (ch_joined c)\<rparr> = c" by (simp add: remove1_idem)
  then show ?thesis using False assms by (simp add: CleanupChannel_def LeaveChannel_def)
qed

lemma ban_ok: "channel_ok c \<Longrightarrow> channel_ok (c\<lparr>ch_banned := os_insert g (ch_banned c)\<rparr>)" "channel_ok c \<Longrightarrow> channel_ok (c\<lparr>ch_banned := os_erase g (ch_banned c)\<rparr>)"
  "channel_ok c \<Longrightarrow> channel_ok (c\<lparr>ch_password := pass\<rparr>)" "channel_ok c \<Longrightarrow> channel_ok (c\<lparr>ch_announce := b\<rparr>)"
  "IsOn h (c\<lparr>ch_banned := bs\<rparr>) = IsOn h c"
  by (simp_all add: channel_ok_def owned_by_def IsOn_def)

lemma throw_out_ok:
  assumes "channel_ok c" "good \<noteq> victim \<or> ch_owner c \<noteq> victim" "IsOn good c"
  shows "channel_ok (throw_out w good victim ban c)"
proof -
  define c1 where "c1 = (if ban \<and> \<not> IsBanned victim c
                then let c0 = UpdateChannelInDB (c\<lparr>ch_banned := os_insert victim (ch_banned c)\<rparr>)
                     in if cw_silent w good then c0 else NotifyAll w (CHAT_PLAYER_BANNED_NOTICE victim good) c0
                else if cw_silent w good then c else NotifyAll w (CHAT_PLAYER_KICKED_NOTICE victim good) c)"
  have c1: "channel_ok c1" "IsOn h c1 = IsOn h c" for h using assms by (simp_all add: c1_def Let_def ban_ok)
  define c2 where "c2 = PlayerLeftChannel victim (erase_player victim c1)"
  have swap: "c2 = erase_player victim (PlayerLeftChannel victim c1)" by (simp add: c2_def PlayerLeftChannel_def erase_player_def)
  have ok: "channel_ok c2" unfolding swap using c1 by (simp add: leave_ok)
  have "throw_out w good victim ban c = (if ch_owner c = victim \<and> ch_ownership c2 \<and> ch_players c2 \<noteq> [] then hand_over w good c2 else c2)"
    by (simp only: throw_out_def Let_def c2_def c1_def)
  moreover have "IsOn good c2" if "ch_owner c = victim" using that assms c1 by (auto simp: c2_def)
  ultimately show ?thesis using ok by (simp add: hand_over_ok)
qed

lemma member_named_on: "member_named w name c = Some h \<Longrightarrow> IsOn h c \<and> h \<noteq> 0 \<and> cw_byName w name = Some h"
  by (auto simp: member_named_def split: option.splits if_splits)

lemma rank_refusal_on: "rank_refusal w g c = None \<Longrightarrow> IsOn g c"
  by (auto simp: rank_refusal_def split: if_splits)

lemma KickOrBan_ok:
  assumes "channel_ok c" "\<not> (g = ch_owner c \<and> cw_byName w name = Some g)"
  shows "channel_ok (KickOrBan w g name ban c)"
  using assms by (auto simp: KickOrBan_def dest!: member_named_on rank_refusal_on intro!: throw_out_ok split: option.split)

lemma channel_step_ok:
  assumes "channel_ok c" "op_actor op \<noteq> 0" "\<not> self_kick w op c"
  shows "channel_ok (channel_step w op c)"
proof (cases op)
  case (OpSetMode g name m on) then show ?thesis using assms
    by (auto simp: SetMode_def PutModerator_ok PutMute_ok dest: member_named_on split: option.split)
next
  case (OpSetOwner g name) then show ?thesis using assms
    by (auto simp: ChannelSetOwner_def hand_over_ok dest: member_named_on split: option.split)
qed (use assms in \<open>simp_all add: JoinChannel_ok LeaveChannel_ok CleanupChannel_ok KickOrBan_ok UnBan_def ChannelPassword_def
      ChannelAnnounce_def SendWhoOwner_def ChannelList_def Say_def ChannelInvite_def Let_def ban_ok split: option.split\<close>)


interpretation well_formed: channel_invariant w channel_ok "by_player w" for w
  by unfold_locales (simp add: channel_step_ok by_player_def)

section \<open>A banned player stays out\<close>

text \<open>Nothing that an operation could put back in the channel names the player any more.\<close>

definition shut_out :: "guid \<Rightarrow> channel \<Rightarrow> bool" where
  "shut_out p c \<longleftrightarrow> IsBanned p c \<and> \<not> IsOn p c \<and> list_all (\<lambda>e. mi_player (snd e) \<noteq> p) (ch_players c)"

lemma shut_cong: "inner c' = inner c \<Longrightarrow> shut_out p c' = shut_out p c"
  using inner_fields(1,3) [of c' c] by (simp add: shut_out_def IsOn_def IsBanned_def)

lemma shut_sent [simp]: "shut_out p (SendToOne w n g c) = shut_out p c" "shut_out p (SendToAll w pkt h c) = shut_out p c"
  "shut_out p (NotifyAll w n c) = shut_out p c" "shut_out p (ModeChange w g old c) = shut_out p c"
  "shut_out p (JoinNotify w g c) = shut_out p c" "shut_out p (LeaveNotify w g c) = shut_out p c"
  "shut_out p (UpdateChannelInDB c) = shut_out p c" "shut_out p (UpdateChannelUseageInDB c) = shut_out p c"
  "shut_out p (cfx es c) = shut_out p c"
  by (rule shut_cong, simp)+

lemma shut_plain [simp]: "shut_out p (c\<lparr>ch_owner := g\<rparr>) = shut_out p c" "shut_out p (PlayerLeftChannel g c) = shut_out p c"
  "shut_out p (PlayerJoinedChannel g c) = shut_out p c" "shut_out p (c\<lparr>ch_joined := js\<rparr>) = shut_out p c"
  "shut_out p (c\<lparr>ch_password := pass\<rparr>) = shut_out p c" "shut_out p (c\<lparr>ch_announce := b\<rparr>) = shut_out p c"
  by (simp_all add: shut_out_def PlayerLeftChannel_def PlayerJoinedChannel_def IsOn_def IsBanned_def)

lemma shut_info:
  assumes "shut_out p c" "g \<noteq> p" "p \<noteq> 0"
  shows "shut_out p (on_info g f c)"
proof -
  have "mi_player (info_at g c) \<noteq> p"
    using assms by (auto simp: info_at_def om_at_def info_init_def shut_out_def list_all_iff dest!: om_find_mem split: option.split)
  then have "list_all (\<lambda>e. mi_player (snd e) \<noteq> p) (ch_players (on_info g f c))"
    using assms(1) by (auto simp: on_info_def shut_out_def intro!: all_om_put)
  then show ?thesis using assms by (simp add: shut_out_def)
qed

lemma shut_erase: "shut_out p c \<Longrightarrow> shut_out p (erase_player g c)"
  by (simp add: shut_out_def IsBanned_def) (simp add: erase_player_def all_om_erase)

lemma shut_add: "shut_out p c \<Longrightarrow> g \<noteq> p \<Longrightarrow> shut_out p (add_player g c)"
  by (simp add: shut_out_def IsBanned_def) (simp add: add_player_def all_om_put)

lemma shut_ban: "shut_out p c \<Longrightarrow> shut_out p (c\<lparr>ch_banned := os_insert g (ch_banned c)\<rparr>)"
  "shut_out p c \<Longrightarrow> g \<noteq> p \<Longrightarrow> shut_out p (c\<lparr>ch_banned := os_erase g (ch_banned c)\<rparr>)"
  by (simp_all add: shut_out_def IsOn_def IsBanned_def)

lemma shut_on: "shut_out p c \<Longrightarrow> IsOn g c \<Longrightarrow> g \<noteq> p"
  by (auto simp: shut_out_def)

lemma shut_PutOwner: "shut_out p c \<Longrightarrow> g \<noteq> p \<Longrightarrow> p \<noteq> 0 \<Longrightarrow> shut_out p (PutOwner w g ex c)"
  by (auto simp: PutOwner_def Let_def intro!: shut_info dest: shut_on)

lemma shut_hand_over: "shut_out p c \<Longrightarrow> g \<noteq> p \<Longrightarrow> p \<noteq> 0 \<Longrightarrow> shut_out p (hand_over w g c)"
  by (simp add: hand_over_def shut_PutOwner shut_info)

lemma shut_modes: "shut_out p c \<Longrightarrow> g \<noteq> p \<Longrightarrow> p \<noteq> 0 \<Longrightarrow> shut_out p (PutModerator w g on c)"
  "shut_out p c \<Longrightarrow> g \<noteq> p \<Longrightarrow> p \<noteq> 0 \<Longrightarrow> shut_out p (PutMute w g on c)"
  by (auto simp: PutModerator_def PutMute_def intro!: shut_info)

lemma shut_first: "shut_out p c \<Longrightarrow> ch_players c \<noteq> [] \<Longrightarrow> first_player c \<noteq> p"
  by (cases "ch_players c") (auto simp: shut_out_def first_player_def)

lemma shut_enter:
  assumes "shut_out p c" "g \<noteq> p" "p \<noteq> 0"
  shows "shut_out p (enter_channel w g c)"
proof -
  have "shut_out p (entered w g c)" using assms shut_cong [OF inner_entered] by (simp add: shut_add)
  then show ?thesis using assms(2,3) by (simp add: enter_entered Let_def shut_PutOwner shut_info)
qed

lemma shut_after_leave:
  assumes "shut_out p c" "p \<noteq> 0"
  shows "shut_out p (after_leave w g b c)"
proof -
  define c3 where "c3 = (if announces w g c then NotifyAll w (CHAT_LEFT_NOTICE g) c else c)"
  define c4 where "c4 = LeaveNotify w g (cfx [IrcRelay (ch_name c3) g False] c3)"
  define c5 where "c5 = UpdateChannelUseageInDB c4"
  have s4: "shut_out p c4" and s5: "shut_out p c5" using assms by (simp_all add: c5_def c4_def c3_def)
  have "after_leave w g b c = (if IsConstant c4 then c4
      else if b \<and> ch_ownership c5 \<and> ch_players c5 \<noteq> [] then hand_over w (first_player c5) c5 else c5)"
    by (simp only: after_leave_def Let_def c5_def c4_def c3_def)
  then show ?thesis using s4 s5 assms(2) by (simp add: shut_hand_over shut_first)
qed

lemma shut_LeaveChannel:
  assumes "shut_out p c" "p \<noteq> 0"
  shows "shut_out p (LeaveChannel w g snd_packets c)"
proof (cases "IsOn g c")
  case True
  show ?thesis unfolding LeaveChannel_after [OF True] Let_def
    by (intro shut_after_leave shut_erase) (use assms in simp_all)
qed (use assms in \<open>simp add: LeaveChannel_def\<close>)

lemma shut_throw_out:
  assumes "shut_out p c" "p \<noteq> 0" "good \<noteq> p"
  shows "shut_out p (throw_out w good victim ban c)"
proof -
  define c1 where "c1 = (if ban \<and> \<not> IsBanned victim c
                then let c0 = UpdateChannelInDB (c\<lparr>ch_banned := os_insert victim (ch_banned c)\<rparr>)
                     in if cw_silent w good then c0 else NotifyAll w (CHAT_PLAYER_BANNED_NOTICE victim good) c0
                else if cw_silent w good then c else NotifyAll w (CHAT_PLAYER_KICKED_NOTICE victim good) c)"
  define c2 where "c2 = PlayerLeftChannel victim (erase_player victim c1)"
  have s1: "shut_out p c1" using assms(1) by (simp add: c1_def Let_def shut_ban)
  then have s2: "shut_out p c2" by (simp add: c2_def shut_erase)
  have "throw_out w good victim ban c = (if ch_owner c = victim \<and> ch_ownership c2 \<and> ch_players c2 \<noteq> [] then hand_over w good c2 else c2)"
    by (simp only: throw_out_def Let_def c2_def c1_def)
  then show ?thesis using s2 assms(2,3) by (simp add: shut_hand_over)
qed

lemma shut_member: "member_named w name c = Some h \<Longrightarrow> shut_out p c \<Longrightarrow> h \<noteq> p"
  by (auto dest: member_named_on shut_on)

fun unbans :: "chat_world \<Rightarrow> guid \<Rightarrow> channel_op \<Rightarrow> bool" where
  "unbans w p (OpUnBan g name) \<longleftrightarrow> cw_byName w name = Some p"
| "unbans w p _ \<longleftrightarrow> False"

lemma shut_step:
  assumes "shut_out p c" "p \<noteq> 0" "\<not> unbans w p op"
  shows "shut_out p (channel_step w op c)"
proof (cases op)
  case (OpJoin g pass)
  have "join_refusal w g pass c \<noteq> None" if "g = p" using that assms(1) by (simp add: join_refusal_def shut_out_def)
  then show ?thesis using OpJoin assms
    by (cases "g = p") (auto simp: JoinChannel_def shut_enter split: option.split)
next
  case (OpKickOrBan g name ban)
  show ?thesis using OpKickOrBan assms
    by (auto simp: KickOrBan_def dest: rank_refusal_on shut_on intro!: shut_throw_out split: option.split)
next
  case (OpSetMode g name m on) then show ?thesis using assms
    by (auto simp: SetMode_def intro!: shut_modes dest: shut_member split: option.split)
next
  case (OpSetOwner g name) then show ?thesis using assms
    by (auto simp: ChannelSetOwner_def intro!: shut_hand_over dest: shut_member split: option.split)
next
  case (OpUnBan g name)
  then show ?thesis using assms
    by (auto simp: UnBan_def intro!: shut_ban(2) split: option.split)
qed (use assms in \<open>simp_all add: CleanupChannel_def shut_LeaveChannel ChannelPassword_def ChannelAnnounce_def
      SendWhoOwner_def ChannelList_def Say_def ChannelInvite_def Let_def split: option.split\<close>)


interpretation shut: channel_invariant w "shut_out p" "\<lambda>op c. p \<noteq> 0 \<and> \<not> unbans w p op" for w p
  by unfold_locales (simp add: shut_step)

section \<open>Reading the ban list back\<close>

lemma tokenize_word: "sep \<notin> set t \<Longrightarrow> tokenize sep acc (t @ sep # s) = (acc @ t) # tokenize sep [] s"
  by (induction t arbitrary: acc) auto

lemma dec_digits: "ch \<in> set (dec n) \<Longrightarrow> is_digit ch"
proof (induction n arbitrary: ch rule: dec.induct)
  case (1 n)
  have d: "is_digit (char_of (48 + k))" if "k < 10" for k :: nat using that by (simp add: is_digit_def)
  show ?case using 1 by (subst (asm) (2) dec.simps) (auto simp: d split: if_splits)
qed

lemma digit_plain: "is_digit ch \<Longrightarrow> \<not> is_space ch \<and> ch \<noteq> CHR '' '' \<and> ch \<noteq> CHR ''-'' \<and> ch \<noteq> CHR ''+''"
  by (auto simp: is_digit_def is_space_def)

lemma strtoull_guid: "strtoull (guid_str g) = g"
proof -
  have d: "\<And>ch. ch \<in> set (guid_str g) \<Longrightarrow> is_digit ch" by (simp add: guid_str_def dec_digits)
  have ne: "guid_str g \<noteq> []" by simp
  have h: "is_digit (hd (guid_str g))" using d ne by simp
  have "dropWhile is_space (guid_str g) = guid_str g"
    using h digit_plain by (cases "guid_str g") auto
  moreover have "takeWhile is_digit (guid_str g) = guid_str g" using d by (simp add: takeWhile_eq_all_conv)
  moreover have "unat g < 2 ^ LENGTH(64)" by (rule unsigned_less)
  then have "min (unat g) (2 ^ 64 - 1) = unat g" by (simp add: min_def)
  moreover have "digits_value (guid_str g) = unat g" by (simp add: guid_str_def)
  ultimately have "strtoull (guid_str g) = of_nat (unat g)" using digit_plain [OF h] by (simp add: strtoull_def Let_def del: of_nat_unat takeWhile_eq_all_conv)
  then show ?thesis by simp
qed

lemma tokenize_banlist: "tokenize CHR '' '' [] (banlist_string bs) = map guid_str bs"
proof (induction bs)
  case (Cons g bs)
  have "CHR '' '' \<notin> set (guid_str g)" using dec_digits digit_plain by (auto simp: guid_str_def)
  then show ?case using Cons tokenize_word [of "CHR '' ''" "guid_str g" "[]" "banlist_string bs"]
    by (simp add: banlist_string_def)
qed (simp add: banlist_string_def)

lemma os_insert_last: "list_all (\<lambda>x. x < k) s \<Longrightarrow> os_insert k s = s @ [k]"
  by (induction k s rule: os_insert.induct) auto

lemma fold_insert_sorted: "os_ok (acc @ bs) \<Longrightarrow> fold os_insert bs acc = acc @ bs"
proof (induction bs arbitrary: acc)
  case (Cons b bs)
  then have "os_insert b acc = acc @ [b]" by (intro os_insert_last) (auto simp: list_all_iff sorted_wrt_append)
  then show ?case using Cons by simp
qed simp

lemma read_banlist_inverse:
  assumes "os_ok bs" "0 \<notin> set bs"
  shows "read_banlist (banlist_string bs) = bs"
proof -
  have "fold (\<lambda>t acc. if strtoull t \<noteq> 0 then os_insert (strtoull t) acc else acc) (map guid_str bs) acc = fold os_insert bs acc" for acc
    using assms(2) by (induction bs arbitrary: acc) (simp_all add: strtoull_guid)
  then show ?thesis using fold_insert_sorted [of "[]" bs] assms(1) by (simp add: read_banlist_def tokenize_banlist)
qed


section \<open>Who comes in\<close>

lemma inner_on_info: "inner c' = inner c \<Longrightarrow> inner (on_info g f c') = inner (on_info g f c)"
  using inner_fields(1) [of c' c] sent_on(3) [of c' c g] by (cases c, cases c') (simp add: on_info_def inner_def)

lemma inner_owner: "inner c' = inner c \<Longrightarrow> inner (c'\<lparr>ch_owner := g\<rparr>) = inner (c\<lparr>ch_owner := g\<rparr>)"
  by (cases c, cases c') (simp add: inner_def)

lemma inner_PutOwner_first:
  assumes "ch_owner c = 0" "g \<noteq> 0"
  shows "inner (PutOwner w g ex c) =
    inner (on_info g (set_bits CHANNEL_MEMBER_OWNER True) (on_info g (set_bits CHANNEL_MEMBER_MODERATOR True) (c\<lparr>ch_owner := g\<rparr>)))"
  using assms by (simp add: PutOwner_def Let_def)

lemma founder_flags: "set_bits CHANNEL_MEMBER_MODERATOR True (set_bits CHANNEL_MEMBER_OWNER True (set_bits CHANNEL_MEMBER_MODERATOR True 0))
    = CHANNEL_MEMBER_OWNER OR CHANNEL_MEMBER_MODERATOR"
  by (simp add: set_bits_def)

lemma enter_inner:
  assumes "g \<noteq> 0" "om_ok (ch_players c)" "\<not> IsOn g c"
  shows "inner (enter_channel w g c) =
    (let founder = (\<not> IsConstant c \<and> ch_owner c = 0 \<and> ch_ownership c);
         rank = (if founder then CHANNEL_MEMBER_OWNER OR CHANNEL_MEMBER_MODERATOR else 0)
     in inner (c\<lparr>ch_players := om_put g \<lparr>mi_player = g, mi_flags = rank\<rparr> (ch_players c), ch_joined := ch_joined c @ [g],
                 ch_owner := if founder then g else ch_owner c\<rparr>))"
proof -
  define d where "d = add_player g (PlayerJoinedChannel g c)"
  note i = inner_entered [of w g c, folded d_def]
  have d: "IsConstant d = IsConstant c" "ch_owner d = ch_owner c" "ch_ownership d = ch_ownership c"
    by (simp_all add: d_def add_player_def PlayerJoinedChannel_def IsConstant_def)
  have const: "IsConstant (entered w g c) = IsConstant d" using inner_fields(6) [OF i] by (simp add: IsConstant_def)
  define c6 where "c6 = (if ch_players (entered w g c) \<noteq> [] then UpdateChannelUseageInDB (entered w g c) else entered w g c)"
  have i6: "inner c6 = inner d" using i by (simp add: c6_def)
  show ?thesis
  proof (cases "\<not> IsConstant c \<and> ch_owner c = 0 \<and> ch_ownership c")
    case True
    have o6: "ch_owner c6 = 0" "ch_ownership c6" using inner_fields(2,5) [OF i6] d True by simp_all
    have "enter_channel w g c = on_info g (set_bits CHANNEL_MEMBER_MODERATOR True) (PutOwner w g (length (ch_players c6) > 1) c6)"
      using True const d o6 by (simp add: enter_entered Let_def flip: c6_def)
    then have "inner (enter_channel w g c) = inner (on_info g (set_bits CHANNEL_MEMBER_MODERATOR True)
        (on_info g (set_bits CHANNEL_MEMBER_OWNER True) (on_info g (set_bits CHANNEL_MEMBER_MODERATOR True) (d\<lparr>ch_owner := g\<rparr>))))"
      using inner_on_info inner_PutOwner_first [OF o6(1) assms(1)] inner_owner [OF i6] by metis
    then show ?thesis using True assms founder_flags
      by (simp add: Let_def d_def on_info_def info_at_def om_at_def add_player_def PlayerJoinedChannel_def inner_def)
  next
    case False
    then have "inner (enter_channel w g c) = inner d"
      using i i6 const d inner_fields(2,5) [OF i6] by (auto simp: enter_entered Let_def simp flip: c6_def)
    then show ?thesis using False by (cases c) (auto simp: Let_def d_def add_player_def PlayerJoinedChannel_def inner_def)
  qed
qed

section \<open>An owner who kicks himself\<close>

lemma mi_player_on_info [simp]: "mi_player (info_at h (on_info g f c)) = mi_player (info_at h c)"
  by (simp add: info_at_def on_info_def om_at_def split: option.split)

lemma mi_player_plain [simp]: "info_at h (c\<lparr>ch_owner := g\<rparr>) = info_at h c" "info_at h (PlayerLeftChannel g c) = info_at h c"
  "info_at g (erase_player g c) = info_init"
  by (simp_all add: info_at_def PlayerLeftChannel_def erase_player_def om_at_def)

lemma mi_player_PutOwner [simp]: "mi_player (info_at h (PutOwner w g ex c)) = mi_player (info_at h c)"
  by (simp add: PutOwner_def Let_def)

lemma throw_out_self:
  assumes "ch_owner c = g" "ch_ownership c" "om_erase g (ch_players c) \<noteq> []"
  shows "IsOn g (throw_out w g g ban c)" "g \<notin> set (ch_joined (throw_out w g g ban c))"
    "mi_player (info_at g (throw_out w g g ban c)) = 0" "ch_owner (throw_out w g g ban c) = g"
proof -
  define c1 where "c1 = (if ban \<and> \<not> IsBanned g c
                then let c0 = UpdateChannelInDB (c\<lparr>ch_banned := os_insert g (ch_banned c)\<rparr>)
                     in if cw_silent w g then c0 else NotifyAll w (CHAT_PLAYER_BANNED_NOTICE g g) c0
                else if cw_silent w g then c else NotifyAll w (CHAT_PLAYER_KICKED_NOTICE g g) c)"
  define c2 where "c2 = PlayerLeftChannel g (erase_player g c1)"
  have "ch_players c1 = ch_players c \<and> ch_ownership c1 = ch_ownership c" by (simp add: c1_def Let_def)
  then have c2: "ch_ownership c2" "ch_players c2 \<noteq> []" using assms by (simp_all add: c2_def PlayerLeftChannel_def erase_player_def)
  have "throw_out w g g ban c = (if ch_owner c = g \<and> ch_ownership c2 \<and> ch_players c2 \<noteq> [] then hand_over w g c2 else c2)"
    by (simp only: throw_out_def Let_def c2_def c1_def)
  then have t: "throw_out w g g ban c = hand_over w g c2" using assms(1) c2 by simp
  show "IsOn g (throw_out w g g ban c)" "ch_owner (throw_out w g g ban c) = g" by (simp_all add: t hand_over_def)
  have "g \<notin> set (ch_joined c2)" by (simp add: c2_def PlayerLeftChannel_def)
  then show "g \<notin> set (ch_joined (throw_out w g g ban c))" by (simp add: t hand_over_def)
  have "mi_player (info_at g c2) = 0" by (simp add: c2_def info_init_def)
  then show "mi_player (info_at g (throw_out w g g ban c)) = 0" by (simp add: t hand_over_def)
qed

section \<open>Sample\<close>

text \<open>Players \<open>1\<close> to \<open>9\<close> are connected and named by a digit; all of one team, no special permissions.\<close>

definition sample_chat :: chat_world where
  "sample_chat = \<lparr>cw_connected = (\<lambda>g. 0 < g \<and> g < 10),
     cw_byName = (\<lambda>s. if s = ''1'' then Some 1 else if s = ''2'' then Some 2 else if s = ''3'' then Some 3 else None),
     cw_name = (\<lambda>g. if g = 1 then ''1'' else if g = 2 then ''2'' else ''3''), cw_dbName = (\<lambda>g. None), cw_team = (\<lambda>g. 469),
     cw_silent = (\<lambda>g. False), cw_overrides = (\<lambda>g. False), cw_twoSide = (\<lambda>g. False), cw_seesAll = (\<lambda>g. False),
     cw_playerAccount = (\<lambda>g. True), cw_security = (\<lambda>g. 0), cw_visible = (\<lambda>g h. True), cw_gmVisible = (\<lambda>g. True),
     cw_grouped = (\<lambda>g. False), cw_ignores = (\<lambda>g h. False), cw_restrictedLfg = False, cw_preserve = False,
     cw_crossFaction = False, cw_whoLevel = 0, cw_builtin = (\<lambda>i. None), cw_row = (\<lambda>s t. None), cw_lower = Some,
     cw_normalize = (\<lambda>s. (True, s)), cw_zoneAllows = (\<lambda>i g. True)\<rparr>"

definition sample_channel :: channel where
  "sample_channel = run_channel sample_chat [OpJoin 1 [], OpJoin 2 [], OpJoin 3 []] (Channel_init sample_chat ''trade'' 0 469)"

section \<open>Claims\<close>

text \<open>C5: A channel starts well formed, and every sequence of operations by players keeps it so, as long
  as no owner kicks or bans himself: the entries are in order and name their players, only the owner
  is marked as owner, and the channel is in the list of exactly those players who are in it.\<close>

theorem channels_well_formed:
  assumes "allowed_along (by_player w) w ops (Channel_init w name i team)"
  shows "channel_ok (run_channel w ops (Channel_init w name i team))"
proof -
  have "os_ok (fold (\<lambda>t bs. if strtoull t \<noteq> 0 then os_insert (strtoull t) bs else bs) ts bs)" if "os_ok bs" for ts bs
    using that by (induction ts arbitrary: bs) simp_all
  then have "os_ok (read_banlist s)" for s by (simp add: read_banlist_def)
  then have "channel_ok (Channel_init w name i team)"
    by (simp add: Channel_init_def Let_def channel_ok_def owned_by_def cfx_def split: option.split)
  then show ?thesis using assms by (rule well_formed.run)
qed

lemma channels_well_formed_witness:
  "channel_ok (run_channel sample_chat [OpJoin 1 [], OpJoin 2 [], OpKickOrBan 1 ''2'' True, OpJoin 3 [], OpLeave 1]
     (Channel_init sample_chat ''trade'' 0 469))"
proof -
  let ?ops = "[OpJoin 1 [], OpJoin 2 [], OpKickOrBan 1 ''2'' True, OpJoin 3 [], OpLeave 1]"
  have h: "allowed_along (by_player sample_chat) sample_chat ?ops (Channel_init sample_chat ''trade'' 0 469)" by code_simp
  show ?thesis by (rule channels_well_formed [OF h])
qed

text \<open>C9: A player who is banned and out of the channel stays out and stays banned, whatever anyone does,
  until someone takes the ban back.\<close>

theorem banned_stays_out:
  assumes "channel_ok c" "IsBanned p c" "\<not> IsOn p c" "p \<noteq> 0" "list_all (\<lambda>op. \<not> unbans w p op) ops"
  shows "IsBanned p (run_channel w ops c) \<and> \<not> IsOn p (run_channel w ops c)"
proof -
  have "shut_out p (run_channel w ops d)" if "shut_out p d" for d
    using that assms(4,5) by (intro shut.run_always) (simp_all add: list_all_iff)
  moreover have "shut_out p c"
    using assms(1-3) by (auto simp: shut_out_def channel_ok_def owned_by_def list_all_iff member_ok_def IsOn_keys om_keys_def)
  ultimately show ?thesis by (auto simp: shut_out_def)
qed

lemma banned_stays_out_witness:
  "let c = run_channel sample_chat [OpKickOrBan 1 ''2'' True] sample_channel
   in \<not> IsOn 2 (run_channel sample_chat [OpJoin 2 [], OpSetOwner 1 ''2'', OpLeave 1, OpJoin 2 []] c)"
proof -
  let ?c = "run_channel sample_chat [OpKickOrBan 1 ''2'' True] sample_channel"
  let ?ops = "[OpJoin 2 [], OpSetOwner 1 ''2'', OpLeave 1, OpJoin 2 []]"
  have h: "channel_ok ?c" "IsBanned 2 ?c" "\<not> IsOn 2 ?c" "(2 :: guid) \<noteq> 0" "list_all (\<lambda>op. \<not> unbans sample_chat 2 op) ?ops"
    by code_simp+
  show ?thesis using banned_stays_out [OF h] by (simp add: Let_def)
qed

text \<open>C11: A player who is not in the channel changes nothing of it except by joining, and one who is in it
  without being owner, moderator or game master nothing but by leaving: he is answered, or heard,
  and that is all.\<close>

theorem channel_rank_needed:
  assumes "\<not> IsModerator g c" "\<not> cw_overrides w g" "g \<noteq> ch_owner c" "op_actor op = g"
    "op \<notin> {OpLeave g, OpLogout g} \<or> \<not> IsOn g c \<and> g \<notin> set (ch_joined c)" "\<And>pass. op \<noteq> OpJoin g pass"
  shows "inner (channel_step w op c) = inner c"
proof -
  have r: "rank_refusal w g c \<noteq> None" using assms(1,2) by (simp add: rank_refusal_def)
  have gone: "c\<lparr>ch_joined := remove1 g (ch_joined c)\<rparr> = c" if "g \<notin> set (ch_joined c)" using that by (simp add: remove1_idem)
  show ?thesis
    by (cases op) (use assms r in \<open>auto simp: KickOrBan_def UnBan_def ChannelPassword_def ChannelAnnounce_def SetMode_def
      ChannelSetOwner_def SendWhoOwner_def ChannelList_def Say_def ChannelInvite_def LeaveChannel_def CleanupChannel_def gone Let_def
      split: option.split\<close>)
qed

lemma channel_rank_needed_witness:
  "inner (channel_step sample_chat (OpKickOrBan 2 ''3'' True) sample_channel) = inner sample_channel"
proof -
  let ?op = "OpKickOrBan 2 ''3'' True"
  have h: "\<not> IsModerator 2 sample_channel" "\<not> cw_overrides sample_chat 2" "2 \<noteq> ch_owner sample_channel" "op_actor ?op = 2" by code_simp+
  show ?thesis by (rule channel_rank_needed [OF h]) simp_all
qed

text \<open>C18: Joining: a player who is not on the channel and is not refused gets an entry of his own, and the channel into his
  list; he becomes owner and moderator when the channel hands out ownership and has no owner, and has
  no rank otherwise.  Nothing else of the channel changes.\<close>

theorem join_outcome:
  assumes "\<not> IsOn g c" "join_refusal w g pass c = None" "g \<noteq> 0" "om_ok (ch_players c)"
  shows "let founder = (\<not> IsConstant c \<and> ch_owner c = 0 \<and> ch_ownership c);
             rank = (if founder then CHANNEL_MEMBER_OWNER OR CHANNEL_MEMBER_MODERATOR else 0)
         in inner (JoinChannel w g pass c) =
            inner (c\<lparr>ch_players := om_put g \<lparr>mi_player = g, mi_flags = rank\<rparr> (ch_players c), ch_joined := ch_joined c @ [g],
                     ch_owner := if founder then g else ch_owner c\<rparr>)"
  using assms by (simp add: JoinChannel_def enter_inner)

lemma join_outcome_witness:
  "inner (JoinChannel sample_chat 4 [] sample_channel) =
   inner (sample_channel\<lparr>ch_players := om_put 4 \<lparr>mi_player = 4, mi_flags = 0\<rparr> (ch_players sample_channel), ch_joined := [1, 2, 3, 4]\<rparr>)"
proof -
  have h: "\<not> IsOn 4 sample_channel" "join_refusal sample_chat 4 [] sample_channel = None" "(4 :: guid) \<noteq> 0"
    "om_ok (ch_players sample_channel)" by code_simp+
  have f: "ch_joined sample_channel = [1, 2, 3]" "ch_owner sample_channel = 1" by code_simp+
  have u: "sample_channel\<lparr>ch_owner := 1\<rparr> = sample_channel" using f(2) by (cases sample_channel) simp
  show ?thesis using join_outcome [OF h] f by (simp add: Let_def inner_def)
qed

text \<open>C19: What the channel writes into the database of its bans is read back: the list of banned guids, in order.\<close>

theorem banlist_roundtrip:
  assumes "channel_ok c" "0 \<notin> set (ch_banned c)"
  shows "read_banlist (banlist_string (ch_banned c)) = ch_banned c"
  using assms by (simp add: read_banlist_inverse channel_ok_def owned_by_def)

lemma banlist_roundtrip_witness:
  "let c = run_channel sample_chat [OpKickOrBan 1 ''2'' True, OpKickOrBan 1 ''3'' True] sample_channel
   in read_banlist (banlist_string (ch_banned c)) = ch_banned c \<and> ch_banned c = [2, 3]"
proof -
  let ?c = "run_channel sample_chat [OpKickOrBan 1 ''2'' True, OpKickOrBan 1 ''3'' True] sample_channel"
  have h: "channel_ok ?c" "0 \<notin> set (ch_banned ?c)" by code_simp+
  have b: "ch_banned ?c = [2, 3]" by code_simp
  show ?thesis unfolding Let_def using banlist_roundtrip [OF h] b by simp
qed

text \<open>C28: An owner who kicks or bans himself while others are in the channel is not out of it: he is put
  back as owner, under an entry with the empty guid, although the channel is gone from his own list.\<close>

theorem owner_kicks_himself:
  assumes "ch_owner c = g" "IsOn g c" "IsModerator g c" "cw_byName w name = Some g" "g \<noteq> 0" "ch_ownership c"
    "om_erase g (ch_players c) \<noteq> []"
  shows "let c' = KickOrBan w g name ban c
         in IsOn g c' \<and> ch_owner c' = g \<and> mi_player (info_at g c') = 0 \<and> g \<notin> set (ch_joined c') \<and> \<not> channel_ok c'"
proof -
  have k: "KickOrBan w g name ban c = throw_out w g g ban c"
    using assms by (simp add: KickOrBan_def rank_refusal_def member_named_def)
  let ?c = "throw_out w g g ban c"
  note t = throw_out_self [OF assms(1,6,7), of w ban]
  have "\<not> channel_ok ?c" using t(1,2) by (auto simp: channel_ok_def owned_by_def IsOn_keys)
  then show ?thesis using t by (simp add: k Let_def)
qed

lemma owner_kicks_himself_witness:
  "let c' = KickOrBan sample_chat 1 ''1'' False sample_channel in IsOn 1 c' \<and> \<not> channel_ok c'"
proof -
  have h: "ch_owner sample_channel = 1" "IsOn 1 sample_channel" "IsModerator 1 sample_channel" "cw_byName sample_chat ''1'' = Some 1"
    "(1 :: guid) \<noteq> 0" "ch_ownership sample_channel" "om_erase 1 (ch_players sample_channel) \<noteq> []" by code_simp+
  show ?thesis using owner_kicks_himself [OF h, of False] by (simp add: Let_def)
qed

end
