(* ===== verification/BgQueue.thy ===== *)
theory BgQueue
  imports ObjectGuid
begin

text \<open>
  The queue of the battlegrounds and arenas, \<^verbatim>\<open>src/src/server/game/Battlegrounds/BattlegroundQueue.cpp\<close>
  and \<^verbatim>\<open>.h\<close>, with the part of \<^verbatim>\<open>Battleground.cpp\<close> it works on: the counters of invited players and the
  free slots.  One record is the state of one queue.  A group in the queue (\<^verbatim>\<open>GroupQueueInfo\<close>) is an
  object that lists, players and selection pools share by pointer; \<open>bq_infos\<close> is the memory of these objects.
  The time, settings and templates are the record \<open>bg_world\<close>; packets, statements and calls into
  players and arena teams are appended to \<open>bq_fx\<close>.
\<close>

section \<open>Constants\<close>

abbreviation TEAM_OF_HORDE :: uint32 where "TEAM_OF_HORDE \<equiv> 67"
abbreviation TEAM_OF_ALLIANCE :: uint32 where "TEAM_OF_ALLIANCE \<equiv> 469"
abbreviation MAX_BRACKETS :: nat where "MAX_BRACKETS \<equiv> 16"
abbreviation BG_PREMADE :: nat where "BG_PREMADE \<equiv> 0"
abbreviation BG_NORMAL :: nat where "BG_NORMAL \<equiv> 2"
abbreviation WAITS_AVERAGED :: nat where "WAITS_AVERAGED \<equiv> 10"
abbreviation INVITATION_REMIND_TIME :: uint32 where "INVITATION_REMIND_TIME \<equiv> 20000"
abbreviation INVITE_ACCEPT_WAIT_TIME :: uint32 where "INVITE_ACCEPT_WAIT_TIME \<equiv> 60000"
abbreviation PLAYER_MAX_BATTLEGROUND_QUEUES :: uint32 where "PLAYER_MAX_BATTLEGROUND_QUEUES \<equiv> 2"

abbreviation BG_STATUS_NONE :: uint8 where "BG_STATUS_NONE \<equiv> 0"
abbreviation BG_STATUS_WAIT_QUEUE :: uint8 where "BG_STATUS_WAIT_QUEUE \<equiv> 1"
abbreviation BG_STATUS_WAIT_JOIN :: uint8 where "BG_STATUS_WAIT_JOIN \<equiv> 2"
abbreviation BG_STATUS_IN_PROGRESS :: uint8 where "BG_STATUS_IN_PROGRESS \<equiv> 3"
abbreviation BG_STATUS_WAIT_LEAVE :: uint8 where "BG_STATUS_WAIT_LEAVE \<equiv> 4"

datatype bg_invitation = NO_BALANCE | BALANCED | EVEN

text \<open>\<^verbatim>\<open>BattlegroundMgr::BGQueueTypeId\<close>\<close>

definition BGQueueTypeId :: "uint32 \<Rightarrow> uint8 \<Rightarrow> uint32" where
  "BGQueueTypeId t arena =
     (if t = 3 then 3 else if t = 1 then 1 else if t = 7 then 4 else if t = 30 then 6 else if t = 32 then 7
      else if t = 9 then 5 else if t = 2 then 2
      else if t = 6 \<or> t = 5 \<or> t = 10 \<or> t = 4 \<or> t = 8 \<or> t = 11
      then (if arena = 2 then 8 else if arena = 3 then 9 else if arena = 5 then 10 else 0)
      else 0)"

section \<open>State\<close>

text \<open>\<^verbatim>\<open>GroupQueueInfo\<close>; of the map of players the code only reads the guids, in ascending order.\<close>

record bg_info =
  gi_players :: "guid list"
  gi_team :: uint32
  gi_type :: uint32
  gi_rated :: bool
  gi_arenaType :: uint8
  gi_arenaTeam :: uint32
  gi_joinTime :: uint32
  gi_removeInvite :: uint32
  gi_invited :: uint32
  gi_teamRating :: uint32
  gi_mmr :: uint32
  gi_oppRating :: uint32
  gi_oppMmr :: uint32

definition bg_info_init :: bg_info where
  "bg_info_init = \<lparr>gi_players = [], gi_team = 0, gi_type = 0, gi_rated = False, gi_arenaType = 0, gi_arenaTeam = 0,
     gi_joinTime = 0, gi_removeInvite = 0, gi_invited = 0, gi_teamRating = 0, gi_mmr = 0, gi_oppRating = 0, gi_oppMmr = 0\<rparr>"

text \<open>What the queue reads and writes of a \<^verbatim>\<open>Battleground\<close>.\<close>

record battleground =
  bt_id :: uint32
  bt_type :: uint32
  bt_bracket :: nat
  bt_arenaType :: uint8
  bt_arena :: bool
  bt_rated :: bool
  bt_status :: uint8
  bt_minTeam :: uint32
  bt_maxTeam :: uint32
  bt_maxAll :: uint32
  bt_size :: uint32
  bt_inAlliance :: uint32
  bt_inHorde :: uint32
  bt_invAlliance :: uint32
  bt_invHorde :: uint32
  bt_inFree :: bool

record sel_pool =
  sp_groups :: "nat list"
  sp_count :: uint32

datatype bg_event =
    BGQueueInviteEvent guid uint32 uint32 uint8 uint32
  | BGQueueRemoveEvent guid uint32 uint32 uint32 uint32

datatype bg_fx =
    ArenaAnnounce bool uint32 uint8 uint32
  | QueueAnnounce "guid option" uint32 uint32 uint32 uint32
  | StatusPacket guid "uint32 option" uint32 uint8 uint32 uint8
  | SetQueueInvite guid uint32 uint32
  | DropQueueId guid uint32
  | ArenaMemberLost bool uint32 guid uint32
  | ArenaTeamSaved uint32
  | ArenaTeamIdFor uint32 uint32 uint32
  | ArenaMmrFor uint32 uint32 uint32
  | BgStarted uint32
  | CHAR_INS_DESERTER_TRACK uint32
  | ScheduleUpdate uint32 uint8 uint32 uint32 nat

record bg_queue =
  bq_players :: "(guid, uint32 \<times> nat) stdmap"
  bq_infos :: "(nat, bg_info) stdmap"
  bq_next :: nat
  bq_lists :: "nat \<Rightarrow> nat \<Rightarrow> nat list"
  bq_pools :: "nat \<Rightarrow> sel_pool"
  bq_waits :: "nat \<Rightarrow> nat \<Rightarrow> uint32 list"
  bq_last :: "nat \<Rightarrow> nat \<Rightarrow> uint32"
  bq_sum :: "nat \<Rightarrow> nat \<Rightarrow> uint32"
  bq_now :: uint64
  bq_events :: "(uint64 \<times> bg_event) list"
  bq_bgs :: "(uint32, battleground) stdmap"
  bq_free :: "uint32 list"
  bq_created :: nat
  bq_fx :: "bg_fx list"

record bg_template =
  tp_arena :: bool
  tp_min :: uint32
  tp_max :: uint32

record bg_world =
  bw_time :: uint32
  bw_connected :: "guid \<Rightarrow> bool"
  bw_queueSlot :: "guid \<Rightarrow> uint32 \<Rightarrow> uint32"
  bw_invitation :: bg_invitation
  bw_template :: "uint32 \<Rightarrow> bg_template option"
  bw_bracketKnown :: "uint32 \<Rightarrow> nat \<Rightarrow> bool"
  bw_create :: "uint32 \<Rightarrow> nat \<Rightarrow> uint8 \<Rightarrow> bool \<Rightarrow> nat \<Rightarrow> battleground option"
  bw_arenaTeamSize :: "uint32 \<Rightarrow> uint8 option"
  bw_testing :: bool
  bw_arenaTesting :: bool
  bw_premadeWait :: uint32
  bw_maxRatingDiff :: uint32
  bw_discardTimer :: uint32
  bw_deserters :: bool
  bw_announceArena :: bool
  bw_announce1v1 :: bool
  bw_announceQueue :: bool
  bw_announceSelf :: bool

definition bfx :: "bg_fx list \<Rightarrow> bg_queue \<Rightarrow> bg_queue" where
  "bfx es q = q\<lparr>bq_fx := bq_fx q @ es\<rparr>"

definition info :: "nat \<Rightarrow> bg_queue \<Rightarrow> bg_info" where
  "info p q = om_at bg_info_init (bq_infos q) p"

definition on_ginfo :: "nat \<Rightarrow> (bg_info \<Rightarrow> bg_info) \<Rightarrow> bg_queue \<Rightarrow> bg_queue" where
  "on_ginfo p f q = q\<lparr>bq_infos := om_put p (f (info p q)) (bq_infos q)\<rparr>"

definition on_list :: "nat \<Rightarrow> nat \<Rightarrow> (nat list \<Rightarrow> nat list) \<Rightarrow> bg_queue \<Rightarrow> bg_queue" where
  "on_list b j f q = q\<lparr>bq_lists := (bq_lists q)(b := (bq_lists q b)(j := f (bq_lists q b j)))\<rparr>"

definition on_pool :: "nat \<Rightarrow> (sel_pool \<Rightarrow> sel_pool) \<Rightarrow> bg_queue \<Rightarrow> bg_queue" where
  "on_pool t f q = q\<lparr>bq_pools := (bq_pools q)(t := f (bq_pools q t))\<rparr>"

definition gsize :: "nat \<Rightarrow> bg_queue \<Rightarrow> nat" where
  "gsize p q = length (gi_players (info p q))"

definition bg_queue_init :: bg_queue where
  "bg_queue_init = \<lparr>bq_players = [], bq_infos = [], bq_next = 0, bq_lists = (\<lambda>b j. []),
     bq_pools = (\<lambda>t. \<lparr>sp_groups = [], sp_count = 0\<rparr>), bq_waits = (\<lambda>t b. replicate WAITS_AVERAGED 0),
     bq_last = (\<lambda>t b. 0), bq_sum = (\<lambda>t b. 0), bq_now = 0, bq_events = [], bq_bgs = [], bq_free = [], bq_created = 0, bq_fx = []\<rparr>"

section \<open>Battlegrounds\<close>

definition GetInvitedCount :: "uint32 \<Rightarrow> battleground \<Rightarrow> uint32" where
  "GetInvitedCount team bt = (if team = TEAM_OF_ALLIANCE then bt_invAlliance bt else bt_invHorde bt)"

definition IncreaseInvitedCount :: "uint32 \<Rightarrow> battleground \<Rightarrow> battleground" where
  "IncreaseInvitedCount team bt =
     (if team = TEAM_OF_ALLIANCE then bt\<lparr>bt_invAlliance := bt_invAlliance bt + 1\<rparr> else bt\<lparr>bt_invHorde := bt_invHorde bt + 1\<rparr>)"

definition DecreaseInvitedCount :: "uint32 \<Rightarrow> battleground \<Rightarrow> battleground" where
  "DecreaseInvitedCount team bt =
     (if team = TEAM_OF_ALLIANCE then bt\<lparr>bt_invAlliance := bt_invAlliance bt - 1\<rparr> else bt\<lparr>bt_invHorde := bt_invHorde bt - 1\<rparr>)"

definition players_of :: "uint32 \<Rightarrow> battleground \<Rightarrow> uint32" where
  "players_of team bt = (if team = TEAM_OF_ALLIANCE then bt_inAlliance bt else bt_inHorde bt)"

text \<open>How many more a team may get: by invitations, by size, and by those who have entered.\<close>

definition free_by_count :: "uint32 \<Rightarrow> uint32 \<Rightarrow> uint32" where
  "free_by_count this other = (if other = this then 1 else if other > this then other - this else 0)"

definition free_by_size :: "uint32 \<Rightarrow> battleground \<Rightarrow> uint32" where
  "free_by_size this bt = (if this < bt_maxTeam bt then bt_maxTeam bt - this else 0)"

definition GetFreeSlotsForTeam :: "bg_invitation \<Rightarrow> uint32 \<Rightarrow> battleground \<Rightarrow> uint32" where
  "GetFreeSlotsForTeam invt team bt =
     (if bt_status bt = BG_STATUS_WAIT_JOIN \<and> invt = NO_BALANCE then free_by_size (GetInvitedCount team bt) bt
      else let other = (if team = TEAM_OF_ALLIANCE then TEAM_OF_HORDE else TEAM_OF_ALLIANCE);
               this = (if team = TEAM_OF_ALLIANCE then TEAM_OF_ALLIANCE else TEAM_OF_HORDE);
               thisInvited = GetInvitedCount this bt;
               otherInvited = GetInvitedCount other bt;
               thisPlayers = players_of this bt;
               otherPlayers = players_of other bt
           in if bt_status bt = BG_STATUS_IN_PROGRESS \<or> bt_status bt = BG_STATUS_WAIT_JOIN
              then let diff = free_by_count thisInvited otherInvited;
                       diff2 = free_by_size thisInvited bt;
                       diff3 = (if otherPlayers = thisPlayers then 1
                                else if otherPlayers > thisPlayers then otherPlayers - thisPlayers
                                else if thisInvited \<le> bt_minTeam bt then bt_minTeam bt - thisInvited + 1 else 0)
                   in min (min diff diff2) diff3
              else 0)"

definition HasFreeSlots :: "battleground \<Rightarrow> bool" where
  "HasFreeSlots bt \<longleftrightarrow> bt_size bt < bt_maxAll bt"

text \<open>\<^verbatim>\<open>BattlegroundMgr::GetBattleground\<close> looks for the instance among those of the type; type \<open>0\<close> is any.\<close>

definition GetBattleground :: "uint32 \<Rightarrow> uint32 \<Rightarrow> bg_queue \<Rightarrow> battleground option" where
  "GetBattleground i t q =
     (if i = 0 then None
      else case om_find (bq_bgs q) i of None \<Rightarrow> None | Some bt \<Rightarrow> if t = 0 \<or> bt_type bt = t then Some bt else None)"

definition on_bg :: "uint32 \<Rightarrow> (battleground \<Rightarrow> battleground) \<Rightarrow> bg_queue \<Rightarrow> bg_queue" where
  "on_bg i f q = (case om_find (bq_bgs q) i of None \<Rightarrow> q | Some bt \<Rightarrow> q\<lparr>bq_bgs := om_put i (f bt) (bq_bgs q)\<rparr>)"

definition AddToBGFreeSlotQueue :: "uint32 \<Rightarrow> bg_queue \<Rightarrow> bg_queue" where
  "AddToBGFreeSlotQueue i q =
     (case om_find (bq_bgs q) i of None \<Rightarrow> q
      | Some bt \<Rightarrow> if \<not> bt_inFree bt \<and> \<not> bt_arena bt
                   then (on_bg i (\<lambda>bt. bt\<lparr>bt_inFree := True\<rparr>) q)\<lparr>bq_free := i # bq_free q\<rparr> else q)"

definition RemoveFromBGFreeSlotQueue :: "uint32 \<Rightarrow> bg_queue \<Rightarrow> bg_queue" where
  "RemoveFromBGFreeSlotQueue i q =
     (case om_find (bq_bgs q) i of None \<Rightarrow> q
      | Some bt \<Rightarrow> if bt_inFree bt
                   then (on_bg i (\<lambda>bt. bt\<lparr>bt_inFree := False\<rparr>) q)\<lparr>bq_free := remove1 i (bq_free q)\<rparr> else q)"

definition StartBattleground :: "uint32 \<Rightarrow> bg_queue \<Rightarrow> bg_queue" where
  "StartBattleground i q = bfx [BgStarted i] (AddToBGFreeSlotQueue i q)"

section \<open>Selection pools\<close>

definition pool_init :: sel_pool where
  "pool_init = \<lparr>sp_groups = [], sp_count = 0\<rparr>"

text \<open>The group to kick: the last one whose size is within one of \<open>want\<close>, else the last one of maximal size.\<close>

definition near_size :: "nat \<Rightarrow> uint32 \<Rightarrow> bool" where
  "near_size n want \<longleftrightarrow> \<bar>sint (of_nat n - want :: int32)\<bar> \<le> 1"

fun kick_choice :: "nat list \<Rightarrow> uint32 \<Rightarrow> nat \<Rightarrow> nat \<Rightarrow> bool \<Rightarrow> nat list \<Rightarrow> nat" where
  "kick_choice all want i best found [] = best"
| "kick_choice all want i best found (n # ns) =
     (if near_size n want then kick_choice all want (i + 1) i True ns
      else if \<not> found \<and> n \<ge> all ! best then kick_choice all want (i + 1) i found ns
      else kick_choice all want (i + 1) best found ns)"

definition KickGroup :: "(nat \<Rightarrow> nat) \<Rightarrow> uint32 \<Rightarrow> sel_pool \<Rightarrow> bool \<times> sel_pool" where
  "KickGroup sz want sp =
     (let sizes = map sz (sp_groups sp);
          k = kick_choice sizes want 0 0 False sizes
      in if sp_count sp \<noteq> 0
         then (\<not> sizes ! k \<le> unat (want + 1),
               \<lparr>sp_groups = take k (sp_groups sp) @ drop (k + 1) (sp_groups sp), sp_count = sp_count sp - of_nat (sizes ! k)\<rparr>)
         else (True, sp))"

definition PoolAddGroup :: "bg_info \<Rightarrow> nat \<Rightarrow> uint32 \<Rightarrow> sel_pool \<Rightarrow> bool \<times> sel_pool" where
  "PoolAddGroup gi p desired sp =
     (if gi_invited gi = 0 \<and> unat desired \<ge> unat (sp_count sp) + length (gi_players gi)
      then (True, \<lparr>sp_groups = sp_groups sp @ [p], sp_count = sp_count sp + of_nat (length (gi_players gi))\<rparr>)
      else (sp_count sp < desired, sp))"

section \<open>Joining the queue\<close>

definition queue_index :: "bool \<Rightarrow> bool \<Rightarrow> uint32 \<Rightarrow> nat" where
  "queue_index rated premade team =
     (if \<not> rated \<and> \<not> premade then 2 else 0) + (if team = TEAM_OF_HORDE then 1 else 0)"

definition announced_team :: "bg_world \<Rightarrow> uint32 \<Rightarrow> bool" where
  "announced_team w team =
     (case bw_arenaTeamSize w team of None \<Rightarrow> False | Some sz \<Rightarrow> sz = 5 \<and> bw_announce1v1 w \<or> sz \<noteq> 5)"

text \<open>Those waiting in the normal queue of a team and not invited, in 32 bits.\<close>

definition waiting :: "nat \<Rightarrow> nat \<Rightarrow> bg_queue \<Rightarrow> uint32" where
  "waiting b j q = of_nat (sum_list (map (\<lambda>p. gsize p q) (filter (\<lambda>p. gi_invited (info p q) = 0) (bq_lists q b j))))"

definition announce_queue :: "bg_world \<Rightarrow> guid \<Rightarrow> nat \<Rightarrow> uint32 \<Rightarrow> bg_queue \<Rightarrow> bg_queue" where
  "announce_queue w leader b t q =
     (case bw_template w t of None \<Rightarrow> q
      | Some tp \<Rightarrow>
          let qA = waiting b BG_NORMAL q; qH = waiting b (BG_NORMAL + 1) q;
              need = (\<lambda>n. if tp_min tp > n then tp_min tp - n else 0)
          in bfx [QueueAnnounce (if bw_announceSelf w then Some leader else None) qA (need qA) qH (need qH)] q)"

definition queue_player :: "bg_world \<Rightarrow> nat \<Rightarrow> guid \<Rightarrow> bg_queue \<Rightarrow> bg_queue" where
  "queue_player w p g q =
     on_ginfo p (\<lambda>gi. gi\<lparr>gi_players := os_insert g (gi_players gi)\<rparr>) (q\<lparr>bq_players := om_put g (bw_time w, p) (bq_players q)\<rparr>)"

text \<open>\<open>grp\<close> are the members of the group the leader joins with; without one he joins alone.\<close>

definition QueueAddGroup :: "bg_world \<Rightarrow> guid \<Rightarrow> uint32 \<Rightarrow> guid list option \<Rightarrow> uint32 \<Rightarrow> nat \<Rightarrow> uint8 \<Rightarrow> bool \<Rightarrow> bool \<Rightarrow>
    uint32 \<Rightarrow> uint32 \<Rightarrow> uint32 \<Rightarrow> bg_queue \<Rightarrow> nat \<times> bg_queue" where
  "QueueAddGroup w leader team grp t b arenaType rated premade rating mmr arenaTeam q =
     (let p = bq_next q;
          gi = bg_info_init\<lparr>gi_type := t, gi_arenaType := arenaType, gi_arenaTeam := arenaTeam, gi_rated := rated,
                 gi_joinTime := bw_time w, gi_team := team, gi_teamRating := rating, gi_mmr := mmr\<rparr>;
          q1 = q\<lparr>bq_next := p + 1, bq_infos := om_put p gi (bq_infos q)\<rparr>;
          q2 = (if rated \<and> bw_announceArena w \<and> announced_team w arenaTeam
                then bfx [ArenaAnnounce True arenaTeam arenaType rating] q1 else q1);
          q3 = (case grp of Some gs \<Rightarrow> fold (queue_player w p) gs q2 | None \<Rightarrow> queue_player w p leader q2);
          q4 = on_list b (queue_index rated premade team) (\<lambda>ps. ps @ [p]) q3
      in (p, if \<not> rated \<and> \<not> premade \<and> bw_announceQueue w then announce_queue w leader b t q4 else q4))"

section \<open>Waiting times\<close>

definition getMSTimeDiff :: "uint32 \<Rightarrow> uint32 \<Rightarrow> uint32" where
  "getMSTimeDiff old new = (if old > new then (0xFFFFFFFF - old) + new else new - old)"

text \<open>Normal matches count for their team, skirmishes for team \<open>0\<close>, rated arenas for team \<open>1\<close>.\<close>

definition wait_team :: "bg_info \<Rightarrow> nat" where
  "wait_team gi =
     (if gi_arenaType gi = 0 then (if gi_team gi = TEAM_OF_HORDE then 1 else 0) else if gi_rated gi then 1 else 0)"

definition PlayerInvitedToBGUpdateAverageWaitTime :: "bg_world \<Rightarrow> bg_info \<Rightarrow> nat \<Rightarrow> bg_queue \<Rightarrow> bg_queue" where
  "PlayerInvitedToBGUpdateAverageWaitTime w gi b q =
     (let timeInQueue = getMSTimeDiff (gi_joinTime gi) (bw_time w);
          t = wait_team gi;
          k = bq_last q t b;
          ws = bq_waits q t b
      in q\<lparr>bq_sum := (bq_sum q)(t := (bq_sum q t)(b := bq_sum q t b - ws ! unat k + timeInQueue)),
           bq_waits := (bq_waits q)(t := (bq_waits q t)(b := ws[unat k := timeInQueue])),
           bq_last := (bq_last q)(t := (bq_last q t)(b := (k + 1) mod 10))\<rparr>)"

definition GetAverageQueueWaitTime :: "bg_info \<Rightarrow> nat \<Rightarrow> bg_queue \<Rightarrow> uint32" where
  "GetAverageQueueWaitTime gi b q =
     (if bq_waits q (wait_team gi) b ! (WAITS_AVERAGED - 1) \<noteq> 0 then bq_sum q (wait_team gi) b div 10 else 0)"

section \<open>Leaving the queue\<close>

text \<open>The lists of the group's team, from the highest bracket down; in a bracket the later list wins.\<close>

fun find_place :: "(nat \<Rightarrow> nat \<Rightarrow> nat list) \<Rightarrow> nat \<Rightarrow> nat \<Rightarrow> nat list \<Rightarrow> (nat \<times> nat) option" where
  "find_place ls p j [] = None"
| "find_place ls p j (b # bs) =
     (if p \<in> set (ls b (j + 2)) then Some (b, j + 2) else if p \<in> set (ls b j) then Some (b, j) else find_place ls p j bs)"

definition lose_rated :: "bg_world \<Rightarrow> guid \<Rightarrow> bg_info \<Rightarrow> bg_fx list" where
  "lose_rated w g gi =
     (if bw_arenaTeamSize w (gi_arenaTeam gi) \<noteq> None
      then [ArenaMemberLost (\<not> bw_connected w g) (gi_arenaTeam gi) g (gi_oppMmr gi), ArenaTeamSaved (gi_arenaTeam gi)] else [])"

text \<open>The player is taken out of his group, the invitation is given back, and a rated match is lost.\<close>

definition drop_player :: "bg_world \<Rightarrow> guid \<Rightarrow> nat \<Rightarrow> bool \<Rightarrow> bg_queue \<Rightarrow> bg_queue" where
  "drop_player w g p dec q =
     (let q1 = on_ginfo p (\<lambda>gi. gi\<lparr>gi_players := os_erase g (gi_players gi)\<rparr>) q;
          gi = info p q1;
          q2 = (if dec \<and> gi_invited gi \<noteq> 0 \<and> GetBattleground (gi_invited gi) (gi_type gi) q1 \<noteq> None
                then on_bg (gi_invited gi) (DecreaseInvitedCount (gi_team gi)) q1 else q1);
          q3 = q2\<lparr>bq_players := om_erase g (bq_players q2)\<rparr>;
          q4 = (if gi_arenaType gi \<noteq> 0 \<and> gi_rated gi \<and> gi_players gi = [] \<and> bw_announceArena w \<and> announced_team w (gi_arenaTeam gi)
                then bfx [ArenaAnnounce False (gi_arenaTeam gi) (gi_arenaType gi) (gi_teamRating gi)] q3 else q3)
      in if gi_invited gi \<noteq> 0 \<and> gi_rated gi \<and> dec then bfx (lose_rated w g gi) q4 else q4)"

definition tell_removed :: "bg_world \<Rightarrow> guid \<Rightarrow> bg_info \<Rightarrow> bg_fx list" where
  "tell_removed w h gi =
     (let qt = BGQueueTypeId (gi_type gi) (gi_arenaType gi)
      in if bw_connected w h then [DropQueueId h qt, StatusPacket h None (bw_queueSlot w h qt) BG_STATUS_NONE 0 0] else [])"

lemma on_bg_players [simp]: "bq_players (on_bg i f q) = bq_players q"
  by (simp add: on_bg_def split: option.split)

lemma drop_player_players [simp]: "bq_players (drop_player w g p dec q) = om_erase g (bq_players q)"
  by (simp add: drop_player_def Let_def bfx_def on_ginfo_def)

lemma length_om_erase: "om_find m k = Some v \<Longrightarrow> length (om_erase k m) < length m"
  by (induction m k rule: om_find.induct) (auto simp: om_erase_def less_Suc_eq_le split: if_splits)

function QueueRemovePlayer :: "bg_world \<Rightarrow> guid \<Rightarrow> bool \<Rightarrow> bg_queue \<Rightarrow> bg_queue" where
  "QueueRemovePlayer w g dec q =
     (case om_find (bq_players q) g of None \<Rightarrow> q
      | Some (t, p) \<Rightarrow>
          (case find_place (bq_lists q) p (if gi_team (info p q) = TEAM_OF_HORDE then 1 else 0) (rev [0..<MAX_BRACKETS]) of
             None \<Rightarrow> q
           | Some (b, j) \<Rightarrow>
               let q1 = drop_player w g p dec q; gi = info p q1
               in if gi_players gi = [] then (on_list b j (remove1 p) q1)\<lparr>bq_infos := om_erase p (bq_infos q1)\<rparr>
                  else if gi_invited gi = 0 \<and> gi_rated gi
                       then QueueRemovePlayer w (hd (gi_players gi)) dec (bfx (tell_removed w (hd (gi_players gi)) gi) q1)
                  else q1))"
  by pat_completeness auto
termination
  by (relation "measure (\<lambda>(w, g, dec, q). length (bq_players q))") (auto simp: bfx_def intro: length_om_erase)

declare QueueRemovePlayer.simps [simp del]

definition IsPlayerInvited :: "guid \<Rightarrow> uint32 \<Rightarrow> uint32 \<Rightarrow> bg_queue \<Rightarrow> bool" where
  "IsPlayerInvited g i removeTime q =
     (case om_find (bq_players q) g of None \<Rightarrow> False
      | Some (t, p) \<Rightarrow> gi_invited (info p q) = i \<and> gi_removeInvite (info p q) = removeTime)"

definition GetPlayerGroupInfoData :: "guid \<Rightarrow> bg_queue \<Rightarrow> bg_info option" where
  "GetPlayerGroupInfoData g q = (case om_find (bq_players q) g of None \<Rightarrow> None | Some (t, p) \<Rightarrow> Some (info p q))"

section \<open>Invitations\<close>

definition AddEvent :: "uint64 \<Rightarrow> bg_event \<Rightarrow> bg_queue \<Rightarrow> bg_queue" where
  "AddEvent delay ev q = q\<lparr>bq_events := mm_insert (bq_now q + delay) ev (bq_events q)\<rparr>"

definition invite_player :: "bg_world \<Rightarrow> nat \<Rightarrow> uint32 \<Rightarrow> guid \<Rightarrow> bg_queue \<Rightarrow> bg_queue" where
  "invite_player w p i g q =
     (if \<not> bw_connected w g then q
      else case om_find (bq_bgs q) i of None \<Rightarrow> q
        | Some bt \<Rightarrow>
            let gi = info p q; qt = BGQueueTypeId (bt_type bt) (bt_arenaType bt);
                q1 = on_bg i (IncreaseInvitedCount (gi_team gi)) (PlayerInvitedToBGUpdateAverageWaitTime w gi (bt_bracket bt) q);
                q2 = bfx [SetQueueInvite g qt (gi_invited gi)] q1;
                q3 = AddEvent (ucast INVITATION_REMIND_TIME)
                       (BGQueueInviteEvent g (gi_invited gi) (bt_type bt) (gi_arenaType gi) (gi_removeInvite gi)) q2;
                q4 = AddEvent (ucast INVITE_ACCEPT_WAIT_TIME)
                       (BGQueueRemoveEvent g (gi_invited gi) (bt_type bt) qt (gi_removeInvite gi)) q3
            in bfx [StatusPacket g (Some i) (bw_queueSlot w g qt) BG_STATUS_WAIT_JOIN INVITE_ACCEPT_WAIT_TIME (gi_arenaType gi)] q4)"

definition InviteGroupToBG :: "bg_world \<Rightarrow> nat \<Rightarrow> uint32 \<Rightarrow> uint32 \<Rightarrow> bg_queue \<Rightarrow> bg_queue" where
  "InviteGroupToBG w p i side q =
     (let q1 = (if side \<noteq> 0 then on_ginfo p (\<lambda>gi. gi\<lparr>gi_team := side\<rparr>) q else q)
      in if gi_invited (info p q1) \<noteq> 0 then q1
         else let q2 = on_ginfo p (\<lambda>gi. gi\<lparr>gi_invited := i\<rparr>) q1;
                  q3 = (case om_find (bq_bgs q2) i of None \<Rightarrow> q2
                        | Some bt \<Rightarrow> if bt_arena bt \<and> bt_rated bt
                                     then bfx [ArenaTeamIdFor i (gi_team (info p q2)) (gi_arenaTeam (info p q2))] q2 else q2);
                  q4 = on_ginfo p (\<lambda>gi. gi\<lparr>gi_removeInvite := bw_time w + INVITE_ACCEPT_WAIT_TIME\<rparr>) q3
              in fold (invite_player w p i) (gi_players (info p q4)) q4)"

end
