(* ===== verification/BgMatch.thy ===== *)
theory BgMatch
  imports BgQueue
begin

text \<open>
  Making matches, \<^verbatim>\<open>BattlegroundQueue.cpp\<close>: filling running battlegrounds, premade and normal
  matches, skirmishes of one faction, rated arenas, the update that tries all of them; the events that remind of an
  invitation and take it back; and the scheduler of updates in \<^verbatim>\<open>BattlegroundMgr.cpp\<close>.  Signed
  32-bit values are integers here: they are differences of small numbers, and where a value changes its type the
  conversion is written out.
\<close>

section \<open>Filling a running battleground\<close>

text \<open>Groups are added from the front of \<open>rest\<close> until the pool refuses one.\<close>

fun add_groups :: "(nat \<Rightarrow> bg_info) \<Rightarrow> uint32 \<Rightarrow> nat list \<Rightarrow> sel_pool \<Rightarrow> nat list \<times> sel_pool" where
  "add_groups gis desired [] sp = ([], sp)"
| "add_groups gis desired (p # rest) sp =
     (case PoolAddGroup (gis p) p desired sp of
        (True, sp') \<Rightarrow> add_groups gis desired rest sp'
      | (False, sp') \<Rightarrow> (p # rest, sp'))"

text \<open>The free slots of both teams; with even teams only as many as the shorter queue can use.\<close>

definition even_slots :: "bg_invitation \<Rightarrow> int \<Rightarrow> int \<Rightarrow> uint32 \<Rightarrow> uint32 \<Rightarrow> int \<times> int" where
  "even_slots invt aliFree hordeFree aliCount hordeCount =
     (if invt = EVEN \<and> hordeFree = 1 \<and> aliFree = 1 \<and> aliCount \<noteq> hordeCount
      then (max (aliFree - max (sint (aliCount - hordeCount)) 0) 0, max (hordeFree - max (sint (hordeCount - aliCount)) 0) 0)
      else (aliFree, hordeFree))"

text \<open>
  One team of the balancing loop: the pool with what is left of its queue and the slots that were free.  The loop kicks a group
  of the team that would get fuller, adds smaller ones that fit, and when the pool is empty kicks one of the other team.
\<close>

record fill_side =
  fs_rest :: "nat list"
  fs_pool :: sel_pool

definition pool_diff :: "int \<Rightarrow> fill_side \<Rightarrow> int" where
  "pool_diff free s = free - sint (sp_count (fs_pool s))"

definition kick_side :: "(nat \<Rightarrow> bg_info) \<Rightarrow> uint32 \<Rightarrow> uint32 \<Rightarrow> fill_side \<Rightarrow> fill_side" where
  "kick_side gis want desired s =
     (case KickGroup (\<lambda>p. length (gi_players (gis p))) want (fs_pool s) of
        (True, sp) \<Rightarrow> (case add_groups gis desired (fs_rest s) sp of (rest, sp') \<Rightarrow> \<lparr>fs_rest = rest, fs_pool = sp'\<rparr>)
      | (False, sp) \<Rightarrow> s\<lparr>fs_pool := sp\<rparr>)"

definition kick_only :: "(nat \<Rightarrow> bg_info) \<Rightarrow> uint32 \<Rightarrow> fill_side \<Rightarrow> fill_side" where
  "kick_only gis want s = s\<lparr>fs_pool := snd (KickGroup (\<lambda>p. length (gi_players (gis p))) want (fs_pool s))\<rparr>"

text \<open>One round for the team \<open>s\<close> with the smaller difference; \<open>None\<close> is the break.\<close>

definition balance_round :: "(nat \<Rightarrow> bg_info) \<Rightarrow> int \<Rightarrow> int \<Rightarrow> fill_side \<Rightarrow> fill_side \<Rightarrow> bool \<times> fill_side \<times> fill_side" where
  "balance_round gis free otherDiff s other =
     (let gap = otherDiff - pool_diff free s;
          s1 = kick_side gis (word_of_int gap) (if free \<ge> otherDiff then word_of_int (free - otherDiff) else 0) s
      in if sp_count (fs_pool s1) = 0
         then if free \<le> otherDiff + 1 then (False, s1, other)
              else (True, s1, kick_only gis (word_of_int gap) other)
         else (True, s1, other))"

partial_function (option) balance_loop ::
  "(nat \<Rightarrow> bg_info) \<Rightarrow> int \<Rightarrow> int \<Rightarrow> fill_side \<Rightarrow> fill_side \<Rightarrow> (fill_side \<times> fill_side) option" where
  "balance_loop gis aliFree hordeFree a h =
     (let diffAli = pool_diff aliFree a; diffHorde = pool_diff hordeFree h
      in if \<bar>diffAli - diffHorde\<bar> > 1 \<and> (sp_count (fs_pool h) > 0 \<or> sp_count (fs_pool a) > 0)
         then if diffAli < diffHorde
              then let (go, a', h') = balance_round gis aliFree diffHorde a h
                   in if go then balance_loop gis aliFree hordeFree a' h' else Some (a', h')
              else let (go, h', a') = balance_round gis hordeFree diffAli h a
                   in if go then balance_loop gis aliFree hordeFree a' h' else Some (a', h')
         else Some (a, h))"

declare balance_loop.simps [code]

definition fill_start :: "bg_queue \<Rightarrow> nat \<Rightarrow> nat \<Rightarrow> int \<Rightarrow> fill_side" where
  "fill_start q b t free =
     (case add_groups (\<lambda>p. info p q) (word_of_int free) (bq_lists q b (BG_NORMAL + t)) (bq_pools q t) of
        (rest, sp) \<Rightarrow> \<lparr>fs_rest = rest, fs_pool = sp\<rparr>)"

definition fill_slots :: "bg_world \<Rightarrow> battleground \<Rightarrow> nat \<Rightarrow> bg_queue \<Rightarrow> int \<times> int" where
  "fill_slots w bt b q =
     even_slots (bw_invitation w) (sint (GetFreeSlotsForTeam (bw_invitation w) TEAM_OF_ALLIANCE bt))
       (sint (GetFreeSlotsForTeam (bw_invitation w) TEAM_OF_HORDE bt))
       (of_nat (length (bq_lists q b BG_NORMAL))) (of_nat (length (bq_lists q b (BG_NORMAL + 1))))"

definition FillPlayersToBG :: "bg_world \<Rightarrow> battleground \<Rightarrow> nat \<Rightarrow> bg_queue \<Rightarrow> bg_queue option" where
  "FillPlayersToBG w bt b q =
     (let (aliFree, hordeFree) = fill_slots w bt b q;
          a = fill_start q b 0 aliFree;
          h = fill_start q b 1 hordeFree
      in map_option (\<lambda>(a', h'). on_pool 1 (\<lambda>_. fs_pool h') (on_pool 0 (\<lambda>_. fs_pool a') q))
           (if bw_invitation w = NO_BALANCE then Some (a, h) else balance_loop (\<lambda>p. info p q) aliFree hordeFree a h))"

section \<open>Premade matches\<close>

definition not_invited :: "bg_queue \<Rightarrow> nat \<Rightarrow> bool" where
  "not_invited q p \<longleftrightarrow> gi_invited (info p q) = 0"

definition pool_add :: "nat \<Rightarrow> nat \<Rightarrow> uint32 \<Rightarrow> bg_queue \<Rightarrow> bool \<times> bg_queue" where
  "pool_add t p desired q =
     (case PoolAddGroup (info p q) p desired (bq_pools q t) of (ok, sp) \<Rightarrow> (ok, on_pool t (\<lambda>_. sp) q))"

text \<open>Groups that are not invited are added until the pool refuses one.\<close>

fun pool_fill :: "nat \<Rightarrow> uint32 \<Rightarrow> nat list \<Rightarrow> bg_queue \<Rightarrow> bg_queue" where
  "pool_fill t desired [] q = q"
| "pool_fill t desired (p # ps) q =
     (if not_invited q p
      then case pool_add t p desired q of (True, q') \<Rightarrow> pool_fill t desired ps q' | (False, q') \<Rightarrow> q'
      else pool_fill t desired ps q)"

definition move_to_normal :: "bg_world \<Rightarrow> nat \<Rightarrow> uint32 \<Rightarrow> nat \<Rightarrow> bg_queue \<Rightarrow> bg_queue" where
  "move_to_normal w b minPlayers t q =
     (case bq_lists q b (BG_PREMADE + t) of [] \<Rightarrow> q
      | p # ps \<Rightarrow>
          if not_invited q p \<and> (gi_joinTime (info p q) < bw_time w - bw_premadeWait w \<or> gsize p q < unat minPlayers)
          then on_list b (BG_PREMADE + t) tl (on_list b (BG_NORMAL + t) (\<lambda>ns. p # ns) q)
          else q)"

definition CheckPremadeMatch :: "bg_world \<Rightarrow> nat \<Rightarrow> uint32 \<Rightarrow> uint32 \<Rightarrow> bg_queue \<Rightarrow> bool \<times> bg_queue" where
  "CheckPremadeMatch w b minPlayers maxPlayers q =
     (case (find (not_invited q) (bq_lists q b BG_PREMADE), find (not_invited q) (bq_lists q b (BG_PREMADE + 1))) of
        (Some pa, Some ph) \<Rightarrow>
          let q1 = snd (pool_add 1 ph maxPlayers (snd (pool_add 0 pa maxPlayers q)));
              most = min (sp_count (bq_pools q1 0)) (sp_count (bq_pools q1 1));
              q2 = pool_fill 0 most (bq_lists q1 b BG_NORMAL) q1
          in (True, pool_fill 1 most (bq_lists q2 b (BG_NORMAL + 1)) q2)
      | _ \<Rightarrow> (False, move_to_normal w b minPlayers 1 (move_to_normal w b minPlayers 0 q)))"

section \<open>Normal matches\<close>

text \<open>Groups are added until there are enough players; what remains are the groups behind the last one looked at.\<close>

fun pool_reach :: "nat \<Rightarrow> uint32 \<Rightarrow> uint32 \<Rightarrow> nat list \<Rightarrow> bg_queue \<Rightarrow> nat list \<times> bg_queue" where
  "pool_reach t minPlayers maxPlayers [] q = ([], q)"
| "pool_reach t minPlayers maxPlayers (p # ps) q =
     (if not_invited q p
      then let q' = snd (pool_add t p maxPlayers q)
           in if sp_count (bq_pools q' t) \<ge> minPlayers then (ps, q') else pool_reach t minPlayers maxPlayers ps q'
      else pool_reach t minPlayers maxPlayers ps q)"

definition enough :: "bg_world \<Rightarrow> bool \<Rightarrow> uint32 \<Rightarrow> bg_queue \<Rightarrow> bool" where
  "enough w arena minPlayers q \<longleftrightarrow>
     bw_testing w \<and> \<not> arena \<and> (sp_count (bq_pools q 0) \<noteq> 0 \<or> sp_count (bq_pools q 1) \<noteq> 0) \<or>
     sp_count (bq_pools q 0) \<ge> minPlayers \<and> sp_count (bq_pools q 1) \<ge> minPlayers"

definition CheckNormalMatch :: "bg_world \<Rightarrow> bool \<Rightarrow> nat \<Rightarrow> uint32 \<Rightarrow> uint32 \<Rightarrow> bg_queue \<Rightarrow> bool \<times> bg_queue" where
  "CheckNormalMatch w arena b minPlayers maxPlayers q =
     (let (rest0, q1) = pool_reach 0 minPlayers maxPlayers (bq_lists q b BG_NORMAL) q;
          (rest1, q2) = pool_reach 1 minPlayers maxPlayers (bq_lists q1 b (BG_NORMAL + 1)) q1;
          j = (if sp_count (bq_pools q2 1) < sp_count (bq_pools q2 0) then 1 else 0)
      in if bw_invitation w \<noteq> NO_BALANCE \<and> sp_count (bq_pools q2 1) \<ge> minPlayers \<and> sp_count (bq_pools q2 0) \<ge> minPlayers
         then let q3 = pool_fill j (sp_count (bq_pools q2 (1 - j))) (if j = 0 then rest0 else rest1) q2
              in if \<bar>sint (sp_count (bq_pools q3 1) - sp_count (bq_pools q3 0) :: int32)\<bar> > 2 then (False, q3)
                 else (enough w arena minPlayers q3, q3)
         else (enough w arena minPlayers q2, q2))"

section \<open>Skirmishes of one faction\<close>

text \<open>One selected group changes the team: to the front of the other list, out of what is behind \<open>last\<close> in its own.\<close>

definition remove_behind :: "nat \<Rightarrow> nat \<Rightarrow> nat list \<Rightarrow> nat list" where
  "remove_behind marker p ps = takeWhile (\<lambda>x. x \<noteq> marker) ps @ (case dropWhile (\<lambda>x. x \<noteq> marker) ps of [] \<Rightarrow> [] | x # xs \<Rightarrow> x # remove1 p xs)"

definition change_team :: "nat \<Rightarrow> nat \<Rightarrow> nat \<Rightarrow> uint32 \<Rightarrow> nat \<Rightarrow> nat \<Rightarrow> bg_queue \<Rightarrow> bg_queue" where
  "change_team b teamIndex otherTeam otherId marker p q =
     on_list b (BG_NORMAL + teamIndex) (remove_behind marker p)
       (on_list b (BG_NORMAL + otherTeam) (\<lambda>ps. p # ps) (on_ginfo p (\<lambda>gi. gi\<lparr>gi_team := otherId\<rparr>) q))"

definition CheckSkirmishForSameFaction :: "nat \<Rightarrow> uint32 \<Rightarrow> bg_queue \<Rightarrow> bool \<times> bg_queue" where
  "CheckSkirmishForSameFaction b minPlayers q =
     (if sp_count (bq_pools q 0) < minPlayers \<and> sp_count (bq_pools q 1) < minPlayers then (False, q)
      else let horde = (sp_count (bq_pools q 1) = minPlayers);
               teamIndex = (if horde then 1 else 0); otherTeam = (if horde then 0 else 1);
               otherId = (if horde then TEAM_OF_ALLIANCE else TEAM_OF_HORDE);
               q1 = on_pool otherTeam (\<lambda>_. pool_init) q;
               marker = last (sp_groups (bq_pools q1 teamIndex));
               own = bq_lists q1 b (BG_NORMAL + teamIndex)
           in if marker \<notin> set own then (False, q1)
              else let q2 = pool_fill otherTeam minPlayers (tl (dropWhile (\<lambda>x. x \<noteq> marker) own)) q1
                   in if sp_count (bq_pools q2 otherTeam) \<noteq> minPlayers then (False, q2)
                      else (True, fold (change_team b teamIndex otherTeam otherId marker) (sp_groups (bq_pools q2 otherTeam)) q2))"

section \<open>Rated arenas\<close>

definition fits_rating :: "bg_world \<Rightarrow> uint32 \<Rightarrow> bg_queue \<Rightarrow> nat \<Rightarrow> bool" where
  "fits_rating w rating q p \<longleftrightarrow>
     (let gi = info p q;
          least = (if rating \<le> bw_maxRatingDiff w then 0 else rating - bw_maxRatingDiff w);
          most = rating + bw_maxRatingDiff w
      in gi_invited gi = 0 \<and>
         (gi_mmr gi \<ge> least \<and> gi_mmr gi \<le> most \<or> sint (gi_joinTime gi) < sint (bw_time w - bw_discardTimer w)))"

text \<open>With rating \<open>0\<close> the rating of the team that waits longest; \<open>None\<close>: nobody is waiting.\<close>

definition search_rating :: "nat \<Rightarrow> uint32 \<Rightarrow> bg_queue \<Rightarrow> uint32 option" where
  "search_rating b rating q =
     (if rating \<noteq> 0 then Some rating
      else case (bq_lists q b BG_PREMADE, bq_lists q b (BG_PREMADE + 1)) of
             ([], []) \<Rightarrow> None
           | (p # _, []) \<Rightarrow> Some (gi_mmr (info p q))
           | ([], p # _) \<Rightarrow> Some (gi_mmr (info p q))
           | (p1 # _, p2 # _) \<Rightarrow>
               Some (if gi_joinTime (info p1 q) < gi_joinTime (info p2 q) then gi_mmr (info p1 q) else gi_mmr (info p2 q)))"

text \<open>The first fitting team of each list, or two of one list that are different arena teams.\<close>

definition find_teams :: "bg_world \<Rightarrow> uint32 \<Rightarrow> nat \<Rightarrow> bg_queue \<Rightarrow> (nat \<times> nat) option" where
  "find_teams w rating b q =
     (let second = (\<lambda>j p. find (\<lambda>p'. fits_rating w rating q p' \<and> gi_arenaTeam (info p q) \<noteq> gi_arenaTeam (info p' q))
                            (dropWhile (\<lambda>x. x \<noteq> p) (bq_lists q b j)))
      in case (find (fits_rating w rating q) (bq_lists q b BG_PREMADE), find (fits_rating w rating q) (bq_lists q b (BG_PREMADE + 1))) of
           (Some p1, Some p2) \<Rightarrow> Some (p1, p2)
         | (Some p, None) \<Rightarrow> map_option (Pair p) (second BG_PREMADE p)
         | (None, Some p) \<Rightarrow> map_option (Pair p) (second (BG_PREMADE + 1) p)
         | (None, None) \<Rightarrow> None)"

definition CreateNewBattleground :: "bg_world \<Rightarrow> uint32 \<Rightarrow> nat \<Rightarrow> uint8 \<Rightarrow> bool \<Rightarrow> bg_queue \<Rightarrow> uint32 option \<times> bg_queue" where
  "CreateNewBattleground w t b arenaType rated q =
     (case bw_create w t b arenaType rated (bq_created q) of None \<Rightarrow> (None, q)
      | Some bt \<Rightarrow> (Some (bt_id bt), q\<lparr>bq_created := bq_created q + 1, bq_bgs := om_put (bt_id bt) bt (bq_bgs q)\<rparr>))"

definition start_rated :: "bg_world \<Rightarrow> nat \<Rightarrow> uint32 \<Rightarrow> nat \<Rightarrow> nat \<Rightarrow> bg_queue \<Rightarrow> bg_queue" where
  "start_rated w b i pa ph q =
     (let q1 = on_ginfo ph (\<lambda>gi. gi\<lparr>gi_oppRating := gi_teamRating (info pa q), gi_oppMmr := gi_mmr (info pa q)\<rparr>)
                 (on_ginfo pa (\<lambda>gi. gi\<lparr>gi_oppRating := gi_teamRating (info ph q), gi_oppMmr := gi_mmr (info ph q)\<rparr>) q);
          q2 = (if gi_team (info pa q1) \<noteq> TEAM_OF_ALLIANCE
                then on_list b (BG_PREMADE + 1) (remove1 pa) (on_list b BG_PREMADE (\<lambda>ps. pa # ps) q1) else q1);
          q3 = (if gi_team (info ph q2) \<noteq> TEAM_OF_HORDE
                then on_list b BG_PREMADE (remove1 ph) (on_list b (BG_PREMADE + 1) (\<lambda>ps. ph # ps) q2) else q2);
          q4 = bfx [ArenaMmrFor i TEAM_OF_ALLIANCE (gi_mmr (info pa q3)), ArenaMmrFor i TEAM_OF_HORDE (gi_mmr (info ph q3))] q3
      in StartBattleground i (InviteGroupToBG w ph i TEAM_OF_HORDE (InviteGroupToBG w pa i TEAM_OF_ALLIANCE q4)))"

definition rated_match :: "bg_world \<Rightarrow> uint32 \<Rightarrow> nat \<Rightarrow> uint8 \<Rightarrow> uint32 \<Rightarrow> bg_queue \<Rightarrow> bg_queue" where
  "rated_match w t b arenaType rating q =
     (case search_rating b rating q of None \<Rightarrow> q
      | Some r \<Rightarrow>
          (case find_teams w r b q of None \<Rightarrow> q
           | Some (pa, ph) \<Rightarrow>
               (case CreateNewBattleground w t b arenaType True q of (None, q1) \<Rightarrow> q1
                | (Some i, q1) \<Rightarrow> start_rated w b i pa ph q1)))"

section \<open>The update\<close>

definition invite_pool :: "bg_world \<Rightarrow> uint32 \<Rightarrow> nat \<Rightarrow> bg_queue \<Rightarrow> bg_queue" where
  "invite_pool w i t q = fold (\<lambda>p q. InviteGroupToBG w p i (gi_team (info p q)) q) (sp_groups (bq_pools q t)) q"

definition invite_pools :: "bg_world \<Rightarrow> uint32 \<Rightarrow> bg_queue \<Rightarrow> bg_queue" where
  "invite_pools w i q = invite_pool w i 1 (invite_pool w i 0 q)"

definition init_pools :: "bg_queue \<Rightarrow> bg_queue" where
  "init_pools q = on_pool 1 (\<lambda>_. pool_init) (on_pool 0 (\<lambda>_. pool_init) q)"

text \<open>A running battleground of this queue takes players, unless it is rated or over.\<close>

definition fill_one :: "bg_world \<Rightarrow> uint32 \<Rightarrow> nat \<Rightarrow> uint32 \<Rightarrow> bg_queue \<Rightarrow> bg_queue option" where
  "fill_one w t b i q =
     (case om_find (bq_bgs q) i of None \<Rightarrow> Some q
      | Some bt \<Rightarrow>
          if \<not> bt_rated bt \<and> bt_type bt = t \<and> bt_bracket bt = b \<and> bt_status bt > BG_STATUS_WAIT_QUEUE \<and> bt_status bt < BG_STATUS_WAIT_LEAVE
          then (case FillPlayersToBG w bt b (init_pools q) of None \<Rightarrow> None
                | Some q1 \<Rightarrow>
                    let q2 = invite_pools w i q1
                    in Some (case om_find (bq_bgs q2) i of None \<Rightarrow> q2
                             | Some bt' \<Rightarrow> if HasFreeSlots bt' then q2 else RemoveFromBGFreeSlotQueue i q2))
          else Some q)"

fun fill_all :: "bg_world \<Rightarrow> uint32 \<Rightarrow> nat \<Rightarrow> uint32 list \<Rightarrow> bg_queue \<Rightarrow> bg_queue option" where
  "fill_all w t b [] q = Some q"
| "fill_all w t b (i # is) q = (case fill_one w t b i q of None \<Rightarrow> None | Some q1 \<Rightarrow> fill_all w t b is q1)"

text \<open>A new battleground for the selected groups; \<open>None\<close> when none can be created, which ends the update.\<close>

definition start_new :: "bg_world \<Rightarrow> uint32 \<Rightarrow> nat \<Rightarrow> uint8 \<Rightarrow> bg_queue \<Rightarrow> bg_queue option" where
  "start_new w t b arenaType q =
     (case CreateNewBattleground w t b arenaType False q of (None, q1) \<Rightarrow> None
      | (Some i, q1) \<Rightarrow> Some (StartBattleground i (invite_pools w i q1)))"

definition premade_match :: "bg_world \<Rightarrow> uint32 \<Rightarrow> nat \<Rightarrow> uint32 \<Rightarrow> uint32 \<Rightarrow> bg_queue \<Rightarrow> bool \<times> bg_queue" where
  "premade_match w t b minPlayers maxPlayers q =
     (case CheckPremadeMatch w b minPlayers maxPlayers q of
        (True, q1) \<Rightarrow> (case start_new w t b 0 q1 of None \<Rightarrow> (False, q1) | Some q2 \<Rightarrow> (True, init_pools q2))
      | (False, q1) \<Rightarrow> (True, q1))"

definition normal_match :: "bg_world \<Rightarrow> uint32 \<Rightarrow> nat \<Rightarrow> bool \<Rightarrow> uint8 \<Rightarrow> uint32 \<Rightarrow> uint32 \<Rightarrow> bg_queue \<Rightarrow> bg_queue" where
  "normal_match w t b arena arenaType minPlayers maxPlayers q =
     (let (ok, q1) = CheckNormalMatch w arena b minPlayers maxPlayers q;
          (ok2, q2) = (if ok then (True, q1) else if arena then CheckSkirmishForSameFaction b minPlayers q1 else (False, q1))
      in if ok2 then (case start_new w t b arenaType q2 of None \<Rightarrow> q2 | Some q3 \<Rightarrow> q3) else q2)"

definition BattlegroundQueueUpdate :: "bg_world \<Rightarrow> uint32 \<Rightarrow> nat \<Rightarrow> uint8 \<Rightarrow> bool \<Rightarrow> uint32 \<Rightarrow> bg_queue \<Rightarrow> bg_queue option" where
  "BattlegroundQueueUpdate w t b arenaType rated rating q =
     (if bq_lists q b 0 = [] \<and> bq_lists q b 1 = [] \<and> bq_lists q b 2 = [] \<and> bq_lists q b 3 = [] then Some q
      else map_option (\<lambda>q1.
        (case bw_template w t of None \<Rightarrow> q1
         | Some tp \<Rightarrow>
             if \<not> bw_bracketKnown w t b then q1
             else let minP = (if tp_arena tp then (if bw_arenaTesting w then 1 else ucast arenaType)
                              else if bw_testing w then 1 else tp_min tp);
                      maxP = (if tp_arena tp then ucast arenaType else tp_max tp);
                      q2 = init_pools q1;
                      (go, q3) = (if tp_arena tp then (True, q2) else premade_match w t b minP maxP q2)
                  in if \<not> go then q3
                     else if \<not> rated then normal_match w t b (tp_arena tp) arenaType minP maxP q3
                     else if tp_arena tp then rated_match w t b arenaType rating q3
                     else q3))
        (fill_all w t b (bq_free q) q))"

section \<open>Events\<close>

definition ScheduleQueueUpdate_fx :: "battleground \<Rightarrow> uint32 \<Rightarrow> uint32 \<Rightarrow> bg_fx" where
  "ScheduleQueueUpdate_fx bt qt t = ScheduleUpdate 0 0 qt t (bt_bracket bt)"

text \<open>Both events do nothing for a player who is gone, or whose invitation is not the one they are about.\<close>

fun ExecuteQueueEvent :: "bg_world \<Rightarrow> bg_event \<Rightarrow> bg_queue \<Rightarrow> bg_queue" where
  "ExecuteQueueEvent w (BGQueueInviteEvent g i t arenaType removeTime) q =
     (if \<not> bw_connected w g then q
      else case GetBattleground i t q of None \<Rightarrow> q
        | Some bt \<Rightarrow>
            let slot = bw_queueSlot w g (BGQueueTypeId (bt_type bt) (bt_arenaType bt))
            in if slot < PLAYER_MAX_BATTLEGROUND_QUEUES \<and> IsPlayerInvited g i removeTime q
               then bfx [StatusPacket g (Some i) slot BG_STATUS_WAIT_JOIN (INVITE_ACCEPT_WAIT_TIME - INVITATION_REMIND_TIME) arenaType] q
               else q)"
| "ExecuteQueueEvent w (BGQueueRemoveEvent g i t qt removeTime) q =
     (if \<not> bw_connected w g then q
      else let slot = bw_queueSlot w g qt; bg = GetBattleground i t q
           in if slot < PLAYER_MAX_BATTLEGROUND_QUEUES \<and> IsPlayerInvited g i removeTime q
              then let q1 = (case bg of None \<Rightarrow> q
                             | Some bt \<Rightarrow>
                                 if \<not> bt_arena bt \<and> bw_deserters w \<and> (bt_status bt = BG_STATUS_IN_PROGRESS \<or> bt_status bt = BG_STATUS_WAIT_JOIN)
                                 then bfx [CHAR_INS_DESERTER_TRACK (GetCounter g)] q else q);
                       q2 = QueueRemovePlayer w g True (bfx [DropQueueId g qt] q1);
                       q3 = (case bg of None \<Rightarrow> q2
                             | Some bt \<Rightarrow> if \<not> bt_arena bt \<and> bt_status bt \<noteq> BG_STATUS_WAIT_LEAVE
                                          then bfx [ScheduleQueueUpdate_fx bt qt t] q2 else q2)
                   in bfx [StatusPacket g None slot BG_STATUS_NONE 0 0] q3
              else q)"

text \<open>\<^verbatim>\<open>EventProcessor::Update\<close>: the events that are due, in the order of their times; no event adds one.\<close>

fun run_events :: "bg_world \<Rightarrow> (uint64 \<times> bg_event) list \<Rightarrow> bg_queue \<Rightarrow> bg_queue" where
  "run_events w [] q = q\<lparr>bq_events := []\<rparr>"
| "run_events w ((t, ev) # es) q =
     (if t \<le> bq_now q then run_events w es (ExecuteQueueEvent w ev (q\<lparr>bq_events := es\<rparr>)) else q\<lparr>bq_events := (t, ev) # es\<rparr>)"

definition UpdateEvents :: "bg_world \<Rightarrow> uint32 \<Rightarrow> bg_queue \<Rightarrow> bg_queue" where
  "UpdateEvents w diff q = (let q1 = q\<lparr>bq_now := bq_now q + ucast diff\<rparr> in run_events w (bq_events q1) q1)"

section \<open>The scheduler\<close>

text \<open>An update to do is one 64-bit number.\<close>

definition schedule_id :: "uint32 \<Rightarrow> uint8 \<Rightarrow> uint32 \<Rightarrow> uint32 \<Rightarrow> uint32 \<Rightarrow> uint64" where
  "schedule_id rating arenaType qt t b =
     push_bit 32 (ucast rating) OR ucast (push_bit 24 (ucast arenaType :: uint32)) OR ucast (push_bit 16 qt) OR ucast (push_bit 8 t) OR ucast b"

definition ScheduleQueueUpdate :: "uint32 \<Rightarrow> uint8 \<Rightarrow> uint32 \<Rightarrow> uint32 \<Rightarrow> uint32 \<Rightarrow> uint64 list \<Rightarrow> uint64 list" where
  "ScheduleQueueUpdate rating arenaType qt t b ids =
     (let i = schedule_id rating arenaType qt t b in if i \<in> set ids then ids else ids @ [i])"

definition scheduled :: "uint64 \<Rightarrow> uint32 \<times> uint8 \<times> uint32 \<times> uint32 \<times> uint32" where
  "scheduled i = (ucast (drop_bit 32 i), ucast (drop_bit 24 i AND 255), ucast (drop_bit 16 i AND 255),
     ucast (drop_bit 8 i AND 255), ucast (i AND 255))"

text \<open>The loop over the scheduled updates counts in 8 bits; \<open>f\<close> is the update of the queue an entry names.\<close>

partial_function (option) scheduler_loop :: "(uint64 \<Rightarrow> 's \<Rightarrow> 's) \<Rightarrow> uint64 list \<Rightarrow> uint8 \<Rightarrow> 's \<Rightarrow> 's option" where
  "scheduler_loop f ids i s =
     (if unat i < length ids then scheduler_loop f ids (i + 1) (f (ids ! unat i) s) else Some s)"

definition run_scheduled :: "(uint64 \<Rightarrow> 's \<Rightarrow> 's) \<Rightarrow> uint64 list \<Rightarrow> 's \<Rightarrow> 's option" where
  "run_scheduled f ids s = (if ids = [] then Some s else scheduler_loop f ids 0 s)"

end
