(* ===== verification/BgFill.thy ===== *)
theory BgFill
  imports BgMatch
begin

text \<open>
  Filling a running battleground: the balancing loop ends, no team gets more players than it has free slots, and
  the teams end up balanced as far as kicking groups can do it.
\<close>

section \<open>Selected groups\<close>

definition sz :: "(nat \<Rightarrow> bg_info) \<Rightarrow> nat \<Rightarrow> nat" where
  "sz gis p = length (gi_players (gis p))"

definition headcount :: "(nat \<Rightarrow> bg_info) \<Rightarrow> nat list \<Rightarrow> nat" where
  "headcount gis ps = sum_list (map (sz gis) ps)"

text \<open>The groups of a list are different, nobody is an empty group, and their players fit in 31 bits.\<close>

definition list_ready :: "(nat \<Rightarrow> bg_info) \<Rightarrow> nat list \<Rightarrow> bool" where
  "list_ready gis ps \<longleftrightarrow> distinct ps \<and> list_all (\<lambda>p. 0 < sz gis p) ps \<and> headcount gis ps < 2 ^ 31"

text \<open>A pool holds groups of the list that are not invited, each once, and counts their players.\<close>

definition selection_ok :: "(nat \<Rightarrow> bg_info) \<Rightarrow> nat list \<Rightarrow> sel_pool \<Rightarrow> bool" where
  "selection_ok gis ps sp \<longleftrightarrow> distinct (sp_groups sp) \<and> set (sp_groups sp) \<subseteq> set ps \<and>
     list_all (\<lambda>p. gi_invited (gis p) = 0) (sp_groups sp) \<and> unat (sp_count sp) = headcount gis (sp_groups sp)"

definition side_ok :: "(nat \<Rightarrow> bg_info) \<Rightarrow> nat list \<Rightarrow> fill_side \<Rightarrow> bool" where
  "side_ok gis ps s \<longleftrightarrow> (\<exists>pre. ps = pre @ fs_rest s \<and> selection_ok gis pre (fs_pool s))"

definition side_weight :: "fill_side \<Rightarrow> nat" where
  "side_weight s = 2 * length (fs_rest s) + length (sp_groups (fs_pool s))"

lemma headcount_Nil [simp]: "headcount gis [] = 0"
  and headcount_Cons [simp]: "headcount gis (p # ps) = sz gis p + headcount gis ps"
  and headcount_append [simp]: "headcount gis (ps @ qs) = headcount gis ps + headcount gis qs"
  by (simp_all add: headcount_def)

lemma headcount_subset:
  assumes "distinct xs" "set xs \<subseteq> set ps" "distinct ps"
  shows "headcount gis xs \<le> headcount gis ps"
  using sum_mono2 [OF finite_set assms(2), of "sz gis"] assms(1,3)
  by (simp add: headcount_def sum_list_distinct_conv_sum_set)

lemma headcount_mem: "p \<in> set ps \<Longrightarrow> sz gis p \<le> headcount gis ps"
  by (induction ps) auto

lemma small_count: "n < 2 ^ 31 \<Longrightarrow> unat (of_nat n :: uint32) = n"
  by (simp add: unsigned_of_nat take_bit_nat_eq_self)

lemma side_selection: "side_ok gis ps s \<Longrightarrow> selection_ok gis ps (fs_pool s)"
  by (auto simp: side_ok_def selection_ok_def)

lemma count_le:
  assumes "list_ready gis ps" "selection_ok gis ps sp"
  shows "unat (sp_count sp) \<le> headcount gis ps"
  using assms headcount_subset [of "sp_groups sp" ps gis] by (simp add: list_ready_def selection_ok_def)

lemma count_sint:
  assumes "list_ready gis ps" "selection_ok gis ps sp"
  shows "sint (sp_count sp) = int (unat (sp_count sp))"
proof -
  have "unat (sp_count sp) < 2 ^ 31" using count_le [OF assms] assms(1) by (simp add: list_ready_def)
  then have "uint (sp_count sp) < 2 ^ 31" using of_nat_less_iff [of "unat (sp_count sp)" "2 ^ 31", where 'a = int] by (simp del: of_nat_less_iff)
  then have "signed_take_bit 31 (uint (sp_count sp)) = uint (sp_count sp)"
    by (intro signed_take_bit_int_eq_self) (simp_all add: order_trans [of _ 0])
  then show ?thesis by (simp add: sint_uint)
qed

lemma groups_nonempty:
  assumes "list_ready gis ps" "selection_ok gis ps sp"
  shows "sp_count sp = 0 \<longleftrightarrow> sp_groups sp = []"
proof -
  have "sp_count sp = 0 \<longleftrightarrow> headcount gis (sp_groups sp) = 0" using assms(2) unat_eq_0 [of "sp_count sp"] by (simp add: selection_ok_def)
  also have "\<dots> \<longleftrightarrow> sp_groups sp = []" using assms by (cases "sp_groups sp") (auto simp: list_ready_def selection_ok_def list_all_iff)
  finally show ?thesis .
qed

section \<open>Adding and kicking\<close>

lemma pool_add_ok:
  assumes "list_ready gis (pre @ p # post)" "selection_ok gis pre sp" "PoolAddGroup (gis p) p desired sp = (ok, sp')"
  shows "selection_ok gis (pre @ [p]) sp' \<and> unat (sp_count sp') \<le> max (unat (sp_count sp)) (unat desired)"
proof (cases "gi_invited (gis p) = 0 \<and> unat desired \<ge> unat (sp_count sp) + sz gis p")
  case True
  then have sp': "sp' = \<lparr>sp_groups = sp_groups sp @ [p], sp_count = sp_count sp + of_nat (sz gis p)\<rparr>"
    using assms(3) by (simp add: PoolAddGroup_def sz_def)
  have "headcount gis (sp_groups sp) \<le> headcount gis pre"
    using assms(1,2) by (intro headcount_subset) (auto simp: selection_ok_def list_ready_def)
  then have "headcount gis (sp_groups sp) + sz gis p < 2 ^ 31" using assms(1) by (simp add: list_ready_def)
  then have u: "unat (sp_count sp + of_nat (sz gis p)) = headcount gis (sp_groups sp) + sz gis p"
    using assms(2) small_count [of "sz gis p"] by (subst unat_add_lem [THEN iffD1]) (simp_all add: selection_ok_def)
  then show ?thesis using True assms(1,2) by (auto simp: sp' selection_ok_def list_ready_def)
next
  case False
  then have "sp' = sp" using assms(3) by (auto simp: PoolAddGroup_def sz_def split: if_splits)
  then show ?thesis using assms(2) by (auto simp: selection_ok_def)
qed

lemma add_groups_ok:
  assumes "list_ready gis ps" "ps = pre @ rest" "selection_ok gis pre sp" "add_groups gis desired rest sp = (rest', sp')"
  shows "side_ok gis ps \<lparr>fs_rest = rest', fs_pool = sp'\<rparr> \<and> unat (sp_count sp') \<le> max (unat (sp_count sp)) (unat desired) \<and>
    (rest' = rest \<and> sp' = sp \<or> side_weight \<lparr>fs_rest = rest', fs_pool = sp'\<rparr> < side_weight \<lparr>fs_rest = rest, fs_pool = sp\<rparr>)"
  using assms
proof (induction rest arbitrary: pre sp)
  case Nil
  then show ?case by (auto simp: side_ok_def)
next
  case (Cons p rest)
  obtain ok sp1 where a: "PoolAddGroup (gis p) p desired sp = (ok, sp1)" by fastforce
  have ready: "list_ready gis (pre @ p # rest)" using Cons.prems(1,2) by simp
  note step = pool_add_ok [OF ready Cons.prems(3) a]
  have len: "length (sp_groups sp1) \<le> length (sp_groups sp) + 1" using a by (auto simp: PoolAddGroup_def split: if_splits)
  show ?case
  proof (cases ok)
    case True
    have IH: "side_ok gis ps \<lparr>fs_rest = rest', fs_pool = sp'\<rparr> \<and> unat (sp_count sp') \<le> max (unat (sp_count sp1)) (unat desired) \<and>
      (rest' = rest \<and> sp' = sp1 \<or> side_weight \<lparr>fs_rest = rest', fs_pool = sp'\<rparr> < side_weight \<lparr>fs_rest = rest, fs_pool = sp1\<rparr>)"
      by (rule Cons.IH [OF Cons.prems(1), of "pre @ [p]"]) (use Cons.prems a True step in simp_all)
    moreover have "side_weight \<lparr>fs_rest = rest, fs_pool = sp1\<rparr> < side_weight \<lparr>fs_rest = p # rest, fs_pool = sp\<rparr>"
      using len by (simp add: side_weight_def)
    moreover have "max (unat (sp_count sp1)) (unat desired) \<le> max (unat (sp_count sp)) (unat desired)" using step by simp
    ultimately show ?thesis using less_trans le_trans by blast
  next
    case False
    then have "rest' = p # rest" "sp' = sp1" using Cons.prems(4) a by simp_all
    moreover have "sp1 = sp" using a False by (auto simp: PoolAddGroup_def split: if_splits)
    ultimately show ?thesis using Cons.prems(2,3) by (auto simp: side_ok_def)
  qed
qed

lemma kick_choice_bound:
  "best < length all \<Longrightarrow> i + length ns \<le> length all \<Longrightarrow> kick_choice all want i best found ns < length all"
  by (induction all want i best found ns rule: kick_choice.induct) auto

lemma KickGroup_ok:
  assumes "list_ready gis ps" "selection_ok gis ps sp" "KickGroup (\<lambda>p. length (gi_players (gis p))) want sp = (again, sp')"
  shows "selection_ok gis ps sp' \<and> unat (sp_count sp') \<le> unat (sp_count sp) \<and>
    (if sp_count sp = 0 then sp' = sp \<and> again else length (sp_groups sp') < length (sp_groups sp))"
proof (cases "sp_count sp = 0")
  case True
  then show ?thesis using assms(2,3) by (auto simp: KickGroup_def Let_def)
next
  case False
  define sizes where "sizes = map (\<lambda>p. length (gi_players (gis p))) (sp_groups sp)"
  define k where "k = kick_choice sizes want 0 0 False sizes"
  have ne: "sp_groups sp \<noteq> []" using groups_nonempty [OF assms(1,2)] False by simp
  then have k: "k < length (sp_groups sp)" using kick_choice_bound [of 0 sizes 0 sizes want False] by (simp add: k_def sizes_def)
  define g where "g = sp_groups sp ! k"
  have split: "sp_groups sp = take k (sp_groups sp) @ g # drop (k + 1) (sp_groups sp)"
    using id_take_nth_drop [OF k] by (simp add: g_def)
  have sp': "sp' = \<lparr>sp_groups = take k (sp_groups sp) @ drop (k + 1) (sp_groups sp), sp_count = sp_count sp - of_nat (sz gis g)\<rparr>"
    using assms(3) False k by (simp add: KickGroup_def Let_def k_def sizes_def g_def sz_def)
  have total: "unat (sp_count sp) = headcount gis (sp_groups sp)" using assms(2) by (simp add: selection_ok_def)
  have sum: "headcount gis (sp_groups sp) = headcount gis (take k (sp_groups sp) @ drop (k + 1) (sp_groups sp)) + sz gis g"
    by (subst split) simp
  have "unat (sp_count sp) < 2 ^ 31" using count_le [OF assms(1,2)] assms(1) by (simp add: list_ready_def)
  then have gsz: "unat (of_nat (sz gis g) :: uint32) = sz gis g" using total sum small_count by simp
  have "of_nat (sz gis g) \<le> sp_count sp" using gsz total sum by (simp add: word_le_nat_alt)
  then have u: "unat (sp_count sp - of_nat (sz gis g)) = headcount gis (take k (sp_groups sp) @ drop (k + 1) (sp_groups sp))"
    using gsz total sum by (simp add: unat_sub)
  have mem: "set (take k (sp_groups sp) @ drop (k + 1) (sp_groups sp)) \<subseteq> set (sp_groups sp)"
    using set_take_subset set_drop_subset by fastforce
  have dist: "distinct (take k (sp_groups sp) @ drop (k + 1) (sp_groups sp))"
    using assms(2) split distinct_append [of "take k (sp_groups sp)" "g # drop (k + 1) (sp_groups sp)"] by (simp add: selection_ok_def)
  have "selection_ok gis ps sp'" using assms(2) u mem dist by (auto simp: sp' selection_ok_def list_all_iff)
  then show ?thesis using False k u total sum by (simp add: sp')
qed


section \<open>The balancing loop\<close>

definition within :: "int \<Rightarrow> sel_pool \<Rightarrow> bool" where
  "within free sp \<longleftrightarrow> int (unat (sp_count sp)) \<le> free"

lemma pool_diff_eq:
  assumes "list_ready gis ps" "side_ok gis ps s"
  shows "pool_diff free s = free - int (unat (sp_count (fs_pool s)))"
  using count_sint [OF assms(1) side_selection [OF assms(2)]] by (simp add: pool_diff_def del: of_nat_unat)

lemma unat_word_of_int: "0 \<le> x \<Longrightarrow> x < 2 ^ 31 \<Longrightarrow> int (unat (word_of_int x :: uint32)) = x"
  by (simp add: unsigned_of_int take_bit_int_eq_self)

lemma kick_side_ok:
  assumes ready: "list_ready gis ps" and side: "side_ok gis ps s" and within: "within free (fs_pool s)"
    and desired: "int (unat desired) \<le> free"
  shows "side_ok gis ps (kick_side gis want desired s) \<and> within free (fs_pool (kick_side gis want desired s)) \<and>
    (kick_side gis want desired s = s \<and> sp_count (fs_pool s) = 0 \<or> side_weight (kick_side gis want desired s) < side_weight s)"
proof -
  obtain pre where pre: "ps = pre @ fs_rest s" "selection_ok gis pre (fs_pool s)" using side by (auto simp: side_ok_def)
  have rpre: "list_ready gis pre" using ready pre(1) by (simp add: list_ready_def)
  obtain again sp where k: "KickGroup (\<lambda>p. length (gi_players (gis p))) want (fs_pool s) = (again, sp)" by fastforce
  note K = KickGroup_ok [OF rpre pre(2) k]
  have w1: "within free sp" using within K by (simp add: within_def del: of_nat_unat)
  show ?thesis
  proof (cases again)
    case True
    obtain rest' sp' where a: "add_groups gis desired (fs_rest s) sp = (rest', sp')" by fastforce
    have r: "kick_side gis want desired s = \<lparr>fs_rest = rest', fs_pool = sp'\<rparr>" using True k a by (simp add: kick_side_def)
    note A = add_groups_ok [OF ready pre(1) conjunct1 [OF K] a]
    have "within free sp'" using A w1 desired by (auto simp: within_def simp del: of_nat_unat)
    moreover have "sp_count (fs_pool s) \<noteq> 0 \<Longrightarrow> side_weight \<lparr>fs_rest = fs_rest s, fs_pool = sp\<rparr> < side_weight s"
      using K by (simp add: side_weight_def)
    moreover have "side_weight \<lparr>fs_rest = fs_rest s, fs_pool = fs_pool s\<rparr> = side_weight s" by (simp add: side_weight_def)
    ultimately show ?thesis using A K by (cases "sp_count (fs_pool s) = 0") (auto simp: r)
  next
    case False
    then have r: "kick_side gis want desired s = s\<lparr>fs_pool := sp\<rparr>" using k by (simp add: kick_side_def)
    have "sp_count (fs_pool s) \<noteq> 0" using K False by auto
    then show ?thesis using K w1 pre(1) by (auto simp: r side_ok_def side_weight_def)
  qed
qed

lemma kick_only_ok:
  assumes ready: "list_ready gis ps" and side: "side_ok gis ps s" and within: "within free (fs_pool s)"
  shows "side_ok gis ps (kick_only gis want s) \<and> within free (fs_pool (kick_only gis want s)) \<and>
    (if sp_count (fs_pool s) = 0 then kick_only gis want s = s else side_weight (kick_only gis want s) < side_weight s)"
proof -
  obtain pre where pre: "ps = pre @ fs_rest s" "selection_ok gis pre (fs_pool s)" using side by (auto simp: side_ok_def)
  have rpre: "list_ready gis pre" using ready pre(1) by (simp add: list_ready_def)
  obtain again sp where k: "KickGroup (\<lambda>p. length (gi_players (gis p))) want (fs_pool s) = (again, sp)" by fastforce
  note K = KickGroup_ok [OF rpre pre(2) k]
  show ?thesis using K pre(1) within k by (auto simp: kick_only_def side_ok_def side_weight_def within_def simp del: of_nat_unat)
qed

text \<open>What holds of both teams in every round.\<close>

definition fill_ok :: "(nat \<Rightarrow> bg_info) \<Rightarrow> nat list \<Rightarrow> int \<Rightarrow> fill_side \<Rightarrow> bool" where
  "fill_ok gis ps free s \<longleftrightarrow> side_ok gis ps s \<and> within free (fs_pool s)"

lemma balance_round_ok:
  assumes ready: "list_ready gis ps" "list_ready gis qs" and ok: "fill_ok gis ps free s" "fill_ok gis qs otherFree t"
    and otherDiff: "otherDiff = pool_diff otherFree t" and small: "free < 2 ^ 31"
    and some: "sp_count (fs_pool s) > 0 \<or> sp_count (fs_pool t) > 0"
    and r: "balance_round gis free otherDiff s t = (go, s', t')"
  shows "fill_ok gis ps free s' \<and> fill_ok gis qs otherFree t' \<and>
    (if go then side_weight s' + side_weight t' < side_weight s + side_weight t
     else t' = t \<and> sp_count (fs_pool s') = 0 \<and> free \<le> otherDiff + 1)"
proof -
  define want where "want = (word_of_int (otherDiff - pool_diff free s) :: uint32)"
  define desired where "desired = (if free \<ge> otherDiff then word_of_int (free - otherDiff) else 0 :: uint32)"
  have diff: "0 \<le> otherDiff" using pool_diff_eq [OF ready(2)] ok(2) otherDiff by (simp add: fill_ok_def within_def del: of_nat_unat)
  have d: "int (unat desired) \<le> free"
  proof (cases "free \<ge> otherDiff")
    case True
    then show ?thesis using diff small unat_word_of_int [of "free - otherDiff"] by (simp add: desired_def del: of_nat_unat)
  next
    case False
    have "0 \<le> free" using ok(1) by (simp add: fill_ok_def within_def del: of_nat_unat)
    then show ?thesis using False by (simp add: desired_def)
  qed
  define s1 where "s1 = kick_side gis want desired s"
  have S: "side_ok gis ps s1 \<and> within free (fs_pool s1) \<and> (s1 = s \<and> sp_count (fs_pool s) = 0 \<or> side_weight s1 < side_weight s)"
    unfolding s1_def using ok(1) d by (intro kick_side_ok [OF ready(1)]) (simp_all add: fill_ok_def)
  have T: "side_ok gis qs (kick_only gis want t) \<and> within otherFree (fs_pool (kick_only gis want t)) \<and>
    (if sp_count (fs_pool t) = 0 then kick_only gis want t = t else side_weight (kick_only gis want t) < side_weight t)"
    using ok(2) by (intro kick_only_ok [OF ready(2)]) (simp_all add: fill_ok_def)
  have "balance_round gis free otherDiff s t =
    (if sp_count (fs_pool s1) = 0 then if free \<le> otherDiff + 1 then (False, s1, t) else (True, s1, kick_only gis want t) else (True, s1, t))"
    by (simp only: balance_round_def Let_def s1_def want_def desired_def)
  then have cases: "go = False \<and> s' = s1 \<and> t' = t \<and> sp_count (fs_pool s1) = 0 \<and> free \<le> otherDiff + 1 \<or>
    go = True \<and> s' = s1 \<and> t' = kick_only gis want t \<and> sp_count (fs_pool s1) = 0 \<or> go = True \<and> s' = s1 \<and> t' = t \<and> sp_count (fs_pool s1) \<noteq> 0"
    using r by (simp split: if_splits)
  have dec: "side_weight s1 + side_weight (kick_only gis want t) < side_weight s + side_weight t"
    using S T some by (auto split: if_splits)
  show ?thesis using cases S T ok(2) dec by (elim disjE conjE) (auto simp: fill_ok_def)
qed

definition balanced :: "int \<Rightarrow> int \<Rightarrow> fill_side \<Rightarrow> fill_side \<Rightarrow> bool" where
  "balanced aliFree hordeFree a h \<longleftrightarrow>
     (pool_diff aliFree a + 1 < pool_diff hordeFree h \<longrightarrow> sp_count (fs_pool a) = 0) \<and>
     (pool_diff hordeFree h + 1 < pool_diff aliFree a \<longrightarrow> sp_count (fs_pool h) = 0)"

lemma balance_loop_ends:
  assumes ready: "list_ready gis ps" "list_ready gis qs" and small: "aliFree < 2 ^ 31" "hordeFree < 2 ^ 31"
    and ok: "fill_ok gis ps aliFree a" "fill_ok gis qs hordeFree h"
  shows "\<exists>a' h'. balance_loop gis aliFree hordeFree a h = Some (a', h') \<and> fill_ok gis ps aliFree a' \<and> fill_ok gis qs hordeFree h' \<and>
    balanced aliFree hordeFree a' h'"
  using ok
proof (induction "side_weight a + side_weight h" arbitrary: a h rule: less_induct)
  case less
  let ?dA = "pool_diff aliFree a" and ?dH = "pool_diff hordeFree h"
  note dA = pool_diff_eq [OF ready(1), of a aliFree] and dH = pool_diff_eq [OF ready(2), of h hordeFree]
  show ?case
  proof (cases "\<bar>?dA - ?dH\<bar> > 1 \<and> (sp_count (fs_pool h) > 0 \<or> sp_count (fs_pool a) > 0)")
    case False
    then have "balance_loop gis aliFree hordeFree a h = Some (a, h)" by (subst balance_loop.simps) (simp only: Let_def if_False)
    moreover have "balanced aliFree hordeFree a h" using False by (auto simp: balanced_def simp flip: word_neq_0_conv)
    ultimately show ?thesis using less.prems by blast
  next
    case True
    show ?thesis
    proof (cases "?dA < ?dH")
      case lt: True
      obtain go a' h' where r: "balance_round gis aliFree ?dH a h = (go, a', h')" by (metis prod_cases3)
      have R: "fill_ok gis ps aliFree a' \<and> fill_ok gis qs hordeFree h' \<and>
        (if go then side_weight a' + side_weight h' < side_weight a + side_weight h
         else h' = h \<and> sp_count (fs_pool a') = 0 \<and> aliFree \<le> ?dH + 1)"
        by (rule balance_round_ok [OF ready less.prems refl small(1) _ r]) (use True in blast)
      have e: "balance_loop gis aliFree hordeFree a h = (if go then balance_loop gis aliFree hordeFree a' h' else Some (a', h'))"
        using True lt r by (subst balance_loop.simps) (simp add: Let_def)
      show ?thesis
      proof (cases go)
        case True
        then show ?thesis using R e less.hyps [of a' h'] by simp
      next
        case False
        have "pool_diff aliFree a' = aliFree" using R False by (simp add: pool_diff_def)
        then have "balanced aliFree hordeFree a' h'" using R False by (simp add: balanced_def)
        moreover have "fill_ok gis ps aliFree a'" "fill_ok gis qs hordeFree h'" using R by blast+
        ultimately show ?thesis using e False by simp
      qed
    next
      case ge: False
      obtain go a' h' where r: "balance_round gis hordeFree ?dA h a = (go, h', a')" by (metis prod_cases3)
      have R: "fill_ok gis qs hordeFree h' \<and> fill_ok gis ps aliFree a' \<and>
        (if go then side_weight h' + side_weight a' < side_weight h + side_weight a
         else a' = a \<and> sp_count (fs_pool h') = 0 \<and> hordeFree \<le> ?dA + 1)"
        by (rule balance_round_ok [OF ready(2,1) less.prems(2,1) refl small(2) _ r]) (use True in blast)
      have e: "balance_loop gis aliFree hordeFree a h = (if go then balance_loop gis aliFree hordeFree a' h' else Some (a', h'))"
        using True ge r by (subst balance_loop.simps) (simp add: Let_def)
      show ?thesis
      proof (cases go)
        case True
        then show ?thesis using R e less.hyps [of a' h'] by simp
      next
        case False
        have "pool_diff hordeFree h' = hordeFree" using R False by (simp add: pool_diff_def)
        then have "balanced aliFree hordeFree a' h'" using R False by (simp add: balanced_def)
        moreover have "fill_ok gis ps aliFree a'" "fill_ok gis qs hordeFree h'" using R by blast+
        ultimately show ?thesis using e False by simp
      qed
    qed
  qed
qed


section \<open>Filling\<close>

lemma min_small: "a \<le> b \<Longrightarrow> unat b < 2 ^ 31 \<Longrightarrow> unat a < 2 ^ 31" for a b :: uint32
  by (simp add: word_le_nat_alt)

lemma free_by_size_le: "unat (free_by_size n bt) \<le> unat (bt_maxTeam bt) - unat n"
  by (auto simp: free_by_size_def unat_sub word_less_nat_alt word_le_nat_alt)

text \<open>A team is never given more slots than it has places left.\<close>

lemma free_slots_le:
  assumes "team = TEAM_OF_ALLIANCE \<or> team = TEAM_OF_HORDE"
  shows "unat (GetFreeSlotsForTeam invt team bt) \<le> unat (bt_maxTeam bt) - unat (GetInvitedCount team bt)"
proof -
  have m: "unat (min (min x (free_by_size n bt)) z) \<le> unat (bt_maxTeam bt) - unat n" for x z n
    using free_by_size_le [of n bt] by (auto simp: min_def word_le_nat_alt)
  have "(if team = TEAM_OF_ALLIANCE then TEAM_OF_ALLIANCE else TEAM_OF_HORDE) = team" using assms by auto
  then show ?thesis using m free_by_size_le by (simp add: GetFreeSlotsForTeam_def Let_def)
qed

lemma sint_small: "unat x < 2 ^ 31 \<Longrightarrow> sint x = int (unat x)" for x :: uint32
proof -
  assume "unat x < 2 ^ 31"
  then have "uint x < 2 ^ 31" using of_nat_less_iff [of "unat x" "2 ^ 31", where 'a = int] by (simp del: of_nat_less_iff)
  then have "signed_take_bit 31 (uint x) = uint x"
    by (intro signed_take_bit_int_eq_self) (simp_all add: order_trans [of _ 0])
  then show ?thesis by (simp add: sint_uint)
qed

text \<open>A selection for \<open>free\<close> slots out of a list of groups.\<close>

definition selected_for :: "(nat \<Rightarrow> bg_info) \<Rightarrow> nat list \<Rightarrow> nat \<Rightarrow> sel_pool \<Rightarrow> bool" where
  "selected_for gis ps free sp \<longleftrightarrow> selection_ok gis ps sp \<and> headcount gis (sp_groups sp) \<le> free"

lemma fill_slots_le:
  assumes "unat (bt_maxTeam bt) < 2 ^ 31" "fill_slots w bt b q = (aliFree, hordeFree)"
  shows "0 \<le> aliFree" "aliFree \<le> int (unat (bt_maxTeam bt) - unat (bt_invAlliance bt))"
    "0 \<le> hordeFree" "hordeFree \<le> int (unat (bt_maxTeam bt) - unat (bt_invHorde bt))" "aliFree < 2 ^ 31" "hordeFree < 2 ^ 31"
proof -
  let ?A = "GetFreeSlotsForTeam (bw_invitation w) TEAM_OF_ALLIANCE bt" and ?H = "GetFreeSlotsForTeam (bw_invitation w) TEAM_OF_HORDE bt"
  have A: "unat ?A \<le> unat (bt_maxTeam bt) - unat (bt_invAlliance bt)" and H: "unat ?H \<le> unat (bt_maxTeam bt) - unat (bt_invHorde bt)"
    using free_slots_le [of TEAM_OF_ALLIANCE] free_slots_le [of TEAM_OF_HORDE] by (simp_all add: GetInvitedCount_def)
  have sA: "sint ?A = int (unat ?A)" and sH: "sint ?H = int (unat ?H)"
    using A H assms(1) by (intro sint_small; simp)+
  have e: "0 \<le> fst (even_slots invt a h ac hc) \<and> fst (even_slots invt a h ac hc) \<le> a \<and>
    0 \<le> snd (even_slots invt a h ac hc) \<and> snd (even_slots invt a h ac hc) \<le> h" if "0 \<le> a" "0 \<le> h" for invt a h ac hc
    using that by (auto simp: even_slots_def)
  have f: "0 \<le> aliFree \<and> aliFree \<le> int (unat ?A) \<and> 0 \<le> hordeFree \<and> hordeFree \<le> int (unat ?H)"
    using e [of "int (unat ?A)" "int (unat ?H)"] assms(2) by (simp add: fill_slots_def sA sH del: of_nat_unat) (metis fst_conv snd_conv)
  show "0 \<le> aliFree" "0 \<le> hordeFree" using f by simp_all
  show a: "aliFree \<le> int (unat (bt_maxTeam bt) - unat (bt_invAlliance bt))" using f A by linarith
  show h: "hordeFree \<le> int (unat (bt_maxTeam bt) - unat (bt_invHorde bt))" using f H by linarith
  have "unat (bt_maxTeam bt) - n < 2 ^ 31" for n using assms(1) by simp
  then have "int (unat (bt_maxTeam bt) - n) < 2 ^ 31" for n by (simp only: of_nat_less_numeral_power_cancel_iff)
  then show "aliFree < 2 ^ 31" "hordeFree < 2 ^ 31" using a h order.strict_trans1 by blast+
qed

lemma fill_start_ok:
  assumes "list_ready (\<lambda>p. info p q) (bq_lists q b (BG_NORMAL + t))" "bq_pools q t = pool_init" "0 \<le> free" "free < 2 ^ 31"
  shows "fill_ok (\<lambda>p. info p q) (bq_lists q b (BG_NORMAL + t)) free (fill_start q b t free)"
proof -
  obtain rest sp where a: "add_groups (\<lambda>p. info p q) (word_of_int free) (bq_lists q b (BG_NORMAL + t)) pool_init = (rest, sp)" by fastforce
  have r: "fill_start q b t free = \<lparr>fs_rest = rest, fs_pool = sp\<rparr>" by (simp only: fill_start_def assms(2) a prod.case)
  have "selection_ok (\<lambda>p. info p q) [] pool_init" by (simp add: selection_ok_def pool_init_def)
  from add_groups_ok [OF assms(1) _ this a] show ?thesis
    using unat_word_of_int [OF assms(3,4)] by (auto simp: r fill_ok_def within_def pool_init_def simp del: of_nat_unat)
qed

lemma fill_selected:
  assumes "fill_ok gis ps free s" "free \<le> int n"
  shows "selected_for gis ps n (fs_pool s)"
  using assms side_selection [of gis ps s] by (auto simp: fill_ok_def selected_for_def within_def selection_ok_def simp del: of_nat_unat)

lemma FillPlayersToBG_result:
  assumes ready: "list_ready (\<lambda>p. info p q) (bq_lists q b BG_NORMAL)" "list_ready (\<lambda>p. info p q) (bq_lists q b (BG_NORMAL + 1))"
    and pools: "bq_pools q 0 = pool_init" "bq_pools q 1 = pool_init"
    and max: "unat (bt_maxTeam bt) < 2 ^ 31" and slots: "fill_slots w bt b q = (aliFree, hordeFree)"
  shows "\<exists>q' sa sh. FillPlayersToBG w bt b q = Some q' \<and> q' = on_pool 1 (\<lambda>_. sh) (on_pool 0 (\<lambda>_. sa) q) \<and>
    selected_for (\<lambda>p. info p q) (bq_lists q b BG_NORMAL) (unat (bt_maxTeam bt) - unat (bt_invAlliance bt)) (bq_pools q' 0) \<and>
    selected_for (\<lambda>p. info p q) (bq_lists q b (BG_NORMAL + 1)) (unat (bt_maxTeam bt) - unat (bt_invHorde bt)) (bq_pools q' 1) \<and>
    (bw_invitation w \<noteq> NO_BALANCE \<longrightarrow>
      (let a = aliFree - int (unat (sp_count (bq_pools q' 0))); h = hordeFree - int (unat (sp_count (bq_pools q' 1)))
       in (a + 1 < h \<longrightarrow> sp_groups (bq_pools q' 0) = []) \<and> (h + 1 < a \<longrightarrow> sp_groups (bq_pools q' 1) = [])))"
proof -
  let ?gis = "\<lambda>p. info p q" and ?A = "bq_lists q b BG_NORMAL" and ?H = "bq_lists q b (BG_NORMAL + 1)"
  note F = fill_slots_le [OF max slots]
  have a: "fill_ok ?gis ?A aliFree (fill_start q b 0 aliFree)" using fill_start_ok [of q b 0 aliFree] ready(1) pools(1) F by simp
  have h: "fill_ok ?gis ?H hordeFree (fill_start q b 1 hordeFree)" using fill_start_ok [of q b 1 hordeFree] ready(2) pools(2) F by simp
  have ends: "\<exists>a' h'. (if bw_invitation w = NO_BALANCE then Some (fill_start q b 0 aliFree, fill_start q b 1 hordeFree)
        else balance_loop ?gis aliFree hordeFree (fill_start q b 0 aliFree) (fill_start q b 1 hordeFree)) = Some (a', h') \<and>
      fill_ok ?gis ?A aliFree a' \<and> fill_ok ?gis ?H hordeFree h' \<and> (bw_invitation w \<noteq> NO_BALANCE \<longrightarrow> balanced aliFree hordeFree a' h')"
    using a h balance_loop_ends [OF ready F(5,6) a h] by simp
  then obtain a' h' where e: "(if bw_invitation w = NO_BALANCE then Some (fill_start q b 0 aliFree, fill_start q b 1 hordeFree)
        else balance_loop ?gis aliFree hordeFree (fill_start q b 0 aliFree) (fill_start q b 1 hordeFree)) = Some (a', h')"
    and ok: "fill_ok ?gis ?A aliFree a'" "fill_ok ?gis ?H hordeFree h'" and bal: "bw_invitation w \<noteq> NO_BALANCE \<longrightarrow> balanced aliFree hordeFree a' h'"
    by blast
  define q' where "q' = on_pool 1 (\<lambda>_. fs_pool h') (on_pool 0 (\<lambda>_. fs_pool a') q)"
  have q': "FillPlayersToBG w bt b q = Some q'" by (simp only: FillPlayersToBG_def slots Let_def prod.case e q'_def option.map)
  have p: "bq_pools q' 0 = fs_pool a'" "bq_pools q' 1 = fs_pool h'" by (simp_all add: q'_def on_pool_def)
  have side: "side_ok ?gis ?A a'" "side_ok ?gis ?H h'" using ok by (simp_all add: fill_ok_def)
  note none = groups_nonempty [OF ready(1) side_selection [OF side(1)]] groups_nonempty [OF ready(2) side_selection [OF side(2)]]
  show ?thesis
    using q' fill_selected [OF ok(1) F(2)] fill_selected [OF ok(2) F(4)] bal none
      pool_diff_eq [OF ready(1) side(1), of aliFree] pool_diff_eq [OF ready(2) side(2), of hordeFree]
    by (intro exI [of _ q'] exI [of _ "fs_pool a'"] exI [of _ "fs_pool h'"]) (simp add: p balanced_def q'_def [symmetric] Let_def del: of_nat_unat One_nat_def)
qed

section \<open>Claims\<close>

text \<open>C6: Filling a running battleground ends.  For each team it selects groups of that team's queue
  that are not invited, each once, with no more players than the team has places left; and unless balance is switched off, the
  slots that the teams would have left differ by at most one, or the team with fewer left gets nobody.\<close>

theorem FillPlayersToBG_fits:
  assumes ready: "list_ready (\<lambda>p. info p q) (bq_lists q b BG_NORMAL)" "list_ready (\<lambda>p. info p q) (bq_lists q b (BG_NORMAL + 1))"
    and pools: "bq_pools q 0 = pool_init" "bq_pools q 1 = pool_init"
    and max: "unat (bt_maxTeam bt) < 2 ^ 31" and slots: "fill_slots w bt b q = (aliFree, hordeFree)"
  shows "\<exists>q'. FillPlayersToBG w bt b q = Some q' \<and>
    selected_for (\<lambda>p. info p q) (bq_lists q b BG_NORMAL) (unat (bt_maxTeam bt) - unat (bt_invAlliance bt)) (bq_pools q' 0) \<and>
    selected_for (\<lambda>p. info p q) (bq_lists q b (BG_NORMAL + 1)) (unat (bt_maxTeam bt) - unat (bt_invHorde bt)) (bq_pools q' 1) \<and>
    (bw_invitation w \<noteq> NO_BALANCE \<longrightarrow>
      (let a = aliFree - int (unat (sp_count (bq_pools q' 0))); h = hordeFree - int (unat (sp_count (bq_pools q' 1)))
       in (a + 1 < h \<longrightarrow> sp_groups (bq_pools q' 0) = []) \<and> (h + 1 < a \<longrightarrow> sp_groups (bq_pools q' 1) = [])))"
  using FillPlayersToBG_result [OF ready pools max slots] by blast

definition sample_bg :: battleground where
  "sample_bg = \<lparr>bt_id = 5, bt_type = 2, bt_bracket = 0, bt_arenaType = 0, bt_arena = False, bt_rated = False, bt_status = BG_STATUS_IN_PROGRESS,
     bt_minTeam = 1, bt_maxTeam = 4, bt_maxAll = 8, bt_size = 3, bt_inAlliance = 1, bt_inHorde = 2, bt_invAlliance = 1, bt_invHorde = 2,
     bt_inFree = True\<rparr>"

definition sample_bg_world :: bg_world where
  "sample_bg_world = \<lparr>bw_time = 1000, bw_connected = (\<lambda>g. True), bw_queueSlot = (\<lambda>g qt. 0), bw_invitation = BALANCED,
     bw_template = (\<lambda>t. Some \<lparr>tp_arena = False, tp_min = 1, tp_max = 4\<rparr>), bw_bracketKnown = (\<lambda>t b. True),
     bw_create = (\<lambda>t b at r n. Some sample_bg), bw_arenaTeamSize = (\<lambda>i. None), bw_testing = False, bw_arenaTesting = False,
     bw_premadeWait = 0, bw_maxRatingDiff = 0, bw_discardTimer = 0, bw_deserters = False, bw_announceArena = False,
     bw_announce1v1 = False, bw_announceQueue = False, bw_announceSelf = False\<rparr>"

text \<open>One of the alliance and two groups of the horde are waiting.\<close>

definition sample_bg_queue :: bg_queue where
  "sample_bg_queue = bg_queue_init\<lparr>
     bq_players := [(11, (0, 0)), (12, (0, 1)), (13, (0, 1)), (14, (0, 2))],
     bq_infos := [(0, bg_info_init\<lparr>gi_players := [11], gi_team := TEAM_OF_ALLIANCE\<rparr>),
       (1, bg_info_init\<lparr>gi_players := [12, 13], gi_team := TEAM_OF_HORDE\<rparr>), (2, bg_info_init\<lparr>gi_players := [14], gi_team := TEAM_OF_HORDE\<rparr>)],
     bq_next := 3, bq_lists := (\<lambda>b j. if b = 0 \<and> j = 2 then [0] else if b = 0 \<and> j = 3 then [1, 2] else [])\<rparr>"

theorem FillPlayersToBG_fits_witness:
  "\<exists>q'. FillPlayersToBG sample_bg_world sample_bg 0 sample_bg_queue = Some q' \<and>
    selected_for (\<lambda>p. info p sample_bg_queue) [0] 3 (bq_pools q' 0) \<and> selected_for (\<lambda>p. info p sample_bg_queue) [1, 2] 2 (bq_pools q' 1)"
proof -
  have h: "list_ready (\<lambda>p. info p sample_bg_queue) (bq_lists sample_bg_queue 0 BG_NORMAL)"
    "list_ready (\<lambda>p. info p sample_bg_queue) (bq_lists sample_bg_queue 0 (BG_NORMAL + 1))"
    "bq_pools sample_bg_queue 0 = pool_init" "bq_pools sample_bg_queue 1 = pool_init" "unat (bt_maxTeam sample_bg) < 2 ^ 31"
    by (simp_all add: list_ready_def sz_def info_def om_at_def pool_init_def sample_bg_queue_def bg_queue_init_def sample_bg_def)
  obtain a h' where s: "fill_slots sample_bg_world sample_bg 0 sample_bg_queue = (a, h')" by fastforce
  have v: "bq_lists sample_bg_queue 0 BG_NORMAL = [0]" "bq_lists sample_bg_queue 0 (BG_NORMAL + 1) = [1, 2]"
    "unat (bt_maxTeam sample_bg) - unat (bt_invAlliance sample_bg) = 3" "unat (bt_maxTeam sample_bg) - unat (bt_invHorde sample_bg) = 2"
    by (simp_all add: sample_bg_queue_def sample_bg_def)
  show ?thesis using FillPlayersToBG_fits [OF h s] unfolding v by blast
qed

end
