(* ===== verification/BgMembers.thy ===== *)
theory BgMembers
  imports BgFill
begin

text \<open>
  Who is in the queue: every player in the queue is in exactly one group, every group in exactly one list, which
  belongs to the group's team, and no group is empty.  Every operation of the queue keeps this, and so the
  update of the queue always ends.
\<close>

section \<open>The part of the state that says who waits where\<close>

definition group_core :: "bg_info \<Rightarrow> guid list \<times> uint32" where
  "group_core gi = (gi_players gi, gi_team gi)"

definition bg_core :: "bg_queue \<Rightarrow> (guid, uint32 \<times> nat) stdmap \<times> (nat, guid list \<times> uint32) stdmap \<times> (nat \<Rightarrow> nat \<Rightarrow> nat list) \<times> nat" where
  "bg_core q = (bq_players q, map (\<lambda>(p, gi). (p, group_core gi)) (bq_infos q), bq_lists q, bq_next q)"

abbreviation known :: "bg_queue \<Rightarrow> nat set" where
  "known q \<equiv> om_keys (bq_infos q)"

definition members_of :: "nat \<Rightarrow> bg_queue \<Rightarrow> guid set" where
  "members_of p q = set (gi_players (info p q))"

text \<open>The list \<open>j\<close> is one of the team: the odd ones are those of the horde.\<close>

definition team_list :: "uint32 \<Rightarrow> nat \<Rightarrow> bool" where
  "team_list team j \<longleftrightarrow> j < 4 \<and> (odd j \<longleftrightarrow> team = TEAM_OF_HORDE)"

text \<open>Every known group stands once in one list, and that list is one of its team.\<close>

definition lists_ok :: "(nat \<Rightarrow> uint32) \<Rightarrow> nat set \<Rightarrow> (nat \<Rightarrow> nat \<Rightarrow> nat list) \<Rightarrow> bool" where
  "lists_ok T K ls \<longleftrightarrow>
     (\<forall>b j. distinct (ls b j)) \<and>
     (\<forall>b j p. p \<in> set (ls b j) \<longrightarrow> p \<in> K \<and> b < MAX_BRACKETS \<and> team_list (T p) j) \<and>
     (\<forall>b j b' j' p. p \<in> set (ls b j) \<and> p \<in> set (ls b' j') \<longrightarrow> b' = b \<and> j' = j) \<and>
     (\<forall>p\<in>K. \<exists>b j. p \<in> set (ls b j))"

text \<open>Players and groups name each other.\<close>

definition members_ok :: "bg_queue \<Rightarrow> bool" where
  "members_ok q \<longleftrightarrow>
     om_ok (bq_players q) \<and> om_ok (bq_infos q) \<and> (\<forall>p\<in>known q. p < bq_next q) \<and>
     (\<forall>g t p. om_find (bq_players q) g = Some (t, p) \<longrightarrow> p \<in> known q \<and> g \<in> members_of p q) \<and>
     (\<forall>p\<in>known q. (\<forall>g\<in>members_of p q. \<exists>t. om_find (bq_players q) g = Some (t, p)) \<and>
        members_of p q \<noteq> {} \<and> os_ok (gi_players (info p q)) \<and> gi_team (info p q) \<in> {TEAM_OF_ALLIANCE, TEAM_OF_HORDE})"

definition bq_ok :: "bg_queue \<Rightarrow> bool" where
  "bq_ok q \<longleftrightarrow> members_ok q \<and> lists_ok (\<lambda>p. gi_team (info p q)) (known q) (bq_lists q)"

lemma find_core: "om_find (map (\<lambda>(p, gi). (p, f gi)) m) p = map_option f (om_find m p)"
  by (induction m p rule: om_find.induct) auto

lemma keys_core: "om_keys (map (\<lambda>(p, gi). (p, f gi)) m) = om_keys m"
  by (force simp: om_keys_def)

lemma coreD:
  assumes "bg_core q' = bg_core q"
  shows "bq_players q' = bq_players q" "known q' = known q" "om_ok (bq_infos q') = om_ok (bq_infos q)" "bq_lists q' = bq_lists q"
    "bq_next q' = bq_next q" "gi_players (info p q') = gi_players (info p q)" "gi_team (info p q') = gi_team (info p q)"
    "members_of p q' = members_of p q"
proof -
  have eqs: "bq_players q' = bq_players q" "bq_lists q' = bq_lists q" "bq_next q' = bq_next q"
    and m: "map (\<lambda>(p, gi). (p, group_core gi)) (bq_infos q') = map (\<lambda>(p, gi). (p, group_core gi)) (bq_infos q)"
    using assms by (simp_all add: bg_core_def)
  show "bq_players q' = bq_players q" "bq_lists q' = bq_lists q" "bq_next q' = bq_next q" by (rule eqs)+
  show "known q' = known q" using arg_cong [OF m, of om_keys] by (simp only: keys_core)
  have "map fst (bq_infos q') = map fst (bq_infos q)" using arg_cong [OF m, of "map fst"] by (simp add: comp_def case_prod_unfold)
  then show "om_ok (bq_infos q') = om_ok (bq_infos q)" by (simp add: om_ok_def)
  have "map_option group_core (om_find (bq_infos q') p) = map_option group_core (om_find (bq_infos q) p)"
    using arg_cong [OF m, of "\<lambda>m. om_find m p"] by (simp only: find_core)
  then have "group_core (info p q') = group_core (info p q)"
    by (cases "om_find (bq_infos q') p"; cases "om_find (bq_infos q) p") (simp_all add: info_def om_at_def)
  then show "gi_players (info p q') = gi_players (info p q)" "gi_team (info p q') = gi_team (info p q)" "members_of p q' = members_of p q"
    by (simp_all add: group_core_def members_of_def)
qed

lemma bq_ok_core:
  assumes "bg_core q' = bg_core q"
  shows "bq_ok q' = bq_ok q" "members_ok q' = members_ok q"
  unfolding bq_ok_def members_ok_def by (simp_all only: coreD [OF assms])

section \<open>What leaves it alone\<close>

lemma core_frames [simp]: "bg_core (bfx es q) = bg_core q" "bg_core (on_bg i f q) = bg_core q" "bg_core (AddEvent d ev q) = bg_core q"
  "bg_core (on_pool t f' q) = bg_core q" "bg_core (PlayerInvitedToBGUpdateAverageWaitTime w gi b q) = bg_core q"
  "bg_core (AddToBGFreeSlotQueue i q) = bg_core q" "bg_core (RemoveFromBGFreeSlotQueue i q) = bg_core q" "bg_core (StartBattleground i q) = bg_core q"
  "bg_core (q\<lparr>bq_events := evs\<rparr>) = bg_core q" "bg_core (q\<lparr>bq_now := now\<rparr>) = bg_core q" "bg_core (init_pools q) = bg_core q"
  by (simp_all add: bg_core_def bfx_def on_bg_def AddEvent_def on_pool_def PlayerInvitedToBGUpdateAverageWaitTime_def Let_def
      AddToBGFreeSlotQueue_def RemoveFromBGFreeSlotQueue_def StartBattleground_def init_pools_def split: option.split)

lemma core_on_ginfo:
  assumes "om_ok (bq_infos q)" "p \<in> known q" "group_core (f (info p q)) = group_core (info p q)"
  shows "bg_core (on_ginfo p f q) = bg_core q"
proof -
  obtain gi where gi: "om_find (bq_infos q) p = Some gi" using assms(2) by (auto simp: om_find_keys)
  then have i: "info p q = gi" by (simp add: info_def om_at_def)
  from om_find_mem [OF gi] obtain pre suf where s: "bq_infos q = pre @ (p, gi) # suf" by (auto dest: split_list)
  have "om_put p (f gi) (bq_infos q) = pre @ (p, f gi) # suf" using om_put_present [of pre p gi suf] assms(1) s by simp
  then show ?thesis using assms(3) i s by (simp add: bg_core_def on_ginfo_def)
qed

lemma core_invite_player: "bg_core (invite_player w p i g q) = bg_core q"
  by (simp add: invite_player_def Let_def split: option.split)

lemma core_fold: "(\<And>x q. bg_core (f x q) = bg_core q) \<Longrightarrow> bg_core (fold f xs q) = bg_core q"
  by (induction xs arbitrary: q) simp_all

lemma core_Invite:
  assumes "om_ok (bq_infos q)" "p \<in> known q" "side = 0 \<or> side = gi_team (info p q)"
  shows "bg_core (InviteGroupToBG w p i side q) = bg_core q"
proof -
  define q1 where "q1 = (if side \<noteq> 0 then on_ginfo p (\<lambda>gi. gi\<lparr>gi_team := side\<rparr>) q else q)"
  have c1: "bg_core q1 = bg_core q" using assms by (auto simp: q1_def group_core_def intro: core_on_ginfo)
  define q2 where "q2 = on_ginfo p (\<lambda>gi. gi\<lparr>gi_invited := i\<rparr>) q1"
  have c2: "bg_core q2 = bg_core q" unfolding q2_def using assms c1 coreD(2,3) [OF c1] by (subst core_on_ginfo) (simp_all add: group_core_def)
  define q3 where "q3 = (case om_find (bq_bgs q2) i of None \<Rightarrow> q2
                        | Some bt \<Rightarrow> if bt_arena bt \<and> bt_rated bt
                                     then bfx [ArenaTeamIdFor i (gi_team (info p q2)) (gi_arenaTeam (info p q2))] q2 else q2)"
  have c3: "bg_core q3 = bg_core q" using c2 by (simp add: q3_def split: option.split)
  define q4 where "q4 = on_ginfo p (\<lambda>gi. gi\<lparr>gi_removeInvite := bw_time w + INVITE_ACCEPT_WAIT_TIME\<rparr>) q3"
  have c4: "bg_core q4 = bg_core q" unfolding q4_def using assms c3 coreD(2,3) [OF c3] by (subst core_on_ginfo) (simp_all add: group_core_def)
  have "InviteGroupToBG w p i side q = (if gi_invited (info p q1) \<noteq> 0 then q1 else fold (invite_player w p i) (gi_players (info p q4)) q4)"
    by (simp only: InviteGroupToBG_def Let_def q1_def q2_def q3_def q4_def)
  then show ?thesis using c1 c4 core_fold [where f = "invite_player w p i", OF core_invite_player] by simp
qed


section \<open>The lists\<close>

definition moved :: "nat \<Rightarrow> nat \<Rightarrow> nat \<Rightarrow> (nat list \<Rightarrow> nat list) \<Rightarrow> nat \<Rightarrow> (nat \<Rightarrow> nat \<Rightarrow> nat list) \<Rightarrow> nat \<Rightarrow> nat \<Rightarrow> nat list" where
  "moved b j j' rem p ls b' i = (if b' = b \<and> i = j then rem (ls b j) else if b' = b \<and> i = j' then p # ls b j' else ls b' i)"

lemma lists_okD:
  assumes "lists_ok T K ls"
  shows "distinct (ls b j)" "p \<in> set (ls b j) \<Longrightarrow> p \<in> K \<and> b < MAX_BRACKETS \<and> team_list (T p) j"
    "p \<in> set (ls b j) \<Longrightarrow> p \<in> set (ls b' j') \<Longrightarrow> b' = b \<and> j' = j" "p \<in> K \<Longrightarrow> \<exists>b j. p \<in> set (ls b j)"
  using assms unfolding lists_ok_def by blast+

lemma lists_ok_cong:
  assumes "\<And>p. p \<in> K \<Longrightarrow> T p = T' p"
  shows "lists_ok T K ls = lists_ok T' K ls"
proof -
  have "(p \<in> K \<and> B \<and> team_list (T p) j) = (p \<in> K \<and> B \<and> team_list (T' p) j)" for p j B using assms by auto
  then show ?thesis by (simp only: lists_ok_def)
qed

lemma lists_okI:
  assumes "\<And>c i. distinct (ls c i)" "\<And>x c i. x \<in> set (ls c i) \<Longrightarrow> x \<in> K \<and> c < MAX_BRACKETS \<and> team_list (T x) i"
    "\<And>x c i c' i'. x \<in> set (ls c i) \<Longrightarrow> x \<in> set (ls c' i') \<Longrightarrow> c' = c \<and> i' = i" "\<And>x. x \<in> K \<Longrightarrow> \<exists>c i. x \<in> set (ls c i)"
  shows "lists_ok T K ls"
  unfolding lists_ok_def using assms by blast

text \<open>A group of its own place: who stands where after a move.\<close>

lemma lists_move:
  assumes ok: "lists_ok T K ls" and p: "p \<in> set (ls b j)" and j': "j' \<noteq> j" "team_list t j'"
    and rem: "distinct (rem (ls b j))" "set (rem (ls b j)) = set (ls b j) - {p}"
  shows "lists_ok (T(p := t)) K (moved b j j' rem p ls)"
proof -
  note D = lists_okD [OF ok]
  have pK: "p \<in> K" "b < MAX_BRACKETS" using D(2) [OF p] by simp_all
  have only: "p \<in> set (ls c i) \<Longrightarrow> c = b \<and> i = j" for c i using D(3) [OF p, of c i] by simp
  have mem: "x \<in> set (moved b j j' rem p ls c i) \<longleftrightarrow> (if x = p then c = b \<and> i = j' else x \<in> set (ls c i))" for x c i
  proof (cases "c = b \<and> (i = j \<or> i = j')")
    case True
    then show ?thesis using rem(2) j'(1) by (auto simp: moved_def)
  next
    case False
    then have "moved b j j' rem p ls c i = ls c i" "\<not> (c = b \<and> i = j')" unfolding moved_def by presburger+
    moreover have "p \<notin> set (ls c i)" using only [of c i] False by blast
    ultimately show ?thesis by metis
  qed
  show ?thesis
  proof (rule lists_okI)
    show "distinct (moved b j j' rem p ls c i)" for c i
    proof -
      have "p \<notin> set (ls b j')" using only [of b j'] j'(1) by blast
      then show ?thesis using D(1) [of c i] D(1) [of b j'] rem(1) by (simp add: moved_def)
    qed
    show "x \<in> K \<and> c < MAX_BRACKETS \<and> team_list ((T(p := t)) x) i" if "x \<in> set (moved b j j' rem p ls c i)" for x c i
      using that D(2) [of x c i] pK j'(2) unfolding mem by (cases "x = p") simp_all
    show "c' = c \<and> i' = i" if "x \<in> set (moved b j j' rem p ls c i)" "x \<in> set (moved b j j' rem p ls c' i')" for x c i c' i'
      using that D(3) [of x c i c' i'] unfolding mem by (cases "x = p") simp_all
    show "\<exists>c i. x \<in> set (moved b j j' rem p ls c i)" if "x \<in> K" for x
      using D(4) [OF that] unfolding mem by (cases "x = p") simp_all
  qed
qed

lemma lists_add:
  assumes ok: "lists_ok T K ls" and p: "p \<notin> K" and b: "b < MAX_BRACKETS" and t: "team_list t j"
  shows "lists_ok (T(p := t)) (insert p K) (ls(b := (ls b)(j := ls b j @ [p])))"
proof -
  note D = lists_okD [OF ok]
  let ?ls = "ls(b := (ls b)(j := ls b j @ [p]))"
  have new: "p \<notin> set (ls c i)" for c i using D(2) [of p c i] p by blast
  have mem: "x \<in> set (?ls c i) \<longleftrightarrow> (if x = p then c = b \<and> i = j else x \<in> set (ls c i))" for x c i 
    using new [of c i] new [of b j] by (cases "c = b"; cases "i = j") auto
  show ?thesis
  proof (rule lists_okI)
    show "distinct (?ls c i)" for c i using D(1) [of c i] D(1) [of b j] new [of b j] by (cases "c = b"; cases "i = j") simp_all
    show "x \<in> insert p K \<and> c < MAX_BRACKETS \<and> team_list ((T(p := t)) x) i" if "x \<in> set (?ls c i)" for x c i
      using that D(2) [of x c i] b t unfolding mem by (cases "x = p") simp_all
    show "c' = c \<and> i' = i" if "x \<in> set (?ls c i)" "x \<in> set (?ls c' i')" for x c i c' i'
      using that D(3) [of x c i c' i'] unfolding mem by (cases "x = p") simp_all
    show "\<exists>c i. x \<in> set (?ls c i)" if "x \<in> insert p K" for x
      using that D(4) [of x] unfolding mem by (cases "x = p") simp_all
  qed
qed

lemma lists_remove:
  assumes ok: "lists_ok T K ls" and p: "p \<in> set (ls b j)"
  shows "lists_ok T (K - {p}) (ls(b := (ls b)(j := remove1 p (ls b j))))"
proof -
  note D = lists_okD [OF ok]
  let ?ls = "ls(b := (ls b)(j := remove1 p (ls b j)))"
  have only: "p \<in> set (ls c i) \<Longrightarrow> c = b \<and> i = j" for c i using D(3) [OF p, of c i] by simp
  have mem: "x \<in> set (?ls c i) \<longleftrightarrow> x \<noteq> p \<and> x \<in> set (ls c i)" for x c i
  proof (cases "c = b \<and> i = j")
    case True
    then show ?thesis using D(1) [of b j] by auto
  next
    case False
    then show ?thesis using only [of c i] by auto
  qed
  show ?thesis
  proof (rule lists_okI)
    show "distinct (?ls c i)" for c i using D(1) [of c i] D(1) [of b j] by (cases "c = b"; cases "i = j") (simp_all add: distinct_remove1)
    show "x \<in> K - {p} \<and> c < MAX_BRACKETS \<and> team_list (T x) i" if "x \<in> set (?ls c i)" for x c i
      using that D(2) [of x c i] unfolding mem by simp
    show "c' = c \<and> i' = i" if "x \<in> set (?ls c i)" "x \<in> set (?ls c' i')" for x c i c' i'
      using that D(3) [of x c i c' i'] unfolding mem by simp
    show "\<exists>c i. x \<in> set (?ls c i)" if "x \<in> K - {p}" for x
      using that D(4) [of x] unfolding mem by simp
  qed
qed

section \<open>Joining\<close>

lemma info_on_ginfo [simp]: "info p' (on_ginfo p f q) = (if p' = p then f (info p q) else info p' q)"
  by (simp add: info_def on_ginfo_def om_at_def)

lemma on_ginfo_fields [simp]: "bq_players (on_ginfo p f q) = bq_players q" "bq_lists (on_ginfo p f q) = bq_lists q"
  "bq_next (on_ginfo p f q) = bq_next q" "known (on_ginfo p f q) = insert p (known q)"
  "om_ok (bq_infos q) \<Longrightarrow> om_ok (bq_infos (on_ginfo p f q))"
  by (simp_all add: on_ginfo_def)

lemma info_players [simp]: "info p (q\<lparr>bq_players := m\<rparr>) = info p q" "info p (q\<lparr>bq_next := n\<rparr>) = info p q"
  by (simp_all add: info_def)

lemma enqueue_fields [simp]: "bq_players (queue_player w p g q) = om_put g (bw_time w, p) (bq_players q)"
  "bq_lists (queue_player w p g q) = bq_lists q" "bq_next (queue_player w p g q) = bq_next q"
  "known (queue_player w p g q) = insert p (known q)"
  "om_ok (bq_infos q) \<Longrightarrow> om_ok (bq_infos (queue_player w p g q))"
  "info p' (queue_player w p g q) =
     (if p' = p then (info p q)\<lparr>gi_players := os_insert g (gi_players (info p q))\<rparr> else info p' q)"
  by (simp_all add: queue_player_def)

lemma enqueue_all:
  fixes w p gs q
  defines "q' \<equiv> fold (queue_player w p) gs q"
  shows "om_find (bq_players q') g = (if g \<in> set gs then Some (bw_time w, p) else om_find (bq_players q) g)"
    "om_ok (bq_players q) \<Longrightarrow> om_ok (bq_players q')" "om_ok (bq_infos q) \<Longrightarrow> om_ok (bq_infos q')"
    "p \<in> known q \<Longrightarrow> known q' = known q" "bq_lists q' = bq_lists q" "bq_next q' = bq_next q"
    "p' \<noteq> p \<Longrightarrow> info p' q' = info p' q" "gi_team (info p q') = gi_team (info p q)"
    "gi_players (info p q') = fold os_insert gs (gi_players (info p q))"
proof -
  show "om_find (bq_players q') g = (if g \<in> set gs then Some (bw_time w, p) else om_find (bq_players q) g)"
    unfolding q'_def by (induction gs arbitrary: q) auto
  show "om_ok (bq_players q) \<Longrightarrow> om_ok (bq_players q')" unfolding q'_def by (induction gs arbitrary: q) simp_all
  show "om_ok (bq_infos q) \<Longrightarrow> om_ok (bq_infos q')" unfolding q'_def by (induction gs arbitrary: q) simp_all
  show "p \<in> known q \<Longrightarrow> known q' = known q" unfolding q'_def by (induction gs arbitrary: q) auto
  show "bq_lists q' = bq_lists q" unfolding q'_def by (induction gs arbitrary: q) simp_all
  show "bq_next q' = bq_next q" unfolding q'_def by (induction gs arbitrary: q) simp_all
  show "p' \<noteq> p \<Longrightarrow> info p' q' = info p' q" unfolding q'_def by (induction gs arbitrary: q) simp_all
  show "gi_team (info p q') = gi_team (info p q)" unfolding q'_def by (induction gs arbitrary: q) simp_all
  show "gi_players (info p q') = fold os_insert gs (gi_players (info p q))" unfolding q'_def by (induction gs arbitrary: q) simp_all
qed

lemma on_list_fields [simp]: "bq_players (on_list b j f q) = bq_players q" "bq_infos (on_list b j f q) = bq_infos q"
  "bq_next (on_list b j f q) = bq_next q" "info p (on_list b j f q) = info p q" "members_of p (on_list b j f q) = members_of p q"
  "bq_lists (on_list b j f q) = (bq_lists q)(b := (bq_lists q b)(j := f (bq_lists q b j)))"
  by (simp_all add: on_list_def info_def members_of_def)

lemma bfx_fields [simp]: "bq_players (bfx es q) = bq_players q" "bq_infos (bfx es q) = bq_infos q"
  "bq_next (bfx es q) = bq_next q" "info p (bfx es q) = info p q" "bq_lists (bfx es q) = bq_lists q"
  by (simp_all add: bfx_def info_def)

lemma team_list_index: "team_list team (queue_index rated premade team)"
  by (auto simp: team_list_def queue_index_def)

lemma os_fold_insert: "set (fold os_insert gs s) = set gs \<union> set s" "os_ok s \<Longrightarrow> os_ok (fold os_insert gs s)"
  by (induction gs arbitrary: s) auto

text \<open>Those who join: the leader alone, or all members of his group.\<close>

definition joining :: "guid \<Rightarrow> guid list option \<Rightarrow> guid list" where
  "joining leader grp = (case grp of None \<Rightarrow> [leader] | Some gs \<Rightarrow> gs)"

definition may_join :: "guid \<Rightarrow> uint32 \<Rightarrow> guid list option \<Rightarrow> nat \<Rightarrow> bg_queue \<Rightarrow> bool" where
  "may_join leader team grp b q \<longleftrightarrow> b < MAX_BRACKETS \<and> team \<in> {TEAM_OF_ALLIANCE, TEAM_OF_HORDE} \<and> joining leader grp \<noteq> [] \<and>
     list_all (\<lambda>g. om_find (bq_players q) g = None) (joining leader grp)"

lemma members_okD:
  assumes "members_ok q"
  shows "om_ok (bq_players q)" "om_ok (bq_infos q)" "p \<in> known q \<Longrightarrow> p < bq_next q"
    "om_find (bq_players q) g = Some (t, p) \<Longrightarrow> p \<in> known q \<and> g \<in> members_of p q"
    "p \<in> known q \<Longrightarrow> g \<in> members_of p q \<Longrightarrow> \<exists>t. om_find (bq_players q) g = Some (t, p)"
    "p \<in> known q \<Longrightarrow> members_of p q \<noteq> {}" "p \<in> known q \<Longrightarrow> os_ok (gi_players (info p q))"
    "p \<in> known q \<Longrightarrow> gi_team (info p q) \<in> {TEAM_OF_ALLIANCE, TEAM_OF_HORDE}"
  using assms unfolding members_ok_def by blast+

lemma members_okI:
  assumes "om_ok (bq_players q)" "om_ok (bq_infos q)" "\<And>p. p \<in> known q \<Longrightarrow> p < bq_next q"
    "\<And>g t p. om_find (bq_players q) g = Some (t, p) \<Longrightarrow> p \<in> known q \<and> g \<in> members_of p q"
    "\<And>p g. p \<in> known q \<Longrightarrow> g \<in> members_of p q \<Longrightarrow> \<exists>t. om_find (bq_players q) g = Some (t, p)"
    "\<And>p. p \<in> known q \<Longrightarrow> members_of p q \<noteq> {} \<and> os_ok (gi_players (info p q)) \<and> gi_team (info p q) \<in> {TEAM_OF_ALLIANCE, TEAM_OF_HORDE}"
  shows "members_ok q"
  unfolding members_ok_def using assms by blast

lemma bq_ok_add:
  assumes ok: "bq_ok q" and may: "may_join leader team grp b q"
  shows "bq_ok (snd (QueueAddGroup w leader team grp t b arenaType rated premade rating mmr arenaTeam q))"
proof -
  define p where "p = bq_next q"
  define gi where "gi = bg_info_init\<lparr>gi_type := t, gi_arenaType := arenaType, gi_arenaTeam := arenaTeam, gi_rated := rated,
                 gi_joinTime := bw_time w, gi_team := team, gi_teamRating := rating, gi_mmr := mmr\<rparr>"
  define q1 where "q1 = q\<lparr>bq_next := p + 1, bq_infos := om_put p gi (bq_infos q)\<rparr>"
  define q2 where "q2 = (if rated \<and> bw_announceArena w \<and> announced_team w arenaTeam
                then bfx [ArenaAnnounce True arenaTeam arenaType rating] q1 else q1)"
  define gs where "gs = joining leader grp"
  define q3 where "q3 = fold (queue_player w p) gs q2"
  define q4 where "q4 = on_list b (queue_index rated premade team) (\<lambda>ps. ps @ [p]) q3"
  have q3_eq: "q3 = (case grp of Some gs \<Rightarrow> fold (queue_player w p) gs q2 | None \<Rightarrow> queue_player w p leader q2)"
    by (simp add: q3_def gs_def joining_def split: option.split)
  have "snd (QueueAddGroup w leader team grp t b arenaType rated premade rating mmr arenaTeam q) =
    (if \<not> rated \<and> \<not> premade \<and> bw_announceQueue w then announce_queue w leader b t q4 else q4)"
    by (simp only: QueueAddGroup_def Let_def p_def [symmetric] gi_def [symmetric] q1_def [symmetric] q2_def [symmetric] q3_eq [symmetric]
        q4_def [symmetric] snd_conv)
  moreover have "bg_core (announce_queue w leader b t q4) = bg_core q4" by (simp add: announce_queue_def Let_def split: option.split)
  ultimately have c: "bg_core (snd (QueueAddGroup w leader team grp t b arenaType rated premade rating mmr arenaTeam q)) = bg_core q4" by simp
  have m: "members_ok q" and l: "lists_ok (\<lambda>p. gi_team (info p q)) (known q) (bq_lists q)" using ok by (simp_all add: bq_ok_def)
  note M = members_okD [OF m]
  have new: "p \<notin> known q" using M(3) [of p] by (auto simp: p_def)
  have free: "g \<in> set gs \<Longrightarrow> om_find (bq_players q) g = None" for g using may by (auto simp: may_join_def gs_def list_all_iff)
  have F2: "bq_players q2 = bq_players q" "known q2 = insert p (known q)" "om_ok (bq_infos q2)" "bq_lists q2 = bq_lists q"
    "bq_next q2 = p + 1" "info p q2 = gi" "p' \<noteq> p \<Longrightarrow> info p' q2 = info p' q" for p'
    using M(2) by (simp_all add: q2_def q1_def info_def om_at_def)
  note E = enqueue_all [where w = w and p = p and gs = gs and q = q2, folded q3_def]
  have known: "known q4 = insert p (known q)" using E(4) F2(2) by (simp add: q4_def)
  have mem: "members_of p' q4 = (if p' = p then set gs else members_of p' q)" for p'
    using E(7) [where p' = p'] E(9) F2(6,7) os_fold_insert(1) [of gs "[]"] by (simp add: q4_def members_of_def gi_def bg_info_init_def)
  have find: "om_find (bq_players q4) g = (if g \<in> set gs then Some (bw_time w, p) else om_find (bq_players q) g)" for g
    using E(1) F2(1) by (simp add: q4_def)
  have team: "gi_team (info p' q4) = (if p' = p then team else gi_team (info p' q))" for p'
    using E(7) [where p' = p'] E(8) F2(6,7) by (simp add: q4_def gi_def)
  have sorted: "os_ok (gi_players (info p' q4))" if "p' \<in> known q4" for p'
    using that E(7) [where p' = p'] E(9) F2(6,7) M(7) [of p'] os_fold_insert(2) [of "[]" gs] unfolding known
    by (cases "p' = p") (simp_all add: q4_def gi_def bg_info_init_def)
  have "members_ok q4"
  proof (rule members_okI)
    show "om_ok (bq_players q4)" "om_ok (bq_infos q4)" using E(2,3) F2(1,3) M(1) by (simp_all add: q4_def)
    show "p' < bq_next q4" if "p' \<in> known q4" for p'
    proof -
      have "bq_next q4 = p + 1" using E(6) F2(5) by (simp add: q4_def)
      moreover have "p' = p \<or> p' < p" using that M(3) [of p'] by (auto simp: known p_def)
      ultimately show ?thesis by auto
    qed
    show "p' \<in> known q4 \<and> g \<in> members_of p' q4" if "om_find (bq_players q4) g = Some (u, p')" for g u p'
    proof (cases "g \<in> set gs")
      case True
      then show ?thesis using that by (auto simp: find known mem)
    next
      case False
      then have "p' \<in> known q \<and> g \<in> members_of p' q" using that M(4) [of g u p'] by (simp add: find)
      then show ?thesis using new by (auto simp: known mem)
    qed
    show "\<exists>u. om_find (bq_players q4) g = Some (u, p')" if "p' \<in> known q4" "g \<in> members_of p' q4" for p' g
    proof (cases "p' = p")
      case True
      then show ?thesis using that by (simp add: find mem)
    next
      case False
      then have "\<exists>u. om_find (bq_players q) g = Some (u, p')" using that M(5) [of p' g] by (simp add: known mem)
      then show ?thesis using free [of g] by (auto simp: find)
    qed
    show "members_of p' q4 \<noteq> {} \<and> os_ok (gi_players (info p' q4)) \<and> gi_team (info p' q4) \<in> {TEAM_OF_ALLIANCE, TEAM_OF_HORDE}"
      if "p' \<in> known q4" for p'
      using that sorted [OF that] may M(6) [of p'] M(8) [of p'] unfolding known mem team may_join_def gs_def
      by (cases "p' = p") simp_all
  qed
  moreover have "lists_ok (\<lambda>p. gi_team (info p q4)) (known q4) (bq_lists q4)"
  proof -
    have "lists_ok ((\<lambda>p. gi_team (info p q))(p := team)) (insert p (known q))
      ((bq_lists q)(b := (bq_lists q b)(queue_index rated premade team := bq_lists q b (queue_index rated premade team) @ [p])))"
      using lists_add [OF l new _ team_list_index] may by (simp only: may_join_def)
    moreover have "(\<lambda>p. gi_team (info p q))(p := team) = (\<lambda>p. gi_team (info p q4))" by (simp add: fun_eq_iff team)
    moreover have "bq_lists q4 = (bq_lists q)(b := (bq_lists q b)(queue_index rated premade team := bq_lists q b (queue_index rated premade team) @ [p]))"
      using E(5) F2(4) by (simp add: q4_def)
    ultimately show ?thesis by (simp only: known)
  qed
  ultimately have "bq_ok q4" by (simp only: bq_ok_def)
  then show ?thesis by (simp only: bq_ok_core [OF c])
qed

section \<open>Leaving\<close>

lemma on_bg_fields [simp]: "bq_infos (on_bg i f q) = bq_infos q" "bq_next (on_bg i f q) = bq_next q"
  "info p (on_bg i f q) = info p q" "bq_lists (on_bg i f q) = bq_lists q"
  by (simp_all add: on_bg_def info_def split: option.split)

lemma drop_fields [simp]: "bq_lists (drop_player w g p dec q) = bq_lists q" "bq_next (drop_player w g p dec q) = bq_next q"
  "known (drop_player w g p dec q) = insert p (known q)" "om_ok (bq_infos q) \<Longrightarrow> om_ok (bq_infos (drop_player w g p dec q))"
  "info p' (drop_player w g p dec q) =
     (if p' = p then (info p q)\<lparr>gi_players := os_erase g (gi_players (info p q))\<rparr> else info p' q)"
  by (simp_all add: drop_player_def Let_def)

lemma find_place_finds:
  assumes "p \<in> set (ls c i)" "c \<in> set bs" "i = j \<or> i = j + 2"
  shows "\<exists>b j'. find_place ls p j bs = Some (b, j') \<and> p \<in> set (ls b j')"
  using assms by (induction bs) auto

lemma place_of:
  assumes "bq_ok q" "p \<in> known q"
  shows "\<exists>b j. find_place (bq_lists q) p (if gi_team (info p q) = TEAM_OF_HORDE then 1 else 0) (rev [0..<MAX_BRACKETS]) = Some (b, j) \<and>
    p \<in> set (bq_lists q b j)"
proof -
  have l: "lists_ok (\<lambda>p. gi_team (info p q)) (known q) (bq_lists q)" using assms(1) by (simp add: bq_ok_def)
  from lists_okD(4) [OF l assms(2)] obtain c i where ci: "p \<in> set (bq_lists q c i)" by blast
  from lists_okD(2) [OF l ci] have c: "c < MAX_BRACKETS" and i: "i < 4" "odd i = (gi_team (info p q) = TEAM_OF_HORDE)"
    by (simp_all add: team_list_def)
  have "i = 0 \<or> i = 1 \<or> i = 2 \<or> i = 3" using i(1) by linarith
  then have "i = (if gi_team (info p q) = TEAM_OF_HORDE then 1 else 0) \<or> i = (if gi_team (info p q) = TEAM_OF_HORDE then 1 else 0) + 2"
    using i(2) by auto
  then show ?thesis using c by (intro find_place_finds [where ls = "bq_lists q" and c = c and i = i, OF ci]) simp_all
qed

lemma infos_erase [simp]: "info p' (q\<lparr>bq_infos := om_erase p (bq_infos q)\<rparr>) = (if p' = p then bg_info_init else info p' q)"
  by (simp add: info_def om_at_def)

lemma bq_ok_drop:
  assumes ok: "bq_ok q" and g: "om_find (bq_players q) g = Some (t, p)" and rest: "os_erase g (gi_players (info p q)) \<noteq> []"
  shows "bq_ok (drop_player w g p dec q)"
proof -
  let ?q = "drop_player w g p dec q"
  have m: "members_ok q" and l: "lists_ok (\<lambda>p. gi_team (info p q)) (known q) (bq_lists q)" using ok by (simp_all add: bq_ok_def)
  note M = members_okD [OF m]
  have p: "p \<in> known q" using M(4) [OF g] by blast
  then have known: "known ?q = known q" by auto
  have mem: "members_of p' ?q = (if p' = p then members_of p q - {g} else members_of p' q)" for p' by (simp add: members_of_def)
  have team: "(\<lambda>p. gi_team (info p ?q)) = (\<lambda>p. gi_team (info p q))" by (simp add: fun_eq_iff)
  have "members_ok ?q"
  proof (rule members_okI)
    show "om_ok (bq_players ?q)" "om_ok (bq_infos ?q)" using M(1,2) by simp_all
    show "p' < bq_next ?q" if "p' \<in> known ?q" for p' using that M(3) [of p'] unfolding known by simp
    show "p' \<in> known ?q \<and> h \<in> members_of p' ?q" if "om_find (bq_players ?q) h = Some (u, p')" for h u p'
    proof -
      have h: "h \<noteq> g" "om_find (bq_players q) h = Some (u, p')" using that by (auto split: if_splits)
      then show ?thesis using M(4) [OF h(2)] unfolding known mem by (cases "p' = p") simp_all
    qed
    show "\<exists>u. om_find (bq_players ?q) h = Some (u, p')" if "p' \<in> known ?q" "h \<in> members_of p' ?q" for p' h
    proof -
      have pq: "p' \<in> known q" "h \<in> members_of p' q" "p' = p \<Longrightarrow> h \<noteq> g" using that unfolding known mem by (auto split: if_splits)
      obtain u where u: "om_find (bq_players q) h = Some (u, p')" using M(5) [OF pq(1,2)] by blast
      moreover have "h \<noteq> g" using u g pq(3) by auto
      ultimately show ?thesis by simp
    qed
    show "members_of p' ?q \<noteq> {} \<and> os_ok (gi_players (info p' ?q)) \<and> gi_team (info p' ?q) \<in> {TEAM_OF_ALLIANCE, TEAM_OF_HORDE}"
      if "p' \<in> known ?q" for p'
    proof -
      have "p' \<in> known q" using that unfolding known .
      moreover have "members_of p ?q \<noteq> {}" using rest by (simp add: members_of_def flip: set_os_erase del: set_os_erase)
      ultimately show ?thesis using M(6,7,8) [of p'] by (cases "p' = p") (simp_all add: mem)
    qed
  qed
  moreover have "lists_ok (\<lambda>p. gi_team (info p ?q)) (known ?q) (bq_lists ?q)" using l unfolding team known by simp
  ultimately show ?thesis by (simp only: bq_ok_def)
qed

lemma bq_ok_last:
  assumes ok: "bq_ok q" and g: "om_find (bq_players q) g = Some (t, p)" and none: "os_erase g (gi_players (info p q)) = []"
    and place: "p \<in> set (bq_lists q b j)"
  shows "bq_ok ((on_list b j (remove1 p) (drop_player w g p dec q))\<lparr>bq_infos := om_erase p (bq_infos (drop_player w g p dec q))\<rparr>)"
    (is "bq_ok ?q")
proof -
  have m: "members_ok q" and l: "lists_ok (\<lambda>p. gi_team (info p q)) (known q) (bq_lists q)" using ok by (simp_all add: bq_ok_def)
  note M = members_okD [OF m]
  have p: "p \<in> known q" using M(4) [OF g] by blast
  then have known: "known ?q = known q - {p}" by auto
  have info: "info p' ?q = (if p' = p then bg_info_init else info p' q)" for p' by (simp add: info_def om_at_def)
      (simp add: om_at_def drop_fields(5) [unfolded info_def om_at_def])
  have alone: "members_of p q = {g}"
  proof -
    have "members_of p q - {g} = {}" using none set_os_erase [of g "gi_players (info p q)"] by (simp add: members_of_def)
    then show ?thesis using M(4) [OF g] by blast
  qed
  have players: "bq_players ?q = om_erase g (bq_players q)" by simp
  have "members_ok ?q"
  proof (rule members_okI)
    show "om_ok (bq_players ?q)" "om_ok (bq_infos ?q)" using M(1,2) by simp_all
    show "p' < bq_next ?q" if "p' \<in> known ?q" for p' using that M(3) [of p'] unfolding known by simp
    show "p' \<in> known ?q \<and> h \<in> members_of p' ?q" if "om_find (bq_players ?q) h = Some (u, p')" for h u p'
    proof -
      have h: "h \<noteq> g" "om_find (bq_players q) h = Some (u, p')" using that by (auto split: if_splits)
      then show ?thesis using M(4) [OF h(2)] alone unfolding known by (auto simp: members_of_def info)
    qed
    show "\<exists>u. om_find (bq_players ?q) h = Some (u, p')" if "p' \<in> known ?q" "h \<in> members_of p' ?q" for p' h
    proof -
      have pq: "p' \<in> known q" "p' \<noteq> p" "h \<in> members_of p' q" using that unfolding known by (auto simp: members_of_def info)
      obtain u where u: "om_find (bq_players q) h = Some (u, p')" using M(5) [OF pq(1,3)] by blast
      moreover have "h \<noteq> g" using u g pq(2) by auto
      ultimately show ?thesis by (simp add: players)
    qed
    show "members_of p' ?q \<noteq> {} \<and> os_ok (gi_players (info p' ?q)) \<and> gi_team (info p' ?q) \<in> {TEAM_OF_ALLIANCE, TEAM_OF_HORDE}"
      if "p' \<in> known ?q" for p'
      using that M(6,7,8) [of p'] unfolding known members_of_def info by simp
  qed
  moreover have "lists_ok (\<lambda>p. gi_team (info p ?q)) (known ?q) (bq_lists ?q)"
  proof -
    have "lists_ok (\<lambda>p. gi_team (info p q)) (known q - {p}) ((bq_lists q)(b := (bq_lists q b)(j := remove1 p (bq_lists q b j))))"
      by (rule lists_remove [OF l place])
    moreover have "lists_ok (\<lambda>p. gi_team (info p ?q)) (known q - {p}) ls = lists_ok (\<lambda>p. gi_team (info p q)) (known q - {p}) ls" for ls
      by (rule lists_ok_cong) (simp add: info)
    ultimately show ?thesis unfolding known by simp
  qed
  ultimately show ?thesis by (simp only: bq_ok_def)
qed

text \<open>One call for a player who is in the queue.\<close>

definition removed_one :: "bg_world \<Rightarrow> guid \<Rightarrow> bool \<Rightarrow> nat \<Rightarrow> nat \<Rightarrow> nat \<Rightarrow> bg_queue \<Rightarrow> bg_queue" where
  "removed_one w g dec p b j q =
     (let q1 = drop_player w g p dec q
      in if gi_players (info p q1) = [] then (on_list b j (remove1 p) q1)\<lparr>bq_infos := om_erase p (bq_infos q1)\<rparr> else q1)"

lemma remove_step:
  assumes ok: "bq_ok q" and g: "om_find (bq_players q) g = Some (t, p)"
  shows "\<exists>b j. p \<in> set (bq_lists q b j) \<and>
    QueueRemovePlayer w g dec q =
      (let q1 = removed_one w g dec p b j q; hs = os_erase g (gi_players (info p q))
       in if hs \<noteq> [] \<and> gi_invited (info p q) = 0 \<and> gi_rated (info p q)
          then QueueRemovePlayer w (hd hs) dec (bfx (tell_removed w (hd hs) (info p q1)) q1) else q1)"
proof -
  have "p \<in> known q" using members_okD(4) [OF _ g] ok by (simp add: bq_ok_def)
  from place_of [OF ok this] obtain b j where
    f: "find_place (bq_lists q) p (if gi_team (info p q) = TEAM_OF_HORDE then 1 else 0) (rev [0..<MAX_BRACKETS]) = Some (b, j)"
    and place: "p \<in> set (bq_lists q b j)" by blast
  define q1 where "q1 = drop_player w g p dec q"
  have i: "info p q1 = (info p q)\<lparr>gi_players := os_erase g (gi_players (info p q))\<rparr>" by (simp add: q1_def)
  define h where "h = hd (gi_players (info p q1))"
  have "QueueRemovePlayer w g dec q =
    (if gi_players (info p q1) = [] then (on_list b j (remove1 p) q1)\<lparr>bq_infos := om_erase p (bq_infos q1)\<rparr>
     else if gi_invited (info p q1) = 0 \<and> gi_rated (info p q1)
          then QueueRemovePlayer w h dec (bfx (tell_removed w h (info p q1)) q1) else q1)"
    by (subst QueueRemovePlayer.simps) (simp only: g f option.case prod.case Let_def q1_def [symmetric] h_def [symmetric])
  then show ?thesis using place by (intro exI [of _ b] exI [of _ j]) (simp add: removed_one_def Let_def i h_def flip: q1_def)
qed

lemma removed_one_ok:
  assumes "bq_ok q" "om_find (bq_players q) g = Some (t, p)" "p \<in> set (bq_lists q b j)"
  shows "bq_ok (removed_one w g dec p b j q)"
  using assms bq_ok_drop [OF assms(1,2)] bq_ok_last [OF assms(1,2) _ assms(3)] by (simp add: removed_one_def Let_def)

lemma removed_one_players [simp]: "bq_players (removed_one w g dec p b j q) = om_erase g (bq_players q)"
  by (simp add: removed_one_def Let_def)

lemma bq_ok_remove: "bq_ok q \<Longrightarrow> bq_ok (QueueRemovePlayer w g dec q)"
proof (induction "length (bq_players q)" arbitrary: g q rule: less_induct)
  case less
  show ?case
  proof (cases "om_find (bq_players q) g")
    case None
    then show ?thesis using less.prems by (simp add: QueueRemovePlayer.simps [of w g dec q])
  next
    case (Some tp)
    obtain t p where "tp = (t, p)" by fastforce
    then have g: "om_find (bq_players q) g = Some (t, p)" using Some by simp
    from remove_step [OF less.prems g, of w dec] obtain b j where place: "p \<in> set (bq_lists q b j)" and
      e: "QueueRemovePlayer w g dec q =
        (let q1 = removed_one w g dec p b j q; hs = os_erase g (gi_players (info p q))
         in if hs \<noteq> [] \<and> gi_invited (info p q) = 0 \<and> gi_rated (info p q)
            then QueueRemovePlayer w (hd hs) dec (bfx (tell_removed w (hd hs) (info p q1)) q1) else q1)" by blast
    note ok1 = removed_one_ok [OF less.prems g place, of w dec]
    have "bq_ok (QueueRemovePlayer w h dec (bfx es (removed_one w g dec p b j q)))" for h es
      by (rule less.hyps) (simp_all add: length_om_erase [OF g] bq_ok_core(1) [OF core_frames(1)] ok1)
    then show ?thesis unfolding e using ok1 by (simp add: Let_def)
  qed
qed

text \<open>
  Who leaves: the player; and a rated team that is not invited leaves as a whole.
\<close>

lemma removed_one_info: "info p (removed_one w g dec p b j q) = (if os_erase g (gi_players (info p q)) = [] then bg_info_init
    else (info p q)\<lparr>gi_players := os_erase g (gi_players (info p q))\<rparr>)"
  by (simp add: removed_one_def Let_def) (simp add: info_def om_at_def)

definition leaves_with :: "bg_queue \<Rightarrow> nat \<Rightarrow> guid \<Rightarrow> guid \<Rightarrow> bool" where
  "leaves_with q p g h \<longleftrightarrow> h = g \<or> gi_rated (info p q) \<and> gi_invited (info p q) = 0 \<and> h \<in> set (gi_players (info p q))"

lemma remove_outcome:
  "bq_ok q \<Longrightarrow> om_find (bq_players q) g = Some (t, p) \<Longrightarrow>
   om_find (bq_players (QueueRemovePlayer w g dec q)) h = (if leaves_with q p g h then None else om_find (bq_players q) h)"
proof (induction "length (bq_players q)" arbitrary: g t q rule: less_induct)
  case less
  note ok = less.prems(1) and g = less.prems(2)
  note M = members_okD [OF conjunct1 [OF ok [unfolded bq_ok_def]]]
  from remove_step [OF ok g, of w dec] obtain b j where place: "p \<in> set (bq_lists q b j)" and
    e: "QueueRemovePlayer w g dec q =
      (let q1 = removed_one w g dec p b j q; hs = os_erase g (gi_players (info p q))
       in if hs \<noteq> [] \<and> gi_invited (info p q) = 0 \<and> gi_rated (info p q)
          then QueueRemovePlayer w (hd hs) dec (bfx (tell_removed w (hd hs) (info p q1)) q1) else q1)" by blast
  define q1 where "q1 = removed_one w g dec p b j q"
  define hs where "hs = os_erase g (gi_players (info p q))"
  have set_hs: "set hs = set (gi_players (info p q)) - {g}" by (simp add: hs_def)
  show ?case
  proof (cases "hs \<noteq> [] \<and> gi_invited (info p q) = 0 \<and> gi_rated (info p q)")
    case True
    define q2 where "q2 = bfx (tell_removed w (hd hs) (info p q1)) q1"
    have ok2: "bq_ok q2" unfolding q2_def bq_ok_core(1) [OF core_frames(1)] q1_def by (rule removed_one_ok [OF ok g place])
    have pl2: "bq_players q2 = om_erase g (bq_players q)" by (simp add: q2_def q1_def)
    have h0: "hd hs \<in> set hs" using True by simp
    then have "hd hs \<in> members_of p q" "hd hs \<noteq> g" by (auto simp: set_hs members_of_def)
    moreover have "p \<in> known q" using M(4) [OF g] by blast
    ultimately obtain t' where "om_find (bq_players q) (hd hs) = Some (t', p)" using M(5) by blast
    then have g2: "om_find (bq_players q2) (hd hs) = Some (t', p)" using \<open>hd hs \<noteq> g\<close> by (simp add: pl2)
    have i2: "info p q2 = (info p q)\<lparr>gi_players := hs\<rparr>" using True by (simp add: q2_def q1_def removed_one_info hs_def)
    have "length (bq_players q2) < length (bq_players q)" using length_om_erase [OF g] by (simp add: pl2)
    from less.hyps [OF this ok2 g2]
    have "om_find (bq_players (QueueRemovePlayer w (hd hs) dec q2)) h = (if leaves_with q2 p (hd hs) h then None else om_find (bq_players q2) h)" .
    moreover have "QueueRemovePlayer w g dec q = QueueRemovePlayer w (hd hs) dec q2"
      unfolding e q1_def [symmetric] hs_def [symmetric] Let_def if_P [OF True] q2_def ..
    moreover have "leaves_with q p g h \<longleftrightarrow> h = g \<or> leaves_with q2 p (hd hs) h"
      using True h0 by (auto simp: leaves_with_def i2 set_hs)
    ultimately show ?thesis by (simp add: pl2)
  next
    case False
    have "QueueRemovePlayer w g dec q = q1" unfolding e q1_def [symmetric] hs_def [symmetric] Let_def if_not_P [OF False] ..
    moreover have "leaves_with q p g h \<longleftrightarrow> h = g"
    proof (cases "hs = []")
      case True
      then have "set (gi_players (info p q)) \<subseteq> {g}" using set_hs by (metis Diff_eq_empty_iff empty_set)
      then show ?thesis unfolding leaves_with_def by blast
    qed (use False in \<open>auto simp: leaves_with_def\<close>)
    ultimately show ?thesis by (simp add: q1_def)
  qed
qed

end
