(* ===== verification/BgUpdate.thy ===== *)
theory BgUpdate
  imports BgMembers
begin

text \<open>
  The update of the queue keeps everybody in his group and every group in its list, whichever matches it makes, and
  it always ends.  The states a queue can reach by joining, leaving, updates and events are those of
  \<open>bg_reachable\<close>.
\<close>

section \<open>The lists are fit for selecting\<close>

lemma length_keys: "finite (om_keys m) \<and> card (om_keys m) \<le> length m"
  by (simp add: om_keys_def card_length order_trans [OF card_image_le])

lemma headcount_card:
  assumes "distinct ps" "\<And>p. p \<in> set ps \<Longrightarrow> distinct (gi_players (gis p))"
    and "\<And>p p'. p \<in> set ps \<Longrightarrow> p' \<in> set ps \<Longrightarrow> p \<noteq> p' \<Longrightarrow> set (gi_players (gis p)) \<inter> set (gi_players (gis p')) = {}"
  shows "headcount gis ps = card (\<Union>p\<in>set ps. set (gi_players (gis p)))"
  using assms
proof (induction ps)
  case (Cons p ps)
  have "(\<Union>x\<in>set ps. set (gi_players (gis x))) \<inter> set (gi_players (gis p)) = {}" using Cons.prems(1,3) by fastforce
  then have "card (set (gi_players (gis p)) \<union> (\<Union>x\<in>set ps. set (gi_players (gis x)))) =
    card (set (gi_players (gis p))) + card (\<Union>x\<in>set ps. set (gi_players (gis x)))"
    by (subst card_Un_disjoint) auto
  moreover have "headcount gis ps = card (\<Union>x\<in>set ps. set (gi_players (gis x)))" using Cons.prems by (intro Cons.IH) auto
  ultimately show ?case using Cons.prems(2) by (simp add: sz_def distinct_card)
qed simp

lemma bq_ok_list_ready:
  assumes ok: "bq_ok q" and few: "length (bq_players q) < 2 ^ 31"
  shows "list_ready (\<lambda>p. info p q) (bq_lists q b j)"
proof -
  have m: "members_ok q" and l: "lists_ok (\<lambda>p. gi_team (info p q)) (known q) (bq_lists q)" using ok by (simp_all add: bq_ok_def)
  note M = members_okD [OF m]
  let ?ps = "bq_lists q b j"
  have k: "p \<in> known q" if "p \<in> set ?ps" for p using lists_okD(2) [OF l that] by blast
  have "headcount (\<lambda>p. info p q) ?ps = card (\<Union>p\<in>set ?ps. set (gi_players (info p q)))"
  proof (rule headcount_card)
    show "distinct ?ps" using lists_okD(1) [OF l] .
    show "distinct (gi_players (info p q))" if "p \<in> set ?ps" for p using M(7) [OF k [OF that]] by (rule os_ok_distinct)
    show "set (gi_players (info p q)) \<inter> set (gi_players (info p' q)) = {}" if "p \<in> set ?ps" "p' \<in> set ?ps" "p \<noteq> p'" for p p'
    proof (rule ccontr)
      assume "set (gi_players (info p q)) \<inter> set (gi_players (info p' q)) \<noteq> {}"
      then obtain g where "g \<in> members_of p q" "g \<in> members_of p' q" by (auto simp: members_of_def)
      with M(5) [OF k [OF that(1)]] M(5) [OF k [OF that(2)]] that(3) show False by fastforce
    qed
  qed
  also have "\<dots> \<le> card (om_keys (bq_players q))"
  proof (rule card_mono)
    show "finite (om_keys (bq_players q))" using length_keys by blast
    show "(\<Union>p\<in>set ?ps. set (gi_players (info p q))) \<subseteq> om_keys (bq_players q)"
    proof
      fix g assume "g \<in> (\<Union>p\<in>set ?ps. set (gi_players (info p q)))"
      then obtain p where "p \<in> set ?ps" "g \<in> members_of p q" by (auto simp: members_of_def)
      then obtain t where "om_find (bq_players q) g = Some (t, p)" using M(5) [OF k] by blast
      then show "g \<in> om_keys (bq_players q)" by (simp add: om_find_keys)
    qed
  qed
  also have "\<dots> < 2 ^ 31" using length_keys [of "bq_players q"] few by linarith
  finally have "headcount (\<lambda>p. info p q) ?ps < 2 ^ 31" .
  moreover have "list_all (\<lambda>p. 0 < sz (\<lambda>p. info p q) p) ?ps"
    using M(6) k by (auto simp: list_all_iff sz_def members_of_def)
  ultimately show ?thesis using lists_okD(1) [OF l] by (simp add: list_ready_def)
qed

section \<open>The pools\<close>

definition pools_known :: "bg_queue \<Rightarrow> bool" where
  "pools_known q \<longleftrightarrow> set (sp_groups (bq_pools q 0)) \<subseteq> known q \<and> set (sp_groups (bq_pools q 1)) \<subseteq> known q"

text \<open>What a step that only selects leaves: the state up to the pools.\<close>

definition selects :: "nat set \<Rightarrow> bg_queue \<Rightarrow> bg_queue \<Rightarrow> bool" where
  "selects ps q q' \<longleftrightarrow> bg_core q' = bg_core q \<and> bq_bgs q' = bq_bgs q \<and> bq_infos q' = bq_infos q \<and>
     (\<forall>t. set (sp_groups (bq_pools q' t)) \<subseteq> set (sp_groups (bq_pools q t)) \<union> ps)"

lemma selects_refl [simp]: "selects ps q q"
  by (simp add: selects_def)

lemma selects_trans: "selects ps q q1 \<Longrightarrow> selects ps q1 q2 \<Longrightarrow> selects ps q q2"
  unfolding selects_def by (metis (no_types, lifting) le_sup_iff subset_trans sup_ge2)

lemma selects_mono: "selects ps q q' \<Longrightarrow> ps \<subseteq> ps' \<Longrightarrow> selects ps' q q'"
  unfolding selects_def by (meson Un_mono order_refl subset_trans)

lemma selects_lists: "selects ps q q' \<Longrightarrow> bq_lists q' = bq_lists q"
  by (simp add: selects_def bg_core_def)

lemma selects_ok:
  assumes "selects ps q q'" "bq_ok q" "pools_known q" "ps \<subseteq> known q"
  shows "bq_ok q'" "pools_known q'"
proof -
  have c: "bg_core q' = bg_core q" using assms(1) by (simp add: selects_def)
  show "bq_ok q'" using assms(2) bq_ok_core(1) [OF c] by simp
  show "pools_known q'" using assms(1,3,4) unfolding pools_known_def coreD(2) [OF c] selects_def by blast
qed

lemma pool_add_selects: "selects {p} q (snd (pool_add t p desired q))"
  by (auto simp: pool_add_def selects_def PoolAddGroup_def on_pool_def bg_core_def)

lemma pool_fill_selects: "selects (set ps) q (pool_fill t desired ps q)"
proof (induction t desired ps q rule: pool_fill.induct)
  case (2 t desired p ps q)
  obtain ok q1 where a: "pool_add t p desired q = (ok, q1)" by fastforce
  have q1: "selects (set (p # ps)) q q1" using pool_add_selects [of p q t desired] a by (auto intro: selects_mono)
  show ?case
  proof (cases "not_invited q p")
    case True
    show ?thesis
    proof (cases ok)
      case okT: True
      have "selects (set (p # ps)) q1 (pool_fill t desired ps q1)"
        using 2(1) [OF True a [symmetric]] okT by (auto intro: selects_mono)
      then show ?thesis using selects_trans [OF q1] True a okT by simp
    qed (use True a q1 in simp)
  next
    case False
    then show ?thesis using 2(2) by (auto intro: selects_mono)
  qed
qed simp

lemma pool_reach_selects: "selects (set ps) q (snd (pool_reach t mn mx ps q)) \<and> set (fst (pool_reach t mn mx ps q)) \<subseteq> set ps"
proof (induction t mn mx ps q rule: pool_reach.induct)
  case (2 t mn mx p ps q)
  define q1 where "q1 = snd (pool_add t p mx q)"
  have q1: "selects (set (p # ps)) q q1" using pool_add_selects [of p q t mx] unfolding q1_def by (rule selects_mono) simp
  show ?case
  proof (cases "not_invited q p")
    case True
    show ?thesis
    proof (cases "mn \<le> sp_count (bq_pools q1 t)")
      case False
      have ih: "selects (set ps) q1 (snd (pool_reach t mn mx ps q1)) \<and> set (fst (pool_reach t mn mx ps q1)) \<subseteq> set ps"
        using 2(1) [OF True q1_def] False by (simp add: q1_def)
      have "selects (set (p # ps)) q1 (snd (pool_reach t mn mx ps q1))" by (rule selects_mono [OF conjunct1 [OF ih]]) auto
      then show ?thesis using selects_trans [OF q1] True False conjunct2 [OF ih] by (auto simp: Let_def simp flip: q1_def)
    qed (use True q1 in \<open>auto simp: Let_def simp flip: q1_def\<close>)
  next
    case False
    then show ?thesis using 2(2) by (auto intro: selects_mono)
  qed
qed simp

lemma core_on_pool: "bg_core (on_pool t f q) = bg_core q"
  by simp

lemma init_pools_known: "pools_known (init_pools q)" "bq_pools (init_pools q) 0 = pool_init" "bq_pools (init_pools q) 1 = pool_init"
  "bq_bgs (init_pools q) = bq_bgs q" "bq_players (init_pools q) = bq_players q" "bq_lists (init_pools q) = bq_lists q"
  by (simp_all add: pools_known_def init_pools_def on_pool_def pool_init_def)

lemma bq_ok_init_pools [simp]: "bq_ok (init_pools q) = bq_ok q"
  by (rule bq_ok_core(1) [OF core_frames(11)])

section \<open>Moving groups\<close>

text \<open>A change that leaves players, groups and their members, and keeps the lists and teams together.\<close>

definition same_members :: "bg_queue \<Rightarrow> bg_queue \<Rightarrow> bool" where
  "same_members q q' \<longleftrightarrow> bq_players q' = bq_players q \<and> known q' = known q \<and> om_ok (bq_infos q') = om_ok (bq_infos q) \<and>
     bq_next q' = bq_next q \<and> (\<forall>p. gi_players (info p q') = gi_players (info p q))"

lemma same_members_core:
  assumes "bg_core q' = bg_core q"
  shows "same_members q q'"
  unfolding same_members_def by (simp only: coreD [OF assms] simp_thms)

lemma same_members_trans: "same_members q q1 \<Longrightarrow> same_members q1 q2 \<Longrightarrow> same_members q q2"
  by (simp add: same_members_def)

lemma same_members_known: "same_members q q' \<Longrightarrow> known q' = known q"
  by (simp add: same_members_def)

lemma same_members_list [simp]: "same_members q (on_list b j f q)"
  by (simp add: same_members_def)

lemma same_members_ginfo:
  assumes "p \<in> known q" "om_ok (bq_infos q)" "\<And>gi. gi_players (f gi) = gi_players gi"
  shows "same_members q (on_ginfo p f q)"
  using assms by (auto simp: same_members_def)

lemma bq_ok_same:
  assumes ok: "bq_ok q" and same: "same_members q q'"
    and teams: "\<And>p. p \<in> known q \<Longrightarrow> gi_team (info p q') = T p \<and> T p \<in> {TEAM_OF_ALLIANCE, TEAM_OF_HORDE}"
    and lists: "lists_ok T (known q) (bq_lists q')"
  shows "bq_ok q'"
proof -
  have S: "bq_players q' = bq_players q" "known q' = known q" "om_ok (bq_infos q') = om_ok (bq_infos q)" "bq_next q' = bq_next q"
    "gi_players (info p q') = gi_players (info p q)" for p using same by (simp_all add: same_members_def)
  have mem: "members_of p q' = members_of p q" for p by (simp add: members_of_def S(5))
  note M = members_okD [OF conjunct1 [OF ok [unfolded bq_ok_def]]]
  have "members_ok q'"
  proof (rule members_okI)
    show "members_of p q' \<noteq> {} \<and> os_ok (gi_players (info p q')) \<and> gi_team (info p q') \<in> {TEAM_OF_ALLIANCE, TEAM_OF_HORDE}" if "p \<in> known q'" for p
      using that M(6,7) [of p] teams [of p] by (simp add: mem S)
  qed (use M in \<open>simp_all add: S mem\<close>)
  moreover have "lists_ok (\<lambda>p. gi_team (info p q')) (known q') (bq_lists q') = lists_ok T (known q) (bq_lists q')"
    unfolding S(2) by (rule lists_ok_cong) (simp add: teams)
  ultimately show ?thesis using lists by (simp add: bq_ok_def)
qed

lemma bq_ok_team:
  assumes "bq_ok q" "p \<in> known q"
  shows "gi_team (info p q) \<in> {TEAM_OF_ALLIANCE, TEAM_OF_HORDE}"
  using members_okD(8) [OF _ assms(2)] assms(1) by (simp add: bq_ok_def)

lemma bq_ok_lists: "bq_ok q \<Longrightarrow> lists_ok (\<lambda>p. gi_team (info p q)) (known q) (bq_lists q)"
  by (simp add: bq_ok_def)

lemma moved_lists:
  "j' \<noteq> j \<Longrightarrow> bq_lists (on_list b j rem (on_list b j' (\<lambda>ps. p # ps) q)) = moved b j j' rem p (bq_lists q)"
  by (simp add: moved_def fun_eq_iff)

lemma bq_ok_normal:
  assumes ok: "bq_ok q" and t: "t < 2"
  shows "bq_ok (move_to_normal w b mn t q)"
proof (cases "bq_lists q b (BG_PREMADE + t)")
  case (Cons p ps)
  let ?q = "on_list b (BG_PREMADE + t) tl (on_list b (BG_NORMAL + t) (\<lambda>ns. p # ns) q)"
  note L = bq_ok_lists [OF ok]
  have p: "p \<in> set (bq_lists q b t)" using Cons by simp
  have team: "odd t \<longleftrightarrow> gi_team (info p q) = TEAM_OF_HORDE" using lists_okD(2) [OF L p] by (simp add: team_list_def)
  have d: "distinct (p # ps)" using lists_okD(1) [OF L, of b t] Cons by simp
  have "lists_ok ((\<lambda>p. gi_team (info p q))(p := gi_team (info p q))) (known q) (moved b t (BG_NORMAL + t) tl p (bq_lists q))"
    by (rule lists_move [OF L p]) (use t team d Cons in \<open>auto simp: team_list_def\<close>)
  moreover have "(\<lambda>p. gi_team (info p q))(p := gi_team (info p q)) = (\<lambda>p. gi_team (info p q))" by (rule fun_upd_triv)
  moreover have "bq_lists ?q = moved b t (BG_NORMAL + t) tl p (bq_lists q)" using moved_lists [of "BG_NORMAL + t" t b tl p q] by simp
  ultimately have "lists_ok (\<lambda>p. gi_team (info p q)) (known q) (bq_lists ?q)" by metis
  then have "bq_ok ?q" using bq_ok_team [OF ok] by (intro bq_ok_same [OF ok]) (simp_all add: same_members_def)
  then show ?thesis using ok Cons by (simp add: move_to_normal_def)
qed (simp add: move_to_normal_def ok)

lemma remove_behind_split:
  assumes "marker \<notin> set pre"
  shows "remove_behind marker p (pre @ marker # suf) = pre @ marker # remove1 p suf"
  using assms by (simp add: remove_behind_def takeWhile_append dropWhile_append)

lemma change_team_ok:
  assumes ok: "bq_ok q" and own: "bq_lists q b (BG_NORMAL + i) = pre @ marker # suf" and p: "p \<in> set suf"
    and i: "i \<noteq> j" "team_list other (BG_NORMAL + j)" "other \<in> {TEAM_OF_ALLIANCE, TEAM_OF_HORDE}"
  shows "bq_ok (change_team b i j other marker p q)" "bq_lists (change_team b i j other marker p q) b (BG_NORMAL + i) = pre @ marker # remove1 p suf"
    "known (change_team b i j other marker p q) = known q"
proof -
  let ?q1 = "on_ginfo p (\<lambda>gi. gi\<lparr>gi_team := other\<rparr>) q" and ?q = "change_team b i j other marker p q"
  note L = bq_ok_lists [OF ok]
  have d: "distinct (pre @ marker # suf)" using lists_okD(1) [OF L, of b "BG_NORMAL + i"] own by simp
  then have m: "marker \<notin> set pre" by simp
  have mem: "p \<in> set (bq_lists q b (BG_NORMAL + i))" using own p by simp
  have pk: "p \<in> known q" using lists_okD(2) [OF L mem] by blast
  have lists: "bq_lists ?q = moved b (BG_NORMAL + i) (BG_NORMAL + j) (remove_behind marker p) p (bq_lists q)"
    using moved_lists [of "BG_NORMAL + j" "BG_NORMAL + i" b "remove_behind marker p" p ?q1] i(1) by (simp add: change_team_def)
  have rem: "remove_behind marker p (pre @ marker # suf) = pre @ marker # remove1 p suf" by (rule remove_behind_split [OF m])
  show "bq_lists ?q b (BG_NORMAL + i) = pre @ marker # remove1 p suf" using i(1)
    by (simp add: change_team_def own [simplified] rem)
  show "known ?q = known q" using pk by (auto simp: change_team_def)
  have same: "same_members q ?q" using pk members_okD(2) [of q] ok by (auto simp: same_members_def change_team_def bq_ok_def)
  have "lists_ok ((\<lambda>p. gi_team (info p q))(p := other)) (known q) (bq_lists ?q)"
    unfolding lists
  proof (rule lists_move [OF L mem])
    show "BG_NORMAL + j \<noteq> BG_NORMAL + i" using i(1) by simp
    show "distinct (remove_behind marker p (bq_lists q b (BG_NORMAL + i)))" unfolding own rem using d by (auto simp: distinct_remove1)
    show "set (remove_behind marker p (bq_lists q b (BG_NORMAL + i))) = set (bq_lists q b (BG_NORMAL + i)) - {p}"
      unfolding own rem using d p by auto
  qed (rule i(2))
  then show "bq_ok ?q"
    using bq_ok_team [OF ok] i(3) by (intro bq_ok_same [OF ok same]) (auto simp: change_team_def)
qed

lemma change_teams_ok:
  assumes "bq_ok q" "bq_lists q b (BG_NORMAL + i) = pre @ marker # suf" "distinct gs" "set gs \<subseteq> set suf"
    and i: "i \<noteq> j" "team_list other (BG_NORMAL + j)" "other \<in> {TEAM_OF_ALLIANCE, TEAM_OF_HORDE}"
  shows "bq_ok (fold (change_team b i j other marker) gs q) \<and> known (fold (change_team b i j other marker) gs q) = known q"
  using assms(1-4)
proof (induction gs arbitrary: q suf)
  case (Cons p gs)
  have p: "p \<in> set suf" using Cons.prems(4) by simp
  note C = change_team_ok [OF Cons.prems(1,2) p i]
  have "x \<in> set (remove1 p suf)" if "x \<in> set gs" for x
  proof -
    have "x \<noteq> p" "x \<in> set suf" using Cons.prems(3,4) that by auto
    then show ?thesis by simp
  qed
  then have "set gs \<subseteq> set (remove1 p suf)" by blast
  then show ?case using Cons.IH [OF C(1,2)] C(3) Cons.prems(3) by simp
qed simp

lemma change_team_pools: "bq_pools (change_team b i j other marker p q) = bq_pools q" "bq_bgs (change_team b i j other marker p q) = bq_bgs q"
  by (simp_all add: change_team_def on_list_def on_ginfo_def)

lemma change_teams_pools: "bq_pools (fold (change_team b i j other marker) gs q) = bq_pools q"
  by (induction gs arbitrary: q) (simp_all add: change_team_pools)

text \<open>What \<open>pool_fill\<close> adds comes out of the list, each group once.\<close>

lemma pool_fill_groups:
  "\<exists>gs. sp_groups (bq_pools (pool_fill t desired ps q) t) = sp_groups (bq_pools q t) @ gs \<and> set gs \<subseteq> set ps \<and> (distinct ps \<longrightarrow> distinct gs)"
proof (induction t desired ps q rule: pool_fill.induct)
  case (2 t desired p ps q)
  obtain ok q1 where a: "pool_add t p desired q = (ok, q1)" by fastforce
  have q1: "sp_groups (bq_pools q1 t) = sp_groups (bq_pools q t) @ [p] \<or> sp_groups (bq_pools q1 t) = sp_groups (bq_pools q t)"
    using a by (auto simp: pool_add_def PoolAddGroup_def on_pool_def split: if_splits)
  show ?case
  proof (cases "not_invited q p")
    case True
    show ?thesis
    proof (cases ok)
      case okT: True
      from 2(1) [OF True a [symmetric]] okT obtain gs where gs: "sp_groups (bq_pools (pool_fill t desired ps q1) t) = sp_groups (bq_pools q1 t) @ gs"
        "set gs \<subseteq> set ps" "distinct ps \<longrightarrow> distinct gs" by blast
      have e: "pool_fill t desired (p # ps) q = pool_fill t desired ps q1" using True a okT by simp
      show ?thesis using q1
      proof
        assume "sp_groups (bq_pools q1 t) = sp_groups (bq_pools q t) @ [p]"
        then show ?thesis unfolding e using gs by (intro exI [of _ "p # gs"]) auto
      next
        assume "sp_groups (bq_pools q1 t) = sp_groups (bq_pools q t)"
        then show ?thesis unfolding e using gs by (intro exI [of _ gs]) auto
      qed
    next
      case False
      then have e: "pool_fill t desired (p # ps) q = q1" using True a by simp
      show ?thesis using q1
      proof
        assume "sp_groups (bq_pools q1 t) = sp_groups (bq_pools q t) @ [p]"
        then show ?thesis unfolding e by (intro exI [of _ "[p]"]) simp
      next
        assume "sp_groups (bq_pools q1 t) = sp_groups (bq_pools q t)"
        then show ?thesis unfolding e by (intro exI [of _ "[]"]) simp
      qed
    qed
  next
    case False
    then have e: "pool_fill t desired (p # ps) q = pool_fill t desired ps q" by simp
    from 2(2) [OF False] obtain gs where "sp_groups (bq_pools (pool_fill t desired ps q) t) = sp_groups (bq_pools q t) @ gs"
      "set gs \<subseteq> set ps" "distinct ps \<longrightarrow> distinct gs" by blast
    then show ?thesis unfolding e by (intro exI [of _ gs]) auto
  qed
qed simp

section \<open>Checking for matches\<close>

lemma list_known:
  assumes "bq_ok q"
  shows "set (bq_lists q b j) \<subseteq> known q"
  using lists_okD(2) [OF bq_ok_lists [OF assms]] by blast

lemma premade_ok:
  assumes ok: "bq_ok q" and pools: "pools_known q"
  shows "bq_ok (snd (CheckPremadeMatch w b mn mx q)) \<and> pools_known (snd (CheckPremadeMatch w b mn mx q))"
proof (cases "\<exists>pa ph. find (not_invited q) (bq_lists q b BG_PREMADE) = Some pa \<and> find (not_invited q) (bq_lists q b (BG_PREMADE + 1)) = Some ph")
  case True
  then obtain pa ph where f: "find (not_invited q) (bq_lists q b BG_PREMADE) = Some pa" "find (not_invited q) (bq_lists q b (BG_PREMADE + 1)) = Some ph"
    by blast
  have k: "pa \<in> known q" "ph \<in> known q" using f list_known [OF ok] by (auto simp: find_Some_iff dest: nth_mem)
  define q1 where "q1 = snd (pool_add 1 ph mx (snd (pool_add 0 pa mx q)))"
  define most where "most = min (sp_count (bq_pools q1 0)) (sp_count (bq_pools q1 1))"
  define q2 where "q2 = pool_fill 0 most (bq_lists q1 b BG_NORMAL) q1"
  have e: "snd (CheckPremadeMatch w b mn mx q) = pool_fill 1 most (bq_lists q2 b (BG_NORMAL + 1)) q2"
    by (simp only: CheckPremadeMatch_def f prod.case option.case Let_def q1_def most_def q2_def snd_conv)
  have s1: "selects (known q) q q1" unfolding q1_def
    using k by (intro selects_trans [OF selects_mono [OF pool_add_selects] selects_mono [OF pool_add_selects]]) simp_all
  have s2: "selects (known q) q1 q2" unfolding q2_def
    using list_known [OF ok] selects_lists [OF s1] by (intro selects_mono [OF pool_fill_selects]) simp
  have "selects (known q) q2 (snd (CheckPremadeMatch w b mn mx q))" unfolding e
    using list_known [OF ok] selects_lists [OF s1] selects_lists [OF s2] by (intro selects_mono [OF pool_fill_selects]) simp
  then have "selects (known q) q (snd (CheckPremadeMatch w b mn mx q))" using s1 s2 selects_trans by blast
  then show ?thesis using selects_ok [OF _ ok pools] by blast
next
  case False
  then have e: "CheckPremadeMatch w b mn mx q = (False, move_to_normal w b mn 1 (move_to_normal w b mn 0 q))"
    by (auto simp: CheckPremadeMatch_def split: option.split)
  have f: "known (move_to_normal w b mn t q) = known q \<and> bq_pools (move_to_normal w b mn t q) = bq_pools q" for t q
    by (simp add: move_to_normal_def on_list_def split: list.split)
  show ?thesis unfolding e using bq_ok_normal [OF bq_ok_normal [OF ok]] pools by (simp add: pools_known_def f)
qed

lemma normal_ok:
  assumes ok: "bq_ok q" and pools: "pools_known q"
  shows "bq_ok (snd (CheckNormalMatch w arena b mn mx q)) \<and> pools_known (snd (CheckNormalMatch w arena b mn mx q))"
proof -
  obtain rest0 q1 where r0: "pool_reach 0 mn mx (bq_lists q b BG_NORMAL) q = (rest0, q1)" by fastforce
  obtain rest1 q2 where r1: "pool_reach 1 mn mx (bq_lists q1 b (BG_NORMAL + 1)) q1 = (rest1, q2)" by fastforce
  define j where "j = (if sp_count (bq_pools q2 1) < sp_count (bq_pools q2 0) then 1 else 0 :: nat)"
  define q3 where "q3 = pool_fill j (sp_count (bq_pools q2 (1 - j))) (if j = 0 then rest0 else rest1) q2"
  have s1: "selects (known q) q q1" "set rest0 \<subseteq> known q"
    using pool_reach_selects [of "bq_lists q b BG_NORMAL" q 0 mn mx] r0 list_known [OF ok, of b BG_NORMAL]
    by (auto intro: selects_mono)
  have l1: "set (bq_lists q1 b (BG_NORMAL + 1)) \<subseteq> known q" using selects_lists [OF s1(1)] list_known [OF ok, of b "BG_NORMAL + 1"] by simp
  have s2: "selects (known q) q1 q2" "set rest1 \<subseteq> known q"
    using pool_reach_selects [of "bq_lists q1 b (BG_NORMAL + 1)" q1 1 mn mx] r1 l1 by (auto intro: selects_mono)
  have s3: "selects (known q) q2 q3" unfolding q3_def
    using s1(2) s2(2) by (intro selects_mono [OF pool_fill_selects]) simp
  have "snd (CheckNormalMatch w arena b mn mx q) = q2 \<or> snd (CheckNormalMatch w arena b mn mx q) = q3"
    unfolding CheckNormalMatch_def r0 r1 prod.case Let_def j_def [symmetric] q3_def [symmetric] by simp
  moreover have "selects (known q) q q2" "selects (known q) q q3" using selects_trans [OF s1(1) s2(1)] selects_trans s3 by blast+
  ultimately have "selects (known q) q (snd (CheckNormalMatch w arena b mn mx q))" by metis
  then show ?thesis using selects_ok [OF _ ok pools] by blast
qed

lemma skirmish_ok:
  assumes ok: "bq_ok q" and pools: "pools_known q"
  shows "bq_ok (snd (CheckSkirmishForSameFaction b mn q)) \<and> pools_known (snd (CheckSkirmishForSameFaction b mn q))"
proof (cases "sp_count (bq_pools q 0) < mn \<and> sp_count (bq_pools q 1) < mn")
  case True
  then show ?thesis using assms by (simp add: CheckSkirmishForSameFaction_def)
next
  case False
  define horde where "horde = (sp_count (bq_pools q 1) = mn)"
  define i where "i = (if horde then 1 else 0 :: nat)"
  define j where "j = (if horde then 0 else 1 :: nat)"
  define other where "other = (if horde then TEAM_OF_ALLIANCE else TEAM_OF_HORDE)"
  define q1 where "q1 = on_pool j (\<lambda>_. pool_init) q"
  define marker where "marker = last (sp_groups (bq_pools q1 i))"
  define own where "own = bq_lists q1 b (BG_NORMAL + i)"
  define q2 where "q2 = pool_fill j mn (tl (dropWhile (\<lambda>x. x \<noteq> marker) own)) q1"
  have e: "snd (CheckSkirmishForSameFaction b mn q) =
    (if marker \<notin> set own then q1 else if sp_count (bq_pools q2 j) \<noteq> mn then q2
     else fold (change_team b i j other marker) (sp_groups (bq_pools q2 j)) q2)"
    unfolding CheckSkirmishForSameFaction_def if_not_P [OF False] Let_def horde_def [symmetric] i_def [symmetric] j_def [symmetric]
      other_def [symmetric] q1_def [symmetric] marker_def [symmetric] own_def [symmetric] q2_def [symmetric] by simp
  have c1: "bg_core q1 = bg_core q" by (simp add: q1_def)
  have s1: "selects (known q) q q1" by (auto simp: q1_def selects_def bg_core_def on_pool_def pool_init_def)
  note ok1 = selects_ok [OF s1 ok pools order_refl]
  show ?thesis
  proof (cases "marker \<in> set own")
    case True
    from split_list_first [OF True] obtain pre suf where split: "own = pre @ marker # suf" "marker \<notin> set pre" by blast
    have behind: "tl (dropWhile (\<lambda>x. x \<noteq> marker) own) = suf" using split by (simp add: dropWhile_append)
    have own_q: "own = bq_lists q b (BG_NORMAL + i)" using selects_lists [OF s1] by (simp add: own_def)
    have "set own \<subseteq> known q" "distinct own"
      unfolding own_q using list_known [OF ok, of b "BG_NORMAL + i"] lists_okD(1) [OF bq_ok_lists [OF ok], of b "BG_NORMAL + i"] by blast+
    then have suf: "set suf \<subseteq> known q" "distinct suf" unfolding split(1) by simp_all
    have s2: "selects (known q) q1 q2" unfolding q2_def behind by (rule selects_mono [OF pool_fill_selects suf(1)])
    have k1: "known q1 = known q" by (rule coreD(2) [OF c1])
    note ok2 = selects_ok [OF s2 ok1, unfolded k1, OF order_refl]
    have empty: "sp_groups (bq_pools q1 j) = []" by (simp add: q1_def on_pool_def pool_init_def)
    have gs: "set (sp_groups (bq_pools q2 j)) \<subseteq> set suf" "distinct (sp_groups (bq_pools q2 j))"
      using pool_fill_groups [of j mn suf q1] suf(2) by (auto simp: q2_def behind empty)
    have own2: "bq_lists q2 b (BG_NORMAL + i) = pre @ marker # suf" using selects_lists [OF s2] split(1) by (simp add: own_def)
    have "bq_ok (fold (change_team b i j other marker) (sp_groups (bq_pools q2 j)) q2) \<and>
      known (fold (change_team b i j other marker) (sp_groups (bq_pools q2 j)) q2) = known q2"
      by (rule change_teams_ok [OF ok2(1) own2 gs(2,1)]) (simp_all add: i_def j_def other_def team_list_def)
    then have "bq_ok (fold (change_team b i j other marker) (sp_groups (bq_pools q2 j)) q2) \<and>
      pools_known (fold (change_team b i j other marker) (sp_groups (bq_pools q2 j)) q2)"
      using ok2(2) by (simp add: pools_known_def change_teams_pools)
    then show ?thesis unfolding e using ok1 ok2 by simp
  next
    case False
    then show ?thesis unfolding e using ok1 by simp
  qed
qed

section \<open>Inviting\<close>

definition maxes :: "bg_queue \<Rightarrow> uint32 \<Rightarrow> uint32 option" where
  "maxes q = (\<lambda>i. map_option bt_maxTeam (om_find (bq_bgs q) i))"

lemma maxes_frames [simp]: "maxes (bfx es q) = maxes q" "maxes (on_ginfo p f q) = maxes q" "maxes (AddEvent d ev q) = maxes q"
  "maxes (PlayerInvitedToBGUpdateAverageWaitTime w gi b q) = maxes q" "maxes (on_pool t sp q) = maxes q"
  by (simp_all add: maxes_def bfx_def on_ginfo_def AddEvent_def PlayerInvitedToBGUpdateAverageWaitTime_def on_pool_def Let_def)

lemma maxes_on_bg: "(\<And>bt. bt_maxTeam (f bt) = bt_maxTeam bt) \<Longrightarrow> maxes (on_bg i f q) = maxes q"
  by (simp add: maxes_def on_bg_def fun_eq_iff split: option.split)

lemma maxes_invite_player: "maxes (invite_player w p i g q) = maxes q"
  by (simp add: invite_player_def Let_def maxes_on_bg IncreaseInvitedCount_def split: option.split)

lemma pools_frames [simp]: "bq_pools (bfx es q) = bq_pools q" "bq_pools (on_ginfo p f q) = bq_pools q" "bq_pools (AddEvent d ev q) = bq_pools q"
  "bq_pools (PlayerInvitedToBGUpdateAverageWaitTime w gi b q) = bq_pools q" "bq_pools (on_bg i f' q) = bq_pools q"
  by (simp_all add: bfx_def on_ginfo_def AddEvent_def PlayerInvitedToBGUpdateAverageWaitTime_def on_bg_def Let_def split: option.split)

lemma pools_invite_player: "bq_pools (invite_player w p i g q) = bq_pools q"
  by (simp add: invite_player_def Let_def split: option.split)

lemma fold_frame: "(\<And>x q. f (g x q) = f q) \<Longrightarrow> f (fold g xs q) = f q"
  by (induction xs arbitrary: q) simp_all

lemma Invite_frames: "bq_pools (InviteGroupToBG w p i side q) = bq_pools q" "maxes (InviteGroupToBG w p i side q) = maxes q"
  by (simp_all add: InviteGroupToBG_def Let_def fold_frame [where f = bq_pools, OF pools_invite_player]
      fold_frame [where f = maxes, OF maxes_invite_player] split: option.split)

lemma Invite_own:
  assumes "bq_ok q" "p \<in> known q"
  shows "bg_core (InviteGroupToBG w p i (gi_team (info p q)) q) = bg_core q"
  using assms members_okD(2) by (intro core_Invite) (auto simp: bq_ok_def)

lemma invite_pool_core:
  assumes "bq_ok q" "set (sp_groups (bq_pools q t)) \<subseteq> known q"
  shows "bg_core (invite_pool w i t q) = bg_core q \<and> bq_pools (invite_pool w i t q) = bq_pools q \<and> maxes (invite_pool w i t q) = maxes q"
proof -
  have "bg_core (fold (\<lambda>p q. InviteGroupToBG w p i (gi_team (info p q)) q) ps q) = bg_core q \<and>
    bq_pools (fold (\<lambda>p q. InviteGroupToBG w p i (gi_team (info p q)) q) ps q) = bq_pools q \<and>
    maxes (fold (\<lambda>p q. InviteGroupToBG w p i (gi_team (info p q)) q) ps q) = maxes q"
    if "set ps \<subseteq> known q" "bq_ok q" for ps q
    using that
  proof (induction ps arbitrary: q)
    case (Cons p ps)
    define q1 where "q1 = InviteGroupToBG w p i (gi_team (info p q)) q"
    have c: "bg_core q1 = bg_core q" unfolding q1_def using Cons.prems by (intro Invite_own) simp_all
    have "set ps \<subseteq> known q1" "bq_ok q1" using Cons.prems coreD(2) [OF c] bq_ok_core(1) [OF c] by simp_all
    from Cons.IH [OF this] show ?case using c Invite_frames [of w p i "gi_team (info p q)" q] by (simp flip: q1_def)
  qed simp
  then show ?thesis using assms by (simp add: invite_pool_def)
qed

lemma invite_pools_core:
  assumes "bq_ok q" "pools_known q"
  shows "bg_core (invite_pools w i q) = bg_core q" "maxes (invite_pools w i q) = maxes q"
proof -
  define q1 where "q1 = invite_pool w i 0 q"
  have s: "bg_core q1 = bg_core q" "bq_pools q1 = bq_pools q" "maxes q1 = maxes q"
    using invite_pool_core [OF assms(1), of 0] assms(2) by (simp_all add: pools_known_def q1_def)
  have "bg_core (invite_pool w i 1 q1) = bg_core q1 \<and> maxes (invite_pool w i 1 q1) = maxes q1"
    using invite_pool_core [of q1 1] assms bq_ok_core(1) [OF s(1)] coreD(2) [OF s(1)] s(2) by (simp add: pools_known_def)
  then show "bg_core (invite_pools w i q) = bg_core q" "maxes (invite_pools w i q) = maxes q" using s by (simp_all add: invite_pools_def q1_def)
qed

section \<open>The update\<close>

definition bgs_small :: "bg_queue \<Rightarrow> bool" where
  "bgs_small q \<longleftrightarrow> (\<forall>i n. maxes q i = Some n \<longrightarrow> unat n < 2 ^ 31)"

lemma bgs_small_frames [simp]: "bgs_small (on_pool t f q) = bgs_small q" "bgs_small (init_pools q) = bgs_small q"
  by (simp_all add: bgs_small_def init_pools_def)

lemma free_queue_frames: "maxes (RemoveFromBGFreeSlotQueue i q) = maxes q" "maxes (AddToBGFreeSlotQueue i q) = maxes q"
proof -
  have f: "maxes (q\<lparr>bq_free := fs\<rparr>) = maxes q" for q fs by (simp add: maxes_def)
  show "maxes (RemoveFromBGFreeSlotQueue i q) = maxes q" "maxes (AddToBGFreeSlotQueue i q) = maxes q"
    by (simp_all add: RemoveFromBGFreeSlotQueue_def AddToBGFreeSlotQueue_def f maxes_on_bg split: option.split)
qed

text \<open>What the update starts from and keeps.\<close>

definition bg_fit :: "bg_queue \<Rightarrow> bool" where
  "bg_fit q \<longleftrightarrow> bq_ok q \<and> length (bq_players q) < 2 ^ 31 \<and> bgs_small q"

lemma bg_fit_core:
  assumes "bg_core q' = bg_core q" "maxes q' = maxes q" "bg_fit q"
  shows "bg_fit q'"
  using assms(2,3) bq_ok_core(1) [OF assms(1)] coreD(1) [OF assms(1)] by (simp add: bg_fit_def bgs_small_def)

lemma fill_one_ok:
  assumes fit: "bg_fit q"
  shows "\<exists>q'. fill_one w t b i q = Some q' \<and> bg_fit q'"
proof (cases "om_find (bq_bgs q) i")
  case (Some bt)
  show ?thesis
  proof (cases "\<not> bt_rated bt \<and> bt_type bt = t \<and> bt_bracket bt = b \<and> bt_status bt > BG_STATUS_WAIT_QUEUE \<and> bt_status bt < BG_STATUS_WAIT_LEAVE")
    case True
    let ?q = "init_pools q"
    obtain aliFree hordeFree where slots: "fill_slots w bt b ?q = (aliFree, hordeFree)" by fastforce
    have ok: "bq_ok ?q" and few: "length (bq_players ?q) < 2 ^ 31" using fit by (simp_all add: bg_fit_def init_pools_known)
    have max: "unat (bt_maxTeam bt) < 2 ^ 31" using fit Some by (auto simp: bg_fit_def bgs_small_def maxes_def)
    from FillPlayersToBG_result [OF bq_ok_list_ready [OF ok few] bq_ok_list_ready [OF ok few] init_pools_known(2,3) max slots]
    obtain q1 sa sh where q1: "FillPlayersToBG w bt b ?q = Some q1" "q1 = on_pool 1 (\<lambda>_. sh) (on_pool 0 (\<lambda>_. sa) ?q)"
      and sel: "selected_for (\<lambda>p. info p ?q) (bq_lists ?q b BG_NORMAL) (unat (bt_maxTeam bt) - unat (bt_invAlliance bt)) (bq_pools q1 0)"
        "selected_for (\<lambda>p. info p ?q) (bq_lists ?q b (BG_NORMAL + 1)) (unat (bt_maxTeam bt) - unat (bt_invHorde bt)) (bq_pools q1 1)"
      by blast
    have c1: "bg_core q1 = bg_core ?q" "maxes q1 = maxes ?q" using q1(2) by simp_all
    have pools: "pools_known q1"
      using sel list_known [OF ok, of b BG_NORMAL] list_known [OF ok, of b "BG_NORMAL + 1"] coreD(2) [OF c1(1)]
      unfolding pools_known_def selected_for_def selection_ok_def by blast
    have ok1: "bq_ok q1" using ok bq_ok_core(1) [OF c1(1)] by simp
    define q2 where "q2 = invite_pools w i q1"
    note c2 = invite_pools_core [OF ok1 pools, of w i, folded q2_def]
    have fit2: "bg_fit q2" using fit c1 c2 by (intro bg_fit_core [of q2 q]) (simp_all add: init_pools_def)
    define q3 where "q3 = (case om_find (bq_bgs q2) i of None \<Rightarrow> q2
                             | Some bt' \<Rightarrow> if HasFreeSlots bt' then q2 else RemoveFromBGFreeSlotQueue i q2)"
    have "bg_core q3 = bg_core q2" "maxes q3 = maxes q2" by (simp_all add: q3_def free_queue_frames split: option.split)
    then have "bg_fit q3" using fit2 by (rule bg_fit_core)
    moreover have "fill_one w t b i q = Some q3"
      unfolding fill_one_def Some option.case if_P [OF True] q1(1) Let_def q2_def [symmetric] q3_def [symmetric] ..
    ultimately show ?thesis by blast
  next
    case False
    show ?thesis unfolding fill_one_def Some option.case if_not_P [OF False] using fit by blast
  qed
qed (simp add: fill_one_def fit)

lemma fill_all_ok: "bg_fit q \<Longrightarrow> \<exists>q'. fill_all w t b is q = Some q' \<and> bg_fit q'"
proof (induction "is" arbitrary: q)
  case (Cons i is')
  from fill_one_ok [OF Cons.prems, of w t b i] obtain q1 where "fill_one w t b i q = Some q1" "bg_fit q1" by blast
  then show ?case using Cons.IH [of q1] by simp
qed simp

lemma core_create: "bg_core (snd (CreateNewBattleground w t b at r q)) = bg_core q"
  by (simp add: CreateNewBattleground_def bg_core_def split: option.split)

lemma create_pools: "bq_pools (snd (CreateNewBattleground w t b at r q)) = bq_pools q"
  by (simp add: CreateNewBattleground_def split: option.split)

lemma start_new_ok:
  assumes "bq_ok q" "pools_known q" "start_new w t b at q = Some q'"
  shows "bq_ok q'"
proof -
  obtain i q1 where c: "CreateNewBattleground w t b at False q = (Some i, q1)" and q': "q' = StartBattleground i (invite_pools w i q1)"
    using assms(3) by (auto simp: start_new_def split: prod.splits option.splits)
  have c1: "bg_core q1 = bg_core q" "bq_pools q1 = bq_pools q" using core_create [of w t b at False q] create_pools [of w t b at False q] c by simp_all
  have ok: "bq_ok q1" "pools_known q1" using assms(1,2) c1(2) bq_ok_core(1) [OF c1(1)] coreD(2) [OF c1(1)] by (simp_all add: pools_known_def)
  have "bg_core q' = bg_core (invite_pools w i q1)" by (simp add: q')
  then have "bg_core q' = bg_core q1" using invite_pools_core(1) [OF ok, of w i] by simp
  then show ?thesis using ok(1) bq_ok_core(1) by blast
qed

lemma premade_match_ok:
  assumes ok: "bq_ok q" "pools_known q"
  shows "bq_ok (snd (premade_match w t b mn mx q)) \<and> (fst (premade_match w t b mn mx q) \<longrightarrow> pools_known (snd (premade_match w t b mn mx q)))"
proof -
  obtain f q1 where c: "CheckPremadeMatch w b mn mx q = (f, q1)" by fastforce
  have q1: "bq_ok q1" "pools_known q1" using premade_ok [OF ok, of w b mn mx] c by simp_all
  show ?thesis
  proof (cases "f \<and> start_new w t b 0 q1 \<noteq> None")
    case True
    then obtain q2 where "start_new w t b 0 q1 = Some q2" by blast
    then show ?thesis using True c start_new_ok [OF q1] by (simp add: premade_match_def init_pools_known)
  next
    case False
    then show ?thesis using c q1 by (cases f) (simp_all add: premade_match_def)
  qed
qed

lemma normal_match_ok:
  assumes ok: "bq_ok q" "pools_known q"
  shows "bq_ok (normal_match w t b arena at mn mx q)"
proof -
  obtain f q1 where c: "CheckNormalMatch w arena b mn mx q = (f, q1)" by fastforce
  have q1: "bq_ok q1" "pools_known q1" using normal_ok [OF ok, of w arena b mn mx] c by simp_all
  obtain f2 q2 where d: "(if f then (True, q1) else if arena then CheckSkirmishForSameFaction b mn q1 else (False, q1)) = (f2, q2)" by fastforce
  have q2: "bq_ok q2" "pools_known q2" using skirmish_ok [OF q1, of b mn] d q1 by (auto split: if_splits)
  have "normal_match w t b arena at mn mx q = (if f2 then (case start_new w t b at q2 of None \<Rightarrow> q2 | Some q3 \<Rightarrow> q3) else q2)"
    unfolding normal_match_def c Let_def prod.case d ..
  then show ?thesis using q2(1) start_new_ok [OF q2] by (auto split: option.split)
qed

end
