(* ===== verification/BgReach.thy ===== *)
theory BgReach
  imports BgUpdate
begin

text \<open>
  Rated matches, the whole update, and the states a queue can reach by joining, leaving, events and updates:
  everybody stays in exactly one group, every group in one list of its team.
\<close>

section \<open>Rated matches\<close>

lemma find_mem: "find P xs = Some x \<Longrightarrow> x \<in> set xs \<and> P x"
  by (auto simp: find_Some_iff)

lemma find_teams_in:
  assumes ok: "bq_ok q" and f: "find_teams w r b q = Some (pa, ph)"
  shows "pa \<noteq> ph" "pa \<in> set (bq_lists q b 0) \<union> set (bq_lists q b 1)" "ph \<in> set (bq_lists q b 0) \<union> set (bq_lists q b 1)"
proof -
  note L = bq_ok_lists [OF ok]
  have behind: "set (dropWhile P xs) \<subseteq> set xs" for P and xs :: "nat list" using set_dropWhileD by fast
  have "pa \<noteq> ph \<and> pa \<in> set (bq_lists q b 0) \<union> set (bq_lists q b 1) \<and> ph \<in> set (bq_lists q b 0) \<union> set (bq_lists q b 1)"
  proof (cases "find (fits_rating w r q) (bq_lists q b BG_PREMADE)")
    case None
    then obtain p where p: "find (fits_rating w r q) (bq_lists q b (BG_PREMADE + 1)) = Some p" "pa = p"
      "find (\<lambda>p'. fits_rating w r q p' \<and> gi_arenaTeam (info p q) \<noteq> gi_arenaTeam (info p' q)) (dropWhile (\<lambda>x. x \<noteq> p) (bq_lists q b (BG_PREMADE + 1))) = Some ph"
      using f by (auto simp: find_teams_def Let_def split: option.splits)
    show ?thesis using find_mem [OF p(1)] find_mem [OF p(3)] p(2) behind [of "\<lambda>x. x \<noteq> p" "bq_lists q b 1"] by auto
  next
    case (Some p)
    show ?thesis
    proof (cases "find (fits_rating w r q) (bq_lists q b (BG_PREMADE + 1))")
      case None
      then have p: "pa = p" "find (\<lambda>p'. fits_rating w r q p' \<and> gi_arenaTeam (info p q) \<noteq> gi_arenaTeam (info p' q)) (dropWhile (\<lambda>x. x \<noteq> p) (bq_lists q b BG_PREMADE)) = Some ph"
        using f Some by (auto simp: find_teams_def Let_def split: option.splits)
      show ?thesis using find_mem [OF Some] find_mem [OF p(2)] p(1) behind [of "\<lambda>x. x \<noteq> p" "bq_lists q b 0"] by auto
    next
      case (Some p')
      then have e: "pa = p" "ph = p'" using f \<open>find _ (bq_lists q b BG_PREMADE) = Some p\<close> by (simp_all add: find_teams_def Let_def)
      have m: "p \<in> set (bq_lists q b 0)" "p' \<in> set (bq_lists q b 1)"
        using find_mem [OF Some] find_mem [OF \<open>find _ (bq_lists q b BG_PREMADE) = Some p\<close>] by simp_all
      have "p \<noteq> p'" using lists_okD(3) [OF L m(1), of b 1] m(2) by auto
      then show ?thesis using m e by simp
    qed
  qed
  then show "pa \<noteq> ph" "pa \<in> set (bq_lists q b 0) \<union> set (bq_lists q b 1)" "ph \<in> set (bq_lists q b 0) \<union> set (bq_lists q b 1)" by blast+
qed

text \<open>A team is put to the front of the list of the side it plays on, when it does not stand there.\<close>

definition take_side :: "nat \<Rightarrow> nat \<Rightarrow> uint32 \<Rightarrow> nat \<Rightarrow> bg_queue \<Rightarrow> bg_queue" where
  "take_side b j side p q =
     (if gi_team (info p q) \<noteq> side then on_list b (1 - j) (remove1 p) (on_list b j (\<lambda>ps. p # ps) q) else q)"

lemma take_side_frames: "same_members q (take_side b j side p q)" "info p' (take_side b j side p q) = info p' q"
  "maxes (take_side b j side p q) = maxes q"
  by (simp_all add: take_side_def same_members_def on_list_def maxes_def info_def)

lemma take_side_lists:
  assumes L: "lists_ok T (known q) (bq_lists q)" and T: "T p = gi_team (info p q)" "T p \<in> {TEAM_OF_ALLIANCE, TEAM_OF_HORDE}"
    and p: "p \<in> set (bq_lists q b 0) \<union> set (bq_lists q b 1)"
    and side: "side = (if j = 0 then TEAM_OF_ALLIANCE else TEAM_OF_HORDE)" "j < 2"
  shows "lists_ok (T(p := side)) (known q) (bq_lists (take_side b j side p q))"
    "p' \<noteq> p \<Longrightarrow> p' \<in> set (bq_lists q b 0) \<union> set (bq_lists q b 1) \<Longrightarrow>
       p' \<in> set (bq_lists (take_side b j side p q) b 0) \<union> set (bq_lists (take_side b j side p q) b 1)"
proof -
  have j: "j = 0 \<or> j = 1" using side(2) by linarith
  show "lists_ok (T(p := side)) (known q) (bq_lists (take_side b j side p q))"
  proof (cases "T p = side")
    case True
    then have "T(p := side) = T" "take_side b j side p q = q" using T(1) by (auto simp: take_side_def)
    then show ?thesis using L by simp
  next
    case False
    obtain k where k: "p \<in> set (bq_lists q b k)" "k < 2" using p by fastforce
    have "odd k \<longleftrightarrow> T p = TEAM_OF_HORDE" using lists_okD(2) [OF L k(1)] by (simp add: team_list_def)
    then have "k = 1 - j" using False T(2) side(1) j k(2) by (auto simp: less_2_cases_iff)
    then have mem: "p \<in> set (bq_lists q b (1 - j))" using k(1) by simp
    have "lists_ok (T(p := side)) (known q) (moved b (1 - j) j (remove1 p) p (bq_lists q))"
    proof (rule lists_move [OF L mem])
      show "j \<noteq> 1 - j" using j by auto
      show "team_list side j" using j side(1) by (auto simp: team_list_def)
      show "distinct (remove1 p (bq_lists q b (1 - j)))" using lists_okD(1) [OF L] by (simp add: distinct_remove1)
      show "set (remove1 p (bq_lists q b (1 - j))) = set (bq_lists q b (1 - j)) - {p}" using lists_okD(1) [OF L] by simp
    qed
    moreover have "bq_lists (take_side b j side p q) = moved b (1 - j) j (remove1 p) p (bq_lists q)"
    proof -
      have "j \<noteq> 1 - j" using j by auto
      from moved_lists [OF this] False T(1) show ?thesis by (simp add: take_side_def)
    qed
    ultimately show ?thesis by simp
  qed
  show "p' \<in> set (bq_lists (take_side b j side p q) b 0) \<union> set (bq_lists (take_side b j side p q) b 1)"
    if "p' \<noteq> p" "p' \<in> set (bq_lists q b 0) \<union> set (bq_lists q b 1)"
    using that j by (auto simp: take_side_def)
qed

text \<open>An invitation for a side gives the group the team of that side.\<close>

lemma Invite_side:
  assumes "om_ok (bq_infos q)" "p \<in> known q" "side \<noteq> 0"
  shows "bg_core (InviteGroupToBG w p i side q) = bg_core (on_ginfo p (\<lambda>gi. gi\<lparr>gi_team := side\<rparr>) q)"
proof -
  let ?q = "on_ginfo p (\<lambda>gi. gi\<lparr>gi_team := side\<rparr>) q"
  have "InviteGroupToBG w p i side q = InviteGroupToBG w p i 0 ?q" using assms(3) by (simp add: InviteGroupToBG_def)
  moreover have "bg_core (InviteGroupToBG w p i 0 ?q) = bg_core ?q" using assms(1,2) by (intro core_Invite) simp_all
  ultimately show ?thesis by simp
qed

lemma start_rated_ok:
  assumes ok: "bq_ok q" and teams: "pa \<noteq> ph" "pa \<in> set (bq_lists q b 0) \<union> set (bq_lists q b 1)" "ph \<in> set (bq_lists q b 0) \<union> set (bq_lists q b 1)"
  shows "bq_ok (start_rated w b i pa ph q)"
proof -
  have k: "pa \<in> known q" "ph \<in> known q" using teams(2,3) list_known [OF ok] by blast+
  have om: "om_ok (bq_infos q)" using ok by (simp add: bq_ok_def members_ok_def)
  define q0 where "q0 = on_ginfo pa (\<lambda>gi. gi\<lparr>gi_oppRating := gi_teamRating (info ph q), gi_oppMmr := gi_mmr (info ph q)\<rparr>) q"
  define q1 where "q1 = on_ginfo ph (\<lambda>gi. gi\<lparr>gi_oppRating := gi_teamRating (info pa q), gi_oppMmr := gi_mmr (info pa q)\<rparr>) q0"
  define q2 where "q2 = take_side b 0 TEAM_OF_ALLIANCE pa q1"
  define q3 where "q3 = take_side b 1 TEAM_OF_HORDE ph q2"
  define q4 where "q4 = bfx [ArenaMmrFor i TEAM_OF_ALLIANCE (gi_mmr (info pa q3)), ArenaMmrFor i TEAM_OF_HORDE (gi_mmr (info ph q3))] q3"
  define q5 where "q5 = InviteGroupToBG w pa i TEAM_OF_ALLIANCE q4"
  define q6 where "q6 = InviteGroupToBG w ph i TEAM_OF_HORDE q5"
  have e: "start_rated w b i pa ph q = StartBattleground i q6"
    by (simp add: start_rated_def Let_def q6_def q5_def q4_def q3_def q2_def q1_def q0_def take_side_def)
  have c0: "bg_core q0 = bg_core q" unfolding q0_def using om k by (intro core_on_ginfo) (simp_all add: group_core_def)
  have om0: "om_ok (bq_infos q0)" "ph \<in> known q0" using om k coreD(2,3) [OF c0] by simp_all
  have c1: "bg_core q1 = bg_core q" unfolding q1_def using core_on_ginfo [OF om0] c0 by (simp add: group_core_def)
  let ?T = "\<lambda>p. gi_team (info p q)"
  have team1: "gi_team (info p q1) = ?T p" for p by (rule coreD(7) [OF c1])
  have L1: "lists_ok ?T (known q1) (bq_lists q1)" using bq_ok_lists [OF ok] coreD(2,4) [OF c1] by simp
  have in1: "pa \<in> set (bq_lists q1 b 0) \<union> set (bq_lists q1 b 1)" "ph \<in> set (bq_lists q1 b 0) \<union> set (bq_lists q1 b 1)"
    using teams(2,3) coreD(4) [OF c1] by simp_all
  have side0: "TEAM_OF_ALLIANCE = (if 0 = (0::nat) then TEAM_OF_ALLIANCE else TEAM_OF_HORDE)" by simp
  have side1: "TEAM_OF_HORDE = (if 1 = (0::nat) then TEAM_OF_ALLIANCE else TEAM_OF_HORDE)" by simp
  have S2: "same_members q1 q2" unfolding q2_def by (rule take_side_frames)
  note K2 = same_members_known [OF S2]
  have L2: "lists_ok (?T(pa := TEAM_OF_ALLIANCE)) (known q2) (bq_lists q2)" unfolding K2 unfolding q2_def
    using take_side_lists(1) [OF L1 team1 [symmetric] bq_ok_team [OF ok k(1)] in1(1) side0] by simp
  have in2: "ph \<in> set (bq_lists q2 b 0) \<union> set (bq_lists q2 b 1)"
    using take_side_lists(2) [OF L1 team1 [symmetric] bq_ok_team [OF ok k(1)] in1(1) side0 _ teams(1) [symmetric] in1(2)] by (simp add: q2_def)
  have T2: "(?T(pa := TEAM_OF_ALLIANCE)) ph = gi_team (info ph q2)" "(?T(pa := TEAM_OF_ALLIANCE)) ph \<in> {TEAM_OF_ALLIANCE, TEAM_OF_HORDE}"
    using teams(1) team1 bq_ok_team [OF ok k(2)] by (simp_all add: q2_def take_side_frames)
  have S3: "same_members q2 q3" unfolding q3_def by (rule take_side_frames)
  have L3: "lists_ok (?T(pa := TEAM_OF_ALLIANCE, ph := TEAM_OF_HORDE)) (known q3) (bq_lists q3)"
    unfolding same_members_known [OF S3] unfolding q3_def by (rule take_side_lists(1) [OF L2 T2 in2 side1]) simp
  have S4: "same_members q q4" using same_members_trans [OF same_members_trans [OF same_members_core [OF c1] S2] S3]
    by (simp add: same_members_def q4_def)
  have k4: "known q4 = known q" "om_ok (bq_infos q4)" using S4 om by (simp_all add: same_members_def)
  have team4: "gi_team (info p q4) = ?T p" for p using team1 by (simp add: q4_def q3_def q2_def take_side_frames)
  have c5: "bg_core q5 = bg_core (on_ginfo pa (\<lambda>gi. gi\<lparr>gi_team := TEAM_OF_ALLIANCE\<rparr>) q4)" unfolding q5_def using k k4 by (intro Invite_side) simp_all
  note D5 = coreD [OF c5]
  have k5: "known q5 = known q" "om_ok (bq_infos q5)" using D5(2,3) k k4 by auto
  have c6: "bg_core q6 = bg_core (on_ginfo ph (\<lambda>gi. gi\<lparr>gi_team := TEAM_OF_HORDE\<rparr>) q5)" unfolding q6_def using k k5 by (intro Invite_side) simp_all
  note D6 = coreD [OF c6]
  have "bq_ok q6"
  proof (rule bq_ok_same [OF ok, where T = "?T(pa := TEAM_OF_ALLIANCE, ph := TEAM_OF_HORDE)"])
    have "same_members q4 q5" using same_members_trans [OF same_members_ginfo same_members_core [OF c5]] k k4 by simp
    moreover have "same_members q5 q6" using same_members_trans [OF same_members_ginfo same_members_core [OF c6]] k k5 by simp
    ultimately show "same_members q q6" using S4 same_members_trans by blast
    show "gi_team (info p q6) = (?T(pa := TEAM_OF_ALLIANCE, ph := TEAM_OF_HORDE)) p \<and>
      (?T(pa := TEAM_OF_ALLIANCE, ph := TEAM_OF_HORDE)) p \<in> {TEAM_OF_ALLIANCE, TEAM_OF_HORDE}" if "p \<in> known q" for p
      using bq_ok_team [OF ok that] by (auto simp: D6(7) D5(7) team4)
    have "bq_lists q6 = bq_lists q3" using D6(4) D5(4) by (simp add: q4_def)
    moreover have "known q3 = known q" using same_members_known [OF S3] K2 coreD(2) [OF c1] by simp
    ultimately show "lists_ok (?T(pa := TEAM_OF_ALLIANCE, ph := TEAM_OF_HORDE)) (known q) (bq_lists q6)" using L3 by simp
  qed
  then show ?thesis unfolding e by (simp only: bq_ok_core(1) [OF core_frames(8)])
qed

lemma rated_match_ok:
  assumes ok: "bq_ok q"
  shows "bq_ok (rated_match w t b at r q)"
proof (cases "\<exists>r' pa ph. search_rating b r q = Some r' \<and> find_teams w r' b q = Some (pa, ph)")
  case True
  then obtain r' pa ph where f: "search_rating b r q = Some r'" "find_teams w r' b q = Some (pa, ph)" by blast
  note teams = find_teams_in [OF ok f(2)]
  obtain mi q1 where c: "CreateNewBattleground w t b at True q = (mi, q1)" by fastforce
  have c1: "bg_core q1 = bg_core q" using core_create [of w t b at True q] c by simp
  have ok1: "bq_ok q1" using ok bq_ok_core(1) [OF c1] by simp
  have "bq_ok (start_rated w b i pa ph q1)" for i
    using start_rated_ok [OF ok1 teams(1)] teams(2,3) coreD(4) [OF c1] by simp
  then show ?thesis using f c ok1 by (simp add: rated_match_def split: option.split)
next
  case False
  then have "rated_match w t b at r q = q" by (auto simp: rated_match_def split: option.split prod.split)
  then show ?thesis using ok by simp
qed

section \<open>The update\<close>

lemma update_ok:
  assumes fit: "bg_fit q"
  shows "\<exists>q'. BattlegroundQueueUpdate w t b at rated rating q = Some q' \<and> bq_ok q'"
proof (cases "bq_lists q b 0 = [] \<and> bq_lists q b 1 = [] \<and> bq_lists q b 2 = [] \<and> bq_lists q b 3 = []")
  case True
  then show ?thesis using fit by (auto simp: BattlegroundQueueUpdate_def bg_fit_def)
next
  case waiting: False
  from fill_all_ok [OF fit] obtain q1 where q1: "fill_all w t b (bq_free q) q = Some q1" "bg_fit q1" by blast
  have ok1: "bq_ok q1" using q1(2) by (simp add: bg_fit_def)
  show ?thesis
  proof (cases "bw_template w t")
    case None
    then show ?thesis unfolding BattlegroundQueueUpdate_def if_not_P [OF waiting] q1(1) using ok1 by simp
  next
    case (Some tp)
    define minP where "minP = (if tp_arena tp then (if bw_arenaTesting w then 1 else ucast at)
                              else if bw_testing w then 1 else tp_min tp)"
    define maxP where "maxP = (if tp_arena tp then ucast at else tp_max tp)"
    define q2 where "q2 = init_pools q1"
    obtain go q3 where m: "(if tp_arena tp then (True, q2) else premade_match w t b minP maxP q2) = (go, q3)" by fastforce
    have q2: "bq_ok q2" "pools_known q2" using ok1 by (simp_all add: q2_def init_pools_known)
    have q3: "bq_ok q3" "go \<Longrightarrow> pools_known q3" using premade_match_ok [OF q2, of w t b minP maxP] m q2 by (auto split: if_splits)
    have "BattlegroundQueueUpdate w t b at rated rating q = Some (if \<not> bw_bracketKnown w t b then q1 else if \<not> go then q3
        else if \<not> rated then normal_match w t b (tp_arena tp) at minP maxP q3
        else if tp_arena tp then rated_match w t b at rating q3 else q3)"
      unfolding BattlegroundQueueUpdate_def if_not_P [OF waiting] q1(1) option.map Some option.case Let_def
        minP_def [symmetric] maxP_def [symmetric] q2_def [symmetric] m prod.case ..
    then show ?thesis using ok1 q3 normal_match_ok [OF q3] rated_match_ok [OF q3(1)] by simp
  qed
qed

section \<open>Events\<close>

lemma core_now: "bg_core (q\<lparr>bq_events := es\<rparr>) = bg_core q" "bg_core (q\<lparr>bq_now := n\<rparr>) = bg_core q"
  by simp_all

lemma event_ok:
  assumes "bq_ok q"
  shows "bq_ok (ExecuteQueueEvent w ev q)"
proof (cases ev)
  case (BGQueueInviteEvent g i t at rt)
  have "bg_core (ExecuteQueueEvent w ev q) = bg_core q" by (simp add: BGQueueInviteEvent Let_def split: option.split)
  then show ?thesis using bq_ok_core(1) assms by blast
next
  case (BGQueueRemoveEvent g i t qt rt)
  define slot where "slot = bw_queueSlot w g qt"
  define bg where "bg = GetBattleground i t q"
  define q1 where "q1 = (case bg of None \<Rightarrow> q
                             | Some bt \<Rightarrow>
                                 if \<not> bt_arena bt \<and> bw_deserters w \<and> (bt_status bt = BG_STATUS_IN_PROGRESS \<or> bt_status bt = BG_STATUS_WAIT_JOIN)
                                 then bfx [CHAR_INS_DESERTER_TRACK (GetCounter g)] q else q)"
  define q2 where "q2 = QueueRemovePlayer w g True (bfx [DropQueueId g qt] q1)"
  define q3 where "q3 = (case bg of None \<Rightarrow> q2
                             | Some bt \<Rightarrow> if \<not> bt_arena bt \<and> bt_status bt \<noteq> BG_STATUS_WAIT_LEAVE
                                          then bfx [ScheduleQueueUpdate_fx bt qt t] q2 else q2)"
  have e: "ExecuteQueueEvent w ev q = (if \<not> bw_connected w g then q
      else if slot < PLAYER_MAX_BATTLEGROUND_QUEUES \<and> IsPlayerInvited g i rt q then bfx [StatusPacket g None slot BG_STATUS_NONE 0 0] q3 else q)"
    unfolding BGQueueRemoveEvent ExecuteQueueEvent.simps Let_def slot_def [symmetric] bg_def [symmetric] q1_def [symmetric] q2_def [symmetric]
      q3_def [symmetric] ..
  have c1: "bg_core (bfx [DropQueueId g qt] q1) = bg_core q" by (simp add: q1_def split: option.split)
  have "bq_ok q2" unfolding q2_def using assms by (intro bq_ok_remove) (simp only: bq_ok_core(1) [OF c1])
  moreover have c3: "bg_core (bfx [StatusPacket g None slot BG_STATUS_NONE 0 0] q3) = bg_core q2" by (simp add: q3_def split: option.split)
  ultimately have "bq_ok (bfx [StatusPacket g None slot BG_STATUS_NONE 0 0] q3)" by (simp only: bq_ok_core(1) [OF c3])
  then show ?thesis unfolding e using assms by simp
qed

lemma run_events_ok: "bq_ok q \<Longrightarrow> bq_ok (run_events w es q)"
proof (induction es arbitrary: q)
  case (Cons e es)
  obtain t ev where e: "e = (t, ev)" by fastforce
  have "bq_ok (q\<lparr>bq_events := es\<rparr>)" using Cons.prems by (simp only: bq_ok_core(1) [OF core_now(1)])
  then have "bq_ok (run_events w es (ExecuteQueueEvent w ev (q\<lparr>bq_events := es\<rparr>)))" by (rule Cons.IH [OF event_ok])
  moreover have "bq_ok (q\<lparr>bq_events := (t, ev) # es\<rparr>)" using Cons.prems by (simp only: bq_ok_core(1) [OF core_now(1)])
  ultimately show ?case by (simp add: e)
qed (simp only: run_events.simps bq_ok_core(1) [OF core_now(1)])

section \<open>Reachable queues\<close>

inductive bg_step :: "bg_queue \<Rightarrow> bg_queue \<Rightarrow> bool" where
  joins: "may_join leader team grp b q \<Longrightarrow>
     bg_step q (snd (QueueAddGroup w leader team grp t b arenaType rated premade rating mmr arenaTeam q))"
| leaves: "bg_step q (QueueRemovePlayer w g dec q)"
| times_out: "bg_step q (UpdateEvents w diff q)"
| matches: "BattlegroundQueueUpdate w t b arenaType rated rating q = Some q' \<Longrightarrow> length (bq_players q) < 2 ^ 31 \<Longrightarrow> bgs_small q \<Longrightarrow> bg_step q q'"
| fights: "bg_step q (q\<lparr>bq_bgs := bgs, bq_free := free\<rparr>)"

inductive bg_reachable :: "bg_queue \<Rightarrow> bool" where
  bg_start: "bg_reachable bg_queue_init"
| bg_next: "bg_reachable q \<Longrightarrow> bg_step q q' \<Longrightarrow> bg_reachable q'"

lemma bq_ok_init: "bq_ok bg_queue_init"
  by (simp add: bq_ok_def members_ok_def lists_ok_def bg_queue_init_def om_keys_def om_ok_def)

lemma bg_step_ok: "bg_step q q' \<Longrightarrow> bq_ok q \<Longrightarrow> bq_ok q'"
proof (induction rule: bg_step.induct)
  case (joins leader team grp b q)
  then show ?case by (intro bq_ok_add)
next
  case (leaves q)
  then show ?case by (intro bq_ok_remove)
next
  case (times_out q w diff)
  have "bq_ok (q\<lparr>bq_now := bq_now q + ucast diff\<rparr>)" using times_out by (simp only: bq_ok_core(1) [OF core_now(2)])
  then show ?case unfolding UpdateEvents_def Let_def by (rule run_events_ok)
next
  case (matches w t b at rated rating q q')
  then have "bg_fit q" by (simp add: bg_fit_def)
  from update_ok [OF this, of w t b at rated rating] show ?case using matches(1) by simp
next
  case (fights q free bgs)
  have "bg_core (q\<lparr>bq_bgs := bgs, bq_free := free\<rparr>) = bg_core q" by (simp add: bg_core_def)
  then show ?case using fights bq_ok_core(1) by blast
qed

text \<open>Whatever holds of the empty queue and is kept by every step holds of all reachable queues.\<close>

locale queue_invariant =
  fixes holds :: "bg_queue \<Rightarrow> bool"
  assumes start: "holds bg_queue_init"
    and step: "bg_step q q' \<Longrightarrow> holds q \<Longrightarrow> holds q'"
begin

lemma reachable: "bg_reachable q \<Longrightarrow> holds q"
  by (induction rule: bg_reachable.induct) (auto intro: start step)

end

interpretation queue_wf: queue_invariant bq_ok
  by unfold_locales (auto intro: bq_ok_init bg_step_ok)

lemma bg_reachable_ok: "bg_reachable q \<Longrightarrow> bq_ok q"
  by (rule queue_wf.reachable)

end
