(* ===== verification/BgOutcomes.thy ===== *)
theory BgOutcomes
  imports BgReach
begin

text \<open>
  What the queue promises: fair normal matches, average waiting times, updates done once each in their order; and
  the theorems on the states a queue can reach.
\<close>

section \<open>Normal matches\<close>

lemma selection_weaken: "selection_ok gis pre sp \<Longrightarrow> selection_ok gis (pre @ ps) sp"
  by (auto simp: selection_ok_def)

lemma queue_pool_add:
  assumes ready: "list_ready (\<lambda>p. info p q) (pre @ p # post)" and sel: "selection_ok (\<lambda>p. info p q) pre (bq_pools q t)"
    and add: "pool_add t p desired q = (ok, q')"
  shows "selection_ok (\<lambda>p. info p q) (pre @ [p]) (bq_pools q' t)" "unat (sp_count (bq_pools q' t)) \<le> max (unat (sp_count (bq_pools q t))) (unat desired)"
    "(\<lambda>p. info p q') = (\<lambda>p. info p q)" "bq_lists q' = bq_lists q" "t' \<noteq> t \<Longrightarrow> bq_pools q' t' = bq_pools q t'"
proof -
  obtain sp where sp: "PoolAddGroup (info p q) p desired (bq_pools q t) = (ok, sp)" "q' = on_pool t (\<lambda>_. sp) q"
    using add by (auto simp: pool_add_def split: prod.splits)
  from pool_add_ok [OF ready sel sp(1)]
  show "selection_ok (\<lambda>p. info p q) (pre @ [p]) (bq_pools q' t)" "unat (sp_count (bq_pools q' t)) \<le> max (unat (sp_count (bq_pools q t))) (unat desired)"
    by (simp_all add: sp(2) on_pool_def)
  show "(\<lambda>p. info p q') = (\<lambda>p. info p q)" "bq_lists q' = bq_lists q" "t' \<noteq> t \<Longrightarrow> bq_pools q' t' = bq_pools q t'"
    by (simp_all add: sp(2) on_pool_def info_def)
qed

text \<open>A stretch of selecting in the pool \<open>t\<close>: what has been looked at, the limit, and what is left alone.\<close>

definition stretch :: "(nat \<Rightarrow> bg_info) \<Rightarrow> nat list \<Rightarrow> nat \<Rightarrow> nat \<Rightarrow> bg_queue \<Rightarrow> bg_queue \<Rightarrow> bool" where
  "stretch gis pre limit t q q' \<longleftrightarrow> selection_ok gis pre (bq_pools q' t) \<and> unat (sp_count (bq_pools q' t)) \<le> limit \<and>
     (\<lambda>p. info p q') = gis \<and> bq_lists q' = bq_lists q \<and> (\<forall>t'. t' \<noteq> t \<longrightarrow> bq_pools q' t' = bq_pools q t')"

lemma pool_fill_stretch:
  assumes "list_ready gis (pre @ ps)" "(\<lambda>p. info p q) = gis" "selection_ok gis pre (bq_pools q t)"
    "unat (sp_count (bq_pools q t)) \<le> limit" "unat desired \<le> limit"
  shows "stretch gis (pre @ ps) limit t q (pool_fill t desired ps q)"
  using assms(1-4)
proof (induction ps arbitrary: pre q)
  case Nil
  then show ?case by (auto simp: stretch_def)
next
  case (Cons p ps)
  show ?case
  proof (cases "not_invited q p")
    case True
    obtain ok q1 where a: "pool_add t p desired q = (ok, q1)" by fastforce
    note step = queue_pool_add [OF Cons.prems(1,3) [folded Cons.prems(2)] a, unfolded Cons.prems(2)]
    have lim: "unat (sp_count (bq_pools q1 t)) \<le> limit" using step(2) Cons.prems(4) assms(5) by simp
    show ?thesis
    proof (cases ok)
      case okT: True
      have "stretch gis ((pre @ [p]) @ ps) limit t q1 (pool_fill t desired ps q1)"
        by (rule Cons.IH) (use Cons.prems(1) step lim in simp_all)
      then show ?thesis using True a okT step(4,5) by (simp add: stretch_def)
    next
      case False
      have "selection_ok gis ((pre @ [p]) @ ps) (bq_pools q1 t)" using step(1) by (rule selection_weaken)
      then show ?thesis using True a False step lim by (simp add: stretch_def)
    qed
  next
    case False
    have "stretch gis ((pre @ [p]) @ ps) limit t q (pool_fill t desired ps q)"
      by (rule Cons.IH) (use Cons.prems selection_weaken [OF Cons.prems(3)] in simp_all)
    then show ?thesis using False by simp
  qed
qed

lemma pool_reach_stretch:
  assumes "list_ready gis (pre @ ps)" "(\<lambda>p. info p q) = gis" "selection_ok gis pre (bq_pools q t)" "unat (sp_count (bq_pools q t)) \<le> unat mx"
    "pool_reach t mn mx ps q = (rest, q')"
  shows "\<exists>pre'. pre @ ps = pre' @ rest \<and> stretch gis pre' (unat mx) t q q'"
  using assms
proof (induction ps arbitrary: pre q)
  case Nil
  then show ?case by (auto simp: stretch_def)
next
  case (Cons p ps)
  show ?case
  proof (cases "not_invited q p")
    case True
    obtain ok q1 where a: "pool_add t p mx q = (ok, q1)" by fastforce
    note step = queue_pool_add [OF Cons.prems(1,3) [folded Cons.prems(2)] a, unfolded Cons.prems(2)]
    have lim: "unat (sp_count (bq_pools q1 t)) \<le> unat mx" using step(2) Cons.prems(4) by simp
    have s1: "stretch gis (pre @ [p]) (unat mx) t q q1" using step lim by (simp add: stretch_def)
    show ?thesis
    proof (cases "sp_count (bq_pools q1 t) \<ge> mn")
      case reached: True
      then have "rest = ps" "q' = q1" using Cons.prems(5) True a by (simp_all add: Let_def)
      then show ?thesis using s1 by (intro exI [of _ "pre @ [p]"]) simp
    next
      case False
      have "pool_reach t mn mx ps q1 = (rest, q')" using Cons.prems(5) True a False by (simp add: Let_def)
      from Cons.IH [OF _ step(3,1) lim this] Cons.prems(1) obtain pre' where "pre @ p # ps = pre' @ rest" "stretch gis pre' (unat mx) t q1 q'"
        by auto
      then show ?thesis using s1 by (intro exI [of _ pre']) (simp add: stretch_def)
    qed
  next
    case False
    have "pool_reach t mn mx ps q = (rest, q')" using Cons.prems(5) False by simp
    from Cons.IH [OF _ Cons.prems(2) selection_weaken [OF Cons.prems(3), of "[p]"] Cons.prems(4) this] Cons.prems(1) show ?thesis by simp
  qed
qed

lemma sint_diff:
  fixes a b :: uint32
  assumes "unat a < 2 ^ 31" "unat b < 2 ^ 31"
  shows "sint (a - b) = int (unat a) - int (unat b)"
proof -
  have "int (unat a) < 2 ^ 31" "int (unat b) < 2 ^ 31" using assms by (simp_all only: of_nat_less_numeral_power_cancel_iff)
  then have "signed_take_bit 31 (int (unat a) - int (unat b)) = int (unat a) - int (unat b)"
    by (intro signed_take_bit_int_eq_self) linarith+
  then show ?thesis using sint_small [OF assms(1)] sint_small [OF assms(2)] by (simp add: sint_word_ariths(2) del: of_nat_unat)
qed

text \<open>What a check leaves in the pools when it says there is a match.\<close>

definition fair :: "bg_world \<Rightarrow> bool \<Rightarrow> uint32 \<Rightarrow> bg_queue \<Rightarrow> bool" where
  "fair w arena mn q \<longleftrightarrow>
     (let a = unat (sp_count (bq_pools q 0)); h = unat (sp_count (bq_pools q 1))
      in (bw_testing w \<and> \<not> arena \<and> 0 < a + h \<or> unat mn \<le> a \<and> unat mn \<le> h) \<and>
         (bw_invitation w \<noteq> NO_BALANCE \<and> unat mn \<le> a \<and> unat mn \<le> h \<longrightarrow> a \<le> h + 2 \<and> h \<le> a + 2))"

lemma selected_stretch:
  assumes "stretch gis pre limit t q q'" "ps = pre @ rest"
  shows "selected_for gis ps limit (bq_pools q' t)"
  using assms by (auto simp: stretch_def selected_for_def selection_ok_def)

lemma selected_part:
  assumes "selection_ok gis pre sp" "unat (sp_count sp) \<le> limit" "ps = pre @ rest"
  shows "selected_for gis ps limit sp"
  using assms by (auto simp: selected_for_def selection_ok_def)

lemma enough_nat:
  "enough w arena mn q \<longleftrightarrow> (let a = unat (sp_count (bq_pools q 0)); h = unat (sp_count (bq_pools q 1))
     in bw_testing w \<and> \<not> arena \<and> 0 < a + h \<or> unat mn \<le> a \<and> unat mn \<le> h)"
  by (auto simp: enough_def Let_def word_le_nat_alt unat_gt_0)

lemma normal_match_result:
  assumes ready: "list_ready (\<lambda>p. info p q) (bq_lists q b BG_NORMAL)" "list_ready (\<lambda>p. info p q) (bq_lists q b (BG_NORMAL + 1))"
    and pools: "bq_pools q 0 = pool_init" "bq_pools q 1 = pool_init"
    and check: "CheckNormalMatch w arena b mn mx q = (ok, q')"
  shows "selected_for (\<lambda>p. info p q) (bq_lists q b BG_NORMAL) (unat mx) (bq_pools q' 0)"
    "selected_for (\<lambda>p. info p q) (bq_lists q b (BG_NORMAL + 1)) (unat mx) (bq_pools q' 1)" "ok \<Longrightarrow> fair w arena mn q'"
proof -
  define gis where "gis = (\<lambda>p. info p q)"
  let ?A = "bq_lists q b BG_NORMAL" and ?H = "bq_lists q b (BG_NORMAL + 1)"
  note readyA = ready(1) [folded gis_def] and readyH = ready(2) [folded gis_def]
  have init: "selection_ok gis [] pool_init" "unat (sp_count pool_init) \<le> n" for n by (simp_all add: selection_ok_def pool_init_def)
  obtain rest0 q1 where r0: "pool_reach 0 mn mx ?A q = (rest0, q1)" by fastforce
  have "selection_ok gis [] (bq_pools q 0)" "unat (sp_count (bq_pools q 0)) \<le> unat mx" unfolding pools by (rule init)+
  from pool_reach_stretch [of gis "[]" ?A q 0 mx mn, OF _ gis_def [symmetric] this r0] readyA obtain preA
    where A: "?A = preA @ rest0" "stretch gis preA (unat mx) 0 q q1" by auto
  obtain rest1 q2 where r1: "pool_reach 1 mn mx (bq_lists q1 b (BG_NORMAL + 1)) q1 = (rest1, q2)" by fastforce
  have l1: "bq_lists q1 = bq_lists q" "(\<lambda>p. info p q1) = gis" "bq_pools q1 1 = pool_init" using A(2) pools(2) by (simp_all add: stretch_def)
  have "selection_ok gis [] (bq_pools q1 1)" "unat (sp_count (bq_pools q1 1)) \<le> unat mx" unfolding l1(3) by (rule init)+
  from pool_reach_stretch [of gis "[]" ?H q1 1 mx mn, OF _ l1(2) this] r1 readyH l1(1) obtain preH
    where H: "?H = preH @ rest1" "stretch gis preH (unat mx) 1 q1 q2" by auto
  have A2: "selection_ok gis preA (bq_pools q2 0)" "unat (sp_count (bq_pools q2 0)) \<le> unat mx" using A(2) H(2) by (simp_all add: stretch_def)
  have H2: "selection_ok gis preH (bq_pools q2 1)" "unat (sp_count (bq_pools q2 1)) \<le> unat mx" using H(2) by (simp_all add: stretch_def)
  have gis2: "(\<lambda>p. info p q2) = gis" using H(2) by (simp add: stretch_def)
  note selA = selected_part [OF A2 A(1)] and selH = selected_part [OF H2 H(1)]
  define j where "j = (if sp_count (bq_pools q2 1) < sp_count (bq_pools q2 0) then 1 else 0 :: nat)"
  define q3 where "q3 = pool_fill j (sp_count (bq_pools q2 (1 - j))) (if j = 0 then rest0 else rest1) q2"
  have sel3: "selected_for gis ?A (unat mx) (bq_pools q3 0) \<and> selected_for gis ?H (unat mx) (bq_pools q3 1)"
  proof (cases "j = 0")
    case True
    have "stretch gis (preA @ rest0) (unat mx) 0 q2 (pool_fill 0 (sp_count (bq_pools q2 1)) rest0 q2)"
      using A2 H2 readyA A(1) by (intro pool_fill_stretch [OF _ gis2]) simp_all
    then have s: "stretch gis (preA @ rest0) (unat mx) 0 q2 q3" using True by (simp add: q3_def)
    moreover have "bq_pools q3 1 = bq_pools q2 1" using s by (simp add: stretch_def)
    ultimately show ?thesis using selected_stretch [OF s, of ?A "[]"] selH A(1) by simp
  next
    case False
    then have j: "j = 1" by (simp add: j_def split: if_splits)
    have "stretch gis (preH @ rest1) (unat mx) 1 q2 (pool_fill 1 (sp_count (bq_pools q2 0)) rest1 q2)"
      using A2 H2 readyH H(1) by (intro pool_fill_stretch [OF _ gis2]) simp_all
    then have s: "stretch gis (preH @ rest1) (unat mx) 1 q2 q3" using j by (simp add: q3_def)
    moreover have "bq_pools q3 0 = bq_pools q2 0" using s by (simp add: stretch_def)
    ultimately show ?thesis using selected_stretch [OF s, of ?H "[]"] selA H(1) by simp
  qed
  have sel2: "selected_for gis ?A (unat mx) (bq_pools q2 0) \<and> selected_for gis ?H (unat mx) (bq_pools q2 1)"
    using selA selH by simp
  define big where "big = (bw_invitation w \<noteq> NO_BALANCE \<and> sp_count (bq_pools q2 1) \<ge> mn \<and> sp_count (bq_pools q2 0) \<ge> mn)"
  have e: "(ok, q') = (if big then if \<bar>sint (sp_count (bq_pools q3 1) - sp_count (bq_pools q3 0) :: int32)\<bar> > 2 then (False, q3)
                 else (enough w arena mn q3, q3)
         else (enough w arena mn q2, q2))"
    using check unfolding CheckNormalMatch_def r0 r1 prod.case Let_def j_def [symmetric] q3_def [symmetric] big_def by simp
  then have "q' = q3 \<or> q' = q2" by (auto split: if_splits)
  then show "selected_for (\<lambda>p. info p q) ?A (unat mx) (bq_pools q' 0)" "selected_for (\<lambda>p. info p q) ?H (unat mx) (bq_pools q' 1)"
    using sel2 sel3 unfolding gis_def by blast+
  show "fair w arena mn q'" if ok
  proof (cases big)
    case True
    have small: "unat (sp_count (bq_pools q3 0)) < 2 ^ 31" "unat (sp_count (bq_pools q3 1)) < 2 ^ 31"
      using count_le [OF readyA] count_le [OF readyH] sel3 readyA readyH by (auto simp: selected_for_def list_ready_def intro: order.strict_trans1)
    have q': "q' = q3" "enough w arena mn q3" "\<bar>sint (sp_count (bq_pools q3 1) - sp_count (bq_pools q3 0))\<bar> \<le> 2"
      using e True that by (auto split: if_splits)
    have "\<bar>int (unat (sp_count (bq_pools q3 1))) - int (unat (sp_count (bq_pools q3 0)))\<bar> \<le> 2" using q'(3) sint_diff [OF small(2,1)] by simp
    then have "unat (sp_count (bq_pools q3 0)) \<le> unat (sp_count (bq_pools q3 1)) + 2 \<and> unat (sp_count (bq_pools q3 1)) \<le> unat (sp_count (bq_pools q3 0)) + 2"
      by linarith
    then show ?thesis using q'(2) unfolding q'(1) fair_def enough_nat Let_def by blast
  next
    case False
    have q': "q' = q2" "enough w arena mn q2" using e False that by simp_all
    have "\<not> (bw_invitation w \<noteq> NO_BALANCE \<and> unat mn \<le> unat (sp_count (bq_pools q2 0)) \<and> unat mn \<le> unat (sp_count (bq_pools q2 1)))"
      using False by (auto simp: big_def word_le_nat_alt)
    then show ?thesis using q'(2) unfolding q'(1) fair_def enough_nat Let_def by blast
  qed
qed

section \<open>Average waiting times\<close>

text \<open>A ring of values, turned to its oldest one, with the oldest replaced.\<close>

lemma rotate_replace:
  assumes "k < length ring"
  shows "rotate ((k + 1) mod length ring) (ring[k := x]) = tl (rotate k ring) @ [x]"
proof -
  have split: "ring = take k ring @ ring ! k # drop (Suc k) ring" using assms by (rule id_take_nth_drop)
  have old: "tl (rotate k ring) = drop (Suc k) ring @ take k ring" using assms by (simp add: rotate_drop_take tl_drop drop_Suc)
  have new: "ring[k := x] = take k ring @ x # drop (Suc k) ring" using assms by (rule upd_conv_take_nth_drop)
  show ?thesis
  proof (cases "k + 1 = length ring")
    case True
    then show ?thesis using old new by simp
  next
    case False
    then have "rotate ((k + 1) mod length ring) (ring[k := x]) = drop (Suc k) (ring[k := x]) @ take (Suc k) (ring[k := x])"
      using assms by (simp add: rotate_drop_take)
    then show ?thesis using old assms by (simp add: new)
  qed
qed

definition waited :: "bg_world \<times> bg_info \<Rightarrow> uint32" where
  "waited x = getMSTimeDiff (gi_joinTime (snd x)) (bw_time (fst x))"

definition invite_waits :: "nat \<Rightarrow> (bg_world \<times> bg_info) list \<Rightarrow> bg_queue" where
  "invite_waits b xs = fold (\<lambda>(w, gi). PlayerInvitedToBGUpdateAverageWaitTime w gi b) xs bg_queue_init"

lemma sum_list_update_word: "k < length xs \<Longrightarrow> sum_list (xs[k := x]) = sum_list xs - xs ! k + x" for x :: uint32
  by (induction xs arbitrary: k) (auto split: nat.split)

lemma sum_list_rotate: "sum_list (rotate k xs) = sum_list xs" for xs :: "uint32 list"
  by (metis rotate_drop_take sum_list_append add.commute append_take_drop_id)

lemma drop_next: "n < length ys \<Longrightarrow> drop (Suc n) (ys @ [y]) = tl (drop n ys) @ [y]"
  by (simp add: tl_drop drop_Suc)

lemma invite_waits_ring:
  assumes "list_all (\<lambda>x. wait_team (snd x) = t) xs"
  shows "unat (bq_last (invite_waits b xs) t b) = length xs mod 10 \<and> length (bq_waits (invite_waits b xs) t b) = 10 \<and>
    rotate (length xs mod 10) (bq_waits (invite_waits b xs) t b) = drop (length xs) (replicate 10 0 @ map waited xs) \<and>
    bq_sum (invite_waits b xs) t b = sum_list (bq_waits (invite_waits b xs) t b)"
  using assms
proof (induction xs rule: rev_induct)
  case Nil
  then show ?case by (simp add: invite_waits_def bg_queue_init_def sum_list_replicate)
next
  case (snoc x xs)
  define q where "q = invite_waits b xs"
  obtain w gi where x: "x = (w, gi)" by fastforce
  have IH: "unat (bq_last q t b) = length xs mod 10" "length (bq_waits q t b) = 10"
    "rotate (length xs mod 10) (bq_waits q t b) = drop (length xs) (replicate 10 0 @ map waited xs)" "bq_sum q t b = sum_list (bq_waits q t b)"
    using snoc by (simp_all add: q_def)
  have team: "wait_team gi = t" using snoc.prems by (simp add: x)
  have q': "invite_waits b (xs @ [x]) = PlayerInvitedToBGUpdateAverageWaitTime w gi b q" by (simp add: invite_waits_def q_def x)
  have wx: "waited x = getMSTimeDiff (gi_joinTime gi) (bw_time w)" by (simp add: waited_def x)
  have waits: "bq_waits (invite_waits b (xs @ [x])) t b = (bq_waits q t b)[length xs mod 10 := waited x]"
    using IH(1) team by (simp add: q' PlayerInvitedToBGUpdateAverageWaitTime_def Let_def wx)
  have "unat ((bq_last q t b + 1) mod 10) = (length xs + 1) mod 10"
  proof -
    have "unat (bq_last q t b + 1) = length xs mod 10 + 1" using IH(1) by (subst unat_add_lem [THEN iffD1]) simp_all
    then show ?thesis by (simp add: unat_mod mod_Suc_eq)
  qed
  then have "unat (bq_last (invite_waits b (xs @ [x])) t b) = length (xs @ [x]) mod 10"
    using team by (simp add: q' PlayerInvitedToBGUpdateAverageWaitTime_def Let_def)
  moreover have "length (bq_waits (invite_waits b (xs @ [x])) t b) = 10" using waits IH(2) by simp
  moreover have "rotate (length (xs @ [x]) mod 10) (bq_waits (invite_waits b (xs @ [x])) t b) =
    drop (length (xs @ [x])) (replicate 10 0 @ map waited (xs @ [x]))"
  proof -
    have "rotate ((length xs mod 10 + 1) mod 10) ((bq_waits q t b)[length xs mod 10 := waited x]) = tl (rotate (length xs mod 10) (bq_waits q t b)) @ [waited x]"
      using rotate_replace [of "length xs mod 10" "bq_waits q t b" "waited x"] by (simp add: IH(2))
    moreover have "drop (Suc (length xs)) ((replicate 10 0 @ map waited xs) @ [waited x]) = tl (drop (length xs) (replicate 10 0 @ map waited xs)) @ [waited x]"
      by (rule drop_next) simp
    ultimately show ?thesis unfolding waits IH(3) by (simp only: mod_Suc_eq length_append list.size Suc_eq_plus1 map_append list.map append_assoc add_0
        mod_add_left_eq)
  qed
  moreover have "bq_sum (invite_waits b (xs @ [x])) t b = sum_list (bq_waits (invite_waits b (xs @ [x])) t b)"
    unfolding waits using IH(1,2,4) team
    by (simp add: sum_list_update_word q' PlayerInvitedToBGUpdateAverageWaitTime_def Let_def wx)
  ultimately show ?case by blast
qed

lemma last_slot:
  fixes ws :: "uint32 list"
  assumes "rotate (n mod 10) ring = drop n (replicate 10 0 @ ws)" "length ring = 10" "n = length ws"
  shows "ring ! 9 = (if n < 10 then 0 else ws ! (10 * (n div 10) - 1))"
proof -
  have "rotate (n mod 10) ring ! (9 - n mod 10) = ring ! 9" using assms(2) by (simp add: nth_rotate)
  then have "ring ! 9 = drop n (replicate 10 0 @ ws) ! (9 - n mod 10)" by (simp only: assms(1))
  then have "ring ! 9 = (replicate 10 0 @ ws) ! (n + (9 - n mod 10))" using assms(3) by (simp only: nth_drop length_append length_replicate le_add2)
  moreover have "n + (9 - n mod 10) = (if n < 10 then 9 else 10 * (n div 10) + 9)" by auto presburger
  ultimately show ?thesis by (auto simp: nth_append)
qed

lemma average_last_ten:
  assumes "list_all (\<lambda>x. wait_team (snd x) = wait_team gi) xs"
  shows "GetAverageQueueWaitTime gi b (invite_waits b xs) =
    (if length xs < 10 \<or> waited (xs ! (10 * (length xs div 10) - 1)) = 0 then 0
     else sum_list (drop (length xs - 10) (map waited xs)) div 10)"
proof -
  define q where "q = invite_waits b xs"
  note R = invite_waits_ring [OF assms, of b, folded q_def]
  let ?ring = "bq_waits q (wait_team gi) b"
  have ring: "rotate (length xs mod 10) ?ring = drop (length xs) (replicate 10 0 @ map waited xs)" "length ?ring = 10" using R by blast+
  have slot: "?ring ! 9 = (if length xs < 10 then 0 else map waited xs ! (10 * (length xs div 10) - 1))"
    by (rule last_slot [OF ring]) simp
  have "10 * (length xs div 10) - 1 < length xs" if "\<not> length xs < 10" using that by presburger
  then have slot': "?ring ! 9 = (if length xs < 10 then 0 else waited (xs ! (10 * (length xs div 10) - 1)))" using slot by simp
  have sum: "bq_sum q (wait_team gi) b = sum_list (drop (length xs) (replicate 10 0 @ map waited xs))"
    using R sum_list_rotate [of "length xs mod 10" ?ring] by simp
  have "drop (length xs) (replicate 10 0 @ map waited xs) = drop (length xs - 10) (map waited xs)" if "\<not> length xs < 10"
    using that by simp
  then show ?thesis using sum slot' by (simp add: GetAverageQueueWaitTime_def flip: q_def)
qed

section \<open>The scheduler\<close>

lemma scheduler_runs:
  "length ids < 256 \<Longrightarrow> unat i \<le> length ids \<Longrightarrow> scheduler_loop f ids i s = Some (fold f (drop (unat i) ids) s)"
proof (induction "length ids - unat i" arbitrary: i s)
  case 0
  then show ?case by (subst scheduler_loop.simps) simp
next
  case (Suc n)
  then have lt: "unat i < length ids" by simp
  then have u: "unat (i + 1) = unat i + 1" using Suc.prems(1) by (subst unat_add_lem [THEN iffD1]) simp_all
  have "scheduler_loop f ids (i + 1) (f (ids ! unat i) s) = Some (fold f (drop (unat (i + 1)) ids) (f (ids ! unat i) s))"
    using Suc lt u by (intro Suc.hyps(1)) simp_all
  moreover have "drop (unat i) ids = ids ! unat i # drop (unat i + 1) ids" using lt Cons_nth_drop_Suc [of "unat i" ids] by simp
  ultimately show ?case using lt by (subst scheduler_loop.simps) (simp add: u)
qed

lemma scheduler_ends: "scheduler_loop f ids i s = Some s' \<Longrightarrow> length ids < 256"
proof (erule scheduler_loop.raw_induct [where P = "\<lambda>f ids i s s'. length ids < 256", rotated])
  fix loop :: "(uint64 \<Rightarrow> 's \<Rightarrow> 's) \<Rightarrow> uint64 list \<Rightarrow> uint8 \<Rightarrow> 's \<Rightarrow> 's option" and f ids i s s'
  assume loop: "\<And>f ids i s s'. loop f ids i s = Some s' \<Longrightarrow> length ids < 256"
    and ends: "(if unat i < length ids then loop f ids (i + 1) (f (ids ! unat i) s) else Some s) = Some s'"
  show "length ids < 256"
  proof (cases "unat i < length ids")
    case False
    moreover have "unat i < 2 ^ LENGTH(8)" by (rule unsigned_less)
    ultimately show ?thesis by simp
  next
    case True
    then show ?thesis using ends by (intro loop) simp
  qed
qed

lemma small_bits: "x < 256 \<Longrightarrow> bit x n \<Longrightarrow> n < 8" for x :: uint32
proof -
  assume "x < 256"
  then have "take_bit 8 x = x" by (simp add: take_bit_eq_mod mod_word_less)
  moreover assume "bit x n"
  ultimately show "n < 8" using bit_take_bit_iff [of 8 x n] by simp
qed

lemma and_255: "x AND 255 = take_bit 8 x" for x :: uint64
  by (simp add: take_bit_eq_mask mask_eq_exp_minus_1)

lemma schedule_parts:
  assumes "qt < 256" "t < 256" "b < 256"
  shows "ucast (drop_bit 32 (schedule_id rating arenaType qt t b)) = rating"
    "ucast (drop_bit 24 (schedule_id rating arenaType qt t b) AND 255) = arenaType"
    "ucast (drop_bit 16 (schedule_id rating arenaType qt t b) AND 255) = qt"
    "ucast (drop_bit 8 (schedule_id rating arenaType qt t b) AND 255) = t" "ucast (schedule_id rating arenaType qt t b AND 255) = b"
proof -
  have s: "bit qt n \<Longrightarrow> n < 8" "bit t n \<Longrightarrow> n < 8" "bit b n \<Longrightarrow> n < 8" for n using assms small_bits by blast+
  have at: "bit arenaType n \<Longrightarrow> n < 8" for n using bit_imp_le_length [of arenaType n] by simp
  have r: "bit (push_bit 32 (ucast rating) :: uint64) n \<longleftrightarrow> n < 64 \<and> 32 \<le> n \<and> bit rating (n - 32)" for n
    by (auto simp: bit_simps)
  have a: "bit (ucast (push_bit 24 (ucast arenaType :: uint32)) :: uint64) n \<longleftrightarrow> n < 64 \<and> 24 \<le> n \<and> n < 32 \<and> bit arenaType (n - 24)" for n
    by (auto simp: bit_simps)
  have q: "bit (ucast (push_bit 16 qt) :: uint64) n \<longleftrightarrow> n < 64 \<and> 16 \<le> n \<and> n < 24 \<and> bit qt (n - 16)" for n
    using s(1) [of "n - 16"] by (auto simp: bit_simps)
  have y: "bit (ucast (push_bit 8 t) :: uint64) n \<longleftrightarrow> n < 64 \<and> 8 \<le> n \<and> n < 16 \<and> bit t (n - 8)" for n
    using s(2) [of "n - 8"] by (auto simp: bit_simps)
  have c: "bit (ucast b :: uint64) n \<longleftrightarrow> n < 64 \<and> n < 8 \<and> bit b n" for n using s(3) [of n] by (auto simp: bit_simps)
  note bits = schedule_id_def bit_or_iff r a q y c
  show "ucast (drop_bit 32 (schedule_id rating arenaType qt t b)) = rating"
    by (rule bit_word_eqI) (auto simp: bit_simps bits dest: s(3))
  show "ucast (drop_bit 24 (schedule_id rating arenaType qt t b) AND 255) = arenaType"
    unfolding and_255 by (rule bit_word_eqI) (auto simp: bit_simps bits dest: s)
  show "ucast (drop_bit 16 (schedule_id rating arenaType qt t b) AND 255) = qt"
    unfolding and_255 by (rule bit_word_eqI) (auto simp: bit_simps bits dest: s)
  show "ucast (drop_bit 8 (schedule_id rating arenaType qt t b) AND 255) = t"
    unfolding and_255 by (rule bit_word_eqI) (auto simp: bit_simps bits dest: s)
  show "ucast (schedule_id rating arenaType qt t b AND 255) = b"
    unfolding and_255 by (rule bit_word_eqI) (auto simp: bit_simps bits dest: s)
qed

section \<open>The update drops nobody\<close>

lemma players_frames [simp]: "bq_players (on_pool t sp q) = bq_players q" "bq_players (AddEvent d ev q) = bq_players q"
  "bq_players (PlayerInvitedToBGUpdateAverageWaitTime w gi b q) = bq_players q"
  by (simp_all add: on_pool_def AddEvent_def PlayerInvitedToBGUpdateAverageWaitTime_def Let_def)

lemma players_invite: "bq_players (InviteGroupToBG w p i side q) = bq_players q"
proof -
  have "bq_players (invite_player w p i g q) = bq_players q" for g q by (simp add: invite_player_def Let_def split: option.split)
  from fold_frame [where f = bq_players and g = "invite_player w p i", OF this] show ?thesis by (simp add: InviteGroupToBG_def Let_def split: option.split)
qed

lemma players_invite_pools: "bq_players (invite_pools w i q) = bq_players q"
  by (simp add: invite_pools_def invite_pool_def fold_frame [where f = bq_players, OF players_invite])

lemma players_free: "bq_players (AddToBGFreeSlotQueue i q) = bq_players q" "bq_players (RemoveFromBGFreeSlotQueue i q) = bq_players q"
  "bq_players (StartBattleground i q) = bq_players q"
  by (simp_all add: AddToBGFreeSlotQueue_def RemoveFromBGFreeSlotQueue_def StartBattleground_def split: option.split)

lemma players_fill: "fill_all w t b is q = Some q' \<Longrightarrow> bq_players q' = bq_players q"
proof (induction "is" arbitrary: q)
  case (Cons i is')
  have F: "FillPlayersToBG w bt b q = Some q' \<Longrightarrow> bq_players q' = bq_players q" for bt b q q' by (auto simp: FillPlayersToBG_def Let_def split: prod.splits)
  obtain q1 where q1: "fill_one w t b i q = Some q1" "fill_all w t b is' q1 = Some q'" using Cons.prems by (auto split: option.splits)
  have "bq_players q1 = bq_players q"
    using q1(1) by (auto simp: fill_one_def Let_def players_invite_pools players_free init_pools_known split: option.splits if_splits dest!: F)
  then show ?case using Cons.IH [OF q1(2)] by simp
qed simp

lemma players_add: "bq_players (snd (pool_add t p d q)) = bq_players q"
  by (simp add: pool_add_def split: prod.split)

lemma players_pool_fill: "bq_players (pool_fill t d ps q) = bq_players q"
  using coreD(1) [of "pool_fill t d ps q" q] pool_fill_selects [of ps q t d] by (simp add: selects_def)

lemma players_create: "bq_players (snd (CreateNewBattleground w t b at r q)) = bq_players q"
  by (rule coreD(1) [OF core_create])

lemma players_start: "start_new w t b at q = Some q' \<Longrightarrow> bq_players q' = bq_players q"
  using players_create [of w t b at False q] by (auto simp: start_new_def players_free players_invite_pools split: prod.splits option.splits)

lemma players_premade: "bq_players (snd (CheckPremadeMatch w b mn mx q)) = bq_players q"
proof -
  have "bq_players (move_to_normal w b mn t q) = bq_players q" for t q by (simp add: move_to_normal_def split: list.split)
  then show ?thesis by (simp add: CheckPremadeMatch_def Let_def players_pool_fill players_add split: option.split)
qed

lemma players_reach: "bq_players (snd (pool_reach t mn mx ps q)) = bq_players q"
  using coreD(1) [of "snd (pool_reach t mn mx ps q)" q] pool_reach_selects [of ps q t mn mx] by (simp add: selects_def)

lemma players_normal: "bq_players (snd (CheckNormalMatch w arena b mn mx q)) = bq_players q"
proof -
  obtain r0 q1 where r0: "pool_reach 0 mn mx (bq_lists q b BG_NORMAL) q = (r0, q1)" by fastforce
  obtain r1 q2 where r1: "pool_reach 1 mn mx (bq_lists q1 b (BG_NORMAL + 1)) q1 = (r1, q2)" by fastforce
  have "bq_players q2 = bq_players q" using players_reach r0 r1 by (metis snd_conv)
  then show ?thesis unfolding CheckNormalMatch_def r0 r1 prod.case Let_def by (simp add: players_pool_fill)
qed

lemma players_skirmish: "bq_players (snd (CheckSkirmishForSameFaction b mn q)) = bq_players q"
proof -
  have c: "bq_players (change_team b i j other marker p q) = bq_players q" for i j other marker p q by (simp add: change_team_def)
  show ?thesis unfolding CheckSkirmishForSameFaction_def Let_def
    by (simp add: players_pool_fill fold_frame [where f = bq_players, OF c])
qed

lemma players_rated: "bq_players (rated_match w t b at r q) = bq_players q"
proof -
  have "bq_players (start_rated w b i pa ph q) = bq_players q" for i pa ph q
    unfolding start_rated_def Let_def by (simp add: players_free players_invite)
  then show ?thesis using players_create [of w t b at True q] by (auto simp: rated_match_def split: option.split prod.split)
qed

lemma update_players:
  assumes "BattlegroundQueueUpdate w t b at rated rating q = Some q'"
  shows "bq_players q' = bq_players q"
proof (cases "bq_lists q b 0 = [] \<and> bq_lists q b 1 = [] \<and> bq_lists q b 2 = [] \<and> bq_lists q b 3 = []")
  case True
  then show ?thesis using assms by (simp add: BattlegroundQueueUpdate_def)
next
  case waiting: False
  then obtain q1 where q1: "fill_all w t b (bq_free q) q = Some q1"
    using assms unfolding BattlegroundQueueUpdate_def if_not_P [OF waiting] by auto
  note p1 = players_fill [OF q1]
  have premade: "bq_players (snd (premade_match w t b mn mx q)) = bq_players q" for mn mx q
  proof -
    obtain f q3 where "CheckPremadeMatch w b mn mx q = (f, q3)" by fastforce
    then show ?thesis using players_premade [of w b mn mx q]
      by (cases f) (auto simp: premade_match_def init_pools_known dest: players_start split: option.split)
  qed
  have normal: "bq_players (normal_match w t b arena at mn mx q) = bq_players q" for arena mn mx q
  proof -
    obtain f q3 where c: "CheckNormalMatch w arena b mn mx q = (f, q3)" by fastforce
    obtain f2 q4 where d: "(if f then (True, q3) else if arena then CheckSkirmishForSameFaction b mn q3 else (False, q3)) = (f2, q4)" by fastforce
    have "bq_players q3 = bq_players q" using players_normal [of w arena b mn mx q] c by simp
    moreover have "bq_players q4 = bq_players q3" using players_skirmish [of b mn q3] d by (auto split: if_splits)
    moreover have "normal_match w t b arena at mn mx q = (if f2 then (case start_new w t b at q4 of None \<Rightarrow> q4 | Some q5 \<Rightarrow> q5) else q4)"
      unfolding normal_match_def c Let_def prod.case d ..
    ultimately show ?thesis by (auto dest: players_start split: option.split)
  qed
  show ?thesis
  proof (cases "bw_template w t")
    case None
    then show ?thesis using assms p1 unfolding BattlegroundQueueUpdate_def if_not_P [OF waiting] q1 by simp
  next
    case (Some tp)
    define minP where "minP = (if tp_arena tp then (if bw_arenaTesting w then 1 else ucast at)
                              else if bw_testing w then 1 else tp_min tp)"
    define maxP where "maxP = (if tp_arena tp then ucast at else tp_max tp)"
    obtain go q3 where m: "(if tp_arena tp then (True, init_pools q1) else premade_match w t b minP maxP (init_pools q1)) = (go, q3)" by fastforce
    have "bq_players q3 = bq_players q"
      using m premade [of minP maxP "init_pools q1"] p1 by (auto simp: init_pools_known split: if_splits)
    moreover have "BattlegroundQueueUpdate w t b at rated rating q = Some (if \<not> bw_bracketKnown w t b then q1 else if \<not> go then q3
        else if \<not> rated then normal_match w t b (tp_arena tp) at minP maxP q3
        else if tp_arena tp then rated_match w t b at rating q3 else q3)"
      unfolding BattlegroundQueueUpdate_def if_not_P [OF waiting] q1 option.map Some option.case Let_def
        minP_def [symmetric] maxP_def [symmetric] m prod.case ..
    ultimately show ?thesis using assms p1 normal players_rated by (auto split: if_splits)
  qed
qed

section \<open>Premade matches\<close>

text \<open>A pool that has what is desired takes nobody.\<close>

lemma pool_fill_full:
  assumes "desired \<le> sp_count (bq_pools q t)" "list_all (\<lambda>p. 0 < gsize p q) ps"
  shows "pool_fill t desired ps q = q"
  using assms(2)
proof (induction ps)
  case (Cons p ps)
  have "length (gi_players (info p q)) \<noteq> 0" using Cons.prems by (simp add: gsize_def)
  then have "\<not> unat (sp_count (bq_pools q t)) + length (gi_players (info p q)) \<le> unat desired"
    using assms(1) unfolding word_le_nat_alt by linarith
  then have "PoolAddGroup (info p q) p desired (bq_pools q t) = (False, bq_pools q t)" using assms(1) by (simp add: PoolAddGroup_def)
  then have "pool_add t p desired q = (False, q)" by (simp add: pool_add_def on_pool_def)
  then show ?case using Cons by simp
qed simp

lemma premade_result:
  assumes sizes: "list_all (\<lambda>p. 0 < gsize p q) (bq_lists q b BG_NORMAL)" "list_all (\<lambda>p. 0 < gsize p q) (bq_lists q b (BG_NORMAL + 1))"
    and pools: "bq_pools q 0 = pool_init" "bq_pools q 1 = pool_init" and check: "CheckPremadeMatch w b mn mx q = (True, q')"
  shows "\<exists>pa ph. pa \<in> set (bq_lists q b BG_PREMADE) \<and> ph \<in> set (bq_lists q b (BG_PREMADE + 1)) \<and>
    sp_groups (bq_pools q' 0) \<in> {[], [pa]} \<and> sp_groups (bq_pools q' 1) \<in> {[], [ph]}"
proof -
  obtain pa ph where f: "find (not_invited q) (bq_lists q b BG_PREMADE) = Some pa" "find (not_invited q) (bq_lists q b (BG_PREMADE + 1)) = Some ph"
    using check by (auto simp: CheckPremadeMatch_def split: option.splits)
  define q1 where "q1 = snd (pool_add 1 ph mx (snd (pool_add 0 pa mx q)))"
  define most where "most = min (sp_count (bq_pools q1 0)) (sp_count (bq_pools q1 1))"
  have s1: "selects {pa, ph} q q1" unfolding q1_def
    by (intro selects_trans [OF selects_mono [OF pool_add_selects] selects_mono [OF pool_add_selects]]) simp_all
  have i: "gsize p q1 = gsize p q" for p using s1 by (simp add: selects_def gsize_def info_def)
  have a: "pool_fill 0 most (bq_lists q1 b BG_NORMAL) q1 = q1" using sizes(1) selects_lists [OF s1] by (intro pool_fill_full) (simp_all add: most_def i)
  have h: "pool_fill 1 most (bq_lists q1 b (BG_NORMAL + 1)) q1 = q1" using sizes(2) selects_lists [OF s1] by (intro pool_fill_full) (simp_all add: most_def i)
  have "CheckPremadeMatch w b mn mx q = (True, q1)"
    by (simp only: CheckPremadeMatch_def f prod.case option.case Let_def q1_def [symmetric] most_def [symmetric] a h)
  then have q': "q' = q1" using check by simp
  have "sp_groups (bq_pools q1 0) \<in> {[], [pa]}" "sp_groups (bq_pools q1 1) \<in> {[], [ph]}"
    using pools by (simp_all add: q1_def pool_add_def PoolAddGroup_def on_pool_def pool_init_def)
  then show ?thesis using find_mem [OF f(1)] find_mem [OF f(2)] unfolding q' by blast
qed

section \<open>Claims\<close>

text \<open>C4: Whatever happens to a queue of battlegrounds - players and groups join and leave, invitations
  run out, updates make matches of all kinds and invite groups, battlegrounds come, change and go - every player in it is in exactly one
  group, every group is in exactly one list, which is one of its team, no group is empty, and the groups and the players name each
  other.\<close>

theorem queue_well_formed:
  assumes "bg_reachable q"
  shows "bq_ok q"
  using assms by (rule bg_reachable_ok)

definition joined_alone :: bg_queue where
  "joined_alone = snd (QueueAddGroup sample_bg_world 7 TEAM_OF_HORDE None 2 3 0 False False 0 0 0 bg_queue_init)"

definition joined_pair :: bg_queue where
  "joined_pair = snd (QueueAddGroup sample_bg_world 8 TEAM_OF_ALLIANCE (Some [8, 9]) 6 3 2 True False 1500 1500 4 joined_alone)"

lemma joined_reachable: "bg_reachable joined_alone" "bg_reachable joined_pair"
proof -
  have "may_join 7 TEAM_OF_HORDE None 3 bg_queue_init" by (simp add: may_join_def joining_def bg_queue_init_def)
  then show alone: "bg_reachable joined_alone" unfolding joined_alone_def by (intro bg_next [OF bg_start] joins)
  have "may_join 8 TEAM_OF_ALLIANCE (Some [8, 9]) 3 joined_alone" by code_simp
  then show "bg_reachable joined_pair" unfolding joined_pair_def by (intro bg_next [OF alone] joins)
qed

theorem queue_well_formed_witness: "bq_ok joined_pair"
  by (rule queue_well_formed [OF joined_reachable(2)])

text \<open>C7: The update of a queue always ends, and it takes nobody out of the queue and puts nobody else into
  another group: after it the same players are in the same groups, and the queue is as well formed as before.\<close>

theorem update_ends:
  assumes "bg_reachable q" "length (bq_players q) < 2 ^ 31" "bgs_small q"
  shows "\<exists>q'. BattlegroundQueueUpdate w t b arenaType rated rating q = Some q' \<and> bq_players q' = bq_players q \<and> bq_ok q'"
proof -
  have "bg_fit q" using assms bg_reachable_ok by (simp add: bg_fit_def)
  from update_ok [OF this, of w t b arenaType rated rating] show ?thesis using update_players by blast
qed

theorem update_ends_witness:
  "\<exists>q'. BattlegroundQueueUpdate sample_bg_world 2 3 0 False 0 joined_alone = Some q' \<and> bq_players q' = bq_players joined_alone \<and> bq_ok q'"
proof -
  have "length (bq_players joined_alone) = 1" "bq_bgs joined_alone = []" by code_simp+
  then have "length (bq_players joined_alone) < 2 ^ 31" "bgs_small joined_alone" by (simp_all add: bgs_small_def maxes_def)
  from update_ends [OF joined_reachable(1) this] show ?thesis .
qed

text \<open>C13: When a player is taken out of the queue, he is gone afterwards, and so is, when his group is a
  rated arena team that is not yet invited, everybody else of the team; all other players stay where they are.\<close>

theorem QueueRemovePlayer_takes_out:
  assumes "bg_reachable q" "om_find (bq_players q) g = Some (t, p)"
  shows "om_find (bq_players (QueueRemovePlayer w g dec q)) h = (if leaves_with q p g h then None else om_find (bq_players q) h)"
  using bg_reachable_ok [OF assms(1)] assms(2) by (rule remove_outcome)

theorem QueueRemovePlayer_takes_out_witness:
  "om_find (bq_players (QueueRemovePlayer sample_bg_world 8 True joined_pair)) 9 = None"
proof -
  have g: "om_find (bq_players joined_pair) 8 = Some (1000, 1)" and l: "leaves_with joined_pair 1 8 9" by code_simp+
  show ?thesis using QueueRemovePlayer_takes_out [OF joined_reachable(2) g, of sample_bg_world True 9] l by simp
qed

text \<open>C15: The check for a normal match selects for each team groups of its list that are not invited, each
  once and together not more players than allowed; it succeeds only with the minimum of players on both sides (or in a test with any
  player at all), and unless balance is switched off, two such sides differ by at most two players.\<close>

theorem CheckNormalMatch_fair:
  assumes "list_ready (\<lambda>p. info p q) (bq_lists q b BG_NORMAL)" "list_ready (\<lambda>p. info p q) (bq_lists q b (BG_NORMAL + 1))"
    and "bq_pools q 0 = pool_init" "bq_pools q 1 = pool_init" "CheckNormalMatch w arena b mn mx q = (ok, q')"
  shows "selected_for (\<lambda>p. info p q) (bq_lists q b BG_NORMAL) (unat mx) (bq_pools q' 0) \<and>
    selected_for (\<lambda>p. info p q) (bq_lists q b (BG_NORMAL + 1)) (unat mx) (bq_pools q' 1) \<and> (ok \<longrightarrow> fair w arena mn q')"
  using normal_match_result [OF assms] by blast

theorem CheckNormalMatch_fair_witness:
  "fair sample_bg_world False 1 (snd (CheckNormalMatch sample_bg_world False 0 1 4 sample_bg_queue))"
proof -
  have h: "list_ready (\<lambda>p. info p sample_bg_queue) (bq_lists sample_bg_queue 0 BG_NORMAL)"
    "list_ready (\<lambda>p. info p sample_bg_queue) (bq_lists sample_bg_queue 0 (BG_NORMAL + 1))"
    "bq_pools sample_bg_queue 0 = pool_init" "bq_pools sample_bg_queue 1 = pool_init"
    by (simp_all add: list_ready_def sz_def info_def om_at_def pool_init_def sample_bg_queue_def bg_queue_init_def)
  have c: "CheckNormalMatch sample_bg_world False 0 1 4 sample_bg_queue =
    (True, snd (CheckNormalMatch sample_bg_world False 0 1 4 sample_bg_queue))"
  proof -
    have "fst (CheckNormalMatch sample_bg_world False 0 1 4 sample_bg_queue)" by code_simp
    then show ?thesis by (simp add: prod_eq_iff)
  qed
  show ?thesis using CheckNormalMatch_fair [OF h c] by blast
qed

text \<open>C21: The average waiting time of a queue is the sum of the last ten waits, divided by ten; with fewer
  than ten invitations, or when the wait in the tenth place of the ring is zero, it is zero.\<close>

theorem GetAverageQueueWaitTime_last_ten:
  assumes "list_all (\<lambda>x. wait_team (snd x) = wait_team gi) xs"
  shows "GetAverageQueueWaitTime gi b (invite_waits b xs) =
    (if length xs < 10 \<or> waited (xs ! (10 * (length xs div 10) - 1)) = 0 then 0
     else sum_list (drop (length xs - 10) (map waited xs)) div 10)"
  using assms by (rule average_last_ten)

theorem GetAverageQueueWaitTime_last_ten_witness:
  "GetAverageQueueWaitTime bg_info_init 2 (invite_waits 2 (replicate 10 (sample_bg_world, bg_info_init))) = 1000"
proof -
  let ?xs = "replicate 10 (sample_bg_world, bg_info_init)"
  have h: "list_all (\<lambda>x. wait_team (snd x) = wait_team bg_info_init) ?xs" by (simp add: list_all_iff)
  have v: "waited (sample_bg_world, bg_info_init) = 1000" by code_simp
  show ?thesis unfolding GetAverageQueueWaitTime_last_ten [OF h] by (simp add: v sum_list_replicate)
qed

text \<open>C26: The scheduled updates are done once each and in their order when there are fewer than 256 of them;
  the loop over 256 or more never ends, because its counter has eight bits.\<close>

theorem run_scheduled_outcome: "run_scheduled f ids s = (if length ids < 256 then Some (fold f ids s) else None)"
proof (cases "length ids < 256")
  case True
  then show ?thesis using scheduler_runs [of ids 0 f s] by (auto simp: run_scheduled_def)
next
  case False
  then show ?thesis using scheduler_ends [of f ids 0 s] by (cases "scheduler_loop f ids 0 s") (auto simp: run_scheduled_def)
qed

text \<open>What an entry of the scheduler was made of is read back from it, as long as the queue, the type
  and the bracket fit in eight bits each.\<close>

theorem scheduled_roundtrip:
  assumes "qt < 256" "t < 256" "b < 256"
  shows "scheduled (schedule_id rating arenaType qt t b) = (rating, arenaType, qt, t, b)"
  using schedule_parts [OF assms] by (simp add: scheduled_def)

theorem scheduled_roundtrip_witness: "scheduled (schedule_id 1500 3 9 6 14) = (1500, 3, 9, 6, 14)"
  by (rule scheduled_roundtrip) simp_all

text \<open>C27: A premade match is made of at most one group on each side.  The groups of the normal queue that
  should fill up the smaller side never do, because the size they are filled up to is that of the smaller side.\<close>

theorem premade_never_filled:
  assumes "list_all (\<lambda>p. 0 < gsize p q) (bq_lists q b BG_NORMAL)" "list_all (\<lambda>p. 0 < gsize p q) (bq_lists q b (BG_NORMAL + 1))"
    and "bq_pools q 0 = pool_init" "bq_pools q 1 = pool_init" "CheckPremadeMatch w b mn mx q = (True, q')"
  shows "\<exists>pa ph. pa \<in> set (bq_lists q b BG_PREMADE) \<and> ph \<in> set (bq_lists q b (BG_PREMADE + 1)) \<and>
    sp_groups (bq_pools q' 0) \<in> {[], [pa]} \<and> sp_groups (bq_pools q' 1) \<in> {[], [ph]}"
  using assms by (rule premade_result)

text \<open>One of the alliance against two of the horde, while another of the alliance waits in the normal queue.\<close>

definition sample_premade :: bg_queue where
  "sample_premade = sample_bg_queue\<lparr>bq_infos := om_put 3 (bg_info_init\<lparr>gi_players := [15], gi_team := TEAM_OF_ALLIANCE\<rparr>) (bq_infos sample_bg_queue),
     bq_lists := (\<lambda>b j. if b = 0 then [[0], [1], [3], []] ! j else [])\<rparr>"

theorem premade_never_filled_witness:
  "\<exists>pa ph. pa \<in> {0} \<and> ph \<in> {1} \<and>
    sp_groups (bq_pools (snd (CheckPremadeMatch sample_bg_world 0 1 4 sample_premade)) 0) \<in> {[], [pa]} \<and>
    sp_groups (bq_pools (snd (CheckPremadeMatch sample_bg_world 0 1 4 sample_premade)) 1) \<in> {[], [ph]}"
proof -
  let ?q = sample_premade
  have v: "bq_lists ?q 0 BG_PREMADE = [0]" "bq_lists ?q 0 (BG_PREMADE + 1) = [1]" by (simp_all add: sample_premade_def)
  have h: "list_all (\<lambda>p. 0 < gsize p ?q) (bq_lists ?q 0 BG_NORMAL)" "list_all (\<lambda>p. 0 < gsize p ?q) (bq_lists ?q 0 (BG_NORMAL + 1))"
    "bq_pools ?q 0 = pool_init" "bq_pools ?q 1 = pool_init"
    by (simp_all add: sample_premade_def sample_bg_queue_def bg_queue_init_def pool_init_def gsize_def info_def om_at_def)
  have "fst (CheckPremadeMatch sample_bg_world 0 1 4 ?q)" by code_simp
  then have c: "CheckPremadeMatch sample_bg_world 0 1 4 ?q = (True, snd (CheckPremadeMatch sample_bg_world 0 1 4 ?q))" by (simp add: prod_eq_iff)
  show ?thesis using premade_never_filled [OF h c] unfolding v by simp
qed

end
