(* ===== verification/Spec2Isabelle.thy ===== *)
theory Spec2Isabelle
  imports EventMap ByteBuffer ObjectGuid RBAC BotEngine LfgJoin GroupRolls GroupFinder GroupClients ChannelSafety BgOutcomes
begin

text \<open>
  Verification of a game server and its bots: TrinityCore for the 3.3.5 client, with the playerbot
  plugin.  All paths below are under \<^verbatim>\<open>src/src\<close>.

  \<^bold>\<open>How the program is put together.\<close>  The world server (\<^verbatim>\<open>server/game\<close>) runs one
  update loop.  Network threads fill a byte buffer per socket (\<^verbatim>\<open>MessageBuffer\<close>), packets are cut out of it
  into \<^verbatim>\<open>ByteBuffer\<close> and handed to the packet handlers of a session, which ask the account's permissions
  (RBAC) and call into the managers: groups, dungeon finder, chat channels, battleground queues.  Objects are named by 64-bit
  guids.  Creature scripts keep their timers in an \<^verbatim>\<open>EventMap\<close>.  A bot is a player without a client: an
  engine that picks, in every tick, one action out of a queue that triggers and strategies fill.
  The managers do not share memory: a group tells the dungeon finder of its changes by script hooks, the
  finder asks the groups by guid, a channel keeps guids.

  \<^bold>\<open>Theories and the code they model.\<close>
  \<^item> \<open>Prelude\<close>: machine integers of the code as words, the ordered containers \<^verbatim>\<open>std::map\<close>
    (ascending association lists, \<open>om_...\<close>) and \<^verbatim>\<open>std::set\<close> (\<open>os_...\<close>), updates by index, and the lemmas
    about them that all proofs share (collections \<open>map_simps\<close>, \<open>inv_intros\<close>).  Locale \<open>keyed_store\<close>, interpreted as \<open>omap\<close>.
  \<^item> \<open>EventMap\<close>: \<^verbatim>\<open>common/Utilities/EventMap.h/.cpp\<close>, the multimap of events, phases, groups, delays; step
    relation \<open>em_step\<close>.  The event that is run is the earliest that is due in the current phase.
  \<^item> \<open>MessageBuffer\<close>: \<^verbatim>\<open>server/shared/Networking/MessageBuffer.h\<close>, two positions over a vector; locale
    \<open>byte_queue\<close>, interpreted as \<open>sockbuf\<close>: the buffer is a first-in first-out queue of bytes.
  \<^item> \<open>ByteBuffer\<close>: \<^verbatim>\<open>server/shared/Packets/ByteBuffer.h\<close>; exceptions are values of a sum.  Locale \<open>codec\<close>
    (what is appended is read back, and nothing else is consumed) with one interpretation for each integer width,
    strings and packed guids.
  \<^item> \<open>ObjectGuid\<close>: layout, kinds and generators of guids; generated guids are different.
  \<^item> \<open>RBAC\<close>: \<^verbatim>\<open>server/game/Accounts/RBAC.*\<close> and the permission part of \<^verbatim>\<open>AccountMgr.cpp\<close>; effective permissions
    are the closure of the granted ones; the denied ones, which the code means to subtract, make no difference.
  \<^item> \<open>BotContext\<close>, \<open>BotEngine\<close>: \<^verbatim>\<open>plugins/playerbot/strategy\<close>.  Factories and named objects; queue, engine, strategies,
    triggers, multipliers, custom strategies.  What an action does is a parameter.  Locale
    \<open>relevance_queue\<close>, interpreted as \<open>rq\<close>; reachable engines \<open>engine_reachable\<close>.
  \<^item> \<open>LfgData\<close>, \<open>LfgQueue\<close>, \<open>LfgMgr\<close>, \<open>LfgTables\<close>, \<open>LfgJoin\<close> model \<^verbatim>\<open>server/game/DungeonFinding\<close>: player and group
    data with role assignment, the queue with its cache of compatible combinations, the manager (role
    checks, proposals, boots, hooks), the tables (dungeons, rewards, locks), joining and teleports.
    \<open>LfgSearch\<close> proves the search for groups correct (locale \<open>search_invariant\<close>, two interpretations),
    \<open>LfgOutcomes\<close> what every operation of the manager achieves (locales \<open>lfg_stateful\<close>, \<open>state_table\<close>).
  \<^item> \<open>GroupState\<close>, \<open>GroupLoot\<close>, \<open>GroupCore\<close>, \<open>GroupMembers\<close>, \<open>GroupHandlers\<close> model \<^verbatim>\<open>server/game/Groups\<close>, the references of
    \<^verbatim>\<open>common/Dynamic/LinkedReference\<close> and \<^verbatim>\<open>server/game/Handlers/GroupHandler.cpp\<close>: state, loot rolls,
    manager and references, membership, packets.  \<open>GroupInvariant\<close>, \<open>GroupSteps\<close>, \<open>GroupReach\<close> show that every reachable
    state is well formed, \<open>GroupLinks\<close> that references agree in both directions, \<open>GroupRolls\<close> what a loot roll promises,
    \<open>GroupTrace\<close> and \<open>GroupFinder\<close> that the dungeon finder, which sees hooks only, follows the groups (the two
    components composed), \<open>GroupClients\<close> what sequences of client packets can and cannot do.
  \<^item> \<open>Channels\<close>, \<open>ChannelOps\<close>, \<open>ChannelSafety\<close>: \<^verbatim>\<open>server/game/Chat/Channels\<close> and
    \<^verbatim>\<open>server/game/Handlers/ChannelHandler.cpp\<close>.  Locale \<open>channel_invariant\<close> with two interpretations: channels stay
    well formed, and a banned player stays out.
  \<^item> \<open>BgQueue\<close>, \<open>BgMatch\<close> model \<^verbatim>\<open>server/game/Battlegrounds/BattlegroundQueue.*\<close> with the scheduler of
    \<^verbatim>\<open>BattlegroundMgr.cpp\<close> and the free slots of \<^verbatim>\<open>Battleground.cpp\<close>: state, joining, leaving, invitations; matches and
    the update.  \<open>BgFill\<close> proves that filling a battleground ends and fits, \<open>BgMembers\<close>, \<open>BgUpdate\<close>, \<open>BgReach\<close>
    that every reachable queue (\<open>bg_reachable\<close>, locale \<open>queue_invariant\<close>) is well formed and that its update ends, \<open>BgOutcomes\<close> holds the properties.

  \<^bold>\<open>Conventions.\<close>  A class is a record, an operation a function from state to state that keeps the
  order of the code's effects; packets, database statements, calls into other objects and hooks are
  values appended to a log, so that properties can speak of them.  Early returns, errors and exceptions are
  branches (\<open>option\<close>, sums or result enumerations of the code).  Integers keep their width; guids are
  64-bit words.  An object that is shared by pointers (groups, rolls, loots) stands in a map from
  addresses, so that dangling references can be expressed and are excluded by proof, or exhibited.  What is not code
  of this repository, or not of the component (players, maps, settings, templates, random
  numbers, the clock), is a record of functions given to the operation: \<open>lfg_world\<close>, \<open>party_world\<close>, \<open>party_client\<close>,
  \<open>chat_world\<close>, \<open>bg_world\<close>, \<open>bot_env\<close>.

  \<^bold>\<open>Loops and fuel.\<close>  Loops over containers are folds or structural recursion.  The others have a
  termination proof: the closure of permissions (\<open>expand_loop\<close>), reading a string and packing a guid, the search
  for a free group id (\<open>free_slot\<close>), ending all rolls (\<open>EndRoll\<close>), draining the action queue and the bot's
  decision loop (\<open>DoNextAction\<close>, which has the code's own bound on iterations), splitting a chat line, removing a rated team from a queue.  The loop that balances
  the teams of a battleground (\<open>balance_loop\<close>) and the loop over scheduled updates (\<open>scheduler_loop\<close>) are partial functions, whose value
  \<open>None\<close> is a loop that does not end: the first is proved to end, the second to end exactly with fewer than 256 updates.  Fuel is used twice.  The
  search for groups recurses over the list of entries that may still be added; every round takes one entry off it, its length is the fuel, and
  \<open>FindNewGroups_terminates\<close> shows that more fuel changes nothing; the outer loop over new entries has the length of the
  list of new entries, and \<open>FindGroups_drains\<close> shows that this empties it.  Role assignment calls itself
  with one role bit of the map cleared; its fuel is one more than the number of role bits, and the lemmas on \<open>CheckGroupRoles\<close>
  show that it finds an assignment whenever there is one.

  \<^bold>\<open>What the properties show.\<close>  Safety of what is decided for players: only combinations that fit
  become proposals, roles are assigned exactly when possible, a bot runs the most relevant action, banned players stay out, who lacks a rank the
  code asks for changes nothing.  State invariants over all reachable states; for groups these start at an empty server or after
  \<open>LoadGroups\<close> has read tables in which no group has more rows than places.  Refinement: the finder's view of a group, the buffer as a queue.  Round trips of packets, rows and stored
  lists.  Termination and progress of the searches.  And, where the code does not do what it means to, a theorem that exhibits it.

  \<^bold>\<open>Not modelled.\<close>  Floating-point operators and maps of \<^verbatim>\<open>ByteBuffer\<close> and all other floating-point
  arithmetic (no faithful model among the library theories used here; where a decision depends on it the
  result is a parameter).  Maps, grids, movement and the entities (\<^verbatim>\<open>Player\<close>, \<^verbatim>\<open>Unit\<close>, \<^verbatim>\<open>Creature\<close>, \<^verbatim>\<open>Item\<close>), spells and auras,
  combat: they are tied together by virtual calls and floating-point formulas, and only what the modelled components read of them
  appears, as a parameter.  \<^verbatim>\<open>server/scripts\<close> (content of dungeons, spells and commands), the actions,
  triggers and strategies of the bots (content, calling into entities) and the tables of \<^verbatim>\<open>ObjectMgr\<close> (loading of
  rows).  The course of a battleground, arena teams, guilds, achievements, auctions, mail, trade, conditions, pools, instances and
  outdoor zones.  Database layer, network threads, authentication, remote access (input and
  output), map extraction tools, and the vendored libraries under \<^verbatim>\<open>dep\<close>.
\<close>

end
